(* ===== verification/Prelude.thy ===== *)
theory Prelude
  imports Main
begin

text \<open>
  Shared vocabulary of the development: the Python exceptions the modelled code raises or
  catches, results that are either such an exception or a value, points in time, database
  tables as lists of rows in insertion order, Python string helpers, and the contract that
  every \<^verbatim>\<open>StrEnum\<close> of \<^verbatim>\<open>src/src/domain/enums.py\<close> meets.

  A Python \<^verbatim>\<open>str\<close> is a list of characters here, each a code point below 256. A
  \<^verbatim>\<open>datetime\<close> is the number of microseconds since 1970-01-01T00:00:00 UTC, the resolution
  of the Python type.
\<close>

section \<open>Rules collected for the component proofs\<close>

named_theorems table_simps \<open>rewrite rules for reading tables after an update\<close>
named_theorems keeps \<open>preservation lemmas of the component invariants\<close>
named_theorems op_defs \<open>definitions of the operations of a component\<close>

section \<open>Exceptions and results\<close>

text \<open>
  \<^verbatim>\<open>NotFoundError\<close> and \<^verbatim>\<open>ConflictError\<close> are subclasses of \<^verbatim>\<open>ValueError\<close> in
  \<^verbatim>\<open>src/src/infrastructure/repositories/common.py\<close>; \<^verbatim>\<open>PipelineError\<close> carries its code first.
\<close>

datatype exn =
    ValueError string
  | NotFoundError string
  | ConflictError string
  | PermissionError string
  | RuntimeError string
  | PipelineError string string
  | LocalSourcePathError string string
  | CancelledError
  | IntegrityError
  | KeyError string
  | TypeError string
  | OSError string

type_synonym 'a result = "exn + 'a"

definition is_value_error :: "exn \<Rightarrow> bool" where
  "is_value_error e = (case e of ValueError _ \<Rightarrow> True | NotFoundError _ \<Rightarrow> True
     | ConflictError _ \<Rightarrow> True | LocalSourcePathError _ _ \<Rightarrow> True | _ \<Rightarrow> False)"

definition bind_result :: "'a result \<Rightarrow> ('a \<Rightarrow> 'b result) \<Rightarrow> 'b result" where
  "bind_result r f = (case r of Inl e \<Rightarrow> Inl e | Inr a \<Rightarrow> f a)"

definition guard_result :: "bool \<Rightarrow> exn \<Rightarrow> unit result" where
  "guard_result ok e = (if ok then Inr () else Inl e)"

lemma bind_result_simps [simp]:
  "bind_result (Inl e) f = Inl e"
  "bind_result (Inr a) f = f a"
  by (simp_all add: bind_result_def)

lemma bind_result_Inr: "bind_result r f = Inr b \<longleftrightarrow> (\<exists>a. r = Inr a \<and> f a = Inr b)"
  by (cases r) auto

lemma bind_result_Inl:
  "bind_result r f = Inl e \<longleftrightarrow> r = Inl e \<or> (\<exists>a. r = Inr a \<and> f a = Inl e)"
  by (cases r) auto

lemma guard_result_Inr [simp]: "guard_result ok e = Inr u \<longleftrightarrow> ok"
  by (simp add: guard_result_def)

lemma guard_result_Inl [simp]: "guard_result ok e = Inl e' \<longleftrightarrow> \<not> ok \<and> e' = e"
  by (auto simp: guard_result_def)

text \<open>A loop over a list that stops at the first exception, collecting the values.\<close>

fun map_result :: "('a \<Rightarrow> 'b result) \<Rightarrow> 'a list \<Rightarrow> 'b list result" where
  "map_result f [] = Inr []"
| "map_result f (x # xs) =
     bind_result (f x) (\<lambda>y. bind_result (map_result f xs) (\<lambda>ys. Inr (y # ys)))"

lemma map_result_all: "(\<And>x. x \<in> set xs \<Longrightarrow> f x = Inr (g x)) \<Longrightarrow> map_result f xs = Inr (map g xs)"
  by (induction xs) auto

lemma map_result_Inr_all: "map_result f xs = Inr ys \<Longrightarrow> x \<in> set xs \<Longrightarrow> \<exists>y \<in> set ys. f x = Inr y"
  by (induction xs arbitrary: ys) (auto simp: bind_result_Inr)

section \<open>Time\<close>

type_synonym time = int

definition seconds :: "int \<Rightarrow> int" where
  "seconds n = n * 1000000"

lemma seconds_mono [simp]: "seconds m \<le> seconds n \<longleftrightarrow> m \<le> n"
  by (simp add: seconds_def)

lemma seconds_nonneg [simp]: "0 \<le> seconds n \<longleftrightarrow> 0 \<le> n"
  by (simp add: seconds_def)

lemma seconds_pos [simp]: "0 < seconds n \<longleftrightarrow> 0 < n"
  by (simp add: seconds_def)

section \<open>Tables\<close>

text \<open>
  A table is the list of its rows in insertion order. \<^verbatim>\<open>UPDATE ... WHERE\<close> is
  \<open>update_where\<close>; a \<^verbatim>\<open>SELECT ... LIMIT 1\<close> with \<^verbatim>\<open>ORDER BY\<close> is \<open>first_by\<close>, which
  returns the row whose key is least and, among equal keys, the first.
\<close>

definition update_where :: "('r \<Rightarrow> bool) \<Rightarrow> ('r \<Rightarrow> 'r) \<Rightarrow> 'r list \<Rightarrow> 'r list" where
  "update_where p f rows = map (\<lambda>r. if p r then f r else r) rows"

fun first_by :: "('r \<Rightarrow> 'r \<Rightarrow> bool) \<Rightarrow> 'r list \<Rightarrow> 'r option" where
  "first_by lt [] = None"
| "first_by lt (r # rs) =
     (case first_by lt rs of None \<Rightarrow> Some r | Some b \<Rightarrow> Some (if lt b r then b else r))"

lemma update_where_simps [simp]:
  "update_where p f [] = []"
  "update_where p f (r # rs) = (if p r then f r else r) # update_where p f rs"
  by (simp_all add: update_where_def)

lemma length_update_where [simp]: "length (update_where p f rows) = length rows"
  by (simp add: update_where_def)

lemma set_update_where:
  "set (update_where p f rows) = f ` {r \<in> set rows. p r} \<union> {r \<in> set rows. \<not> p r}"
  by (auto simp: update_where_def)

lemma mem_update_where:
  "x \<in> set (update_where p f rows) \<longleftrightarrow>
     (\<exists>r \<in> set rows. p r \<and> x = f r) \<or> x \<in> set rows \<and> \<not> p x"
  by (auto simp: set_update_where)

lemma map_key_update_where [table_simps]:
  "(\<And>r. p r \<Longrightarrow> k (f r) = k r) \<Longrightarrow> map k (update_where p f rows) = map k rows"
  by (induction rows) auto

lemma update_where_none: "(\<And>r. r \<in> set rows \<Longrightarrow> \<not> p r) \<Longrightarrow> update_where p f rows = rows"
  by (induction rows) auto

lemma update_where_append:
  "update_where p f (xs @ ys) = update_where p f xs @ update_where p f ys"
  by (simp add: update_where_def)

lemma first_by_None [simp]: "first_by lt rs = None \<longleftrightarrow> rs = []"
  by (induction rs) (auto split: option.splits)

lemma first_by_mem: "first_by lt rs = Some r \<Longrightarrow> r \<in> set rs"
  by (induction rs arbitrary: r) (auto split: option.splits if_splits)

lemma first_by_least:
  assumes "first_by lt rs = Some r"
    and trans: "\<And>a b c. \<not> lt b a \<Longrightarrow> \<not> lt c b \<Longrightarrow> \<not> lt c a"
    and asym: "\<And>a b. lt a b \<Longrightarrow> \<not> lt b a"
    and irrefl: "\<And>a. \<not> lt a a"
  shows "\<forall>x \<in> set rs. \<not> lt x r"
  using assms(1)
proof (induction rs arbitrary: r)
  case Nil
  then show ?case by simp
next
  case (Cons y ys)
  show ?case
  proof (cases "first_by lt ys")
    case None
    with Cons.prems irrefl show ?thesis by auto
  next
    case (Some b)
    with Cons.IH have b: "\<forall>x \<in> set ys. \<not> lt x b" by blast
    show ?thesis
    proof (cases "lt b y")
      case True
      with Some Cons.prems have "r = b" by simp
      with b True asym show ?thesis by auto
    next
      case False
      with Some Cons.prems have "r = y" by simp
      with b False trans irrefl show ?thesis by auto
    qed
  qed
qed

text \<open>Looking a row up by its primary key.\<close>

lemma find_SomeD: "find p xs = Some x \<Longrightarrow> x \<in> set xs \<and> p x"
  by (auto simp: find_Some_iff)

lemma find_append:
  "find p (xs @ ys) = (case find p xs of None \<Rightarrow> find p ys | Some x \<Rightarrow> Some x)"
  by (induction xs) auto

lemma find_distinct_key:
  "distinct (map k xs) \<Longrightarrow> x \<in> set xs \<Longrightarrow> find (\<lambda>y. k y = k x) xs = Some x"
  by (induction xs) auto

lemma distinct_key_eq:
  "distinct (map k xs) \<Longrightarrow> x \<in> set xs \<Longrightarrow> y \<in> set xs \<Longrightarrow> k x = k y \<Longrightarrow> x = y"
  by (auto simp: distinct_map dest: inj_onD)

lemma find_update_where_key:
  "(\<And>r. k (f r) = k r) \<Longrightarrow>
   find (\<lambda>r. k r = i) (update_where (\<lambda>r. k r = j) f rows) =
     (if i = j then map_option f (find (\<lambda>r. k r = i) rows) else find (\<lambda>r. k r = i) rows)"
  by (induction rows) auto

section \<open>Python strings\<close>

text \<open>\<^verbatim>\<open>str.isspace\<close> on code points below 256.\<close>

definition is_space :: "char \<Rightarrow> bool" where
  "is_space c = (let n = (of_char c :: nat) in
     (9 \<le> n \<and> n \<le> 13) \<or> (28 \<le> n \<and> n \<le> 32) \<or> n = 133 \<or> n = 160)"

definition strip_by :: "(char \<Rightarrow> bool) \<Rightarrow> string \<Rightarrow> string" where
  "strip_by p s = rev (dropWhile p (rev (dropWhile p s)))"

definition strip :: "string \<Rightarrow> string" where
  "strip s = strip_by is_space s"

definition starts_with :: "string \<Rightarrow> string \<Rightarrow> bool" where
  "starts_with pre s = (take (length pre) s = pre)"

definition ends_with :: "string \<Rightarrow> string \<Rightarrow> bool" where
  "ends_with suf s = (drop (length s - length suf) s = suf \<and> length suf \<le> length s)"

fun split_on :: "char \<Rightarrow> string \<Rightarrow> string list" where
  "split_on c [] = [[]]"
| "split_on c (x # xs) =
     (if x = c then [] # split_on c xs
      else case split_on c xs of [] \<Rightarrow> [[x]] | w # ws \<Rightarrow> (x # w) # ws)"

fun join_with :: "string \<Rightarrow> string list \<Rightarrow> string" where
  "join_with sep [] = []"
| "join_with sep [w] = w"
| "join_with sep (w # ws) = w @ sep @ join_with sep ws"

definition is_digit :: "char \<Rightarrow> bool" where
  "is_digit c = (let n = (of_char c :: nat) in 48 \<le> n \<and> n \<le> 57)"

definition is_lower :: "char \<Rightarrow> bool" where
  "is_lower c = (let n = (of_char c :: nat) in 97 \<le> n \<and> n \<le> 122)"

definition is_alnum :: "char \<Rightarrow> bool" where
  "is_alnum c = (let n = (of_char c :: nat) in
     (48 \<le> n \<and> n \<le> 57) \<or> (65 \<le> n \<and> n \<le> 90) \<or> (97 \<le> n \<and> n \<le> 122))"

definition digit_value :: "char \<Rightarrow> int" where
  "digit_value c = int (of_char c :: nat) - 48"

text \<open>
  \<^verbatim>\<open>int(s)\<close>: white space around an optional sign and decimal digits, single underscores
  allowed between digits.
\<close>

fun read_digits :: "int \<Rightarrow> bool \<Rightarrow> string \<Rightarrow> int option" where
  "read_digits acc after_digit [] = (if after_digit then Some acc else None)"
| "read_digits acc after_digit (c # cs) =
     (if is_digit c then read_digits (acc * 10 + digit_value c) True cs
      else if c = CHR ''_'' \<and> after_digit then read_digits acc False cs
      else None)"

definition py_int :: "string \<Rightarrow> int result" where
  "py_int s =
     (let t = strip s;
          (sign, body) = (case t of
             c # cs \<Rightarrow> if c = CHR ''-'' then (- 1, cs) else if c = CHR ''+'' then (1, cs) else (1, t)
           | [] \<Rightarrow> (1, t))
      in case read_digits 0 False body of
           None \<Rightarrow> Inl (ValueError ''invalid literal for int()'')
         | Some n \<Rightarrow> Inr (sign * n))"

text \<open>\<^verbatim>\<open>str(n)\<close> for a natural number, and its zero-padded form \<^verbatim>\<open>f"{n:0{width}d}"\<close>.\<close>

fun show_nat :: "nat \<Rightarrow> string" where
  "show_nat n = (if n < 10 then [char_of (48 + n)] else show_nat (n div 10) @ [char_of (48 + n mod 10)])"

declare show_nat.simps [simp del]

definition show_padded :: "nat \<Rightarrow> nat \<Rightarrow> string" where
  "show_padded width n = (let s = show_nat n in replicate (width - length s) (CHR ''0'') @ s)"

lemma strip_by_hd: "strip_by p s \<noteq> [] \<Longrightarrow> \<not> p (last (strip_by p s))"
  using hd_dropWhile [of p "rev (dropWhile p s)"] by (auto simp: strip_by_def last_rev)

lemma set_strip_by: "set (strip_by p s) \<subseteq> set s"
  using set_dropWhileD [of _ p s] set_dropWhileD [of _ p "rev (dropWhile p s)"]
  by (auto simp: strip_by_def)

lemma length_strip_by: "length (strip_by p s) \<le> length s"
proof -
  have "length (dropWhile p (rev (dropWhile p s))) \<le> length (dropWhile p s)"
    using length_dropWhile_le [of p "rev (dropWhile p s)"] by simp
  also have "\<dots> \<le> length s" by (rule length_dropWhile_le)
  finally show ?thesis by (simp add: strip_by_def)
qed

lemma split_on_ne [simp]: "split_on c s \<noteq> []"
  by (induction s) (auto split: list.splits)

section \<open>String enumerations\<close>

text \<open>
  A \<^verbatim>\<open>StrEnum\<close> has a list of members and a \<^verbatim>\<open>.value\<close> for each; calling the class
  with a string looks the member up and raises \<^verbatim>\<open>ValueError\<close> for any other string.
\<close>

definition enum_of :: "'e list \<Rightarrow> ('e \<Rightarrow> string) \<Rightarrow> string \<Rightarrow> 'e result" where
  "enum_of members val s =
     (case find (\<lambda>e. val e = s) members of
        None \<Rightarrow> Inl (ValueError ''not a valid member'') | Some e \<Rightarrow> Inr e)"

locale str_enum =
  fixes members :: "'e list" and val :: "'e \<Rightarrow> string"
  assumes members_complete: "e \<in> set members"
    and values_distinct: "distinct (map val members)"
begin

lemma of_value [simp]: "enum_of members val (val e) = Inr e"
  using find_distinct_key [OF values_distinct members_complete, of e] by (simp add: enum_of_def)

lemma of_string: "enum_of members val s = Inr e \<longleftrightarrow> s = val e"
proof
  assume "enum_of members val s = Inr e"
  then show "s = val e"
    by (auto simp: enum_of_def split: option.splits dest: find_SomeD)
qed simp

lemma value_inject: "val e = val e' \<longleftrightarrow> e = e'"
  by (metis of_value sum.inject(2))

end

end
