(* ===== verification/Enums.thy ===== *)
theory Enums
  imports Prelude
begin

text \<open>
  The string enumerations of \<^verbatim>\<open>src/src/domain/enums.py\<close>: one datatype per class, its
  member list and its \<^verbatim>\<open>.value\<close>, and the proof that each is a \<^verbatim>\<open>StrEnum\<close> in the sense
  of \<open>str_enum\<close> (so a stored value parses back to its member, and nothing else parses).
\<close>

datatype role = Superadmin | Admin

definition all_roles :: "role list" where
  "all_roles = [Superadmin, Admin]"

fun role_value :: "role \<Rightarrow> string" where
  "role_value Superadmin = ''SUPERADMIN''"
| "role_value Admin = ''ADMIN''"

datatype language_code = English | Persian

definition all_languages :: "language_code list" where
  "all_languages = [English, Persian]"

fun language_value :: "language_code \<Rightarrow> string" where
  "language_value English = ''en''"
| "language_value Persian = ''fa''"

text \<open>The three legacy aliases of \<^verbatim>\<open>SourceType\<close> denote the members they serialize to.\<close>

datatype source_type = DatabaseType | FilesDirectories | GitLabType

definition all_source_types :: "source_type list" where
  "all_source_types = [DatabaseType, FilesDirectories, GitLabType]"

fun source_type_value :: "source_type \<Rightarrow> string" where
  "source_type_value DatabaseType = ''DATABASE''"
| "source_type_value FilesDirectories = ''FILES_DIRECTORIES''"
| "source_type_value GitLabType = ''GITLAB''"

datatype database_engine = PostgreSQL | MySQL_MariaDB | MSSQL

definition all_engines :: "database_engine list" where
  "all_engines = [PostgreSQL, MySQL_MariaDB, MSSQL]"

fun engine_value :: "database_engine \<Rightarrow> string" where
  "engine_value PostgreSQL = ''POSTGRESQL''"
| "engine_value MySQL_MariaDB = ''MYSQL_MARIADB''"
| "engine_value MSSQL = ''MSSQL''"

datatype tls_mode = TLS_Disabled | TLS_Preferred | TLS_Required | TLS_VerifyCA | TLS_VerifyFull

definition all_tls_modes :: "tls_mode list" where
  "all_tls_modes = [TLS_Disabled, TLS_Preferred, TLS_Required, TLS_VerifyCA, TLS_VerifyFull]"

fun tls_value :: "tls_mode \<Rightarrow> string" where
  "tls_value TLS_Disabled = ''DISABLED''"
| "tls_value TLS_Preferred = ''PREFERRED''"
| "tls_value TLS_Required = ''REQUIRED''"
| "tls_value TLS_VerifyCA = ''VERIFY_CA''"
| "tls_value TLS_VerifyFull = ''VERIFY_FULL''"

datatype source_location = LocalSource | RemoteServer

definition all_locations :: "source_location list" where
  "all_locations = [LocalSource, RemoteServer]"

fun location_value :: "source_location \<Rightarrow> string" where
  "location_value LocalSource = ''LOCAL''"
| "location_value RemoteServer = ''REMOTE_SERVER''"

datatype ssh_authentication_method = PrivateKey

definition all_ssh_methods :: "ssh_authentication_method list" where
  "all_ssh_methods = [PrivateKey]"

fun ssh_method_value :: "ssh_authentication_method \<Rightarrow> string" where
  "ssh_method_value PrivateKey = ''PRIVATE_KEY''"

datatype schedule_kind =
  Manual | Once | EveryNMinutes | EveryNHours | EveryNDays | Daily | Weekly | Monthly | Cron

definition all_schedule_kinds :: "schedule_kind list" where
  "all_schedule_kinds =
     [Manual, Once, EveryNMinutes, EveryNHours, EveryNDays, Daily, Weekly, Monthly, Cron]"

fun schedule_kind_value :: "schedule_kind \<Rightarrow> string" where
  "schedule_kind_value Manual = ''MANUAL''"
| "schedule_kind_value Once = ''ONCE''"
| "schedule_kind_value EveryNMinutes = ''EVERY_N_MINUTES''"
| "schedule_kind_value EveryNHours = ''EVERY_N_HOURS''"
| "schedule_kind_value EveryNDays = ''EVERY_N_DAYS''"
| "schedule_kind_value Daily = ''DAILY''"
| "schedule_kind_value Weekly = ''WEEKLY''"
| "schedule_kind_value Monthly = ''MONTHLY''"
| "schedule_kind_value Cron = ''CRON''"

datatype compression_format =
  Fmt_None | Fmt_Zstandard | Fmt_Gzip | Fmt_XZ | Fmt_Bzip2 | Fmt_Zip | Fmt_SevenZ

definition all_formats :: "compression_format list" where
  "all_formats = [Fmt_None, Fmt_Zstandard, Fmt_Gzip, Fmt_XZ, Fmt_Bzip2, Fmt_Zip, Fmt_SevenZ]"

fun format_value :: "compression_format \<Rightarrow> string" where
  "format_value Fmt_None = ''NONE''"
| "format_value Fmt_Zstandard = ''ZSTANDARD''"
| "format_value Fmt_Gzip = ''GZIP''"
| "format_value Fmt_XZ = ''XZ''"
| "format_value Fmt_Bzip2 = ''BZIP2''"
| "format_value Fmt_Zip = ''ZIP''"
| "format_value Fmt_SevenZ = ''SEVEN_Z''"

datatype archive_format = Arc_Tar | Arc_Zip | Arc_SevenZ

definition all_archives :: "archive_format list" where
  "all_archives = [Arc_Tar, Arc_Zip, Arc_SevenZ]"

fun archive_value :: "archive_format \<Rightarrow> string" where
  "archive_value Arc_Tar = ''TAR''"
| "archive_value Arc_Zip = ''ZIP''"
| "archive_value Arc_SevenZ = ''SEVEN_Z''"

datatype compression_algorithm = Alg_None | Alg_Gzip | Alg_Bzip2 | Alg_XZ | Alg_Zstandard | Alg_LZ4

definition all_algorithms :: "compression_algorithm list" where
  "all_algorithms = [Alg_None, Alg_Gzip, Alg_Bzip2, Alg_XZ, Alg_Zstandard, Alg_LZ4]"

fun algorithm_value :: "compression_algorithm \<Rightarrow> string" where
  "algorithm_value Alg_None = ''NONE''"
| "algorithm_value Alg_Gzip = ''GZIP''"
| "algorithm_value Alg_Bzip2 = ''BZIP2''"
| "algorithm_value Alg_XZ = ''XZ''"
| "algorithm_value Alg_Zstandard = ''ZSTANDARD''"
| "algorithm_value Alg_LZ4 = ''LZ4''"

datatype compression_preset = Fast | Balanced | High | Maximum

definition all_presets :: "compression_preset list" where
  "all_presets = [Fast, Balanced, High, Maximum]"

fun preset_value :: "compression_preset \<Rightarrow> string" where
  "preset_value Fast = ''FAST''"
| "preset_value Balanced = ''BALANCED''"
| "preset_value High = ''HIGH''"
| "preset_value Maximum = ''MAXIMUM''"

datatype encryption_mode = Enc_None | AgePublicKey | AgePassphrase

definition all_encryption_modes :: "encryption_mode list" where
  "all_encryption_modes = [Enc_None, AgePublicKey, AgePassphrase]"

fun encryption_value :: "encryption_mode \<Rightarrow> string" where
  "encryption_value Enc_None = ''NONE''"
| "encryption_value AgePublicKey = ''AGE_PUBLIC_KEY''"
| "encryption_value AgePassphrase = ''AGE_'' @ ''PASSPHRASE''"

datatype profile_status = Draft | Archived

definition all_profile_statuses :: "profile_status list" where
  "all_profile_statuses = [Draft, Archived]"

fun profile_status_value :: "profile_status \<Rightarrow> string" where
  "profile_status_value Draft = ''DRAFT''"
| "profile_status_value Archived = ''ARCHIVED''"

datatype run_trigger = TrigManual | TrigScheduled

definition all_triggers :: "run_trigger list" where
  "all_triggers = [TrigManual, TrigScheduled]"

fun trigger_value :: "run_trigger \<Rightarrow> string" where
  "trigger_value TrigManual = ''MANUAL''"
| "trigger_value TrigScheduled = ''SCHEDULED''"

datatype run_status = Queued | Running | DeliveryPending | Succeeded | Failed | Cancelled | Skipped

definition all_statuses :: "run_status list" where
  "all_statuses = [Queued, Running, DeliveryPending, Succeeded, Failed, Cancelled, Skipped]"

fun status_value :: "run_status \<Rightarrow> string" where
  "status_value Queued = ''QUEUED''"
| "status_value Running = ''RUNNING''"
| "status_value DeliveryPending = ''DELIVERY_PENDING''"
| "status_value Succeeded = ''SUCCEEDED''"
| "status_value Failed = ''FAILED''"
| "status_value Cancelled = ''CANCELLED''"
| "status_value Skipped = ''SKIPPED''"

datatype run_stage =
  StQueued | StBackup | StVerifySource | StCompress | StEncrypt | StChecksum | StFinalize
  | StPendingDelivery | StTelegramDelivery | StCleanup | StComplete

definition all_stages :: "run_stage list" where
  "all_stages = [StQueued, StBackup, StVerifySource, StCompress, StEncrypt, StChecksum,
     StFinalize, StPendingDelivery, StTelegramDelivery, StCleanup, StComplete]"

fun stage_value :: "run_stage \<Rightarrow> string" where
  "stage_value StQueued = ''QUEUED''"
| "stage_value StBackup = ''BACKUP''"
| "stage_value StVerifySource = ''VERIFY_SOURCE''"
| "stage_value StCompress = ''COMPRESS''"
| "stage_value StEncrypt = ''ENCRYPT''"
| "stage_value StChecksum = ''CHECKSUM''"
| "stage_value StFinalize = ''FINALIZE''"
| "stage_value StPendingDelivery = ''PENDING_DELIVERY''"
| "stage_value StTelegramDelivery = ''TELEGRAM_DELIVERY''"
| "stage_value StCleanup = ''CLEANUP''"
| "stage_value StComplete = ''COMPLETE''"

datatype delivery_status = DelPending | DelSucceeded | DelSkipped | DelFailed

definition all_delivery_statuses :: "delivery_status list" where
  "all_delivery_statuses = [DelPending, DelSucceeded, DelSkipped, DelFailed]"

fun delivery_status_value :: "delivery_status \<Rightarrow> string" where
  "delivery_status_value DelPending = ''PENDING''"
| "delivery_status_value DelSucceeded = ''SUCCEEDED''"
| "delivery_status_value DelSkipped = ''SKIPPED''"
| "delivery_status_value DelFailed = ''FAILED''"

datatype artifact_kind = FinalArtifact | ManifestArtifact

definition all_artifact_kinds :: "artifact_kind list" where
  "all_artifact_kinds = [FinalArtifact, ManifestArtifact]"

fun artifact_kind_value :: "artifact_kind \<Rightarrow> string" where
  "artifact_kind_value FinalArtifact = ''FINAL''"
| "artifact_kind_value ManifestArtifact = ''MANIFEST''"

lemmas member_lists = all_roles_def all_languages_def all_source_types_def all_engines_def
  all_tls_modes_def all_locations_def all_ssh_methods_def all_schedule_kinds_def all_formats_def
  all_archives_def all_algorithms_def all_presets_def all_encryption_modes_def
  all_profile_statuses_def all_triggers_def all_statuses_def all_stages_def
  all_delivery_statuses_def all_artifact_kinds_def

section \<open>Every class is a string enumeration\<close>

interpretation role_enum: str_enum all_roles role_value
proof
  show "e \<in> set all_roles" for e by (cases e) (simp_all add: member_lists)
qed (simp add: member_lists)

interpretation language_enum: str_enum all_languages language_value
proof
  show "e \<in> set all_languages" for e by (cases e) (simp_all add: member_lists)
qed (simp add: member_lists)

interpretation source_type_enum: str_enum all_source_types source_type_value
proof
  show "e \<in> set all_source_types" for e by (cases e) (simp_all add: member_lists)
qed (simp add: member_lists)

interpretation engine_enum: str_enum all_engines engine_value
proof
  show "e \<in> set all_engines" for e by (cases e) (simp_all add: member_lists)
qed (simp add: member_lists)

interpretation tls_enum: str_enum all_tls_modes tls_value
proof
  show "e \<in> set all_tls_modes" for e by (cases e) (simp_all add: member_lists)
qed (simp add: member_lists)

interpretation location_enum: str_enum all_locations location_value
proof
  show "e \<in> set all_locations" for e by (cases e) (simp_all add: member_lists)
qed (simp add: member_lists)

interpretation ssh_method_enum: str_enum all_ssh_methods ssh_method_value
proof
  show "e \<in> set all_ssh_methods" for e by (cases e) (simp_all add: member_lists)
qed (simp add: member_lists)

interpretation schedule_kind_enum: str_enum all_schedule_kinds schedule_kind_value
proof
  show "e \<in> set all_schedule_kinds" for e by (cases e) (simp_all add: member_lists)
qed (simp add: member_lists)

interpretation format_enum: str_enum all_formats format_value
proof
  show "e \<in> set all_formats" for e by (cases e) (simp_all add: member_lists)
qed (simp add: member_lists)

interpretation archive_enum: str_enum all_archives archive_value
proof
  show "e \<in> set all_archives" for e by (cases e) (simp_all add: member_lists)
qed (simp add: member_lists)

interpretation algorithm_enum: str_enum all_algorithms algorithm_value
proof
  show "e \<in> set all_algorithms" for e by (cases e) (simp_all add: member_lists)
qed (simp add: member_lists)

interpretation preset_enum: str_enum all_presets preset_value
proof
  show "e \<in> set all_presets" for e by (cases e) (simp_all add: member_lists)
qed (simp add: member_lists)

interpretation encryption_enum: str_enum all_encryption_modes encryption_value
proof
  show "e \<in> set all_encryption_modes" for e by (cases e) (simp_all add: member_lists)
qed (simp add: member_lists)

interpretation profile_status_enum: str_enum all_profile_statuses profile_status_value
proof
  show "e \<in> set all_profile_statuses" for e by (cases e) (simp_all add: member_lists)
qed (simp add: member_lists)

interpretation trigger_enum: str_enum all_triggers trigger_value
proof
  show "e \<in> set all_triggers" for e by (cases e) (simp_all add: member_lists)
qed (simp add: member_lists)

interpretation status_enum: str_enum all_statuses status_value
proof
  show "e \<in> set all_statuses" for e by (cases e) (simp_all add: member_lists)
qed (simp add: member_lists)

interpretation stage_enum: str_enum all_stages stage_value
proof
  show "e \<in> set all_stages" for e by (cases e) (simp_all add: member_lists)
qed (simp add: member_lists)

interpretation delivery_status_enum: str_enum all_delivery_statuses delivery_status_value
proof
  show "e \<in> set all_delivery_statuses" for e by (cases e) (simp_all add: member_lists)
qed (simp add: member_lists)

interpretation artifact_kind_enum: str_enum all_artifact_kinds artifact_kind_value
proof
  show "e \<in> set all_artifact_kinds" for e by (cases e) (simp_all add: member_lists)
qed (simp add: member_lists)

end
