(* ===== verification/Database.thy ===== *)
theory Database
  imports Enums
begin

text \<open>
  The control database: one record per table of \<^verbatim>\<open>src/src/database/models/\<close>, the record
  of all tables, and the constraints of the schema that the modelled statements rely on.
  Binary columns hold bytes, one \<open>char\<close> each. JSON text columns hold the JSON value the
  code dumps into them and loads back; the two path columns of a run hold the components of
  the absolute path whose text the code stores.
\<close>

type_synonym path = "string list"

section \<open>JSON values\<close>

type_synonym bytes = string

datatype json =
    JNull
  | JBool bool
  | JInt int
  | JStr string
  | JList "json list"
  | JObj "(string \<times> json) list"

section \<open>Rows\<close>

record user =
  u_id :: int
  u_telegram :: int
  u_name :: string
  u_role :: role
  u_language :: language_code
  u_enabled :: bool
  u_created_by :: "int option"
  u_last_seen :: "time option"
  u_deleted :: "time option"

record access_row =
  a_admin :: int
  a_profile :: int
  a_created_by :: int

record remote_server =
  s_id :: int
  s_name :: string
  s_host :: string
  s_port :: int
  s_username :: string
  s_method :: ssh_authentication_method
  s_key :: bytes
  s_passphrase :: "bytes option"
  s_fingerprint :: string
  s_enabled :: bool
  s_deleted :: "time option"

text \<open>
  The three source rows carry, besides the foreign key, the related server object: \<open>None\<close>
  in the stored row, filled in when the graph is eager-loaded or restored from a snapshot.
\<close>

record database_source =
  d_engine :: database_engine
  d_host :: string
  d_port :: int
  d_name :: string
  d_username :: string
  d_password :: bytes
  d_tls :: tls_mode
  d_tls_ca :: "string option"
  d_in_docker :: bool
  d_backup_path :: "string option"
  d_host_path :: "string option"
  d_server_id :: "int option"
  d_server :: "remote_server option"

record backup_path =
  bp_path :: string
  bp_sqlite :: bool

record files_source =
  f_location :: source_location
  f_server_id :: "int option"
  f_paths :: "backup_path list"
  f_server :: "remote_server option"

record gitlab_source =
  g_location :: source_location
  g_server_id :: "int option"
  g_container :: string
  g_backup_path :: "string option"
  g_server :: "remote_server option"

record profile =
  p_id :: int
  p_uuid :: string
  p_name :: string
  p_description :: "string option"
  p_source_type :: source_type
  p_enabled :: bool
  p_status :: profile_status
  p_kind :: schedule_kind
  p_interval :: "int option"
  p_time :: "string option"
  p_weekday :: "int option"
  p_monthday :: "int option"
  p_cron :: "string option"
  p_next :: "time option"
  p_format :: compression_format
  p_archive :: archive_format
  p_algorithm :: compression_algorithm
  p_preset :: "compression_preset option"
  p_encryption :: encryption_mode
  p_recipients :: "string option"
  p_age_secret :: "bytes option"
  p_created_by :: int
  p_archived_at :: "time option"
  p_database :: "database_source option"
  p_files :: "files_source option"
  p_gitlab :: "gitlab_source option"

record run =
  r_id :: int
  r_uuid :: string
  r_profile :: int
  r_trigger :: run_trigger
  r_scheduled_for :: "time option"
  r_status :: run_status
  r_stage :: run_stage
  r_skip_reason :: "string option"
  r_lease_owner :: "string option"
  r_lease_expires :: "time option"
  r_cancel :: bool
  r_started :: "time option"
  r_finished :: "time option"
  r_workspace :: "path option"
  r_pending_dir :: "path option"
  r_cleanup_at :: "time option"
  r_cleaned_at :: "time option"
  r_filename :: "string option"
  r_original_size :: "int option"
  r_final_size :: "int option"
  r_sha :: "string option"
  r_metadata :: "json option"
  r_snapshot :: "json option"
  r_error_code :: "string option"
  r_error_message :: "string option"
  r_created :: time
  r_updated :: time

record mssql_cleanup =
  c_run :: int
  c_operation :: string
  c_path :: string
  c_server_id :: "int option"
  c_retrieved :: "time option"
  c_size :: "int option"
  c_sha :: "string option"
  c_cleaned :: "time option"
  c_error :: "string option"

record delivery =
  dl_id :: int
  dl_run :: int
  dl_admin :: int
  dl_status :: delivery_status
  dl_attempts :: int
  dl_part_attempts :: int
  dl_next_part :: int
  dl_next_attempt :: "time option"
  dl_file_id :: "string option"
  dl_message_id :: "int option"
  dl_delivered :: "time option"
  dl_error :: "string option"

record artifact =
  af_run :: int
  af_kind :: artifact_kind
  af_path :: string
  af_size :: int
  af_sha :: string

record system_settings =
  st_timezone :: string
  st_threads :: int
  st_memory :: int

record audit_event =
  ev_type :: string
  ev_actor :: "int option"
  ev_target_type :: "string option"
  ev_target_id :: "string option"
  ev_details :: "(string \<times> json) list"

text \<open>
  All tables, and for each table with a surrogate key the last value its sequence handed out.
  \<^verbatim>\<open>SystemSettings\<close> has the single row with id 1, or none before it is first read.
\<close>

record db =
  users :: "user list"
  access :: "access_row list"
  servers :: "remote_server list"
  profiles :: "profile list"
  runs :: "run list"
  cleanups :: "mssql_cleanup list"
  deliveries :: "delivery list"
  artifacts :: "artifact list"
  settings :: "system_settings option"
  audits :: "audit_event list"
  user_seq :: int
  server_seq :: int
  profile_seq :: int
  run_seq :: int
  delivery_seq :: int

definition empty_db :: db where
  "empty_db = \<lparr>users = [], access = [], servers = [], profiles = [], runs = [], cleanups = [],
     deliveries = [], artifacts = [], settings = None, audits = [],
     user_seq = 0, server_seq = 0, profile_seq = 0, run_seq = 0, delivery_seq = 0\<rparr>"

text \<open>Column defaults of \<^verbatim>\<open>SystemSettings\<close>.\<close>

definition default_settings :: system_settings where
  "default_settings = \<lparr>st_timezone = ''UTC'', st_threads = 1, st_memory = 512\<rparr>"

section \<open>Lookups by primary key\<close>

definition user_by_id :: "db \<Rightarrow> int \<Rightarrow> user option" where
  "user_by_id d i = find (\<lambda>u. u_id u = i) (users d)"

definition profile_by_id :: "db \<Rightarrow> int \<Rightarrow> profile option" where
  "profile_by_id d i = find (\<lambda>p. p_id p = i) (profiles d)"

definition server_by_id :: "db \<Rightarrow> int \<Rightarrow> remote_server option" where
  "server_by_id d i = find (\<lambda>s. s_id s = i) (servers d)"

definition run_by_id :: "db \<Rightarrow> int \<Rightarrow> run option" where
  "run_by_id d i = find (\<lambda>r. r_id r = i) (runs d)"

definition deliveries_of :: "db \<Rightarrow> int \<Rightarrow> delivery list" where
  "deliveries_of d i = filter (\<lambda>x. dl_run x = i) (deliveries d)"

section \<open>Writes\<close>

definition update_run :: "int \<Rightarrow> (run \<Rightarrow> run) \<Rightarrow> db \<Rightarrow> db" where
  "update_run i f d = d\<lparr>runs := update_where (\<lambda>r. r_id r = i) f (runs d)\<rparr>"

definition update_profile :: "int \<Rightarrow> (profile \<Rightarrow> profile) \<Rightarrow> db \<Rightarrow> db" where
  "update_profile i f d = d\<lparr>profiles := update_where (\<lambda>p. p_id p = i) f (profiles d)\<rparr>"

definition update_user :: "int \<Rightarrow> (user \<Rightarrow> user) \<Rightarrow> db \<Rightarrow> db" where
  "update_user i f d = d\<lparr>users := update_where (\<lambda>u. u_id u = i) f (users d)\<rparr>"

definition update_delivery :: "int \<Rightarrow> (delivery \<Rightarrow> delivery) \<Rightarrow> db \<Rightarrow> db" where
  "update_delivery i f d = d\<lparr>deliveries := update_where (\<lambda>x. dl_id x = i) f (deliveries d)\<rparr>"

text \<open>\<^verbatim>\<open>AuditRepository.record\<close>: an event is appended; empty details are stored as none.\<close>

definition audit ::
  "string \<Rightarrow> int option \<Rightarrow> string option \<Rightarrow> string option \<Rightarrow> (string \<times> json) list \<Rightarrow> db \<Rightarrow> db" where
  "audit ev actor ttype tid details d = d\<lparr>audits := audits d @
     [\<lparr>ev_type = ev, ev_actor = actor, ev_target_type = ttype, ev_target_id = tid,
       ev_details = details\<rparr>]\<rparr>"

fun show_int :: "int \<Rightarrow> string" where
  "show_int n = (if n < 0 then CHR ''-'' # show_nat (nat (- n)) else show_nat (nat n))"

text \<open>
  \<^verbatim>\<open>record_run_transition\<close> of \<^verbatim>\<open>src/src/application/observability.py\<close>: the audit event
  of a run transition, with the error code cut to 64 characters.
\<close>

definition record_run_transition ::
  "string \<Rightarrow> int \<Rightarrow> run_status \<Rightarrow> run_stage \<Rightarrow> string option \<Rightarrow> db \<Rightarrow> db" where
  "record_run_transition transition i status stage code d =
     audit (''backup_run_'' @ transition) None (Some ''backup_run'') (Some (show_int i))
       ([(''status'', JStr (status_value status)), (''stage'', JStr (stage_value stage))] @
        (case code of None \<Rightarrow> [] | Some c \<Rightarrow> [(''error_code'', JStr (take 64 c))])) d"

section \<open>Operations\<close>

text \<open>
  A use case runs in one database transaction: it returns a value or an exception together with
  the database it leaves. An exception rolls the transaction back, so the database is the one
  it started from. \<open>with_result\<close> continues after a check or a lookup that may raise.
\<close>

type_synonym 'a op = "db \<Rightarrow> 'a result \<times> db"

definition with_result :: "'a result \<Rightarrow> ('a \<Rightarrow> 'b op) \<Rightarrow> 'b op" where
  "with_result r f d = (case r of Inl e \<Rightarrow> (Inl e, d) | Inr a \<Rightarrow> f a d)"

definition done_with :: "'a \<Rightarrow> 'a op" where
  "done_with a d = (Inr a, d)"

lemma with_result_simps [simp]:
  "with_result (Inl e) f d = (Inl e, d)"
  "with_result (Inr a) f d = f a d"
  by (simp_all add: with_result_def)

lemma with_result_guard [simp]:
  "with_result (guard_result c e) f d = (if c then f () d else (Inl e, d))"
  by (simp add: guard_result_def)

lemma done_with_simp [simp]: "done_with a d = (Inr a, d)"
  by (simp add: done_with_def)

lemma with_result_Inr:
  "with_result r f d = (Inr b, d') \<longleftrightarrow> (\<exists>a. r = Inr a \<and> f a d = (Inr b, d'))"
  by (cases r) auto

section \<open>Reading after writing\<close>

lemma audit_frame [simp]:
  "users (audit e a t i x d) = users d" "access (audit e a t i x d) = access d"
  "servers (audit e a t i x d) = servers d" "profiles (audit e a t i x d) = profiles d"
  "runs (audit e a t i x d) = runs d" "cleanups (audit e a t i x d) = cleanups d"
  "deliveries (audit e a t i x d) = deliveries d" "artifacts (audit e a t i x d) = artifacts d"
  "settings (audit e a t i x d) = settings d" "user_seq (audit e a t i x d) = user_seq d"
  "server_seq (audit e a t i x d) = server_seq d"
  "profile_seq (audit e a t i x d) = profile_seq d" "run_seq (audit e a t i x d) = run_seq d"
  "delivery_seq (audit e a t i x d) = delivery_seq d"
  by (simp_all add: audit_def)

lemma transition_frame [simp]:
  "users (record_run_transition t i s g c d) = users d"
  "access (record_run_transition t i s g c d) = access d"
  "servers (record_run_transition t i s g c d) = servers d"
  "profiles (record_run_transition t i s g c d) = profiles d"
  "runs (record_run_transition t i s g c d) = runs d"
  "cleanups (record_run_transition t i s g c d) = cleanups d"
  "deliveries (record_run_transition t i s g c d) = deliveries d"
  "artifacts (record_run_transition t i s g c d) = artifacts d"
  "settings (record_run_transition t i s g c d) = settings d"
  "run_seq (record_run_transition t i s g c d) = run_seq d"
  "delivery_seq (record_run_transition t i s g c d) = delivery_seq d"
  by (simp_all add: record_run_transition_def)

lemma update_run_frame [simp]:
  "users (update_run i f d) = users d" "access (update_run i f d) = access d"
  "servers (update_run i f d) = servers d" "profiles (update_run i f d) = profiles d"
  "cleanups (update_run i f d) = cleanups d" "deliveries (update_run i f d) = deliveries d"
  "artifacts (update_run i f d) = artifacts d" "settings (update_run i f d) = settings d"
  "audits (update_run i f d) = audits d" "run_seq (update_run i f d) = run_seq d"
  "delivery_seq (update_run i f d) = delivery_seq d"
  by (simp_all add: update_run_def)

lemma run_by_id_frame [simp]:
  "run_by_id (audit e a t k x d) i = run_by_id d i"
  "run_by_id (record_run_transition tr j s g c d) i = run_by_id d i"
  by (simp_all add: run_by_id_def)

lemma run_by_id_update_run [simp]:
  assumes "\<And>r. r_id (f r) = r_id r"
  shows "run_by_id (update_run j f d) i =
    (if i = j then map_option f (run_by_id d i) else run_by_id d i)"
  using find_update_where_key [where k = r_id and f = f and i = i and j = j and rows = "runs d"] assms
  by (simp add: run_by_id_def update_run_def)

lemma run_by_id_Some: "run_by_id d i = Some r \<Longrightarrow> r \<in> set (runs d) \<and> r_id r = i"
  by (auto simp: run_by_id_def dest: find_SomeD)

lemma run_by_id_mem:
  "distinct (map r_id (runs d)) \<Longrightarrow> r \<in> set (runs d) \<Longrightarrow> run_by_id d (r_id r) = Some r"
  by (simp add: run_by_id_def find_distinct_key)

lemma run_by_id_None: "run_by_id d i = None \<longleftrightarrow> (\<forall>r \<in> set (runs d). r_id r \<noteq> i)"
  by (auto simp: run_by_id_def find_None_iff)

end
