(* ===== verification/Admin.thy ===== *)
theory Admin
  imports Database
begin

text \<open>
  Users, their roles and which profiles they receive:
  \<^verbatim>\<open>src/src/application/validation.py\<close>, \<^verbatim>\<open>admin_service.py\<close> and
  \<^verbatim>\<open>bootstrap_service.py\<close>, with the repositories
  \<^verbatim>\<open>src/src/infrastructure/repositories/users.py\<close> and the access part of
  \<^verbatim>\<open>backup_profiles.py\<close>. A set of identifiers is a list, in the order it is iterated.
\<close>

section \<open>Validation\<close>

definition validate_telegram_id :: "int \<Rightarrow> int result" where
  "validate_telegram_id value =
     (if value \<le> 0 \<or> value > 9223372036854775807
      then Inl (ValueError ''Telegram ID must be a positive 64-bit integer'') else Inr value)"

definition validate_name :: "string \<Rightarrow> string \<Rightarrow> string result" where
  "validate_name value field =
     (let clean = strip value
      in if 1 \<le> length clean \<and> length clean \<le> 200 then Inr clean
         else Inl (ValueError (field @ '' must contain 1 to 200 characters'')))"

section \<open>Repositories\<close>

definition by_telegram_id :: "db \<Rightarrow> int \<Rightarrow> bool \<Rightarrow> user option" where
  "by_telegram_id d telegram_id enabled_only =
     find (\<lambda>u. u_telegram u = telegram_id \<and> u_deleted u = None \<and> (enabled_only \<longrightarrow> u_enabled u)) (users d)"

definition list_admins :: "db \<Rightarrow> bool \<Rightarrow> user list" where
  "list_admins d enabled_only = sort_key u_id
     (filter (\<lambda>u. u_role u = Admin \<and> u_deleted u = None \<and> (enabled_only \<longrightarrow> u_enabled u)) (users d))"

definition list_active_users :: "db \<Rightarrow> user list" where
  "list_active_users d = sort_key u_id (filter (\<lambda>u. u_deleted u = None) (users d))"

text \<open>The unique constraint on \<^verbatim>\<open>telegram_user_id\<close> covers deleted users too.\<close>

definition create_user ::
  "int \<Rightarrow> string \<Rightarrow> role \<Rightarrow> int option \<Rightarrow> language_code \<Rightarrow> user op" where
  "create_user telegram_id display_name role created_by language d =
     (if telegram_id \<in> u_telegram ` set (users d)
      then (Inl (ConflictError ''Telegram ID already exists''), d)
      else let u = \<lparr>u_id = user_seq d + 1, u_telegram = telegram_id, u_name = strip display_name,
                 u_role = role, u_language = language, u_enabled = True, u_created_by = created_by,
                 u_last_seen = None, u_deleted = None\<rparr>
           in (Inr u, d\<lparr>users := users d @ [u], user_seq := user_seq d + 1\<rparr>))"

definition access_replace :: "int \<Rightarrow> int list \<Rightarrow> int \<Rightarrow> db \<Rightarrow> db" where
  "access_replace admin_id profile_ids actor_id d = d\<lparr>access :=
     filter (\<lambda>a. a_admin a \<noteq> admin_id) (access d) @
     map (\<lambda>p. \<lparr>a_admin = admin_id, a_profile = p, a_created_by = actor_id\<rparr>) (remdups profile_ids)\<rparr>"

definition access_replace_for_profile :: "int \<Rightarrow> int list \<Rightarrow> int \<Rightarrow> db \<Rightarrow> db" where
  "access_replace_for_profile profile_id admin_ids actor_id d = d\<lparr>access :=
     filter (\<lambda>a. a_profile a \<noteq> profile_id) (access d) @
     map (\<lambda>u. \<lparr>a_admin = u, a_profile = profile_id, a_created_by = actor_id\<rparr>) (remdups admin_ids)\<rparr>"

definition access_profile_ids :: "db \<Rightarrow> int \<Rightarrow> int list" where
  "access_profile_ids d admin_id = remdups (map a_profile (filter (\<lambda>a. a_admin a = admin_id) (access d)))"

definition access_admin_ids :: "db \<Rightarrow> int \<Rightarrow> int list" where
  "access_admin_ids d profile_id = remdups (map a_admin (filter (\<lambda>a. a_profile a = profile_id) (access d)))"

definition authorized_recipient :: "db \<Rightarrow> int \<Rightarrow> int \<Rightarrow> user option" where
  "authorized_recipient d telegram_id profile_id =
     (case find (\<lambda>u. u_telegram u = telegram_id \<and> u_role u = Admin \<and> u_enabled u \<and> u_deleted u = None) (users d) of
        None \<Rightarrow> None
      | Some u \<Rightarrow>
          if list_ex (\<lambda>a. a_admin a = u_id u \<and> a_profile a = profile_id) (access d) then Some u else None)"

definition can_receive :: "db \<Rightarrow> int \<Rightarrow> int \<Rightarrow> bool" where
  "can_receive d telegram_id profile_id \<longleftrightarrow> authorized_recipient d telegram_id profile_id \<noteq> None"

text \<open>\<^verbatim>\<open>list_for_user\<close>: a superadmin sees every live profile, an admin the assigned ones.\<close>

definition profiles_for_user :: "db \<Rightarrow> user \<Rightarrow> profile list" where
  "profiles_for_user d u = sort_key p_id (filter (\<lambda>p. p_archived_at p = None \<and>
     (u_role u = Admin \<longrightarrow> list_ex (\<lambda>a. a_profile a = p_id p \<and> a_admin a = u_id u) (access d))) (profiles d))"

section \<open>AdminService\<close>

definition require_superadmin :: "user \<Rightarrow> unit result" where
  "require_superadmin actor =
     guard_result (u_role actor = Superadmin \<and> u_enabled actor \<and> u_deleted actor = None)
       (PermissionError ''SUPERADMIN required'')"

definition admin_target :: "db \<Rightarrow> int \<Rightarrow> user result" where
  "admin_target d admin_id =
     (case user_by_id d admin_id of
        None \<Rightarrow> Inl (NotFoundError ''admin not found'')
      | Some u \<Rightarrow>
          if u_deleted u \<noteq> None then Inl (NotFoundError ''admin not found'')
          else if u_role u \<noteq> Admin
               then Inl (ValueError ''normal admin management cannot target SUPERADMIN'')
          else Inr u)"

definition validate_profiles :: "db \<Rightarrow> int list \<Rightarrow> unit result" where
  "validate_profiles d profile_ids =
     (let ids = remdups profile_ids
      in guard_result (ids = [] \<or>
           length (filter (\<lambda>p. p_id p \<in> set ids \<and> p_archived_at p = None) (profiles d)) = length ids)
         (NotFoundError ''one or more backup profiles do not exist''))"

text \<open>The count of enabled, undeleted admins among the given ids must be their number.\<close>

definition validate_admins :: "db \<Rightarrow> int list \<Rightarrow> exn \<Rightarrow> unit result" where
  "validate_admins d admin_ids e =
     (let ids = remdups admin_ids
      in guard_result (ids = [] \<or>
           length (filter (\<lambda>u. u_id u \<in> set ids \<and> u_role u = Admin \<and> u_enabled u \<and> u_deleted u = None)
             (users d)) = length ids) e)"

definition admin_audit :: "string \<Rightarrow> user \<Rightarrow> int \<Rightarrow> db \<Rightarrow> db" where
  "admin_audit ev actor admin_id d =
     audit ev (Some (u_id actor)) (Some ''admin'') (Some (show_int admin_id)) [] d"

definition access_event :: "user \<Rightarrow> string \<Rightarrow> int \<Rightarrow> int \<Rightarrow> db \<Rightarrow> db" where
  "access_event actor ev profile_id admin_id d =
     audit ev (Some (u_id actor)) (Some ''backup'') (Some (show_int profile_id))
       [(''admin_id'', JInt admin_id)] d"

definition create_admin :: "user \<Rightarrow> int \<Rightarrow> string \<Rightarrow> int list \<Rightarrow> language_code \<Rightarrow> user op" where
  "create_admin actor telegram_id display_name profile_ids language d =
     with_result (require_superadmin actor) (\<lambda>_.
     with_result (validate_profiles d profile_ids) (\<lambda>_.
     with_result (validate_telegram_id telegram_id) (\<lambda>tid.
     with_result (validate_name display_name ''display name'') (\<lambda>name d.
       case create_user tid name Admin (Some (u_id actor)) language d of
         (Inl e, _) \<Rightarrow> (Inl e, d)
       | (Inr admin, d1) \<Rightarrow>
           (Inr admin, admin_audit ''admin_created'' actor (u_id admin)
              (access_replace (u_id admin) profile_ids (u_id actor) d1)))))) d"

definition rename_admin :: "user \<Rightarrow> int \<Rightarrow> string \<Rightarrow> user op" where
  "rename_admin actor admin_id name d =
     with_result (require_superadmin actor) (\<lambda>_.
     with_result (admin_target d admin_id) (\<lambda>admin.
     with_result (validate_name name ''display name'') (\<lambda>clean d.
       (Inr (admin\<lparr>u_name := clean\<rparr>),
        admin_audit ''admin_edited'' actor admin_id
          (update_user admin_id (\<lambda>u. u\<lparr>u_name := clean\<rparr>) d))))) d"

definition change_telegram_id :: "user \<Rightarrow> int \<Rightarrow> int \<Rightarrow> user op" where
  "change_telegram_id actor admin_id telegram_id d =
     with_result (require_superadmin actor) (\<lambda>_.
     with_result (admin_target d admin_id) (\<lambda>admin.
     with_result (validate_telegram_id telegram_id) (\<lambda>tid d.
       if list_ex (\<lambda>u. u_telegram u = tid \<and> u_id u \<noteq> admin_id) (users d)
       then (Inl (ConflictError ''Telegram ID already exists''), d)
       else (Inr (admin\<lparr>u_telegram := tid\<rparr>),
             admin_audit ''admin_edited'' actor admin_id
               (update_user admin_id (\<lambda>u. u\<lparr>u_telegram := tid\<rparr>) d))))) d"

definition set_admin_enabled :: "user \<Rightarrow> int \<Rightarrow> bool \<Rightarrow> user op" where
  "set_admin_enabled actor admin_id enabled d =
     with_result (require_superadmin actor) (\<lambda>_.
     with_result (admin_target d admin_id) (\<lambda>admin d.
       (Inr (admin\<lparr>u_enabled := enabled\<rparr>),
        admin_audit (if enabled then ''admin_enabled'' else ''admin_disabled'') actor admin_id
          (update_user admin_id (\<lambda>u. u\<lparr>u_enabled := enabled\<rparr>) d)))) d"

definition delete_admin :: "time \<Rightarrow> user \<Rightarrow> int \<Rightarrow> unit op" where
  "delete_admin now actor admin_id d =
     with_result (require_superadmin actor) (\<lambda>_.
     with_result (admin_target d admin_id) (\<lambda>admin d.
       let d1 = update_user admin_id (\<lambda>u. u\<lparr>u_enabled := False, u_deleted := Some now\<rparr>) d;
           d2 = d1\<lparr>access := filter (\<lambda>a. a_admin a \<noteq> admin_id) (access d1)\<rparr>
       in (Inr (), admin_audit ''admin_deleted'' actor admin_id d2))) d"

definition assign_profiles :: "user \<Rightarrow> int \<Rightarrow> int list \<Rightarrow> unit op" where
  "assign_profiles actor admin_id profile_ids d =
     with_result (require_superadmin actor) (\<lambda>_.
     with_result (admin_target d admin_id) (\<lambda>admin.
     with_result (guard_result (profile_ids = [] \<or> u_enabled admin)
       (ValueError ''disabled admins cannot receive backup assignments'')) (\<lambda>_.
     with_result (validate_profiles d profile_ids) (\<lambda>_ d.
       let previous = access_profile_ids d admin_id;
           granted = filter (\<lambda>p. p \<notin> set previous) (remdups profile_ids);
           revoked = filter (\<lambda>p. p \<notin> set profile_ids) previous;
           d1 = access_replace admin_id profile_ids (u_id actor) d;
           d2 = fold (\<lambda>p. access_event actor ''backup_access_granted'' p admin_id) granted d1;
           d3 = fold (\<lambda>p. access_event actor ''backup_access_revoked'' p admin_id) revoked d2
       in (Inr (), d3))))) d"

definition assign_admins :: "user \<Rightarrow> int \<Rightarrow> int list \<Rightarrow> unit op" where
  "assign_admins actor profile_id admin_ids d =
     with_result (require_superadmin actor) (\<lambda>_.
     with_result (case profile_by_id d profile_id of
         None \<Rightarrow> Inl (NotFoundError ''backup profile not found'')
       | Some p \<Rightarrow> guard_result (p_archived_at p = None) (NotFoundError ''backup profile not found'')) (\<lambda>_.
     with_result (validate_admins d admin_ids
       (NotFoundError ''one or more enabled admins do not exist'')) (\<lambda>_ d.
       let previous = access_admin_ids d profile_id;
           granted = filter (\<lambda>u. u \<notin> set previous) (remdups admin_ids);
           revoked = filter (\<lambda>u. u \<notin> set admin_ids) previous;
           d1 = access_replace_for_profile profile_id admin_ids (u_id actor) d;
           d2 = fold (access_event actor ''backup_access_granted'' profile_id) granted d1;
           d3 = fold (access_event actor ''backup_access_revoked'' profile_id) revoked d2
       in (Inr (), d3)))) d"

definition change_language :: "user \<Rightarrow> language_code \<Rightarrow> int option \<Rightarrow> user op" where
  "change_language actor language target_id d =
     with_result (guard_result (u_enabled actor \<and> u_deleted actor = None)
       (PermissionError ''active account required'')) (\<lambda>_.
     with_result (case target_id of
         None \<Rightarrow> Inr actor
       | Some i \<Rightarrow> if i = u_id actor then Inr actor else admin_target d i) (\<lambda>target.
     with_result (if u_id target \<noteq> u_id actor then require_superadmin actor else Inr ()) (\<lambda>_ d.
       (Inr (target\<lparr>u_language := language\<rparr>),
        audit ''language_changed'' (Some (u_id actor)) (Some ''user'') (Some (show_int (u_id target)))
          [(''language_code'', JStr (language_value language))]
          (update_user (u_id target) (\<lambda>u. u\<lparr>u_language := language\<rparr>) d))))) d"

section \<open>BootstrapService\<close>

definition bootstrap_superadmin :: "int \<Rightarrow> language_code \<Rightarrow> (user \<times> bool) op" where
  "bootstrap_superadmin telegram_id language d =
     with_result (validate_telegram_id telegram_id) (\<lambda>_ d.
       case find (\<lambda>u. u_telegram u = telegram_id) (users d) of
         Some existing \<Rightarrow>
           let changed = u_role existing \<noteq> Superadmin \<or> \<not> u_enabled existing \<or> u_deleted existing \<noteq> None;
               promote = (\<lambda>u. u\<lparr>u_role := Superadmin, u_enabled := True, u_deleted := None\<rparr>);
               d1 = update_user (u_id existing) promote d
           in (Inr (promote existing, False),
               if changed
               then audit ''superadmin_bootstrap'' (Some (u_id existing)) (Some ''user'')
                      (Some (show_int (u_id existing))) [] d1
               else d)
       | None \<Rightarrow>
           (case create_user telegram_id ''System Administrator'' Superadmin None language d of
              (Inl e, _) \<Rightarrow> (Inl e, d)
            | (Inr u, d1) \<Rightarrow>
                (Inr (u, True),
                 audit ''superadmin_bootstrap'' (Some (u_id u)) (Some ''user'')
                   (Some (show_int (u_id u))) [] d1))) d"

end
