(* ===== verification/Filesystem.thy ===== *)
theory Filesystem
  imports Database
begin

text \<open>
  The file system as the pipeline sees it, and \<^verbatim>\<open>src/src/pipeline/workspace.py\<close> on it. A
  file system is a finite list of absolute paths with what is there: a regular file, a
  directory or a symbolic link. Operations on it are atomic here; the re-checks of the code
  against concurrent replacement of a file compare two reads of the same state.
\<close>

section \<open>Paths and nodes\<close>

datatype node = RegularFile bytes | Directory | SymLink bool path

type_synonym fs = "(path \<times> node) list"

definition node_at :: "fs \<Rightarrow> path \<Rightarrow> node option" where
  "node_at fs p = map_of fs p"

definition put_node :: "path \<Rightarrow> node \<Rightarrow> fs \<Rightarrow> fs" where
  "put_node p n fs = (p, n) # filter (\<lambda>(q, _). q \<noteq> p) fs"

definition remove_node :: "path \<Rightarrow> fs \<Rightarrow> fs" where
  "remove_node p fs = filter (\<lambda>(q, _). q \<noteq> p) fs"

definition below :: "path \<Rightarrow> path \<Rightarrow> bool" where
  "below root p \<longleftrightarrow> take (length root) p = root"

text \<open>\<^verbatim>\<open>shutil.rmtree\<close>: the directory and everything under it.\<close>

definition rmtree :: "path \<Rightarrow> fs \<Rightarrow> fs" where
  "rmtree p fs = filter (\<lambda>(q, _). \<not> below p q) fs"

text \<open>\<^verbatim>\<open>rmdir\<close> with \<^verbatim>\<open>suppress(OSError)\<close>: only an empty directory goes.\<close>

definition rmdir_if_empty :: "path \<Rightarrow> fs \<Rightarrow> fs" where
  "rmdir_if_empty p fs =
     (if node_at fs p = Some Directory \<and> \<not> list_ex (\<lambda>(q, _). below p q \<and> q \<noteq> p) fs
      then remove_node p fs else fs)"

text \<open>
  \<^verbatim>\<open>Path.resolve()\<close>: links are followed and \<^verbatim>\<open>..\<close> removed, component by component. The
  fuel bounds the number of components visited; a chain that exceeds it is left as it is.
\<close>

fun resolve_from :: "nat \<Rightarrow> fs \<Rightarrow> path \<Rightarrow> path \<Rightarrow> path" where
  "resolve_from n fs acc [] = acc"
| "resolve_from 0 fs acc (c # cs) = acc @ c # cs"
| "resolve_from (Suc n) fs acc (c # cs) =
     (if c = ''..'' then resolve_from n fs (butlast acc) cs
      else case node_at fs (acc @ [c]) of
        Some (SymLink absolute target) \<Rightarrow>
          resolve_from n fs (if absolute then [] else acc) (target @ cs)
      | _ \<Rightarrow> resolve_from n fs (acc @ [c]) cs)"

definition resolve_fuel :: nat where
  "resolve_fuel = 4096"

definition resolve :: "fs \<Rightarrow> path \<Rightarrow> path" where
  "resolve fs p = resolve_from (resolve_fuel + length p) fs [] p"

text \<open>A path without links on the way and without \<^verbatim>\<open>..\<close> resolves to itself.\<close>

definition is_link :: "node option \<Rightarrow> bool" where
  "is_link n \<longleftrightarrow> (case n of Some (SymLink _ _) \<Rightarrow> True | _ \<Rightarrow> False)"

lemma is_link_iff: "is_link n \<longleftrightarrow> (\<exists>a t. n = Some (SymLink a t))"
  by (auto simp: is_link_def split: option.splits node.splits)

definition plain :: "fs \<Rightarrow> path \<Rightarrow> bool" where
  "plain fs p \<longleftrightarrow> ''..'' \<notin> set p \<and>
     list_all (\<lambda>n. \<not> is_link (node_at fs (take n p))) [0..<Suc (length p)]"

lemma plain_iff:
  "plain fs p \<longleftrightarrow> ''..'' \<notin> set p \<and> (\<forall>n \<le> length p. \<not> is_link (node_at fs (take n p)))"
  by (auto simp: plain_def list_all_iff less_Suc_eq_le simp del: upt_Suc)

lemma resolve_from_plain:
  assumes "plain fs (acc @ p)" and "length p \<le> n"
  shows "resolve_from n fs acc p = acc @ p"
  using assms
proof (induction p arbitrary: n acc)
  case Nil
  then show ?case by simp
next
  case (Cons c cs)
  then obtain m where n: "n = Suc m" "length cs \<le> m" by (cases n) auto
  have pl: "plain fs ((acc @ [c]) @ cs)" using Cons.prems by simp
  have "length acc + 1 \<le> length ((acc @ [c]) @ cs)" by simp
  with pl have "\<not> is_link (node_at fs (take (length acc + 1) ((acc @ [c]) @ cs)))"
    unfolding plain_iff by blast
  then have nl: "node_at fs (acc @ [c]) \<noteq> Some (SymLink a t)" for a t by (simp add: is_link_iff)
  have "c \<in> set (acc @ c # cs)" by simp
  with Cons.prems(1) have "c \<noteq> ''..''" unfolding plain_iff by metis
  with nl Cons.IH [OF pl n(2)] show ?case
    by (auto simp: n(1) split: option.splits node.splits)
qed

lemma resolve_plain: "plain fs p \<Longrightarrow> resolve fs p = p"
  using resolve_from_plain [of fs "[]" p "resolve_fuel + length p"] by (simp add: resolve_def)

text \<open>\<^verbatim>\<open>lstat\<close> follows links on the way but not at the end; \<^verbatim>\<open>exists\<close> and \<^verbatim>\<open>is_file\<close> follow all.\<close>

definition lstat :: "fs \<Rightarrow> path \<Rightarrow> node option" where
  "lstat fs p = (if p = [] then node_at fs [] else node_at fs (resolve fs (butlast p) @ [last p]))"

definition path_exists :: "fs \<Rightarrow> path \<Rightarrow> bool" where
  "path_exists fs p \<longleftrightarrow> node_at fs (resolve fs p) \<noteq> None"

definition is_file :: "fs \<Rightarrow> path \<Rightarrow> bool" where
  "is_file fs p \<longleftrightarrow> (case node_at fs (resolve fs p) of Some (RegularFile _) \<Rightarrow> True | _ \<Rightarrow> False)"

lemma plain_prefix: "plain fs (p @ q) \<Longrightarrow> plain fs p"
proof -
  assume pl: "plain fs (p @ q)"
  have "\<not> is_link (node_at fs (take n p))" if "n \<le> length p" for n
  proof -
    from that have "n \<le> length (p @ q)" "take n (p @ q) = take n p" by simp_all
    with pl show ?thesis unfolding plain_iff by metis
  qed
  with pl show ?thesis by (simp add: plain_iff)
qed

lemma lstat_plain: "plain fs p \<Longrightarrow> lstat fs p = node_at fs p"
  using plain_prefix [of fs "butlast p" "[last p]"] by (simp add: lstat_def resolve_plain)

lemma lstat_plain_parent: "plain fs p \<Longrightarrow> lstat fs (p @ [c]) = node_at fs (p @ [c])"
  by (simp add: lstat_def resolve_plain)

lemma plain_snoc:
  "plain fs (p @ [c]) \<longleftrightarrow> plain fs p \<and> c \<noteq> ''..'' \<and> \<not> is_link (node_at fs (p @ [c]))"
proof
  assume pl: "plain fs (p @ [c])"
  have "length p + 1 \<le> length (p @ [c])" "take (length p + 1) (p @ [c]) = p @ [c]" by simp_all
  with pl have "\<not> is_link (node_at fs (p @ [c]))" unfolding plain_iff by metis
  with pl plain_prefix [OF pl] show "plain fs p \<and> c \<noteq> ''..'' \<and> \<not> is_link (node_at fs (p @ [c]))"
    by (auto simp: plain_iff)
next
  assume r: "plain fs p \<and> c \<noteq> ''..'' \<and> \<not> is_link (node_at fs (p @ [c]))"
  have "\<not> is_link (node_at fs (take n (p @ [c])))" if "n \<le> Suc (length p)" for n
    using r that by (cases "n = Suc (length p)") (auto simp: plain_iff)
  with r show "plain fs (p @ [c])" by (auto simp: plain_iff)
qed

lemma plain_mono:
  "plain fs p \<Longrightarrow> (\<And>q. is_link (node_at fs' q) \<Longrightarrow> is_link (node_at fs q)) \<Longrightarrow> plain fs' p"
  by (auto simp: plain_iff)

lemma node_at_put [simp]: "node_at (put_node p n fs) q = (if q = p then Some n else node_at fs q)"
  by (induction fs) (auto simp: node_at_def put_node_def)

lemma node_at_remove [simp]: "node_at (remove_node p fs) q = (if q = p then None else node_at fs q)"
  by (induction fs) (auto simp: node_at_def remove_node_def)

lemma node_at_rmtree [simp]: "node_at (rmtree p fs) q = (if below p q then None else node_at fs q)"
  by (induction fs) (auto simp: node_at_def rmtree_def)

lemma below_refl [simp]: "below p p"
  by (simp add: below_def)

lemma below_append [simp]: "below p (p @ q)"
  by (simp add: below_def)

lemma below_iff: "below p q \<longleftrightarrow> (\<exists>r. q = p @ r)"
  by (metis append_take_drop_id below_append below_def)

lemma node_at_rmdir:
  "q \<noteq> p \<Longrightarrow> node_at (rmdir_if_empty p fs) q = node_at fs q"
  by (simp add: rmdir_if_empty_def)

section \<open>Run-owned directories\<close>

definition is_hex :: "char \<Rightarrow> bool" where
  "is_hex c \<longleftrightarrow> is_digit c \<or> c \<in> set ''abcdef''"

text \<open>The text \<^verbatim>\<open>str(uuid.UUID(value))\<close> has, and no other text of the same identifier.\<close>

definition canonical_uuid_text :: "string \<Rightarrow> bool" where
  "canonical_uuid_text s \<longleftrightarrow> map length (split_on (CHR ''-'') s) = [8, 4, 4, 4, 12] \<and>
     list_all (list_all is_hex) (split_on (CHR ''-'') s)"

definition canonical_uuid :: "string \<Rightarrow> string result" where
  "canonical_uuid value =
     (if canonical_uuid_text value then Inr value
      else Inl (ValueError ''run id is not a canonical UUID''))"

definition owned_path :: "fs \<Rightarrow> path \<Rightarrow> string \<Rightarrow> path result" where
  "owned_path fs root uuid =
     bind_result (canonical_uuid uuid) (\<lambda>u.
       let child = resolve fs root @ [u]
       in if butlast child \<noteq> resolve fs root
          then Inl (ValueError ''workspace path escaped its root'') else Inr child)"

record workspace =
  ws_root :: path
  ws_raw :: path
  ws_staging :: path
  ws_final :: path
  ws_temp :: path

text \<open>\<^verbatim>\<open>mkdir(parents=True)\<close>: every missing ancestor becomes a directory.\<close>

fun make_parents :: "path \<Rightarrow> path \<Rightarrow> fs \<Rightarrow> fs" where
  "make_parents acc [] fs = fs"
| "make_parents acc (c # cs) fs =
     make_parents (acc @ [c]) cs
       (case node_at fs (acc @ [c]) of None \<Rightarrow> put_node (acc @ [c]) Directory fs | Some _ \<Rightarrow> fs)"

definition create_workspace :: "path \<Rightarrow> string \<Rightarrow> fs \<Rightarrow> workspace result \<times> fs" where
  "create_workspace root uuid fs =
     (case owned_path fs root uuid of
        Inl e \<Rightarrow> (Inl e, fs)
      | Inr path \<Rightarrow>
          if lstat fs path \<noteq> None then (Inl (OSError ''FileExistsError''), fs)
          else let fs1 = make_parents [] path fs;
                   children = map (\<lambda>c. path @ [c]) [''raw'', ''staging'', ''final'', ''temp''];
                   fs2 = fold (\<lambda>c. put_node c Directory) children fs1
               in (Inr \<lparr>ws_root = path, ws_raw = path @ [''raw''], ws_staging = path @ [''staging''],
                       ws_final = path @ [''final''], ws_temp = path @ [''temp'']\<rparr>, fs2))"

definition remove_workspace :: "path \<Rightarrow> string \<Rightarrow> fs \<Rightarrow> unit result \<times> fs" where
  "remove_workspace root uuid fs =
     (case owned_path fs root uuid of
        Inl e \<Rightarrow> (Inl e, fs)
      | Inr path \<Rightarrow> (Inr (), if path_exists fs path then rmtree path fs else fs))"

definition ends_with_uuid :: "string \<Rightarrow> string \<Rightarrow> bool" where
  "ends_with_uuid name uuid = ends_with (''_'' @ take 8 uuid) name"

text \<open>\<^verbatim>\<open>Path.name\<close>, empty for the root directory.\<close>

definition path_name :: "path \<Rightarrow> string" where
  "path_name p = (if p = [] then [] else last p)"

definition validate_owned_directory :: "fs \<Rightarrow> path \<Rightarrow> path \<Rightarrow> string \<Rightarrow> path result" where
  "validate_owned_directory fs root path uuid =
     (if lstat fs path \<notin> {None, Some Directory}
      then Inl (ValueError ''pending directory is not a real directory'')
      else let resolved_root = resolve fs root; resolved = resolve fs path
           in if butlast (butlast resolved) \<noteq> resolved_root
              then Inl (ValueError ''pending directory is not an owned profile/run directory'')
              else bind_result (canonical_uuid uuid) (\<lambda>u.
                if \<not> ends_with_uuid (path_name resolved) u \<or> path_name (butlast resolved) = []
                then Inl (ValueError ''invalid pending directory'')
                else Inr resolved))"

definition remove_owned_directory :: "path \<Rightarrow> path \<Rightarrow> string \<Rightarrow> fs \<Rightarrow> unit result \<times> fs" where
  "remove_owned_directory root path uuid fs =
     (case validate_owned_directory fs root path uuid of
        Inl e \<Rightarrow> (Inl e, fs)
      | Inr resolved \<Rightarrow>
          if node_at fs resolved = None then (Inl (OSError ''FileNotFoundError''), fs)
          else (Inr (), rmdir_if_empty (butlast resolved) (rmtree resolved fs)))"

subsection \<open>What the checks guarantee\<close>

lemma owned_path_shape:
  "owned_path fs root uuid = Inr p \<Longrightarrow> p = resolve fs root @ [uuid] \<and> canonical_uuid_text uuid"
  by (auto simp: owned_path_def canonical_uuid_def Let_def bind_result_Inr split: if_splits)

lemma validate_owned_shape:
  assumes "validate_owned_directory fs root path uuid = Inr p"
  shows "p = resolve fs path" and "butlast (butlast p) = resolve fs root"
    and "ends_with_uuid (path_name p) uuid" and "canonical_uuid_text uuid" and "2 \<le> length p"
proof -
  have v: "p = resolve fs path" "butlast (butlast p) = resolve fs root"
    "ends_with_uuid (path_name p) uuid" "canonical_uuid_text uuid" "path_name (butlast p) \<noteq> []"
    using assms
    by (auto simp: validate_owned_directory_def canonical_uuid_def Let_def bind_result_Inr split: if_splits)
  then show "p = resolve fs path" "butlast (butlast p) = resolve fs root"
    "ends_with_uuid (path_name p) uuid" "canonical_uuid_text uuid" by blast+
  from v(5) have "butlast p \<noteq> []" by (auto simp: path_name_def)
  then show "2 \<le> length p" by (cases p rule: rev_cases; cases "butlast p") auto
qed

lemma split_last_two: "2 \<le> length p \<Longrightarrow> p = butlast (butlast p) @ [last (butlast p), last p]"
proof -
  assume len: "2 \<le> length p"
  then have "p = butlast p @ [last p]" by (cases p rule: rev_cases) auto
  moreover from len have "butlast p \<noteq> []" by (cases p rule: rev_cases) auto
  then have "butlast p = butlast (butlast p) @ [last (butlast p)]" by simp
  ultimately show ?thesis by (metis append_assoc append_Cons append_Nil)
qed

lemma validate_owned_under_root:
  assumes "validate_owned_directory fs root path uuid = Inr p"
  shows "\<exists>profile_dir run_dir. p = resolve fs root @ [profile_dir, run_dir] \<and> ends_with_uuid run_dir uuid"
proof -
  note sh = validate_owned_shape [OF assms]
  from split_last_two [OF sh(5)] sh(2)
  have p: "p = resolve fs root @ [last (butlast p), last p]" by simp
  moreover from p have "path_name p = last p" by (auto simp: path_name_def)
  ultimately show ?thesis using sh(3) by auto
qed

text \<open>Removing a workspace or a pending directory touches nothing outside it (and its parent).\<close>

lemma remove_workspace_frame:
  assumes "remove_workspace root uuid fs = (res, fs')" and "\<not> below (resolve fs root @ [uuid]) q"
  shows "node_at fs' q = node_at fs q"
  using assms by (auto simp: remove_workspace_def split: sum.splits if_splits dest!: owned_path_shape)

lemma remove_owned_directory_frame:
  assumes "remove_owned_directory root path uuid fs = (res, fs')"
    and "\<not> below (resolve fs path) q" and "q \<noteq> butlast (resolve fs path)"
  shows "node_at fs' q = node_at fs q"
  using assms validate_owned_shape(1) [of fs root path uuid]
  by (auto simp: remove_owned_directory_def node_at_rmdir split: sum.splits if_splits)

lemma remove_owned_directory_gone:
  assumes "remove_owned_directory root path uuid fs = (Inr (), fs')" and "below (resolve fs path) q"
  shows "node_at fs' q = None"
proof -
  obtain p where p: "validate_owned_directory fs root path uuid = Inr p"
    "fs' = rmdir_if_empty (butlast p) (rmtree p fs)"
    using assms by (auto simp: remove_owned_directory_def split: sum.splits if_splits)
  note sh = validate_owned_shape [OF p(1)]
  have "length p \<le> length q" using assms(2) sh(1) by (auto simp: below_iff)
  then have "q \<noteq> butlast p" using sh(5) by auto
  with p assms(2) sh(1) show ?thesis by (simp add: node_at_rmdir)
qed

end
