(* ===== verification/Calendar.thy ===== *)
theory Calendar
  imports Prelude
begin

text \<open>
  The part of Python's \<^verbatim>\<open>datetime\<close> the code uses: the proleptic Gregorian calendar, wall-clock
  times with their \<^verbatim>\<open>fold\<close>, ISO texts of UTC instants, and time zones as a pair of
  conversions. A zone's data is not part of the repository: it is a parameter, and the fixed
  offsets are the instances used to evaluate.
\<close>

section \<open>Years, months and days\<close>

definition leap :: "int \<Rightarrow> bool" where
  "leap y \<longleftrightarrow> y mod 4 = 0 \<and> (y mod 100 \<noteq> 0 \<or> y mod 400 = 0)"

definition month_days :: "int \<Rightarrow> int \<Rightarrow> int" where
  "month_days y m =
     (if m = 2 then (if leap y then 29 else 28)
      else if m = 4 \<or> m = 6 \<or> m = 9 \<or> m = 11 then 30 else 31)"

definition year_days :: "int \<Rightarrow> int" where
  "year_days y = (if leap y then 366 else 365)"

definition days_before_year :: "int \<Rightarrow> int" where
  "days_before_year y =
     (let p = y - 1 in p * 365 + p div 4 - p div 100 + p div 400)"

definition days_before_month :: "int \<Rightarrow> int \<Rightarrow> int" where
  "days_before_month y m = (\<Sum>k \<leftarrow> [1..m - 1]. month_days y k)"

definition valid_date :: "int \<Rightarrow> int \<Rightarrow> int \<Rightarrow> bool" where
  "valid_date y m d \<longleftrightarrow> 1 \<le> m \<and> m \<le> 12 \<and> 1 \<le> d \<and> d \<le> month_days y m"

text \<open>\<^verbatim>\<open>date.toordinal\<close>: 1 is the first of January of year 1.\<close>

definition to_ordinal :: "int \<Rightarrow> int \<Rightarrow> int \<Rightarrow> int" where
  "to_ordinal y m d = days_before_year y + days_before_month y m + d"

text \<open>
  \<^verbatim>\<open>date.fromordinal\<close>, by walking over the years and then over the months: the number of
  whole years and months in \<open>n\<close> days, counted from the first of January of year \<open>y\<close>.
\<close>

lemma year_days_pos: "365 \<le> year_days y"
  by (simp add: year_days_def)

function split_year :: "int \<Rightarrow> int \<Rightarrow> int \<times> int" where
  "split_year y n = (if n < year_days y then (y, n) else split_year (y + 1) (n - year_days y))"
  by pat_completeness auto
termination
  by (relation "measure (\<lambda>(y, n). nat n)") (auto simp: year_days_def split: if_splits)

lemma month_days_pos: "28 \<le> month_days y m"
  by (simp add: month_days_def)

function split_month :: "int \<Rightarrow> int \<Rightarrow> int \<Rightarrow> int \<times> int" where
  "split_month y m n =
     (if 12 \<le> m \<or> n < month_days y m then (m, n) else split_month y (m + 1) (n - month_days y m))"
  by pat_completeness auto
termination
  by (relation "measure (\<lambda>(y, m, n). nat (12 - m))") auto

declare split_year.simps [simp del] split_month.simps [simp del]

definition of_ordinal :: "int \<Rightarrow> int \<times> int \<times> int" where
  "of_ordinal n =
     (let (y, r) = split_year 1 (n - 1); (m, k) = split_month y 1 r in (y, m, k + 1))"

text \<open>The next calendar day.\<close>

definition next_day :: "int \<times> int \<times> int \<Rightarrow> int \<times> int \<times> int" where
  "next_day = (\<lambda>(y, m, d).
     if d < month_days y m then (y, m, d + 1)
     else if m < 12 then (y, m + 1, 1) else (y + 1, 1, 1))"

subsection \<open>Ordinals count days\<close>

lemma div_pred:
  assumes "0 < (k::int)"
  shows "y div k = (y - 1) div k + (if y mod k = 0 then 1 else 0)"
proof (cases "y mod k = 0")
  case True
  then obtain q where "y = k * q" by auto
  moreover have "(k * q - 1) div k = q - 1"
  proof -
    have "k * q - 1 = k * (q - 1) + (k - 1)" by (simp add: algebra_simps)
    then have "(k * q - 1) div k = (q - 1) + (k - 1) div k"
      using assms by (metis div_mult_self2 add.commute less_irrefl)
    then show ?thesis using assms by simp
  qed
  ultimately show ?thesis using assms by simp
next
  case False
  have "0 \<le> y mod k" "y mod k < k" using assms by simp_all
  with False have "0 \<le> y mod k - 1" "y mod k - 1 < k" by linarith+
  moreover have "y - 1 = (y mod k - 1) + k * (y div k)"
    using mod_mult_div_eq [of y k] by linarith
  ultimately have "(y - 1) div k = y div k"
    using assms by (metis add.commute div_mult_self2 div_pos_pos_trivial add.right_neutral less_irrefl)
  with False show ?thesis by simp
qed

lemma leap_count_step:
  fixes a b c :: int
  assumes "a = a' + (if p then 1 else 0)" and "b = b' + (if q then 1 else 0)"
    and "c = c' + (if r then 1 else 0)" and "q \<Longrightarrow> p" and "r \<Longrightarrow> q"
  shows "y * 365 + a - b + c =
    (y - 1) * 365 + a' - b' + c' + (if p \<and> (\<not> q \<or> r) then 366 else 365)"
  using assms(4,5) by (cases p; cases q; cases r) (simp_all add: assms(1-3))

lemma days_before_year_Suc: "days_before_year (y + 1) = days_before_year y + year_days y"
proof -
  have i: "y mod 100 = 0 \<Longrightarrow> y mod 4 = 0" "y mod 400 = 0 \<Longrightarrow> y mod 100 = 0" by presburger+
  have "y * 365 + y div 4 - y div 100 + y div 400 =
     (y - 1) * 365 + (y - 1) div 4 - (y - 1) div 100 + (y - 1) div 400 +
     (if y mod 4 = 0 \<and> (y mod 100 \<noteq> 0 \<or> y mod 400 = 0) then 366 else 365)"
    by (rule leap_count_step [OF div_pred div_pred div_pred i]) simp_all
  then show ?thesis
    by (simp only: days_before_year_def year_days_def leap_def Let_def add_diff_cancel_right')
qed

lemma days_before_month_1 [simp]: "days_before_month y 1 = 0"
  by (simp add: days_before_month_def)

lemma days_before_month_Suc:
  assumes "1 \<le> m"
  shows "days_before_month y (m + 1) = days_before_month y m + month_days y m"
proof -
  have "[1..m] = [1..m - 1] @ [m]" using assms by (simp add: upto_rec2)
  then show ?thesis by (simp add: days_before_month_def)
qed

lemma days_before_month_table:
  "days_before_month y 2 = 31"
  "days_before_month y 3 = 59 + (if leap y then 1 else 0)"
  "days_before_month y 12 + 31 = year_days y"
proof -
  have step: "days_before_month y (m + 1) = days_before_month y m + month_days y m" if "1 \<le> m" for m
    by (rule days_before_month_Suc [OF that])
  show "days_before_month y 2 = 31" using step [of 1] by (simp add: month_days_def)
  then show "days_before_month y 3 = 59 + (if leap y then 1 else 0)"
    using step [of 2] by (simp add: month_days_def)
  then show "days_before_month y 12 + 31 = year_days y"
    using step [of 3] step [of 4] step [of 5] step [of 6] step [of 7] step [of 8] step [of 9]
      step [of 10] step [of 11]
    by (simp add: month_days_def year_days_def)
qed

lemma to_ordinal_next_day:
  assumes "valid_date y m d"
  shows "(case next_day (y, m, d) of (y', m', d') \<Rightarrow> to_ordinal y' m' d') = to_ordinal y m d + 1"
proof -
  consider "d < month_days y m" | "d = month_days y m" "m < 12" | "d = month_days y m" "m = 12"
    using assms by (force simp: valid_date_def)
  then show ?thesis
  proof cases
    case 1
    then show ?thesis by (simp add: next_day_def to_ordinal_def)
  next
    case 2
    with assms show ?thesis
      by (simp add: next_day_def to_ordinal_def days_before_month_Suc valid_date_def)
  next
    case 3
    moreover have "month_days y 12 = 31" by (simp add: month_days_def)
    ultimately show ?thesis
      using days_before_month_table(3) [of y]
      by (simp add: next_day_def to_ordinal_def days_before_year_Suc)
  qed
qed

lemma valid_next_day:
  assumes "valid_date y m d"
  shows "case next_day (y, m, d) of (y', m', d') \<Rightarrow> valid_date y' m' d'"
proof -
  have p: "1 \<le> month_days y' m'" for y' m' using month_days_pos [of y' m'] by linarith
  show ?thesis using assms by (auto simp: next_day_def valid_date_def p)
qed

lemma split_year_ordinal:
  "0 \<le> n \<Longrightarrow> split_year y n = (y', r) \<Longrightarrow>
     days_before_year y' + r = days_before_year y + n \<and> 0 \<le> r \<and> r < year_days y'"
proof (induction y n rule: split_year.induct)
  case (1 y n)
  then show ?case
    by (cases "n < year_days y") (auto simp: split_year.simps [of y n] days_before_year_Suc)
qed

lemma split_month_ordinal:
  "1 \<le> m \<Longrightarrow> m \<le> 12 \<Longrightarrow> 0 \<le> n \<Longrightarrow> days_before_month y m + n < year_days y \<Longrightarrow>
   split_month y m n = (m', k) \<Longrightarrow>
     days_before_month y m' + k = days_before_month y m + n \<and> 1 \<le> m' \<and> m' \<le> 12 \<and>
     0 \<le> k \<and> k < month_days y m'"
proof (induction y m n rule: split_month.induct)
  case (1 y m n)
  show ?case
  proof (cases "12 \<le> m \<or> n < month_days y m")
    case True
    have "n < month_days y m"
    proof (cases "m = 12")
      case True
      with 1 days_before_month_table(3) [of y] have "n < 31" by simp
      with \<open>m = 12\<close> show ?thesis by (simp add: month_days_def)
    next
      case False
      with True 1 show ?thesis by simp
    qed
    with True 1 show ?thesis by (simp add: split_month.simps [of y m n])
  next
    case False
    with 1 show ?thesis
      by (simp add: split_month.simps [of y m n] days_before_month_Suc)
  qed
qed

theorem to_of_ordinal:
  assumes "1 \<le> n" and "of_ordinal n = (y, m, d)"
  shows "to_ordinal y m d = n" and "valid_date y m d"
proof -
  obtain r where r: "split_year 1 (n - 1) = (y, r)" and
    k: "split_month y 1 r = (m, d - 1)"
    using assms(2) by (auto simp: of_ordinal_def Let_def split: prod.splits)
  have dy: "days_before_year 1 = 0" by (simp add: days_before_year_def)
  from split_year_ordinal [OF _ r] assms(1) dy
  have y: "days_before_year y + r = n - 1" "0 \<le> r" "r < year_days y" by auto
  from split_month_ordinal [OF _ _ y(2) _ k] y(3)
  have "days_before_month y m + (d - 1) = r" "1 \<le> m" "m \<le> 12" "0 \<le> d - 1" "d - 1 < month_days y m"
    by auto
  with y show "to_ordinal y m d = n" "valid_date y m d"
    by (auto simp: to_ordinal_def valid_date_def)
qed

section \<open>Wall-clock times and zones\<close>

text \<open>
  A local \<^verbatim>\<open>datetime\<close>: its date, the microsecond of the day, and \<^verbatim>\<open>fold\<close> (which of two equal
  wall times it is, where clocks go back). Comparing two of them with the same zone compares
  the wall clock only; adding days gives the wall clock of the later day with \<^verbatim>\<open>fold\<close> 0.
\<close>

record local_time =
  lt_year :: int
  lt_month :: int
  lt_day :: int
  lt_tod :: int
  lt_fold :: bool

definition wall_less_eq :: "local_time \<Rightarrow> local_time \<Rightarrow> bool" where
  "wall_less_eq a b \<longleftrightarrow>
     lt_year a < lt_year b \<or> lt_year a = lt_year b \<and>
     (lt_month a < lt_month b \<or> lt_month a = lt_month b \<and>
      (lt_day a < lt_day b \<or> lt_day a = lt_day b \<and> lt_tod a \<le> lt_tod b))"

definition us_per_day :: int where
  "us_per_day = 86400000000"

definition wall_count :: "local_time \<Rightarrow> int" where
  "wall_count a = to_ordinal (lt_year a) (lt_month a) (lt_day a) * us_per_day + lt_tod a"

definition valid_local :: "local_time \<Rightarrow> bool" where
  "valid_local a \<longleftrightarrow> valid_date (lt_year a) (lt_month a) (lt_day a) \<and>
     0 \<le> lt_tod a \<and> lt_tod a < us_per_day"

definition weekday :: "local_time \<Rightarrow> int" where
  "weekday a = (to_ordinal (lt_year a) (lt_month a) (lt_day a) + 6) mod 7"

definition set_time :: "int \<Rightarrow> int \<Rightarrow> local_time \<Rightarrow> local_time" where
  "set_time hour minute a = a\<lparr>lt_tod := (hour * 60 + minute) * 60000000\<rparr>"

fun add_days :: "nat \<Rightarrow> local_time \<Rightarrow> local_time" where
  "add_days 0 a = a\<lparr>lt_fold := False\<rparr>"
| "add_days (Suc n) a =
     (case next_day (lt_year a, lt_month a, lt_day a) of
        (y, m, d) \<Rightarrow> add_days n (a\<lparr>lt_year := y, lt_month := m, lt_day := d\<rparr>))"

record zone =
  to_local :: "time \<Rightarrow> local_time"
  to_utc :: "local_time \<Rightarrow> time"

text \<open>The zone with a fixed offset (in microseconds) from UTC. Day 719163 is 1970-01-01.\<close>

definition epoch_ordinal :: int where
  "epoch_ordinal = 719163"

definition civil :: "time \<Rightarrow> local_time" where
  "civil t = (let (y, m, d) = of_ordinal (t div us_per_day + epoch_ordinal)
     in \<lparr>lt_year = y, lt_month = m, lt_day = d, lt_tod = t mod us_per_day, lt_fold = False\<rparr>)"

definition of_civil :: "local_time \<Rightarrow> time" where
  "of_civil a = wall_count a - epoch_ordinal * us_per_day"

definition fixed_offset :: "int \<Rightarrow> zone" where
  "fixed_offset off = \<lparr>to_local = (\<lambda>t. civil (t + off)), to_utc = (\<lambda>a. of_civil a - off)\<rparr>"

lemma add_days_wall:
  "valid_local a \<Longrightarrow> valid_local (add_days n a) \<and>
     wall_count (add_days n a) = wall_count a + int n * us_per_day \<and> lt_tod (add_days n a) = lt_tod a"
proof (induction n arbitrary: a)
  case 0
  then show ?case by (simp add: valid_local_def wall_count_def)
next
  case (Suc n)
  obtain y m d where nd: "next_day (lt_year a, lt_month a, lt_day a) = (y, m, d)"
    by (cases "next_day (lt_year a, lt_month a, lt_day a)") auto
  let ?b = "a\<lparr>lt_year := y, lt_month := m, lt_day := d\<rparr>"
  from Suc.prems have v: "valid_date (lt_year a) (lt_month a) (lt_day a)" by (simp add: valid_local_def)
  have vb: "valid_local ?b"
    using valid_next_day [OF v] nd Suc.prems by (simp add: valid_local_def)
  have "wall_count ?b = wall_count a + us_per_day"
    using to_ordinal_next_day [OF v] nd by (simp add: wall_count_def algebra_simps)
  with Suc.IH [OF vb] nd show ?case by (simp add: algebra_simps)
qed

lemma days_before_month_mono:
  assumes "1 \<le> m" and "m \<le> m'"
  shows "days_before_month y m \<le> days_before_month y m'"
  using assms(2)
proof (induction m' rule: int_ge_induct)
  case base
  then show ?case by simp
next
  case (step i)
  moreover have "0 \<le> month_days y i" using month_days_pos [of y i] by linarith
  ultimately show ?case using assms(1) days_before_month_Suc [of i y] by simp
qed

lemma days_before_year_mono:
  assumes "y \<le> y'"
  shows "days_before_year y \<le> days_before_year y'"
  using assms
proof (induction y' rule: int_ge_induct)
  case base
  then show ?case by simp
next
  case (step i)
  then show ?case using days_before_year_Suc [of i] year_days_pos [of i] by simp
qed

text \<open>The ordinal of a date lies within its month and its year.\<close>

lemma to_ordinal_bounds:
  assumes "valid_date y m d"
  shows "days_before_year y < to_ordinal y m d"
    and "to_ordinal y m d \<le> days_before_year (y + 1)"
    and "m < m' \<Longrightarrow> m' \<le> 12 \<Longrightarrow> to_ordinal y m d \<le> days_before_year y + days_before_month y m'"
proof -
  note v = assms [unfolded valid_date_def]
  have nn: "0 \<le> days_before_month y m"
    using days_before_month_mono [of 1 m y] v by simp
  then show "days_before_year y < to_ordinal y m d" using v by (simp add: to_ordinal_def)
  have top: "days_before_month y m + d \<le> days_before_month y (m + 1)"
    using v days_before_month_Suc [of m y] by simp
  show "to_ordinal y m d \<le> days_before_year (y + 1)"
  proof (cases "m = 12")
    case True
    with v days_before_month_table(3) [of y] show ?thesis
      by (simp add: to_ordinal_def days_before_year_Suc month_days_def)
  next
    case False
    with v have "days_before_month y (m + 1) \<le> days_before_month y 12"
      by (intro days_before_month_mono) auto
    with top days_before_month_table(3) [of y] show ?thesis
      by (simp add: to_ordinal_def days_before_year_Suc)
  qed
  show "to_ordinal y m d \<le> days_before_year y + days_before_month y m'" if "m < m'" "m' \<le> 12"
    using that v top days_before_month_mono [of "m + 1" m' y] by (simp add: to_ordinal_def)
qed

lemma to_ordinal_less:
  assumes "valid_date y m d" and "valid_date y' m' d'"
    and "y < y' \<or> y = y' \<and> (m < m' \<or> m = m' \<and> d < d')"
  shows "to_ordinal y m d < to_ordinal y' m' d'"
  using assms(3)
proof (elim disjE conjE)
  assume "y < y'"
  then have "days_before_year (y + 1) \<le> days_before_year y'" by (intro days_before_year_mono) simp
  with to_ordinal_bounds(2) [OF assms(1)] to_ordinal_bounds(1) [OF assms(2)] show ?thesis by linarith
next
  assume "y = y'" "m < m'"
  with to_ordinal_bounds(3) [OF assms(1)] assms(2)
  have "to_ordinal y m d \<le> days_before_year y + days_before_month y m'" by (simp add: valid_date_def)
  with \<open>y = y'\<close> assms(2) show ?thesis by (simp add: to_ordinal_def valid_date_def)
next
  assume "y = y'" "m = m'" "d < d'"
  then show ?thesis by (simp add: to_ordinal_def)
qed

lemma wall_less_eq_count:
  assumes "valid_local a" and "valid_local b"
  shows "wall_less_eq a b \<longleftrightarrow> wall_count a \<le> wall_count b"
proof -
  note v = assms [unfolded valid_local_def]
  have strict: "wall_count x < wall_count z"
    if "valid_local x" "valid_local z"
      "to_ordinal (lt_year x) (lt_month x) (lt_day x) < to_ordinal (lt_year z) (lt_month z) (lt_day z)"
    for x z :: local_time
    using that by (simp add: wall_count_def valid_local_def us_per_day_def)
  let ?lt = "\<lambda>x z. lt_year x < lt_year z \<or> lt_year x = lt_year z \<and>
     (lt_month x < lt_month z \<or> lt_month x = lt_month z \<and> lt_day x < lt_day z)"
  consider "?lt a b" | "?lt b a" | "lt_year a = lt_year b" "lt_month a = lt_month b" "lt_day a = lt_day b"
    by linarith
  then show ?thesis
  proof cases
    case 1
    with v have "wall_count a < wall_count b" by (intro strict assms to_ordinal_less) auto
    with 1 show ?thesis by (auto simp: wall_less_eq_def)
  next
    case 2
    with v have "wall_count b < wall_count a" by (intro strict assms to_ordinal_less) auto
    with 2 show ?thesis by (auto simp: wall_less_eq_def)
  next
    case 3
    then show ?thesis by (auto simp: wall_less_eq_def wall_count_def)
  qed
qed

lemma civil_valid:
  assumes "1 - epoch_ordinal \<le> t div us_per_day"
  shows "valid_local (civil t)" and "of_civil (civil t) = t"
proof -
  obtain y m d where o: "of_ordinal (t div us_per_day + epoch_ordinal) = (y, m, d)"
    by (cases "of_ordinal (t div us_per_day + epoch_ordinal)") auto
  from to_of_ordinal [OF _ o] assms
  have "to_ordinal y m d = t div us_per_day + epoch_ordinal" "valid_date y m d" by auto
  moreover have "0 < us_per_day" by (simp add: us_per_day_def)
  ultimately show "valid_local (civil t)" "of_civil (civil t) = t"
    using o by (simp_all add: civil_def valid_local_def of_civil_def wall_count_def algebra_simps)
qed

end
