(* ===== verification/Scheduling.thy ===== *)
theory Scheduling
  imports Database Calendar
begin

text \<open>
  \<^verbatim>\<open>src/src/application/scheduling.py\<close>: the next due instant of a profile's schedule. The
  time zone database and \<^verbatim>\<open>croniter\<close> are not in the repository; they are the two fields
  of \<open>time_env\<close>. The three calendar kinds compute a wall-clock candidate, which the zone
  turns into an instant.
\<close>

record time_env =
  zoneinfo :: "string \<Rightarrow> zone option"
  croniter_next :: "string \<Rightarrow> zone \<Rightarrow> local_time \<Rightarrow> time"

text \<open>\<^verbatim>\<open>ZoneInfo(key)\<close>; an unknown key raises \<^verbatim>\<open>ZoneInfoNotFoundError\<close>, a \<^verbatim>\<open>KeyError\<close>.\<close>

definition zone_of :: "time_env \<Rightarrow> string \<Rightarrow> zone result" where
  "zone_of env key = (case zoneinfo env key of
     None \<Rightarrow> Inl (KeyError ''No time zone found'') | Some z \<Rightarrow> Inr z)"

section \<open>Candidates on the wall clock\<close>

definition daily_candidate :: "int \<Rightarrow> int \<Rightarrow> local_time \<Rightarrow> local_time" where
  "daily_candidate hour minute local =
     (let candidate = set_time hour minute local
      in if wall_less_eq candidate local then add_days 1 candidate else candidate)"

definition weekly_candidate :: "int \<Rightarrow> int \<Rightarrow> int \<Rightarrow> local_time \<Rightarrow> local_time" where
  "weekly_candidate wday hour minute local =
     (let days = (wday - weekday local) mod 7;
          candidate = set_time hour minute (add_days (nat days) local)
      in if wall_less_eq candidate local then add_days 7 candidate else candidate)"

definition monthly_candidate :: "int \<Rightarrow> int \<Rightarrow> int \<Rightarrow> local_time \<Rightarrow> local_time" where
  "monthly_candidate mday hour minute local =
     (let year = lt_year local; month = lt_month local;
          day = min mday (month_days year month);
          candidate = set_time hour minute (local\<lparr>lt_day := day\<rparr>)
      in if wall_less_eq candidate local
         then let month' = month mod 12 + 1;
                  year' = year + (if month' = 1 then 1 else 0);
                  day' = min mday (month_days year' month')
              in candidate\<lparr>lt_year := year', lt_month := month', lt_day := day'\<rparr>
         else candidate)"

text \<open>
  \<^verbatim>\<open>hour, minute = (int(value) for value in schedule_time.split(":"))\<close>, and the range check
  of \<^verbatim>\<open>datetime.replace\<close>.
\<close>

definition parse_schedule_time :: "string \<Rightarrow> (int \<times> int) result" where
  "parse_schedule_time s =
     (case map_result py_int (split_on (CHR '':'') s) of
        Inl e \<Rightarrow> Inl e
      | Inr [hour, minute] \<Rightarrow>
          if 0 \<le> hour \<and> hour \<le> 23 \<and> 0 \<le> minute \<and> minute \<le> 59 then Inr (hour, minute)
          else Inl (ValueError ''hour or minute out of range'')
      | Inr _ \<Rightarrow> Inl (ValueError ''wrong number of values to unpack''))"

section \<open>The next due instant\<close>

definition interval_unit :: "schedule_kind \<Rightarrow> int option" where
  "interval_unit kind =
     (case kind of EveryNMinutes \<Rightarrow> Some (seconds 60) | EveryNHours \<Rightarrow> Some (seconds 3600)
      | EveryNDays \<Rightarrow> Some (seconds 86400) | _ \<Rightarrow> None)"

definition calendar_candidate :: "profile \<Rightarrow> int \<Rightarrow> int \<Rightarrow> local_time \<Rightarrow> local_time result" where
  "calendar_candidate p hour minute local =
     (case p_kind p of
        Daily \<Rightarrow> Inr (daily_candidate hour minute local)
      | Weekly \<Rightarrow> (case p_weekday p of
          None \<Rightarrow> Inl (ValueError ''weekly schedule is incomplete'')
        | Some w \<Rightarrow> Inr (weekly_candidate w hour minute local))
      | _ \<Rightarrow> (case p_monthday p of
          None \<Rightarrow> Inl (ValueError ''monthly schedule is incomplete'')
        | Some d \<Rightarrow> Inr (monthly_candidate d hour minute local)))"

definition next_scheduled_time ::
  "time_env \<Rightarrow> profile \<Rightarrow> time \<Rightarrow> string \<Rightarrow> time option result" where
  "next_scheduled_time env p after timezone =
     (if p_kind p \<in> {Manual, Once} then Inr None
      else case interval_unit (p_kind p) of
        Some unit \<Rightarrow> (case p_interval p of
            None \<Rightarrow> Inl (ValueError ''interval schedule is incomplete'')
          | Some n \<Rightarrow> Inr (Some (after + unit * n)))
      | None \<Rightarrow>
        if p_kind p = Cron then
          (case p_cron p of
             None \<Rightarrow> Inl (ValueError ''cron schedule is incomplete'')
           | Some expression \<Rightarrow> bind_result (zone_of env timezone) (\<lambda>z.
               Inr (Some (croniter_next env expression z (to_local z after)))))
        else (case p_time p of
            None \<Rightarrow> Inl (ValueError ''calendar schedule is incomplete'')
          | Some text \<Rightarrow> bind_result (parse_schedule_time text) (\<lambda>(hour, minute).
              bind_result (zone_of env timezone) (\<lambda>z.
              bind_result (calendar_candidate p hour minute (to_local z after)) (\<lambda>candidate.
              Inr (Some (to_utc z candidate)))))))"

section \<open>Candidates lie strictly later on the wall clock\<close>

lemma set_time_valid:
  assumes "valid_local a" and "0 \<le> hour" "hour \<le> 23" "0 \<le> minute" "minute \<le> 59"
  shows "valid_local (set_time hour minute a)"
  using assms by (simp add: valid_local_def set_time_def us_per_day_def)

lemma set_time_same_day:
  "wall_count (set_time hour minute a) = wall_count a - lt_tod a + (hour * 60 + minute) * 60000000"
  by (simp add: wall_count_def set_time_def)

lemma valid_tod: "valid_local a \<Longrightarrow> 0 \<le> lt_tod a \<and> lt_tod a < us_per_day"
  by (simp add: valid_local_def)

lemma time_of_day_bound:
  assumes "0 \<le> hour" "hour \<le> (23::int)" "0 \<le> minute" "minute \<le> 59"
  shows "0 \<le> (hour * 60 + minute) * 60000000" "(hour * 60 + minute) * 60000000 < us_per_day"
  using assms by (simp_all add: us_per_day_def)

lemma daily_candidate_later:
  assumes v: "valid_local a" and t: "0 \<le> hour" "hour \<le> 23" "0 \<le> minute" "minute \<le> 59"
  shows "valid_local (daily_candidate hour minute a)"
    and "wall_count a < wall_count (daily_candidate hour minute a)"
    and "wall_count (daily_candidate hour minute a) \<le> wall_count a + us_per_day"
    and "lt_tod (daily_candidate hour minute a) = (hour * 60 + minute) * 60000000"
proof -
  let ?c = "set_time hour minute a"
  have vc: "valid_local ?c" by (rule set_time_valid [OF v t])
  note ad = add_days_wall [OF vc, of 1]
  note wl = wall_less_eq_count [OF vc v]
  note sd = set_time_same_day [of hour minute a] and tb = time_of_day_bound [OF t] and va = valid_tod [OF v]
  have tod: "lt_tod ?c = (hour * 60 + minute) * 60000000" by (simp add: set_time_def)
  show "valid_local (daily_candidate hour minute a)"
    using vc ad by (simp add: daily_candidate_def Let_def)
  show "wall_count a < wall_count (daily_candidate hour minute a)"
    using ad wl sd tb va by (simp add: daily_candidate_def Let_def)
  show "wall_count (daily_candidate hour minute a) \<le> wall_count a + us_per_day"
    using ad wl sd tb va by (simp add: daily_candidate_def Let_def)
  show "lt_tod (daily_candidate hour minute a) = (hour * 60 + minute) * 60000000"
    using ad tod by (simp add: daily_candidate_def Let_def)
qed

lemma weekday_wall: "valid_local a \<Longrightarrow> weekday a = (wall_count a div us_per_day + 6) mod 7"
  by (simp add: weekday_def wall_count_def valid_local_def us_per_day_def)

lemma weekday_add_days:
  assumes "valid_local a"
  shows "weekday (add_days n a) = (weekday a + int n) mod 7"
proof -
  note ad = add_days_wall [OF assms, of n]
  have "0 < us_per_day" by (simp add: us_per_day_def)
  then have "(wall_count a + int n * us_per_day) div us_per_day = wall_count a div us_per_day + int n"
    by simp
  with ad have "weekday (add_days n a) = (wall_count a div us_per_day + int n + 6) mod 7"
    by (simp add: weekday_wall)
  also have "\<dots> = ((wall_count a div us_per_day + 6) mod 7 + int n) mod 7"
    by (simp add: mod_simps algebra_simps)
  finally show ?thesis using assms by (simp add: weekday_wall)
qed

lemma weekday_set_time: "weekday (set_time h m a) = weekday a"
  by (simp add: weekday_def set_time_def)

lemma weekday_range: "0 \<le> weekday a \<and> weekday a < 7"
  by (simp add: weekday_def)

lemma weekly_candidate_later:
  assumes v: "valid_local a" and t: "0 \<le> hour" "hour \<le> 23" "0 \<le> minute" "minute \<le> 59"
    and w: "0 \<le> wday" "wday \<le> 6"
  shows "valid_local (weekly_candidate wday hour minute a)"
    and "wall_count a < wall_count (weekly_candidate wday hour minute a)"
    and "wall_count (weekly_candidate wday hour minute a) \<le> wall_count a + 7 * us_per_day"
    and "weekday (weekly_candidate wday hour minute a) = wday"
    and "lt_tod (weekly_candidate wday hour minute a) = (hour * 60 + minute) * 60000000"
proof -
  define k where "k = nat ((wday - weekday a) mod 7)"
  have k: "int k = (wday - weekday a) mod 7" "k < 7" by (simp_all add: k_def)
  let ?b = "add_days k a" and ?c = "set_time hour minute (add_days k a)"
  define K where "K = int k * us_per_day"
  have ab: "valid_local ?b" "wall_count ?b = wall_count a + K" "lt_tod ?b = lt_tod a"
    using add_days_wall [OF v, of k] by (simp_all add: K_def)
  from ab have vb: "valid_local ?b" by simp
  have vc: "valid_local ?c" by (rule set_time_valid [OF vb t])
  note ac = add_days_wall [OF vc, of 7]
  note wl = wall_less_eq_count [OF vc v]
  note sd = set_time_same_day [of hour minute ?b] and tb = time_of_day_bound [OF t] and va = valid_tod [OF v]
  have eq: "weekly_candidate wday hour minute a = (if wall_less_eq ?c a then add_days 7 ?c else ?c)"
    by (simp add: weekly_candidate_def Let_def k_def)
  have kd: "0 \<le> K" by (simp add: K_def us_per_day_def)
  have k7: "K \<le> 6 * us_per_day" using k(2) by (simp add: K_def us_per_day_def)
  have wb: "weekday ?b = wday"
    using weekday_add_days [OF v, of k] w weekday_range [of a] k(1) by (simp add: mod_simps)
  have w7: "weekday (add_days 7 ?c) = wday"
    using weekday_add_days [OF vc, of 7] wb w by (simp add: weekday_set_time)
  have tod: "lt_tod ?c = (hour * 60 + minute) * 60000000" by (simp add: set_time_def)
  show "valid_local (weekly_candidate wday hour minute a)" using vc ac eq by simp
  show "wall_count a < wall_count (weekly_candidate wday hour minute a)"
    using eq ac wl sd tb va ab kd by auto
  show "wall_count (weekly_candidate wday hour minute a) \<le> wall_count a + 7 * us_per_day"
    using eq ac wl sd tb va ab k7 by auto
  show "weekday (weekly_candidate wday hour minute a) = wday"
    using eq wb w7 by (simp add: weekday_set_time)
  show "lt_tod (weekly_candidate wday hour minute a) = (hour * 60 + minute) * 60000000"
    using eq ac tod by simp
qed

lemma monthly_candidate_later:
  assumes v: "valid_local a" and t: "0 \<le> hour" "hour \<le> 23" "0 \<le> minute" "minute \<le> 59"
    and d: "1 \<le> mday" "mday \<le> 28"
  shows "valid_local (monthly_candidate mday hour minute a)"
    and "wall_count a < wall_count (monthly_candidate mday hour minute a)"
    and "lt_day (monthly_candidate mday hour minute a) = mday"
    and "lt_tod (monthly_candidate mday hour minute a) = (hour * 60 + minute) * 60000000"
proof -
  have m28: "min mday (month_days y m) = mday" for y m
    using d month_days_pos [of y m] by simp
  have mv: "1 \<le> lt_month a" "lt_month a \<le> 12" using v by (simp_all add: valid_local_def valid_date_def)
  let ?c = "set_time hour minute (a\<lparr>lt_day := mday\<rparr>)"
  define month' where "month' = lt_month a mod 12 + 1"
  define year' where "year' = lt_year a + (if month' = 1 then 1 else 0)"
  let ?n = "?c\<lparr>lt_year := year', lt_month := month', lt_day := mday\<rparr>"
  have eq: "monthly_candidate mday hour minute a = (if wall_less_eq ?c a then ?n else ?c)"
    by (simp add: monthly_candidate_def Let_def m28 month'_def year'_def)
  have dv: "1 \<le> mday \<and> mday \<le> month_days y m" for y m
    using d month_days_pos [of y m] by simp
  have vc: "valid_local ?c"
    using v dv time_of_day_bound [OF t] by (simp add: valid_local_def valid_date_def set_time_def)
  have m': "1 \<le> month'" "month' \<le> 12" by (simp_all add: month'_def)
  have vn: "valid_local ?n"
    using dv m' time_of_day_bound [OF t] by (simp add: valid_local_def valid_date_def set_time_def)
  have later: "lt_year a < year' \<or> lt_year a = year' \<and> lt_month a < month'"
    using mv by (cases "lt_month a = 12") (auto simp: year'_def month'_def)
  have "to_ordinal (lt_year a) (lt_month a) (lt_day a) < to_ordinal year' month' mday"
    using v vn later by (intro to_ordinal_less) (auto simp: valid_local_def set_time_def)
  then have n_later: "wall_count a < wall_count ?n"
    using valid_tod [OF v] time_of_day_bound [OF t]
    by (simp add: wall_count_def set_time_def us_per_day_def)
  show "valid_local (monthly_candidate mday hour minute a)" using eq vc vn by simp
  show "wall_count a < wall_count (monthly_candidate mday hour minute a)"
    using eq n_later wall_less_eq_count [OF vc v] by simp
  show "lt_day (monthly_candidate mday hour minute a) = mday" using eq by (simp add: set_time_def)
  show "lt_tod (monthly_candidate mday hour minute a) = (hour * 60 + minute) * 60000000"
    using eq by (simp add: set_time_def)
qed

end
