(* ===== verification/Encoding.thy ===== *)
theory Encoding
  imports Database Calendar
begin

text \<open>
  The text encodings the run snapshots use: base64 of encrypted blobs, ISO texts of instants,
  and the reading of JSON members as the Python constructors read them. A codec is an encoder
  and a decoder that undoes it; the optional and list codecs are built from it once.
\<close>

section \<open>Codecs\<close>

locale codec =
  fixes enc :: "'a \<Rightarrow> 'b" and dec :: "'b \<Rightarrow> 'a result" and dom_ok :: "'a \<Rightarrow> bool"
  assumes dec_enc: "dom_ok a \<Longrightarrow> dec (enc a) = Inr a"
begin

lemma enc_inject: "dom_ok a \<Longrightarrow> dom_ok b \<Longrightarrow> enc a = enc b \<longleftrightarrow> a = b"
  by (metis dec_enc sum.inject(2))

lemma dec_enc_list: "\<forall>a \<in> set as. dom_ok a \<Longrightarrow> map_result dec (map enc as) = Inr as"
  by (induction as) (auto simp: dec_enc)

end

section \<open>Base64\<close>

definition b64_alphabet :: string where
  "b64_alphabet = ''ABCDEFGHIJKLMNOPQRSTUVWXYZabcdefghijklmnopqrstuvwxyz0123456789+/''"

definition b64_char :: "nat \<Rightarrow> char" where
  "b64_char n = b64_alphabet ! n"

definition b64_index :: "char \<Rightarrow> nat option" where
  "b64_index c = map_option fst (find (\<lambda>(i, x). x = c) (enumerate 0 b64_alphabet))"

definition byte_nat :: "char \<Rightarrow> nat" where
  "byte_nat c = of_char c"

fun b64_encode :: "bytes \<Rightarrow> string" where
  "b64_encode [] = []"
| "b64_encode [a] =
     (let n = byte_nat a * 65536
      in [b64_char (n div 262144), b64_char (n div 4096 mod 64), CHR ''='', CHR ''=''])"
| "b64_encode [a, b] =
     (let n = byte_nat a * 65536 + byte_nat b * 256
      in [b64_char (n div 262144), b64_char (n div 4096 mod 64), b64_char (n div 64 mod 64), CHR ''=''])"
| "b64_encode (a # b # c # rest) =
     (let n = byte_nat a * 65536 + byte_nat b * 256 + byte_nat c
      in b64_char (n div 262144) # b64_char (n div 4096 mod 64) # b64_char (n div 64 mod 64) #
         b64_char (n mod 64) # b64_encode rest)"

text \<open>\<^verbatim>\<open>b64decode(value, validate=True)\<close>: anything outside the alphabet or a wrong padding
  raises \<^verbatim>\<open>binascii.Error\<close>, a \<^verbatim>\<open>ValueError\<close>.\<close>

definition b64_error :: exn where
  "b64_error = ValueError ''binascii.Error''"

fun b64_decode :: "string \<Rightarrow> bytes result" where
  "b64_decode [] = Inr []"
| "b64_decode (w # x # y # z # rest) =
     (case (b64_index w, b64_index x) of
        (Some i, Some j) \<Rightarrow>
          if y = CHR ''='' then
            if z = CHR ''='' \<and> rest = [] then Inr [char_of ((i * 262144 + j * 4096) div 65536)]
            else Inl b64_error
          else (case b64_index y of
            None \<Rightarrow> Inl b64_error
          | Some k \<Rightarrow>
              if z = CHR ''='' then
                if rest = [] then
                  let n = i * 262144 + j * 4096 + k * 64
                  in Inr [char_of (n div 65536), char_of (n div 256 mod 256)]
                else Inl b64_error
              else (case b64_index z of
                None \<Rightarrow> Inl b64_error
              | Some l \<Rightarrow>
                  let n = i * 262144 + j * 4096 + k * 64 + l
                  in bind_result (b64_decode rest) (\<lambda>bs.
                     Inr (char_of (n div 65536) # char_of (n div 256 mod 256) # char_of (n mod 256) # bs))))
      | _ \<Rightarrow> Inl b64_error)"
| "b64_decode _ = Inl b64_error"

lemma b64_index_char: "n < 64 \<Longrightarrow> b64_index (b64_char n) = Some n"
proof -
  have "\<forall>k \<in> set [0..<64]. b64_index (b64_char k) = Some k" by code_simp
  then show "n < 64 \<Longrightarrow> b64_index (b64_char n) = Some n" by simp
qed

lemma b64_char_pad: "n < 64 \<Longrightarrow> b64_char n \<noteq> CHR ''=''"
proof -
  have "\<forall>k \<in> set [0..<64]. b64_char k \<noteq> CHR ''=''" by code_simp
  then show "n < 64 \<Longrightarrow> b64_char n \<noteq> CHR ''=''" by simp
qed

lemma byte_nat_less: "byte_nat c < 256"
  using of_char_mod_256 [of c, where 'a = nat] by (simp add: byte_nat_def)

lemma char_of_byte_nat [simp]: "char_of (byte_nat c) = c"
  by (simp add: byte_nat_def)

lemma sextets:
  "(n::nat) div 262144 * 262144 + n div 4096 mod 64 * 4096 + n div 64 mod 64 * 64 + n mod 64 = n"
proof -
  have "n div 64 div 64 = n div 4096" "n div 4096 div 64 = n div 262144" by (simp_all add: div_mult2_eq [symmetric])
  then show ?thesis
    using div_mult_mod_eq [of n 64] div_mult_mod_eq [of "n div 64" 64] div_mult_mod_eq [of "n div 4096" 64]
    by linarith
qed

lemma octets:
  assumes "a < 256" "b < 256" "(c::nat) < 256"
  shows "(a * 65536 + b * 256 + c) div 65536 = a"
    and "(a * 65536 + b * 256 + c) div 256 mod 256 = b"
    and "(a * 65536 + b * 256 + c) mod 256 = c"
    and "(a * 65536 + b * 256 + c) div 262144 < 64"
proof -
  have n: "(a * 65536 + b * 256 + c) div 256 = a * 256 + b" using assms(3) by simp
  then show "(a * 65536 + b * 256 + c) div 256 mod 256 = b" using assms(2) by simp
  have "(a * 65536 + b * 256 + c) div 65536 = (a * 65536 + b * 256 + c) div 256 div 256"
    by (simp add: div_mult2_eq [symmetric])
  then show "(a * 65536 + b * 256 + c) div 65536 = a" using n assms(2) by simp
  have "a * 65536 + b * 256 + c = c + (a * 256 + b) * 256" by simp
  then show "(a * 65536 + b * 256 + c) mod 256 = c"
    using assms(3) by (metis mod_less mod_mult_self1)
  show "(a * 65536 + b * 256 + c) div 262144 < 64" using assms by (simp add: less_mult_imp_div_less)
qed

lemma padding_sextets:
  "(x::nat) * 65536 mod 64 = 0" "x * 65536 div 64 mod 64 = 0" "(x * 65536 + y * 256) mod 64 = 0"
proof -
  have "x * 65536 = 64 * (64 * (x * 16))" "x * 65536 + y * 256 = 64 * (x * 1024 + y * 4)" by simp_all
  then show "x * 65536 mod 64 = 0" "x * 65536 div 64 mod 64 = 0" "(x * 65536 + y * 256) mod 64 = 0"
    by (metis mod_mult_self1_is_0 nonzero_mult_div_cancel_left zero_neq_numeral)+
qed

lemma b64_round_trip: "b64_decode (b64_encode bs) = Inr bs"
proof (induction bs rule: b64_encode.induct)
  case 1
  then show ?case by simp
next
  case (2 a)
  define n where n: "n = byte_nat a * 65536"
  have "n div 65536 = byte_nat a" "n div 262144 < 64"
    unfolding n using octets(1,4) [OF byte_nat_less [of a], of 0 0] by (simp_all only: mult_0 add_0_right)
  moreover have "n mod 64 = 0" "n div 64 mod 64 = 0" unfolding n by (rule padding_sextets)+
  ultimately show ?case using sextets [of n] by (simp add: Let_def n [symmetric] b64_index_char)
next
  case (3 a b)
  define n where n: "n = byte_nat a * 65536 + byte_nat b * 256"
  have "n div 65536 = byte_nat a" "n div 256 mod 256 = byte_nat b" "n div 262144 < 64"
    unfolding n using octets(1,2,4) [OF byte_nat_less [of a] byte_nat_less [of b], of 0]
    by (simp_all only: add_0_right)
  moreover from this have "char_of (n div 256) = b"
    using char_of_mod_256 [of "n div 256"] by (simp only: char_of_byte_nat)
  moreover have "n mod 64 = 0" unfolding n by (rule padding_sextets)
  ultimately show ?case
    using sextets [of n] by (simp add: Let_def n [symmetric] b64_index_char b64_char_pad)
next
  case (4 a b c rest)
  define n where n: "n = byte_nat a * 65536 + byte_nat b * 256 + byte_nat c"
  have o: "n div 65536 = byte_nat a" "n div 256 mod 256 = byte_nat b" "n mod 256 = byte_nat c"
    "n div 262144 < 64"
    unfolding n by (rule octets [OF byte_nat_less [of a] byte_nat_less [of b] byte_nat_less [of c]])+
  have "char_of (n div 256) = b" "char_of n = c"
    using char_of_mod_256 [of "n div 256"] char_of_mod_256 [of n]
    unfolding o(2,3) by (simp_all only: char_of_byte_nat)
  with o(1,4) 4 sextets [of n] show ?case
    by (simp add: Let_def n [symmetric] b64_index_char b64_char_pad)
qed

interpretation b64: codec b64_encode b64_decode "\<lambda>_. True"
  by unfold_locales (rule b64_round_trip)


section \<open>Instants as ISO texts\<close>

text \<open>
  \<^verbatim>\<open>datetime.isoformat\<close> of an aware UTC instant, and the reading of that form by
  \<^verbatim>\<open>datetime.fromisoformat\<close> (which accepts further forms that no snapshot contains; they
  are rejected here).
\<close>

definition iso_format :: "time \<Rightarrow> string" where
  "iso_format t =
     (let a = civil t; us = nat (lt_tod a); s = us div 1000000
      in show_padded 4 (nat (lt_year a)) @ ''-'' @ show_padded 2 (nat (lt_month a)) @ ''-'' @
         show_padded 2 (nat (lt_day a)) @ ''T'' @ show_padded 2 (s div 3600) @ '':'' @
         show_padded 2 (s div 60 mod 60) @ '':'' @ show_padded 2 (s mod 60) @
         (if us mod 1000000 = 0 then [] else ''.'' @ show_padded 6 (us mod 1000000)) @ ''+00:00'')"

definition iso_error :: exn where
  "iso_error = ValueError ''Invalid isoformat string''"

text \<open>Exactly \<open>n\<close> digits, and a fixed text, from the front of a string.\<close>

definition digits_value :: "nat \<Rightarrow> string \<Rightarrow> nat" where
  "digits_value acc s = foldl (\<lambda>a c. a * 10 + (of_char c - 48)) acc s"

definition take_number :: "nat \<Rightarrow> string \<Rightarrow> (nat \<times> string) result" where
  "take_number n s =
     (if n \<le> length s \<and> list_all is_digit (take n s)
      then Inr (digits_value 0 (take n s), drop n s) else Inl iso_error)"

definition take_text :: "string \<Rightarrow> string \<Rightarrow> string result" where
  "take_text w s = (if starts_with w s then Inr (drop (length w) s) else Inl iso_error)"

definition take_fraction :: "string \<Rightarrow> (nat \<times> string) result" where
  "take_fraction s =
     (if starts_with ''.'' s then take_number 6 (drop 1 s) else Inr (0, s))"

definition from_iso :: "string \<Rightarrow> time result" where
  "from_iso s0 =
     bind_result (take_number 4 s0) (\<lambda>(y, s1).
     bind_result (take_text ''-'' s1) (\<lambda>s2.
     bind_result (take_number 2 s2) (\<lambda>(mo, s3).
     bind_result (take_text ''-'' s3) (\<lambda>s4.
     bind_result (take_number 2 s4) (\<lambda>(d, s5).
     bind_result (take_text ''T'' s5) (\<lambda>s6.
     bind_result (take_number 2 s6) (\<lambda>(h, s7).
     bind_result (take_text '':'' s7) (\<lambda>s8.
     bind_result (take_number 2 s8) (\<lambda>(mi, s9).
     bind_result (take_text '':'' s9) (\<lambda>s10.
     bind_result (take_number 2 s10) (\<lambda>(sec, s11).
     bind_result (take_fraction s11) (\<lambda>(us, s12).
     bind_result (take_text ''+00:00'' s12) (\<lambda>s13.
       if s13 = [] \<and> 1 \<le> y \<and> valid_date (int y) (int mo) (int d) \<and> h < 24 \<and> mi < 60 \<and> sec < 60
       then Inr (of_civil \<lparr>lt_year = int y, lt_month = int mo, lt_day = int d,
              lt_tod = int (((h * 60 + mi) * 60 + sec) * 1000000 + us), lt_fold = False\<rparr>)
       else Inl iso_error)))))))))))))"

text \<open>The instants a \<^verbatim>\<open>datetime\<close> can hold: years 1 to 9999.\<close>

definition datetime_range :: "time \<Rightarrow> bool" where
  "datetime_range t \<longleftrightarrow> 1 - epoch_ordinal \<le> t div us_per_day \<and> lt_year (civil t) \<le> 9999"

lemma of_char_digit: "k < 10 \<Longrightarrow> (of_char (char_of (48 + k :: nat)) :: nat) = 48 + k"
  by simp

lemma show_nat_digits:
  "list_all is_digit (show_nat n) \<and> digits_value acc (show_nat n) = acc * 10 ^ length (show_nat n) + n"
proof (induction n arbitrary: acc rule: show_nat.induct)
  case (1 n)
  show ?case
  proof (cases "n < 10")
    case True
    then show ?thesis
      by (simp add: show_nat.simps [of n] digits_value_def is_digit_def)
  next
    case False
    with 1 have ih: "list_all is_digit (show_nat (n div 10))"
      "digits_value acc (show_nat (n div 10)) = acc * 10 ^ length (show_nat (n div 10)) + n div 10"
      by blast+
    have c: "(of_char (char_of (48 + n mod 10 :: nat)) :: nat) = 48 + n mod 10"
      by (rule of_char_digit) simp
    then have "is_digit (char_of (48 + n mod 10))" by (simp add: is_digit_def)
    with False ih c show ?thesis
      by (simp add: show_nat.simps [of n] digits_value_def algebra_simps)
  qed
qed

lemma show_nat_length: "1 \<le> w \<Longrightarrow> n < 10 ^ w \<Longrightarrow> length (show_nat n) \<le> w"
proof (induction n arbitrary: w rule: show_nat.induct)
  case (1 n)
  show ?case
  proof (cases "n < 10")
    case True
    with 1 show ?thesis by (simp add: show_nat.simps [of n])
  next
    case False
    with 1 have w: "2 \<le> w" by (cases w; cases "w - 1") auto
    then obtain v where v: "w = Suc v" "1 \<le> v" by (cases w) auto
    with 1 have "n div 10 < 10 ^ v" by (simp add: less_mult_imp_div_less mult.commute)
    with 1 False v show ?thesis by (simp add: show_nat.simps [of n])
  qed
qed

lemma digits_value_zeros: "digits_value 0 (replicate k (CHR ''0'') @ s) = digits_value 0 s"
  by (induction k) (simp_all add: digits_value_def)

lemma take_number_padded:
  assumes "1 \<le> w" and "n < 10 ^ w"
  shows "take_number w (show_padded w n @ rest) = Inr (n, rest)"
proof -
  let ?s = "show_padded w n"
  have len: "length ?s = w"
    using show_nat_length [OF assms] by (simp add: show_padded_def Let_def)
  have "is_digit (CHR ''0'')" by (simp add: is_digit_def)
  then have dig: "list_all is_digit ?s"
    using show_nat_digits [of n 0] by (auto simp: show_padded_def Let_def list_all_iff)
  have "digits_value 0 ?s = n"
    using show_nat_digits [of n 0] by (simp add: show_padded_def Let_def digits_value_zeros)
  with len dig show ?thesis by (simp add: take_number_def)
qed

lemma take_text_append [simp]: "take_text w (w @ rest) = Inr rest"
  by (simp add: take_text_def starts_with_def)

lemma take_text_Cons [simp]: "take_text [c] (c # rest) = Inr rest"
  using take_text_append [of "[c]" rest] by simp

lemma split_year_ge: "y \<le> fst (split_year y n)"
proof (induction y n rule: split_year.induct)
  case (1 y n)
  then show ?case by (cases "n < year_days y") (auto simp: split_year.simps [of y n])
qed

lemma civil_year: "1 \<le> lt_year (civil t)"
  using split_year_ge [of 1 "t div us_per_day + epoch_ordinal - 1"]
  by (auto simp: civil_def of_ordinal_def Let_def split: prod.splits)

lemma day_of_month_le: "month_days y m \<le> 31"
  by (simp add: month_days_def)

lemma tod_fields:
  assumes "us < 86400000000"
  shows "us div 1000000 div 3600 < 24" and "us div 1000000 div 60 mod 60 < (60::nat)"
    and "us div 1000000 mod 60 < 60"
    and "((us div 1000000 div 3600 * 60 + us div 1000000 div 60 mod 60) * 60 + us div 1000000 mod 60)
           * 1000000 + us mod 1000000 = us"
proof -
  define s where "s = us div 1000000"
  have us: "s * 1000000 + us mod 1000000 = us" by (simp add: s_def)
  have "s < 86400" using assms by (simp add: s_def less_mult_imp_div_less)
  then show "us div 1000000 div 3600 < 24"
    unfolding s_def [symmetric] by (simp add: less_mult_imp_div_less)
  show "us div 1000000 div 60 mod 60 < 60" "us div 1000000 mod 60 < 60" by simp_all
  have "s div 3600 = s div 60 div 60" by (simp add: div_mult2_eq [symmetric])
  then have "(s div 3600 * 60 + s div 60 mod 60) * 60 + s mod 60 = s"
    by (simp only: div_mult_mod_eq)
  with us show "((us div 1000000 div 3600 * 60 + us div 1000000 div 60 mod 60) * 60
      + us div 1000000 mod 60) * 1000000 + us mod 1000000 = us"
    unfolding s_def [symmetric] by simp
qed

lemma iso_round_trip:
  assumes "datetime_range t"
  shows "from_iso (iso_format t) = Inr t"
proof -
  define a where "a = civil t"
  have v: "valid_local a" "of_civil a = t"
    using civil_valid assms by (simp_all add: a_def datetime_range_def)
  then have vd: "valid_date (lt_year a) (lt_month a) (lt_day a)"
    and td: "0 \<le> lt_tod a" "lt_tod a < us_per_day" by (simp_all add: valid_local_def)
  obtain y m d us where n: "lt_year a = int y" "lt_month a = int m" "lt_day a = int d"
    "lt_tod a = int us"
    using civil_year [of t] vd td
    by (metis a_def valid_date_def nonneg_int_cases order_trans zero_le_one)
  have r: "1 \<le> y" "y < 10 ^ 4" "m < 10 ^ 2" "d < 10 ^ 2"
    using civil_year [of t] assms vd n day_of_month_le [of "int y" "int m"]
    by (auto simp: datetime_range_def valid_date_def a_def [symmetric])
  have us: "us < 86400000000" using td n by (simp add: us_per_day_def)
  note tf = tod_fields [OF us]
  have w: "us div 1000000 div 3600 < 10 ^ 2" "us div 1000000 div 60 mod 60 < 10 ^ 2"
    "us div 1000000 mod 60 < 10 ^ 2" "us mod 1000000 < 10 ^ 6"
    using tf(1-3) by simp_all
  have fr: "take_fraction ((if us mod 1000000 = 0 then [] else ''.'' @ show_padded 6 (us mod 1000000))
      @ ''+00:00'') = Inr (us mod 1000000, ''+00:00'')"
    using take_number_padded [of 6 "us mod 1000000" "''+00:00''"] w(4)
    by (simp add: take_fraction_def starts_with_def)
  have a: "a = \<lparr>lt_year = int y, lt_month = int m, lt_day = int d, lt_tod = int us, lt_fold = False\<rparr>"
    using n by (cases a) (simp add: a_def civil_def Let_def split: prod.splits)
  show ?thesis
    unfolding from_iso_def iso_format_def a_def [symmetric] Let_def n nat_int append_assoc
    using r tf w fr vd n v(2) a
    by (simp add: take_number_padded take_text_def starts_with_def)
qed

interpretation iso: codec iso_format from_iso datetime_range
  by unfold_locales (rule iso_round_trip)

end
