(* ===== verification/Snapshot.thy ===== *)
theory Snapshot
  imports Encoding
begin

text \<open>
  \<^verbatim>\<open>src/src/application/run_config.py\<close>: the configuration snapshot a run is queued with. A
  snapshot is the JSON value that \<^verbatim>\<open>json.dumps\<close> writes and \<^verbatim>\<open>json.loads\<close> reads back.
  Reading a member follows the Python constructor applied to it (\<^verbatim>\<open>int\<close>, \<^verbatim>\<open>str\<close>,
  \<^verbatim>\<open>bool\<close>, an enumeration class); a member stored as it is must have its column's type.
\<close>

section \<open>Reading JSON members\<close>

definition json_get :: "string \<Rightarrow> json \<Rightarrow> json result" where
  "json_get k j = (case j of
     JObj kvs \<Rightarrow> (case map_of kvs k of None \<Rightarrow> Inl (KeyError k) | Some v \<Rightarrow> Inr v)
   | _ \<Rightarrow> Inl (TypeError ''not subscriptable''))"

text \<open>\<^verbatim>\<open>.get(k)\<close> on a dict: a missing key reads as null.\<close>

definition json_find :: "string \<Rightarrow> json \<Rightarrow> json result" where
  "json_find k j = (case j of
     JObj kvs \<Rightarrow> Inr (case map_of kvs k of None \<Rightarrow> JNull | Some v \<Rightarrow> v)
   | _ \<Rightarrow> Inl (TypeError ''no attribute get''))"

fun json_int :: "json \<Rightarrow> int result" where
  "json_int (JInt n) = Inr n"
| "json_int (JBool b) = Inr (if b then 1 else 0)"
| "json_int (JStr s) = py_int s"
| "json_int _ = Inl (TypeError ''int() argument'')"

fun json_str :: "json \<Rightarrow> string result" where
  "json_str (JStr s) = Inr s"
| "json_str (JInt n) = Inr (show_int n)"
| "json_str (JBool b) = Inr (if b then ''True'' else ''False'')"
| "json_str JNull = Inr ''None''"
| "json_str _ = Inl (TypeError ''text of a container'')"

fun json_bool :: "json \<Rightarrow> bool result" where
  "json_bool (JBool b) = Inr b"
| "json_bool (JInt n) = Inr (n \<noteq> 0)"
| "json_bool (JStr s) = Inr (s \<noteq> [])"
| "json_bool (JList xs) = Inr (xs \<noteq> [])"
| "json_bool (JObj kvs) = Inr (kvs \<noteq> [])"
| "json_bool JNull = Inr False"

fun json_list :: "json \<Rightarrow> json list result" where
  "json_list (JList xs) = Inr xs"
| "json_list _ = Inl (TypeError ''not iterable as a list'')"

definition json_enum :: "'e list \<Rightarrow> ('e \<Rightarrow> string) \<Rightarrow> json \<Rightarrow> 'e result" where
  "json_enum members val j = (case j of JStr s \<Rightarrow> enum_of members val s
     | _ \<Rightarrow> Inl (ValueError ''not a valid member''))"

definition json_opt :: "(json \<Rightarrow> 'a result) \<Rightarrow> json \<Rightarrow> 'a option result" where
  "json_opt f j = (if j = JNull then Inr None else bind_result (f j) (\<lambda>a. Inr (Some a)))"

text \<open>Members stored without conversion.\<close>

fun raw_str :: "json \<Rightarrow> string result" where
  "raw_str (JStr s) = Inr s"
| "raw_str _ = Inl (TypeError ''text column'')"

fun raw_int :: "json \<Rightarrow> int result" where
  "raw_int (JInt n) = Inr n"
| "raw_int _ = Inl (TypeError ''integer column'')"

definition json_of_opt :: "('a \<Rightarrow> json) \<Rightarrow> 'a option \<Rightarrow> json" where
  "json_of_opt f x = (case x of None \<Rightarrow> JNull | Some a \<Rightarrow> f a)"

text \<open>A member read with a conversion.\<close>

definition member :: "string \<Rightarrow> (json \<Rightarrow> 'a result) \<Rightarrow> json \<Rightarrow> 'a result" where
  "member k f j = bind_result (json_get k j) f"

lemma member_obj [simp]:
  "member k f (JObj ((k', v) # kvs)) = (if k = k' then f v else member k f (JObj kvs))"
  "member k f (JObj []) = Inl (KeyError k)"
  by (simp_all add: member_def json_get_def)

lemma json_find_obj [simp]:
  "json_find k (JObj ((k', v) # kvs)) = (if k = k' then Inr v else json_find k (JObj kvs))"
  "json_find k (JObj []) = Inr JNull"
  by (simp_all add: json_find_def)

lemma json_opt_of_opt [simp]:
  "(\<And>a. x = Some a \<Longrightarrow> f (g a) = Inr a \<and> g a \<noteq> JNull) \<Longrightarrow> json_opt f (json_of_opt g x) = Inr x"
  by (cases x) (auto simp: json_opt_def json_of_opt_def)

lemma json_enum_str [simp]: "json_enum members val (JStr s) = enum_of members val s"
  by (simp add: json_enum_def)

section \<open>Serializing\<close>

definition encrypted :: "bytes option \<Rightarrow> json" where
  "encrypted v = json_of_opt (\<lambda>b. JStr (b64_encode b)) v"

definition decode_encrypted :: "json \<Rightarrow> bytes option result" where
  "decode_encrypted j = json_opt (\<lambda>v. bind_result (raw_str v) b64_decode) j"

definition remote_json :: "remote_server option \<Rightarrow> json" where
  "remote_json server = json_of_opt (\<lambda>s. JObj [
     (''id'', JInt (s_id s)),
     (''name'', JStr (s_name s)),
     (''host'', JStr (s_host s)),
     (''ssh_port'', JInt (s_port s)),
     (''ssh_username'', JStr (s_username s)),
     (''authentication_method'', JStr (ssh_method_value (s_method s))),
     (''encrypted_private_key'', encrypted (Some (s_key s))),
     (''encrypted_key_passphrase'', encrypted (s_passphrase s)),
     (''host_key_fingerprint'', JStr (s_fingerprint s)),
     (''enabled'', JBool (s_enabled s))]) server"

definition profile_json :: "profile \<Rightarrow> json" where
  "profile_json p = JObj [
     (''id'', JInt (p_id p)),
     (''uuid'', JStr (p_uuid p)),
     (''name'', JStr (p_name p)),
     (''description'', json_of_opt JStr (p_description p)),
     (''source_type'', JStr (source_type_value (p_source_type p))),
     (''enabled'', JBool (p_enabled p)),
     (''status'', JStr (profile_status_value (p_status p))),
     (''schedule_kind'', JStr (schedule_kind_value (p_kind p))),
     (''schedule_interval'', json_of_opt JInt (p_interval p)),
     (''schedule_time'', json_of_opt JStr (p_time p)),
     (''schedule_weekday'', json_of_opt JInt (p_weekday p)),
     (''schedule_monthday'', json_of_opt JInt (p_monthday p)),
     (''schedule_cron'', json_of_opt JStr (p_cron p)),
     (''next_scheduled_at'', json_of_opt (\<lambda>t. JStr (iso_format t)) (p_next p)),
     (''compression_format'', JStr (format_value (p_format p))),
     (''archive_format'', JStr (archive_value (p_archive p))),
     (''compression_algorithm'', JStr (algorithm_value (p_algorithm p))),
     (''compression_preset'', json_of_opt (\<lambda>x. JStr (preset_value x)) (p_preset p)),
     (''encryption_mode'', JStr (encryption_value (p_encryption p))),
     (''age_recipients'', json_of_opt JStr (p_recipients p)),
     (''encrypted_age_passphrase'', encrypted (p_age_secret p)),
     (''created_by'', JInt (p_created_by p))]"

definition database_json :: "database_source \<Rightarrow> json" where
  "database_json d = JObj [
     (''engine'', JStr (engine_value (d_engine d))),
     (''host'', JStr (d_host d)),
     (''port'', JInt (d_port d)),
     (''database_name'', JStr (d_name d)),
     (''username'', JStr (d_username d)),
     (''encrypted_password'', encrypted (Some (d_password d))),
     (''tls_mode'', JStr (tls_value (d_tls d))),
     (''tls_ca_certificate'', json_of_opt JStr (d_tls_ca d)),
     (''mssql_in_docker'', JBool (d_in_docker d)),
     (''mssql_backup_path'', json_of_opt JStr (d_backup_path d)),
     (''mssql_host_backup_path'', json_of_opt JStr (d_host_path d)),
     (''artifact_remote_server_id'', json_of_opt JInt (d_server_id d)),
     (''artifact_remote_server'', remote_json (d_server d))]"

definition path_json :: "backup_path \<Rightarrow> json" where
  "path_json b = JObj [(''path'', JStr (bp_path b)),
     (''sqlite_snapshot_candidate'', JBool (bp_sqlite b))]"

definition files_json :: "files_source \<Rightarrow> json" where
  "files_json f = JObj [
     (''location'', JStr (location_value (f_location f))),
     (''remote_server_id'', json_of_opt JInt (f_server_id f)),
     (''remote_server'', remote_json (f_server f)),
     (''paths'', JList (map path_json (f_paths f)))]"

definition gitlab_json :: "gitlab_source \<Rightarrow> json" where
  "gitlab_json g = JObj ([
     (''location'', JStr (location_value (g_location g))),
     (''remote_server_id'', json_of_opt JInt (g_server_id g)),
     (''remote_server'', remote_json (g_server g)),
     (''container_name'', JStr (g_container g))] @
     (if g_location g = RemoteServer then [(''backup_path'', json_of_opt JStr (g_backup_path g))]
      else []))"

definition serialize_run_config :: "profile \<Rightarrow> int list \<Rightarrow> json" where
  "serialize_run_config p admin_ids = JObj [
     (''schema'', JInt 1),
     (''profile'', profile_json p),
     (''database'', json_of_opt database_json (p_database p)),
     (''files'', json_of_opt files_json (p_files p)),
     (''gitlab'', json_of_opt gitlab_json (p_gitlab p)),
     (''assigned_admin_ids'', JList (map JInt (sort (remdups admin_ids))))]"

section \<open>Restoring\<close>

definition restore_remote :: "json \<Rightarrow> remote_server option result" where
  "restore_remote j = json_opt (\<lambda>data.
     bind_result (member ''encrypted_private_key'' decode_encrypted data) (\<lambda>key.
     case key of None \<Rightarrow> Inl (ValueError ''run snapshot has no encrypted SSH private key'')
     | Some private_key \<Rightarrow>
     bind_result (member ''id'' json_int data) (\<lambda>i.
     bind_result (member ''name'' json_str data) (\<lambda>name.
     bind_result (member ''host'' json_str data) (\<lambda>host.
     bind_result (member ''ssh_port'' json_int data) (\<lambda>port.
     bind_result (member ''ssh_username'' json_str data) (\<lambda>username.
     bind_result (member ''authentication_method'' (json_enum all_ssh_methods ssh_method_value) data) (\<lambda>mth.
     bind_result (member ''encrypted_key_passphrase'' decode_encrypted data) (\<lambda>pass.
     bind_result (member ''host_key_fingerprint'' json_str data) (\<lambda>fp.
     bind_result (member ''enabled'' json_bool data) (\<lambda>en.
     Inr \<lparr>s_id = i, s_name = name, s_host = host, s_port = port, s_username = username,
          s_method = mth, s_key = private_key, s_passphrase = pass, s_fingerprint = fp,
          s_enabled = en, s_deleted = None\<rparr>))))))))))) j"

definition restore_profile :: "json \<Rightarrow> profile result" where
  "restore_profile data =
     bind_result (member ''encrypted_age_passphrase'' decode_encrypted data) (\<lambda>passphrase.
     bind_result (member ''id'' json_int data) (\<lambda>i.
     bind_result (member ''uuid'' json_str data) (\<lambda>uuid.
     bind_result (member ''name'' json_str data) (\<lambda>name.
     bind_result (member ''description'' (json_opt raw_str) data) (\<lambda>descr.
     bind_result (member ''source_type'' (json_enum all_source_types source_type_value) data) (\<lambda>stype.
     bind_result (member ''enabled'' json_bool data) (\<lambda>en.
     bind_result (member ''status'' (json_enum all_profile_statuses profile_status_value) data) (\<lambda>status.
     bind_result (member ''schedule_kind'' (json_enum all_schedule_kinds schedule_kind_value) data) (\<lambda>kind.
     bind_result (member ''schedule_interval'' (json_opt raw_int) data) (\<lambda>interval.
     bind_result (member ''schedule_time'' (json_opt raw_str) data) (\<lambda>time.
     bind_result (member ''schedule_weekday'' (json_opt raw_int) data) (\<lambda>wday.
     bind_result (member ''schedule_monthday'' (json_opt raw_int) data) (\<lambda>mday.
     bind_result (bind_result (json_find ''schedule_cron'' data) (json_opt raw_str)) (\<lambda>cron.
     bind_result (member ''next_scheduled_at''
        (json_opt (\<lambda>v. bind_result (raw_str v) from_iso)) data) (\<lambda>next.
     bind_result (member ''compression_format'' (json_enum all_formats format_value) data) (\<lambda>fmt.
     bind_result (member ''archive_format'' (json_enum all_archives archive_value) data) (\<lambda>arc.
     bind_result (member ''compression_algorithm'' (json_enum all_algorithms algorithm_value) data) (\<lambda>alg.
     bind_result (member ''compression_preset'' (json_opt (json_enum all_presets preset_value)) data) (\<lambda>preset.
     bind_result (member ''encryption_mode'' (json_enum all_encryption_modes encryption_value) data) (\<lambda>enc.
     bind_result (member ''age_recipients'' (json_opt raw_str) data) (\<lambda>recips.
     bind_result (member ''created_by'' json_int data) (\<lambda>by.
     Inr \<lparr>p_id = i, p_uuid = uuid, p_name = name, p_description = descr, p_source_type = stype,
          p_enabled = en, p_status = status, p_kind = kind, p_interval = interval, p_time = time,
          p_weekday = wday, p_monthday = mday, p_cron = cron, p_next = next, p_format = fmt,
          p_archive = arc, p_algorithm = alg, p_preset = preset, p_encryption = enc,
          p_recipients = recips, p_age_secret = passphrase, p_created_by = by,
          p_archived_at = None, p_database = None, p_files = None, p_gitlab = None\<rparr>))))))))))))))))))))))"

definition restore_database :: "json \<Rightarrow> database_source result" where
  "restore_database data =
     bind_result (member ''encrypted_password'' decode_encrypted data) (\<lambda>pw.
     case pw of None \<Rightarrow> Inl (ValueError ''run snapshot has no encrypted database password'')
     | Some password \<Rightarrow>
     bind_result (member ''engine'' (json_enum all_engines engine_value) data) (\<lambda>engine.
     bind_result (member ''host'' json_str data) (\<lambda>host.
     bind_result (member ''port'' json_int data) (\<lambda>port.
     bind_result (member ''database_name'' json_str data) (\<lambda>name.
     bind_result (member ''username'' json_str data) (\<lambda>username.
     bind_result (member ''tls_mode'' (json_enum all_tls_modes tls_value) data) (\<lambda>tls.
     bind_result (member ''tls_ca_certificate'' (json_opt raw_str) data) (\<lambda>ca.
     bind_result (member ''mssql_in_docker'' json_bool data) (\<lambda>docker.
     bind_result (member ''mssql_backup_path'' (json_opt raw_str) data) (\<lambda>bpath.
     bind_result (member ''mssql_host_backup_path'' (json_opt raw_str) data) (\<lambda>hpath.
     bind_result (member ''artifact_remote_server_id'' (json_opt raw_int) data) (\<lambda>sid.
     bind_result (member ''artifact_remote_server'' restore_remote data) (\<lambda>server.
     Inr \<lparr>d_engine = engine, d_host = host, d_port = port, d_name = name, d_username = username,
          d_password = password, d_tls = tls, d_tls_ca = ca, d_in_docker = docker,
          d_backup_path = bpath, d_host_path = hpath, d_server_id = sid, d_server = server\<rparr>)))))))))))))"

definition restore_path :: "json \<Rightarrow> backup_path result" where
  "restore_path item =
     bind_result (member ''path'' json_str item) (\<lambda>path.
     bind_result (member ''sqlite_snapshot_candidate'' json_bool item) (\<lambda>sqlite.
     Inr \<lparr>bp_path = path, bp_sqlite = sqlite\<rparr>))"

definition restore_files :: "json \<Rightarrow> files_source result" where
  "restore_files data =
     bind_result (member ''location'' (json_enum all_locations location_value) data) (\<lambda>location.
     bind_result (member ''remote_server_id'' (json_opt raw_int) data) (\<lambda>sid.
     bind_result (member ''paths'' json_list data) (\<lambda>items.
     bind_result (map_result restore_path items) (\<lambda>paths.
     bind_result (member ''remote_server'' restore_remote data) (\<lambda>server.
     Inr \<lparr>f_location = location, f_server_id = sid, f_paths = paths, f_server = server\<rparr>)))))"

definition restore_gitlab :: "json \<Rightarrow> gitlab_source result" where
  "restore_gitlab data =
     bind_result (member ''location'' (json_enum all_locations location_value) data) (\<lambda>location.
     bind_result (member ''remote_server_id'' (json_opt raw_int) data) (\<lambda>sid.
     bind_result (member ''container_name'' json_str data) (\<lambda>container.
     bind_result (bind_result (json_find ''backup_path'' data) (json_opt json_str)) (\<lambda>path.
     bind_result (member ''remote_server'' restore_remote data) (\<lambda>server.
     Inr \<lparr>g_location = location, g_server_id = sid, g_container = container,
          g_backup_path = path, g_server = server\<rparr>)))))"

definition check_schema :: "json \<Rightarrow> unit result" where
  "check_schema payload = bind_result (json_find ''schema'' payload) (\<lambda>v.
     if v = JInt 1 then Inr () else Inl (ValueError ''unsupported run configuration snapshot''))"

definition restore_run_config :: "json \<Rightarrow> profile result" where
  "restore_run_config payload =
     bind_result (check_schema payload) (\<lambda>_.
     bind_result (member ''profile'' restore_profile payload) (\<lambda>profile.
     bind_result (member ''database'' (json_opt restore_database) payload) (\<lambda>database.
     bind_result (member ''files'' (json_opt restore_files) payload) (\<lambda>files.
     bind_result (bind_result (json_find ''gitlab'' payload) (json_opt restore_gitlab)) (\<lambda>gitlab.
     Inr (profile\<lparr>p_database := database, p_files := files, p_gitlab := gitlab\<rparr>))))))"

definition restore_run_admin_ids :: "json \<Rightarrow> int list result" where
  "restore_run_admin_ids payload =
     bind_result (check_schema payload) (\<lambda>_.
     bind_result (json_find ''assigned_admin_ids'' payload) (\<lambda>ids.
     bind_result (if ids = JNull then Inr [] else json_list ids) (\<lambda>values.
     bind_result (map_result json_int values) (\<lambda>ns. Inr (remdups ns)))))"

section \<open>Round trips\<close>

text \<open>
  What a snapshot carries of a profile: everything but the archive stamp, the deletion stamp of
  a related server and the backup path of a local GitLab source.
\<close>

definition server_view :: "remote_server option \<Rightarrow> remote_server option" where
  "server_view s = map_option (\<lambda>x. x\<lparr>s_deleted := None\<rparr>) s"

definition snapshot_view :: "profile \<Rightarrow> profile" where
  "snapshot_view p = p\<lparr>p_archived_at := None,
     p_database := map_option (\<lambda>d. d\<lparr>d_server := server_view (d_server d)\<rparr>) (p_database p),
     p_files := map_option (\<lambda>f. f\<lparr>f_server := server_view (f_server f)\<rparr>) (p_files p),
     p_gitlab := map_option (\<lambda>g. g\<lparr>g_server := server_view (g_server g),
        g_backup_path := (if g_location g = RemoteServer then g_backup_path g else None)\<rparr>) (p_gitlab p)\<rparr>"

lemma decode_encrypted_round_trip [simp]: "decode_encrypted (encrypted v) = Inr v"
  by (simp add: decode_encrypted_def encrypted_def b64.dec_enc)

lemma restore_remote_round_trip [simp]: "restore_remote (remote_json s) = Inr (server_view s)"
proof (cases s)
  case None
  then show ?thesis
    by (simp add: restore_remote_def remote_json_def json_of_opt_def json_opt_def server_view_def)
next
  case (Some r)
  then show ?thesis
    by (cases r) (simp add: restore_remote_def remote_json_def json_of_opt_def json_opt_def
      server_view_def)
qed

lemma restore_profile_round_trip:
  assumes "\<And>t. p_next p = Some t \<Longrightarrow> datetime_range t"
  shows "restore_profile (profile_json p) =
    Inr (p\<lparr>p_archived_at := None, p_database := None, p_files := None, p_gitlab := None\<rparr>)"
  using assms by (cases p) (simp add: restore_profile_def profile_json_def iso.dec_enc)

lemma restore_database_round_trip:
  "restore_database (database_json d) = Inr (d\<lparr>d_server := server_view (d_server d)\<rparr>)"
  by (cases d) (simp add: restore_database_def database_json_def)

interpretation path_codec: codec path_json restore_path "\<lambda>_. True"
  by unfold_locales (simp add: path_json_def restore_path_def)

lemma restore_files_round_trip:
  "restore_files (files_json f) = Inr (f\<lparr>f_server := server_view (f_server f)\<rparr>)"
  by (cases f) (simp add: restore_files_def files_json_def path_codec.dec_enc_list)

lemma restore_gitlab_round_trip:
  "restore_gitlab (gitlab_json g) = Inr (g\<lparr>g_server := server_view (g_server g),
     g_backup_path := (if g_location g = RemoteServer then g_backup_path g else None)\<rparr>)"
  by (cases g) (simp add: restore_gitlab_def gitlab_json_def json_opt_def [of _ JNull])

lemma json_obj_ne_null: "database_json d \<noteq> JNull" "files_json f \<noteq> JNull" "gitlab_json g \<noteq> JNull"
  by (simp_all add: database_json_def files_json_def gitlab_json_def)

lemma json_opt_map:
  "(\<And>a. x = Some a \<Longrightarrow> f (g a) = Inr (h a) \<and> g a \<noteq> JNull) \<Longrightarrow>
     json_opt f (json_of_opt g x) = Inr (map_option h x)"
  by (cases x) (auto simp: json_opt_def json_of_opt_def)

lemmas source_round_trips =
  json_opt_map [where f = restore_database and g = database_json, OF conjI,
    OF restore_database_round_trip json_obj_ne_null(1)]
  json_opt_map [where f = restore_files and g = files_json, OF conjI,
    OF restore_files_round_trip json_obj_ne_null(2)]
  json_opt_map [where f = restore_gitlab and g = gitlab_json, OF conjI,
    OF restore_gitlab_round_trip json_obj_ne_null(3)]

lemma restore_serialize:
  assumes "\<And>t. p_next p = Some t \<Longrightarrow> datetime_range t"
  shows "restore_run_config (serialize_run_config p ids) = Inr (snapshot_view p)"
  by (simp add: restore_run_config_def serialize_run_config_def check_schema_def
      restore_profile_round_trip [OF assms] source_round_trips snapshot_view_def)

interpretation int_codec: codec JInt json_int "\<lambda>_. True"
  by unfold_locales simp

lemma restore_admin_ids:
  "restore_run_admin_ids (serialize_run_config p ids) = Inr (sort (remdups ids))"
proof -
  have "map_result json_int (map JInt (sort (remdups ids))) = Inr (sort (remdups ids))"
    by (rule int_codec.dec_enc_list) simp
  moreover have "distinct (sort (remdups ids))" by simp
  ultimately show ?thesis
    by (simp add: restore_run_admin_ids_def serialize_run_config_def check_schema_def
        distinct_remdups_id del: distinct_sort)
qed

end
