(* ===== verification/Finalize.thy ===== *)
theory Finalize
  imports Filesystem Scheduling Snapshot
begin

text \<open>
  \<^verbatim>\<open>src/src/pipeline/finalize.py\<close>: naming the final artifact, splitting it into parts,
  publishing it with its manifest, and verifying a published artifact again. The digest and
  the JSON text of a manifest come from \<^verbatim>\<open>hashlib\<close> and \<^verbatim>\<open>json\<close>: they are the fields
  of \<open>file_env\<close>. Sizes are byte counts.
\<close>

record file_env =
  sha256_hex :: "bytes \<Rightarrow> string"
  json_dump :: "json \<Rightarrow> bytes"
  json_load :: "bytes \<Rightarrow> json result"

section \<open>Names\<close>

definition slug_char :: "char \<Rightarrow> bool" where
  "slug_char c \<longleftrightarrow> is_alnum c \<or> c \<in> set ''._-''"

text \<open>\<^verbatim>\<open>_UNSAFE_NAME.sub("-", value)\<close>: every maximal run of other characters becomes one dash.\<close>

fun squash_unsafe :: "bool \<Rightarrow> string \<Rightarrow> string" where
  "squash_unsafe in_run [] = []"
| "squash_unsafe in_run (c # cs) =
     (if slug_char c then c # squash_unsafe False cs
      else if in_run then squash_unsafe True cs
      else CHR ''-'' # squash_unsafe True cs)"

definition safe_slug :: "string \<Rightarrow> string" where
  "safe_slug value =
     (let slug = take 100 (strip_by (\<lambda>c. c \<in> set ''.-_'') (squash_unsafe False (strip value)))
      in if slug = [] then ''backup'' else slug)"

text \<open>\<^verbatim>\<open>strftime("%z")\<close> and the rest of the stamp.\<close>

definition offset_text :: "int \<Rightarrow> string" where
  "offset_text off =
     (let s = nat (\<bar>off\<bar> div 1000000)
      in (if off < 0 then ''-'' else ''+'') @ show_padded 2 (s div 3600) @ show_padded 2 (s div 60 mod 60) @
         (if s mod 60 = 0 then [] else show_padded 2 (s mod 60)))"

definition local_run_stamp :: "zone \<Rightarrow> time \<Rightarrow> string" where
  "local_run_stamp z now =
     (let local = to_local z now; s = nat (lt_tod local div 1000000);
          offset = offset_text (of_civil local - now);
          safe_offset = take 3 offset @ ''-'' @ drop 3 offset
      in show_padded 4 (nat (lt_year local)) @ ''-'' @ show_padded 2 (nat (lt_month local)) @ ''-'' @
         show_padded 2 (nat (lt_day local)) @ ''_'' @ show_padded 2 (s div 3600) @ ''-'' @
         show_padded 2 (s div 60 mod 60) @ ''-'' @ show_padded 2 (s mod 60) @ safe_offset)"

definition artifact_filename :: "string \<Rightarrow> zone \<Rightarrow> time \<Rightarrow> string \<Rightarrow> string" where
  "artifact_filename profile_name z now extensions =
     safe_slug profile_name @ ''_'' @ local_run_stamp z now @ extensions"

definition pending_directory_path :: "path \<Rightarrow> string \<Rightarrow> string \<Rightarrow> zone \<Rightarrow> time \<Rightarrow> path" where
  "pending_directory_path pending_root profile_name uuid z now =
     pending_root @ [safe_slug profile_name, local_run_stamp z now @ ''_'' @ take 8 uuid]"

section \<open>Splitting\<close>

record artifact_part =
  ap_path :: path
  ap_number :: nat
  ap_size :: nat
  ap_sha :: string

record finalized =
  fa_directory :: path
  fa_artifact :: path
  fa_manifest :: path
  fa_checksum :: string
  fa_size :: nat
  fa_parts :: "artifact_part list"
  fa_original :: "int option"

definition part_name :: "string \<Rightarrow> nat \<Rightarrow> nat \<Rightarrow> string" where
  "part_name filename width number = filename @ ''.part'' @ show_padded width number"

definition part_width :: "nat \<Rightarrow> nat" where
  "part_width count = max 3 (length (show_nat count))"

text \<open>The chunk loop reads at most \<open>max_bytes\<close> from where the previous part stopped.\<close>

definition part_bytes :: "bytes \<Rightarrow> nat \<Rightarrow> nat \<Rightarrow> bytes" where
  "part_bytes content max_bytes number = take max_bytes (drop ((number - 1) * max_bytes) content)"

definition part_total :: "bytes \<Rightarrow> nat \<Rightarrow> nat" where
  "part_total content max_bytes = (length content + max_bytes - 1) div max_bytes"

definition split_parts ::
  "file_env \<Rightarrow> path \<Rightarrow> string \<Rightarrow> bytes \<Rightarrow> nat \<Rightarrow> (artifact_part \<times> bytes) list" where
  "split_parts env dir filename content max_bytes =
     (let count = part_total content max_bytes; width = part_width count
      in map (\<lambda>n. let chunk = part_bytes content max_bytes n
           in (\<lparr>ap_path = dir @ [part_name filename width n], ap_number = n, ap_size = length chunk,
                ap_sha = sha256_hex env chunk\<rparr>, chunk)) [1..<Suc count])"

definition split_artifact ::
  "file_env \<Rightarrow> path \<Rightarrow> string \<Rightarrow> bytes \<Rightarrow> nat \<Rightarrow> (artifact_part \<times> bytes) list result" where
  "split_artifact env dir filename content max_bytes =
     (let parts = split_parts env dir filename content max_bytes
      in if sum_list (map (ap_size \<circ> fst) parts) \<noteq> length content \<or>
            list_ex (\<lambda>(p, _). ap_size p = 0 \<or> ap_size p > max_bytes) parts
         then Inl (PipelineError ''INVALID_MULTIPART'' ''artifact split produced invalid part sizes'')
         else Inr parts)"

section \<open>Publishing\<close>

definition part_json :: "artifact_part \<Rightarrow> json" where
  "part_json p = JObj [(''filename'', JStr (path_name (ap_path p))), (''number'', JInt (int (ap_number p))),
     (''size_bytes'', JInt (int (ap_size p))), (''sha256'', JStr (ap_sha p))]"

definition manifest_json ::
  "string \<Rightarrow> string \<Rightarrow> nat \<Rightarrow> int option \<Rightarrow> string \<Rightarrow> time \<Rightarrow> (string \<times> json) list \<Rightarrow> artifact_part list \<Rightarrow> json" where
  "manifest_json uuid filename sz original checksum now metadata parts = JObj ([
     (''schema'', JInt (if parts = [] then 1 else 2)),
     (''run_uuid'', JStr uuid),
     (''filename'', JStr filename),
     (''size_bytes'', JInt (int sz)),
     (''original_size_bytes'', json_of_opt JInt original),
     (''sha256'', JStr checksum),
     (''created_at'', JStr (iso_format now)),
     (''metadata'', JObj metadata)] @
     (if parts = [] then [] else [(''parts'', JList (map part_json parts))]))"

definition manifest_name :: string where
  "manifest_name = ''manifest.json''"

text \<open>
  The arguments of a publication. \<open>fz_same_device\<close> is whether the work and pending roots share
  a device; \<open>fz_interrupt\<close> an exception that a progress check raises after the artifact has
  been moved, if one does.
\<close>

record finalize_args =
  fz_source :: path
  fz_root :: path
  fz_profile :: string
  fz_uuid :: string
  fz_zone :: zone
  fz_now :: time
  fz_filename :: string
  fz_metadata :: "(string \<times> json) list"
  fz_max :: int
  fz_original :: "int option"
  fz_same_device :: bool
  fz_interrupt :: "exn option"

text \<open>The body of the \<^verbatim>\<open>try\<close> block once the directory exists: what it publishes.\<close>

definition publish ::
  "file_env \<Rightarrow> finalize_args \<Rightarrow> path \<Rightarrow> bytes \<Rightarrow> (finalized \<times> (path \<times> node) list) result" where
  "publish env a directory content =
     bind_result (case fz_interrupt a of Some e \<Rightarrow> Inl e | None \<Rightarrow> Inr ()) (\<lambda>_.
     bind_result (if length content > nat (fz_max a)
        then split_artifact env directory (fz_filename a) content (nat (fz_max a)) else Inr []) (\<lambda>parts.
       let checksum = sha256_hex env content;
           document = manifest_json (fz_uuid a) (fz_filename a) (length content) (fz_original a)
             checksum (fz_now a) (fz_metadata a) (map fst parts);
           files = (if parts = [] then [(directory @ [fz_filename a], RegularFile content)]
                    else map (\<lambda>(p, c). (ap_path p, RegularFile c)) parts) @
                   [(directory @ [manifest_name], RegularFile (json_dump env document))]
       in Inr (\<lparr>fa_directory = directory, fa_artifact = directory @ [fz_filename a],
               fa_manifest = directory @ [manifest_name], fa_checksum = checksum,
               fa_size = length content, fa_parts = map fst parts, fa_original = fz_original a\<rparr>, files)))"

definition put_all :: "(path \<times> node) list \<Rightarrow> fs \<Rightarrow> fs" where
  "put_all ps fs = fold (\<lambda>(p, n). put_node p n) ps fs"

definition finalize_artifact :: "file_env \<Rightarrow> finalize_args \<Rightarrow> fs \<Rightarrow> finalized result \<times> fs" where
  "finalize_artifact env a fs =
     (if fz_max a \<le> 0 then (Inl (ValueError ''max_file_bytes must be positive''), fs)
      else
        let root = resolve fs (fz_root a);
            fs1 = make_parents [] root fs;
            profile_dir = root @ [safe_slug (fz_profile a)];
            fs2 = (if node_at fs1 profile_dir = None then put_node profile_dir Directory fs1 else fs1);
            directory = pending_directory_path root (fz_profile a) (fz_uuid a) (fz_zone a) (fz_now a)
        in if node_at fs2 profile_dir \<noteq> Some Directory \<or> butlast (resolve fs2 profile_dir) \<noteq> root
           then (Inl (PipelineError ''INVALID_PENDING_PATH'' ''pending profile path is unsafe''), fs2)
           else if node_at fs2 directory \<noteq> None then (Inl (OSError ''FileExistsError''), fs2)
           else if \<not> fz_same_device a
           then (Inl (PipelineError ''NON_ATOMIC_SPOOL'' ''work and pending roots must share a filesystem''), fs2)
           else case node_at fs2 (resolve fs2 (fz_source a)) of
             Some (RegularFile content) \<Rightarrow>
               (case publish env a directory content of
                  Inl e \<Rightarrow> (Inl e, rmtree directory (remove_node (resolve fs2 (fz_source a)) fs2))
                | Inr (fin, files) \<Rightarrow>
                    (Inr fin, put_all ((directory, Directory) # files)
                       (remove_node (resolve fs2 (fz_source a)) fs2)))
           | _ \<Rightarrow> (Inl (OSError ''FileNotFoundError''), rmtree directory fs2))"

section \<open>Verifying\<close>

definition missing_artifact :: exn where
  "missing_artifact = PipelineError ''PENDING_ARTIFACT_MISSING'' ''pending artifact is missing or truncated''"

definition invalid_manifest :: "string \<Rightarrow> exn" where
  "invalid_manifest msg = PipelineError ''INVALID_MANIFEST'' msg"

text \<open>The bytes of the file, once its kind, size and digest have been checked.\<close>

definition verify_pending :: "file_env \<Rightarrow> fs \<Rightarrow> path \<Rightarrow> int \<Rightarrow> string \<Rightarrow> bytes result" where
  "verify_pending env fs path expected_size expected_sha =
     (case lstat fs path of
        Some (RegularFile content) \<Rightarrow>
          if int (length content) \<noteq> expected_size then Inl missing_artifact
          else if sha256_hex env content \<noteq> expected_sha
          then Inl (PipelineError ''PENDING_CHECKSUM_MISMATCH'' ''pending artifact checksum mismatch'')
          else Inr content
      | _ \<Rightarrow> Inl missing_artifact)"

text \<open>\<^verbatim>\<open>isinstance(value, int)\<close>, which holds for booleans, and equality with a number.\<close>

fun int_instance :: "json \<Rightarrow> int option" where
  "int_instance (JInt n) = Some n"
| "int_instance (JBool b) = Some (if b then 1 else 0)"
| "int_instance _ = None"

definition str_instance :: "json \<Rightarrow> string option" where
  "str_instance j = (case j of JStr s \<Rightarrow> Some s | _ \<Rightarrow> None)"

definition check_part ::
  "file_env \<Rightarrow> fs \<Rightarrow> path \<Rightarrow> string \<Rightarrow> nat \<Rightarrow> nat \<times> json \<Rightarrow> (artifact_part \<times> bytes) result" where
  "check_part env fs directory filename width = (\<lambda>(number, raw).
     let expected_name = part_name filename width number;
         bad = Inl (invalid_manifest ''multipart manifest part is invalid'')
     in case (json_find ''filename'' raw, json_find ''number'' raw, json_find ''size_bytes'' raw,
              json_find ''sha256'' raw) of
       (Inr name, Inr num, Inr sz, Inr sha) \<Rightarrow>
         if int_instance num \<noteq> Some (int number) \<or> name \<noteq> JStr expected_name then bad
         else (case (int_instance sz, str_instance sha) of
           (Some n, Some digest) \<Rightarrow>
             if n \<le> 0 \<or> length digest \<noteq> 64 then bad
             else bind_result (verify_pending env fs (directory @ [expected_name]) n digest) (\<lambda>content.
               Inr (\<lparr>ap_path = directory @ [expected_name], ap_number = number, ap_size = nat n,
                    ap_sha = digest\<rparr>, content))
         | _ \<Rightarrow> bad)
     | _ \<Rightarrow> bad)"

definition verified_parts ::
  "file_env \<Rightarrow> fs \<Rightarrow> path \<Rightarrow> string \<Rightarrow> int \<Rightarrow> string \<Rightarrow> json \<Rightarrow> artifact_part list result" where
  "verified_parts env fs directory filename expected_size expected_sha document =
     bind_result (json_find ''parts'' document) (\<lambda>raw_parts.
       case raw_parts of
         JList (r # rs) \<Rightarrow>
           let count = length (r # rs); width = part_width count
           in bind_result (map_result (check_part env fs directory filename width)
                (zip [1..<Suc count] (r # rs))) (\<lambda>checked.
              let combined = concat (map snd checked)
              in if int (sum_list (map (ap_size \<circ> fst) checked)) \<noteq> expected_size \<or>
                    sha256_hex env combined \<noteq> expected_sha
                 then Inl (PipelineError ''PENDING_CHECKSUM_MISMATCH'' ''multipart artifact checksum mismatch'')
                 else Inr (map fst checked))
       | _ \<Rightarrow> Inl (invalid_manifest ''multipart manifest has no parts''))"

definition read_manifest :: "file_env \<Rightarrow> fs \<Rightarrow> path \<Rightarrow> string \<Rightarrow> json result" where
  "read_manifest env fs manifest msg =
     (case node_at fs (resolve fs manifest) of
        Some (RegularFile text) \<Rightarrow>
          if length text > 1048576 then Inl (invalid_manifest msg) else json_load env text
      | _ \<Rightarrow> Inl (invalid_manifest msg))"

definition delivery_artifacts ::
  "file_env \<Rightarrow> fs \<Rightarrow> path \<Rightarrow> string \<Rightarrow> int \<Rightarrow> string \<Rightarrow> artifact_part list result" where
  "delivery_artifacts env fs directory filename expected_size expected_sha =
     (let artifact = directory @ [filename]; manifest = directory @ [manifest_name];
          single = [\<lparr>ap_path = artifact, ap_number = 1, ap_size = nat expected_size, ap_sha = expected_sha\<rparr>]
      in if path_exists fs artifact \<and> \<not> path_exists fs manifest
         then bind_result (verify_pending env fs artifact expected_size expected_sha) (\<lambda>_. Inr single)
         else
           bind_result (read_manifest env fs manifest ''multipart manifest is missing or too large'') (\<lambda>document.
           bind_result (json_find ''filename'' document) (\<lambda>name.
           bind_result (json_find ''size_bytes'' document) (\<lambda>sz.
           bind_result (json_find ''sha256'' document) (\<lambda>sha.
           bind_result (json_find ''schema'' document) (\<lambda>schema.
             if name \<noteq> JStr filename \<or> int_instance sz \<noteq> Some expected_size \<or> sha \<noteq> JStr expected_sha
             then Inl (invalid_manifest ''multipart manifest fields are invalid'')
             else if int_instance schema = Some 2
             then verified_parts env fs directory filename expected_size expected_sha document
             else if int_instance schema \<noteq> Some 1
             then Inl (invalid_manifest ''artifact manifest schema is invalid'')
             else bind_result (verify_pending env fs artifact expected_size expected_sha) (\<lambda>_. Inr single)))))))"

text \<open>\<^verbatim>\<open>Path(filename).name == filename\<close>.\<close>

definition filename_is_name :: "string \<Rightarrow> bool" where
  "filename_is_name filename =
     (path_name (filter (\<lambda>c. c \<noteq> [] \<and> c \<noteq> ''.'') (split_on (CHR ''/'') filename)) = filename)"

definition recover_finalized ::
  "file_env \<Rightarrow> fs \<Rightarrow> path \<Rightarrow> path \<Rightarrow> string \<Rightarrow> (finalized \<times> (string \<times> json) list) option result" where
  "recover_finalized env fs pending_root directory uuid =
     (if \<not> path_exists fs directory then Inr None
      else let resolved = resolve fs directory
      in if butlast (butlast resolved) \<noteq> resolve fs pending_root \<or> \<not> ends_with_uuid (path_name resolved) uuid
      then Inl (PipelineError ''INVALID_PENDING_PATH'' ''recorded pending path is not run-owned'')
      else
        bind_result (read_manifest env fs (resolved @ [manifest_name]) ''finalized manifest is missing or too large'') (\<lambda>document.
        bind_result (json_find ''schema'' document) (\<lambda>schema.
        bind_result (json_find ''run_uuid'' document) (\<lambda>owner.
        bind_result (json_find ''filename'' document) (\<lambda>name.
        bind_result (json_find ''size_bytes'' document) (\<lambda>sz.
        bind_result (json_find ''sha256'' document) (\<lambda>sha.
        bind_result (json_find ''metadata'' document) (\<lambda>metadata.
        bind_result (json_find ''original_size_bytes'' document) (\<lambda>original.
          if int_instance schema \<notin> {Some 1, Some 2} \<or> owner \<noteq> JStr uuid
          then Inl (invalid_manifest ''finalized manifest ownership is invalid'')
          else case (name, int_instance sz, sha, metadata, original) of
            (JStr filename, Some n, JStr checksum, JObj meta, orig) \<Rightarrow>
              (if \<not> filename_is_name filename \<or>
                  \<not> (case orig of JNull \<Rightarrow> True | JInt k \<Rightarrow> 0 \<le> k | _ \<Rightarrow> False)
               then Inl (invalid_manifest ''finalized manifest fields are invalid'')
               else bind_result (delivery_artifacts env fs resolved filename n checksum) (\<lambda>parts.
                 Inr (Some (\<lparr>fa_directory = resolved, fa_artifact = resolved @ [filename],
                   fa_manifest = resolved @ [manifest_name], fa_checksum = checksum, fa_size = nat n,
                   fa_parts = (if int_instance schema = Some 2 then parts else []),
                   fa_original = (case orig of JInt k \<Rightarrow> Some k | _ \<Rightarrow> None)\<rparr>, meta))))
          | _ \<Rightarrow> Inl (invalid_manifest ''finalized manifest fields are invalid''))))))))))"


section \<open>Splitting loses nothing\<close>

lemma concat_part_bytes:
  "concat (map (part_bytes content m) [1..<Suc k]) = take (k * m) content"
proof (induction k)
  case 0
  then show ?case by simp
next
  case (Suc k)
  have "Suc k * m = k * m + m" by simp
  then have "take (Suc k * m) content = take (k * m) content @ take m (drop (k * m) content)"
    by (simp only: take_add)
  with Suc show ?case by (simp add: part_bytes_def)
qed

lemma part_total_bounds:
  assumes "0 < m"
  shows "length content \<le> part_total content m * m"
    and "n \<le> part_total content m \<Longrightarrow> 1 \<le> n \<Longrightarrow> (n - 1) * m < length content"
proof -
  let ?L = "length content" and ?k = "part_total content m"
  have k: "?k * m + (?L + m - 1) mod m = ?L + m - 1"
    unfolding part_total_def by (rule div_mult_mod_eq)
  moreover have "(?L + m - 1) mod m < m" using assms by simp
  ultimately show "?L \<le> ?k * m" using assms by linarith
  assume n: "n \<le> ?k" "1 \<le> n"
  then have "(n - 1) * m + m \<le> ?k * m"
    by (metis add.commute le_add_diff_inverse mult_Suc mult_le_mono1 plus_1_eq_Suc)
  with k assms show "(n - 1) * m < ?L" by linarith
qed

lemma part_bytes_size:
  assumes "0 < m" and "1 \<le> n" and "n \<le> part_total content m"
  shows "part_bytes content m n \<noteq> []" and "length (part_bytes content m n) \<le> m"
  using part_total_bounds(2) [OF assms(1,3,2)] assms(1) by (auto simp: part_bytes_def)

lemma split_parts_bytes:
  "map snd (split_parts env dir f content m) = map (part_bytes content m) [1..<Suc (part_total content m)]"
  by (simp add: split_parts_def Let_def comp_def)

lemma split_parts_sizes:
  "map (ap_size \<circ> fst) (split_parts env dir f content m) =
     map (\<lambda>n. length (part_bytes content m n)) [1..<Suc (part_total content m)]"
  by (simp add: split_parts_def Let_def comp_def)

lemma split_parts_concat:
  "0 < m \<Longrightarrow> concat (map snd (split_parts env dir f content m)) = content"
  using part_total_bounds(1) [of m content]
  by (simp only: split_parts_bytes concat_part_bytes take_all)

lemma split_parts_sum:
  assumes "0 < m"
  shows "sum_list (map (ap_size \<circ> fst) (split_parts env dir f content m)) = length content"
proof -
  let ?ns = "[1..<Suc (part_total content m)]"
  have "sum_list (map (ap_size \<circ> fst) (split_parts env dir f content m)) =
      sum_list (map length (map (part_bytes content m) ?ns))"
    unfolding split_parts_sizes by (simp only: map_map comp_def)
  also have "\<dots> = length (concat (map snd (split_parts env dir f content m)))"
    by (simp only: split_parts_bytes length_concat)
  finally show ?thesis by (simp only: split_parts_concat [OF assms])
qed

lemma split_artifact_total:
  assumes "0 < m"
  shows "split_artifact env dir f content m = Inr (split_parts env dir f content m)"
proof -
  have "part_bytes content m n \<noteq> [] \<and> length (part_bytes content m n) \<le> m"
    if "n \<in> set [1..<Suc (part_total content m)]" for n
    using that part_bytes_size [OF assms, of n content] by (simp del: upt_Suc)
  then have "\<not> list_ex (\<lambda>(p, _). ap_size p = 0 \<or> ap_size p > m) (split_parts env dir f content m)"
    unfolding split_parts_def Let_def list_ex_iff set_map by (force simp del: upt_Suc set_upt)
  with split_parts_sum [OF assms] show ?thesis by (simp add: split_artifact_def)
qed

lemma digits_value_padded: "digits_value 0 (show_padded w n) = n"
  using show_nat_digits [of n 0] by (simp add: show_padded_def Let_def digits_value_zeros)

lemma show_padded_inject [simp]: "show_padded w i = show_padded w j \<longleftrightarrow> i = j"
  by (metis digits_value_padded)

lemma show_nat_ne [simp]: "show_nat n \<noteq> []"
  by (subst show_nat.simps) simp

lemma last_padded_digit: "is_digit (last (show_padded w n))"
  using show_nat_digits [of n 0] by (simp add: show_padded_def Let_def list_all_iff)

lemma part_name_inject [simp]: "part_name f w i = part_name f w j \<longleftrightarrow> i = j"
  by (simp add: part_name_def)

lemma part_name_ne: "part_name f w i \<noteq> manifest_name" "part_name f w i \<noteq> f"
proof -
  have "last (part_name f w i) = last (show_padded w i)"
    by (simp add: part_name_def show_padded_def Let_def)
  with last_padded_digit [of w i] have "is_digit (last (part_name f w i))" by simp
  moreover have "\<not> is_digit (last manifest_name)" by (simp add: manifest_name_def is_digit_def)
  ultimately show "part_name f w i \<noteq> manifest_name" by metis
  show "part_name f w i \<noteq> f" by (simp add: part_name_def)
qed

section \<open>Publishing and recovering\<close>

lemma node_at_put_all:
  "node_at (put_all ps fs) q = (case map_of (rev ps) q of Some n \<Rightarrow> Some n | None \<Rightarrow> node_at fs q)"
  by (induction ps arbitrary: fs) (auto simp: put_all_def map_add_def split: option.splits)

lemma node_at_put_all_distinct:
  assumes "distinct (map fst ps)" and "(q, n) \<in> set ps"
  shows "node_at (put_all ps fs) q = Some n"
proof -
  have "map_of (rev ps) q = Some n"
    by (rule map_of_is_SomeI) (use assms in \<open>simp_all add: rev_map [symmetric]\<close>)
  then show ?thesis by (simp add: node_at_put_all)
qed

lemma is_link_put_all:
  "(\<And>p n. (p, n) \<in> set ps \<Longrightarrow> \<not> is_link (Some n)) \<Longrightarrow> is_link (node_at (put_all ps fs) q) \<Longrightarrow> is_link (node_at fs q)"
  by (auto simp: node_at_put_all dest!: map_of_SomeD split: option.splits)

lemma is_link_make_parents:
  "is_link (node_at (make_parents acc p fs) q) \<Longrightarrow> is_link (node_at fs q)"
proof (induction acc p fs rule: make_parents.induct)
  case (1 acc fs)
  then show ?case by simp
next
  case (2 acc c cs fs)
  then show ?case by (auto simp: is_link_iff split: option.splits if_splits)
qed

lemma safe_slug_ne_dots: "safe_slug v \<noteq> ''..''"
proof
  assume e: "safe_slug v = ''..''"
  define w where "w = strip_by (\<lambda>c. c \<in> set ''.-_'') (squash_unsafe False (strip v))"
  from e have t: "take 100 w = ''..''" by (auto simp: safe_slug_def Let_def w_def split: if_splits)
  then have "w = ''..''"
    by (cases "length w \<le> 100") (auto dest: arg_cong [where f = length])
  then show False
    using strip_by_hd [of "\<lambda>c. c \<in> set ''.-_''" "squash_unsafe False (strip v)"] by (simp add: w_def)
qed

lemma ends_with_append [simp]: "ends_with suf (pre @ suf)"
  by (simp add: ends_with_def)

text \<open>What a successful publication leaves, as a layout of the directory.\<close>

definition published_layout :: "file_env \<Rightarrow> finalize_args \<Rightarrow> path \<Rightarrow> bytes \<Rightarrow> fs \<Rightarrow> bool" where
  "published_layout env a directory content fs \<longleftrightarrow>
     (let parts = (if length content > nat (fz_max a)
          then split_parts env directory (fz_filename a) content (nat (fz_max a)) else []) in
      plain fs directory \<and> node_at fs directory = Some Directory \<and>
      node_at fs (directory @ [manifest_name]) = Some (RegularFile (json_dump env
        (manifest_json (fz_uuid a) (fz_filename a) (length content) (fz_original a)
           (sha256_hex env content) (fz_now a) (fz_metadata a) (map fst parts)))) \<and>
      (if parts = [] then node_at fs (directory @ [fz_filename a]) = Some (RegularFile content)
       else \<forall>(p, c) \<in> set parts. node_at fs (ap_path p) = Some (RegularFile c)))"

lemma split_parts_paths:
  "map (ap_path \<circ> fst) (split_parts env dir f content m) =
     map (\<lambda>n. dir @ [part_name f (part_width (part_total content m)) n]) [1..<Suc (part_total content m)]"
  by (simp add: split_parts_def Let_def comp_def)

lemma publish_layout:
  assumes pub: "publish env a directory content = Inr (fin, files)"
    and max: "0 < fz_max a" and fname: "fz_filename a \<noteq> manifest_name"
    and pl: "plain fs (butlast directory)" "directory \<noteq> []" "last directory \<noteq> ''..''"
  shows "published_layout env a directory content (put_all ((directory, Directory) # files) fs)"
    and "fin = \<lparr>fa_directory = directory, fa_artifact = directory @ [fz_filename a],
      fa_manifest = directory @ [manifest_name], fa_checksum = sha256_hex env content,
      fa_size = length content,
      fa_parts = (if length content > nat (fz_max a)
        then map fst (split_parts env directory (fz_filename a) content (nat (fz_max a))) else []),
      fa_original = fz_original a\<rparr>"
proof -
  let ?sp = "split_parts env directory (fz_filename a) content (nat (fz_max a))"
  define parts where "parts = (if length content > nat (fz_max a) then ?sp else [])"
  have m: "0 < nat (fz_max a)" using max by simp
  let ?doc = "manifest_json (fz_uuid a) (fz_filename a) (length content) (fz_original a)
    (sha256_hex env content) (fz_now a) (fz_metadata a) (map fst parts)"
  have files: "files = (if parts = [] then [(directory @ [fz_filename a], RegularFile content)]
      else map (\<lambda>(p, c). (ap_path p, RegularFile c)) parts) @
      [(directory @ [manifest_name], RegularFile (json_dump env ?doc))]"
    and fin: "fin = \<lparr>fa_directory = directory, fa_artifact = directory @ [fz_filename a],
      fa_manifest = directory @ [manifest_name], fa_checksum = sha256_hex env content,
      fa_size = length content, fa_parts = map fst parts, fa_original = fz_original a\<rparr>"
    using pub split_artifact_total [OF m]
    by (auto simp: publish_def parts_def Let_def bind_result_Inr split: option.splits if_splits)
  from fin show "fin = \<lparr>fa_directory = directory, fa_artifact = directory @ [fz_filename a],
      fa_manifest = directory @ [manifest_name], fa_checksum = sha256_hex env content,
      fa_size = length content,
      fa_parts = (if length content > nat (fz_max a) then map fst ?sp else []),
      fa_original = fz_original a\<rparr>" by (simp add: parts_def)
  let ?ps = "(directory, Directory) # files"
  have "map (ap_path \<circ> fst) parts = (if length content > nat (fz_max a)
      then map (\<lambda>n. directory @ [part_name (fz_filename a) (part_width (part_total content (nat (fz_max a)))) n])
        [1..<Suc (part_total content (nat (fz_max a)))] else [])"
    using split_parts_paths [of env directory "fz_filename a" content "nat (fz_max a)"]
    by (simp add: parts_def)
  then have dp: "distinct (map (ap_path \<circ> fst) parts)"
    "\<forall>q \<in> set (map (ap_path \<circ> fst) parts). q \<noteq> directory @ [manifest_name] \<and> q \<noteq> directory"
    using part_name_ne(1) by (auto simp: distinct_map inj_on_def simp del: upt_Suc)
  have keys: "map fst (map (\<lambda>(p, c). (ap_path p, RegularFile c)) parts) = map (ap_path \<circ> fst) parts"
    by (simp add: comp_def split_beta)
  have dist: "distinct (map fst ?ps)"
    using dp fname unfolding files by (cases "parts = []") (auto simp: comp_def split_beta)
  have nolink: "\<not> is_link (Some n)" if "(p, n) \<in> set ?ps" for p n
    using that by (auto simp: files is_link_def split: if_splits)
  let ?fs' = "put_all ?ps fs"
  have at: "node_at ?fs' q = Some n" if "(q, n) \<in> set ?ps" for q n
    by (rule node_at_put_all_distinct [OF dist that])
  have dir: "node_at ?fs' directory = Some Directory" by (rule at) simp
  have "plain ?fs' (butlast directory)"
    by (rule plain_mono [OF pl(1)]) (rule is_link_put_all [OF nolink])
  with pl dir have "plain ?fs' directory"
    using plain_snoc [of ?fs' "butlast directory" "last directory"] by (simp add: is_link_def)
  moreover have "node_at ?fs' (directory @ [manifest_name]) = Some (RegularFile (json_dump env ?doc))"
    by (rule at) (simp add: files)
  moreover have "if parts = [] then node_at ?fs' (directory @ [fz_filename a]) = Some (RegularFile content)
      else \<forall>(p, c) \<in> set parts. node_at ?fs' (ap_path p) = Some (RegularFile c)"
  proof (cases "parts = []")
    case True
    then show ?thesis using at [of "directory @ [fz_filename a]" "RegularFile content"] by (simp add: files)
  next
    case False
    then have "(ap_path p, RegularFile c) \<in> set ?ps" if "(p, c) \<in> set parts" for p c
      using that by (force simp: files)
    with False at show ?thesis by (simp add: case_prod_unfold)
  qed
  ultimately show "published_layout env a directory content ?fs'"
    using dir unfolding published_layout_def Let_def parts_def [symmetric] by blast
qed

lemma verify_pending_file:
  assumes "plain fs dir" and "node_at fs (dir @ [f]) = Some (RegularFile c)"
  shows "verify_pending env fs (dir @ [f]) (int (length c)) (sha256_hex env c) = Inr c"
  using assms by (simp add: verify_pending_def lstat_plain_parent)

lemma zip_map_upt: "zip [1..<Suc k] (map F [1..<Suc k]) = map (\<lambda>n. (n, F n)) [1..<Suc k]"
  by (simp add: zip_map2 zip_same_conv_map comp_def del: upt_Suc)

text \<open>A directory with the published layout verifies and recovers to what was published.\<close>

lemma verified_parts_layout:
  assumes pl: "plain fs directory" and m: "0 < m" and big: "length content > m"
    and files: "\<forall>(p, c) \<in> set (split_parts env directory f content m). node_at fs (ap_path p) = Some (RegularFile c)"
    and sha: "\<And>b. length (sha256_hex env b) = 64"
    and doc: "json_find ''parts'' document = Inr (JList (map part_json (map fst (split_parts env directory f content m))))"
  shows "verified_parts env fs directory f (int (length content)) (sha256_hex env content) document =
    Inr (map fst (split_parts env directory f content m))"
proof -
  let ?sp = "split_parts env directory f content m"
  define k where "k = part_total content m"
  define w where "w = part_width k"
  define P where "P = (\<lambda>n. (\<lparr>ap_path = directory @ [part_name f w n], ap_number = n,
    ap_size = length (part_bytes content m n), ap_sha = sha256_hex env (part_bytes content m n)\<rparr>,
    part_bytes content m n))"
  have sp: "?sp = map P [1..<Suc k]" by (simp add: split_parts_def P_def k_def w_def Let_def)
  have kpos: "0 < k"
    using part_total_bounds(1) [OF m, of content] big by (cases k) (auto simp: k_def)
  obtain r rs where list: "map part_json (map fst ?sp) = r # rs"
    using kpos by (cases "map part_json (map fst ?sp)") (auto simp: sp)
  have len: "length (r # rs) = k" using list [symmetric] by (simp add: sp)
  have "check_part env fs directory f w (n, part_json (fst (P n))) = Inr (P n)" if "n \<in> set [1..<Suc k]" for n
  proof -
    have n: "1 \<le> n" "n \<le> part_total content m" using that unfolding set_upt k_def by auto
    have "P n \<in> set ?sp" using that by (simp only: sp set_map) (rule imageI)
    with files have "node_at fs (directory @ [part_name f w n]) = Some (RegularFile (part_bytes content m n))"
      by (auto simp: P_def)
    from verify_pending_file [OF pl this, of env] part_bytes_size(1) [OF m n] sha show ?thesis
      by (simp add: check_part_def part_json_def P_def path_name_def str_instance_def Let_def)
  qed
  then have "map_result (\<lambda>n. check_part env fs directory f w (n, part_json (fst (P n)))) [1..<Suc k] =
    Inr (map P [1..<Suc k])"
    by (rule map_result_all)
  moreover have "map_result g (map h xs) = map_result (\<lambda>x. g (h x)) xs" for g :: "'x \<Rightarrow> 'y result" and h xs
    by (induction xs) simp_all
  ultimately have mr: "map_result (check_part env fs directory f w) (zip [1..<Suc k] (r # rs)) = Inr ?sp"
    unfolding list [symmetric] sp map_map comp_def zip_map_upt by metis
  have "sum_list (map (ap_size \<circ> fst) ?sp) = length content" by (rule split_parts_sum [OF m])
  moreover have "concat (map snd ?sp) = content" by (rule split_parts_concat [OF m])
  ultimately show ?thesis
    using mr by (simp add: verified_parts_def doc list len [unfolded list] w_def [symmetric] Let_def
      del: upt_Suc map_map list.map) (simp add: len [simplified] w_def [symmetric])
qed


lemma read_manifest_layout:
  assumes "plain fs directory" and "node_at fs (directory @ [manifest_name]) = Some (RegularFile (json_dump env doc))"
    and "length (json_dump env doc) \<le> 1048576" and "json_load env (json_dump env doc) = Inr doc"
  shows "read_manifest env fs (directory @ [manifest_name]) msg = Inr doc"
    and "path_exists fs (directory @ [manifest_name])"
proof -
  have "plain fs (directory @ [manifest_name])"
    using assms(1,2) by (simp add: plain_snoc is_link_def manifest_name_def)
  then have "resolve fs (directory @ [manifest_name]) = directory @ [manifest_name]" by (rule resolve_plain)
  with assms show "read_manifest env fs (directory @ [manifest_name]) msg = Inr doc"
    "path_exists fs (directory @ [manifest_name])"
    by (simp_all add: read_manifest_def path_exists_def)
qed

lemma manifest_members:
  "json_find ''schema'' (manifest_json u f sz orig sha now meta parts) = Inr (JInt (if parts = [] then 1 else 2))"
  "json_find ''run_uuid'' (manifest_json u f sz orig sha now meta parts) = Inr (JStr u)"
  "json_find ''filename'' (manifest_json u f sz orig sha now meta parts) = Inr (JStr f)"
  "json_find ''size_bytes'' (manifest_json u f sz orig sha now meta parts) = Inr (JInt (int sz))"
  "json_find ''sha256'' (manifest_json u f sz orig sha now meta parts) = Inr (JStr sha)"
  "json_find ''metadata'' (manifest_json u f sz orig sha now meta parts) = Inr (JObj meta)"
  "json_find ''original_size_bytes'' (manifest_json u f sz orig sha now meta parts) = Inr (json_of_opt JInt orig)"
  "parts \<noteq> [] \<Longrightarrow> json_find ''parts'' (manifest_json u f sz orig sha now meta parts) = Inr (JList (map part_json parts))"
  by (simp_all add: manifest_json_def)

definition layout_parts :: "file_env \<Rightarrow> finalize_args \<Rightarrow> path \<Rightarrow> bytes \<Rightarrow> (artifact_part \<times> bytes) list" where
  "layout_parts env a directory content =
     (if length content > nat (fz_max a)
      then split_parts env directory (fz_filename a) content (nat (fz_max a)) else [])"

definition layout_manifest :: "file_env \<Rightarrow> finalize_args \<Rightarrow> path \<Rightarrow> bytes \<Rightarrow> json" where
  "layout_manifest env a directory content =
     manifest_json (fz_uuid a) (fz_filename a) (length content) (fz_original a)
       (sha256_hex env content) (fz_now a) (fz_metadata a) (map fst (layout_parts env a directory content))"

text \<open>The digests have the length of a SHA-256 hex digest, and the manifest reads back.\<close>

definition manifest_reads_back :: "file_env \<Rightarrow> json \<Rightarrow> bool" where
  "manifest_reads_back env doc \<longleftrightarrow>
     length (json_dump env doc) \<le> 1048576 \<and> json_load env (json_dump env doc) = Inr doc"

lemma delivery_artifacts_layout:
  assumes lay: "published_layout env a directory content fs" and m: "0 < fz_max a"
    and sha: "\<And>b. length (sha256_hex env b) = 64"
    and doc: "manifest_reads_back env (layout_manifest env a directory content)"
  shows "delivery_artifacts env fs directory (fz_filename a) (int (length content)) (sha256_hex env content) =
    Inr (if layout_parts env a directory content = []
      then [\<lparr>ap_path = directory @ [fz_filename a], ap_number = 1, ap_size = length content,
             ap_sha = sha256_hex env content\<rparr>]
      else map fst (layout_parts env a directory content))"
proof -
  note lay' = lay [unfolded published_layout_def Let_def layout_parts_def [symmetric]]
  from lay' have pl: "plain fs directory" by blast
  from lay' doc have rm: "read_manifest env fs (directory @ [manifest_name]) msg =
      Inr (layout_manifest env a directory content)"
    and ex: "path_exists fs (directory @ [manifest_name])" for msg
    using read_manifest_layout [OF pl] by (auto simp: layout_manifest_def manifest_reads_back_def)
  show ?thesis
  proof (cases "layout_parts env a directory content = []")
    case True
    with lay' have "node_at fs (directory @ [fz_filename a]) = Some (RegularFile content)" by simp
    from verify_pending_file [OF pl this] True rm ex show ?thesis
      by (simp add: delivery_artifacts_def Let_def layout_manifest_def manifest_members)
  next
    case False
    then have big: "length content > nat (fz_max a)"
      and lp: "layout_parts env a directory content =
        split_parts env directory (fz_filename a) content (nat (fz_max a))"
      by (auto simp: layout_parts_def split: if_splits)
    have "verified_parts env fs directory (fz_filename a) (int (length content)) (sha256_hex env content)
        (layout_manifest env a directory content) = Inr (map fst (layout_parts env a directory content))"
      unfolding lp
    proof (rule verified_parts_layout [OF pl _ big _ sha])
      show "0 < nat (fz_max a)" using m by simp
      show "\<forall>(p, c) \<in> set (split_parts env directory (fz_filename a) content (nat (fz_max a))).
          node_at fs (ap_path p) = Some (RegularFile c)"
        using lay' False lp by simp
      show "json_find ''parts'' (layout_manifest env a directory content) =
        Inr (JList (map part_json (map fst (split_parts env directory (fz_filename a) content (nat (fz_max a))))))"
        using False lp by (simp add: layout_manifest_def manifest_members)
    qed
    with False rm ex show ?thesis
      by (simp add: delivery_artifacts_def Let_def layout_manifest_def manifest_members)
  qed
qed

lemma recover_layout:
  assumes lay: "published_layout env a directory content fs" and m: "0 < fz_max a"
    and sha: "\<And>b. length (sha256_hex env b) = 64"
    and doc: "manifest_reads_back env (layout_manifest env a directory content)"
    and owned: "butlast (butlast directory) = resolve fs root" "ends_with_uuid (path_name directory) (fz_uuid a)"
    and name: "filename_is_name (fz_filename a)"
    and orig: "case fz_original a of None \<Rightarrow> True | Some k \<Rightarrow> 0 \<le> k"
  shows "recover_finalized env fs root directory (fz_uuid a) =
    Inr (Some (\<lparr>fa_directory = directory, fa_artifact = directory @ [fz_filename a],
      fa_manifest = directory @ [manifest_name], fa_checksum = sha256_hex env content,
      fa_size = length content, fa_parts = map fst (layout_parts env a directory content),
      fa_original = fz_original a\<rparr>, fz_metadata a))"
proof -
  note lay' = lay [unfolded published_layout_def Let_def layout_parts_def [symmetric]]
  from lay' have pl: "plain fs directory" and dir: "node_at fs directory = Some Directory" by blast+
  from lay' doc have rm: "read_manifest env fs (directory @ [manifest_name]) msg =
      Inr (layout_manifest env a directory content)" for msg
    using read_manifest_layout [OF pl] by (auto simp: layout_manifest_def manifest_reads_back_def)
  note da = delivery_artifacts_layout [OF lay m sha doc]
  from resolve_plain [OF pl] dir owned name orig rm da show ?thesis
    by (cases "fz_original a")
      (auto simp: recover_finalized_def path_exists_def Let_def layout_manifest_def manifest_members
        json_of_opt_def)
qed

text \<open>A successful publication runs \<open>publish\<close> in a fresh directory under the root.\<close>

lemma finalize_success:
  assumes fin: "finalize_artifact env a fs = (Inr fa, fs')" and root: "plain fs (fz_root a)"
  obtains content files fs0 where
    "fa_directory fa = pending_directory_path (fz_root a) (fz_profile a) (fz_uuid a) (fz_zone a) (fz_now a)"
    "publish env a (fa_directory fa) content = Inr (fa, files)"
    "fs' = put_all ((fa_directory fa, Directory) # files) fs0"
    "plain fs0 (fz_root a @ [safe_slug (fz_profile a)])" "0 < fz_max a"
proof -
  let ?root = "resolve fs (fz_root a)"
  have r: "?root = fz_root a" by (rule resolve_plain [OF root])
  define fs1 where "fs1 = make_parents [] (fz_root a) fs"
  define pd where "pd = fz_root a @ [safe_slug (fz_profile a)]"
  define fs2 where "fs2 = (if node_at fs1 pd = None then put_node pd Directory fs1 else fs1)"
  define dir where "dir = pending_directory_path (fz_root a) (fz_profile a) (fz_uuid a) (fz_zone a) (fz_now a)"
  from fin obtain content files where
    src: "node_at fs2 (resolve fs2 (fz_source a)) = Some (RegularFile content)"
    and pub: "publish env a dir content = Inr (fa, files)"
    and out: "fs' = put_all ((dir, Directory) # files) (remove_node (resolve fs2 (fz_source a)) fs2)"
    and pdir: "node_at fs2 pd = Some Directory" and max: "0 < fz_max a"
    unfolding finalize_artifact_def Let_def r fs1_def [symmetric] pd_def [symmetric] fs2_def [symmetric]
      dir_def [symmetric]
    by (auto split: if_splits option.splits node.splits sum.splits prod.splits)
  have "is_link (node_at fs2 q) \<Longrightarrow> is_link (node_at fs q)" for q
    using is_link_make_parents [of "[]" "fz_root a" fs q]
    by (auto simp: fs2_def fs1_def is_link_def split: if_splits)
  then have "plain fs2 (fz_root a)" by (rule plain_mono [OF root])
  with pdir have pl2: "plain fs2 pd"
    using safe_slug_ne_dots by (simp add: pd_def plain_snoc is_link_def)
  have "plain (remove_node (resolve fs2 (fz_source a)) fs2) pd"
    by (rule plain_mono [OF pl2]) (auto simp: is_link_def split: if_splits)
  moreover have "fa_directory fa = dir"
    using pub by (auto simp: publish_def Let_def bind_result_Inr split: option.splits)
  ultimately show thesis using pub out max by (intro that [of content files]) (simp_all add: dir_def pd_def)
qed

lemma recover_after_finalize:
  assumes fin: "finalize_artifact env a fs = (Inr fa, fs')"
    and root: "plain fs (fz_root a)" and name: "filename_is_name (fz_filename a)"
    and fname: "fz_filename a \<noteq> manifest_name"
    and orig: "case fz_original a of None \<Rightarrow> True | Some k \<Rightarrow> 0 \<le> k"
    and sha: "\<And>b. length (sha256_hex env b) = 64"
    and doc: "manifest_reads_back env (manifest_json (fz_uuid a) (fz_filename a) (fa_size fa)
      (fz_original a) (fa_checksum fa) (fz_now a) (fz_metadata a) (fa_parts fa))"
  shows "recover_finalized env fs' (fz_root a) (fa_directory fa) (fz_uuid a) = Inr (Some (fa, fz_metadata a))"
proof -
  obtain content files fs0 where
    d: "fa_directory fa = pending_directory_path (fz_root a) (fz_profile a) (fz_uuid a) (fz_zone a) (fz_now a)"
    and pub: "publish env a (fa_directory fa) content = Inr (fa, files)"
    and out: "fs' = put_all ((fa_directory fa, Directory) # files) fs0"
    and pl: "plain fs0 (fz_root a @ [safe_slug (fz_profile a)])" and max: "0 < fz_max a"
    by (rule finalize_success [OF fin root])
  let ?dir = "fa_directory fa"
  have bl: "butlast ?dir = fz_root a @ [safe_slug (fz_profile a)]" "?dir \<noteq> []"
    "last ?dir = local_run_stamp (fz_zone a) (fz_now a) @ ''_'' @ take 8 (fz_uuid a)"
    by (simp_all add: d pending_directory_path_def butlast_append)
  have "CHR ''_'' \<in> set (last ?dir)" by (simp add: bl)
  then have nd: "last ?dir \<noteq> ''..''" by auto
  have "plain fs0 (butlast ?dir)" using pl bl by simp
  note lay = publish_layout [OF pub max fname this bl(2) nd]
  have layout: "published_layout env a ?dir content fs'"
    unfolding out by (rule lay(1))
  have "plain fs' ?dir" using layout by (simp add: published_layout_def Let_def)
  with bl have "plain fs' (fz_root a)"
    by (metis append_butlast_last_id append.assoc plain_prefix)
  then have rr: "butlast (butlast ?dir) = resolve fs' (fz_root a)"
    using bl by (simp add: resolve_plain)
  have own: "ends_with_uuid (path_name ?dir) (fz_uuid a)"
    using bl by (simp add: path_name_def ends_with_uuid_def)
  have fa: "fa = \<lparr>fa_directory = ?dir, fa_artifact = ?dir @ [fz_filename a],
      fa_manifest = ?dir @ [manifest_name], fa_checksum = sha256_hex env content,
      fa_size = length content, fa_parts = map fst (layout_parts env a ?dir content),
      fa_original = fz_original a\<rparr>"
    by (subst lay(2), unfold layout_parts_def) (simp split: if_splits)
  have "fa_size fa = length content" "fa_checksum fa = sha256_hex env content"
    "fa_parts fa = map fst (layout_parts env a ?dir content)"
    using arg_cong [OF fa, of fa_size] arg_cong [OF fa, of fa_checksum] arg_cong [OF fa, of fa_parts]
    by (simp_all only: finalized.simps)
  with doc have doc': "manifest_reads_back env (layout_manifest env a ?dir content)"
    by (simp add: layout_manifest_def)
  from recover_layout [OF layout max sha doc' rr own name orig]
  show ?thesis by (simp only: fa [symmetric])
qed


section \<open>Properties\<close>

text \<open>A concrete publication in UTC at the epoch.\<close>

definition demo_run_uuid :: string where
  "demo_run_uuid = ''00000000-0000-4000-8000-000000000001''"

definition demo_sha :: string where
  "demo_sha = replicate 64 (CHR ''a'')"

definition demo_manifest :: json where
  "demo_manifest = manifest_json demo_run_uuid ''data.tar'' 3 (Some 3) demo_sha 0 [(''files'', JInt 1)] []"

definition demo_file_env :: file_env where
  "demo_file_env = \<lparr>sha256_hex = (\<lambda>_. demo_sha), json_dump = (\<lambda>_. ''manifest''),
     json_load = (\<lambda>_. Inr demo_manifest)\<rparr>"

definition demo_args :: finalize_args where
  "demo_args = \<lparr>fz_source = [''work''], fz_root = [''pending''], fz_profile = ''data'',
     fz_uuid = demo_run_uuid, fz_zone = fixed_offset 0, fz_now = 0,
     fz_filename = ''data.tar'', fz_metadata = [(''files'', JInt 1)], fz_max = 10,
     fz_original = Some 3, fz_same_device = True, fz_interrupt = None\<rparr>"

definition demo_fs :: fs where
  "demo_fs = [([''pending''], Directory), ([''work''], RegularFile ''abc'')]"

definition demo_directory :: path where
  "demo_directory = [''pending'', ''data'', ''1970-01-01_00-00-00+00-00_00000000'']"

definition demo_finalized :: finalized where
  "demo_finalized = \<lparr>fa_directory = demo_directory, fa_artifact = demo_directory @ [''data.tar''],
     fa_manifest = demo_directory @ [manifest_name], fa_checksum = demo_sha, fa_size = 3,
     fa_parts = [], fa_original = Some 3\<rparr>"

lemma demo_stamp: "local_run_stamp (fixed_offset 0) 0 = ''1970-01-01_00-00-00+00-00''"
proof -
  have "to_local (fixed_offset 0) 0 = \<lparr>lt_year = 1970, lt_month = 1, lt_day = 1, lt_tod = 0, lt_fold = False\<rparr>"
    unfolding fixed_offset_def by code_simp
  moreover have "of_civil \<lparr>lt_year = 1970, lt_month = 1, lt_day = 1, lt_tod = 0, lt_fold = False\<rparr> = 0"
    by code_simp
  moreover have "show_padded 4 1970 = ''1970''" "show_padded 2 0 = ''00''" "show_padded 2 (Suc 0) = ''01''"
    "offset_text 0 = ''+0000''" by code_simp+
  ultimately show ?thesis by (simp add: local_run_stamp_def Let_def)
qed

lemma demo_slug: "safe_slug ''data'' = ''data''" by code_simp

lemma demo_pending: "pending_directory_path [''pending''] ''data'' demo_run_uuid (fixed_offset 0) 0 = demo_directory"
  by (simp add: pending_directory_path_def demo_stamp demo_slug demo_directory_def demo_run_uuid_def)

lemma demo_root_plain: "plain demo_fs [''pending'']" by code_simp

definition demo_published :: fs where
  "demo_published = put_all [(demo_directory, Directory), (demo_directory @ [''data.tar''], RegularFile ''abc''),
       (demo_directory @ [manifest_name], RegularFile ''manifest'')]
     (remove_node [''work''] (put_node [''pending'', ''data''] Directory demo_fs))"

lemma demo_finalize:
  "finalize_artifact demo_file_env demo_args demo_fs = (Inr demo_finalized, demo_published)"
proof -
  let ?pd = "[''pending'', ''data'']"
  let ?fs = "put_node ?pd Directory demo_fs"
  have "resolve demo_fs [''pending''] = [''pending'']" by (rule resolve_plain [OF demo_root_plain])
  moreover have "make_parents [] [''pending''] demo_fs = demo_fs" by code_simp
  moreover have "node_at demo_fs ?pd = None" by code_simp
  moreover have "resolve ?fs ?pd = ?pd" "resolve ?fs [''work''] = [''work'']"
    by (rule resolve_plain, code_simp)+
  moreover have "node_at ?fs ?pd = Some Directory" "node_at ?fs demo_directory = None"
    "node_at ?fs [''work''] = Some (RegularFile ''abc'')" by code_simp+
  ultimately show ?thesis
    by (simp add: finalize_artifact_def demo_args_def demo_pending demo_slug Let_def publish_def
        demo_file_env_def demo_finalized_def demo_published_def)
qed

lemma demo_published_plain: "plain demo_published demo_directory" "plain demo_published [''pending'']"
  by code_simp+

lemma demo_published_nodes: "node_at demo_published demo_directory = Some Directory"
  by code_simp

lemma demo_inputs:
  "plain demo_fs (fz_root demo_args)" "filename_is_name (fz_filename demo_args)"
  "fz_filename demo_args \<noteq> manifest_name"
  "case fz_original demo_args of None \<Rightarrow> True | Some k \<Rightarrow> 0 \<le> k"
  "length (sha256_hex demo_file_env b) = 64"
  "manifest_reads_back demo_file_env (manifest_json (fz_uuid demo_args) (fz_filename demo_args)
      (fa_size demo_finalized) (fz_original demo_args) (fa_checksum demo_finalized) (fz_now demo_args)
      (fz_metadata demo_args) (fa_parts demo_finalized))"
proof -
  show "plain demo_fs (fz_root demo_args)" by (simp add: demo_args_def demo_root_plain)
  show "filename_is_name (fz_filename demo_args)" "fz_filename demo_args \<noteq> manifest_name"
    by code_simp+
  show "case fz_original demo_args of None \<Rightarrow> True | Some k \<Rightarrow> 0 \<le> k"
    by (simp add: demo_args_def)
  show "length (sha256_hex demo_file_env b) = 64"
    by (simp add: demo_file_env_def demo_sha_def)
  show "manifest_reads_back demo_file_env (manifest_json (fz_uuid demo_args) (fz_filename demo_args)
      (fa_size demo_finalized) (fz_original demo_args) (fa_checksum demo_finalized) (fz_now demo_args)
      (fz_metadata demo_args) (fa_parts demo_finalized))"
    by (simp add: manifest_reads_back_def demo_file_env_def demo_args_def demo_finalized_def demo_manifest_def)
qed

lemma demo_recover:
  "recover_finalized demo_file_env demo_published [''pending''] demo_directory demo_run_uuid =
     Inr (Some (demo_finalized, [(''files'', JInt 1)]))"
  using recover_after_finalize [OF demo_finalize demo_inputs]
  by (simp add: demo_args_def demo_finalized_def)

text \<open>
  C7. Publication and recovery agree: what \<^verbatim>\<open>finalize_artifact\<close> reports after writing the
  artifact, its parts and its manifest below the delivery root is, part by part, what
  \<^verbatim>\<open>recover_finalized\<close> reads back and verifies from the directory it wrote, with the same
  metadata. The JSON text of the manifest must read back and stay below the size limit.
\<close>

theorem finalize_recover:
  assumes fin: "finalize_artifact env a fs = (Inr fa, fs')"
    and root: "plain fs (fz_root a)" and name: "filename_is_name (fz_filename a)"
    and fname: "fz_filename a \<noteq> manifest_name"
    and orig: "case fz_original a of None \<Rightarrow> True | Some k \<Rightarrow> 0 \<le> k"
    and sha: "\<And>b. length (sha256_hex env b) = 64"
    and doc: "manifest_reads_back env (manifest_json (fz_uuid a) (fz_filename a) (fa_size fa)
      (fz_original a) (fa_checksum fa) (fz_now a) (fz_metadata a) (fa_parts fa))"
  shows "recover_finalized env fs' (fz_root a) (fa_directory fa) (fz_uuid a) = Inr (Some (fa, fz_metadata a))"
  by (rule recover_after_finalize [OF assms])

lemma finalize_recover_witness:
  "recover_finalized demo_file_env demo_published (fz_root demo_args) (fa_directory demo_finalized)
     (fz_uuid demo_args) = Inr (Some (demo_finalized, fz_metadata demo_args))"
  by (rule finalize_recover [OF demo_finalize demo_inputs])

end
