(* ===== verification/Demo.thy ===== *)
theory Demo
  imports Database
begin

text \<open>
  A small concrete database on which the properties of the components are instantiated: one
  superadmin, one admin with access to the one backup profile, which is due every hour.
\<close>

definition demo_root :: user where
  "demo_root = \<lparr>u_id = 1, u_telegram = 100, u_name = ''root'', u_role = Superadmin,
     u_language = English, u_enabled = True, u_created_by = None, u_last_seen = None,
     u_deleted = None\<rparr>"

definition demo_admin :: user where
  "demo_admin = \<lparr>u_id = 2, u_telegram = 200, u_name = ''ops'', u_role = Admin,
     u_language = Persian, u_enabled = True, u_created_by = Some 1, u_last_seen = None,
     u_deleted = None\<rparr>"

definition demo_files :: files_source where
  "demo_files = \<lparr>f_location = LocalSource, f_server_id = None,
     f_paths = [\<lparr>bp_path = ''/srv/data'', bp_sqlite = False\<rparr>], f_server = None\<rparr>"

definition demo_profile :: profile where
  "demo_profile = \<lparr>p_id = 7, p_uuid = ''p-7'', p_name = ''data'', p_description = None,
     p_source_type = FilesDirectories, p_enabled = True, p_status = Draft, p_kind = EveryNHours,
     p_interval = Some 1, p_time = None, p_weekday = None, p_monthday = None, p_cron = None,
     p_next = Some 0, p_format = Fmt_None, p_archive = Arc_Tar, p_algorithm = Alg_None,
     p_preset = None, p_encryption = Enc_None, p_recipients = None, p_age_secret = None,
     p_created_by = 1, p_archived_at = None, p_database = None, p_files = Some demo_files,
     p_gitlab = None\<rparr>"

definition demo_db :: db where
  "demo_db = empty_db\<lparr>users := [demo_root, demo_admin],
     access := [\<lparr>a_admin = 2, a_profile = 7, a_created_by = 1\<rparr>],
     profiles := [demo_profile], user_seq := 2, profile_seq := 7\<rparr>"

end
