(* ===== verification/Runs.thy ===== *)
theory Runs
  imports Admin Finalize Demo "HOL-Library.Product_Lexorder"
begin

text \<open>
  Durable runs: \<^verbatim>\<open>RunService\<close> of \<^verbatim>\<open>src/src/pipeline/jobs.py\<close> and
  \<^verbatim>\<open>src/src/pipeline/failed_artifacts.py\<close>. Every operation takes the clock readings, fresh
  identifiers and concurrent commits it meets as arguments and returns the database it leaves.
  The invariant \<open>runs_ok\<close> is what the unique indexes of \<^verbatim>\<open>backup_runs\<close> and the
  service together maintain; \<open>runs_evolve\<close> says how single runs may change.
\<close>

section \<open>Statuses and leases\<close>

definition active_statuses :: "run_status list" where
  "active_statuses = [Queued, Running, DeliveryPending]"

definition active :: "run \<Rightarrow> bool" where
  "active r \<longleftrightarrow> r_status r \<in> set active_statuses"

lemma active_iff: "active r \<longleftrightarrow> r_status r = Queued \<or> r_status r = Running \<or> r_status r = DeliveryPending"
  by (simp add: active_def active_statuses_def)

definition lease_free :: "time \<Rightarrow> run \<Rightarrow> bool" where
  "lease_free now r \<longleftrightarrow> r_lease_owner r = None \<or>
     (case r_lease_expires r of None \<Rightarrow> False | Some t \<Rightarrow> t < now)"

text \<open>\<^verbatim>\<open>order_by(created_at, id)\<close>, \<^verbatim>\<open>order_by(updated_at, id)\<close> and newest first.\<close>

definition created_before :: "run \<Rightarrow> run \<Rightarrow> bool" where
  "created_before a b \<longleftrightarrow> (r_created a, r_id a) < (r_created b, r_id b)"

definition updated_before :: "run \<Rightarrow> run \<Rightarrow> bool" where
  "updated_before a b \<longleftrightarrow> (r_updated a, r_id a) < (r_updated b, r_id b)"

definition newest_first :: "run list \<Rightarrow> run list" where
  "newest_first rs = sort_key (\<lambda>r. (- r_created r, - r_id r)) rs"

section \<open>Inserting a run\<close>

text \<open>
  The three unique constraints of the table: the identifier, one active run per profile, and one
  run per profile, trigger and scheduled time (null times never conflict).
\<close>

definition same_slot :: "run \<Rightarrow> run \<Rightarrow> bool" where
  "same_slot a b \<longleftrightarrow> r_scheduled_for a \<noteq> None \<and> r_profile a = r_profile b \<and>
     r_trigger a = r_trigger b \<and> r_scheduled_for a = r_scheduled_for b"

definition conflicting :: "run \<Rightarrow> run \<Rightarrow> bool" where
  "conflicting a b \<longleftrightarrow> r_uuid a = r_uuid b \<or> (active a \<and> active b \<and> r_profile a = r_profile b) \<or>
     same_slot a b"

definition insert_run :: "run \<Rightarrow> run op" where
  "insert_run r d =
     (if list_ex (conflicting r) (runs d) then (Inl IntegrityError, d)
      else let new = r\<lparr>r_id := run_seq d + 1\<rparr>
           in (Inr new, d\<lparr>runs := runs d @ [new], run_seq := run_seq d + 1\<rparr>))"

text \<open>A \<^verbatim>\<open>BackupRun\<close> with the columns the constructors leave out.\<close>

definition blank_run :: "time \<Rightarrow> string \<Rightarrow> int \<Rightarrow> run_trigger \<Rightarrow> time option \<Rightarrow> run" where
  "blank_run now uuid profile_id trigger scheduled_for =
     \<lparr>r_id = 0, r_uuid = uuid, r_profile = profile_id, r_trigger = trigger,
      r_scheduled_for = scheduled_for, r_status = Queued, r_stage = StQueued, r_skip_reason = None,
      r_lease_owner = None, r_lease_expires = None, r_cancel = False, r_started = None,
      r_finished = None, r_workspace = None, r_pending_dir = None, r_cleanup_at = None,
      r_cleaned_at = None, r_filename = None, r_original_size = None, r_final_size = None,
      r_sha = None, r_metadata = None, r_snapshot = None, r_error_code = None,
      r_error_message = None, r_created = now, r_updated = now\<rparr>"

section \<open>Enqueueing\<close>

record enqueue_result =
  er_run :: run
  er_created :: bool

text \<open>
  What one enqueue meets outside the database: the clock, the two identifiers it may draw, and
  \<open>eq_race\<close>, what other sessions commit between its checks and its insert.
\<close>

record enqueue_env =
  eq_now :: time
  eq_uuid :: string
  eq_skip_uuid :: string
  eq_race :: "db \<Rightarrow> db"

text \<open>The graph \<^verbatim>\<open>selectinload\<close> fetches: every source with its related server.\<close>

definition linked_server :: "db \<Rightarrow> int option \<Rightarrow> remote_server option" where
  "linked_server d i = Option.bind i (server_by_id d)"

definition load_graph :: "db \<Rightarrow> profile \<Rightarrow> profile" where
  "load_graph d p = p\<lparr>
     p_database := map_option (\<lambda>x. x\<lparr>d_server := linked_server d (d_server_id x)\<rparr>) (p_database p),
     p_files := map_option (\<lambda>x. x\<lparr>f_server := linked_server d (f_server_id x)\<rparr>) (p_files p),
     p_gitlab := map_option (\<lambda>x. x\<lparr>g_server := linked_server d (g_server_id x)\<rparr>) (p_gitlab p)\<rparr>"

definition enqueuable :: "db \<Rightarrow> int \<Rightarrow> profile result" where
  "enqueuable d profile_id =
     (case profile_by_id d profile_id of
        None \<Rightarrow> Inl (NotFoundError ''enabled backup profile not found'')
      | Some p \<Rightarrow>
          if p_archived_at p \<noteq> None \<or> \<not> p_enabled p
          then Inl (NotFoundError ''enabled backup profile not found'') else Inr p)"

definition active_for_profile :: "db \<Rightarrow> int \<Rightarrow> run option" where
  "active_for_profile d profile_id =
     first_by (\<lambda>a b. r_id a > r_id b) (filter (\<lambda>r. r_profile r = profile_id \<and> active r) (runs d))"

definition run_in_slot :: "db \<Rightarrow> int \<Rightarrow> run_trigger \<Rightarrow> time option \<Rightarrow> run option" where
  "run_in_slot d profile_id trigger scheduled_for =
     find (\<lambda>r. r_profile r = profile_id \<and> r_trigger r = trigger \<and> r_scheduled_for r = scheduled_for)
       (runs d)"

text \<open>The existing run of the slot, looked up for a scheduled trigger with a time only.\<close>

definition existing_slot :: "db \<Rightarrow> int \<Rightarrow> run_trigger \<Rightarrow> time option \<Rightarrow> run option" where
  "existing_slot d profile_id trigger scheduled_for =
     (if trigger = TrigScheduled \<and> scheduled_for \<noteq> None
      then run_in_slot d profile_id trigger scheduled_for else None)"

definition skipped_run :: "time \<Rightarrow> string \<Rightarrow> int \<Rightarrow> time option \<Rightarrow> run" where
  "skipped_run now uuid profile_id scheduled_for =
     (blank_run now uuid profile_id TrigScheduled scheduled_for)\<lparr>r_status := Skipped,
        r_stage := StComplete, r_skip_reason := Some ''profile already running'',
        r_finished := Some now\<rparr>"

definition record_skipped :: "time \<Rightarrow> string \<Rightarrow> int \<Rightarrow> time option \<Rightarrow> enqueue_result op" where
  "record_skipped now uuid profile_id scheduled_for d =
     (case insert_run (skipped_run now uuid profile_id scheduled_for) d of
        (Inr r, d') \<Rightarrow> (Inr \<lparr>er_run = r, er_created = True\<rparr>, d')
      | (Inl e, _) \<Rightarrow>
          (case run_in_slot d profile_id TrigScheduled scheduled_for of
             None \<Rightarrow> (Inl e, d)
           | Some r \<Rightarrow> (Inr \<lparr>er_run = r, er_created = False\<rparr>, d)))"

text \<open>What the caller gets when another run of the profile is active.\<close>

definition already_active ::
  "enqueue_env \<Rightarrow> int \<Rightarrow> run_trigger \<Rightarrow> time option \<Rightarrow> run \<Rightarrow> enqueue_result op" where
  "already_active env profile_id trigger scheduled_for current d =
     (if trigger = TrigManual then (Inr \<lparr>er_run = current, er_created = False\<rparr>, d)
      else record_skipped (eq_now env) (eq_skip_uuid env) profile_id scheduled_for d)"

definition queued_run :: "enqueue_env \<Rightarrow> db \<Rightarrow> profile \<Rightarrow> int \<Rightarrow> run_trigger \<Rightarrow> time option \<Rightarrow> run" where
  "queued_run env d p profile_id trigger scheduled_for =
     (blank_run (eq_now env) (eq_uuid env) profile_id trigger scheduled_for)\<lparr>
        r_snapshot := Some (serialize_run_config (load_graph d p) (access_admin_ids d profile_id))\<rparr>"

definition enqueue :: "enqueue_env \<Rightarrow> int \<Rightarrow> run_trigger \<Rightarrow> time option \<Rightarrow> enqueue_result op" where
  "enqueue env profile_id trigger scheduled_for d =
     with_result (enqueuable d profile_id) (\<lambda>p d.
       case existing_slot d profile_id trigger scheduled_for of
         Some r \<Rightarrow> (Inr \<lparr>er_run = r, er_created = False\<rparr>, d)
       | None \<Rightarrow>
           (case active_for_profile d profile_id of
              Some r \<Rightarrow> already_active env profile_id trigger scheduled_for r d
            | None \<Rightarrow>
                (let d1 = eq_race env d
                 in case insert_run (queued_run env d p profile_id trigger scheduled_for) d1 of
                   (Inr r, d2) \<Rightarrow> (Inr \<lparr>er_run = r, er_created = True\<rparr>,
                     record_run_transition ''queued'' (r_id r) Queued StQueued None d2)
                 | (Inl e, _) \<Rightarrow>
                     (case existing_slot d1 profile_id trigger scheduled_for of
                        Some r \<Rightarrow> (Inr \<lparr>er_run = r, er_created = False\<rparr>, d1)
                      | None \<Rightarrow>
                          (case active_for_profile d1 profile_id of
                             None \<Rightarrow> (Inl e, d1)
                           | Some r \<Rightarrow> already_active env profile_id trigger scheduled_for r d1))))) d"

definition enqueue_manual :: "enqueue_env \<Rightarrow> user \<Rightarrow> int \<Rightarrow> enqueue_result op" where
  "enqueue_manual env actor profile_id d =
     with_result (require_superadmin actor) (\<lambda>_ d.
       case enqueue env profile_id TrigManual None d of
         (Inl e, d') \<Rightarrow> (Inl e, d')
       | (Inr res, d') \<Rightarrow> (Inr res,
           audit ''backup_run_requested'' (Some (u_id actor)) (Some ''backup_run'')
             (Some (show_int (r_id (er_run res))))
             [(''created'', JBool (er_created res)), (''profile_id'', JInt profile_id)] d')) d"

definition enqueue_scheduled :: "enqueue_env \<Rightarrow> int \<Rightarrow> time \<Rightarrow> enqueue_result op" where
  "enqueue_scheduled env profile_id scheduled_for d =
     enqueue env profile_id TrigScheduled (Some scheduled_for) d"

section \<open>Claiming\<close>

definition delivery_due :: "time \<Rightarrow> delivery \<Rightarrow> bool" where
  "delivery_due now x \<longleftrightarrow> dl_status x = DelPending \<and>
     (case dl_next_attempt x of None \<Rightarrow> True | Some t \<Rightarrow> t \<le> now)"

definition claimable :: "db \<Rightarrow> time \<Rightarrow> run_status list \<Rightarrow> run \<Rightarrow> bool" where
  "claimable d now statuses r \<longleftrightarrow> r_status r \<in> set statuses \<and> \<not> r_cancel r \<and> lease_free now r \<and>
     (r_status r \<noteq> DeliveryPending \<or> deliveries_of d (r_id r) = [] \<or>
      list_ex (delivery_due now) (deliveries_of d (r_id r)))"

definition cancel_claimable :: "time \<Rightarrow> run \<Rightarrow> bool" where
  "cancel_claimable now r \<longleftrightarrow> active r \<and> r_cancel r \<and> lease_free now r"

definition take_lease :: "time \<Rightarrow> string \<Rightarrow> int \<Rightarrow> run \<Rightarrow> run" where
  "take_lease now owner lease_seconds r =
     r\<lparr>r_lease_owner := Some owner, r_lease_expires := Some (now + seconds lease_seconds),
       r_updated := now\<rparr>"

text \<open>
  \<open>locked\<close> are the rows other sessions hold, which \<^verbatim>\<open>FOR UPDATE SKIP LOCKED\<close> passes over on
  PostgreSQL; on SQLite it is empty.
\<close>

definition lease_candidate ::
  "time \<Rightarrow> string \<Rightarrow> int \<Rightarrow> run option \<Rightarrow> db \<Rightarrow> run option \<times> db" where
  "lease_candidate now owner lease_seconds candidate d =
     (case candidate of
        None \<Rightarrow> (None, d)
      | Some r \<Rightarrow>
          (let d' = update_run (r_id r) (take_lease now owner lease_seconds) d
           in (run_by_id d' (r_id r), d')))"

definition claim ::
  "time \<Rightarrow> string \<Rightarrow> int \<Rightarrow> run_status list \<Rightarrow> int list \<Rightarrow> db \<Rightarrow> run option \<times> db" where
  "claim now owner lease_seconds statuses locked d =
     lease_candidate now owner lease_seconds
       (first_by created_before
         (filter (\<lambda>r. claimable d now statuses r \<and> r_id r \<notin> set locked) (runs d))) d"

definition claim_cancel_requested ::
  "time \<Rightarrow> string \<Rightarrow> int \<Rightarrow> int list \<Rightarrow> db \<Rightarrow> run option \<times> db" where
  "claim_cancel_requested now owner lease_seconds locked d =
     lease_candidate now owner lease_seconds
       (first_by updated_before
         (filter (\<lambda>r. cancel_claimable now r \<and> r_id r \<notin> set locked) (runs d))) d"

section \<open>Holding and dropping a lease\<close>

record cancellation_cleanup =
  cc_run :: int
  cc_uuid :: string
  cc_workspace :: "path option"
  cc_pending :: "path option"

definition drop_lease :: "run \<Rightarrow> run" where
  "drop_lease r = r\<lparr>r_lease_owner := None, r_lease_expires := None\<rparr>"

definition mark_cancelled :: "time \<Rightarrow> string \<Rightarrow> run \<Rightarrow> run" where
  "mark_cancelled now message r = (drop_lease r)\<lparr>r_status := Cancelled, r_stage := StComplete,
     r_finished := Some now, r_error_code := Some ''CANCELLED'', r_error_message := Some message,
     r_updated := now\<rparr>"

definition finalize_cancel_requested ::
  "time \<Rightarrow> int \<Rightarrow> string \<Rightarrow> db \<Rightarrow> cancellation_cleanup option \<times> db" where
  "finalize_cancel_requested now run_id owner d =
     (case run_by_id d run_id of
        None \<Rightarrow> (None, d)
      | Some r \<Rightarrow>
          if active r \<and> r_cancel r \<and> r_lease_owner r = Some owner
          then (Some \<lparr>cc_run = r_id r, cc_uuid = r_uuid r, cc_workspace = r_workspace r,
                  cc_pending = r_pending_dir r\<rparr>,
                record_run_transition ''cancelled'' (r_id r) Cancelled StComplete (Some ''CANCELLED'')
                  (update_run run_id (mark_cancelled now ''run cancelled'') d))
          else (None, d))"

definition renew :: "time \<Rightarrow> int \<Rightarrow> string \<Rightarrow> int \<Rightarrow> db \<Rightarrow> bool \<times> db" where
  "renew now run_id owner lease_seconds d =
     (case run_by_id d run_id of
        None \<Rightarrow> (False, d)
      | Some r \<Rightarrow>
          if r_lease_owner r = Some owner
          then (True, update_run run_id (\<lambda>r. r\<lparr>r_lease_expires := Some (now + seconds lease_seconds),
                  r_updated := now\<rparr>) d)
          else (False, d))"

text \<open>\<^verbatim>\<open>release\<close> checks the loaded object, which the caller refreshed.\<close>

definition release :: "time \<Rightarrow> run \<Rightarrow> string \<Rightarrow> unit op" where
  "release now r owner d =
     (if r_lease_owner r \<noteq> Some owner then (Inl (RuntimeError ''run lease ownership lost''), d)
      else (Inr (), update_run (r_id r) (\<lambda>q. (drop_lease q)\<lparr>r_updated := now\<rparr>) d))"

section \<open>Operator actions\<close>

definition request_cancel :: "time \<Rightarrow> user \<Rightarrow> int \<Rightarrow> unit op" where
  "request_cancel now actor run_id d =
     with_result (require_superadmin actor) (\<lambda>_ d.
       case run_by_id d run_id of
         None \<Rightarrow> (Inl (NotFoundError ''active run not found''), d)
       | Some r \<Rightarrow>
           if \<not> active r then (Inl (NotFoundError ''active run not found''), d)
           else let d1 = update_run run_id (\<lambda>q. q\<lparr>r_cancel := True, r_updated := now\<rparr>) d
                in (Inr (),
                    if r_status r = Queued \<and> r_lease_owner r = None
                    then record_run_transition ''cancelled'' run_id Cancelled StComplete (Some ''CANCELLED'')
                           (update_run run_id (mark_cancelled now ''run cancelled before execution'') d1)
                    else d1)) d"

definition details :: "user \<Rightarrow> int \<Rightarrow> db \<Rightarrow> run result" where
  "details actor run_id d =
     bind_result (require_superadmin actor) (\<lambda>_.
       case run_by_id d run_id of
         None \<Rightarrow> Inl (NotFoundError ''backup run not found'') | Some r \<Rightarrow> Inr r)"

definition list_active :: "user \<Rightarrow> db \<Rightarrow> run list result" where
  "list_active actor d =
     bind_result (require_superadmin actor) (\<lambda>_. Inr (newest_first (filter active (runs d))))"

record run_page =
  pg_items :: "run list"
  pg_page :: int
  pg_pages :: int
  pg_count :: int

definition history :: "user \<Rightarrow> int \<Rightarrow> int \<Rightarrow> db \<Rightarrow> run_page result" where
  "history actor page page_size d =
     bind_result (require_superadmin actor) (\<lambda>_.
       let count = int (length (runs d));
           pages = max 1 ((count + page_size - 1) div page_size);
           at = min (max 0 page) (pages - 1)
       in Inr \<lparr>pg_items = take (nat page_size) (drop (nat (at * page_size)) (newest_first (runs d))),
               pg_page = at, pg_pages = pages, pg_count = count\<rparr>)"

definition pending_bytes :: "db \<Rightarrow> int" where
  "pending_bytes d = sum_list (map (\<lambda>r. case r_final_size r of None \<Rightarrow> 0 | Some n \<Rightarrow> n)
     (filter (\<lambda>r. r_pending_dir r \<noteq> None) (runs d)))"

section \<open>Retained artifacts\<close>

definition text_of :: "string option \<Rightarrow> string" where
  "text_of s = (case s of None \<Rightarrow> [] | Some t \<Rightarrow> t)"

definition run_matches_manifest :: "run \<Rightarrow> finalized \<Rightarrow> bool" where
  "run_matches_manifest r fa \<longleftrightarrow> text_of (r_filename r) \<noteq> [] \<and> filename_is_name (text_of (r_filename r)) \<and>
     text_of (r_sha r) \<noteq> [] \<and> path_name (fa_artifact fa) = text_of (r_filename r) \<and>
     r_final_size r = Some (int (fa_size fa)) \<and> fa_checksum fa = text_of (r_sha r)"

definition final_artifact_of :: "db \<Rightarrow> int \<Rightarrow> artifact option" where
  "final_artifact_of d i = find (\<lambda>a. af_run a = i \<and> af_kind a = FinalArtifact) (artifacts d)"

definition record_matches :: "db \<Rightarrow> run \<Rightarrow> bool" where
  "record_matches d r \<longleftrightarrow> (case final_artifact_of d (r_id r) of
     None \<Rightarrow> False
   | Some a \<Rightarrow> Some (af_path a) = r_filename r \<and> Some (af_size a) = r_final_size r \<and>
       Some (af_sha a) = r_sha r)"

definition verified_retained_artifact ::
  "file_env \<Rightarrow> fs \<Rightarrow> path \<Rightarrow> db \<Rightarrow> run \<Rightarrow> finalized result" where
  "verified_retained_artifact env fs pending_root d r =
     (case r_pending_dir r of
        None \<Rightarrow> Inl (ValueError ''run has no retained artifact'')
      | Some pending \<Rightarrow>
          bind_result (validate_owned_directory fs pending_root pending (r_uuid r)) (\<lambda>owned.
          bind_result (guard_result (path_exists fs owned) (ValueError ''retained artifact does not exist'')) (\<lambda>_.
          bind_result (recover_finalized env fs pending_root owned (r_uuid r)) (\<lambda>recovered.
            case recovered of
              None \<Rightarrow> Inl (ValueError ''retained artifact disappeared during verification'')
            | Some (fa, metadata) \<Rightarrow>
                if \<not> run_matches_manifest r fa
                then Inl (ValueError ''retained artifact metadata does not match its manifest'')
                else if \<not> record_matches d r
                then Inl (ValueError ''retained artifact metadata does not match its run record'')
                else Inr fa))))"

definition remove_verified_retained_artifact ::
  "file_env \<Rightarrow> path \<Rightarrow> db \<Rightarrow> run \<Rightarrow> fs \<Rightarrow> unit result \<times> fs" where
  "remove_verified_retained_artifact env pending_root d r fs =
     (case verified_retained_artifact env fs pending_root d r of
        Inl e \<Rightarrow> (Inl e, fs)
      | Inr fa \<Rightarrow> remove_owned_directory pending_root (fa_directory fa) (r_uuid r) fs)"

section \<open>Retrying and purging failed runs\<close>

record retry_result =
  rr_run :: run
  rr_resumed :: bool

definition resume_run :: "time \<Rightarrow> run \<Rightarrow> run" where
  "resume_run now r = r\<lparr>r_status := DeliveryPending, r_stage := StPendingDelivery, r_finished := None,
     r_cleanup_at := None, r_error_code := None, r_error_message := None, r_cancel := False,
     r_updated := now\<rparr>"

definition reset_delivery :: "time \<Rightarrow> delivery \<Rightarrow> delivery" where
  "reset_delivery now x = x\<lparr>dl_status := DelPending, dl_attempts := 0, dl_part_attempts := 0,
     dl_next_attempt := Some now, dl_error := None\<rparr>"

text \<open>
  The guarded \<^verbatim>\<open>UPDATE\<close> that resumes a failed run, on the database other sessions may have
  changed since the row was read; the index of active runs may refuse it.
\<close>

definition resume_failed :: "time \<Rightarrow> run \<Rightarrow> db op" where
  "resume_failed now r d =
     (case run_by_id d (r_id r) of
        None \<Rightarrow> (Inl (NotFoundError ''failed run changed before retry''), d)
      | Some q \<Rightarrow>
          if r_status q = Failed \<and> r_lease_owner q = None \<and> r_pending_dir q = r_pending_dir r
          then if list_ex (\<lambda>x. active x \<and> r_profile x = r_profile q) (runs d)
               then (Inl IntegrityError, d)
               else (Inr (update_run (r_id r) (resume_run now) d), d)
          else (Inl (NotFoundError ''failed run changed before retry''), d))"

definition retry_failed ::
  "file_env \<Rightarrow> fs \<Rightarrow> enqueue_env \<Rightarrow> user \<Rightarrow> int \<Rightarrow> path \<Rightarrow> retry_result op" where
  "retry_failed fenv fs env actor run_id pending_root d =
     with_result (details actor run_id d) (\<lambda>r d.
       if r_status r \<noteq> Failed \<or> r_lease_owner r \<noteq> None
       then (Inl (NotFoundError ''terminal failed run is not retryable''), d)
       else if r_pending_dir r = None then
         (if list_ex (\<lambda>x. dl_status x = DelSucceeded) (deliveries_of d run_id)
          then (Inl (NotFoundError ''failed run with successful deliveries cannot be recreated''), d)
          else case enqueue_manual env actor (r_profile r) d of
            (Inl e, d') \<Rightarrow> (Inl e, d')
          | (Inr res, d') \<Rightarrow>
              if \<not> er_created res
              then (Inl (NotFoundError ''backup profile already has an active run''), d')
              else (Inr \<lparr>rr_run = er_run res, rr_resumed = False\<rparr>, d'))
       else
         (let failed = filter (\<lambda>x. dl_status x = DelFailed) (deliveries_of d run_id)
          in if failed = [] then (Inl (NotFoundError ''failed run has no retryable deliveries''), d)
          else with_result (verified_retained_artifact fenv fs pending_root d r) (\<lambda>_ d.
            if active_for_profile d (r_profile r) \<noteq> None
            then (Inl (NotFoundError ''backup profile already has an active run''), d)
            else let d1 = eq_race env d
              in case resume_failed (eq_now env) r d1 of
                (Inl e, _) \<Rightarrow> (Inl e, d1)
              | (Inr d2, _) \<Rightarrow>
                  (let d3 = d2\<lparr>deliveries := update_where (\<lambda>x. dl_id x \<in> dl_id ` set failed)
                         (reset_delivery (eq_now env)) (deliveries d2)\<rparr>;
                       d4 = audit ''backup_run_retry_requested'' (Some (u_id actor)) (Some ''backup_run'')
                         (Some (show_int run_id))
                         [(''failed_recipients'', JInt (int (length failed)))] d3
                   in (case run_by_id d4 run_id of
                        None \<Rightarrow> Inl (NotFoundError ''backup run not found'')
                      | Some q \<Rightarrow> Inr \<lparr>rr_run = q, rr_resumed = True\<rparr>, d4))) d)) d"

definition purge_failed_artifact ::
  "file_env \<Rightarrow> time \<Rightarrow> user \<Rightarrow> int \<Rightarrow> path \<Rightarrow> db \<times> fs \<Rightarrow> unit result \<times> db \<times> fs" where
  "purge_failed_artifact env now actor run_id pending_root s =
     (case s of (d, fs) \<Rightarrow>
       (case details actor run_id d of
          Inl e \<Rightarrow> (Inl e, d, fs)
        | Inr r \<Rightarrow>
            if r_status r \<noteq> Failed \<or> r_lease_owner r \<noteq> None \<or> r_pending_dir r = None
            then (Inl (NotFoundError ''terminal failed run has no purgeable artifact''), d, fs)
            else (case remove_verified_retained_artifact env pending_root d r fs of
                (Inl e, fs') \<Rightarrow> (Inl e, d, fs')
              | (Inr _, fs') \<Rightarrow> (Inr (),
                  audit ''failed_artifact_operator_purged'' (Some (u_id actor)) (Some ''backup_run'')
                    (Some (show_int run_id)) [(''verified'', JBool True)]
                    (update_run run_id (\<lambda>q. q\<lparr>r_pending_dir := None, r_cleaned_at := Some now,
                       r_updated := now\<rparr>) d), fs'))))"

section \<open>Invariant\<close>

text \<open>
  A run holds a lease only while it is active, a lease has an owner and an expiry together, and
  exactly the inactive runs carry a finishing time. Across rows, identifiers are distinct and
  no two rows conflict.
\<close>

definition run_ok :: "run \<Rightarrow> bool" where
  "run_ok r \<longleftrightarrow> (active r \<longleftrightarrow> r_finished r = None) \<and> (\<not> active r \<longrightarrow> r_lease_owner r = None) \<and>
     (r_lease_owner r = None \<longleftrightarrow> r_lease_expires r = None)"

definition runs_ok :: "db \<Rightarrow> bool" where
  "runs_ok d \<longleftrightarrow> distinct (map r_id (runs d)) \<and>
     (\<forall>r \<in> set (runs d). run_ok r \<and> r_id r \<le> run_seq d) \<and>
     (\<forall>a \<in> set (runs d). \<forall>b \<in> set (runs d). r_id a \<noteq> r_id b \<longrightarrow> \<not> conflicting a b)"

lemma conflicting_sym: "conflicting a b \<longleftrightarrow> conflicting b a"
  by (auto simp: conflicting_def same_slot_def)

text \<open>The lifecycle of a run: the direct transitions the code makes, and what they reach.\<close>

definition lifecycle :: "run_status \<Rightarrow> run_status \<Rightarrow> bool" where
  "lifecycle s t \<longleftrightarrow> (s, t) \<in> set
     [(Queued, Running), (Queued, DeliveryPending), (Queued, Failed), (Queued, Cancelled),
      (Running, DeliveryPending), (Running, Failed), (Running, Cancelled),
      (DeliveryPending, Succeeded), (DeliveryPending, Failed), (DeliveryPending, Cancelled),
      (Failed, DeliveryPending)]"

fun status_rank :: "run_status \<Rightarrow> nat" where
  "status_rank Queued = 0"
| "status_rank Running = 1"
| "status_rank DeliveryPending = 2"
| "status_rank Failed = 2"
| "status_rank Succeeded = 3"
| "status_rank Cancelled = 3"
| "status_rank Skipped = 4"

definition status_reaches :: "run_status \<Rightarrow> run_status \<Rightarrow> bool" where
  "status_reaches s t \<longleftrightarrow> s = t \<or> (t \<noteq> Skipped \<and> status_rank s < status_rank t) \<or>
     (s \<in> {DeliveryPending, Failed} \<and> t \<in> {DeliveryPending, Failed})"

lemma status_reaches_refl [simp]: "status_reaches s s"
  by (simp add: status_reaches_def)

lemma status_reaches_trans: "status_reaches s t \<Longrightarrow> status_reaches t u \<Longrightarrow> status_reaches s u"
  by (cases s; cases t; cases u) (auto simp: status_reaches_def)

lemma lifecycle_reaches: "lifecycle s t \<Longrightarrow> status_reaches s t"
  by (auto simp: lifecycle_def status_reaches_def)

text \<open>The order is exactly what the direct transitions generate.\<close>

lemma status_reaches_rtrancl: "status_reaches s t \<longleftrightarrow> lifecycle\<^sup>*\<^sup>* s t"
proof
  have two: "lifecycle\<^sup>*\<^sup>* a c" if "lifecycle a b" "lifecycle b c" for a b c
    using that by (meson converse_rtranclp_into_rtranclp rtranclp.rtrancl_refl)
  have one: "lifecycle\<^sup>*\<^sup>* a b" if "lifecycle a b" for a b using that by blast
  assume "status_reaches s t"
  then show "lifecycle\<^sup>*\<^sup>* s t"
    using two [of Queued DeliveryPending Succeeded] two [of Running DeliveryPending Succeeded]
      two [of Failed DeliveryPending Succeeded] two [of Failed DeliveryPending Cancelled]
    by (cases s; cases t)
      (auto simp: status_reaches_def lifecycle_def intro: one [unfolded lifecycle_def])
next
  assume "lifecycle\<^sup>*\<^sup>* s t"
  then show "status_reaches s t"
    by (induction rule: rtranclp_induct) (auto intro: status_reaches_trans lifecycle_reaches)
qed

definition same_identity :: "run \<Rightarrow> run \<Rightarrow> bool" where
  "same_identity r q \<longleftrightarrow> r_id q = r_id r \<and> r_uuid q = r_uuid r \<and> r_profile q = r_profile r \<and>
     r_trigger q = r_trigger r \<and> r_scheduled_for q = r_scheduled_for r \<and>
     r_created q = r_created r \<and> r_snapshot q = r_snapshot r"

definition run_evolves :: "run \<Rightarrow> run \<Rightarrow> bool" where
  "run_evolves r q \<longleftrightarrow> same_identity r q \<and> status_reaches (r_status r) (r_status q)"

definition runs_evolve :: "db \<Rightarrow> db \<Rightarrow> bool" where
  "runs_evolve d d' \<longleftrightarrow> (\<forall>r \<in> set (runs d). \<exists>q \<in> set (runs d'). run_evolves r q)"

definition advances :: "db \<Rightarrow> db \<Rightarrow> bool" where
  "advances d d' \<longleftrightarrow> runs_ok d' \<and> runs_evolve d d'"

lemma same_identity_refl [simp]: "same_identity r r"
  by (simp add: same_identity_def)

lemma run_evolves_refl [simp]: "run_evolves r r"
  by (simp add: run_evolves_def)

lemma run_evolves_trans: "run_evolves a b \<Longrightarrow> run_evolves b c \<Longrightarrow> run_evolves a c"
  by (auto simp: run_evolves_def same_identity_def intro: status_reaches_trans)

lemma advances_refl: "runs_ok d \<Longrightarrow> advances d d"
  by (auto simp: advances_def runs_evolve_def intro: run_evolves_refl)

lemma advances_trans: "advances a b \<Longrightarrow> advances b c \<Longrightarrow> advances a c"
  unfolding advances_def runs_evolve_def by (meson run_evolves_trans)

lemma advances_ok: "advances d d' \<Longrightarrow> runs_ok d'"
  by (simp add: advances_def)

lemma advances_frame:
  "runs d' = runs d1 \<Longrightarrow> run_seq d' = run_seq d1 \<Longrightarrow> advances d d' \<longleftrightarrow> advances d d1"
  by (simp add: advances_def runs_ok_def runs_evolve_def)

lemma runs_ok_by_id: "runs_ok d \<Longrightarrow> r \<in> set (runs d) \<Longrightarrow> run_by_id d (r_id r) = Some r"
  by (simp add: runs_ok_def run_by_id_mem)

lemma runs_ok_run: "runs_ok d \<Longrightarrow> run_by_id d i = Some r \<Longrightarrow> run_ok r"
  by (auto simp: runs_ok_def dest!: run_by_id_Some)

text \<open>Updating one row: what it must keep.\<close>

lemma set_update_run:
  "set (runs (update_run i f d)) = (\<lambda>r. if r_id r = i then f r else r) ` set (runs d)"
  by (simp add: update_run_def update_where_def)

lemma conflicting_update:
  "same_identity r q \<Longrightarrow> conflicting q b \<Longrightarrow> conflicting r b \<or> (active q \<and> \<not> active r \<and> active b \<and> r_profile b = r_profile r)"
  by (auto simp: conflicting_def same_identity_def same_slot_def)

lemma advances_update_run:
  assumes ok: "runs_ok d" and i: "run_by_id d i = Some r"
    and id: "\<And>x. same_identity x (f x)" and fr: "run_ok (f r)"
    and st: "status_reaches (r_status r) (r_status (f r))"
    and act: "active (f r) \<Longrightarrow> \<not> active r \<Longrightarrow> list_ex (\<lambda>x. active x \<and> r_profile x = r_profile r) (runs d) \<Longrightarrow> False"
  shows "advances d (update_run i f d)"
proof -
  have ids: "r_id (f x) = r_id x" for x using id [of x] by (simp add: same_identity_def)
  have ri: "r \<in> set (runs d)" "r_id r = i" using run_by_id_Some [OF i] by auto
  have only: "x = r" if "x \<in> set (runs d)" "r_id x = i" for x
    using ok that ri by (auto simp: runs_ok_def dest: distinct_key_eq)
  have map: "map r_id (runs (update_run i f d)) = map r_id (runs d)"
    using ids by (simp add: update_run_def map_key_update_where)
  have one: "\<not> conflicting (f r) b" if "b \<in> set (runs d)" "r_id b \<noteq> i" for b
  proof
    assume c: "conflicting (f r) b"
    have "\<not> conflicting r b" using ok that ri by (auto simp: runs_ok_def)
    with conflicting_update [OF id c] have "active (f r)" "\<not> active r" "active b" "r_profile b = r_profile r"
      by auto
    with act that show False by (auto simp: list_ex_iff)
  qed
  have "\<not> conflicting a b"
    if ab: "a \<in> set (runs (update_run i f d))" "b \<in> set (runs (update_run i f d))" "r_id a \<noteq> r_id b" for a b
  proof -
    from ab obtain x y where x: "x \<in> set (runs d)" "a = (if r_id x = i then f x else x)"
      and y: "y \<in> set (runs d)" "b = (if r_id y = i then f y else y)"
      unfolding set_update_run by blast
    with ab(3) ids have ne: "r_id x \<noteq> r_id y" by (auto split: if_splits)
    with x y ok have "\<not> conflicting x y" by (auto simp: runs_ok_def)
    with x y ne only one conflicting_sym show ?thesis by (auto split: if_splits)
  qed
  moreover have "\<forall>x \<in> set (runs (update_run i f d)). run_ok x \<and> r_id x \<le> run_seq d"
    using ok only fr ids by (auto simp: set_update_run runs_ok_def)
  ultimately have "runs_ok (update_run i f d)"
    using ok map by (auto simp: runs_ok_def)
  moreover have "run_evolves x (if r_id x = i then f x else x)" if "x \<in> set (runs d)" for x
    using only [OF that] st id by (auto simp: run_evolves_def)
  then have "runs_evolve d (update_run i f d)"
    unfolding runs_evolve_def set_update_run by blast
  ultimately show ?thesis by (simp add: advances_def)
qed


lemma advances_insert_run:
  assumes ok: "runs_ok d" and r: "run_ok r" and ins: "insert_run r d = (Inr new, d')"
  shows "advances d d'" and "new = r\<lparr>r_id := run_seq d + 1\<rparr>" and "run_by_id d' (r_id new) = Some new"
proof -
  have nc: "\<And>b. b \<in> set (runs d) \<Longrightarrow> \<not> conflicting r b" and new: "new = r\<lparr>r_id := run_seq d + 1\<rparr>"
    and d': "d' = d\<lparr>runs := runs d @ [new], run_seq := run_seq d + 1\<rparr>"
    using ins by (auto simp: insert_run_def list_ex_iff Let_def split: if_splits)
  have lt: "r_id b < r_id new" if "b \<in> set (runs d)" for b
    using ok that new by (fastforce simp: runs_ok_def)
  have nn: "\<not> conflicting new b" if "b \<in> set (runs d)" for b
    using nc [OF that] by (simp add: new conflicting_def same_slot_def active_def)
  have "run_ok new" using r by (simp add: new run_ok_def active_def)
  moreover have "r_id new \<notin> r_id ` set (runs d)" using lt by force
  moreover have "\<forall>a \<in> set (runs d'). \<forall>b \<in> set (runs d'). r_id a \<noteq> r_id b \<longrightarrow> \<not> conflicting a b"
    using ok nn conflicting_sym by (auto simp: d' runs_ok_def)
  moreover have "\<forall>b \<in> set (runs d). r_id b \<le> run_seq d + 1" using ok by (auto simp: runs_ok_def)
  ultimately have okd: "runs_ok d'" using ok by (auto simp: runs_ok_def d' new)
  then show "advances d d'"
    by (auto simp: advances_def runs_evolve_def d' intro: run_evolves_refl)
  show "new = r\<lparr>r_id := run_seq d + 1\<rparr>" by (rule new)
  show "run_by_id d' (r_id new) = Some new"
    by (rule runs_ok_by_id [OF okd]) (simp add: d')
qed

text \<open>The race of an enqueue is itself made of steps that advance the runs.\<close>

definition race_ok :: "(db \<Rightarrow> db) \<Rightarrow> db \<Rightarrow> bool" where
  "race_ok race d \<longleftrightarrow> (runs_ok d \<longrightarrow> advances d (race d))"

lemma run_ok_blank: "run_ok (blank_run now u p t s)"
  by (simp add: run_ok_def blank_run_def active_def active_statuses_def)

lemma run_ok_queued: "run_ok (queued_run env d p i t s)"
  by (simp add: run_ok_def blank_run_def active_def active_statuses_def queued_run_def)

lemma run_ok_skipped: "run_ok (skipped_run now u p s)"
  by (simp add: run_ok_def blank_run_def active_def active_statuses_def skipped_run_def)

lemma advances_record_skipped [keeps]:
  "runs_ok d \<Longrightarrow> advances d (snd (record_skipped now u p s d))"
  by (auto simp: record_skipped_def advances_refl dest: advances_insert_run(1) [OF _ run_ok_skipped]
      split: prod.splits sum.splits option.splits)

lemma advances_already_active [keeps]:
  "runs_ok d \<Longrightarrow> advances d (snd (already_active env p t s r d))"
  by (simp add: already_active_def advances_refl advances_record_skipped)

lemma advances_transition [simp]:
  "advances d (record_run_transition t i st sg c d') \<longleftrightarrow> advances d d'"
  "advances d (audit e a t' i' x d') \<longleftrightarrow> advances d d'"
  by (rule advances_frame; simp)+

lemma advances_enqueue [keeps]:
  assumes ok: "runs_ok d" and race: "race_ok (eq_race env) d"
  shows "advances d (snd (enqueue env p t s d))"
proof -
  have r: "advances d (eq_race env d)" using ok race by (simp add: race_ok_def)
  have ok': "runs_ok (eq_race env d)" by (rule advances_ok [OF r])
  have skip: "advances d (snd (already_active env p t s q (eq_race env d)))" for q
    by (rule advances_trans [OF r advances_already_active [OF ok']])
  have ins: "advances d d2" if "insert_run (queued_run env d g p t s) (eq_race env d) = (Inr q, d2)" for g q d2
    by (rule advances_trans [OF r advances_insert_run(1) [OF ok' run_ok_queued that]])
  show ?thesis
    using ok r
    by (auto simp: enqueue_def with_result_def Let_def advances_refl advances_already_active
        intro: skip ins split: sum.splits option.splits prod.splits)
qed

lemma advances_enqueue_manual [keeps]:
  assumes "runs_ok d" and "race_ok (eq_race env) d"
  shows "advances d (snd (enqueue_manual env actor p d))"
proof (cases "enqueue env p TrigManual None d")
  case (Pair res d')
  with advances_enqueue [OF assms, of p TrigManual None] have "advances d d'" by simp
  with Pair assms(1) show ?thesis
    by (auto simp: enqueue_manual_def with_result_def advances_refl split: sum.splits)
qed

lemma advances_enqueue_scheduled [keeps]:
  "runs_ok d \<Longrightarrow> race_ok (eq_race env) d \<Longrightarrow> advances d (snd (enqueue_scheduled env p s d))"
  by (simp add: enqueue_scheduled_def advances_enqueue)

subsection \<open>Claims\<close>

lemma created_before_order:
  "\<not> created_before b a \<Longrightarrow> \<not> created_before c b \<Longrightarrow> \<not> created_before c a"
  "created_before a b \<Longrightarrow> \<not> created_before b a"
  "\<not> created_before a a"
  by (auto simp: created_before_def)

lemma updated_before_order:
  "\<not> updated_before b a \<Longrightarrow> \<not> updated_before c b \<Longrightarrow> \<not> updated_before c a"
  "updated_before a b \<Longrightarrow> \<not> updated_before b a"
  "\<not> updated_before a a"
  by (auto simp: updated_before_def)

lemma take_lease_simps [simp]:
  "r_id (take_lease now ow k r) = r_id r" "r_status (take_lease now ow k r) = r_status r"
  "r_lease_owner (take_lease now ow k r) = Some ow"
  "r_lease_expires (take_lease now ow k r) = Some (now + seconds k)"
  "r_finished (take_lease now ow k r) = r_finished r" "active (take_lease now ow k r) = active r"
  "same_identity r (take_lease now ow k r)"
  by (simp_all add: take_lease_def active_def same_identity_def)

lemma advances_lease_candidate:
  assumes ok: "runs_ok d" and c: "\<And>r. c = Some r \<Longrightarrow> r \<in> set (runs d) \<and> active r"
  shows "advances d (snd (lease_candidate now owner k c d))"
proof (cases c)
  case None
  with ok show ?thesis by (simp add: lease_candidate_def advances_refl)
next
  case (Some r)
  with c have r: "r \<in> set (runs d)" "active r" by auto
  note i = runs_ok_by_id [OF ok r(1)]
  have "run_ok (take_lease now owner k r)"
    using runs_ok_run [OF ok i] r(2) by (simp add: run_ok_def)
  then have "advances d (update_run (r_id r) (take_lease now owner k) d)"
    by (intro advances_update_run [OF ok i]) simp_all
  with Some show ?thesis by (simp add: lease_candidate_def Let_def)
qed

lemma lease_candidate_Some:
  assumes "lease_candidate now owner k c d = (Some r, d')" and "\<And>q. c = Some q \<Longrightarrow> q \<in> set (runs d)"
    and ok: "runs_ok d"
  shows "\<exists>q. c = Some q \<and> run_by_id d (r_id q) = Some q \<and> r = take_lease now owner k q \<and>
    d' = update_run (r_id r) (take_lease now owner k) d"
  using assms(1,2) runs_ok_by_id [OF ok]
  by (cases c) (auto simp: lease_candidate_def Let_def)

lemma lease_candidate_None:
  assumes "lease_candidate now owner k c d = (None, d')" and "\<And>q. c = Some q \<Longrightarrow> q \<in> set (runs d)"
    and ok: "runs_ok d"
  shows "c = None \<and> d' = d"
  using assms(1,2) runs_ok_by_id [OF ok]
  by (cases c) (auto simp: lease_candidate_def Let_def)

lemma claim_candidate:
  assumes "first_by created_before (filter (\<lambda>r. claimable d now ss r \<and> r_id r \<notin> set locked) (runs d)) = Some r"
  shows "r \<in> set (runs d)" "claimable d now ss r" "r_id r \<notin> set locked"
    "\<And>x. x \<in> set (runs d) \<Longrightarrow> claimable d now ss x \<Longrightarrow> r_id x \<notin> set locked \<Longrightarrow> \<not> created_before x r"
  using first_by_mem [OF assms] first_by_least [OF assms created_before_order] by auto

lemma cancel_candidate:
  assumes "first_by updated_before (filter (\<lambda>r. cancel_claimable now r \<and> r_id r \<notin> set locked) (runs d)) = Some r"
  shows "r \<in> set (runs d)" "cancel_claimable now r" "r_id r \<notin> set locked"
    "\<And>x. x \<in> set (runs d) \<Longrightarrow> cancel_claimable now x \<Longrightarrow> r_id x \<notin> set locked \<Longrightarrow> \<not> updated_before x r"
  using first_by_mem [OF assms] first_by_least [OF assms updated_before_order] by auto

lemma advances_claim [keeps]:
  assumes "runs_ok d" and "set ss \<subseteq> set active_statuses"
  shows "advances d (snd (claim now owner k ss locked d))"
  unfolding claim_def
  by (rule advances_lease_candidate [OF assms(1)])
    (use assms(2) in \<open>auto simp: claimable_def active_def dest!: first_by_mem\<close>)

lemma advances_claim_cancel [keeps]:
  assumes "runs_ok d"
  shows "advances d (snd (claim_cancel_requested now owner k locked d))"
  unfolding claim_cancel_requested_def
  by (rule advances_lease_candidate [OF assms])
    (auto simp: cancel_claimable_def dest!: first_by_mem)

subsection \<open>Lease holders and operators\<close>

lemma mark_cancelled_simps [simp]:
  "same_identity r (mark_cancelled now m r)" "run_ok (mark_cancelled now m r)"
  "r_status (mark_cancelled now m r) = Cancelled" "\<not> active (mark_cancelled now m r)"
  by (simp_all add: mark_cancelled_def drop_lease_def same_identity_def run_ok_def active_iff)

lemma advances_finalize_cancel [keeps]:
  assumes ok: "runs_ok d"
  shows "advances d (snd (finalize_cancel_requested now i owner d))"
proof (cases "run_by_id d i")
  case None
  with ok show ?thesis by (simp add: finalize_cancel_requested_def advances_refl)
next
  case (Some r)
  have "advances d (update_run i (mark_cancelled now m) d)" if "active r" for m
    using that by (intro advances_update_run [OF ok Some]) (auto simp: active_iff status_reaches_def)
  with Some ok show ?thesis by (simp add: finalize_cancel_requested_def advances_refl)
qed

lemma advances_renew [keeps]:
  assumes ok: "runs_ok d"
  shows "advances d (snd (renew now i owner k d))"
proof (cases "run_by_id d i")
  case None
  with ok show ?thesis by (simp add: renew_def advances_refl)
next
  case (Some r)
  have "advances d (update_run i (\<lambda>r. r\<lparr>r_lease_expires := Some t, r_updated := now\<rparr>) d)"
    if "r_lease_owner r = Some owner" for t
    using that runs_ok_run [OF ok Some]
    by (intro advances_update_run [OF ok Some]) (auto simp: same_identity_def run_ok_def active_def)
  with Some ok show ?thesis by (simp add: renew_def advances_refl)
qed

lemma advances_release [keeps]:
  assumes ok: "runs_ok d" and r: "r \<in> set (runs d)"
  shows "advances d (snd (release now r owner d))"
proof -
  note i = runs_ok_by_id [OF ok r]
  have "advances d (update_run (r_id r) (\<lambda>q. (drop_lease q)\<lparr>r_updated := now\<rparr>) d)"
    using runs_ok_run [OF ok i]
    by (intro advances_update_run [OF ok i])
      (simp_all add: same_identity_def run_ok_def active_def drop_lease_def)
  with ok show ?thesis by (simp add: release_def advances_refl)
qed

lemma advances_request_cancel [keeps]:
  assumes ok: "runs_ok d"
  shows "advances d (snd (request_cancel now actor i d))"
proof (cases "run_by_id d i")
  case None
  with ok show ?thesis by (cases "require_superadmin actor") (simp_all add: request_cancel_def advances_refl)
next
  case (Some r)
  let ?flag = "\<lambda>q. q\<lparr>r_cancel := True, r_updated := now\<rparr>"
  have 1: "advances d (update_run i ?flag d)"
    using runs_ok_run [OF ok Some]
    by (intro advances_update_run [OF ok Some]) (simp_all add: same_identity_def run_ok_def active_def)
  have s: "run_by_id (update_run i ?flag d) i = Some (?flag r)" using Some by simp
  have "advances (update_run i ?flag d) (update_run i (mark_cancelled now m) (update_run i ?flag d))"
    if "active r" for m
    using that by (intro advances_update_run [OF advances_ok [OF 1] s]) (auto simp: active_iff status_reaches_def)
  with 1 have "advances d (update_run i (mark_cancelled now m) (update_run i ?flag d))" if "active r" for m
    using that advances_trans by blast
  with Some ok 1 show ?thesis
    by (cases "require_superadmin actor") (simp_all add: request_cancel_def Let_def advances_refl)
qed

lemma advances_resume_failed:
  assumes ok: "runs_ok d" and res: "resume_failed now r d = (Inr d2, x)"
  shows "advances d d2"
proof -
  from res obtain q where q: "run_by_id d (r_id r) = Some q" "r_status q = Failed" "r_lease_owner q = None"
    and none: "\<not> list_ex (\<lambda>x. active x \<and> r_profile x = r_profile q) (runs d)"
    and d2: "d2 = update_run (r_id r) (resume_run now) d"
    by (auto simp: resume_failed_def split: option.splits if_splits)
  show ?thesis
    unfolding d2 using q none runs_ok_run [OF ok q(1)]
    by (intro advances_update_run [OF ok q(1)])
      (auto simp: same_identity_def run_ok_def active_iff resume_run_def status_reaches_def)
qed

lemma advances_retry_failed [keeps]:
  assumes ok: "runs_ok d" and race: "race_ok (eq_race env) d"
  shows "advances d (snd (retry_failed fenv fs env actor i root d))"
proof -
  note man = advances_enqueue_manual [OF ok race, of actor]
  have man': "advances d d'" if "enqueue_manual env actor p d = (res, d')" for p res d'
    using man [of p] that by simp
  have r: "advances d (eq_race env d)" using ok race by (simp add: race_ok_def)
  have res: "advances d (d2\<lparr>deliveries := x\<rparr>)" if "resume_failed now q (eq_race env d) = (Inr d2, y)" for now q d2 y x
    using advances_trans [OF r advances_resume_failed [OF advances_ok [OF r] that]]
    by (subst advances_frame [of _ d2]) simp_all
  show ?thesis
    using ok r
    by (auto simp: retry_failed_def with_result_def Let_def advances_refl
        intro: man' res split: sum.splits option.splits prod.splits)
qed

lemma advances_purge [keeps]:
  assumes ok: "runs_ok d"
  shows "advances d (fst (snd (purge_failed_artifact env now actor i root (d, fs))))"
proof (cases "details actor i d")
  case (Inl e)
  with ok show ?thesis by (simp add: purge_failed_artifact_def advances_refl)
next
  case (Inr r)
  then have i: "run_by_id d i = Some r" by (auto simp: details_def bind_result_Inr split: option.splits)
  have "advances d (update_run i (\<lambda>q. q\<lparr>r_pending_dir := None, r_cleaned_at := Some now, r_updated := now\<rparr>) d)"
    using runs_ok_run [OF ok i]
    by (intro advances_update_run [OF ok i]) (simp_all add: same_identity_def run_ok_def active_def)
  with Inr ok show ?thesis
    by (auto simp: purge_failed_artifact_def advances_refl split: sum.splits prod.splits)
qed

section \<open>Histories\<close>

text \<open>
  Everything \<^verbatim>\<open>RunService\<close> can do to the runs, in any order and any number of sessions. A
  history is restricted by \<open>may\<close>: which worker may act on a lease at which time. What
  races with an enqueue is itself a history.
\<close>

inductive service_steps :: "(time \<Rightarrow> string \<Rightarrow> bool) \<Rightarrow> db \<Rightarrow> db \<Rightarrow> bool" for may where
  start: "service_steps may d d"
| enqueued_manually: "service_steps may d e \<Longrightarrow> service_steps may e (eq_race env e) \<Longrightarrow>
    service_steps may d (snd (enqueue_manual env actor p e))"
| enqueued_by_schedule: "service_steps may d e \<Longrightarrow> service_steps may e (eq_race env e) \<Longrightarrow>
    service_steps may d (snd (enqueue_scheduled env p slot e))"
| claimed: "service_steps may d e \<Longrightarrow> may now owner \<Longrightarrow> set ss \<subseteq> set active_statuses \<Longrightarrow>
    service_steps may d (snd (claim now owner k ss locked e))"
| cancel_claimed: "service_steps may d e \<Longrightarrow> may now owner \<Longrightarrow>
    service_steps may d (snd (claim_cancel_requested now owner k locked e))"
| cancel_finalized: "service_steps may d e \<Longrightarrow> may now owner \<Longrightarrow>
    service_steps may d (snd (finalize_cancel_requested now i owner e))"
| renewed: "service_steps may d e \<Longrightarrow> may now owner \<Longrightarrow>
    service_steps may d (snd (renew now i owner k e))"
| released: "service_steps may d e \<Longrightarrow> may now owner \<Longrightarrow> r \<in> set (runs e) \<Longrightarrow>
    service_steps may d (snd (release now r owner e))"
| cancel_requested: "service_steps may d e \<Longrightarrow>
    service_steps may d (snd (request_cancel now actor i e))"
| retried: "service_steps may d e \<Longrightarrow> service_steps may e (eq_race env e) \<Longrightarrow>
    service_steps may d (snd (retry_failed fenv fs env actor i root e))"
| purged: "service_steps may d e \<Longrightarrow>
    service_steps may d (fst (snd (purge_failed_artifact fenv now actor i root (e, fs))))"

inductive_cases service_steps_from: "service_steps may d d'"

lemma advances_chain: "advances d e \<Longrightarrow> (runs_ok e \<Longrightarrow> advances e e') \<Longrightarrow> advances d e'"
  by (blast intro: advances_trans advances_ok)

lemma service_steps_advance:
  assumes "service_steps may d d'" and "runs_ok d"
  shows "advances d d'"
  using assms
proof (induction rule: service_steps.induct)
  case (start d)
  then show ?case by (rule advances_refl)
next
  case (enqueued_manually d e env actor p)
  show ?case
    by (rule advances_chain [OF enqueued_manually.IH(1) [OF enqueued_manually.prems]])
      (simp add: advances_enqueue_manual race_ok_def enqueued_manually.IH(2))
next
  case (enqueued_by_schedule d e env p slot)
  show ?case
    by (rule advances_chain [OF enqueued_by_schedule.IH(1) [OF enqueued_by_schedule.prems]])
      (simp add: advances_enqueue_scheduled race_ok_def enqueued_by_schedule.IH(2))
next
  case (retried d e env fenv fs actor i root)
  show ?case
    by (rule advances_chain [OF retried.IH(1) [OF retried.prems]])
      (simp add: advances_retry_failed race_ok_def retried.IH(2))
qed (blast intro: advances_chain keeps)+

text \<open>A worker holds run \<open>i\<close> until the stated time.\<close>

definition held :: "int \<Rightarrow> string \<Rightarrow> time \<Rightarrow> db \<Rightarrow> bool" where
  "held i owner until d \<longleftrightarrow> (case run_by_id d i of
     None \<Rightarrow> False | Some r \<Rightarrow> r_lease_owner r = Some owner \<and> r_lease_expires r = Some until)"

lemma held_iff: "held i owner until d \<longleftrightarrow>
    (\<exists>r. run_by_id d i = Some r \<and> r_lease_owner r = Some owner \<and> r_lease_expires r = Some until)"
  by (simp add: held_def split: option.splits)

lemma held_frame [simp]:
  "held i w u (record_run_transition t j s g c d) = held i w u d"
  "held i w u (audit e a t' j' x d) = held i w u d"
  "held i w u (d\<lparr>deliveries := dl\<rparr>) = held i w u d"
  by (simp_all add: held_def run_by_id_def)

lemma held_update_run:
  assumes "held i w u d" and "\<And>x. r_id (f x) = r_id x"
    and "\<And>r. run_by_id d i = Some r \<Longrightarrow> j = i \<Longrightarrow> r_lease_owner r = Some w \<Longrightarrow> r_lease_expires r = Some u \<Longrightarrow>
      r_lease_owner (f r) = Some w \<and> r_lease_expires (f r) = Some u"
  shows "held i w u (update_run j f d)"
  using assms by (auto simp: held_iff)

lemma held_insert:
  "held i w u d \<Longrightarrow> insert_run r d = (Inr new, d') \<Longrightarrow> held i w u d'"
  by (auto simp: held_iff insert_run_def run_by_id_def Let_def find_append split: if_splits option.splits)

lemma held_record_skipped: "held i w u d \<Longrightarrow> held i w u (snd (record_skipped now z p s d))"
  by (auto simp: record_skipped_def intro: held_insert split: prod.splits sum.splits option.splits)

lemma held_enqueue:
  assumes "held i w u d" and race: "held i w u (eq_race env d)"
  shows "held i w u (snd (enqueue env p t s d))"
  using assms
  by (auto simp: enqueue_def with_result_def Let_def already_active_def
      intro: held_insert held_record_skipped split: sum.splits option.splits prod.splits)

lemma held_enqueue_manual:
  "held i w u d \<Longrightarrow> held i w u (eq_race env d) \<Longrightarrow> held i w u (snd (enqueue_manual env actor p d))"
  using held_enqueue [of i w u d env p TrigManual None]
  by (auto simp: enqueue_manual_def with_result_def split: sum.splits prod.splits)

lemma held_lease_candidate:
  assumes "held i w u d" and "\<And>r. c = Some r \<Longrightarrow> r \<in> set (runs d) \<and> lease_free now r" and "now \<le> u"
    and ok: "runs_ok d"
  shows "held i w u (snd (lease_candidate now owner k c d))"
proof (cases c)
  case None
  with assms(1) show ?thesis by (simp add: lease_candidate_def)
next
  case (Some r)
  with assms(2) ok have r: "run_by_id d (r_id r) = Some r" "lease_free now r"
    by (auto intro: runs_ok_by_id)
  with assms(1,3) have "r_id r \<noteq> i" by (auto simp: held_iff lease_free_def)
  with assms(1) Some show ?thesis by (simp add: lease_candidate_def Let_def held_update_run)
qed

lemma held_claim:
  assumes "held i w u d" "now \<le> u" "runs_ok d"
  shows "held i w u (snd (claim now owner k ss locked d))"
    and "held i w u (snd (claim_cancel_requested now owner k locked d))"
  unfolding claim_def claim_cancel_requested_def
  by (rule held_lease_candidate [OF assms(1) _ assms(2,3)];
      auto simp: claimable_def cancel_claimable_def dest!: first_by_mem)+

lemma held_owner_ops:
  assumes "held i w u d" and "owner \<noteq> w" and ok: "runs_ok d"
  shows "held i w u (snd (finalize_cancel_requested now j owner d))"
    and "held i w u (snd (renew now j owner k d))"
    and "r \<in> set (runs d) \<Longrightarrow> held i w u (snd (release now r owner d))"
proof -
  show "held i w u (snd (finalize_cancel_requested now j owner d))"
    using assms(1,2)
    by (auto simp: finalize_cancel_requested_def mark_cancelled_def drop_lease_def
        intro!: held_update_run split: option.splits)
  show "held i w u (snd (renew now j owner k d))"
    using assms(1,2) by (auto simp: renew_def intro!: held_update_run split: option.splits)
  assume "r \<in> set (runs d)"
  then have "run_by_id d (r_id r) = Some r" by (rule runs_ok_by_id [OF ok])
  with assms(1,2) show "held i w u (snd (release now r owner d))"
    by (auto simp: release_def drop_lease_def intro!: held_update_run)
qed

lemma held_request_cancel:
  assumes "held i w u d"
  shows "held i w u (snd (request_cancel now actor j d))"
proof -
  have 1: "held i w u (update_run j (\<lambda>q. q\<lparr>r_cancel := True, r_updated := now\<rparr>) d)"
    by (rule held_update_run [OF assms]) simp_all
  have 2: "held i w u (update_run j (mark_cancelled now m) (update_run j (\<lambda>q. q\<lparr>r_cancel := True, r_updated := now\<rparr>) d))"
    if "run_by_id d j = Some r" "r_lease_owner r = None" for m r
    by (rule held_update_run [OF 1]) (use that in \<open>auto simp: mark_cancelled_def drop_lease_def\<close>)
  show ?thesis
    using assms 1 2
    by (auto simp: request_cancel_def with_result_def Let_def split: sum.splits option.splits)
qed

lemma held_resume:
  assumes "held i w u d" and "resume_failed now r d = (Inr d2, x)"
  shows "held i w u d2"
  using assms
  by (auto simp: resume_failed_def resume_run_def intro!: held_update_run split: option.splits if_splits)

lemma held_retry:
  assumes "held i w u d" and race: "held i w u (eq_race env d)"
  shows "held i w u (snd (retry_failed fenv fs env actor j root d))"
proof -
  have man: "held i w u d'" if "enqueue_manual env actor p d = (res, d')" for p res d'
    using held_enqueue_manual [OF assms, of actor p] that by simp
  show ?thesis
    using assms
    by (auto simp: retry_failed_def with_result_def Let_def intro: man held_resume
        split: sum.splits option.splits prod.splits)
qed

lemma held_purge:
  "held i w u d \<Longrightarrow> held i w u (fst (snd (purge_failed_artifact env now actor j root (d, fs))))"
  by (auto simp: purge_failed_artifact_def intro!: held_update_run split: sum.splits prod.splits)

text \<open>
  Lease exclusion: while only other workers act, and only up to the expiry of the lease, no
  history of operations takes the lease away, whatever operators do meanwhile.
\<close>

lemma service_steps_held:
  assumes "service_steps (\<lambda>now owner. now \<le> u \<and> owner \<noteq> w) d d'" and "runs_ok d" and "held i w u d"
  shows "held i w u d'"
  using assms
proof (induction rule: service_steps.induct)
  case (claimed d e now owner ss k locked)
  with advances_ok [OF service_steps_advance] show ?case by (simp add: held_claim)
next
  case (cancel_claimed d e now owner k locked)
  with advances_ok [OF service_steps_advance] show ?case by (simp add: held_claim)
next
  case (released d e now owner r)
  with advances_ok [OF service_steps_advance] show ?case by (simp add: held_owner_ops)
next
  case (cancel_finalized d e now owner j)
  with advances_ok [OF service_steps_advance] show ?case by (simp add: held_owner_ops)
next
  case (renewed d e now owner j k)
  with advances_ok [OF service_steps_advance] show ?case by (simp add: held_owner_ops)
next
  case (enqueued_by_schedule d e env p slot)
  have ok: "runs_ok e" by (rule advances_ok [OF service_steps_advance]) (use enqueued_by_schedule in auto)
  show ?case unfolding enqueue_scheduled_def
    by (rule held_enqueue) (use enqueued_by_schedule ok in auto)
next
  case (enqueued_manually d e env actor p)
  have ok: "runs_ok e" by (rule advances_ok [OF service_steps_advance]) (use enqueued_manually in auto)
  show ?case by (rule held_enqueue_manual) (use enqueued_manually ok in auto)
next
  case (retried d e env fenv fs actor i root)
  have ok: "runs_ok e" by (rule advances_ok [OF service_steps_advance]) (use retried in auto)
  show ?case by (rule held_retry) (use retried ok in auto)
qed (auto intro: held_request_cancel held_purge)

section \<open>Properties\<close>

definition demo_env :: enqueue_env where
  "demo_env = \<lparr>eq_now = 5, eq_uuid = ''u-1'', eq_skip_uuid = ''u-2'', eq_race = (\<lambda>d. d)\<rparr>"

definition demo_queued :: db where
  "demo_queued = snd (enqueue_scheduled demo_env 7 3 demo_db)"

lemma demo_ok: "runs_ok demo_db"
  by (simp add: demo_db_def empty_db_def runs_ok_def)

lemma demo_history: "service_steps may demo_db demo_queued"
  unfolding demo_queued_def
  by (rule service_steps.enqueued_by_schedule [OF service_steps.start])
    (simp add: demo_env_def service_steps.start)

definition demo_queued_run :: run where
  "demo_queued_run = (queued_run demo_env demo_db demo_profile 7 TrigScheduled (Some 3))\<lparr>r_id := 1\<rparr>"

lemma demo_enqueue:
  "enqueue_scheduled demo_env 7 3 demo_db = (Inr \<lparr>er_run = demo_queued_run, er_created = True\<rparr>,
     record_run_transition ''queued'' 1 Queued StQueued None
       (demo_db\<lparr>runs := [demo_queued_run], run_seq := 1\<rparr>))"
proof -
  have "enqueuable demo_db 7 = Inr demo_profile"
    by (simp add: enqueuable_def profile_by_id_def demo_db_def) (simp add: demo_profile_def)
  moreover have "runs demo_db = []" "run_seq demo_db = 0" by (simp_all add: demo_db_def empty_db_def)
  moreover have "eq_race demo_env demo_db = demo_db" by (simp add: demo_env_def)
  ultimately show ?thesis
    by (simp add: enqueue_scheduled_def enqueue_def existing_slot_def run_in_slot_def
        active_for_profile_def insert_run_def Let_def demo_queued_run_def)
qed

lemma demo_queued_frame:
  "runs demo_queued = [demo_queued_run]" "profiles demo_queued = [demo_profile]"
  "access demo_queued = access demo_db" "deliveries demo_queued = []"
  by (simp_all add: demo_queued_def demo_enqueue) (simp_all add: demo_db_def empty_db_def)

lemma demo_queued_runs:
  "runs demo_queued = [(queued_run demo_env demo_db demo_profile 7 TrigScheduled (Some 3))\<lparr>r_id := 1\<rparr>]"
  by (simp add: demo_queued_frame demo_queued_run_def)

lemma demo_queued_ok: "runs_ok demo_queued"
  using service_steps_advance [OF demo_history demo_ok] by (rule advances_ok)



text \<open>
  C16. In any history every run keeps its row, identifier, UUID, profile, trigger, scheduled time
  and configuration snapshot, and its status moves along the transitions of the lifecycle only:
  a succeeded, cancelled or skipped run never changes status again.
\<close>

theorem run_history_lifecycle:
  assumes "runs_ok d" and "service_steps may d d'" and "run_by_id d i = Some r"
  shows "\<exists>q. run_by_id d' i = Some q \<and> same_identity r q \<and> lifecycle\<^sup>*\<^sup>* (r_status r) (r_status q) \<and>
    (r_status r \<in> {Succeeded, Cancelled, Skipped} \<longrightarrow> r_status q = r_status r)"
proof -
  have adv: "advances d d'" by (rule service_steps_advance [OF assms(2,1)])
  from run_by_id_Some [OF assms(3)] have r: "r \<in> set (runs d)" "r_id r = i" by auto
  with adv obtain q where q: "q \<in> set (runs d')" "run_evolves r q"
    by (auto simp: advances_def runs_evolve_def)
  then have "r_id q = i" using r by (simp add: run_evolves_def same_identity_def)
  with q runs_ok_by_id [OF advances_ok [OF adv]] have "run_by_id d' i = Some q" by auto
  moreover have "r_status r \<in> {Succeeded, Cancelled, Skipped} \<longrightarrow> r_status q = r_status r"
    using q(2) by (cases "r_status q") (auto simp: run_evolves_def status_reaches_def)
  ultimately show ?thesis
    using q(2) by (auto simp: run_evolves_def status_reaches_rtrancl)
qed

lemma run_history_lifecycle_witness:
  "\<exists>q. run_by_id (snd (request_cancel 9 demo_root 1 demo_queued)) 1 = Some q \<and>
     lifecycle\<^sup>*\<^sup>* Queued (r_status q)"
proof -
  have h: "service_steps (\<lambda>_ _. True) demo_queued (snd (request_cancel 9 demo_root 1 demo_queued))"
    by (rule service_steps.cancel_requested [OF service_steps.start])
  have r: "run_by_id demo_queued 1 = Some (hd (runs demo_queued))"
    by (simp add: run_by_id_def demo_queued_runs)
  show ?thesis
    using run_history_lifecycle [OF demo_queued_ok h r]
    by (auto simp: demo_queued_runs queued_run_def blank_run_def)
qed

text \<open>
  A claim takes the oldest run that is claimable and not locked by another session (no
  unexpired lease, no cancellation request, and for a pending delivery a recipient that is due),
  writes the lease of the claiming worker and touches no other row; it finds nothing exactly
  when there is no such run.
\<close>

theorem claim_takes_oldest:
  assumes "runs_ok d"
  shows "case claim now owner k ss locked d of
    (Some r, d') \<Rightarrow> (\<exists>q. run_by_id d (r_id q) = Some q \<and> claimable d now ss q \<and> r_id q \<notin> set locked \<and>
        (\<forall>x \<in> set (runs d). claimable d now ss x \<and> r_id x \<notin> set locked \<longrightarrow> \<not> created_before x q) \<and>
        r = take_lease now owner k q \<and> run_by_id d' (r_id r) = Some r \<and>
        (\<forall>j. j \<noteq> r_id r \<longrightarrow> run_by_id d' j = run_by_id d j))
  | (None, d') \<Rightarrow> d' = d \<and> (\<forall>x \<in> set (runs d). claimable d now ss x \<longrightarrow> r_id x \<in> set locked)"
proof -
  let ?cs = "filter (\<lambda>r. claimable d now ss r \<and> r_id r \<notin> set locked) (runs d)"
  have mem: "\<And>q. first_by created_before ?cs = Some q \<Longrightarrow> q \<in> set (runs d)"
    by (blast dest: claim_candidate(1))
  show ?thesis
  proof (cases "claim now owner k ss locked d")
    case (Pair res d')
    show ?thesis
    proof (cases res)
      case None
      with Pair have "lease_candidate now owner k (first_by created_before ?cs) d = (None, d')"
        by (simp add: claim_def)
      from lease_candidate_None [OF this mem assms]
      have "first_by created_before ?cs = None \<and> d' = d" .
      then show ?thesis using Pair None by (auto simp: filter_empty_conv)
    next
      case (Some r)
      with Pair have "lease_candidate now owner k (first_by created_before ?cs) d = (Some r, d')"
        by (simp add: claim_def)
      from lease_candidate_Some [OF this mem assms]
      obtain q where q: "first_by created_before ?cs = Some q" "run_by_id d (r_id q) = Some q"
        "r = take_lease now owner k q" "d' = update_run (r_id r) (take_lease now owner k) d"
        by blast
      note c = claim_candidate [OF q(1)]
      have "\<forall>x \<in> set (runs d). claimable d now ss x \<and> r_id x \<notin> set locked \<longrightarrow> \<not> created_before x q"
        using c(4) by blast
      moreover have "run_by_id d' (r_id r) = Some r" "\<forall>j. j \<noteq> r_id r \<longrightarrow> run_by_id d' j = run_by_id d j"
        using q by simp_all
      ultimately show ?thesis unfolding Pair Some using q(2,3) c(2,3) by auto
    qed
  qed
qed

lemma claim_takes_oldest_witness:
  "case claim 6 ''w'' 60 [Queued] [] demo_queued of
     (Some r, d') \<Rightarrow> run_by_id d' (r_id r) = Some r | (None, d') \<Rightarrow> d' = demo_queued"
  using claim_takes_oldest [OF demo_queued_ok, where now = 6 and owner = "''w''" and k = 60 and ss = "[Queued]" and locked = "[]"]
  by (auto split: prod.splits option.splits)




definition demo_taken :: db where
  "demo_taken = snd (claim 6 ''w'' 60 [Queued] [] demo_queued)"

lemma demo_taken_run:
  "runs demo_taken = [take_lease 6 ''w'' 60 (hd (runs demo_queued))]"
  by (simp add: demo_taken_def claim_def lease_candidate_def demo_queued_runs claimable_def
      lease_free_def update_run_def queued_run_def blank_run_def Let_def)

lemma demo_taken_ok: "runs_ok demo_taken"
  unfolding demo_taken_def
  by (rule advances_ok [OF advances_claim [OF demo_queued_ok]]) (simp add: active_statuses_def)


subsection \<open>Enqueueing\<close>

lemma run_in_slot_unique:
  assumes "runs_ok d" and "r \<in> set (runs d)" and "r_scheduled_for r = Some s"
  shows "run_in_slot d (r_profile r) (r_trigger r) (Some s) = Some r"
proof (cases "run_in_slot d (r_profile r) (r_trigger r) (Some s)")
  case None
  with assms(2,3) show ?thesis by (auto simp: run_in_slot_def find_None_iff)
next
  case (Some q)
  then have q: "q \<in> set (runs d)" "same_slot q r"
    using find_SomeD [OF Some [unfolded run_in_slot_def]] assms(3) by (auto simp: same_slot_def)
  with assms(1,2) have "r_id q = r_id r" by (auto simp: runs_ok_def conflicting_def)
  with assms(1,2) q(1) have "q = r" by (auto simp: runs_ok_def dest: distinct_key_eq)
  with Some show ?thesis by simp
qed

definition in_slot :: "int \<Rightarrow> time \<Rightarrow> run \<Rightarrow> bool" where
  "in_slot p s r \<longleftrightarrow> r_profile r = p \<and> r_trigger r = TrigScheduled \<and> r_scheduled_for r = Some s"

lemma run_in_slot_Some:
  "run_in_slot d p TrigScheduled (Some s) = Some r \<Longrightarrow> r \<in> set (runs d) \<and> in_slot p s r"
  by (auto simp: run_in_slot_def in_slot_def dest: find_SomeD)

lemma insert_run_slot:
  "insert_run r d = (Inr new, d') \<Longrightarrow> in_slot p s r \<Longrightarrow> new \<in> set (runs d') \<and> in_slot p s new"
  by (auto simp: insert_run_def in_slot_def Let_def split: if_splits)

lemma slot_of_new_runs:
  "in_slot p s (queued_run env d g p TrigScheduled (Some s))"
  "in_slot p s (skipped_run now u p (Some s))"
  by (simp_all add: in_slot_def queued_run_def skipped_run_def blank_run_def)

lemma already_active_slot:
  "already_active env p TrigScheduled (Some s) q d = (Inr res, d') \<Longrightarrow>
     er_run res \<in> set (runs d') \<and> in_slot p s (er_run res)"
  using insert_run_slot [OF _ slot_of_new_runs(2)] run_in_slot_Some
  by (fastforce simp: already_active_def record_skipped_def split: prod.splits sum.splits option.splits)

lemma enqueue_scheduled_slot:
  assumes "enqueue_scheduled env p s d = (Inr res, d')"
  shows "er_run res \<in> set (runs d') \<and> in_slot p s (er_run res)"
  using assms insert_run_slot [OF _ slot_of_new_runs(1)]
  by (auto simp: enqueue_scheduled_def enqueue_def with_result_def existing_slot_def Let_def
      dest: run_in_slot_Some already_active_slot split: sum.splits option.splits prod.splits)

text \<open>
  Scheduling a slot twice is scheduling it once: after a successful enqueue, whatever it
  raced with and whether it queued or skipped, another enqueue of the same slot returns the run
  already there and writes nothing.
\<close>

theorem scheduled_slot_idempotent:
  assumes "runs_ok d" and "race_ok (eq_race env) d"
    and enq: "enqueue_scheduled env p s d = (Inr res, d')" and "enqueuable d' p = Inr g"
  shows "er_run res \<in> set (runs d') \<and> r_profile (er_run res) = p \<and> r_scheduled_for (er_run res) = Some s \<and>
    enqueue_scheduled env' p s d' = (Inr \<lparr>er_run = er_run res, er_created = False\<rparr>, d')"
proof -
  have ok: "runs_ok d'"
    using advances_enqueue_scheduled [OF assms(1,2), of p s] enq by (auto dest: advances_ok)
  note slot = enqueue_scheduled_slot [OF enq]
  then have "run_in_slot d' p TrigScheduled (Some s) = Some (er_run res)"
    using run_in_slot_unique [OF ok, of "er_run res" s] by (simp add: in_slot_def)
  with slot assms(4) show ?thesis
    by (simp add: in_slot_def enqueue_scheduled_def enqueue_def existing_slot_def)
qed

lemma scheduled_slot_idempotent_witness:
  "snd (enqueue_scheduled (demo_env\<lparr>eq_now := 9\<rparr>) 7 3 demo_queued) = demo_queued"
proof -
  have race: "race_ok (eq_race demo_env) demo_db" by (simp add: race_ok_def demo_env_def advances_refl)
  obtain res where e: "enqueue_scheduled demo_env 7 3 demo_db = (Inr res, demo_queued)"
    by (simp add: demo_queued_def demo_enqueue)
  have g: "enqueuable demo_queued 7 = Inr demo_profile"
    by (simp add: enqueuable_def profile_by_id_def demo_queued_frame) (simp add: demo_profile_def)
  show ?thesis using scheduled_slot_idempotent [OF demo_ok race e g] by simp
qed

text \<open>
  C28. A run that enqueueing creates carries the configuration of that moment: its snapshot
  restores to the enabled, unarchived profile with its sources and related servers, and to the
  assigned administrators in order, while nothing of the run has started.
\<close>

theorem enqueued_run_carries_configuration:
  assumes enq: "enqueue env p t s d = (Inr res, d')" and "er_created res" "r_status (er_run res) = Queued"
    and range: "\<And>g. profile_by_id d p = Some g \<Longrightarrow> \<forall>w \<in> set_option (p_next g). datetime_range w"
  shows "\<exists>g j. profile_by_id d p = Some g \<and> p_enabled g \<and> p_archived_at g = None \<and>
    r_snapshot (er_run res) = Some j \<and> restore_run_config j = Inr (snapshot_view (load_graph d g)) \<and>
    restore_run_admin_ids j = Inr (sort (access_admin_ids d p)) \<and>
    r_started (er_run res) = None \<and> r_lease_owner (er_run res) = None \<and> \<not> r_cancel (er_run res)"
proof -
  have skip: "r_status (er_run x) \<noteq> Queued \<or> \<not> er_created x"
    if "already_active env p t s q e = (Inr x, e')" for q e e' x
    using that by (auto simp: already_active_def record_skipped_def insert_run_def skipped_run_def Let_def
        split: if_splits option.splits)
  from enq obtain g where g: "enqueuable d p = Inr g"
    by (auto simp: enqueue_def with_result_def split: sum.splits)
  then have prof: "profile_by_id d p = Some g" "p_enabled g" "p_archived_at g = None"
    by (auto simp: enqueuable_def split: option.splits if_splits)
  from enq g assms(2,3) skip obtain d2 where
    "insert_run (queued_run env d g p t s) (eq_race env d) = (Inr (er_run res), d2)"
    by (fastforce simp: enqueue_def with_result_def Let_def split: option.splits prod.splits sum.splits)
  then have "er_run res = (queued_run env d g p t s)\<lparr>r_id := run_seq (eq_race env d) + 1\<rparr>"
    by (auto simp: insert_run_def Let_def split: if_splits)
  moreover have "\<And>w. p_next (load_graph d g) = Some w \<Longrightarrow> datetime_range w"
    using range [OF prof(1)] by (simp add: load_graph_def)
  note restore_serialize [OF this]
  moreover have "distinct (access_admin_ids d p)" by (simp add: access_admin_ids_def)
  then have "sort (remdups (access_admin_ids d p)) = sort (access_admin_ids d p)"
    by (simp only: distinct_remdups_id)
  ultimately show ?thesis
    using prof by (simp add: queued_run_def blank_run_def restore_admin_ids)
qed

lemma enqueued_run_carries_configuration_witness:
  "\<exists>j. r_snapshot (hd (runs demo_queued)) = Some j \<and> restore_run_admin_ids j = Inr [2]"
proof -
  let ?res = "\<lparr>er_run = demo_queued_run, er_created = True\<rparr>"
  have e: "enqueue demo_env 7 TrigScheduled (Some 3) demo_db = (Inr ?res, demo_queued)"
    "er_created ?res" "r_status (er_run ?res) = Queued"
    by (simp_all add: demo_queued_def demo_enqueue [unfolded enqueue_scheduled_def] enqueue_scheduled_def)
      (simp add: demo_queued_run_def queued_run_def blank_run_def)
  have "\<And>g. profile_by_id demo_db 7 = Some g \<Longrightarrow> \<forall>w \<in> set_option (p_next g). datetime_range w"
    by (auto simp: profile_by_id_def demo_db_def demo_profile_def datetime_range_def) code_simp+
  from enqueued_run_carries_configuration [OF e(1-3) this] show ?thesis
    by (auto simp: demo_queued_frame access_admin_ids_def demo_db_def)
qed

subsection \<open>Cancelling\<close>

text \<open>
  A superadmin's cancellation of an active run finishes it at once when it is queued and
  unleased, and otherwise sets the flag and leaves its status and lease alone; either way no
  worker can claim it for work any more.
\<close>

theorem request_cancel_effect:
  assumes ok: "runs_ok d" and "require_superadmin actor = Inr u" and i: "run_by_id d i = Some r" "active r"
  shows "\<exists>q. fst (request_cancel now actor i d) = Inr () \<and>
    run_by_id (snd (request_cancel now actor i d)) i = Some q \<and> r_cancel q \<and>
    (if r_status r = Queued \<and> r_lease_owner r = None
     then r_status q = Cancelled \<and> r_finished q = Some now
     else r_status q = r_status r \<and> r_lease_owner q = r_lease_owner r \<and> r_finished q = None) \<and>
    (\<forall>t w k ss locked. case claim t w k ss locked (snd (request_cancel now actor i d)) of
       (Some x, _) \<Rightarrow> r_id x \<noteq> i | (None, _) \<Rightarrow> True)"
proof -
  let ?e = "snd (request_cancel now actor i d)"
  have ok': "runs_ok ?e" by (rule advances_ok [OF advances_request_cancel [OF ok]])
  have "r_finished r = None" using runs_ok_run [OF ok i(1)] i(2) by (simp add: run_ok_def)
  then have "fst (request_cancel now actor i d) = Inr () \<and> (\<exists>q. run_by_id ?e i = Some q \<and> r_cancel q \<and>
    (if r_status r = Queued \<and> r_lease_owner r = None
     then r_status q = Cancelled \<and> r_finished q = Some now
     else r_status q = r_status r \<and> r_lease_owner q = r_lease_owner r \<and> r_finished q = None))"
    using assms(2-4)
    by (cases "r_status r = Queued \<and> r_lease_owner r = None")
      (simp_all add: request_cancel_def Let_def mark_cancelled_def drop_lease_def same_identity_def)
  then obtain q where q: "run_by_id ?e i = Some q" "r_cancel q" "fst (request_cancel now actor i d) = Inr ()"
    "if r_status r = Queued \<and> r_lease_owner r = None
     then r_status q = Cancelled \<and> r_finished q = Some now
     else r_status q = r_status r \<and> r_lease_owner q = r_lease_owner r \<and> r_finished q = None" by blast
  have "case claim t w k ss locked ?e of (Some x, _) \<Rightarrow> r_id x \<noteq> i | (None, _) \<Rightarrow> True" for t w k ss locked
    using claim_takes_oldest [OF ok', where now = t and owner = w and k = k and ss = ss and locked = locked] q
    by (auto simp: claimable_def split: prod.splits option.splits)
  with q show ?thesis by (intro exI [of _ q]) simp
qed

lemma request_cancel_effect_witness:
  "\<exists>q. run_by_id (snd (request_cancel 9 demo_root 1 demo_taken)) 1 = Some q \<and> r_cancel q \<and>
     r_lease_owner q = Some ''w''"
proof -
  have s: "require_superadmin demo_root = Inr ()"
    by (simp add: require_superadmin_def demo_root_def)
  have i: "run_by_id demo_taken 1 = Some (hd (runs demo_taken))" "active (hd (runs demo_taken))"
    by (simp_all add: run_by_id_def demo_taken_run demo_queued_runs queued_run_def blank_run_def active_iff)
  from request_cancel_effect [OF demo_taken_ok s i, of 9] show ?thesis
    by (auto simp: demo_taken_run)
qed

subsection \<open>Retrying and purging\<close>

text \<open>The run whose publication is \<open>demo_finalized\<close>, after its delivery failed.\<close>

definition demo_failed_run :: run where
  "demo_failed_run = (blank_run 0 demo_run_uuid 7 TrigManual None)\<lparr>r_id := 1, r_status := Failed,
     r_stage := StComplete, r_finished := Some 0, r_pending_dir := Some demo_directory,
     r_filename := Some ''data.tar'', r_original_size := Some 3, r_final_size := Some 3,
     r_sha := Some demo_sha, r_error_code := Some ''DELIVERY_ACTION_REQUIRED''\<rparr>"

definition demo_failed_db :: db where
  "demo_failed_db = demo_db\<lparr>runs := [demo_failed_run], run_seq := 1, delivery_seq := 2,
     artifacts := [\<lparr>af_run = 1, af_kind = FinalArtifact, af_path = ''data.tar'', af_size = 3, af_sha = demo_sha\<rparr>],
     deliveries := [
       \<lparr>dl_id = 1, dl_run = 1, dl_admin = 1, dl_status = DelSucceeded, dl_attempts = 1, dl_part_attempts = 1,
        dl_next_part = 2, dl_next_attempt = None, dl_file_id = None, dl_message_id = Some 5,
        dl_delivered = Some 0, dl_error = None\<rparr>,
       \<lparr>dl_id = 2, dl_run = 1, dl_admin = 2, dl_status = DelFailed, dl_attempts = 10, dl_part_attempts = 10,
        dl_next_part = 1, dl_next_attempt = None, dl_file_id = None, dl_message_id = None,
        dl_delivered = None, dl_error = Some ''x''\<rparr>]\<rparr>"

lemma demo_failed_fields:
  "r_id demo_failed_run = 1" "r_status demo_failed_run = Failed" "r_lease_owner demo_failed_run = None"
  "r_pending_dir demo_failed_run = Some demo_directory" "r_profile demo_failed_run = 7"
  "\<not> active demo_failed_run" "runs demo_failed_db = [demo_failed_run]"
  by (simp_all add: demo_failed_run_def demo_failed_db_def blank_run_def active_iff)

lemma demo_failed_by_id: "run_by_id demo_failed_db 1 = Some demo_failed_run"
  by (simp add: run_by_id_def demo_failed_db_def demo_failed_run_def)

lemma demo_resolved: "resolve demo_published demo_directory = demo_directory"
  "resolve demo_published [''pending''] = [''pending'']"
  "node_at demo_published demo_directory = Some Directory"
  "lstat demo_published demo_directory = Some Directory"
  by (simp_all add: resolve_plain lstat_plain demo_published_plain demo_published_nodes)

lemma demo_owned:
  "validate_owned_directory demo_published [''pending''] demo_directory demo_run_uuid = Inr demo_directory"
proof -
  have "canonical_uuid demo_run_uuid = Inr demo_run_uuid" by code_simp
  moreover have "ends_with_uuid (path_name demo_directory) demo_run_uuid" by code_simp
  ultimately show ?thesis
    by (simp add: validate_owned_directory_def demo_resolved Let_def) (simp add: demo_directory_def path_name_def)
qed

lemma demo_verified:
  "verified_retained_artifact demo_file_env demo_published [''pending''] demo_failed_db demo_failed_run =
     Inr demo_finalized"
proof -
  note demo_owned
  moreover have "path_exists demo_published demo_directory" by (simp add: path_exists_def demo_resolved)
  moreover have "recover_finalized demo_file_env demo_published [''pending''] demo_directory demo_run_uuid =
      Inr (Some (demo_finalized, [(''files'', JInt 1)]))"
    by (rule demo_recover)
  moreover have "filename_is_name ''data.tar''" by code_simp
  ultimately show ?thesis
    by (simp add: verified_retained_artifact_def demo_failed_run_def run_matches_manifest_def record_matches_def
        final_artifact_of_def demo_failed_db_def demo_finalized_def text_of_def path_name_def blank_run_def
        demo_sha_def guard_result_def)
qed

text \<open>
  C29. Resuming a failed run is safe: the run was terminally failed with no lease, its retained
  artifact passed every ownership, manifest and record check, and no other run of the profile is
  active. The run then waits for delivery with its failure erased; exactly the deliveries that
  had failed are reset and become due, so no recipient that was already served is served again.
\<close>

theorem retry_resumes_failed_deliveries_only:
  assumes "retry_failed fenv fs env actor i root d = (Inr res, d')" and "rr_resumed res"
  shows "\<exists>r fa. run_by_id d i = Some r \<and> r_status r = Failed \<and> r_lease_owner r = None \<and>
    verified_retained_artifact fenv fs root d r = Inr fa \<and>
    \<not> list_ex (\<lambda>x. active x \<and> r_profile x = r_profile (rr_run res)) (runs (eq_race env d)) \<and>
    run_by_id d' i = Some (rr_run res) \<and> r_status (rr_run res) = DeliveryPending \<and>
    r_finished (rr_run res) = None \<and> r_error_code (rr_run res) = None \<and> \<not> r_cancel (rr_run res) \<and>
    deliveries d' = map (\<lambda>x. if \<exists>y \<in> set (deliveries d). dl_run y = i \<and> dl_status y = DelFailed \<and> dl_id y = dl_id x
       then reset_delivery (eq_now env) x else x) (deliveries (eq_race env d))"
proof -
  from assms obtain r where i: "run_by_id d i = Some r" "require_superadmin actor = Inr ()"
    by (auto simp: retry_failed_def details_def with_result_def bind_result_def split: sum.splits option.splits)
  then have det: "details actor i d = Inr r" by (simp add: details_def)
  have no: "r_status r = Failed" "r_lease_owner r = None" "r_pending_dir r \<noteq> None"
    using assms det
    by (auto simp: retry_failed_def with_result_def split: if_splits sum.splits prod.splits)
  let ?failed = "filter (\<lambda>x. dl_status x = DelFailed) (deliveries_of d i)"
  from assms det no obtain fa d2 y where
    fa: "verified_retained_artifact fenv fs root d r = Inr fa"
    and d2: "resume_failed (eq_now env) r (eq_race env d) = (Inr d2, y)"
    and d': "d' = audit ''backup_run_retry_requested'' (Some (u_id actor)) (Some ''backup_run'')
        (Some (show_int i)) [(''failed_recipients'', JInt (int (length ?failed)))]
        (d2\<lparr>deliveries := update_where (\<lambda>x. dl_id x \<in> dl_id ` set ?failed)
           (reset_delivery (eq_now env)) (deliveries d2)\<rparr>)"
    and res: "run_by_id d' i = Some (rr_run res)"
    by (auto simp: retry_failed_def with_result_def Let_def
        split: if_splits sum.splits prod.splits option.splits)
  have ri: "r_id r = i" using run_by_id_Some [OF i(1)] by simp
  from d2 obtain q where q: "run_by_id (eq_race env d) i = Some q"
    and none: "\<not> list_ex (\<lambda>x. active x \<and> r_profile x = r_profile q) (runs (eq_race env d))"
    and up: "d2 = update_run i (resume_run (eq_now env)) (eq_race env d)"
    by (auto simp: resume_failed_def ri split: option.splits if_splits)
  have "run_by_id d2 i = Some (rr_run res)" using res by (simp add: d' run_by_id_def)
  then have rr: "rr_run res = resume_run (eq_now env) q" using q by (simp add: up resume_run_def)
  have dl: "deliveries d' = map (\<lambda>x. if \<exists>y \<in> set (deliveries d). dl_run y = i \<and> dl_status y = DelFailed \<and> dl_id y = dl_id x
       then reset_delivery (eq_now env) x else x) (deliveries (eq_race env d))"
    by (force simp: d' up update_where_def deliveries_of_def image_iff intro!: map_cong)
  show ?thesis
    using i(1) no fa none res dl by (intro exI [of _ r] exI [of _ fa]) (simp add: rr resume_run_def)
qed

lemma retry_resumes_failed_deliveries_only_witness:
  "\<exists>res d'. retry_failed demo_file_env demo_published demo_env demo_root 1 [''pending''] demo_failed_db =
      (Inr res, d') \<and> map dl_status (deliveries d') = [DelSucceeded, DelPending]"
proof -
  have "details demo_root 1 demo_failed_db = Inr demo_failed_run"
    by (simp add: details_def demo_failed_by_id require_superadmin_def demo_root_def guard_result_def)
  moreover have "filter (\<lambda>x. dl_status x = DelFailed) (deliveries_of demo_failed_db 1) \<noteq> []"
    by (simp add: deliveries_of_def demo_failed_db_def)
  moreover have "active_for_profile demo_failed_db 7 = None"
    by (simp add: active_for_profile_def demo_failed_fields)
  moreover have "resume_failed 5 demo_failed_run demo_failed_db =
      (Inr (update_run 1 (resume_run 5) demo_failed_db), demo_failed_db)"
    by (simp add: resume_failed_def demo_failed_fields demo_failed_by_id)
  moreover have "run_by_id (audit ev ac ty ti x ((update_run 1 (resume_run 5) demo_failed_db)\<lparr>deliveries := dl\<rparr>)) 1 =
      Some (resume_run 5 demo_failed_run)" for ev ac ty ti x dl
    by (simp add: run_by_id_def update_run_def demo_failed_fields resume_run_def)
  ultimately obtain res d' where e: "retry_failed demo_file_env demo_published demo_env demo_root 1 [''pending''] demo_failed_db =
      (Inr res, d')" "rr_resumed res"
    using demo_verified by (simp add: retry_failed_def demo_failed_fields demo_env_def Let_def)
  from retry_resumes_failed_deliveries_only [OF e] obtain r where
    "deliveries d' = map (\<lambda>x. if \<exists>y \<in> set (deliveries demo_failed_db). dl_run y = 1 \<and> dl_status y = DelFailed \<and> dl_id y = dl_id x
       then reset_delivery (eq_now demo_env) x else x) (deliveries (eq_race demo_env demo_failed_db))"
    by blast
  then have "map dl_status (deliveries d') = [DelSucceeded, DelPending]"
    by (simp add: demo_env_def demo_failed_db_def reset_delivery_def)
  with e(1) show ?thesis by simp
qed

text \<open>
  C30. Purging a failed run's artifact removes nothing but that artifact's directory: either the
  call fails and database and files are as before, or the actor is a superadmin, the run was
  terminally failed, its artifact passed every check, everything inside its directory, which
  lies two levels below the delivery root and carries the run's UUID, is gone, and nothing
  outside it changed but the profile directory above it, when that became empty.
\<close>

theorem purge_removes_verified_artifact_only:
  assumes "purge_failed_artifact env now actor i root (d, fs) = (res, d', fs')"
  shows "(res \<noteq> Inr () \<and> d' = d \<and> fs' = fs) \<or>
    (\<exists>r fa profile_dir run_dir. require_superadmin actor = Inr () \<and> run_by_id d i = Some r \<and>
      r_status r = Failed \<and> r_lease_owner r = None \<and> verified_retained_artifact env fs root d r = Inr fa \<and>
      resolve fs (fa_directory fa) = resolve fs root @ [profile_dir, run_dir] \<and> ends_with_uuid run_dir (r_uuid r) \<and>
      (\<forall>q. below (resolve fs (fa_directory fa)) q \<longrightarrow> node_at fs' q = None) \<and>
      (\<forall>q. \<not> below (resolve fs (fa_directory fa)) q \<and> q \<noteq> resolve fs root @ [profile_dir] \<longrightarrow>
         node_at fs' q = node_at fs q) \<and>
      (\<exists>q. run_by_id d' i = Some q \<and> r_status q = Failed \<and> r_pending_dir q = None \<and> r_cleaned_at q = Some now))"
proof (cases "\<exists>r fa fs1. details actor i d = Inr r \<and> r_status r = Failed \<and> r_lease_owner r = None \<and>
    r_pending_dir r \<noteq> None \<and> verified_retained_artifact env fs root d r = Inr fa \<and>
    remove_owned_directory root (fa_directory fa) (r_uuid r) fs = (Inr (), fs1)")
  case True
  then obtain r fa fs1 where r: "details actor i d = Inr r" "r_status r = Failed" "r_lease_owner r = None"
    "r_pending_dir r \<noteq> None" "verified_retained_artifact env fs root d r = Inr fa"
    and rem: "remove_owned_directory root (fa_directory fa) (r_uuid r) fs = (Inr (), fs1)" by blast
  have i: "require_superadmin actor = Inr ()" "run_by_id d i = Some r"
    using r(1) by (auto simp: details_def bind_result_Inr split: option.splits)
  obtain own where own: "validate_owned_directory fs root (fa_directory fa) (r_uuid r) = Inr own"
    using rem by (auto simp: remove_owned_directory_def split: sum.splits)
  from validate_owned_under_root [OF own] validate_owned_shape(1) [OF own] obtain pd rd where
    dir: "resolve fs (fa_directory fa) = resolve fs root @ [pd, rd]" "ends_with_uuid rd (r_uuid r)" by auto
  note gone = remove_owned_directory_gone [OF rem]
    and frame = remove_owned_directory_frame [OF rem, unfolded dir(1), simplified butlast_append, simplified]
  have "fs' = fs1" "\<exists>q. run_by_id d' i = Some q \<and> r_status q = Failed \<and> r_pending_dir q = None \<and> r_cleaned_at q = Some now"
    using assms r rem i by (auto simp: purge_failed_artifact_def remove_verified_retained_artifact_def)
  with r i dir gone frame show ?thesis by (intro disjI2 exI [of _ r] exI [of _ fa] exI [of _ pd] exI [of _ rd]) simp
next
  case False
  have "fs1 = fs" if "remove_owned_directory root p u fs = (Inl e, fs1)" for p u e fs1
    using that by (auto simp: remove_owned_directory_def split: sum.splits if_splits)
  with assms False show ?thesis
    by (auto simp: purge_failed_artifact_def remove_verified_retained_artifact_def
        split: sum.splits if_splits prod.splits)
qed

lemma purge_removes_verified_artifact_only_witness:
  "\<exists>d' fs'. purge_failed_artifact demo_file_env 9 demo_root 1 [''pending''] (demo_failed_db, demo_published) =
      (Inr (), d', fs') \<and> node_at fs' demo_directory = None"
proof -
  have "details demo_root 1 demo_failed_db = Inr demo_failed_run"
    by (simp add: details_def demo_failed_by_id require_superadmin_def demo_root_def guard_result_def)
  moreover have "validate_owned_directory demo_published [''pending''] demo_directory demo_run_uuid = Inr demo_directory"
    by (rule demo_owned)
  ultimately obtain d' fs' where p: "purge_failed_artifact demo_file_env 9 demo_root 1 [''pending'']
      (demo_failed_db, demo_published) = (Inr (), d', fs')"
    using demo_verified
    by (simp add: purge_failed_artifact_def remove_verified_retained_artifact_def remove_owned_directory_def
        demo_failed_run_def demo_finalized_def blank_run_def demo_resolved)
  have "resolve demo_published (fa_directory demo_finalized) = demo_directory"
    by (simp add: demo_finalized_def demo_resolved)
  with purge_removes_verified_artifact_only [OF p] demo_verified demo_failed_by_id
  have "node_at fs' demo_directory = None" by auto
  with p show ?thesis by blast
qed

end
