(* ===== verification/Delivery.thy ===== *)
theory Delivery
  imports Runs
begin

text \<open>
  \<^verbatim>\<open>src/src/pipeline/delivery.py\<close>: sending a finalized artifact, part by part, to the
  recipients of a run, and \<^verbatim>\<open>src/src/infrastructure/telegram/errors.py\<close>, which sorts the
  failures of an upload. The clock, the random jitter, the Telegram client and what other
  sessions commit in the meantime are parameters, indexed by a counter of such events, so that
  every call may behave differently. The caption text is not modelled.

  Other sessions are seen at the cancellation boundaries of the code. The rows of
  \<^verbatim>\<open>backup_deliveries\<close> of a leased run are written by the lease holder alone, so the model
  reads them from the database where the code holds the loaded objects.
\<close>

section \<open>Upload failures\<close>

datatype upload_error_class =
    FloodError "int option"
  | ProxyError "int option"
  | MissingOrForbiddenFile
  | InvalidBufferError "int option"
  | ConnectionTrouble
  | RuntimeTrouble string
  | RPCError "int option"
  | OtherException

record upload_error =
  ue_name :: string
  ue_class :: upload_error_class

datatype delivery_error_kind = TransientKind | PermanentKind | FloodWaitKind

fun error_kind_value :: "delivery_error_kind \<Rightarrow> string" where
  "error_kind_value TransientKind = ''TRANSIENT''"
| "error_kind_value PermanentKind = ''PERMANENT''"
| "error_kind_value FloodWaitKind = ''FLOOD_WAIT''"

interpretation error_kind_enum: str_enum "[TransientKind, PermanentKind, FloodWaitKind]" error_kind_value
proof
  fix e show "e \<in> set [TransientKind, PermanentKind, FloodWaitKind]" by (cases e) simp_all
qed simp

definition contains :: "string \<Rightarrow> string \<Rightarrow> bool" where
  "contains text marker \<longleftrightarrow> list_ex (\<lambda>n. starts_with marker (drop n text)) [0..<Suc (length text)]"

definition reconnect_markers :: "string list" where
  "reconnect_markers = [''Cannot send requests while disconnected'', ''Should not be applying the difference'']"

fun classify_delivery_error :: "upload_error_class \<Rightarrow> delivery_error_kind \<times> int option" where
  "classify_delivery_error (FloodError secs) = (FloodWaitKind, map_option (max 0) secs)"
| "classify_delivery_error (ProxyError code) =
     ((if code \<in> Some ` {1, 3, 4, 5, 6} then TransientKind else PermanentKind), None)"
| "classify_delivery_error MissingOrForbiddenFile = (PermanentKind, None)"
| "classify_delivery_error (InvalidBufferError code) =
     ((if (case code of None \<Rightarrow> True | Some c \<Rightarrow> c \<ge> 500) then TransientKind else PermanentKind), None)"
| "classify_delivery_error ConnectionTrouble = (TransientKind, None)"
| "classify_delivery_error (RuntimeTrouble text) =
     ((if list_ex (contains text) reconnect_markers then TransientKind else PermanentKind), None)"
| "classify_delivery_error (RPCError code) =
     ((if (case code of None \<Rightarrow> 0 | Some c \<Rightarrow> c) \<ge> 500 then TransientKind else PermanentKind), None)"
| "classify_delivery_error OtherException = (PermanentKind, None)"

section \<open>The service and its world\<close>

record telegram_message =
  tm_id :: "int option"
  tm_media :: bool
  tm_file :: "int option"

datatype upload_outcome = Uploaded telegram_message | UploadFailed upload_error | UploadCancelled

datatype upload_source = UploadFile path | ReuseMedia nat

text \<open>
  \<open>dv_jitter n lo hi\<close> is the \<open>n\<close>th draw of \<^verbatim>\<open>uniform(lo, hi)\<close> seconds, in
  microseconds; \<open>dv_others n\<close> is what other sessions commit before the \<open>n\<close>th event.
\<close>

record delivery_env =
  dv_files :: file_env
  dv_clock :: "nat \<Rightarrow> time"
  dv_jitter :: "nat \<Rightarrow> int \<Rightarrow> int \<Rightarrow> int"
  dv_others :: "nat \<Rightarrow> db \<Rightarrow> db"
  dv_send :: "nat \<Rightarrow> int \<Rightarrow> upload_source \<Rightarrow> upload_outcome"
  dv_root :: path
  dv_max_bytes :: int
  dv_max_attempts :: int
  dv_retry_base :: int
  dv_retry_max :: int
  dv_retry_jitter :: int
  dv_retention :: int

text \<open>\<open>ds_sent\<close> records each upload that was started: to whom, which part, in which state.\<close>

record delivery_state =
  ds_db :: db
  ds_fs :: fs
  ds_tick :: nat
  ds_media :: "nat list"
  ds_sent :: "(int \<times> nat \<times> db) list"

type_synonym 'a step = "delivery_state \<Rightarrow> 'a result \<times> delivery_state"

definition bind_step :: "'a step \<Rightarrow> ('a \<Rightarrow> 'b step) \<Rightarrow> 'b step" where
  "bind_step m f s = (case m s of (Inl e, s') \<Rightarrow> (Inl e, s') | (Inr a, s') \<Rightarrow> f a s')"

definition pure :: "'a \<Rightarrow> 'a step" where
  "pure a s = (Inr a, s)"

definition lift_result :: "'a result \<Rightarrow> 'a step" where
  "lift_result r s = (r, s)"

definition asks :: "(db \<Rightarrow> 'a) \<Rightarrow> 'a step" where
  "asks f s = (Inr (f (ds_db s)), s)"

definition writes :: "(db \<Rightarrow> db) \<Rightarrow> unit step" where
  "writes f s = (Inr (), s\<lparr>ds_db := f (ds_db s)\<rparr>)"

definition now_step :: "delivery_env \<Rightarrow> time step" where
  "now_step env s = (Inr (dv_clock env (ds_tick s)), s\<lparr>ds_tick := ds_tick s + 1\<rparr>)"

fun each_step :: "('x \<Rightarrow> unit step) \<Rightarrow> 'x list \<Rightarrow> unit step" where
  "each_step f [] s = (Inr (), s)"
| "each_step f (x # xs) s = bind_step (f x) (\<lambda>_. each_step f xs) s"

text \<open>\<^verbatim>\<open>_cancel_boundary\<close>: other commits become visible, then ownership and cancellation are checked.\<close>

definition cancel_boundary :: "delivery_env \<Rightarrow> int \<Rightarrow> string option \<Rightarrow> bool \<Rightarrow> unit step" where
  "cancel_boundary env run_id owner check_cancel s =
     (let d = dv_others env (ds_tick s) (ds_db s); s' = s\<lparr>ds_db := d, ds_tick := ds_tick s + 1\<rparr>
      in case run_by_id d run_id of
        None \<Rightarrow> (Inl (RuntimeError ''could not refresh instance''), s')
      | Some r \<Rightarrow>
          if r_lease_owner r \<noteq> owner then (Inl (RuntimeError ''run lease ownership lost''), s')
          else if check_cancel \<and> r_cancel r then (Inl CancelledError, s') else (Inr (), s'))"

definition is_due :: "time \<Rightarrow> delivery \<Rightarrow> bool" where
  "is_due now x \<longleftrightarrow> (case dl_next_attempt x of None \<Rightarrow> True | Some t \<Rightarrow> t \<le> now)"

text \<open>\<^verbatim>\<open>_retry_delay\<close>, in microseconds; the jitter is drawn at most once.\<close>

definition retry_delay :: "delivery_env \<Rightarrow> nat \<Rightarrow> int \<Rightarrow> int option \<Rightarrow> int" where
  "retry_delay env tick attempts flood_wait =
     (let exponent = min (attempts - 1) 30;
          delay = min (dv_retry_max env) (dv_retry_base env * 2 ^ nat exponent);
          limit = min (dv_retry_jitter env) (max 0 (dv_retry_max env - delay));
          slack = min (dv_retry_jitter env) (delay - dv_retry_base env);
          jittered = (if limit \<noteq> 0 then seconds delay + dv_jitter env tick 0 limit
            else if delay = dv_retry_max env \<and> dv_retry_jitter env \<noteq> 0
            then seconds delay + dv_jitter env tick (- slack) 0
            else seconds delay)
      in case flood_wait of None \<Rightarrow> jittered | Some w \<Rightarrow> max jittered (seconds w))"

definition next_retry :: "delivery_env \<Rightarrow> int \<Rightarrow> int option \<Rightarrow> time step" where
  "next_retry env attempts flood_wait s =
     (Inr (dv_clock env (ds_tick s) + retry_delay env (ds_tick s) attempts flood_wait),
      s\<lparr>ds_tick := ds_tick s + 1\<rparr>)"

text \<open>
  \<^verbatim>\<open>_refresh_next_scheduled_at\<close> assigns to the profile object. For a run without a snapshot
  that object is the live row, so the assignment reaches the database.
\<close>

definition refresh_next :: "int \<Rightarrow> time \<Rightarrow> profile \<Rightarrow> profile" where
  "refresh_next profile_id reference p =
     p\<lparr>p_next := (case p_next p of None \<Rightarrow> None | Some t \<Rightarrow> if t > reference then Some t else None)\<rparr>"

definition delivery_profile :: "delivery_env \<Rightarrow> run \<Rightarrow> unit step" where
  "delivery_profile env r =
     (case r_snapshot r of
        Some j \<Rightarrow> bind_step (lift_result (restore_run_config j)) (\<lambda>_. bind_step (now_step env) (\<lambda>_. pure ()))
      | None \<Rightarrow>
          bind_step (asks (\<lambda>d. profile_by_id d (r_profile r))) (\<lambda>p.
            case p of
              None \<Rightarrow> lift_result (Inl (ValueError ''run profile is unavailable''))
            | Some _ \<Rightarrow> bind_step (now_step env) (\<lambda>now.
                writes (update_profile (r_profile r) (refresh_next (r_profile r) now)))))"

section \<open>Recipients\<close>

definition assigned_ids :: "db \<Rightarrow> run \<Rightarrow> int list result" where
  "assigned_ids d r =
     (let live = access_admin_ids d (r_profile r)
      in case r_snapshot r of
        None \<Rightarrow> Inr live
      | Some j \<Rightarrow> bind_result (restore_run_admin_ids j) (\<lambda>ids. Inr (filter (\<lambda>i. i \<in> set live) ids)))"

text \<open>The selected users, as loaded: enabled superadmins and enabled assigned admins.\<close>

definition selected_users :: "db \<Rightarrow> int list \<Rightarrow> user list" where
  "selected_users d assigned =
     filter (\<lambda>u. u_enabled u \<and> u_deleted u = None \<and>
       (u_role u = Superadmin \<or> (u_role u = Admin \<and> u_id u \<in> set assigned))) (users d)"

definition selected_ids :: "user list \<Rightarrow> int list" where
  "selected_ids us = sort (remdups (map u_id us))"

definition revoke_unselected :: "int \<Rightarrow> int list \<Rightarrow> db \<Rightarrow> db" where
  "revoke_unselected run_id ids d = d\<lparr>deliveries := update_where
     (\<lambda>x. dl_run x = run_id \<and> dl_admin x \<notin> set ids \<and> dl_status x \<noteq> DelSucceeded)
     (\<lambda>x. x\<lparr>dl_status := DelSkipped, dl_next_attempt := None, dl_error := Some ''assignment revoked''\<rparr>)
     (deliveries d)\<rparr>"

definition new_delivery :: "int \<Rightarrow> time \<Rightarrow> int \<Rightarrow> int \<Rightarrow> delivery" where
  "new_delivery run_id now key admin =
     \<lparr>dl_id = key, dl_run = run_id, dl_admin = admin, dl_status = DelPending, dl_attempts = 0,
      dl_part_attempts = 0, dl_next_part = 1, dl_next_attempt = Some now, dl_file_id = None,
      dl_message_id = None, dl_delivered = None, dl_error = None\<rparr>"

definition add_recipient :: "int \<Rightarrow> time \<Rightarrow> int \<Rightarrow> db \<Rightarrow> db" where
  "add_recipient run_id now admin d =
     (if list_ex (\<lambda>x. dl_admin x = admin) (deliveries_of d run_id) then d
      else d\<lparr>deliveries := deliveries d @ [new_delivery run_id now (delivery_seq d + 1) admin],
             delivery_seq := delivery_seq d + 1\<rparr>)"

definition delivery_for :: "db \<Rightarrow> int \<Rightarrow> int \<Rightarrow> delivery option" where
  "delivery_for d run_id admin = find (\<lambda>x. dl_run x = run_id \<and> dl_admin x = admin) (deliveries d)"

text \<open>
  The authorization check before a recipient is served. A superadmin is judged by the user
  object loaded when the recipients were selected, which the session still holds; an admin by a
  fresh query.
\<close>

definition authorized_user :: "user list \<Rightarrow> db \<Rightarrow> int \<Rightarrow> int \<Rightarrow> user option" where
  "authorized_user loaded d admin profile_id =
     (case find (\<lambda>u. u_id u = admin) loaded of
        None \<Rightarrow> None
      | Some u \<Rightarrow>
          if u_role u = Superadmin \<and> u_enabled u \<and> u_deleted u = None then Some u
          else if u_role u = Admin then authorized_recipient d (u_telegram u) profile_id
          else None)"

section \<open>Serving one recipient\<close>

definition set_stage :: "int \<Rightarrow> run_stage \<Rightarrow> db \<Rightarrow> db" where
  "set_stage run_id stage d = update_run run_id (\<lambda>r. r\<lparr>r_stage := stage\<rparr>) d"

text \<open>A commit inside the loop also flushes the stage set before it.\<close>

definition save_delivery :: "int \<Rightarrow> int \<Rightarrow> (delivery \<Rightarrow> delivery) \<Rightarrow> unit step" where
  "save_delivery run_id key f =
     writes (\<lambda>d. update_delivery key f (set_stage run_id StTelegramDelivery d))"

definition begin_attempt :: "time \<Rightarrow> delivery \<Rightarrow> delivery" where
  "begin_attempt retry_at x = x\<lparr>dl_attempts := dl_attempts x + 1, dl_part_attempts := dl_part_attempts x + 1,
     dl_next_attempt := Some retry_at\<rparr>"

definition part_acknowledged :: "nat \<Rightarrow> telegram_message \<Rightarrow> time \<Rightarrow> delivery \<Rightarrow> delivery" where
  "part_acknowledged number msg now x = x\<lparr>dl_next_part := int number + 1, dl_part_attempts := 0,
     dl_message_id := tm_id msg,
     dl_file_id := map_option show_int (if tm_media msg then tm_file msg else None),
     dl_error := None, dl_next_attempt := Some now\<rparr>"

definition give_up :: "string \<Rightarrow> delivery \<Rightarrow> delivery" where
  "give_up reason x = x\<lparr>dl_status := DelFailed, dl_next_attempt := None, dl_error := Some reason\<rparr>"

definition retry_later :: "string \<Rightarrow> time \<Rightarrow> delivery \<Rightarrow> delivery" where
  "retry_later reason t x = x\<lparr>dl_next_attempt := Some t, dl_error := Some reason\<rparr>"

definition skip_recipient :: "delivery \<Rightarrow> delivery" where
  "skip_recipient x = x\<lparr>dl_status := DelSkipped, dl_next_attempt := None,
     dl_error := Some ''recipient authorization revoked''\<rparr>"

definition delivered :: "time \<Rightarrow> delivery \<Rightarrow> delivery" where
  "delivered now x = x\<lparr>dl_status := DelSucceeded, dl_next_attempt := None, dl_delivered := Some now\<rparr>"

text \<open>The upload itself: a part whose media was already uploaded in this attempt is reused.\<close>

definition send_part :: "delivery_env \<Rightarrow> user \<Rightarrow> artifact_part \<Rightarrow> upload_outcome step" where
  "send_part env u part s =
     (let source = (if ap_number part \<in> set (ds_media s) then ReuseMedia (ap_number part)
            else UploadFile (ap_path part))
      in (Inr (dv_send env (ds_tick s) (u_telegram u) source),
          s\<lparr>ds_tick := ds_tick s + 1, ds_sent := ds_sent s @ [(u_telegram u, ap_number part, ds_db s)]\<rparr>))"

definition remember_media :: "nat \<Rightarrow> telegram_message \<Rightarrow> unit step" where
  "remember_media number msg s =
     (Inr (), if tm_media msg then s\<lparr>ds_media := number # ds_media s\<rparr> else s)"

text \<open>
  What follows an upload: a failure is classified and either ends the delivery or schedules a
  retry, and the loop over the parts stops; an acknowledged part is recorded once ownership is
  confirmed, even when a cancellation arrived meanwhile, and the loop goes on.
\<close>

definition after_upload ::
  "delivery_env \<Rightarrow> int \<Rightarrow> string option \<Rightarrow> delivery \<Rightarrow> artifact_part \<Rightarrow> upload_outcome \<Rightarrow> bool step" where
  "after_upload env run_id owner x part outcome =
     (case outcome of
         UploadCancelled \<Rightarrow> lift_result (Inl CancelledError)
       | UploadFailed err \<Rightarrow>
           bind_step (cancel_boundary env run_id owner True) (\<lambda>_.
             let (kind, flood) = classify_delivery_error (ue_class err);
                 reason = error_kind_value kind @ '':'' @ ue_name err
             in if kind = PermanentKind \<or> dl_part_attempts x + 1 \<ge> dv_max_attempts env
                then bind_step (save_delivery run_id (dl_id x) (give_up reason)) (\<lambda>_. pure False)
                else bind_step (next_retry env (dl_part_attempts x + 1) flood) (\<lambda>t.
                     bind_step (save_delivery run_id (dl_id x) (retry_later reason t)) (\<lambda>_. pure False)))
       | Uploaded msg \<Rightarrow>
           bind_step (cancel_boundary env run_id owner False) (\<lambda>_.
           bind_step (remember_media (ap_number part) msg) (\<lambda>_.
           bind_step (now_step env) (\<lambda>now.
           bind_step (save_delivery run_id (dl_id x) (part_acknowledged (ap_number part) msg now)) (\<lambda>_.
             pure True)))))"

text \<open>One part for one recipient. The result says whether the loop over the parts goes on.\<close>

definition deliver_part ::
  "delivery_env \<Rightarrow> int \<Rightarrow> string option \<Rightarrow> user \<Rightarrow> int \<Rightarrow> artifact_part \<Rightarrow> bool step" where
  "deliver_part env run_id owner u key part =
     bind_step (cancel_boundary env run_id owner True) (\<lambda>_.
     bind_step (asks (\<lambda>d. find (\<lambda>x. dl_id x = key) (deliveries d))) (\<lambda>row.
       case row of None \<Rightarrow> lift_result (Inl (RuntimeError ''delivery row is gone'')) | Some x \<Rightarrow>
     bind_step (next_retry env (dl_part_attempts x + 1) None) (\<lambda>retry_at.
     bind_step (save_delivery run_id key (begin_attempt retry_at)) (\<lambda>_.
     bind_step (send_part env u part) (after_upload env run_id owner x part)))))"

fun deliver_parts ::
  "delivery_env \<Rightarrow> int \<Rightarrow> string option \<Rightarrow> user \<Rightarrow> int \<Rightarrow> artifact_part list \<Rightarrow> unit step" where
  "deliver_parts env run_id owner u key [] s = (Inr (), s)"
| "deliver_parts env run_id owner u key (part # parts) s =
     bind_step (deliver_part env run_id owner u key part)
       (\<lambda>go_on. if go_on then deliver_parts env run_id owner u key parts else pure ()) s"

definition deliver_to ::
  "delivery_env \<Rightarrow> run \<Rightarrow> string option \<Rightarrow> artifact_part list \<Rightarrow> user list \<Rightarrow> int \<Rightarrow> unit step" where
  "deliver_to env r owner parts loaded admin =
     bind_step (cancel_boundary env (r_id r) owner True) (\<lambda>_.
     bind_step (asks (\<lambda>d. delivery_for d (r_id r) admin)) (\<lambda>row.
       case row of None \<Rightarrow> lift_result (Inl (KeyError ''delivery'')) | Some x \<Rightarrow>
       if dl_status x \<noteq> DelPending then pure ()
       else bind_step (now_step env) (\<lambda>now.
       if \<not> is_due now x then pure ()
       else if dl_part_attempts x \<ge> dv_max_attempts env
       then save_delivery (r_id r) (dl_id x) (give_up ''PERMANENT:MAX_ATTEMPTS'')
       else bind_step (asks (\<lambda>d. authorized_user loaded d admin (r_profile r))) (\<lambda>auth.
         case auth of
           None \<Rightarrow> save_delivery (r_id r) (dl_id x) skip_recipient
         | Some u \<Rightarrow>
             bind_step (deliver_parts env (r_id r) owner u (dl_id x) (drop (nat (dl_next_part x - 1)) parts)) (\<lambda>_.
             bind_step (asks (\<lambda>d. find (\<lambda>y. dl_id y = dl_id x) (deliveries d))) (\<lambda>after_row.
               case after_row of None \<Rightarrow> pure () | Some y \<Rightarrow>
               if dl_next_part y > int (length parts)
               then bind_step (now_step env) (\<lambda>t. save_delivery (r_id r) (dl_id x) (delivered t))
               else pure ()))))))"

section \<open>Finishing a run\<close>

definition finish_run :: "delivery_env \<Rightarrow> time \<Rightarrow> run_status \<Rightarrow> string option \<Rightarrow> run \<Rightarrow> run" where
  "finish_run env now status code r = (drop_lease r)\<lparr>r_status := status,
     r_stage := (if status = Failed then StComplete else StCleanup), r_finished := Some now,
     r_error_code := code,
     r_error_message := (if code = None then None
       else Some ''automatic Telegram delivery stopped; operator action required''),
     r_cleanup_at := (if status = Failed then Some (now + seconds (dv_retention env)) else None),
     r_updated := now\<rparr>"

definition finish :: "delivery_env \<Rightarrow> int \<Rightarrow> string option \<Rightarrow> run_status \<Rightarrow> string option \<Rightarrow> unit step" where
  "finish env run_id owner status code =
     bind_step (now_step env) (\<lambda>now.
     bind_step (asks (\<lambda>d. run_by_id d run_id)) (\<lambda>row.
       if (case row of None \<Rightarrow> False
           | Some q \<Rightarrow> r_status q = DeliveryPending \<and> \<not> r_cancel q \<and> r_lease_owner q = owner)
       then writes (\<lambda>d. record_run_transition (if status = Failed then ''failed'' else ''succeeded'') run_id
              status (if status = Failed then StComplete else StCleanup) code
              (update_run run_id (finish_run env now status code) d))
       else bind_step (cancel_boundary env run_id owner True) (\<lambda>_.
              lift_result (Inl (RuntimeError ''run lease ownership lost'')))))"

definition discard_spool :: "delivery_env \<Rightarrow> path \<Rightarrow> string \<Rightarrow> unit step" where
  "discard_spool env pending uuid s =
     (case remove_owned_directory (dv_root env) pending uuid (ds_fs s) of
        (res, fs') \<Rightarrow> (res, s\<lparr>ds_fs := fs'\<rparr>))"

definition conclude :: "delivery_env \<Rightarrow> run \<Rightarrow> string option \<Rightarrow> path \<Rightarrow> bool step" where
  "conclude env r owner pending =
     bind_step (cancel_boundary env (r_id r) owner True) (\<lambda>_.
     bind_step (asks (\<lambda>d. deliveries_of d (r_id r))) (\<lambda>rows.
       if list_ex (\<lambda>x. dl_status x = DelPending) rows
       then bind_step (writes (update_run (r_id r) (\<lambda>q. (drop_lease q)\<lparr>r_status := DeliveryPending,
              r_stage := StPendingDelivery\<rparr>))) (\<lambda>_. pure False)
       else if list_ex (\<lambda>x. dl_status x = DelFailed) rows
       then bind_step (finish env (r_id r) owner Failed (Some ''DELIVERY_ACTION_REQUIRED'')) (\<lambda>_. pure False)
       else bind_step (finish env (r_id r) owner Succeeded None) (\<lambda>_.
            bind_step (discard_spool env pending (r_uuid r)) (\<lambda>_.
            bind_step (writes (update_run (r_id r) (\<lambda>q. q\<lparr>r_pending_dir := None, r_stage := StComplete\<rparr>)))
              (\<lambda>_. pure True)))))"

text \<open>\<^verbatim>\<open>attempt\<close>, on the run object as loaded.\<close>

definition prepare_recipients :: "delivery_env \<Rightarrow> run \<Rightarrow> user list step" where
  "prepare_recipients env r =
     bind_step (asks (\<lambda>d. assigned_ids d r)) (\<lambda>ids.
     bind_step (lift_result ids) (\<lambda>assigned.
     bind_step (asks (\<lambda>d. selected_users d assigned)) (\<lambda>us.
     bind_step (now_step env) (\<lambda>now.
     bind_step (writes (\<lambda>d. fold (add_recipient (r_id r) now) (selected_ids us)
         (revoke_unselected (r_id r) (selected_ids us) d))) (\<lambda>_. pure us)))))"

definition attempt :: "delivery_env \<Rightarrow> run \<Rightarrow> bool step" where
  "attempt env r =
     (let owner = r_lease_owner r in
      bind_step (cancel_boundary env (r_id r) owner True) (\<lambda>_.
      case (r_pending_dir r, r_final_size r) of
        (Some pending, Some sz) \<Rightarrow>
          if text_of (r_filename r) = [] \<or> text_of (r_sha r) = []
          then lift_result (Inl (ValueError ''run has no finalized artifact''))
          else bind_step (delivery_profile env r) (\<lambda>_.
               bind_step (\<lambda>s. (delivery_artifacts (dv_files env) (ds_fs s) pending (text_of (r_filename r)) sz
                  (text_of (r_sha r)), s)) (\<lambda>parts.
               if list_ex (\<lambda>p. int (ap_size p) > dv_max_bytes env) parts
               then lift_result (Inl (PipelineError ''UPLOAD_LIMIT''
                 ''artifact part exceeds the configured Telegram upload limit''))
               else bind_step (prepare_recipients env r) (\<lambda>us.
                    bind_step (cancel_boundary env (r_id r) owner True) (\<lambda>_.
                    bind_step (each_step (deliver_to env r owner parts us) (selected_ids us)) (\<lambda>_.
                      conclude env r owner pending)))))
      | _ \<Rightarrow> lift_result (Inl (ValueError ''run has no finalized artifact''))))"

section \<open>Reasoning about steps\<close>

text \<open>
  \<open>triple P m Q E\<close>: from a state with \<open>P\<close>, the step either returns a value and a state
  related by \<open>Q\<close>, or raises in a state with \<open>E\<close>. \<open>keeps_step I m\<close> is the case of one
  invariant throughout.
\<close>

definition triple ::
  "(delivery_state \<Rightarrow> bool) \<Rightarrow> 'a step \<Rightarrow> ('a \<Rightarrow> delivery_state \<Rightarrow> bool) \<Rightarrow> (delivery_state \<Rightarrow> bool) \<Rightarrow> bool" where
  "triple P m Q E \<longleftrightarrow> (\<forall>s. P s \<longrightarrow> (case m s of (Inl e, s') \<Rightarrow> E s' | (Inr a, s') \<Rightarrow> Q a s'))"

definition keeps_step :: "(delivery_state \<Rightarrow> bool) \<Rightarrow> 'a step \<Rightarrow> bool" where
  "keeps_step I m \<longleftrightarrow> triple I m (\<lambda>_. I) I"

lemma triple_bind:
  "triple P m R E \<Longrightarrow> (\<And>a. triple (R a) (f a) Q E) \<Longrightarrow> triple P (bind_step m f) Q E"
  by (fastforce simp: triple_def bind_step_def split: prod.splits sum.splits)

lemma triple_weaken:
  "triple P m Q E \<Longrightarrow> (\<And>s. P' s \<Longrightarrow> P s) \<Longrightarrow> (\<And>a s. Q a s \<Longrightarrow> Q' a s) \<Longrightarrow> (\<And>s. E s \<Longrightarrow> E' s) \<Longrightarrow> triple P' m Q' E'"
  by (fastforce simp: triple_def split: prod.splits sum.splits)

lemma triple_each:
  "(\<And>x. x \<in> set xs \<Longrightarrow> keeps_step I (f x)) \<Longrightarrow> keeps_step I (each_step f xs)"
proof (induction xs)
  case Nil
  then show ?case by (simp add: keeps_step_def triple_def)
next
  case (Cons x xs)
  then have "keeps_step I (f x)" "keeps_step I (each_step f xs)" by simp_all
  then have "triple I (bind_step (f x) (\<lambda>_. each_step f xs)) (\<lambda>_. I) I"
    unfolding keeps_step_def by (rule triple_bind)
  then show ?case by (simp add: keeps_step_def triple_def)
qed

lemma keeps_bind: "keeps_step I m \<Longrightarrow> (\<And>a. keeps_step I (f a)) \<Longrightarrow> keeps_step I (bind_step m f)"
  unfolding keeps_step_def by (rule triple_bind)

lemma keeps_step_snd: "keeps_step I m \<Longrightarrow> I s \<Longrightarrow> I (snd (m s))"
  by (cases "m s"; cases "fst (m s)") (auto simp: keeps_step_def triple_def)

lemma keeps_simple:
  "keeps_step I (pure a)" "keeps_step I (lift_result r)" "keeps_step I (asks g)"
  by (auto simp: keeps_step_def triple_def pure_def lift_result_def asks_def split: sum.splits)

lemma keeps_now: "(\<And>s. I s \<Longrightarrow> I (s\<lparr>ds_tick := ds_tick s + 1\<rparr>)) \<Longrightarrow> keeps_step I (now_step env)"
  "(\<And>s. I s \<Longrightarrow> I (s\<lparr>ds_tick := ds_tick s + 1\<rparr>)) \<Longrightarrow> keeps_step I (next_retry env k w)"
  by (simp_all add: keeps_step_def triple_def now_step_def next_retry_def)

lemma keeps_writes: "(\<And>s. I s \<Longrightarrow> I (s\<lparr>ds_db := f (ds_db s)\<rparr>)) \<Longrightarrow> keeps_step I (writes f)"
  by (simp add: keeps_step_def triple_def writes_def)

lemma keeps_boundary:
  "(\<And>s. I s \<Longrightarrow> I (s\<lparr>ds_db := dv_others env (ds_tick s) (ds_db s), ds_tick := ds_tick s + 1\<rparr>)) \<Longrightarrow>
     keeps_step I (cancel_boundary env i owner c)"
  by (simp add: keeps_step_def triple_def cancel_boundary_def Let_def split: option.splits)

text \<open>After a boundary the caller holds the lease, and unless it did not ask, nobody cancelled.\<close>

definition leased :: "int \<Rightarrow> string option \<Rightarrow> delivery_state \<Rightarrow> bool" where
  "leased i owner s \<longleftrightarrow> (case run_by_id (ds_db s) i of None \<Rightarrow> False | Some r \<Rightarrow> r_lease_owner r = owner)"

lemma triple_boundary:
  assumes "\<And>s. I s \<Longrightarrow> I (s\<lparr>ds_db := dv_others env (ds_tick s) (ds_db s), ds_tick := ds_tick s + 1\<rparr>)"
  shows "triple I (cancel_boundary env i owner c) (\<lambda>_ s. I s \<and> leased i owner s) I"
  using assms by (simp add: triple_def cancel_boundary_def leased_def Let_def split: option.splits)

subsection \<open>The runs\<close>

definition others_advance :: "delivery_env \<Rightarrow> bool" where
  "others_advance env \<longleftrightarrow> (\<forall>n d. runs_ok d \<longrightarrow> advances d (dv_others env n d))"

definition runs_since :: "db \<Rightarrow> delivery_state \<Rightarrow> bool" where
  "runs_since d0 s \<longleftrightarrow> advances d0 (ds_db s)"

lemma runs_since_frame [simp]:
  "runs_since d0 (s\<lparr>ds_tick := n\<rparr>) = runs_since d0 s" "runs_since d0 (s\<lparr>ds_fs := f\<rparr>) = runs_since d0 s"
  "runs_since d0 (s\<lparr>ds_media := m\<rparr>) = runs_since d0 s" "runs_since d0 (s\<lparr>ds_sent := l\<rparr>) = runs_since d0 s"
  "runs_since d0 (s\<lparr>ds_db := d\<rparr>) = advances d0 d"
  by (simp_all add: runs_since_def)

lemma runs_since_others:
  "others_advance env \<Longrightarrow> runs_since d0 s \<Longrightarrow>
     runs_since d0 (s\<lparr>ds_db := dv_others env (ds_tick s) (ds_db s), ds_tick := ds_tick s + 1\<rparr>)"
  by (auto simp: others_advance_def runs_since_def intro: advances_trans dest: advances_ok)

lemma advances_update_row:
  assumes "advances d0 d" and "\<And>x. same_identity x (f x)"
    and "\<And>x. r_status (f x) = r_status x \<and> r_finished (f x) = r_finished x \<and>
      r_lease_owner (f x) = r_lease_owner x \<and> r_lease_expires (f x) = r_lease_expires x"
  shows "advances d0 (update_run i f d)"
proof (cases "run_by_id d i")
  case None
  then have "runs (update_run i f d) = runs d"
    by (auto simp: update_run_def run_by_id_None update_where_none)
  with assms(1) show ?thesis by (subst advances_frame) simp_all
next
  case (Some r)
  have ok: "runs_ok d" using assms(1) by (rule advances_ok)
  have "advances d (update_run i f d)"
    using assms(3) runs_ok_run [OF ok Some]
    by (intro advances_update_run [OF ok Some assms(2)]) (simp_all add: run_ok_def active_def)
  with assms(1) show ?thesis by (rule advances_trans)
qed

lemma advances_other_tables [simp]:
  "advances d0 (update_delivery k f d) \<longleftrightarrow> advances d0 d"
  "advances d0 (update_profile k g d) \<longleftrightarrow> advances d0 d"
  "advances d0 (revoke_unselected k ids d) \<longleftrightarrow> advances d0 d"
  "advances d0 (add_recipient k now a d) \<longleftrightarrow> advances d0 d"
  by (rule advances_frame;
      simp add: update_delivery_def update_profile_def revoke_unselected_def add_recipient_def)+

lemma advances_add_recipients [simp]:
  "advances d0 (fold (add_recipient k now) as d) \<longleftrightarrow> advances d0 d"
  by (induction as arbitrary: d) simp_all

lemma advances_set_stage: "advances d0 d \<Longrightarrow> advances d0 (set_stage i st d)"
  unfolding set_stage_def by (rule advances_update_row) (simp_all add: same_identity_def)

lemma runs_since_steps:
  "keeps_step (runs_since d0) (now_step env)" "keeps_step (runs_since d0) (next_retry env k w)"
  "keeps_step (runs_since d0) (save_delivery i key f)" "keeps_step (runs_since d0) (send_part env u part)"
  "keeps_step (runs_since d0) (remember_media n msg)" "keeps_step (runs_since d0) (discard_spool env pd uuid)"
  "keeps_step (runs_since d0) (writes (update_profile k g))"
  "keeps_step (runs_since d0) (\<lambda>s. (res s, s))"
  by (auto intro!: keeps_now keeps_writes advances_set_stage simp: save_delivery_def runs_since_def)
    (auto simp: keeps_step_def triple_def send_part_def remember_media_def discard_spool_def Let_def runs_since_def
      split: prod.splits sum.splits)

lemmas keeps_rules = keeps_bind keeps_simple runs_since_steps triple_each

lemma keeps_runs_boundary:
  "others_advance env \<Longrightarrow> keeps_step (runs_since d0) (cancel_boundary env i owner c)"
  by (rule keeps_boundary) (rule runs_since_others)

lemma keeps_runs_deliver_part:
  "others_advance env \<Longrightarrow> keeps_step (runs_since d0) (deliver_part env i owner u key part)"
  unfolding deliver_part_def after_upload_def
  by (auto simp: Let_def split: option.splits upload_outcome.splits prod.splits
      intro!: keeps_rules keeps_runs_boundary)

lemma keeps_runs_deliver_parts:
  assumes "others_advance env"
  shows "keeps_step (runs_since d0) (deliver_parts env i owner u key parts)"
proof (induction parts)
  case Nil
  then show ?case by (simp add: keeps_step_def triple_def)
next
  case (Cons part parts)
  have "deliver_parts env i owner u key (part # parts) = bind_step (deliver_part env i owner u key part)
      (\<lambda>go_on. if go_on then deliver_parts env i owner u key parts else pure ())"
    by (rule ext) simp
  with Cons assms show ?case by (simp add: keeps_rules keeps_runs_deliver_part)
qed

lemma keeps_runs_deliver_to:
  "others_advance env \<Longrightarrow> keeps_step (runs_since d0) (deliver_to env r owner parts loaded admin)"
  unfolding deliver_to_def
  by (auto split: option.splits intro!: keeps_rules keeps_runs_boundary keeps_runs_deliver_parts)

lemma keeps_runs_prepare:
  "keeps_step (runs_since d0) (prepare_recipients env r)" "keeps_step (runs_since d0) (delivery_profile env r)"
  unfolding prepare_recipients_def delivery_profile_def
  by (auto split: option.splits intro!: keeps_rules) (auto intro!: keeps_writes simp: runs_since_def)

lemma leased_active:
  "leased i (Some w) s \<Longrightarrow> runs_ok (ds_db s) \<Longrightarrow>
     \<exists>q. run_by_id (ds_db s) i = Some q \<and> active q \<and> r_lease_owner q = Some w \<and> r_finished q = None"
  using runs_ok_run [of "ds_db s" i] by (fastforce simp: leased_def run_ok_def split: option.splits)

lemma advances_release_pending:
  assumes "advances d0 (ds_db s)" and "leased i (Some w) s"
  shows "advances d0 (update_run i (\<lambda>q. (drop_lease q)\<lparr>r_status := DeliveryPending, r_stage := StPendingDelivery\<rparr>) (ds_db s))"
proof -
  have ok: "runs_ok (ds_db s)" using assms(1) by (rule advances_ok)
  from leased_active [OF assms(2) ok] obtain q where
    q: "run_by_id (ds_db s) i = Some q" "active q" "r_finished q = None" by blast
  have "advances (ds_db s) (update_run i (\<lambda>q. (drop_lease q)\<lparr>r_status := DeliveryPending, r_stage := StPendingDelivery\<rparr>) (ds_db s))"
    using q by (intro advances_update_run [OF ok q(1)])
      (auto simp: same_identity_def run_ok_def active_iff drop_lease_def status_reaches_def)
  with assms(1) show ?thesis by (rule advances_trans)
qed

lemma keeps_runs_finish:
  assumes "others_advance env" and "st \<in> {Succeeded, Failed}"
  shows "keeps_step (runs_since d0) (finish env i owner st code)"
proof -
  let ?f = "\<lambda>now d. record_run_transition (if st = Failed then ''failed'' else ''succeeded'') i
              st (if st = Failed then StComplete else StCleanup) code (update_run i (finish_run env now st code) d)"
  have "advances d0 (?f now d)"
    if a: "advances d0 d" and q: "run_by_id d i = Some q" "r_status q = DeliveryPending" for now d q
  proof -
    have ok: "runs_ok d" using a by (rule advances_ok)
    have "advances d (update_run i (finish_run env now st code) d)"
      using q assms(2) by (intro advances_update_run [OF ok q(1)])
        (auto simp: same_identity_def run_ok_def active_iff drop_lease_def finish_run_def status_reaches_def)
    with a show ?thesis using advances_trans by auto
  qed
  then have ok: "triple (\<lambda>s. runs_since d0 s \<and> (\<exists>q. run_by_id (ds_db s) i = Some q \<and> r_status q = DeliveryPending))
      (writes (?f now)) (\<lambda>_. runs_since d0) (runs_since d0)" for now
    by (auto simp: triple_def writes_def runs_since_def)
  have no: "keeps_step (runs_since d0) (bind_step (cancel_boundary env i owner True) (\<lambda>_.
              lift_result (Inl (RuntimeError ''run lease ownership lost''))))"
    by (rule keeps_bind [OF keeps_runs_boundary [OF assms(1)] keeps_simple(2)])
  have w: "triple (\<lambda>s. runs_since d0 s \<and> run_by_id (ds_db s) i = row) (if (case row of None \<Rightarrow> False
           | Some q \<Rightarrow> r_status q = DeliveryPending \<and> \<not> r_cancel q \<and> r_lease_owner q = owner)
       then writes (?f now)
       else bind_step (cancel_boundary env i owner True) (\<lambda>_.
              lift_result (Inl (RuntimeError ''run lease ownership lost'')))) (\<lambda>_. runs_since d0) (runs_since d0)" for row now
  proof (cases "case row of None \<Rightarrow> False
           | Some q \<Rightarrow> r_status q = DeliveryPending \<and> \<not> r_cancel q \<and> r_lease_owner q = owner")
    case True
    then show ?thesis
      by (simp only: if_True, intro triple_weaken [OF ok]) (auto split: option.splits)
  next
    case False
    then show ?thesis
      by (simp only: if_False, intro triple_weaken [OF no [unfolded keeps_step_def]]) auto
  qed
  show ?thesis
    unfolding finish_def keeps_step_def
    by (rule triple_bind [OF runs_since_steps(1) [unfolded keeps_step_def]])
      (rule triple_bind [OF _ w], simp add: triple_def asks_def)
qed

lemma keeps_runs_conclude:
  assumes "others_advance env" and "owner = Some w"
  shows "keeps_step (runs_since d0) (conclude env r owner pending)"
  unfolding conclude_def keeps_step_def
proof (rule triple_bind [OF triple_boundary])
  show "runs_since d0 (s\<lparr>ds_db := dv_others env (ds_tick s) (ds_db s), ds_tick := ds_tick s + 1\<rparr>)" if "runs_since d0 s" for s
    using assms(1) that by (rule runs_since_others)
  fix u
  let ?P = "\<lambda>s. runs_since d0 s \<and> leased (r_id r) owner s"
  have asks: "triple ?P (asks g) (\<lambda>_. ?P) (runs_since d0)" for g :: "db \<Rightarrow> 'x"
    by (simp add: triple_def asks_def)
  have rel: "triple ?P (bind_step (writes (update_run (r_id r) (\<lambda>q. (drop_lease q)\<lparr>r_status := DeliveryPending,
              r_stage := StPendingDelivery\<rparr>))) (\<lambda>_. pure False)) (\<lambda>_. runs_since d0) (runs_since d0)"
    using advances_release_pending assms(2)
    by (auto simp: triple_def bind_step_def writes_def pure_def runs_since_def)
  have fin: "triple ?P m (\<lambda>_. runs_since d0) (runs_since d0)" if "keeps_step (runs_since d0) m" for m :: "bool step"
    using that unfolding keeps_step_def by (rule triple_weaken) auto
  have spool: "keeps_step (runs_since d0) (writes (update_run (r_id r) (\<lambda>q. q\<lparr>r_pending_dir := None, r_stage := StComplete\<rparr>)))"
    by (rule keeps_writes) (auto simp: runs_since_def same_identity_def intro!: advances_update_row)
  show "triple ?P (bind_step (asks (\<lambda>d. deliveries_of d (r_id r))) (\<lambda>rows.
       if list_ex (\<lambda>x. dl_status x = DelPending) rows
       then bind_step (writes (update_run (r_id r) (\<lambda>q. (drop_lease q)\<lparr>r_status := DeliveryPending,
              r_stage := StPendingDelivery\<rparr>))) (\<lambda>_. pure False)
       else if list_ex (\<lambda>x. dl_status x = DelFailed) rows
       then bind_step (finish env (r_id r) owner Failed (Some ''DELIVERY_ACTION_REQUIRED'')) (\<lambda>_. pure False)
       else bind_step (finish env (r_id r) owner Succeeded None) (\<lambda>_.
            bind_step (discard_spool env pending (r_uuid r)) (\<lambda>_.
            bind_step (writes (update_run (r_id r) (\<lambda>q. q\<lparr>r_pending_dir := None, r_stage := StComplete\<rparr>)))
              (\<lambda>_. pure True))))) (\<lambda>_. runs_since d0) (runs_since d0)"
    using keeps_runs_finish [OF assms(1)] spool
    by (intro triple_bind [OF asks]) (auto intro!: rel fin keeps_rules)
qed

lemma attempt_advances:
  assumes "others_advance env" and "r_lease_owner r = Some w" and "runs_ok (ds_db s)"
  shows "advances (ds_db s) (ds_db (snd (attempt env r s)))"
proof -
  have "keeps_step (runs_since d0) (attempt env r)" for d0
    using keeps_runs_conclude [OF assms(1) refl] assms(1,2)
    by (auto simp: attempt_def Let_def split: option.splits
        intro!: keeps_rules keeps_runs_boundary keeps_runs_deliver_to keeps_runs_prepare)
  from keeps_step_snd [OF this, of "ds_db s" s] advances_refl [OF assms(3)] show ?thesis
    by (simp add: runs_since_def)
qed

subsection \<open>What is sent\<close>

definition send_log :: "delivery_state \<Rightarrow> (int \<times> nat) list" where
  "send_log s = map (\<lambda>(t, n, _). (t, n)) (ds_sent s)"

lemma send_log_frame [simp]:
  "send_log (s\<lparr>ds_tick := n\<rparr>) = send_log s" "send_log (s\<lparr>ds_fs := f\<rparr>) = send_log s"
  "send_log (s\<lparr>ds_media := m\<rparr>) = send_log s" "send_log (s\<lparr>ds_db := d\<rparr>) = send_log s"
  "send_log (s\<lparr>ds_sent := ds_sent s @ [(t, n, x)]\<rparr>) = send_log s @ [(t, n)]"
  by (simp_all add: send_log_def)

text \<open>Steps that send nothing.\<close>

definition silent :: "'a step \<Rightarrow> bool" where
  "silent m \<longleftrightarrow> (\<forall>s. send_log (snd (m s)) = send_log s)"

lemma silent_bind: "silent m \<Longrightarrow> (\<And>a. silent (f a)) \<Longrightarrow> silent (bind_step m f)"
  by (auto simp: silent_def bind_step_def split: prod.splits sum.splits) (metis snd_conv)+

lemma silent_steps:
  "silent (pure a)" "silent (lift_result res)" "silent (asks g)" "silent (writes h)" "silent (now_step env)"
  "silent (next_retry env k w)" "silent (cancel_boundary env i owner c)" "silent (remember_media n msg)"
  "silent (save_delivery i key f)"
  by (auto simp: silent_def pure_def lift_result_def asks_def writes_def now_step_def next_retry_def
      cancel_boundary_def remember_media_def save_delivery_def Let_def split: option.splits)

lemma silent_snd: "silent m \<Longrightarrow> m s = (res, s') \<Longrightarrow> send_log s' = send_log s"
  by (metis silent_def snd_conv)

lemma bind_step_sends:
  assumes "silent m"
  shows "send_log (snd (bind_step m f s)) = send_log s \<or>
    (\<exists>a s1. m s = (Inr a, s1) \<and> send_log s1 = send_log s \<and> bind_step m f s = f a s1)"
  using assms by (cases "m s"; cases "fst (m s)") (auto simp: bind_step_def silent_def dest: spec [of _ s])

text \<open>One part sends at most once, and exactly once when the loop goes on.\<close>

lemma silent_after_upload: "silent (after_upload env i owner x part outcome)"
  by (auto simp: after_upload_def Let_def split: upload_outcome.splits prod.splits
      intro!: silent_bind silent_steps)

lemma deliver_part_sends:
  assumes "deliver_part env i owner u key part s = (res, s')"
  shows "\<exists>k. send_log s' = send_log s @ take k [(u_telegram u, ap_number part)] \<and> (res = Inr True \<longrightarrow> k = 1)"
proof -
  let ?none = "\<exists>k. send_log s' = send_log s @ take k [(u_telegram u, ap_number part)] \<and> (res = Inr True \<longrightarrow> k = 1)"
  have stop: ?none if "send_log s' = send_log s" "res = Inl e" for e
    using that by (intro exI [of _ 0]) simp
  obtain c1 s1 where b: "cancel_boundary env i owner True s = (c1, s1)" by fastforce
  then have l1: "send_log s1 = send_log s" by (rule silent_snd [OF silent_steps(7)])
  show ?thesis
  proof (cases c1)
    case (Inl e)
    with assms b l1 stop show ?thesis by (auto simp: deliver_part_def bind_step_def)
  next
    case (Inr a)
    show ?thesis
    proof (cases "find (\<lambda>x. dl_id x = key) (deliveries (ds_db s1))")
      case None
      with assms b l1 Inr stop show ?thesis
        by (auto simp: deliver_part_def bind_step_def asks_def lift_result_def)
    next
      case (Some x)
      obtain t s2 where n: "next_retry env (dl_part_attempts x + 1) None s1 = (Inr t, s2)"
        by (simp add: next_retry_def)
      obtain w s3 where sv: "save_delivery i key (begin_attempt t) s2 = (Inr w, s3)"
        by (simp add: save_delivery_def writes_def)
      obtain out s4 where sd: "send_part env u part s3 = (Inr out, s4)"
        and l4: "send_log s4 = send_log s3 @ [(u_telegram u, ap_number part)]"
        by (simp add: send_part_def Let_def send_log_def)
      have "send_log s3 = send_log s"
        using silent_snd [OF silent_steps(6) n] silent_snd [OF silent_steps(9) sv] l1 by simp
      moreover have "send_log s' = send_log s4"
        by (rule silent_snd [OF silent_after_upload [of env i owner x part out]])
          (use assms b Inr Some n sv sd in \<open>simp add: deliver_part_def bind_step_def asks_def\<close>)
      ultimately show ?thesis using l4 by (intro exI [of _ 1]) simp
    qed
  qed
qed

lemma deliver_parts_sends:
  "deliver_parts env i owner u key parts s = (res, s') \<Longrightarrow>
     \<exists>k. send_log s' = send_log s @ take k (map (\<lambda>p. (u_telegram u, ap_number p)) parts)"
proof (induction parts arbitrary: s)
  case Nil
  then show ?case by simp
next
  case (Cons part parts)
  obtain r1 s1 where p: "deliver_part env i owner u key part s = (r1, s1)" by fastforce
  from deliver_part_sends [OF p] obtain k where
    k: "send_log s1 = send_log s @ take k [(u_telegram u, ap_number part)]" "r1 = Inr True \<longrightarrow> k = 1" by blast
  show ?case
  proof (cases "r1 = Inr True")
    case True
    with Cons.prems p have "deliver_parts env i owner u key parts s1 = (res, s')" by (simp add: bind_step_def)
    from Cons.IH [OF this] obtain j where
      "send_log s' = send_log s1 @ take j (map (\<lambda>p. (u_telegram u, ap_number p)) parts)" by blast
    with k True show ?thesis by (intro exI [of _ "Suc j"]) simp
  next
    case False
    with Cons.prems p have "send_log s' = send_log s1"
      by (auto simp: bind_step_def pure_def split: sum.splits if_splits)
    with k(1) show ?thesis by (intro exI [of _ "min k 1"]) (cases k; simp)
  qed
qed

lemma authorized_user_cases:
  "authorized_user loaded d admin p = Some u \<Longrightarrow> u_enabled u \<and> u_deleted u = None \<and>
     (u_role u = Superadmin \<and> u \<in> set loaded \<and> u_id u = admin \<or>
      u_role u = Admin \<and> u \<in> set (users d) \<and>
        list_ex (\<lambda>a. a_admin a = u_id u \<and> a_profile a = p) (access d))"
  by (auto simp: authorized_user_def authorized_recipient_def split: option.splits if_splits dest: find_SomeD)

section \<open>A concrete delivery\<close>

definition demo_message :: telegram_message where
  "demo_message = \<lparr>tm_id = Some 5, tm_media = True, tm_file = Some 9\<rparr>"

definition demo_delivery_env :: delivery_env where
  "demo_delivery_env = \<lparr>dv_files = demo_file_env, dv_clock = (\<lambda>_. 10), dv_jitter = (\<lambda>_ lo _. seconds lo),
     dv_others = (\<lambda>_ d. d), dv_send = (\<lambda>_ _ _. Uploaded demo_message), dv_root = [''pending''],
     dv_max_bytes = 2000, dv_max_attempts = 3, dv_retry_base = 30, dv_retry_max = 3600,
     dv_retry_jitter = 15, dv_retention = 604800\<rparr>"

definition demo_leased_run :: run where
  "demo_leased_run = demo_failed_run\<lparr>r_status := DeliveryPending, r_stage := StPendingDelivery,
     r_finished := None, r_error_code := None, r_lease_owner := Some ''w'', r_lease_expires := Some 100\<rparr>"

definition demo_delivery_state :: delivery_state where
  "demo_delivery_state = \<lparr>ds_db = demo_failed_db\<lparr>runs := [demo_leased_run], deliveries := []\<rparr>,
     ds_fs = demo_published, ds_tick = 0, ds_media = [], ds_sent = []\<rparr>"

definition demo_parts :: "artifact_part list" where
  "demo_parts = [\<lparr>ap_path = demo_directory @ [''data.tar''], ap_number = 1, ap_size = 3, ap_sha = demo_sha\<rparr>]"

section \<open>Properties\<close>


text \<open>
  The retry delay is bounded: never below the configured base and never above the configured
  maximum, jitter included; a flood wait demanded by Telegram is always honoured.
\<close>

definition jitter_in_range :: "delivery_env \<Rightarrow> bool" where
  "jitter_in_range env \<longleftrightarrow> (\<forall>n lo hi. lo \<le> hi \<longrightarrow>
     seconds lo \<le> dv_jitter env n lo hi \<and> dv_jitter env n lo hi \<le> seconds hi)"

theorem retry_delay_bounds:
  assumes "0 \<le> dv_retry_base env" "dv_retry_base env \<le> dv_retry_max env" "0 \<le> dv_retry_jitter env"
    and "jitter_in_range env"
  shows "seconds (dv_retry_base env) \<le> retry_delay env n attempts None \<and>
    retry_delay env n attempts None \<le> seconds (dv_retry_max env) \<and>
    retry_delay env n attempts (Some w) = max (retry_delay env n attempts None) (seconds w)"
proof -
  define delay where "delay = min (dv_retry_max env) (dv_retry_base env * 2 ^ nat (min (attempts - 1) 30))"
  define limit where "limit = min (dv_retry_jitter env) (max 0 (dv_retry_max env - delay))"
  define slack where "slack = min (dv_retry_jitter env) (delay - dv_retry_base env)"
  have "dv_retry_base env * 1 \<le> dv_retry_base env * 2 ^ nat (min (attempts - 1) 30)"
    using assms(1) by (intro mult_left_mono) simp_all
  then have d: "dv_retry_base env \<le> delay" "delay \<le> dv_retry_max env"
    using assms(2) by (simp_all add: delay_def)
  then have l: "0 \<le> limit" "limit \<le> dv_retry_max env - delay" "0 \<le> slack" "slack \<le> delay - dv_retry_base env"
    using assms(3) by (auto simp: limit_def slack_def)
  have j: "seconds lo \<le> dv_jitter env n lo hi" "dv_jitter env n lo hi \<le> seconds hi" if "lo \<le> hi" for lo hi
    using assms(4) that by (auto simp: jitter_in_range_def)
  note eq = retry_delay_def [of env n attempts, unfolded Let_def, folded delay_def, folded limit_def slack_def]
  have "seconds 0 \<le> dv_jitter env n 0 limit" "dv_jitter env n 0 limit \<le> seconds limit"
    using j [OF l(1)] by auto
  moreover have "seconds (- slack) \<le> dv_jitter env n (- slack) 0" "dv_jitter env n (- slack) 0 \<le> seconds 0"
    using j [of "- slack" 0] l(3) by auto
  ultimately have "seconds (dv_retry_base env) \<le> retry_delay env n attempts None"
    "retry_delay env n attempts None \<le> seconds (dv_retry_max env)"
    using d l by (auto simp: eq seconds_def)
  then show ?thesis by (simp add: eq)
qed

lemma retry_delay_bounds_witness:
  "seconds 30 \<le> retry_delay (demo_delivery_env) 0 4 None \<and> retry_delay demo_delivery_env 0 4 None \<le> seconds 3600"
proof -
  have "jitter_in_range demo_delivery_env"
    by (simp add: jitter_in_range_def demo_delivery_env_def)
  from retry_delay_bounds [OF _ _ _ this] show ?thesis
    by (simp add: demo_delivery_env_def)
qed

lemma demo_one_upload:
  "\<exists>s'. deliver_to demo_delivery_env demo_leased_run (Some ''w'') demo_parts [demo_root] 1
      (demo_delivery_state\<lparr>ds_db := add_recipient 1 10 1 (ds_db demo_delivery_state)\<rparr>) = (Inr (), s') \<and>
    send_log s' = [(100, 1)]"
  by (simp add: deliver_to_def bind_step_def cancel_boundary_def Let_def demo_delivery_env_def demo_delivery_state_def
   run_by_id_def demo_leased_run_def demo_failed_run_def blank_run_def asks_def delivery_for_def add_recipient_def deliveries_of_def
   new_delivery_def now_step_def is_due_def authorized_user_def demo_root_def deliver_part_def next_retry_def save_delivery_def writes_def
   update_delivery_def set_stage_def update_run_def send_part_def after_upload_def remember_media_def demo_message_def pure_def begin_attempt_def
   part_acknowledged_def demo_failed_db_def demo_db_def empty_db_def demo_parts_def send_log_def)


lemma bind_step_Inr:
  "bind_step m f s = (Inr b, s') \<longleftrightarrow> (\<exists>a s1. m s = (Inr a, s1) \<and> f a s1 = (Inr b, s'))"
  by (auto simp: bind_step_def split: prod.splits sum.splits)

lemma finish_Inr:
  assumes "finish env i owner st code s = (Inr u, s')"
  shows "\<exists>q now. run_by_id (ds_db s) i = Some q \<and> r_status q = DeliveryPending \<and> \<not> r_cancel q \<and>
    r_lease_owner q = owner \<and> run_by_id (ds_db s') i = Some (finish_run env now st code q) \<and>
    deliveries (ds_db s') = deliveries (ds_db s) \<and> ds_fs s' = ds_fs s"
proof -
  have id: "r_id (finish_run env now st code x) = r_id x" for now x st code
    by (simp add: finish_run_def drop_lease_def)
  show ?thesis
    using assms
    by (auto simp: finish_def bind_step_Inr now_step_def asks_def writes_def lift_result_def id
        split: if_splits option.splits)
qed

lemma delivery_status_cases: "x = DelPending \<or> x = DelSucceeded \<or> x = DelSkipped \<or> x = DelFailed"
  by (cases x) simp_all

lemma conclude_True:
  assumes "conclude env r owner pending s = (Inr True, s')"
  shows "\<exists>q fs. run_by_id (ds_db s') (r_id r) = Some q \<and> r_status q = Succeeded \<and> r_stage q = StComplete \<and>
    r_lease_owner q = None \<and> r_pending_dir q = None \<and> r_error_code q = None \<and>
    list_all (\<lambda>x. dl_status x = DelSucceeded \<or> dl_status x = DelSkipped) (deliveries_of (ds_db s') (r_id r)) \<and>
    remove_owned_directory (dv_root env) pending (r_uuid r) fs = (Inr (), ds_fs s')"
proof -
  from assms obtain s1 s2 s3 u where
    np: "\<not> list_ex (\<lambda>x. dl_status x = DelPending) (deliveries_of (ds_db s1) (r_id r))"
      "\<not> list_ex (\<lambda>x. dl_status x = DelFailed) (deliveries_of (ds_db s1) (r_id r))"
    and fin: "finish env (r_id r) owner Succeeded None s1 = (Inr u, s2)"
    and dis: "discard_spool env pending (r_uuid r) s2 = (Inr (), s3)"
    and s': "s' = s3\<lparr>ds_db := update_run (r_id r) (\<lambda>q. q\<lparr>r_pending_dir := None, r_stage := StComplete\<rparr>) (ds_db s3)\<rparr>"
    by (auto simp: conclude_def bind_step_Inr asks_def pure_def writes_def split: if_splits)
  from finish_Inr [OF fin] obtain q now where
    q: "run_by_id (ds_db s2) (r_id r) = Some (finish_run env now Succeeded None q)"
    and dl: "deliveries (ds_db s2) = deliveries (ds_db s1)" by blast
  from dis have s3: "ds_db s3 = ds_db s2"
    and rem: "remove_owned_directory (dv_root env) pending (r_uuid r) (ds_fs s2) = (Inr (), ds_fs s3)"
    by (auto simp: discard_spool_def split: prod.splits)
  have "list_all (\<lambda>x. dl_status x = DelSucceeded \<or> dl_status x = DelSkipped) (deliveries_of (ds_db s') (r_id r))"
    using np delivery_status_cases by (fastforce simp: s' s3 dl deliveries_of_def list_all_iff list_ex_iff)
  with q rem show ?thesis
    by (intro exI [of _ "(finish_run env now Succeeded None q)\<lparr>r_pending_dir := None, r_stage := StComplete\<rparr>"]
        exI [of _ "ds_fs s2"]) (simp add: s' s3 finish_run_def drop_lease_def)
qed


text \<open>
  Whatever happens during a delivery attempt, including failing uploads and other sessions
  that advance the runs, the runs stay consistent and every run moves along its lifecycle only.
\<close>

theorem delivery_attempt_lifecycle:
  assumes "others_advance env" and "r_lease_owner r = Some w" and "runs_ok (ds_db s)"
    and "run_by_id (ds_db s) i = Some q"
  shows "runs_ok (ds_db (snd (attempt env r s))) \<and>
    (\<exists>q'. run_by_id (ds_db (snd (attempt env r s))) i = Some q' \<and> same_identity q q' \<and>
       lifecycle\<^sup>*\<^sup>* (r_status q) (r_status q'))"
proof -
  have adv: "advances (ds_db s) (ds_db (snd (attempt env r s)))" by (rule attempt_advances [OF assms(1-3)])
  note ok = advances_ok [OF this]
  from run_by_id_Some [OF assms(4)] adv obtain q' where
    q': "q' \<in> set (runs (ds_db (snd (attempt env r s))))" "run_evolves q q'" "r_id q = i"
    by (auto simp: advances_def runs_evolve_def)
  with runs_ok_by_id [OF ok q'(1)] ok show ?thesis
    by (auto simp: run_evolves_def same_identity_def status_reaches_rtrancl)
qed

lemma demo_leased_ok: "runs_ok (ds_db demo_delivery_state)"
  by (simp add: demo_delivery_state_def runs_ok_def demo_leased_run_def demo_failed_run_def blank_run_def run_ok_def
      active_iff demo_failed_db_def)

lemma delivery_attempt_lifecycle_witness:
  "runs_ok (ds_db (snd (attempt demo_delivery_env demo_leased_run demo_delivery_state)))"
proof -
  have "others_advance demo_delivery_env"
    by (simp add: others_advance_def demo_delivery_env_def advances_refl)
  moreover have "r_lease_owner demo_leased_run = Some ''w''" by (simp add: demo_leased_run_def)
  moreover have "run_by_id (ds_db demo_delivery_state) 1 = Some demo_leased_run"
    by (simp add: run_by_id_def demo_delivery_state_def demo_leased_run_def demo_failed_run_def)
  ultimately show ?thesis using delivery_attempt_lifecycle [OF _ _ demo_leased_ok] by blast
qed

subsection \<open>A concrete attempt\<close>

lemma demo_artifacts: "delivery_artifacts demo_file_env demo_published demo_directory ''data.tar'' 3 demo_sha = Inr demo_parts"
proof -
  have p: "plain demo_published (demo_directory @ [manifest_name])" "plain demo_published (demo_directory @ [''data.tar''])"
    by code_simp+
  have n: "node_at demo_published (demo_directory @ [manifest_name]) = Some (RegularFile ''manifest'')"
    "node_at demo_published (demo_directory @ [''data.tar'']) = Some (RegularFile ''abc'')"
    by code_simp+
  have "read_manifest demo_file_env demo_published (demo_directory @ [manifest_name]) m = Inr demo_manifest" for m
    by (simp add: read_manifest_def resolve_plain lstat_plain p n demo_file_env_def)
  then show ?thesis 
    by (simp add: delivery_artifacts_def Let_def path_exists_def resolve_plain p n demo_manifest_def manifest_members
       verify_pending_def lstat_plain demo_file_env_def demo_parts_def)
qed
lemmas demo_eval =
  bind_step_def cancel_boundary_def Let_def demo_delivery_env_def
   run_by_id_def  asks_def delivery_for_def add_recipient_def deliveries_of_def
   new_delivery_def now_step_def is_due_def authorized_user_def  deliver_part_def next_retry_def save_delivery_def writes_def
   update_delivery_def set_stage_def update_run_def send_part_def after_upload_def remember_media_def demo_message_def pure_def begin_attempt_def
   part_acknowledged_def lift_result_def

definition demo_prepared :: delivery_state where
  "demo_prepared = demo_delivery_state\<lparr>ds_tick := 3, ds_db := (update_profile 7 (refresh_next 7 10) (ds_db demo_delivery_state))\<lparr>deliveries := [new_delivery 1 10 3 1, new_delivery 1 10 4 2], delivery_seq := 4\<rparr>\<rparr>"

lemma demo_prepare: "prepare_recipients demo_delivery_env demo_leased_run (demo_delivery_state\<lparr>ds_tick := 2, ds_db := update_profile 7 (refresh_next 7 10) (ds_db demo_delivery_state)\<rparr>) = (Inr [demo_root, demo_admin], demo_prepared)"
  by (simp add: prepare_recipients_def demo_eval assigned_ids_def demo_leased_run_def demo_failed_run_def blank_run_def demo_delivery_state_def 
     access_admin_ids_def selected_users_def selected_ids_def revoke_unselected_def demo_failed_db_def demo_db_def empty_db_def demo_prepared_def update_profile_def)
  (simp add: demo_root_def demo_admin_def)


lemma demo_discard: "\<exists>fs'. remove_owned_directory [''pending''] demo_directory demo_run_uuid demo_published = (Inr (), fs')"
  using demo_owned demo_published_nodes by (simp add: remove_owned_directory_def)

lemma demo_rest: "\<exists>s'. bind_step (each_step (deliver_to demo_delivery_env demo_leased_run (Some ''w'') demo_parts [demo_root, demo_admin]) [1, 2])
   (\<lambda>_. conclude demo_delivery_env demo_leased_run (Some ''w'') demo_directory) (demo_prepared\<lparr>ds_tick := 4\<rparr>) = (Inr True, s')"
proof -
  obtain fs' where f: "remove_owned_directory [''pending''] demo_directory demo_run_uuid demo_published = (Inr (), fs')" using demo_discard by blast
  have u: "u_id demo_root = 1" "u_role demo_root = Superadmin" "u_enabled demo_root" "u_deleted demo_root = None"  "u_telegram demo_root = 100"
     "u_id demo_admin = 2" "u_role demo_admin = Admin" "u_enabled demo_admin" "u_deleted demo_admin = None"  "u_telegram demo_admin = 200"
   by (simp_all add: demo_root_def demo_admin_def)
  show ?thesis
   by (simp add: deliver_to_def demo_eval demo_prepared_def demo_delivery_state_def demo_leased_run_def demo_failed_run_def blank_run_def
    demo_failed_db_def demo_db_def empty_db_def demo_parts_def delivered_def u authorized_recipient_def conclude_def finish_def finish_run_def
    drop_lease_def discard_spool_def f update_profile_def)
qed

lemma demo_attempt: "\<exists>s'. attempt demo_delivery_env demo_leased_run demo_delivery_state = (Inr True, s')"
proof -
  have b: "cancel_boundary demo_delivery_env 1 (Some ''w'') True s = (Inr (), s\<lparr>ds_tick := ds_tick s + 1\<rparr>)"
    if "runs (ds_db s) = [demo_leased_run]" for s
    using that by (simp add: cancel_boundary_def Let_def demo_delivery_env_def run_by_id_def demo_leased_run_def
        demo_failed_run_def blank_run_def)
  have d0: "runs (ds_db demo_delivery_state) = [demo_leased_run]" "ds_tick demo_delivery_state = 0"
     "ds_fs demo_delivery_state = demo_published" "profiles (ds_db demo_delivery_state) = [demo_profile]"
    by (simp_all add: demo_delivery_state_def demo_failed_db_def demo_db_def)
  have r: "r_id demo_leased_run = 1" "r_lease_owner demo_leased_run = Some ''w''" "r_pending_dir demo_leased_run = Some demo_directory"
     "r_final_size demo_leased_run = Some 3" "r_filename demo_leased_run = Some ''data.tar''" "r_sha demo_leased_run = Some demo_sha"
     "r_snapshot demo_leased_run = None" "r_profile demo_leased_run = 7"
    by (simp_all add: demo_leased_run_def demo_failed_run_def blank_run_def)
  have p: "delivery_profile demo_delivery_env demo_leased_run (demo_delivery_state\<lparr>ds_tick := Suc 0\<rparr>) =
     (Inr (), demo_delivery_state\<lparr>ds_tick := 2, ds_db := update_profile 7 (refresh_next 7 10) (ds_db demo_delivery_state)\<rparr>)"
    by (simp add: delivery_profile_def r demo_eval profile_by_id_def d0) (simp add: demo_profile_def)
  have u: "p_id demo_profile = 7" "u_id demo_root = 1" "u_id demo_admin = 2" by (simp_all add: demo_profile_def demo_root_def demo_admin_def)
  have t: "demo_sha \<noteq> []" "ap_size (hd demo_parts) = 3" by (simp_all add: demo_sha_def demo_parts_def)
  have i: "selected_ids [demo_root, demo_admin] = [1, 2]" by (simp add: selected_ids_def u)
  have q: "runs (ds_db demo_prepared) = [demo_leased_run]" "ds_tick demo_prepared = 3" by (simp_all add: demo_prepared_def update_profile_def d0)
  have big: "\<not> list_ex (\<lambda>p. int (ap_size p) > dv_max_bytes demo_delivery_env) demo_parts"
    by (simp add: demo_parts_def demo_delivery_env_def)
  have a: "delivery_artifacts (dv_files demo_delivery_env) demo_published demo_directory ''data.tar'' 3 demo_sha = Inr demo_parts"
    by (simp add: demo_artifacts demo_delivery_env_def)
  show ?thesis using demo_rest
    by (simp add: attempt_def r Let_def bind_step_def b d0 p text_of_def t a big demo_prepare i q)
qed


section \<open>Two behaviours worth knowing\<close>

text \<open>
  Delivering a run without a snapshot clears the schedule cursor of the live profile when that
  cursor is due: the assignment meant for the caption is flushed to the row.
\<close>

lemma legacy_delivery_clears_due_cursor:
  assumes "r_snapshot r = None" and "profile_by_id (ds_db s) (r_profile r) = Some p"
    and "p_next p = Some t" and "t \<le> dv_clock env (ds_tick s)"
  shows "\<exists>q. profile_by_id (ds_db (snd (delivery_profile env r s))) (r_profile r) = Some q \<and> p_next q = None"
proof -
  have "find (\<lambda>x. p_id x = r_profile r) (update_where (\<lambda>x. p_id x = r_profile r)
      (refresh_next (r_profile r) now) (profiles (ds_db s))) = Some (refresh_next (r_profile r) now p)" for now
    using assms(2) find_update_where_key [where k = p_id and i = "r_profile r" and j = "r_profile r"
      and f = "refresh_next (r_profile r) now" and rows = "profiles (ds_db s)"]
    by (simp add: profile_by_id_def refresh_next_def)
  with assms show ?thesis
    by (auto simp: delivery_profile_def bind_step_def asks_def now_step_def writes_def profile_by_id_def
        update_profile_def refresh_next_def)
qed

text \<open>
  A superadmin disabled after the recipients were selected still passes the check made right
  before the upload, while an admin whose access is revoked does not.
\<close>

lemma revoked_superadmin_still_authorized:
  "authorized_user [demo_root, demo_admin]
     (demo_db\<lparr>users := [demo_root\<lparr>u_enabled := False, u_deleted := Some 1\<rparr>, demo_admin], access := []\<rparr>) 1 7 = Some demo_root"
  "authorized_user [demo_root, demo_admin]
     (demo_db\<lparr>users := [demo_root\<lparr>u_enabled := False, u_deleted := Some 1\<rparr>, demo_admin], access := []\<rparr>) 2 7 = None"
  by (simp_all add: authorized_user_def authorized_recipient_def demo_root_def demo_admin_def)

end
