(* ===== verification/Recovery.thy ===== *)
theory Recovery
  imports Delivery
begin

text \<open>
  \<^verbatim>\<open>src/src/pipeline/recovery.py\<close>: what the worker does at start and between polls to finish
  deletions that a run record owns. The outcome of a remote MSSQL deletion
  (\<^verbatim>\<open>cleanup_mssql_server_artifact\<close>) is a parameter: \<open>None\<close>, or the exception it raises.
\<close>

section \<open>Expired failed artifacts\<close>

definition keep_until :: "time \<Rightarrow> run \<Rightarrow> run" where
  "keep_until t r = r\<lparr>r_cleanup_at := Some t\<rparr>"

definition forget_artifact :: "time \<Rightarrow> run \<Rightarrow> run" where
  "forget_artifact now r = r\<lparr>r_pending_dir := None, r_cleaned_at := Some now\<rparr>"

text \<open>The rows the query selects; \<open>locked\<close> rows are skipped.\<close>

definition cleanup_candidate :: "time \<Rightarrow> int list \<Rightarrow> run \<Rightarrow> bool" where
  "cleanup_candidate now locked r \<longleftrightarrow> r_status r = Failed \<and> r_pending_dir r \<noteq> None \<and>
     (case r_cleanup_at r of None \<Rightarrow> True | Some t \<Rightarrow> t \<le> now) \<and> r_id r \<notin> set locked"

definition artifact_removed :: "time \<Rightarrow> run \<Rightarrow> db \<Rightarrow> db" where
  "artifact_removed now r d = record_run_transition ''retention_cleanup'' (r_id r) Failed StComplete None
     (update_run (r_id r) (forget_artifact now) d)"

definition cleanup_failed :: "file_env \<Rightarrow> path \<Rightarrow> int \<Rightarrow> time \<Rightarrow> run \<Rightarrow> db \<times> fs \<Rightarrow> db \<times> fs" where
  "cleanup_failed env root retention now r s =
     (case s of (d, fs) \<Rightarrow>
       (case r_pending_dir r of
          None \<Rightarrow> (d, fs)
        | Some pending \<Rightarrow>
            (case r_cleanup_at r of
               None \<Rightarrow> (update_run (r_id r) (keep_until
                   ((case r_finished r of Some t \<Rightarrow> t | None \<Rightarrow> r_updated r) + seconds retention)) d, fs)
             | Some t \<Rightarrow>
                 if t > now then (d, fs)
                 else (case validate_owned_directory fs root pending (r_uuid r) of
                     Inl e \<Rightarrow> (update_run (r_id r) (keep_until (now + seconds retention)) d, fs)
                   | Inr owned \<Rightarrow>
                       if \<not> path_exists fs owned then (artifact_removed now r d, fs)
                       else (case remove_verified_retained_artifact env root d r fs of
                           (Inl e, fs') \<Rightarrow> (update_run (r_id r) (keep_until (now + seconds retention)) d, fs')
                         | (Inr _, fs') \<Rightarrow> (artifact_removed now r d, fs'))))))"

definition cleanup_expired_failed_artifacts ::
  "file_env \<Rightarrow> path \<Rightarrow> int \<Rightarrow> time \<Rightarrow> int list \<Rightarrow> db \<times> fs \<Rightarrow> db \<times> fs" where
  "cleanup_expired_failed_artifacts env root retention now locked s =
     fold (cleanup_failed env root retention now) (filter (cleanup_candidate now locked) (runs (fst s))) s"

section \<open>Recorded file system state\<close>

definition terminal_statuses :: "run_status list" where
  "terminal_statuses = [Succeeded, Failed, Cancelled, Skipped]"

text \<open>One run; an exception ends the recovery.\<close>

definition recover_run :: "path \<Rightarrow> path \<Rightarrow> run \<Rightarrow> db \<times> fs \<Rightarrow> unit result \<times> db \<times> fs" where
  "recover_run work_root pending_root r s =
     (case s of (d, fs) \<Rightarrow>
       (case (if r_workspace r = None then (Inr (), fs) else remove_workspace work_root (r_uuid r) fs) of
          (Inl e, fs1) \<Rightarrow> (Inl e, d, fs1)
        | (Inr _, fs1) \<Rightarrow>
            (let d1 = (if r_workspace r = None then d
                   else update_run (r_id r) (\<lambda>q. q\<lparr>r_workspace := None\<rparr>) d)
             in case r_pending_dir r of
               None \<Rightarrow> (Inr (), d1, fs1)
             | Some pending \<Rightarrow>
                 if r_status r \<notin> {Succeeded, Cancelled} then (Inr (), d1, fs1)
                 else (case (if path_exists fs1 pending
                         then remove_owned_directory pending_root pending (r_uuid r) fs1 else (Inr (), fs1)) of
                     (Inl e, fs2) \<Rightarrow> (Inl e, d1, fs2)
                   | (Inr _, fs2) \<Rightarrow> (Inr (),
                       update_run (r_id r) (\<lambda>q. q\<lparr>r_pending_dir := None, r_stage := StComplete\<rparr>) d1, fs2)))))"

fun recover_runs :: "path \<Rightarrow> path \<Rightarrow> run list \<Rightarrow> db \<times> fs \<Rightarrow> unit result \<times> db \<times> fs" where
  "recover_runs work_root pending_root [] s = (Inr (), s)"
| "recover_runs work_root pending_root (r # rs) s =
     (case recover_run work_root pending_root r s of
        (Inl e, s') \<Rightarrow> (Inl e, s')
      | (Inr _, s') \<Rightarrow> recover_runs work_root pending_root rs s')"

definition recover_candidate :: "run \<Rightarrow> bool" where
  "recover_candidate r \<longleftrightarrow> r_status r \<in> set terminal_statuses \<and>
     (r_workspace r \<noteq> None \<or> r_pending_dir r \<noteq> None)"

text \<open>An exception rolls the database back; deleted files stay deleted.\<close>

definition recover_recorded_filesystem ::
  "file_env \<Rightarrow> path \<Rightarrow> path \<Rightarrow> int \<Rightarrow> time \<Rightarrow> int list \<Rightarrow> db \<times> fs \<Rightarrow> unit result \<times> db \<times> fs" where
  "recover_recorded_filesystem env work_root pending_root retention now locked s =
     (case recover_runs work_root pending_root (filter recover_candidate (runs (fst s))) s of
        (Inl e, _, fs') \<Rightarrow> (Inl e, fst s, fs')
      | (Inr _, s') \<Rightarrow> (Inr (), cleanup_expired_failed_artifacts env pending_root retention now locked s'))"

section \<open>Server-side MSSQL backups\<close>

definition update_cleanup :: "string \<Rightarrow> (mssql_cleanup \<Rightarrow> mssql_cleanup) \<Rightarrow> db \<Rightarrow> db" where
  "update_cleanup operation f d = d\<lparr>cleanups := update_where (\<lambda>c. c_operation c = operation) f (cleanups d)\<rparr>"

definition cleanup_note :: "string \<Rightarrow> mssql_cleanup \<Rightarrow> mssql_cleanup" where
  "cleanup_note e c = c\<lparr>c_error := Some e\<rparr>"

definition cleanup_done :: "time \<Rightarrow> mssql_cleanup \<Rightarrow> mssql_cleanup" where
  "cleanup_done now c = c\<lparr>c_cleaned := Some now, c_error := None\<rparr>"

text \<open>What the outcome of the remote deletion does to the record; cancellation is not caught.\<close>

definition cleanup_outcome :: "time \<Rightarrow> exn option \<Rightarrow> (mssql_cleanup \<Rightarrow> mssql_cleanup) result" where
  "cleanup_outcome now out = (case out of
       None \<Rightarrow> Inr (cleanup_done now)
     | Some CancelledError \<Rightarrow> Inl CancelledError
     | Some (PipelineError code msg) \<Rightarrow>
         Inr (if code = ''MSSQL_CLEANUP_MISSING'' then cleanup_done now else cleanup_note (take 64 code))
     | Some _ \<Rightarrow> Inr (cleanup_note ''MSSQL_CLEANUP_FAILED''))"

definition run_configuration :: "db \<Rightarrow> run \<Rightarrow> profile result" where
  "run_configuration d r = (case r_snapshot r of
       Some j \<Rightarrow> restore_run_config j
     | None \<Rightarrow> (case profile_by_id d (r_profile r) of
         None \<Rightarrow> Inl (RuntimeError ''run profile is missing'') | Some p \<Rightarrow> Inr (load_graph d p)))"

definition lease_held :: "time \<Rightarrow> run \<Rightarrow> bool" where
  "lease_held now r \<longleftrightarrow> r_status r \<notin> set terminal_statuses \<and> r_lease_owner r \<noteq> None \<and>
     (case r_lease_expires r of None \<Rightarrow> False | Some t \<Rightarrow> t \<ge> now)"

definition cleanup_allowed :: "mssql_cleanup \<Rightarrow> profile \<Rightarrow> bool" where
  "cleanup_allowed c p \<longleftrightarrow> (case p_database p of
       None \<Rightarrow> False
     | Some x \<Rightarrow> d_engine x = MSSQL \<and> c_server_id c = d_server_id x) \<and>
     c_size c \<noteq> None \<and> c_sha c \<noteq> None"

definition cleanup_orphan ::
  "time \<Rightarrow> (mssql_cleanup \<Rightarrow> profile \<Rightarrow> exn option) \<Rightarrow> mssql_cleanup \<Rightarrow> db \<Rightarrow> unit result \<times> db" where
  "cleanup_orphan now remote c d =
     (case run_by_id d (c_run c) of
        None \<Rightarrow> (Inl (RuntimeError ''run is missing''), d)
      | Some r \<Rightarrow>
          if lease_held now r then (Inr (), d)
          else (case run_configuration d r of
              Inl e \<Rightarrow> (Inl e, d)
            | Inr p \<Rightarrow>
                if \<not> cleanup_allowed c p
                then (Inr (), update_cleanup (c_operation c) (cleanup_note ''MSSQL_CLEANUP_REFUSED'') d)
                else (case cleanup_outcome now (remote c p) of
                    Inl e \<Rightarrow> (Inl e, d)
                  | Inr f \<Rightarrow> (Inr (), update_cleanup (c_operation c) f d))))"

fun cleanup_orphans ::
  "time \<Rightarrow> (mssql_cleanup \<Rightarrow> profile \<Rightarrow> exn option) \<Rightarrow> mssql_cleanup list \<Rightarrow> db \<Rightarrow> unit result \<times> db" where
  "cleanup_orphans now remote [] d = (Inr (), d)"
| "cleanup_orphans now remote (c # cs) d =
     (case cleanup_orphan now remote c d of
        (Inl e, d') \<Rightarrow> (Inl e, d') | (Inr _, d') \<Rightarrow> cleanup_orphans now remote cs d')"

definition orphan_candidate :: "mssql_cleanup \<Rightarrow> bool" where
  "orphan_candidate c \<longleftrightarrow> c_retrieved c \<noteq> None \<and> c_cleaned c = None"

text \<open>Without a master key nothing is done; an exception rolls everything back.\<close>

definition cleanup_orphaned_mssql_artifacts ::
  "bool \<Rightarrow> time \<Rightarrow> (mssql_cleanup \<Rightarrow> profile \<Rightarrow> exn option) \<Rightarrow> unit op" where
  "cleanup_orphaned_mssql_artifacts has_key now remote d =
     (if \<not> has_key then (Inr (), d)
      else case cleanup_orphans now remote (filter orphan_candidate (cleanups d)) d of
        (Inl e, _) \<Rightarrow> (Inl e, d) | (Inr u, d') \<Rightarrow> (Inr u, d'))"

section \<open>The runs\<close>

lemma recovery_rows_keep:
  "same_identity r (keep_until t r)" "same_identity r (forget_artifact now r)"
  "r_status (keep_until t r) = r_status r" "r_status (forget_artifact now r) = r_status r"
  "r_finished (keep_until t r) = r_finished r" "r_finished (forget_artifact now r) = r_finished r"
  "r_lease_owner (keep_until t r) = r_lease_owner r" "r_lease_owner (forget_artifact now r) = r_lease_owner r"
  "r_lease_expires (keep_until t r) = r_lease_expires r" "r_lease_expires (forget_artifact now r) = r_lease_expires r"
  "r_workspace (keep_until t r) = r_workspace r" "r_workspace (forget_artifact now r) = r_workspace r"
  "r_pending_dir (keep_until t r) = r_pending_dir r" "r_pending_dir (forget_artifact now r) = None"
  "r_id (keep_until t r) = r_id r" "r_id (forget_artifact now r) = r_id r"
  by (simp_all add: keep_until_def forget_artifact_def same_identity_def)

lemma advances_cleanup_failed:
  "advances d0 d \<Longrightarrow> advances d0 (fst (cleanup_failed env root retention now r (d, fs)))"
  by (auto simp: cleanup_failed_def artifact_removed_def recovery_rows_keep intro!: advances_update_row
      split: option.splits sum.splits prod.splits)

lemma advances_cleanup_fold:
  "advances d0 (fst s) \<Longrightarrow> advances d0 (fst (fold (cleanup_failed env root retention now) rs s))"
proof (induction rs arbitrary: s)
  case Nil
  then show ?case by simp
next
  case (Cons r rs)
  from Cons.prems have "advances d0 (fst (cleanup_failed env root retention now r s))"
    using advances_cleanup_failed [of d0 "fst s" env root retention now r "snd s"] by simp
  from Cons.IH [OF this] show ?case by simp
qed

lemma advances_recover_run:
  "advances d0 (fst s) \<Longrightarrow> advances d0 (fst (snd (recover_run wr pr r s)))"
  by (auto simp: recover_run_def Let_def same_identity_def intro!: advances_update_row
      split: option.splits sum.splits prod.splits)

lemma advances_recover_runs:
  "advances d0 (fst s) \<Longrightarrow> advances d0 (fst (snd (recover_runs wr pr rs s)))"
proof (induction rs arbitrary: s)
  case Nil
  then show ?case by simp
next
  case (Cons r rs)
  from advances_recover_run [OF Cons.prems, of wr pr r] Cons.IH show ?case
    by (cases "recover_run wr pr r s"; cases "fst (recover_run wr pr r s)") auto
qed

lemma advances_recover [keeps]:
  assumes "runs_ok d"
  shows "advances d (fst (snd (recover_recorded_filesystem env wr pr retention now locked (d, fs))))"
  using advances_recover_runs [of d "(d, fs)" wr pr "filter recover_candidate (runs d)"] advances_refl [OF assms]
  by (auto simp: recover_recorded_filesystem_def cleanup_expired_failed_artifacts_def advances_cleanup_fold
      split: sum.splits prod.splits)

section \<open>Which files go\<close>

text \<open>Deleting never creates anything, in particular no link.\<close>

definition only_removes :: "fs \<Rightarrow> fs \<Rightarrow> bool" where
  "only_removes fs fs' \<longleftrightarrow> (\<forall>q. node_at fs' q = None \<or> node_at fs' q = node_at fs q)"

lemma only_removes_refl [simp]: "only_removes fs fs"
  by (simp add: only_removes_def)

lemma only_removes_trans: "only_removes a b \<Longrightarrow> only_removes b c \<Longrightarrow> only_removes a c"
  by (auto simp: only_removes_def) metis

lemma only_removes_plain: "only_removes fs fs' \<Longrightarrow> plain fs p \<Longrightarrow> plain fs' p"
  by (erule plain_mono) (auto simp: only_removes_def is_link_iff, metis option.distinct(1))

lemma only_removes_owned:
  "remove_owned_directory root p u fs = (res, fs') \<Longrightarrow> only_removes fs fs'"
  by (auto simp: remove_owned_directory_def only_removes_def rmdir_if_empty_def split: sum.splits if_splits)

lemma only_removes_workspace:
  "remove_workspace root u fs = (res, fs') \<Longrightarrow> only_removes fs fs'"
  by (auto simp: remove_workspace_def only_removes_def split: sum.splits if_splits)

text \<open>Where a run's deletions may reach: its own directory and the profile directory above it.\<close>

definition in_run_spool :: "path \<Rightarrow> string \<Rightarrow> path \<Rightarrow> bool" where
  "in_run_spool root uuid q \<longleftrightarrow>
     (\<exists>profile_dir run_dir. ends_with_uuid run_dir uuid \<and>
        (below (root @ [profile_dir, run_dir]) q \<or> q = root @ [profile_dir]))"

lemma remove_owned_reach:
  assumes "remove_owned_directory root p u fs = (res, fs')" and "plain fs root"
  shows "node_at fs' q = node_at fs q \<or> in_run_spool root u q"
proof (cases "validate_owned_directory fs root p u")
  case (Inl e)
  with assms(1) show ?thesis by (simp add: remove_owned_directory_def)
next
  case (Inr own)
  from validate_owned_under_root [OF Inr] obtain pd rd where
    o: "own = root @ [pd, rd]" "ends_with_uuid rd u" by (auto simp: resolve_plain [OF assms(2)])
  have "resolve fs p = own" using validate_owned_shape(1) [OF Inr] by simp
  with remove_owned_directory_frame [OF assms(1), of q] o show ?thesis
    by (auto simp: in_run_spool_def butlast_append)
qed

lemma remove_verified_reach:
  assumes "remove_verified_retained_artifact env root d r fs = (res, fs')" and "plain fs root"
  shows "only_removes fs fs'" and "node_at fs' q = node_at fs q \<or> in_run_spool root (r_uuid r) q"
  using assms remove_owned_reach only_removes_owned
  by (auto simp: remove_verified_retained_artifact_def split: sum.splits)

text \<open>A run whose retention has run out.\<close>

definition retention_over :: "time \<Rightarrow> int list \<Rightarrow> run \<Rightarrow> bool" where
  "retention_over now locked r \<longleftrightarrow> r_status r = Failed \<and> r_pending_dir r \<noteq> None \<and> r_id r \<notin> set locked \<and>
     (case r_cleanup_at r of None \<Rightarrow> False | Some t \<Rightarrow> t \<le> now)"

lemma cleanup_failed_reach:
  assumes "cleanup_failed env root retention now r (d, fs) = (d', fs')" and "plain fs root"
    and "cleanup_candidate now locked r"
  shows "only_removes fs fs' \<and>
    (node_at fs' q = node_at fs q \<or> (retention_over now locked r \<and> in_run_spool root (r_uuid r) q))"
  using assms remove_verified_reach [OF _ assms(2), of env d r]
  by (fastforce simp: cleanup_failed_def cleanup_candidate_def retention_over_def
      split: option.splits sum.splits prod.splits if_splits)

lemma cleanup_fold_reach:
  "fold (cleanup_failed env root retention now) rs (d, fs) = (d', fs') \<Longrightarrow> plain fs root \<Longrightarrow>
     \<forall>r \<in> set rs. cleanup_candidate now locked r \<Longrightarrow>
     only_removes fs fs' \<and> (node_at fs' q = node_at fs q \<or>
       (\<exists>r \<in> set rs. retention_over now locked r \<and> in_run_spool root (r_uuid r) q))"
proof (induction rs arbitrary: d fs)
  case Nil
  then show ?case by simp
next
  case (Cons r rs)
  obtain d1 fs1 where c: "cleanup_failed env root retention now r (d, fs) = (d1, fs1)" by fastforce
  have cand: "cleanup_candidate now locked r" using Cons.prems(3) by simp
  note one = cleanup_failed_reach [OF c Cons.prems(2) cand]
  with only_removes_plain Cons.prems(2) have "plain fs1 root" by blast
  with Cons.IH [of d1 fs1] Cons.prems(1,3) c have
    "only_removes fs1 fs' \<and> (node_at fs' q = node_at fs1 q \<or>
       (\<exists>r \<in> set rs. retention_over now locked r \<and> in_run_spool root (r_uuid r) q))"
    by simp
  with one [of q] show ?case by (auto intro: only_removes_trans)
qed

section \<open>What the rows forget\<close>

definition row_shrinks :: "run \<Rightarrow> run \<Rightarrow> bool" where
  "row_shrinks x y \<longleftrightarrow> r_id y = r_id x \<and> r_status y = r_status x \<and> r_workspace y \<in> {r_workspace x, None} \<and>
     r_pending_dir y \<in> {r_pending_dir x, None}"

definition rows_shrink :: "db \<Rightarrow> db \<Rightarrow> bool" where
  "rows_shrink d d' \<longleftrightarrow> (\<forall>i x. run_by_id d i = Some x \<longrightarrow> (\<exists>y. run_by_id d' i = Some y \<and> row_shrinks x y))"

lemma rows_shrink_refl [simp]: "rows_shrink d d"
  by (simp add: rows_shrink_def row_shrinks_def)

lemma rows_shrink_trans: "rows_shrink a b \<Longrightarrow> rows_shrink b c \<Longrightarrow> rows_shrink a c"
  by (fastforce simp: rows_shrink_def row_shrinks_def)

lemma rows_shrink_update:
  "(\<And>x. row_shrinks x (f x)) \<Longrightarrow> rows_shrink d (update_run i f d)"
  by (auto simp: rows_shrink_def row_shrinks_def)

lemma rows_shrink_transition [simp]:
  "rows_shrink d (record_run_transition t j st g c d') = rows_shrink d d'"
  by (simp add: rows_shrink_def)

lemma rows_shrink_cleanup_failed: "rows_shrink d (fst (cleanup_failed env root retention now r (d, fs)))"
  by (auto simp: cleanup_failed_def artifact_removed_def row_shrinks_def recovery_rows_keep
      intro!: rows_shrink_update split: option.splits sum.splits prod.splits)

lemma rows_shrink_cleanup_fold: "rows_shrink (fst s) (fst (fold (cleanup_failed env root retention now) rs s))"
proof (induction rs arbitrary: s)
  case Nil
  then show ?case by simp
next
  case (Cons r rs)
  have "rows_shrink (fst s) (fst (cleanup_failed env root retention now r s))"
    using rows_shrink_cleanup_failed [of "fst s" env root retention now r "snd s"] by simp
  from rows_shrink_trans [OF this Cons.IH] show ?case by simp
qed

definition settled :: "run \<Rightarrow> db \<Rightarrow> bool" where
  "settled r d \<longleftrightarrow> (\<exists>y. run_by_id d (r_id r) = Some y \<and> r_status y = r_status r \<and> r_workspace y = None \<and>
     (r_pending_dir y = None \<or> r_status r \<notin> {Succeeded, Cancelled}))"

lemma settled_shrink:
  assumes "settled r d" and "rows_shrink d d'"
  shows "settled r d'"
proof -
  from assms(1) obtain x where x: "run_by_id d (r_id r) = Some x" "r_status x = r_status r" "r_workspace x = None"
    "r_pending_dir x = None \<or> r_status r \<notin> {Succeeded, Cancelled}" unfolding settled_def by blast
  from assms(2) x(1) obtain y where "run_by_id d' (r_id r) = Some y" "row_shrinks x y"
    unfolding rows_shrink_def by blast
  with x show ?thesis unfolding settled_def by (intro exI [of _ y]) (auto simp: row_shrinks_def)
qed

lemma rows_shrink_then_update:
  "rows_shrink d d1 \<Longrightarrow> (\<And>x. row_shrinks x (f x)) \<Longrightarrow> rows_shrink d (update_run i f d1)"
  by (blast intro: rows_shrink_trans rows_shrink_update)

lemma recover_run_shrinks: "recover_run wr pr r (d, fs) = (res, d', fs') \<Longrightarrow> rows_shrink d d'"
  by (auto simp: recover_run_def Let_def row_shrinks_def intro!: rows_shrink_then_update
      split: option.splits sum.splits prod.splits if_splits)

lemma recover_run_settles:
  assumes "recover_run wr pr r (d, fs) = (Inr (), d', fs')" and "run_by_id d (r_id r) = Some x" "row_shrinks r x"
  shows "settled r d'"
  using assms
  by (auto simp: recover_run_def Let_def settled_def row_shrinks_def
      split: option.splits sum.splits prod.splits if_splits)

lemma recover_runs_settle:
  "recover_runs wr pr rs (d, fs) = (Inr (), d', fs') \<Longrightarrow>
     (\<And>r. r \<in> set rs \<Longrightarrow> \<exists>x. run_by_id d (r_id r) = Some x \<and> row_shrinks r x) \<Longrightarrow>
     rows_shrink d d' \<and> (\<forall>r \<in> set rs. settled r d')"
proof (induction rs arbitrary: d fs)
  case Nil
  then show ?case by simp
next
  case (Cons r rs)
  from Cons.prems(1) obtain d1 fs1 where one: "recover_run wr pr r (d, fs) = (Inr (), d1, fs1)"
    and rest: "recover_runs wr pr rs (d1, fs1) = (Inr (), d', fs')"
    by (auto split: sum.splits prod.splits)
  note sh = recover_run_shrinks [OF one]
  have "\<exists>x. run_by_id d1 (r_id q) = Some x \<and> row_shrinks q x" if "q \<in> set rs" for q
  proof -
    from Cons.prems(2) [of q] that obtain x where "run_by_id d (r_id q) = Some x" "row_shrinks q x" by auto
    moreover with sh obtain y where "run_by_id d1 (r_id q) = Some y" "row_shrinks x y"
      unfolding rows_shrink_def by blast
    ultimately show ?thesis by (auto simp: row_shrinks_def)
  qed
  from Cons.IH [OF rest this] have ih: "rows_shrink d1 d'" "\<forall>r \<in> set rs. settled r d'" by auto
  obtain x where "run_by_id d (r_id r) = Some x" "row_shrinks r x" using Cons.prems(2) [of r] by auto
  from recover_run_settles [OF one this] settled_shrink ih(1) have "settled r d'" by blast
  with ih sh show ?case by (auto intro: rows_shrink_trans)
qed

section \<open>Properties\<close>


definition demo_overdue_db :: db where
  "demo_overdue_db = demo_failed_db\<lparr>runs := [demo_failed_run\<lparr>r_cleanup_at := Some 5,
     r_workspace := Some [''wr'', demo_run_uuid]\<rparr>]\<rparr>"

lemma demo_overdue_ok: "runs_ok demo_overdue_db"
  by (simp add: demo_overdue_db_def runs_ok_def demo_failed_run_def blank_run_def run_ok_def
      active_iff demo_failed_db_def)


text \<open>
  A completed recovery leaves no terminal run with a recorded workspace and no succeeded or
  cancelled run with a recorded spool directory, and changes no status.
\<close>

theorem recovery_settles_terminal_runs:
  assumes "runs_ok d" and "recover_recorded_filesystem env wr pr retention now locked (d, fs) = (Inr (), d', fs')"
    and "r \<in> set (runs d)" and "r_status r \<in> set terminal_statuses"
  shows "\<exists>y. run_by_id d' (r_id r) = Some y \<and> r_status y = r_status r \<and> r_workspace y = None \<and>
    (r_pending_dir y = None \<or> r_status r \<notin> {Succeeded, Cancelled})"
proof -
  let ?rs = "filter recover_candidate (runs d)"
  from assms(2) obtain d1 fs1 where one: "recover_runs wr pr ?rs (d, fs) = (Inr (), d1, fs1)"
    and d': "cleanup_expired_failed_artifacts env pr retention now locked (d1, fs1) = (d', fs')"
    by (auto simp: recover_recorded_filesystem_def split: sum.splits prod.splits)
  have "\<exists>x. run_by_id d (r_id q) = Some x \<and> row_shrinks q x" if "q \<in> set ?rs" for q
    using that runs_ok_by_id [OF assms(1)] by (auto simp: row_shrinks_def)
  from recover_runs_settle [OF one this] have sh: "rows_shrink d d1" and st: "\<forall>r \<in> set ?rs. settled r d1" by auto
  have "settled r d1"
  proof (cases "recover_candidate r")
    case True
    with st assms(3) show ?thesis by simp
  next
    case False
    then have none: "r_workspace r = None" "r_pending_dir r = None"
      using assms(4) by (auto simp: recover_candidate_def)
    from sh runs_ok_by_id [OF assms(1,3)] obtain y where "run_by_id d1 (r_id r) = Some y" "row_shrinks r y"
      unfolding rows_shrink_def by blast
    with none show ?thesis by (auto simp: settled_def row_shrinks_def)
  qed
  moreover have "rows_shrink d1 d'"
    using rows_shrink_cleanup_fold [of "(d1, fs1)" env pr retention now "filter (cleanup_candidate now locked) (runs d1)"] d'
    by (simp add: cleanup_expired_failed_artifacts_def)
  ultimately have "settled r d'" by (rule settled_shrink)
  then show ?thesis by (simp add: settled_def)
qed

lemma recovery_settles_terminal_runs_witness:
  "\<exists>d' fs' y. recover_recorded_filesystem demo_file_env [''wr''] [''pending''] 60 9 [] (demo_overdue_db, demo_published) =
     (Inr (), d', fs') \<and> run_by_id d' 1 = Some y \<and> r_workspace y = None"
proof -
  have "canonical_uuid_text demo_run_uuid" by code_simp
  then have "owned_path demo_published [''wr''] demo_run_uuid = Inr (resolve demo_published [''wr''] @ [demo_run_uuid])"
    by (simp add: owned_path_def canonical_uuid_def)
  moreover have "r_uuid demo_failed_run = demo_run_uuid" "r_status demo_failed_run = Failed"
    by (simp_all add: demo_failed_run_def blank_run_def)
  ultimately have "\<exists>s'. recover_recorded_filesystem demo_file_env [''wr''] [''pending''] 60 9 []
      (demo_overdue_db, demo_published) = (Inr (), s')"
    by (simp add: recover_recorded_filesystem_def recover_run_def remove_workspace_def demo_overdue_db_def
        recover_candidate_def terminal_statuses_def Let_def split: option.splits)
  then obtain d' fs' where e: "recover_recorded_filesystem demo_file_env [''wr''] [''pending''] 60 9 []
      (demo_overdue_db, demo_published) = (Inr (), d', fs')" by fastforce
  have m: "demo_failed_run\<lparr>r_cleanup_at := Some 5, r_workspace := Some [''wr'', demo_run_uuid]\<rparr> \<in> set (runs demo_overdue_db)"
    by (simp add: demo_overdue_db_def)
  from recovery_settles_terminal_runs [OF demo_overdue_ok e m] e show ?thesis
    by (auto simp: demo_failed_run_def terminal_statuses_def)
qed

end
