(* ===== verification/Deadline.thy ===== *)
theory Deadline
  imports Prelude
begin

text \<open>
  Budgets of a run: \<^verbatim>\<open>src/src/pipeline/deadline.py\<close>, \<^verbatim>\<open>resources.py\<close> and
  \<^verbatim>\<open>cooperative.py\<close>. Clock readings are arguments, in microseconds; the wall clock is read
  once, when a deadline is made, the monotonic clock at every check.
\<close>

section \<open>RunDeadline\<close>

definition run_deadline :: "int \<Rightarrow> time option \<Rightarrow> time \<Rightarrow> time \<Rightarrow> time" where
  "run_deadline limit_seconds started_at wall monotonic =
     (let elapsed = (case started_at of None \<Rightarrow> 0 | Some t \<Rightarrow> max 0 (wall - t))
      in monotonic + max 0 (seconds limit_seconds - elapsed))"

definition timeout_error :: exn where
  "timeout_error = PipelineError ''BACKUP_TIMEOUT'' ''backup run deadline exceeded''"

definition deadline_remaining :: "time \<Rightarrow> time \<Rightarrow> int result" where
  "deadline_remaining expires monotonic =
     (if expires - monotonic \<le> 0 then Inl timeout_error else Inr (expires - monotonic))"

definition operation_timeout :: "int option \<Rightarrow> time \<Rightarrow> time \<Rightarrow> int result" where
  "operation_timeout maximum expires monotonic =
     bind_result (deadline_remaining expires monotonic) (\<lambda>left.
       Inr (case maximum of None \<Rightarrow> left | Some m \<Rightarrow> min left m))"

text \<open>
  \<^verbatim>\<open>wait_for\<close>: \<open>duration\<close> is how long the awaited operation takes, \<open>None\<close> when it
  never returns, and \<open>result\<close> what it then yields. The timer wins a tie.
\<close>

definition wait_for ::
  "int option \<Rightarrow> string \<Rightarrow> string \<Rightarrow> time \<Rightarrow> time \<Rightarrow> int option \<Rightarrow> 'a result \<Rightarrow> 'a result" where
  "wait_for maximum code msg expires monotonic duration res =
     bind_result (deadline_remaining expires monotonic) (\<lambda>left.
       let timeout = (case maximum of None \<Rightarrow> left | Some m \<Rightarrow> min left m);
           limited = (case maximum of None \<Rightarrow> False | Some m \<Rightarrow> m < left)
       in if (case duration of None \<Rightarrow> False | Some t \<Rightarrow> t < timeout) then res
          else Inl (if limited then PipelineError code msg else timeout_error))"

section \<open>Disk capacity\<close>

definition disk_has_capacity :: "int \<Rightarrow> int \<Rightarrow> int \<Rightarrow> int \<Rightarrow> bool" where
  "disk_has_capacity free min_free max_pending pending \<longleftrightarrow> free \<ge> min_free \<and> pending < max_pending"

definition ensure_disk_capacity :: "int \<Rightarrow> int \<Rightarrow> int \<Rightarrow> unit result" where
  "ensure_disk_capacity free min_free required =
     (if free - required < min_free
      then Inl (PipelineError ''DISK_CAPACITY''
        ''runtime filesystem reached the configured free-space safety threshold'')
      else Inr ())"

section \<open>CooperativeStop\<close>

definition stop_check :: "bool \<Rightarrow> unit result \<Rightarrow> unit result" where
  "stop_check stopped progress =
     (if stopped then Inl (PipelineError ''OPERATION_STOPPED'' ''backup operation stopped'') else progress)"

section \<open>Facts\<close>

lemma run_deadline_bounds:
  assumes "0 \<le> limit"
  shows "monotonic \<le> run_deadline limit st wall monotonic"
    and "run_deadline limit st wall monotonic \<le> monotonic + seconds limit"
  using assms by (auto simp: run_deadline_def Let_def seconds_def split: option.splits)

text \<open>
  Restarting a run does not buy it time: a deadline made again from the recorded start
  expires no later than the first one did, when both clocks advance together; and an operation
  is never allowed to run past the deadline or its own maximum.
\<close>

theorem restarted_run_keeps_deadline:
  assumes "0 \<le> gap" and "started \<le> wall"
  shows "run_deadline limit (Some started) (wall + gap) (monotonic + gap) \<le>
      max (monotonic + gap) (run_deadline limit (Some started) wall monotonic) \<and>
    (case operation_timeout maximum (run_deadline limit (Some started) wall monotonic) t of
       Inl e \<Rightarrow> e = timeout_error \<and> run_deadline limit (Some started) wall monotonic \<le> t
     | Inr k \<Rightarrow> 0 < run_deadline limit (Some started) wall monotonic - t \<and>
         t + k \<le> run_deadline limit (Some started) wall monotonic \<and>
         (case maximum of None \<Rightarrow> True | Some m \<Rightarrow> k \<le> m))"
  using assms
  by (auto simp: run_deadline_def operation_timeout_def deadline_remaining_def bind_result_def Let_def
      split: option.splits)

lemma restarted_run_keeps_deadline_witness:
  "run_deadline 3600 (Some 0) (seconds 900 + seconds 60) (5 + seconds 60) \<le>
     max (5 + seconds 60) (run_deadline 3600 (Some 0) (seconds 900) 5)"
  using restarted_run_keeps_deadline
    [where gap = "seconds 60" and started = 0 and wall = "seconds 900" and limit = 3600 and monotonic = 5] by simp

end
