(* ===== verification/SourcePaths.thy ===== *)
theory SourcePaths
  imports Database
begin

text \<open>
  Paths as the configuration has them: \<^verbatim>\<open>validate_absolute_path\<close>, \<^verbatim>\<open>LocalSourcePathMapper\<close>
  and \<^verbatim>\<open>validate_approved_local_path\<close> of \<^verbatim>\<open>src/src/application/profile_config.py\<close>, over a
  model of Python's \<^verbatim>\<open>PurePosixPath\<close>: a root (none, one slash, or exactly two slashes, which
  POSIX keeps apart) and the segments that are neither empty nor a single dot.
\<close>

section \<open>Lexical paths\<close>

record pure_path =
  pp_root :: string
  pp_segments :: "string list"

definition slash :: char where
  "slash = CHR ''/''"

definition root_of :: "string \<Rightarrow> string" where
  "root_of s = (if take 1 s \<noteq> [slash] then []
     else if take 2 s = [slash, slash] \<and> take 3 s \<noteq> [slash, slash, slash] then [slash, slash] else [slash])"

definition pure_path :: "string \<Rightarrow> pure_path" where
  "pure_path s = \<lparr>pp_root = root_of s,
     pp_segments = filter (\<lambda>w. w \<noteq> [] \<and> w \<noteq> ''.'') (split_on slash s)\<rparr>"

definition path_text :: "pure_path \<Rightarrow> string" where
  "path_text p = (let t = pp_root p @ join_with [slash] (pp_segments p) in if t = [] then ''.'' else t)"

text \<open>\<^verbatim>\<open>path == root or root in path.parents\<close>.\<close>

definition path_contains :: "pure_path \<Rightarrow> pure_path \<Rightarrow> bool" where
  "path_contains p root \<longleftrightarrow> pp_root p = pp_root root \<and>
     take (length (pp_segments root)) (pp_segments p) = pp_segments root"

definition rebase :: "pure_path \<Rightarrow> pure_path \<Rightarrow> pure_path \<Rightarrow> pure_path" where
  "rebase p old new = new\<lparr>pp_segments := pp_segments new @ drop (length (pp_segments old)) (pp_segments p)\<rparr>"

definition validate_absolute_path :: "string \<Rightarrow> string result" where
  "validate_absolute_path value =
     (let clean = strip value; p = pure_path clean
      in if \<not> starts_with [slash] clean \<or> ''..'' \<in> set (pp_segments p) \<or> CHR 0x00 \<in> set clean \<or>
            length clean > 1024
         then Inl (ValueError ''path must be an absolute normalized path'')
         else Inr (path_text p))"

section \<open>The mapper\<close>

record path_mapper =
  lm_identity :: "string list"
  lm_denied :: "string list"
  lm_mounts :: "(string \<times> string) list"

definition mapper_path :: "bool \<Rightarrow> string \<Rightarrow> pure_path result" where
  "mapper_path configured_root value =
     (case validate_absolute_path value of
        Inl _ \<Rightarrow> Inl (LocalSourcePathError ''invalid_path'' ''invalid local source path'')
      | Inr clean \<Rightarrow>
          (let p = pure_path clean
           in if configured_root \<and> p = \<lparr>pp_root = [slash], pp_segments = []\<rparr>
              then Inl (LocalSourcePathError ''root_not_allowed'' ''filesystem root cannot be approved'')
              else Inr p))"

definition mount_of :: "string \<times> string \<Rightarrow> (pure_path \<times> pure_path) result" where
  "mount_of m = bind_result (mapper_path True (fst m)) (\<lambda>host.
     bind_result (mapper_path True (snd m)) (\<lambda>container. Inr (host, container)))"

type_synonym mapper_config = "pure_path list \<times> pure_path list \<times> (pure_path \<times> pure_path) list"

definition mapper_configuration :: "path_mapper \<Rightarrow> mapper_config result" where
  "mapper_configuration m =
     bind_result (map_result (mapper_path True) (lm_identity m)) (\<lambda>identity.
     bind_result (map_result (mapper_path False) (lm_denied m)) (\<lambda>denied.
     bind_result (map_result mount_of (lm_mounts m)) (\<lambda>mounts.
       if \<not> distinct (map fst mounts)
       then Inl (LocalSourcePathError ''invalid_configuration'' ''duplicate host source root'')
       else if \<not> distinct (map snd mounts)
       then Inl (LocalSourcePathError ''invalid_configuration'' ''duplicate container source root'')
       else Inr (identity, denied, mounts))))"

text \<open>\<^verbatim>\<open>max(matches, key=len(parts))\<close>: the first of the longest; a root counts as one part.\<close>

definition path_parts :: "pure_path \<Rightarrow> nat" where
  "path_parts p = (if pp_root p = [] then 0 else 1) + length (pp_segments p)"

definition longest_by :: "('a \<Rightarrow> pure_path) \<Rightarrow> 'a list \<Rightarrow> 'a option" where
  "longest_by key xs = first_by (\<lambda>a b. path_parts (key a) > path_parts (key b)) xs"

definition denied_error :: exn where
  "denied_error = LocalSourcePathError ''denied_root'' ''local source is under a denied root''"

text \<open>A container target of a legacy profile is turned back into its host path first.\<close>

definition host_side :: "(pure_path \<times> pure_path) list \<Rightarrow> pure_path \<Rightarrow> pure_path" where
  "host_side mounts p =
     (let container_matches = filter (\<lambda>(host, container). path_contains p container) mounts;
          host_matches = filter (\<lambda>(host, container). path_contains p host) mounts
      in if host_matches \<noteq> [] then p
         else case longest_by snd container_matches of
           None \<Rightarrow> p | Some (host, container) \<Rightarrow> rebase p container host)"

definition check_host_path :: "mapper_config \<Rightarrow> pure_path \<Rightarrow> pure_path result" where
  "check_host_path config p =
     (case config of (identity, denied, mounts) \<Rightarrow>
       let path = host_side mounts p
       in if list_ex (path_contains path) denied then Inl denied_error
          else if \<not> list_ex (path_contains path) identity \<and>
            \<not> list_ex (\<lambda>(host, _). path_contains path host) mounts
          then Inl (LocalSourcePathError ''outside_configured_roots''
            ''local source is outside approved host roots'')
          else Inr path)"

definition canonical_host_path :: "path_mapper \<Rightarrow> string \<Rightarrow> string result" where
  "canonical_host_path m value =
     bind_result (mapper_path False value) (\<lambda>p.
     bind_result (mapper_configuration m) (\<lambda>config.
     bind_result (check_host_path config p) (\<lambda>path. Inr (path_text path))))"

definition container_side :: "(pure_path \<times> pure_path) list \<Rightarrow> pure_path \<Rightarrow> pure_path" where
  "container_side mounts p =
     (case longest_by fst (filter (\<lambda>(host, container). path_contains p host) mounts) of
        None \<Rightarrow> p | Some (host, container) \<Rightarrow> rebase p host container)"

definition container_path :: "path_mapper \<Rightarrow> string \<Rightarrow> string result" where
  "container_path m value =
     bind_result (canonical_host_path m value) (\<lambda>text.
     bind_result (mapper_configuration m) (\<lambda>(identity, denied, mounts).
       let translated = container_side mounts (pure_path text)
       in if list_ex (path_contains translated) denied then Inl denied_error
          else Inr (path_text translated)))"

definition container_roots :: "pure_path list \<Rightarrow> (pure_path \<times> pure_path) list \<Rightarrow> pure_path list" where
  "container_roots identity mounts =
     filter (\<lambda>root. \<not> list_ex (\<lambda>(host, _). path_contains root host \<or> path_contains host root) mounts) identity
     @ map snd mounts"

definition validate_container_path :: "path_mapper \<Rightarrow> string \<Rightarrow> string result" where
  "validate_container_path m value =
     bind_result (mapper_path False value) (\<lambda>path.
     bind_result (mapper_configuration m) (\<lambda>(identity, denied, mounts).
       if list_ex (path_contains path) denied then Inl denied_error
       else if \<not> list_ex (path_contains path) (container_roots identity mounts)
       then Inl (LocalSourcePathError ''container_escape''
         ''local source escapes its configured container root'')
       else Inr (path_text path)))"

text \<open>\<^verbatim>\<open>dict.fromkeys\<close>: duplicates go, the first occurrence stays.\<close>

definition remdups_first :: "'a list \<Rightarrow> 'a list" where
  "remdups_first xs = rev (remdups (rev xs))"

definition approved_container_roots :: "path_mapper \<Rightarrow> string list result" where
  "approved_container_roots m =
     bind_result (mapper_configuration m) (\<lambda>(identity, denied, mounts).
       Inr (remdups_first (map path_text
         (filter (\<lambda>root. \<not> list_ex (path_contains root) denied) (container_roots identity mounts)))))"

definition validate_approved_local_path :: "string \<Rightarrow> string list \<Rightarrow> string list \<Rightarrow> string result" where
  "validate_approved_local_path value allowed_roots denied_roots =
     bind_result (validate_absolute_path value) (\<lambda>clean.
     bind_result (map_result validate_absolute_path denied_roots) (\<lambda>denied.
     bind_result (map_result validate_absolute_path allowed_roots) (\<lambda>allowed.
       let p = pure_path clean
       in if list_ex (\<lambda>root. path_contains p (pure_path root)) denied
          then Inl (ValueError ''path is under a denied source root'')
          else if \<not> list_ex (\<lambda>root. path_contains p (pure_path root)) allowed
          then Inl (ValueError ''path is outside approved source roots'')
          else Inr clean)))"

section \<open>Normal forms\<close>

text \<open>What \<open>pure_path\<close> produces; on such paths printing and parsing are inverse.\<close>

definition normal_path :: "pure_path \<Rightarrow> bool" where
  "normal_path p \<longleftrightarrow> pp_root p \<in> {[slash], [slash, slash]} \<and>
     list_all (\<lambda>w. w \<noteq> [] \<and> w \<noteq> ''.'' \<and> slash \<notin> set w) (pp_segments p)"

lemma split_on_no_sep: "w \<in> set (split_on c s) \<Longrightarrow> c \<notin> set w"
  by (induction s arbitrary: w) (auto split: list.splits if_splits)

lemma split_on_word: "c \<notin> set w \<Longrightarrow> split_on c w = [w]"
  by (induction w) auto

lemma split_on_sep: "c \<notin> set w \<Longrightarrow> split_on c (w @ c # s) = w # split_on c s"
  by (induction w) auto

lemma split_on_join:
  "ws \<noteq> [] \<Longrightarrow> (\<And>w. w \<in> set ws \<Longrightarrow> c \<notin> set w) \<Longrightarrow> split_on c (join_with [c] ws) = ws"
  by (induction "[c]" ws rule: join_with.induct) (auto simp: split_on_word split_on_sep)

lemma normal_pure_path: "starts_with [slash] s \<Longrightarrow> normal_path (pure_path s)"
  by (auto simp: normal_path_def pure_path_def root_of_def starts_with_def list_all_iff dest: split_on_no_sep)

lemma join_segments_hd:
  "ws \<noteq> [] \<Longrightarrow> hd ws \<noteq> [] \<Longrightarrow> \<exists>r. join_with [c] ws = hd (hd ws) # r"
proof -
  assume "ws \<noteq> []" "hd ws \<noteq> []"
  then obtain b w vs where "ws = (b # w) # vs" by (cases ws; cases "hd ws") auto
  then show ?thesis by (cases vs) auto
qed

lemma parse_print: "normal_path p \<Longrightarrow> pure_path (path_text p) = p"
proof -
  assume n: "normal_path p"
  then have w: "w \<noteq> [] \<and> w \<noteq> ''.'' \<and> slash \<notin> set w" if "w \<in> set (pp_segments p)" for w
    using that by (simp add: normal_path_def list_all_iff)
  let ?b = "join_with [slash] (pp_segments p)"
  have root: "pp_root p = [slash] \<or> pp_root p = [slash, slash]" using n by (auto simp: normal_path_def)
  then have shown: "path_text p = pp_root p @ ?b" by (auto simp: path_text_def Let_def)
  have seg: "filter (\<lambda>w. w \<noteq> [] \<and> w \<noteq> ''.'') (split_on slash ?b) = pp_segments p"
    using w by (cases "pp_segments p = []") (auto simp: split_on_join filter_id_conv)
  have hd: "take 1 ?b \<noteq> [slash]"
  proof (cases "pp_segments p")
    case Nil
    then show ?thesis by simp
  next
    case (Cons v vs)
    with w have v: "v \<noteq> []" "slash \<notin> set v" by auto
    then obtain r where "?b = hd v # r" using join_segments_hd [of "pp_segments p" slash] Cons by auto
    then show ?thesis using v by (cases v) auto
  qed
  then have "root_of (path_text p) = pp_root p"
    using root unfolding shown by (cases ?b) (auto simp: root_of_def)
  moreover have "filter (\<lambda>w. w \<noteq> [] \<and> w \<noteq> ''.'') (split_on slash (path_text p)) = pp_segments p"
    using root seg unfolding shown by auto
  ultimately show ?thesis by (simp add: pure_path_def)
qed

text \<open>A path the validator accepts is normal and climbs nowhere.\<close>

definition safe_path :: "pure_path \<Rightarrow> bool" where
  "safe_path p \<longleftrightarrow> normal_path p \<and> ''..'' \<notin> set (pp_segments p)"

lemma safe_parse_print: "safe_path p \<Longrightarrow> pure_path (path_text p) = p"
  by (simp add: safe_path_def parse_print)

lemma validate_absolute_shape:
  "validate_absolute_path v = Inr s \<Longrightarrow> s = path_text (pure_path (strip v)) \<and> safe_path (pure_path (strip v))"
  by (auto simp: validate_absolute_path_def Let_def safe_path_def normal_pure_path split: if_splits)

lemma validate_absolute_again:
  assumes "safe_path p" and "strip (path_text p) = path_text p" and "length (path_text p) \<le> 1024"
    and "CHR 0x00 \<notin> set (path_text p)"
  shows "validate_absolute_path (path_text p) = Inr (path_text p)"
proof -
  have "starts_with [slash] (path_text p)"
    using assms(1) by (auto simp: safe_path_def normal_path_def starts_with_def path_text_def Let_def)
  with assms show ?thesis
    by (simp add: validate_absolute_path_def Let_def safe_parse_print safe_path_def)
qed

lemma mapper_path_safe: "mapper_path c v = Inr p \<Longrightarrow> safe_path p"
  by (auto simp: mapper_path_def Let_def safe_parse_print dest!: validate_absolute_shape
      split: sum.splits if_splits)

lemma map_result_Inr_mem:
  "map_result f xs = Inr ys \<Longrightarrow> y \<in> set ys \<Longrightarrow> \<exists>x \<in> set xs. f x = Inr y"
  by (induction xs arbitrary: ys) (auto simp: bind_result_Inr)

lemma configuration_safe:
  assumes "mapper_configuration m = Inr (identity, denied, mounts)"
  shows "r \<in> set identity \<Longrightarrow> safe_path r" and "(h, c) \<in> set mounts \<Longrightarrow> safe_path h \<and> safe_path c"
  using assms
  by (auto simp: mapper_configuration_def mount_of_def bind_result_Inr split: if_splits
      dest!: map_result_Inr_mem intro: mapper_path_safe)

lemma rebase_safe: "safe_path p \<Longrightarrow> safe_path new \<Longrightarrow> safe_path (rebase p old new)"
  by (auto simp: safe_path_def normal_path_def rebase_def list_all_iff dest: in_set_dropD)

lemma rebase_contained: "path_contains (rebase p old new) new"
  by (simp add: path_contains_def rebase_def)

lemma longest_by_mem: "longest_by key xs = Some x \<Longrightarrow> x \<in> set xs"
  by (auto simp: longest_by_def dest: first_by_mem)

lemma host_side_safe:
  assumes "safe_path p" and "\<And>h c. (h, c) \<in> set mounts \<Longrightarrow> safe_path h"
  shows "safe_path (host_side mounts p)"
  using assms by (auto simp: host_side_def Let_def dest!: longest_by_mem intro!: rebase_safe split: option.splits)

lemma container_side_cases:
  obtains (identity) "container_side mounts p = p" "\<not> list_ex (\<lambda>(h, _). path_contains p h) mounts"
    | (mounted) h c where "(h, c) \<in> set mounts" "path_contains p h" "container_side mounts p = rebase p h c"
proof (cases "longest_by fst (filter (\<lambda>(host, container). path_contains p host) mounts)")
  case None
  then have "\<not> list_ex (\<lambda>(h, _). path_contains p h) mounts"
    by (auto simp: longest_by_def filter_empty_conv list_ex_iff)
  with None identity show ?thesis by (simp add: container_side_def)
next
  case (Some hc)
  then obtain h c where hc: "hc = (h, c)" "(h, c) \<in> set mounts" "path_contains p h"
    by (cases hc) (auto dest!: longest_by_mem)
  with Some mounted show ?thesis by (simp add: container_side_def)
qed

text \<open>Where the translated path lies, given that the host path is approved.\<close>

lemma container_side_place:
  assumes "list_ex (path_contains q) identity \<or> list_ex (\<lambda>(h, _). path_contains q h) mounts"
  shows "list_ex (\<lambda>(h, c). path_contains (container_side mounts q) c) mounts \<or>
    list_ex (path_contains (container_side mounts q)) identity"
proof (cases rule: container_side_cases [of mounts q])
  case identity
  with assms show ?thesis by simp
next
  case (mounted h c)
  then have "list_ex (\<lambda>(h, c). path_contains (container_side mounts q) c) mounts"
    unfolding list_ex_iff by (intro bexI [of _ "(h, c)"]) (simp_all add: rebase_contained)
  then show ?thesis ..
qed

lemma check_host_path_Inr:
  "check_host_path (identity, denied, mounts) p = Inr q \<longleftrightarrow> q = host_side mounts p \<and>
     \<not> list_ex (path_contains q) denied \<and>
     (list_ex (path_contains q) identity \<or> list_ex (\<lambda>(h, _). path_contains q h) mounts)"
  by (auto simp: check_host_path_def Let_def split: if_splits)

lemma container_path_parts:
  assumes "container_path m v = Inr s" and "mapper_configuration m = Inr (identity, denied, mounts)"
  shows "\<exists>q. safe_path q \<and> (list_ex (path_contains q) identity \<or> list_ex (\<lambda>(h, _). path_contains q h) mounts) \<and>
    safe_path (container_side mounts q) \<and> s = path_text (container_side mounts q) \<and>
    \<not> list_ex (path_contains (container_side mounts q)) denied"
proof -
  note safe = configuration_safe [OF assms(2)]
  obtain p q where p: "mapper_path False v = Inr p" "check_host_path (identity, denied, mounts) p = Inr q"
    and s: "s = path_text (container_side mounts (pure_path (path_text q)))"
    and den: "\<not> list_ex (path_contains (container_side mounts (pure_path (path_text q)))) denied"
    using assms by (auto simp: container_path_def canonical_host_path_def bind_result_Inr Let_def split: if_splits)
  from p(2) have q: "q = host_side mounts p"
    "list_ex (path_contains q) identity \<or> list_ex (\<lambda>(h, _). path_contains q h) mounts"
    unfolding check_host_path_Inr by auto
  have sq: "safe_path q" unfolding q(1) by (rule host_side_safe [OF mapper_path_safe [OF p(1)]]) (use safe in blast)
  then have "safe_path (container_side mounts q)"
    by (cases rule: container_side_cases [of mounts q]) (use safe(2) in \<open>auto intro!: rebase_safe\<close>)
  with sq q(2) s den show ?thesis by (auto simp: safe_parse_print)
qed

text \<open>
  C32. A local source is confined: whatever text an operator enters, the path the worker opens has
  no parent references, lies under no denied root, and lies inside the container target of a
  configured mount or inside an approved identity root.
\<close>

theorem local_source_confined:
  assumes "container_path m v = Inr s" and "mapper_configuration m = Inr (identity, denied, mounts)"
  shows "''..'' \<notin> set (pp_segments (pure_path s)) \<and> pp_root (pure_path s) \<noteq> [] \<and>
    \<not> list_ex (path_contains (pure_path s)) denied \<and>
    (list_ex (\<lambda>(host, container). path_contains (pure_path s) container) mounts \<or>
     list_ex (path_contains (pure_path s)) identity)"
proof -
  from container_path_parts [OF assms] obtain q where q: "safe_path q"
      "list_ex (path_contains q) identity \<or> list_ex (\<lambda>(h, _). path_contains q h) mounts"
    and t: "safe_path (container_side mounts q)" "s = path_text (container_side mounts q)"
      "\<not> list_ex (path_contains (container_side mounts q)) denied" by blast
  have s: "pure_path s = container_side mounts q" using t by (simp add: safe_parse_print)
  show ?thesis using container_side_place [OF q(2)] t unfolding s
    by (auto simp: safe_path_def normal_path_def)
qed

text \<open>
  The two sides of the mapping agree: when no identity root overlaps a mounted host root, the
  path the profile form computes is accepted, unchanged, by the check the worker makes on the
  resolved path before it reads.
\<close>

theorem mapped_source_passes_worker_check:
  assumes "container_path m v = Inr s" and "mapper_configuration m = Inr (identity, denied, mounts)"
    and "\<And>r h c. r \<in> set identity \<Longrightarrow> (h, c) \<in> set mounts \<Longrightarrow> \<not> path_contains r h \<and> \<not> path_contains h r"
    and "strip s = s" and "length s \<le> 1024" and "CHR 0x00 \<notin> set s"
  shows "validate_container_path m s = Inr s"
proof -
  from container_path_parts [OF assms(1,2)] obtain q where q: "safe_path q"
      "list_ex (path_contains q) identity \<or> list_ex (\<lambda>(h, _). path_contains q h) mounts"
    and t: "safe_path (container_side mounts q)" "s = path_text (container_side mounts q)"
      "\<not> list_ex (path_contains (container_side mounts q)) denied" by blast
  let ?t = "container_side mounts q"
  have s: "pure_path s = ?t" using t by (simp add: safe_parse_print)
  have mp: "mapper_path False s = Inr ?t"
    using validate_absolute_again [OF t(1)] assms(4-6) t(1,2) s by (simp add: mapper_path_def Let_def)
  have roots: "container_roots identity mounts = identity @ map snd mounts"
    using assms(3) by (auto simp: container_roots_def filter_id_conv list_ex_iff)
  have placed: "list_ex (path_contains ?t) (identity @ map snd mounts)"
    using container_side_place [OF q(2)] by (fastforce simp: list_ex_iff intro: rev_image_eqI)
  show ?thesis
    using t(3) placed by (simp add: validate_container_path_def mp assms(2) roots bind_result_def)
      (simp add: t(2))
qed


text \<open>A configuration with one mount and one identity root, and a source under each.\<close>

definition demo_mapper :: path_mapper where
  "demo_mapper = \<lparr>lm_identity = [''/srv/''], lm_denied = [''/srv/./work''], lm_mounts = [(''/etc'', ''/host/etc'')]\<rparr>"

lemma demo_mapper_configuration:
  "mapper_configuration demo_mapper = Inr
     ([\<lparr>pp_root = ''/'', pp_segments = [''srv'']\<rparr>],
      [\<lparr>pp_root = ''/'', pp_segments = [''srv'', ''work'']\<rparr>],
      [(\<lparr>pp_root = ''/'', pp_segments = [''etc'']\<rparr>, \<lparr>pp_root = ''/'', pp_segments = [''host'', ''etc'']\<rparr>)])"
  by code_simp

lemma demo_mapper_container: "container_path demo_mapper '' /etc//nginx/ '' = Inr ''/host/etc/nginx''"
  by code_simp

lemma local_source_confined_witness:
  "\<not> path_contains (pure_path ''/host/etc/nginx'') \<lparr>pp_root = ''/'', pp_segments = [''srv'', ''work'']\<rparr> \<and>
   pp_root (pure_path ''/host/etc/nginx'') \<noteq> []"
  using local_source_confined [OF demo_mapper_container demo_mapper_configuration] by simp

lemma mapped_source_passes_worker_check_witness:
  "validate_container_path demo_mapper ''/host/etc/nginx'' = Inr ''/host/etc/nginx''"
proof -
  have "strip ''/host/etc/nginx'' = ''/host/etc/nginx''" by code_simp
  then show ?thesis
    using mapped_source_passes_worker_check [OF demo_mapper_container demo_mapper_configuration]
    by (simp add: path_contains_def)
qed

text \<open>
  A directory whose name ends in a space is stored with that space when a slash follows it, and
  read back without it: the validator strips before it normalises, not after.
\<close>

lemma trailing_space_directory_changes:
  "validate_absolute_path ''/srv/data /'' = Inr ''/srv/data '' \<and>
   validate_absolute_path ''/srv/data '' = Inr ''/srv/data''"
  by code_simp

text \<open>
  An identity root that contains a mounted host root is dropped from the worker's roots, so a
  source beside the mount is accepted by the form and refused when the backup runs.
\<close>

lemma overlapping_roots_disagree:
  "container_path (demo_mapper\<lparr>lm_identity := [''/srv''], lm_mounts := [(''/srv/db'', ''/host/db'')]\<rparr>) ''/srv/www'' =
     Inr ''/srv/www'' \<and>
   validate_container_path (demo_mapper\<lparr>lm_identity := [''/srv''], lm_mounts := [(''/srv/db'', ''/host/db'')]\<rparr>) ''/srv/www'' =
     Inl (LocalSourcePathError ''container_escape'' ''local source escapes its configured container root'')"
  by code_simp

end
