(* ===== verification/ProfileConfig.thy ===== *)
theory ProfileConfig
  imports SourcePaths Scheduling
begin

text \<open>
  The configuration values a profile is made of and their validators, from
  \<^verbatim>\<open>src/src/application/profile_config.py\<close>, and the check constraints the tables of
  \<^verbatim>\<open>src/src/database/models/backup_profile.py\<close> put on the rows they become. The cron grammar is
  that of the third-party \<^verbatim>\<open>croniter\<close> and a parameter.
\<close>

section \<open>Simple values\<close>

definition host_char :: "char \<Rightarrow> bool" where
  "host_char c \<longleftrightarrow> is_alnum c \<or> c \<in> set ''.:-''"

definition validate_host :: "string \<Rightarrow> string result" where
  "validate_host value =
     (let host = strip value
      in if host \<noteq> [] \<and> is_alnum (hd host) \<and> is_alnum (last host) \<and> list_all host_char host \<and>
            length host \<le> 253 \<and> \<not> list_ex is_space host
         then Inr host else Inl (ValueError ''invalid host or IP address''))"

definition validate_port :: "int \<Rightarrow> int result" where
  "validate_port value =
     (if \<not> (1 \<le> value \<and> value \<le> 65535) then Inl (ValueError ''port must be between 1 and 65535'') else Inr value)"

definition validate_docker_container_name :: "string \<Rightarrow> string result" where
  "validate_docker_container_name value =
     (let clean = strip value
      in if clean \<noteq> [] \<and> is_alnum (hd clean) \<and> list_all (\<lambda>c. is_alnum c \<or> c \<in> set ''_.-'') clean \<and>
            length clean \<le> 128
         then Inr clean else Inl (ValueError ''invalid Docker container name''))"

definition age_recipient_ok :: "string \<Rightarrow> bool" where
  "age_recipient_ok s \<longleftrightarrow> starts_with ''age1'' s \<and> 24 \<le> length s \<and> length s \<le> 104 \<and>
     list_all (\<lambda>c. is_digit c \<or> is_lower c) (drop 4 s)"

definition validate_timezone :: "time_env \<Rightarrow> string \<Rightarrow> string result" where
  "validate_timezone env value =
     (case zoneinfo env value of None \<Rightarrow> Inl (ValueError ''unknown backup timezone'') | Some _ \<Rightarrow> Inr value)"

section \<open>Schedules\<close>

fun split_by :: "(char \<Rightarrow> bool) \<Rightarrow> string \<Rightarrow> string list" where
  "split_by p [] = [[]]"
| "split_by p (x # xs) =
     (if p x then [] # split_by p xs
      else case split_by p xs of [] \<Rightarrow> [[x]] | w # ws \<Rightarrow> (x # w) # ws)"

text \<open>\<^verbatim>\<open>str.split()\<close>, and \<^verbatim>\<open>str.upper()\<close> on the letters the cron grammar can use.\<close>

definition words :: "string \<Rightarrow> string list" where
  "words s = filter (\<lambda>w. w \<noteq> []) (split_by is_space s)"

definition upper_char :: "char \<Rightarrow> char" where
  "upper_char c = (if is_lower c then char_of ((of_char c :: nat) - 32) else c)"

definition normalize_cron :: "string \<Rightarrow> string" where
  "normalize_cron s = join_with '' '' (words s)"

definition calendar_names :: "string list" where
  "calendar_names = [''JAN'', ''FEB'', ''MAR'', ''APR'', ''MAY'', ''JUN'', ''JUL'', ''AUG'', ''SEP'',
     ''OCT'', ''NOV'', ''DEC'', ''SUN'', ''MON'', ''TUE'', ''WED'', ''THU'', ''FRI'', ''SAT'']"

fun replace_names :: "string \<Rightarrow> string" where
  "replace_names (a # b # c # rest) =
     (if [a, b, c] \<in> set calendar_names then CHR ''1'' # replace_names rest
      else a # replace_names (b # c # rest))"
| "replace_names s = s"

definition standard_cron :: "string \<Rightarrow> bool" where
  "standard_cron s \<longleftrightarrow> (let t = replace_names (map upper_char s)
     in t \<noteq> [] \<and> list_all (\<lambda>c. is_digit c \<or> c \<in> set ''*/ ,-'') t)"

record cron_env =
  cron_valid :: "string \<Rightarrow> bool"
  cron_possible :: "string \<Rightarrow> bool"

record schedule_config =
  sc_kind :: schedule_kind
  sc_interval :: "int option"
  sc_time :: "string option"
  sc_weekday :: "int option"
  sc_monthday :: "int option"
  sc_cron :: "string option"

definition normalized_cron_expression :: "schedule_config \<Rightarrow> string option" where
  "normalized_cron_expression c = map_option normalize_cron (sc_cron c)"

definition interval_limit :: "schedule_kind \<Rightarrow> int option" where
  "interval_limit kind = (case kind of EveryNMinutes \<Rightarrow> Some 10080 | EveryNHours \<Rightarrow> Some 8760
     | EveryNDays \<Rightarrow> Some 3650 | _ \<Rightarrow> None)"

text \<open>\<^verbatim>\<open>(?:[01]\d|2[0-3]):[0-5]\d\<close>\<close>

definition clock_text_ok :: "string \<Rightarrow> bool" where
  "clock_text_ok t \<longleftrightarrow> (case t of
       [a, b, c, d, e] \<Rightarrow> (a \<in> set ''01'' \<and> is_digit b \<or> a = CHR ''2'' \<and> b \<in> set ''0123'') \<and>
         c = CHR '':'' \<and> d \<in> set ''012345'' \<and> is_digit e
     | _ \<Rightarrow> False)"

definition invalid :: "string \<Rightarrow> unit result" where
  "invalid msg = Inl (ValueError msg)"

definition check_interval :: "schedule_config \<Rightarrow> unit result" where
  "check_interval c =
     (case interval_limit (sc_kind c) of
        Some limit \<Rightarrow> (case sc_interval c of
            None \<Rightarrow> invalid ''invalid schedule interval''
          | Some n \<Rightarrow> if 1 \<le> n \<and> n \<le> limit then Inr () else invalid ''invalid schedule interval'')
      | None \<Rightarrow> if sc_interval c \<noteq> None then invalid ''interval is not valid for this schedule'' else Inr ())"

definition check_clock :: "schedule_config \<Rightarrow> unit result" where
  "check_clock c =
     (if sc_kind c \<in> {Daily, Weekly, Monthly}
      then (case sc_time c of
          None \<Rightarrow> invalid ''time must use HH:MM''
        | Some t \<Rightarrow> if clock_text_ok t then Inr () else invalid ''time must use HH:MM'')
      else if sc_time c \<noteq> None then invalid ''time is not valid for this schedule'' else Inr ())"

definition check_days :: "schedule_config \<Rightarrow> unit result" where
  "check_days c =
     (if (sc_kind c = Weekly) \<noteq> (sc_weekday c \<noteq> None) then invalid ''weekly schedules require exactly one weekday''
      else if (case sc_weekday c of None \<Rightarrow> False | Some w \<Rightarrow> \<not> (0 \<le> w \<and> w \<le> 6))
      then invalid ''weekday must be between 0 and 6''
      else if (sc_kind c = Monthly) \<noteq> (sc_monthday c \<noteq> None) then invalid ''monthly schedules require exactly one day''
      else if (case sc_monthday c of None \<Rightarrow> False | Some m \<Rightarrow> \<not> (1 \<le> m \<and> m \<le> 28))
      then invalid ''month day must be between 1 and 28'' else Inr ())"

definition check_cron :: "cron_env \<Rightarrow> schedule_config \<Rightarrow> unit result" where
  "check_cron env c =
     (if sc_kind c = Cron
      then (case sc_cron c of
          None \<Rightarrow> invalid ''cron schedules require an expression''
        | Some text \<Rightarrow>
            (let expression = normalize_cron text
             in if length expression > 200 \<or> length (words expression) \<noteq> 5
                then invalid ''cron expression must contain exactly five fields''
                else if \<not> standard_cron expression \<or> \<not> cron_valid env expression
                then invalid ''invalid cron expression''
                else if \<not> cron_possible env expression
                then invalid ''cron expression has no possible execution date'' else Inr ()))
      else if sc_cron c \<noteq> None then invalid ''cron expression is not valid for this schedule'' else Inr ())"

definition validate_schedule :: "cron_env \<Rightarrow> schedule_config \<Rightarrow> schedule_config result" where
  "validate_schedule env c =
     bind_result (check_interval c) (\<lambda>_. bind_result (check_clock c) (\<lambda>_.
     bind_result (check_days c) (\<lambda>_. bind_result (check_cron env c) (\<lambda>_. Inr c))))"

section \<open>Compression and encryption\<close>

record compression_config =
  cc_format :: compression_format
  cc_preset :: "compression_preset option"
  cc_archive :: "archive_format option"
  cc_override :: "compression_algorithm option"

definition config_archive_format :: "compression_config \<Rightarrow> archive_format" where
  "config_archive_format c =
     (case cc_archive c of Some a \<Rightarrow> a
      | None \<Rightarrow> (case cc_format c of Fmt_Zip \<Rightarrow> Arc_Zip | Fmt_SevenZ \<Rightarrow> Arc_SevenZ | _ \<Rightarrow> Arc_Tar))"

definition config_algorithm :: "compression_config \<Rightarrow> compression_algorithm" where
  "config_algorithm c =
     (case cc_override c of Some a \<Rightarrow> a
      | None \<Rightarrow> (case cc_format c of Fmt_None \<Rightarrow> Alg_None | Fmt_Zstandard \<Rightarrow> Alg_Zstandard
          | Fmt_Gzip \<Rightarrow> Alg_Gzip | Fmt_XZ \<Rightarrow> Alg_XZ | Fmt_Bzip2 \<Rightarrow> Alg_Bzip2
          | Fmt_Zip \<Rightarrow> Alg_None | Fmt_SevenZ \<Rightarrow> Alg_None))"

definition validate_compression :: "compression_config \<Rightarrow> compression_config result" where
  "validate_compression c =
     (let legacy_container = cc_override c = None \<and> cc_format c \<in> {Fmt_Zip, Fmt_SevenZ}
      in if config_algorithm c = Alg_None \<and> cc_preset c \<noteq> None \<and> \<not> legacy_container
         then Inl (ValueError ''no-compression mode cannot have a preset'')
         else if config_algorithm c \<noteq> Alg_None \<and> cc_preset c = None
         then Inl (ValueError ''compressed formats require a preset'') else Inr c)"

fun shadow_format :: "compression_algorithm \<Rightarrow> compression_format" where
  "shadow_format Alg_None = Fmt_None"
| "shadow_format Alg_Gzip = Fmt_Gzip"
| "shadow_format Alg_Bzip2 = Fmt_Bzip2"
| "shadow_format Alg_XZ = Fmt_XZ"
| "shadow_format Alg_Zstandard = Fmt_Zstandard"
| "shadow_format Alg_LZ4 = Fmt_Zstandard"

definition separated ::
  "archive_format \<Rightarrow> compression_algorithm \<Rightarrow> compression_preset option \<Rightarrow> compression_config result" where
  "separated archive algorithm preset =
     (if algorithm = Alg_None \<and> preset \<noteq> None
      then Inl (ValueError ''no-compression mode cannot have a preset'')
      else if algorithm \<noteq> Alg_None \<and> preset = None
      then Inl (ValueError ''compressed algorithms require a preset'')
      else Inr \<lparr>cc_format = shadow_format algorithm, cc_preset = preset, cc_archive = Some archive,
                cc_override = Some algorithm\<rparr>)"

record encryption_config =
  ec_mode :: encryption_mode
  ec_recipients :: "string list"
  ec_passphrase :: "string option"

definition given :: "string option \<Rightarrow> bool" where
  "given s \<longleftrightarrow> s \<noteq> None \<and> s \<noteq> Some []"

definition validate_encryption :: "bool \<Rightarrow> encryption_config \<Rightarrow> encryption_config result" where
  "validate_encryption allow_missing_passphrase c =
     (case ec_mode c of
        Enc_None \<Rightarrow>
          if ec_recipients c \<noteq> [] \<or> given (ec_passphrase c)
          then Inl (ValueError ''unencrypted profiles cannot include encryption secrets'') else Inr c
      | AgePublicKey \<Rightarrow>
          if ec_recipients c = [] \<or> given (ec_passphrase c)
          then Inl (ValueError ''public-key mode requires recipients only'')
          else if \<not> list_all age_recipient_ok (ec_recipients c)
          then Inl (ValueError ''invalid age recipient'') else Inr c
      | AgePassphrase \<Rightarrow>
          if (\<not> given (ec_passphrase c) \<and> \<not> allow_missing_passphrase) \<or> ec_recipients c \<noteq> []
          then Inl (ValueError ''passphrase mode requires a passphrase only'') else Inr c)"

text \<open>\<open>dumps\<close> is the text \<^verbatim>\<open>json.dumps\<close> gives a value.\<close>

definition recipients_json :: "(json \<Rightarrow> string) \<Rightarrow> encryption_config \<Rightarrow> string option" where
  "recipients_json dumps c =
     (if ec_recipients c = [] then None
      else Some (dumps (JList (map JStr (remdups_first (ec_recipients c))))))"

section \<open>Sources\<close>

record database_config =
  dc_engine :: database_engine
  dc_host :: string
  dc_port :: int
  dc_name :: string
  dc_username :: string
  dc_password :: "string option"
  dc_tls :: tls_mode
  dc_tls_ca :: "string option"
  dc_in_docker :: bool
  dc_backup_path :: "string option"
  dc_host_path :: "string option"
  dc_server_id :: "int option"

definition check_credentials :: "bool \<Rightarrow> database_config \<Rightarrow> unit result" where
  "check_credentials allow_missing_password c =
     (if strip (dc_name c) = [] \<or> strip (dc_username c) = [] \<or>
         (\<not> given (dc_password c) \<and> \<not> allow_missing_password)
      then invalid ''database name, username, and password are required''
      else if dc_tls c \<in> {TLS_VerifyCA, TLS_VerifyFull} \<and> \<not> given (dc_tls_ca c)
      then invalid ''certificate verification requires a CA certificate'' else Inr ())"

definition check_mssql :: "database_config \<Rightarrow> unit result" where
  "check_mssql c =
     (if dc_engine c = MSSQL
      then (case dc_backup_path c of
          None \<Rightarrow> invalid ''MSSQL requires a backup destination path''
        | Some p \<Rightarrow> bind_result (validate_absolute_path p) (\<lambda>_.
            if dc_in_docker c
            then (case dc_host_path c of
                None \<Rightarrow> invalid ''containerized MSSQL requires its mounted host path''
              | Some h \<Rightarrow> bind_result (validate_absolute_path h) (\<lambda>_. Inr ()))
            else if dc_host_path c \<noteq> None
            then invalid ''non-Docker MSSQL cannot have a mounted host path'' else Inr ()))
      else if dc_in_docker c \<or> given (dc_backup_path c) \<or> given (dc_host_path c) \<or>
        (dc_server_id c \<noteq> None \<and> dc_server_id c \<noteq> Some 0)
      then invalid ''MSSQL-only fields are not valid for this engine'' else Inr ())"

definition validate_database :: "bool \<Rightarrow> database_config \<Rightarrow> database_config result" where
  "validate_database allow_missing_password c =
     bind_result (validate_host (dc_host c)) (\<lambda>_. bind_result (validate_port (dc_port c)) (\<lambda>_.
     bind_result (check_credentials allow_missing_password c) (\<lambda>_.
     bind_result (check_mssql c) (\<lambda>_. Inr c))))"

record files_config =
  fc_location :: source_location
  fc_paths :: "string list"
  fc_server_id :: "int option"

definition validate_files :: "files_config \<Rightarrow> files_config result" where
  "validate_files c =
     (if fc_paths c = [] then Inl (ValueError ''at least one path is required'')
      else bind_result (map_result validate_absolute_path (fc_paths c)) (\<lambda>_.
        if fc_location c = RemoteServer \<and> fc_server_id c = None
        then Inl (ValueError ''remote file sources require a remote server'')
        else if fc_location c = LocalSource \<and> fc_server_id c \<noteq> None
        then Inl (ValueError ''local file sources cannot reference a remote server'') else Inr c))"

record gitlab_config =
  gc_location :: source_location
  gc_container :: string
  gc_backup_path :: "string option"
  gc_server_id :: "int option"

definition validate_gitlab :: "gitlab_config \<Rightarrow> gitlab_config result" where
  "validate_gitlab c =
     bind_result (validate_docker_container_name (gc_container c)) (\<lambda>_.
       case gc_location c of
         RemoteServer \<Rightarrow>
           if gc_server_id c = None then Inl (ValueError ''remote GitLab sources require a remote server'')
           else (case gc_backup_path c of
               None \<Rightarrow> Inl (ValueError ''remote GitLab sources require a backup path'')
             | Some p \<Rightarrow> bind_result (validate_absolute_path p) (\<lambda>path.
                 if path = [slash] then Inl (ValueError ''GitLab backup root cannot be filesystem root'')
                 else Inr c))
       | LocalSource \<Rightarrow>
           if gc_server_id c \<noteq> None then Inl (ValueError ''local GitLab sources cannot reference a remote server'')
           else if gc_backup_path c \<noteq> None
           then Inl (ValueError ''local GitLab sources cannot define a backup path'') else Inr c)"

end
