(* ===== verification/Constraints.thy ===== *)
theory Constraints
  imports ProfileConfig
begin

text \<open>
  The \<^verbatim>\<open>CheckConstraint\<close>s of the profile, source and server tables
  (\<^verbatim>\<open>src/src/database/models/backup_profile.py\<close> and \<^verbatim>\<open>remote_server.py\<close>), as the database
  evaluates them on a row that is flushed: a comparison with a null value does not fail a check.
  The checks that only list the members of an enumeration hold by typing.
\<close>

section \<open>Profiles\<close>

definition null_or :: "('a \<Rightarrow> bool) \<Rightarrow> 'a option \<Rightarrow> bool" where
  "null_or ok v \<longleftrightarrow> (case v of None \<Rightarrow> True | Some x \<Rightarrow> ok x)"

definition schedule_values_ok :: "profile \<Rightarrow> bool" where
  "schedule_values_ok p \<longleftrightarrow> null_or (\<lambda>n. n > 0) (p_interval p) \<and>
     null_or (\<lambda>w. 0 \<le> w \<and> w \<le> 6) (p_weekday p) \<and> null_or (\<lambda>m. 1 \<le> m \<and> m \<le> 28) (p_monthday p) \<and>
     null_or (\<lambda>c. 1 \<le> length c \<and> length c \<le> 200) (p_cron p)"

definition interval_limits_ok :: "profile \<Rightarrow> bool" where
  "interval_limits_ok p \<longleftrightarrow> (p_kind p \<noteq> EveryNMinutes \<or> null_or (\<lambda>n. n \<le> 10080) (p_interval p)) \<and>
     (p_kind p \<noteq> EveryNHours \<or> null_or (\<lambda>n. n \<le> 8760) (p_interval p)) \<and>
     (p_kind p \<noteq> EveryNDays \<or> null_or (\<lambda>n. n \<le> 3650) (p_interval p))"

definition char_between :: "char \<Rightarrow> char \<Rightarrow> char \<Rightarrow> bool" where
  "char_between lo hi c \<longleftrightarrow> (of_char lo :: nat) \<le> of_char c \<and> (of_char c :: nat) \<le> of_char hi"

text \<open>Two-character texts between \<^verbatim>\<open>'00'\<close> and \<^verbatim>\<open>'23'\<close> in the order of their codes.\<close>

definition hour_text_ok :: "char \<Rightarrow> char \<Rightarrow> bool" where
  "hour_text_ok a b \<longleftrightarrow>
     ((of_char a :: nat) > 48 \<or> a = CHR ''0'' \<and> (of_char b :: nat) \<ge> 48) \<and>
     ((of_char a :: nat) < 50 \<or> a = CHR ''2'' \<and> (of_char b :: nat) \<le> 51)"

definition time_row_ok :: "string \<Rightarrow> bool" where
  "time_row_ok t \<longleftrightarrow> (case t of
       [a, b, c, d, e] \<Rightarrow> char_between (CHR ''0'') (CHR ''9'') a \<and> char_between (CHR ''0'') (CHR ''9'') b \<and>
         c = CHR '':'' \<and> char_between (CHR ''0'') (CHR ''5'') d \<and> char_between (CHR ''0'') (CHR ''9'') e \<and>
         hour_text_ok a b
     | _ \<Rightarrow> False)"

text \<open>Which of the five schedule columns each kind sets: the others are null.\<close>

definition schedule_shape_ok :: "profile \<Rightarrow> bool" where
  "schedule_shape_ok p \<longleftrightarrow>
     (let used = (p_interval p \<noteq> None, p_time p \<noteq> None, p_weekday p \<noteq> None, p_monthday p \<noteq> None, p_cron p \<noteq> None)
      in case p_kind p of
           Manual \<Rightarrow> used = (False, False, False, False, False)
         | Once \<Rightarrow> used = (False, False, False, False, False)
         | EveryNMinutes \<Rightarrow> used = (True, False, False, False, False)
         | EveryNHours \<Rightarrow> used = (True, False, False, False, False)
         | EveryNDays \<Rightarrow> used = (True, False, False, False, False)
         | Daily \<Rightarrow> used = (False, True, False, False, False)
         | Weekly \<Rightarrow> used = (False, True, True, False, False)
         | Monthly \<Rightarrow> used = (False, True, False, True, False)
         | Cron \<Rightarrow> used = (False, False, False, False, True))"

definition schedule_row_ok :: "profile \<Rightarrow> bool" where
  "schedule_row_ok p \<longleftrightarrow> schedule_values_ok p \<and> interval_limits_ok p \<and> null_or time_row_ok (p_time p) \<and>
     schedule_shape_ok p"

definition compression_row_ok :: "profile \<Rightarrow> bool" where
  "compression_row_ok p \<longleftrightarrow> (p_format p = Fmt_None) = (p_preset p = None)"

definition encryption_row_ok :: "profile \<Rightarrow> bool" where
  "encryption_row_ok p \<longleftrightarrow>
     p_encryption p = Enc_None \<and> p_recipients p = None \<and> p_age_secret p = None \<or>
     p_encryption p = AgePublicKey \<and> p_recipients p \<notin> {None, Some []} \<and> p_age_secret p = None \<or>
     p_encryption p = AgePassphrase \<and> p_recipients p = None \<and> p_age_secret p \<notin> {None, Some []}"

section \<open>Sources and servers\<close>

definition database_row_ok :: "database_source \<Rightarrow> bool" where
  "database_row_ok s \<longleftrightarrow> 1 \<le> d_port s \<and> d_port s \<le> 65535 \<and>
     (if d_engine s \<noteq> MSSQL
      then \<not> d_in_docker s \<and> d_backup_path s = None \<and> d_host_path s = None \<and> d_server_id s = None
      else d_backup_path s \<noteq> None \<and> (d_in_docker s = (d_host_path s \<noteq> None))) \<and>
     (d_tls s \<in> {TLS_VerifyCA, TLS_VerifyFull} \<longrightarrow> (case d_tls_ca s of None \<Rightarrow> False | Some t \<Rightarrow> length t > 0))"

definition path_row_ok :: "backup_path \<Rightarrow> bool" where
  "path_row_ok b \<longleftrightarrow> length (bp_path b) > 0"

definition files_row_ok :: "files_source \<Rightarrow> bool" where
  "files_row_ok s \<longleftrightarrow> (f_location s = RemoteServer) = (f_server_id s \<noteq> None) \<and> list_all path_row_ok (f_paths s)"

definition gitlab_row_ok :: "gitlab_source \<Rightarrow> bool" where
  "gitlab_row_ok s \<longleftrightarrow> (g_location s = RemoteServer) = (g_server_id s \<noteq> None) \<and>
     1 \<le> length (g_container s) \<and> length (g_container s) \<le> 128 \<and>
     (case g_location s of LocalSource \<Rightarrow> g_backup_path s = None
      | RemoteServer \<Rightarrow> null_or (\<lambda>t. length t > 1) (g_backup_path s))"

definition profile_row_ok :: "profile \<Rightarrow> bool" where
  "profile_row_ok p \<longleftrightarrow> schedule_row_ok p \<and> compression_row_ok p \<and> encryption_row_ok p \<and>
     null_or database_row_ok (p_database p) \<and> null_or files_row_ok (p_files p) \<and> null_or gitlab_row_ok (p_gitlab p)"

definition server_row_ok :: "remote_server \<Rightarrow> bool" where
  "server_row_ok s \<longleftrightarrow> 1 \<le> s_port s \<and> s_port s \<le> 65535"

end
