(* ===== verification/Planning.thy ===== *)
theory Planning
  imports Constraints Demo
begin

text \<open>
  What a validated schedule guarantees once stored: the row satisfies the table's constraints,
  and \<^verbatim>\<open>next_scheduled_time\<close> gives a cursor that lies later, for every zone whose clock runs
  steadily (the locale \<open>steady_zone\<close>; the fixed offsets are its instances).
\<close>

text \<open>The six assignments with which \<^verbatim>\<open>_create_configured\<close> and \<^verbatim>\<open>update_configuration\<close> store a schedule.\<close>

definition store_schedule :: "schedule_config \<Rightarrow> profile \<Rightarrow> profile" where
  "store_schedule c p = p\<lparr>p_kind := sc_kind c, p_interval := sc_interval c, p_time := sc_time c,
     p_weekday := sc_weekday c, p_monthday := sc_monthday c, p_cron := normalized_cron_expression c\<rparr>"

lemma store_schedule_simps [simp]:
  "p_kind (store_schedule c p) = sc_kind c" "p_interval (store_schedule c p) = sc_interval c"
  "p_time (store_schedule c p) = sc_time c" "p_weekday (store_schedule c p) = sc_weekday c"
  "p_monthday (store_schedule c p) = sc_monthday c"
  "p_cron (store_schedule c p) = normalized_cron_expression c"
  by (simp_all add: store_schedule_def)

section \<open>The row\<close>

lemma digit_between: "is_digit c \<longleftrightarrow> char_between (CHR ''0'') (CHR ''9'') c"
  by (simp add: is_digit_def char_between_def Let_def)

lemma clock_text_cases:
  assumes "clock_text_ok t"
  obtains a b d e where "t = [a, b, CHR '':'', d, e]" "is_digit a" "is_digit b" "is_digit d" "is_digit e"
    "digit_value a * 10 + digit_value b \<le> 23" "digit_value d \<le> 5" "hour_text_ok a b"
proof -
  obtain a b d e where t: "t = [a, b, CHR '':'', d, e]"
    using assms by (auto simp: clock_text_ok_def split: list.splits)
  then have ab: "(a \<in> set ''01'' \<and> is_digit b) \<or> (a = CHR ''2'' \<and> b \<in> set ''0123'')"
    and d: "d \<in> set ''012345''" and e: "is_digit e" using assms by (auto simp: clock_text_ok_def)
  have "is_digit a \<and> is_digit b \<and> digit_value a * 10 + digit_value b \<le> 23 \<and> hour_text_ok a b"
    using ab by (auto simp: is_digit_def digit_value_def hour_text_ok_def Let_def)
  moreover have "is_digit d \<and> digit_value d \<le> 5" using d by (auto simp: is_digit_def digit_value_def)
  ultimately show ?thesis using that t e by blast
qed

lemma clock_text_row: "clock_text_ok t \<Longrightarrow> time_row_ok t"
proof -
  assume ok: "clock_text_ok t"
  then obtain a b d e where t: "t = [a, b, CHR '':'', d, e]" "is_digit a" "is_digit b" "is_digit e" "hour_text_ok a b"
    by (rule clock_text_cases)
  from ok t(1) have "d \<in> set ''012345''" by (auto simp: clock_text_ok_def)
  then have "char_between (CHR ''0'') (CHR ''5'') d" by (auto simp: char_between_def)
  with t show ?thesis by (simp add: time_row_ok_def digit_between)
qed

lemma words_Nil: "words [] = []"
  by (simp add: words_def)

lemma validate_schedule_parts:
  "validate_schedule env c = Inr c' \<longleftrightarrow> c' = c \<and> check_interval c = Inr () \<and> check_clock c = Inr () \<and>
     check_days c = Inr () \<and> check_cron env c = Inr ()"
  by (auto simp: validate_schedule_def bind_result_Inr)

lemmas schedule_checks = check_interval_def check_clock_def check_days_def check_cron_def invalid_def
  interval_limit_def normalized_cron_expression_def Let_def

text \<open>
  Every schedule the validator accepts becomes a row that satisfies the check constraints of
  \<^verbatim>\<open>backup_profiles\<close> on its schedule: the database never refuses what the service accepted.
\<close>

lemma accepted_schedule_fits_row:
  assumes "validate_schedule env c = Inr c'"
  shows "schedule_row_ok (store_schedule c' p)"
proof -
  from assms have c: "c' = c" "check_interval c = Inr ()" "check_clock c = Inr ()" "check_days c = Inr ()"
    "check_cron env c = Inr ()" by (simp_all add: validate_schedule_parts)
  have cron: "null_or (\<lambda>t. 1 \<le> length t \<and> length t \<le> 200) (map_option normalize_cron (sc_cron c))"
  proof (cases "sc_cron c")
    case (Some t)
    with c(5) have w: "length (words (normalize_cron t)) = 5" "length (normalize_cron t) \<le> 200"
      by (auto simp: schedule_checks split: if_splits)
    then have "normalize_cron t \<noteq> []" by (metis words_Nil list.size(3) zero_neq_numeral)
    with w Some show ?thesis by (simp add: null_or_def Suc_le_eq)
  qed (simp add: null_or_def)
  have clock: "null_or time_row_ok (sc_time c)"
    using c(3) by (auto simp: check_clock_def null_or_def invalid_def clock_text_row split: option.splits if_splits)
  show ?thesis
    using c cron clock
    by (cases "sc_kind c")
       (auto simp: schedule_row_ok_def schedule_values_ok_def interval_limits_ok_def schedule_shape_ok_def
         null_or_def schedule_checks split: option.splits if_splits)
qed

definition demo_cron_env :: cron_env where
  "demo_cron_env = \<lparr>cron_valid = (\<lambda>_. True), cron_possible = (\<lambda>_. True)\<rparr>"

definition demo_weekly :: schedule_config where
  "demo_weekly = \<lparr>sc_kind = Weekly, sc_interval = None, sc_time = Some ''21:30'', sc_weekday = Some 4,
     sc_monthday = None, sc_cron = None\<rparr>"

lemma demo_weekly_valid: "validate_schedule demo_cron_env demo_weekly = Inr demo_weekly"
  by code_simp

section \<open>The cursor\<close>

text \<open>\<^verbatim>\<open>int()\<close> of two digits, and the split of a clock text.\<close>

lemma digit_plain: "is_digit c \<Longrightarrow> \<not> is_space c \<and> c \<noteq> CHR ''-'' \<and> c \<noteq> CHR ''+'' \<and> c \<noteq> CHR '':''"
  by (auto simp: is_digit_def is_space_def Let_def)

lemma digit_value_range: "is_digit c \<Longrightarrow> 0 \<le> digit_value c \<and> digit_value c \<le> 9"
  by (simp add: is_digit_def digit_value_def Let_def)

lemma py_int_two_digits: "is_digit a \<Longrightarrow> is_digit b \<Longrightarrow> py_int [a, b] = Inr (digit_value a * 10 + digit_value b)"
  using digit_plain [of a] digit_plain [of b] by (simp add: py_int_def strip_def strip_by_def Let_def)

lemma parse_clock_text:
  assumes "clock_text_ok t"
  obtains h m where "parse_schedule_time t = Inr (h, m)" "0 \<le> h" "h \<le> 23" "0 \<le> m" "m \<le> 59"
proof -
  from assms obtain a b d e where t: "t = [a, b, CHR '':'', d, e]"
    and dg: "is_digit a" "is_digit b" "is_digit d" "is_digit e"
    and le: "digit_value a * 10 + digit_value b \<le> 23" "digit_value d \<le> 5"
    by (rule clock_text_cases)
  have "split_on (CHR '':'') t = [[a, b], [d, e]]" using t dg by (simp add: digit_plain)
  then have "parse_schedule_time t = Inr (digit_value a * 10 + digit_value b, digit_value d * 10 + digit_value e)"
    using dg le digit_value_range [of a] digit_value_range [of b] digit_value_range [of d] digit_value_range [of e]
    by (simp add: parse_schedule_time_def py_int_two_digits bind_result_def)
  with dg le that show ?thesis
    using digit_value_range [of a] digit_value_range [of b] digit_value_range [of d] digit_value_range [of e]
    by fastforce
qed

text \<open>
  A zone in which later wall times are later instants and lengths of time are kept, from some
  instant on: every zone without clock changes.
\<close>

locale steady_zone =
  fixes z :: zone and earliest :: time
  assumes local_valid: "earliest \<le> t \<Longrightarrow> valid_local (to_local z t)"
    and utc_later: "earliest \<le> t \<Longrightarrow> valid_local a \<Longrightarrow> wall_count (to_local z t) < wall_count a \<Longrightarrow> t < to_utc z a"
    and utc_span: "earliest \<le> t \<Longrightarrow> valid_local a \<Longrightarrow> wall_count a \<le> wall_count (to_local z t) + k \<Longrightarrow> to_utc z a \<le> t + k"
begin

lemma daily_later:
  assumes "earliest \<le> t" and "0 \<le> h" "h \<le> 23" "0 \<le> m" "m \<le> 59"
  shows "t < to_utc z (daily_candidate h m (to_local z t)) \<and>
    to_utc z (daily_candidate h m (to_local z t)) \<le> t + us_per_day"
  using daily_candidate_later [OF local_valid [OF assms(1)] assms(2-)]
    utc_later [OF assms(1)] utc_span [OF assms(1)] by blast

lemma weekly_later:
  assumes "earliest \<le> t" and "0 \<le> h" "h \<le> 23" "0 \<le> m" "m \<le> 59" and "0 \<le> w" "w \<le> 6"
  shows "t < to_utc z (weekly_candidate w h m (to_local z t)) \<and>
    to_utc z (weekly_candidate w h m (to_local z t)) \<le> t + 7 * us_per_day"
  using weekly_candidate_later [OF local_valid [OF assms(1)] assms(2-)]
    utc_later [OF assms(1)] utc_span [OF assms(1)] by blast

lemma monthly_later:
  assumes "earliest \<le> t" and "0 \<le> h" "h \<le> 23" "0 \<le> m" "m \<le> 59" and "1 \<le> d" "d \<le> 28"
  shows "t < to_utc z (monthly_candidate d h m (to_local z t))"
  using monthly_candidate_later [OF local_valid [OF assms(1)] assms(2-)] utc_later [OF assms(1)] by blast

text \<open>Every accepted recurring schedule has a next cursor, and it lies later.\<close>

lemma next_cursor_later:
  assumes v: "validate_schedule cenv c = Inr c'" and kind: "sc_kind c \<notin> {Manual, Once, Cron}"
    and zone: "zoneinfo env tz = Some z" and t: "earliest \<le> t"
  shows "\<exists>n. next_scheduled_time env (store_schedule c p) t tz = Inr (Some n) \<and> t < n \<and>
    (sc_kind c = Daily \<longrightarrow> n \<le> t + us_per_day) \<and> (sc_kind c = Weekly \<longrightarrow> n \<le> t + 7 * us_per_day)"
proof -
  have c: "check_interval c = Inr ()" "check_clock c = Inr ()" "check_days c = Inr ()"
    using v by (simp_all add: validate_schedule_parts)
  show ?thesis
  proof (cases "interval_unit (sc_kind c)")
    case (Some u)
    then have u: "0 < u" "sc_kind c \<notin> {Daily, Weekly}"
      by (auto simp: interval_unit_def seconds_def split: schedule_kind.splits)
    from Some c(1) obtain n where n: "sc_interval c = Some n" "1 \<le> n"
      by (auto simp: interval_unit_def schedule_checks split: schedule_kind.splits option.splits if_splits)
    with u have "0 < u * n" by simp
    with Some n u kind show ?thesis by (simp add: next_scheduled_time_def)
  next
    case None
    with kind have k: "sc_kind c \<in> {Daily, Weekly, Monthly}"
      by (auto simp: interval_unit_def split: schedule_kind.splits)
    with c(2) obtain tm where tm: "sc_time c = Some tm" "clock_text_ok tm"
      by (auto simp: check_clock_def invalid_def split: option.splits if_splits)
    from tm(2) obtain h m where hm: "parse_schedule_time tm = Inr (h, m)" "0 \<le> h" "h \<le> 23" "0 \<le> m" "m \<le> 59"
      by (rule parse_clock_text)
    note later = daily_later [OF t hm(2-)] weekly_later [OF t hm(2-)] monthly_later [OF t hm(2-)]
    from k consider "sc_kind c = Daily" | w where "sc_kind c = Weekly" "sc_weekday c = Some w" "0 \<le> w" "w \<le> 6"
      | d where "sc_kind c = Monthly" "sc_monthday c = Some d" "1 \<le> d" "d \<le> 28"
      using c(3) by (auto simp: check_days_def invalid_def split: if_splits option.splits)
    then show ?thesis
      by cases (use later tm hm zone in \<open>auto simp: next_scheduled_time_def interval_unit_def zone_of_def
        calendar_candidate_def bind_result_def\<close>)
  qed
qed

end

lemma civil_wall: "1 - epoch_ordinal \<le> t div us_per_day \<Longrightarrow> wall_count (civil t) = t + epoch_ordinal * us_per_day"
  using civil_valid(2) [of t] by (simp add: of_civil_def)

lemma first_day: "(1 - epoch_ordinal) * us_per_day \<le> t \<Longrightarrow> 1 - epoch_ordinal \<le> t div us_per_day"
  by (simp add: us_per_day_def epoch_ordinal_def)

text \<open>A fixed offset is steady from the first representable day on.\<close>

interpretation fixed: steady_zone "fixed_offset off" "(1 - epoch_ordinal) * us_per_day - off"
proof
  fix t a k
  assume "(1 - epoch_ordinal) * us_per_day - off \<le> t"
  then have d: "1 - epoch_ordinal \<le> (t + off) div us_per_day" by (intro first_day) simp
  show "valid_local (to_local (fixed_offset off) t)" using civil_valid(1) [OF d] by (simp add: fixed_offset_def)
  show "wall_count (to_local (fixed_offset off) t) < wall_count a \<Longrightarrow> t < to_utc (fixed_offset off) a"
    using civil_wall [OF d] by (simp add: fixed_offset_def of_civil_def)
  show "wall_count a \<le> wall_count (to_local (fixed_offset off) t) + k \<Longrightarrow> to_utc (fixed_offset off) a \<le> t + k"
    using civil_wall [OF d] by (simp add: fixed_offset_def of_civil_def)
qed

text \<open>
  An accepted recurring schedule always has a next cursor, strictly later than the time it is
  computed from: the scheduler makes progress. A daily cursor is at most one day ahead and a
  weekly one at most seven, at any fixed offset from UTC.
\<close>

theorem accepted_schedule_advances:
  assumes "validate_schedule cenv c = Inr c'" and "sc_kind c \<notin> {Manual, Once, Cron}"
    and "zoneinfo env tz = Some (fixed_offset off)" and "(1 - epoch_ordinal) * us_per_day - off \<le> t"
  shows "\<exists>n. next_scheduled_time env (store_schedule c p) t tz = Inr (Some n) \<and> t < n \<and>
    (sc_kind c = Daily \<longrightarrow> n \<le> t + us_per_day) \<and> (sc_kind c = Weekly \<longrightarrow> n \<le> t + 7 * us_per_day)"
  by (rule fixed.next_cursor_later [OF assms])

definition demo_time_env :: time_env where
  "demo_time_env = \<lparr>zoneinfo = (\<lambda>_. Some (fixed_offset (seconds 12600))), croniter_next = (\<lambda>_ _ _. 0)\<rparr>"

lemma accepted_schedule_advances_witness:
  "\<exists>n. next_scheduled_time demo_time_env (store_schedule demo_weekly demo_profile) 5 ''Asia/Tehran'' = Inr (Some n) \<and>
     5 < n \<and> n \<le> 5 + 7 * us_per_day"
proof -
  have "zoneinfo demo_time_env ''Asia/Tehran'' = Some (fixed_offset (seconds 12600))" by (simp add: demo_time_env_def)
  from accepted_schedule_advances [OF demo_weekly_valid _ this, of 5 demo_profile] show ?thesis
    by (auto simp: demo_weekly_def us_per_day_def epoch_ordinal_def seconds_def)
qed

text \<open>
  Without steadiness the weekly cursor can fail to advance: in the repeated hour the second
  reading of the clock has \<^verbatim>\<open>fold\<close> 1, but adding zero days resets it, and the candidate is the
  first reading of the same wall time, an hour before the instant asked about. Here the clock
  goes back by an hour on the day of the epoch, at 02:00.
\<close>

definition fall_back :: zone where
  "fall_back = \<lparr>to_local = (\<lambda>t. if t < seconds 7200 then civil t else (civil (t - seconds 3600))\<lparr>lt_fold := t < seconds 10800\<rparr>),
     to_utc = (\<lambda>a. of_civil a + (if of_civil a < seconds 3600 then 0
       else if of_civil a < seconds 7200 then (if lt_fold a then seconds 3600 else 0) else seconds 3600))\<rparr>"

lemma weekly_cursor_in_repeated_hour:
  "to_utc fall_back (weekly_candidate 3 1 30 (to_local fall_back (seconds 8000))) = seconds 5400"
proof -
  have "to_local fall_back (seconds 8000) =
      \<lparr>lt_year = 1970, lt_month = 1, lt_day = 1, lt_tod = 4400000000, lt_fold = True\<rparr>"
    unfolding fall_back_def by code_simp
  moreover have "weekly_candidate 3 1 30 \<lparr>lt_year = 1970, lt_month = 1, lt_day = 1, lt_tod = 4400000000, lt_fold = True\<rparr> =
      \<lparr>lt_year = 1970, lt_month = 1, lt_day = 1, lt_tod = 5400000000, lt_fold = False\<rparr>"
    by code_simp
  moreover have "of_civil \<lparr>lt_year = 1970, lt_month = 1, lt_day = 1, lt_tod = 5400000000, lt_fold = False\<rparr> = seconds 5400"
    by code_simp
  ultimately show ?thesis by (simp add: fall_back_def seconds_def)
qed

end
