(* ===== verification/Secrets.thy ===== *)
theory Secrets
  imports Encoding
begin

text \<open>
  \<^verbatim>\<open>SecretCipher\<close> of \<^verbatim>\<open>src/src/security/secrets.py\<close>: a version byte, a 12 byte nonce and the
  sealed text. The authenticated cipher (\<^verbatim>\<open>AESGCM\<close> of the \<^verbatim>\<open>cryptography\<close> package) is a
  parameter; texts are code points below 256 and travel as UTF-8.
\<close>

section \<open>UTF-8\<close>

fun utf8 :: "string \<Rightarrow> bytes" where
  "utf8 [] = []"
| "utf8 (c # cs) =
     (let n = byte_nat c
      in if n < 128 then c # utf8 cs
         else char_of (192 + n div 64) # char_of (128 + n mod 64) # utf8 cs)"

definition unicode_error :: exn where
  "unicode_error = ValueError ''UnicodeDecodeError''"

text \<open>Decoding; a sequence for a code point above 255 has no text here.\<close>

fun utf8_decode :: "bytes \<Rightarrow> string result" where
  "utf8_decode [] = Inr []"
| "utf8_decode [c] = (if byte_nat c < 128 then Inr [c] else Inl unicode_error)"
| "utf8_decode (c # d # cs) =
     (if byte_nat c < 128 then bind_result (utf8_decode (d # cs)) (\<lambda>s. Inr (c # s))
      else if byte_nat c \<in> {194, 195} \<and> 128 \<le> byte_nat d \<and> byte_nat d < 192
      then bind_result (utf8_decode cs) (\<lambda>s. Inr (char_of ((byte_nat c - 192) * 64 + (byte_nat d - 128)) # s))
      else Inl unicode_error)"

lemma byte_nat_char_of: "n < 256 \<Longrightarrow> byte_nat (char_of n) = n"
  by (simp add: byte_nat_def)

lemma utf8_round_trip: "utf8_decode (utf8 s) = Inr s"
proof (induction s)
  case Nil
  then show ?case by simp
next
  case (Cons c s)
  show ?case
  proof (cases "byte_nat c < 128")
    case True
    with Cons show ?thesis by (cases "utf8 s") (auto simp: Let_def)
  next
    case False
    then have n: "128 \<le> byte_nat c" "byte_nat c < 256" by (simp_all add: byte_nat_less)
    then have hi: "192 + byte_nat c div 64 \<in> {194, 195}" by auto
    have lo: "128 + byte_nat c mod 64 < 192" by simp
    have whole: "(byte_nat c div 64) * 64 + byte_nat c mod 64 = byte_nat c" by simp
    show ?thesis
      using Cons n hi lo whole by (simp add: Let_def byte_nat_char_of)
  qed
qed

interpretation utf8: codec utf8 utf8_decode "\<lambda>_. True"
  by unfold_locales (simp add: utf8_round_trip)

section \<open>The cipher\<close>

record aead =
  seal :: "bytes \<Rightarrow> bytes \<Rightarrow> bytes \<Rightarrow> bytes"
  unseal :: "bytes \<Rightarrow> bytes \<Rightarrow> bytes \<Rightarrow> bytes option"

definition secret_cipher :: "(bytes \<Rightarrow> aead) \<Rightarrow> string \<Rightarrow> aead result" where
  "secret_cipher aesgcm key_b64 =
     (case b64_decode key_b64 of
        Inl _ \<Rightarrow> Inl (ValueError ''master encryption key must be valid base64'')
      | Inr key \<Rightarrow>
          if length key \<noteq> 32 then Inl (ValueError ''master encryption key must decode to exactly 32 bytes'')
          else Inr (aesgcm key))"

definition cipher_version :: char where
  "cipher_version = CHR 0x01"

definition encrypt_secret :: "aead \<Rightarrow> bytes \<Rightarrow> string \<Rightarrow> string \<Rightarrow> bytes result" where
  "encrypt_secret cipher nonce plaintext purpose =
     (if plaintext = [] then Inl (ValueError ''secret cannot be empty'')
      else Inr (cipher_version # nonce @ seal cipher nonce (utf8 plaintext) (utf8 purpose)))"

definition decrypt_secret :: "aead \<Rightarrow> bytes \<Rightarrow> string \<Rightarrow> string result" where
  "decrypt_secret cipher token purpose =
     (if length token < 30 \<or> take 1 token \<noteq> [cipher_version]
      then Inl (ValueError ''invalid encrypted secret'')
      else case unseal cipher (take 12 (drop 1 token)) (drop 13 token) (utf8 purpose) of
        None \<Rightarrow> Inl (ValueError ''secret authentication failed'')
      | Some v \<Rightarrow> utf8_decode v)"

text \<open>
  A stored secret opens again under the purpose it was sealed for, and is refused under any
  purpose for which the cipher does not authenticate it. The hypotheses are the documented
  behaviour of the authenticated cipher on this one message.
\<close>

theorem secret_round_trip:
  assumes "encrypt_secret cipher nonce plaintext purpose = Inr token" and "length nonce = 12"
    and "16 < length (seal cipher nonce (utf8 plaintext) (utf8 purpose))"
    and "unseal cipher nonce (seal cipher nonce (utf8 plaintext) (utf8 purpose)) (utf8 purpose) = Some (utf8 plaintext)"
    and "unseal cipher nonce (seal cipher nonce (utf8 plaintext) (utf8 purpose)) (utf8 other) = None"
  shows "decrypt_secret cipher token purpose = Inr plaintext \<and>
    decrypt_secret cipher token other = Inl (ValueError ''secret authentication failed'')"
  using assms
  by (auto simp: encrypt_secret_def decrypt_secret_def utf8_round_trip split: if_splits)

definition demo_aead :: aead where
  "demo_aead = \<lparr>seal = (\<lambda>n p a. replicate 16 (CHR ''t'') @ [char_of (length a)] @ p),
     unseal = (\<lambda>n c a. if take 1 (drop 16 c) = [char_of (length a)] then Some (drop 17 c) else None)\<rparr>"

lemma secret_round_trip_witness:
  "\<exists>token. encrypt_secret demo_aead ''abcdefghijkl'' ''pw'' ''a'' = Inr token \<and>
     decrypt_secret demo_aead token ''a'' = Inr ''pw''"
proof -
  have h: "length ''abcdefghijkl'' = 12" by simp
  have l: "16 < length (seal demo_aead ''abcdefghijkl'' (utf8 ''pw'') (utf8 ''a''))" by code_simp
  have o: "unseal demo_aead ''abcdefghijkl'' (seal demo_aead ''abcdefghijkl'' (utf8 ''pw'') (utf8 ''a'')) (utf8 ''a'') =
    Some (utf8 ''pw'')" by code_simp
  have n: "unseal demo_aead ''abcdefghijkl'' (seal demo_aead ''abcdefghijkl'' (utf8 ''pw'') (utf8 ''a'')) (utf8 ''bb'') = None"
    by code_simp
  have e: "encrypt_secret demo_aead ''abcdefghijkl'' ''pw'' ''a'' = Inr (cipher_version # ''abcdefghijkl'' @
    seal demo_aead ''abcdefghijkl'' (utf8 ''pw'') (utf8 ''a''))" by (simp add: encrypt_secret_def)
  from secret_round_trip [OF e h l o n] e show ?thesis by blast
qed

end
