(* ===== verification/Profiles.thy ===== *)
theory Profiles
  imports Planning Secrets Admin
begin

text \<open>
  \<^verbatim>\<open>BackupService\<close> of \<^verbatim>\<open>src/src/application/backup_service.py\<close> with \<^verbatim>\<open>BackupRepository\<close> and
  \<^verbatim>\<open>SettingsRepository\<close>: creating, editing, reconfiguring and deleting backup profiles. An
  exception leaves the database as it was, because the session is never committed; a flush of a
  row that breaks a check constraint raises \<^verbatim>\<open>IntegrityError\<close>.
\<close>

section \<open>The service\<close>

text \<open>
  The constructor's arguments and what a call meets outside the database: the clock, the
  identifier it draws, the nonces of the two secrets it may seal and the text of a JSON value.
\<close>

record profile_service =
  bs_cipher :: "aead option"
  bs_allowed :: "string list option"
  bs_denied :: "string list"
  bs_mounts :: "(string \<times> string) list"
  bs_time :: time_env
  bs_cron :: cron_env
  bs_dumps :: "json \<Rightarrow> string"
  bs_now :: time
  bs_uuid :: string
  bs_age_nonce :: bytes
  bs_password_nonce :: bytes

definition require_cipher :: "profile_service \<Rightarrow> aead result" where
  "require_cipher sv = (case bs_cipher sv of None \<Rightarrow> Inl (ValueError ''secret cipher is required'') | Some c \<Rightarrow> Inr c)"

definition seal_age :: "profile_service \<Rightarrow> string \<Rightarrow> bytes result" where
  "seal_age sv plain = bind_result (require_cipher sv)
     (\<lambda>c. encrypt_secret c (bs_age_nonce sv) plain ''backup-age-passphrase-v1'')"

definition seal_password :: "profile_service \<Rightarrow> string \<Rightarrow> bytes result" where
  "seal_password sv plain = bind_result (require_cipher sv)
     (\<lambda>c. encrypt_secret c (bs_password_nonce sv) plain ''database-password-v1'')"

definition service_mapper :: "profile_service \<Rightarrow> string list \<Rightarrow> path_mapper" where
  "service_mapper sv allowed = \<lparr>lm_identity = allowed, lm_denied = bs_denied sv, lm_mounts = bs_mounts sv\<rparr>"

definition persisted_file_paths :: "profile_service \<Rightarrow> files_config \<Rightarrow> string list result" where
  "persisted_file_paths sv c =
     (case bs_allowed sv of
        None \<Rightarrow> Inr (fc_paths c)
      | Some allowed \<Rightarrow>
          if fc_location c \<noteq> LocalSource then Inr (fc_paths c)
          else map_result (canonical_host_path (service_mapper sv allowed)) (fc_paths c))"

definition check_source_roots :: "profile_service \<Rightarrow> files_config \<Rightarrow> unit result" where
  "check_source_roots sv c =
     (case bs_allowed sv of
        None \<Rightarrow> Inr ()
      | Some allowed \<Rightarrow>
          if fc_location c \<noteq> LocalSource then Inr ()
          else bind_result (map_result (container_path (service_mapper sv allowed)) (fc_paths c)) (\<lambda>_. Inr ()))"

section \<open>Rows\<close>

definition active_server :: "db \<Rightarrow> int \<Rightarrow> remote_server result" where
  "active_server d i =
     (case server_by_id d i of
        None \<Rightarrow> Inl (NotFoundError ''remote server not found'')
      | Some s \<Rightarrow> if s_deleted s \<noteq> None then Inl (NotFoundError ''remote server not found'') else Inr s)"

definition require_enabled_server :: "db \<Rightarrow> int option \<Rightarrow> string \<Rightarrow> unit result" where
  "require_enabled_server d i msg =
     (case i of None \<Rightarrow> Inr ()
      | Some k \<Rightarrow> bind_result (active_server d k) (\<lambda>s.
          if s_enabled s then Inr () else Inl (ValueError msg)))"

text \<open>\<^verbatim>\<open>SettingsRepository.get\<close>: the row with id 1, created with its defaults when missing.\<close>

definition get_settings :: "db \<Rightarrow> system_settings \<times> db" where
  "get_settings d =
     (case settings d of Some st \<Rightarrow> (st, d)
      | None \<Rightarrow> (default_settings, d\<lparr>settings := Some default_settings\<rparr>))"

definition draft_row :: "profile_service \<Rightarrow> int \<Rightarrow> string \<Rightarrow> string option \<Rightarrow> source_type \<Rightarrow> int \<Rightarrow> profile" where
  "draft_row sv i name description stype actor_id =
     \<lparr>p_id = i, p_uuid = bs_uuid sv, p_name = strip name,
      p_description = (if given description then map_option strip description else None),
      p_source_type = stype, p_enabled = True, p_status = Draft, p_kind = Manual,
      p_interval = None, p_time = None, p_weekday = None, p_monthday = None, p_cron = None,
      p_next = None, p_format = Fmt_Zstandard, p_archive = Arc_Tar, p_algorithm = Alg_Zstandard,
      p_preset = Some Balanced, p_encryption = Enc_None, p_recipients = None, p_age_secret = None,
      p_created_by = actor_id, p_archived_at = None, p_database = None, p_files = None, p_gitlab = None\<rparr>"

definition insert_draft :: "profile_service \<Rightarrow> string \<Rightarrow> string option \<Rightarrow> source_type \<Rightarrow> int \<Rightarrow> profile op" where
  "insert_draft sv name description stype actor_id d =
     (let p = draft_row sv (profile_seq d + 1) name description stype actor_id
      in if list_ex (\<lambda>q. p_name q = p_name p \<or> p_uuid q = p_uuid p) (profiles d)
         then (Inl (ConflictError ''Backup name already exists''), d)
         else (Inr p, d\<lparr>profiles := profiles d @ [p], profile_seq := profile_seq d + 1\<rparr>))"

text \<open>
  A flush of a changed profile: its check constraints and the uniqueness of its name. The three
  source rows travel with the profile.
\<close>

definition flush_profile :: "profile \<Rightarrow> unit op" where
  "flush_profile p d =
     (if \<not> profile_row_ok p \<or> list_ex (\<lambda>q. p_id q \<noteq> p_id p \<and> p_name q = p_name p) (profiles d)
      then (Inl IntegrityError, d)
      else (Inr (), update_profile (p_id p) (\<lambda>_. p) d))"

definition lower_char :: "char \<Rightarrow> char" where
  "lower_char c = (let n = (of_char c :: nat) in if 65 \<le> n \<and> n \<le> 90 then char_of (n + 32) else c)"

definition sqlite_candidate :: "string \<Rightarrow> bool" where
  "sqlite_candidate p \<longleftrightarrow> (let t = map lower_char p
     in ends_with ''.sqlite'' t \<or> ends_with ''.sqlite3'' t \<or> ends_with ''.db'' t)"

definition database_row :: "database_config \<Rightarrow> bytes \<Rightarrow> database_source" where
  "database_row c sealed = \<lparr>d_engine = dc_engine c, d_host = strip (dc_host c), d_port = dc_port c,
     d_name = strip (dc_name c), d_username = strip (dc_username c), d_password = sealed,
     d_tls = dc_tls c, d_tls_ca = dc_tls_ca c, d_in_docker = dc_in_docker c,
     d_backup_path = dc_backup_path c, d_host_path = dc_host_path c, d_server_id = dc_server_id c,
     d_server = None\<rparr>"

definition files_row :: "files_config \<Rightarrow> string list \<Rightarrow> files_source" where
  "files_row c paths = \<lparr>f_location = fc_location c, f_server_id = fc_server_id c,
     f_paths = map (\<lambda>p. \<lparr>bp_path = p, bp_sqlite = sqlite_candidate p\<rparr>) (remdups_first paths), f_server = None\<rparr>"

definition gitlab_row :: "gitlab_config \<Rightarrow> gitlab_source" where
  "gitlab_row c = \<lparr>g_location = gc_location c, g_server_id = gc_server_id c,
     g_container = strip (gc_container c), g_backup_path = map_option strip (gc_backup_path c), g_server = None\<rparr>"

definition store_compression :: "compression_config \<Rightarrow> profile \<Rightarrow> profile" where
  "store_compression c p = p\<lparr>p_format := cc_format c, p_archive := config_archive_format c,
     p_algorithm := config_algorithm c, p_preset := cc_preset c\<rparr>"

definition store_encryption :: "profile_service \<Rightarrow> encryption_config \<Rightarrow> profile \<Rightarrow> profile" where
  "store_encryption sv c p = p\<lparr>p_encryption := ec_mode c, p_recipients := recipients_json (bs_dumps sv) c\<rparr>"

section \<open>Schedules and GitLab roots\<close>

definition register_schedule :: "profile_service \<Rightarrow> db \<Rightarrow> profile \<Rightarrow> profile result" where
  "register_schedule sv d p =
     (if p_kind p = Manual \<or> \<not> p_enabled p then Inr (p\<lparr>p_next := None\<rparr>)
      else if p_kind p = Cron
      then bind_result (next_scheduled_time (bs_time sv) p (bs_now sv) (st_timezone (fst (get_settings d))))
             (\<lambda>n. Inr (p\<lparr>p_next := n\<rparr>))
      else Inr (p\<lparr>p_next := Some (bs_now sv)\<rparr>))"

text \<open>The query compares the columns with the input as it was typed.\<close>

definition gitlab_conflict :: "gitlab_config \<Rightarrow> int option \<Rightarrow> profile \<Rightarrow> bool" where
  "gitlab_conflict c exclude p \<longleftrightarrow>
     (case p_gitlab p of None \<Rightarrow> False
      | Some g \<Rightarrow> p_archived_at p = None \<and> g_location g = gc_location c \<and> g_server_id g = gc_server_id c \<and>
          (if gc_location c = LocalSource then g_container g = gc_container c
           else gc_backup_path c \<noteq> None \<and> g_backup_path g = gc_backup_path c) \<and>
          exclude \<noteq> Some (p_id p))"

definition check_gitlab_root :: "db \<Rightarrow> gitlab_config \<Rightarrow> int option \<Rightarrow> unit result" where
  "check_gitlab_root d c exclude =
     (if list_ex (gitlab_conflict c exclude) (profiles d)
      then Inl (ValueError ''GitLab source is already managed by another profile'') else Inr ())"

section \<open>Creating\<close>

datatype source_input = DatabaseInput database_config | FilesInput files_config | GitLabInput gitlab_config

definition attach_source :: "profile_service \<Rightarrow> source_input \<Rightarrow> profile \<Rightarrow> profile result" where
  "attach_source sv src p =
     (case src of
        DatabaseInput c \<Rightarrow>
          (case dc_password c of
             None \<Rightarrow> bind_result (require_cipher sv) (\<lambda>_. Inl (ValueError ''database password is required''))
           | Some pw \<Rightarrow> bind_result (seal_password sv pw) (\<lambda>sealed. Inr (p\<lparr>p_database := Some (database_row c sealed)\<rparr>)))
      | FilesInput c \<Rightarrow>
          bind_result (persisted_file_paths sv c) (\<lambda>paths. Inr (p\<lparr>p_files := Some (files_row c paths)\<rparr>))
      | GitLabInput c \<Rightarrow> Inr (p\<lparr>p_gitlab := Some (gitlab_row c)\<rparr>))"

definition source_input_type :: "source_input \<Rightarrow> source_type" where
  "source_input_type src = (case src of DatabaseInput _ \<Rightarrow> DatabaseType | FilesInput _ \<Rightarrow> FilesDirectories
     | GitLabInput _ \<Rightarrow> GitLabType)"

definition clean_text :: "string option \<Rightarrow> string option result" where
  "clean_text description =
     (let clean = (if given description then map_option strip description else None)
      in if (case clean of None \<Rightarrow> False | Some t \<Rightarrow> length t > 2000)
         then Inl (ValueError ''description is too long'') else Inr clean)"

text \<open>The profile row of \<^verbatim>\<open>_create_configured\<close>, from the draft row to the flush.\<close>

definition configure_row :: "profile_service \<Rightarrow> db \<Rightarrow> schedule_config \<Rightarrow> compression_config \<Rightarrow>
    encryption_config \<Rightarrow> source_input \<Rightarrow> profile \<Rightarrow> profile result" where
  "configure_row sv d schedule compression encryption src p =
     bind_result (register_schedule sv d (store_schedule schedule p)) (\<lambda>p1.
     bind_result (if given (ec_passphrase encryption)
         then bind_result (seal_age sv (the (ec_passphrase encryption))) (\<lambda>s. Inr (Some s))
         else Inr (p_age_secret p1)) (\<lambda>secret.
     attach_source sv src ((store_encryption sv encryption (store_compression compression p1))\<lparr>p_age_secret := secret\<rparr>)))"

definition configured_event :: "user \<Rightarrow> profile \<Rightarrow> int \<Rightarrow> db \<Rightarrow> db" where
  "configured_event actor p assigned d =
     audit ''backup_profile_configured'' (Some (u_id actor)) (Some ''backup'') (Some (show_int (p_id p)))
       [(''source_type'', JStr (source_type_value (p_source_type p))),
        (''schedule'', JStr (schedule_kind_value (p_kind p))),
        (''compression'', JStr (format_value (p_format p))),
        (''encryption'', JStr (encryption_value (p_encryption p))),
        (''assigned_admin_count'', JInt assigned)] d"

definition create_configured :: "profile_service \<Rightarrow> user \<Rightarrow> string \<Rightarrow> string option \<Rightarrow> schedule_config \<Rightarrow>
    compression_config \<Rightarrow> encryption_config \<Rightarrow> int list \<Rightarrow> source_input \<Rightarrow> profile op" where
  "create_configured sv actor name description schedule compression encryption admin_ids src d =
     with_result (validate_name name ''name'') (\<lambda>clean_name.
     with_result (clean_text description) (\<lambda>clean_description.
     with_result (validate_schedule (bs_cron sv) schedule) (\<lambda>_.
     with_result (validate_compression compression) (\<lambda>_.
     with_result (validate_encryption False encryption) (\<lambda>_.
     with_result (validate_admins d admin_ids (ValueError ''one or more enabled admins do not exist'')) (\<lambda>_.
     with_result (if bs_cipher sv = None \<and>
           (source_input_type src = DatabaseType \<or> ec_mode encryption = AgePassphrase)
         then Inl (ValueError ''secret cipher is required'') else Inr ()) (\<lambda>_ d.
       case insert_draft sv clean_name clean_description (source_input_type src) (u_id actor) (snd (get_settings d)) of
         (Inl e, _) \<Rightarrow> (Inl e, d)
       | (Inr draft, d1) \<Rightarrow>
           (case configure_row sv d1 schedule compression encryption src draft of
              Inl e \<Rightarrow> (Inl e, d)
            | Inr p \<Rightarrow>
                (case flush_profile p d1 of
                   (Inl e, _) \<Rightarrow> (Inl e, d)
                 | (Inr _, d2) \<Rightarrow>
                     (Inr p, configured_event actor p (int (length (remdups admin_ids)))
                        (access_replace_for_profile (p_id p) admin_ids (u_id actor) d2))))))))))) d"

definition create_database_profile :: "profile_service \<Rightarrow> user \<Rightarrow> string \<Rightarrow> string option \<Rightarrow> database_config \<Rightarrow>
    schedule_config \<Rightarrow> compression_config \<Rightarrow> encryption_config \<Rightarrow> int list \<Rightarrow> profile op" where
  "create_database_profile sv actor name description database schedule compression encryption admin_ids d =
     with_result (require_superadmin actor) (\<lambda>_.
     with_result (validate_database False database) (\<lambda>_.
     with_result (require_enabled_server d (dc_server_id database) ''artifact remote server must be enabled'') (\<lambda>_.
       create_configured sv actor name description schedule compression encryption admin_ids
         (DatabaseInput database)))) d"

definition create_files_profile :: "profile_service \<Rightarrow> user \<Rightarrow> string \<Rightarrow> string option \<Rightarrow> files_config \<Rightarrow>
    schedule_config \<Rightarrow> compression_config \<Rightarrow> encryption_config \<Rightarrow> int list \<Rightarrow> profile op" where
  "create_files_profile sv actor name description files schedule compression encryption admin_ids d =
     with_result (require_superadmin actor) (\<lambda>_.
     with_result (validate_files files) (\<lambda>_.
     with_result (check_source_roots sv files) (\<lambda>_.
     with_result (require_enabled_server d (fc_server_id files) ''remote server must be enabled'') (\<lambda>_.
       create_configured sv actor name description schedule compression encryption admin_ids
         (FilesInput files))))) d"

definition create_gitlab_profile :: "profile_service \<Rightarrow> user \<Rightarrow> string \<Rightarrow> string option \<Rightarrow> gitlab_config \<Rightarrow>
    schedule_config \<Rightarrow> compression_config \<Rightarrow> encryption_config \<Rightarrow> int list \<Rightarrow> profile op" where
  "create_gitlab_profile sv actor name description gitlab schedule compression encryption admin_ids d =
     with_result (require_superadmin actor) (\<lambda>_.
     with_result (validate_gitlab gitlab) (\<lambda>_.
     with_result (require_enabled_server d (gc_server_id gitlab) ''remote server must be enabled'') (\<lambda>_.
     with_result (check_gitlab_root d gitlab None) (\<lambda>_.
       create_configured sv actor name description schedule compression encryption admin_ids
         (GitLabInput gitlab))))) d"

text \<open>The bare draft of \<^verbatim>\<open>create_draft\<close>.\<close>

definition create_draft :: "profile_service \<Rightarrow> user \<Rightarrow> string \<Rightarrow> string option \<Rightarrow> source_type \<Rightarrow> profile op" where
  "create_draft sv actor name description stype d =
     with_result (require_superadmin actor) (\<lambda>_.
     with_result (if (case description of None \<Rightarrow> False | Some t \<Rightarrow> length (strip t) > 2000)
         then Inl (ValueError ''description is too long'') else Inr ()) (\<lambda>_.
     with_result (validate_name name ''name'') (\<lambda>clean d.
       case insert_draft sv clean description stype (u_id actor) d of
         (Inl e, _) \<Rightarrow> (Inl e, d)
       | (Inr p, d1) \<Rightarrow>
           (Inr p, audit ''backup_draft_created'' (Some (u_id actor)) (Some ''backup'') (Some (show_int (p_id p))) [] d1)))) d"

section \<open>Editing\<close>

definition active_profile :: "db \<Rightarrow> int \<Rightarrow> profile result" where
  "active_profile d i =
     (case profile_by_id d i of
        None \<Rightarrow> Inl (NotFoundError ''backup profile not found'')
      | Some p \<Rightarrow> if p_archived_at p \<noteq> None then Inl (NotFoundError ''backup profile not found'') else Inr p)"

text \<open>The three optional changes of \<^verbatim>\<open>edit\<close>, in order.\<close>

definition rename_profile :: "string option \<Rightarrow> profile \<Rightarrow> profile result" where
  "rename_profile name p =
     (case name of None \<Rightarrow> Inr p
      | Some n \<Rightarrow> bind_result (validate_name n ''name'') (\<lambda>clean. Inr (p\<lparr>p_name := clean\<rparr>)))"

definition describe_profile :: "string option \<Rightarrow> profile \<Rightarrow> profile result" where
  "describe_profile description p =
     (case description of None \<Rightarrow> Inr p
      | Some t \<Rightarrow> if length (strip t) > 2000 then Inl (ValueError ''description is too long'')
          else Inr (p\<lparr>p_description := (if strip t = [] then None else Some (strip t))\<rparr>))"

definition enable_profile :: "profile_service \<Rightarrow> db \<Rightarrow> bool option \<Rightarrow> profile \<Rightarrow> profile result" where
  "enable_profile sv d enabled p =
     (case enabled of None \<Rightarrow> Inr p
      | Some on \<Rightarrow>
          (let p1 = p\<lparr>p_enabled := on\<rparr>
           in if p_kind p = Manual \<or> (\<not> on \<and> p_kind p \<noteq> Once) then Inr (p1\<lparr>p_next := None\<rparr>)
              else if \<not> p_enabled p \<and> p_kind p \<noteq> Once then register_schedule sv d p1
              else Inr p1))"

definition edit_profile :: "profile_service \<Rightarrow> user \<Rightarrow> int \<Rightarrow> string option \<Rightarrow> string option \<Rightarrow> bool option \<Rightarrow> profile op" where
  "edit_profile sv actor profile_id name description enabled d =
     with_result (require_superadmin actor) (\<lambda>_.
     with_result (active_profile d profile_id) (\<lambda>p.
     with_result (rename_profile name p) (\<lambda>p1.
     with_result (describe_profile description p1) (\<lambda>p2.
     with_result (enable_profile sv d enabled p2) (\<lambda>p3 d.
       case flush_profile p3 (snd (get_settings d)) of
         (Inl e, _) \<Rightarrow> (Inl e, d)
       | (Inr _, d1) \<Rightarrow>
           (Inr p3, audit ''backup_edited'' (Some (u_id actor)) (Some ''backup'') (Some (show_int profile_id)) [] d1)))))) d"

section \<open>Replacing a configuration\<close>

record profile_update =
  pu_name :: string
  pu_description :: "string option"
  pu_source_type :: source_type
  pu_schedule :: schedule_config
  pu_compression :: compression_config
  pu_encryption :: encryption_config
  pu_admins :: "int list"
  pu_enabled :: bool
  pu_database :: "database_config option"
  pu_files :: "files_config option"
  pu_gitlab :: "gitlab_config option"
  pu_keep_password :: bool
  pu_keep_passphrase :: bool

text \<open>Exactly one source, of the given type.\<close>

definition chosen_source :: "profile_update \<Rightarrow> source_input result" where
  "chosen_source u =
     (if length (filter (\<lambda>b. b) [pu_database u \<noteq> None, pu_files u \<noteq> None, pu_gitlab u \<noteq> None]) \<noteq> 1
      then Inl (ValueError ''exactly one source configuration is required'')
      else case (pu_source_type u, pu_database u, pu_files u, pu_gitlab u) of
        (DatabaseType, None, _, _) \<Rightarrow> Inl (ValueError ''database source configuration is required'')
      | (FilesDirectories, _, None, _) \<Rightarrow> Inl (ValueError ''files source configuration is required'')
      | (GitLabType, _, _, None) \<Rightarrow> Inl (ValueError ''GitLab source configuration is required'')
      | (_, Some c, _, _) \<Rightarrow> Inr (DatabaseInput c)
      | (_, _, Some c, _) \<Rightarrow> Inr (FilesInput c)
      | (_, _, _, Some c) \<Rightarrow> Inr (GitLabInput c))"

definition check_new_source :: "profile_service \<Rightarrow> db \<Rightarrow> profile_update \<Rightarrow> profile \<Rightarrow> source_input \<Rightarrow> unit result" where
  "check_new_source sv d u p src =
     (case src of
        DatabaseInput c \<Rightarrow>
          bind_result (validate_database (pu_keep_password u) c) (\<lambda>_.
          bind_result (if pu_keep_password u \<and> (case p_database p of None \<Rightarrow> True | Some s \<Rightarrow> d_password s = [])
            then Inl (ValueError ''there is no existing database password to preserve'') else Inr ()) (\<lambda>_.
          require_enabled_server d (dc_server_id c) ''artifact remote server must be enabled''))
      | FilesInput c \<Rightarrow>
          bind_result (validate_files c) (\<lambda>_. bind_result (check_source_roots sv c) (\<lambda>_.
          require_enabled_server d (fc_server_id c) ''remote server must be enabled''))
      | GitLabInput c \<Rightarrow>
          bind_result (validate_gitlab c) (\<lambda>_.
          bind_result (require_enabled_server d (gc_server_id c) ''remote server must be enabled'') (\<lambda>_.
          check_gitlab_root d c (Some (p_id p)))))"

definition reschedule :: "profile_service \<Rightarrow> db \<Rightarrow> schedule_config \<Rightarrow> bool \<Rightarrow> profile \<Rightarrow> profile result" where
  "reschedule sv d c enabled p =
     (let p1 = store_schedule c (p\<lparr>p_enabled := enabled\<rparr>)
      in if sc_kind c = Manual then Inr (p1\<lparr>p_next := None\<rparr>)
         else if sc_kind c = Once
         then Inr (p1\<lparr>p_next := (if p_kind p = Once then p_next p else Some (bs_now sv))\<rparr>)
         else if \<not> enabled then Inr (p1\<lparr>p_next := None\<rparr>)
         else register_schedule sv d p1)"

text \<open>The age passphrase and the database password are sealed anew or kept.\<close>

definition next_age_secret :: "profile_service \<Rightarrow> profile_update \<Rightarrow> profile \<Rightarrow> bytes option result" where
  "next_age_secret sv u p =
     (if ec_mode (pu_encryption u) \<noteq> AgePassphrase then Inr None
      else if pu_keep_passphrase u then Inr (p_age_secret p)
      else bind_result (seal_age sv (case ec_passphrase (pu_encryption u) of None \<Rightarrow> [] | Some t \<Rightarrow> t))
             (\<lambda>s. Inr (Some s)))"

definition replace_source :: "profile_service \<Rightarrow> profile_update \<Rightarrow> profile \<Rightarrow> source_input \<Rightarrow> profile \<Rightarrow> profile result" where
  "replace_source sv u old src p =
     (let bare = p\<lparr>p_database := None, p_files := None, p_gitlab := None\<rparr>
      in case src of
        DatabaseInput c \<Rightarrow>
          bind_result (case (pu_keep_password u, p_database old) of
              (True, Some s) \<Rightarrow> Inr (d_password s)
            | _ \<Rightarrow> seal_password sv (case dc_password c of None \<Rightarrow> [] | Some t \<Rightarrow> t))
            (\<lambda>sealed. Inr (bare\<lparr>p_database := Some (database_row c sealed)\<rparr>))
      | FilesInput c \<Rightarrow>
          bind_result (persisted_file_paths sv c) (\<lambda>paths. Inr (bare\<lparr>p_files := Some (files_row c paths)\<rparr>))
      | GitLabInput c \<Rightarrow> Inr (bare\<lparr>p_gitlab := Some (gitlab_row c)\<rparr>))"

definition updated_event :: "user \<Rightarrow> profile_update \<Rightarrow> profile \<Rightarrow> db \<Rightarrow> db" where
  "updated_event actor u p d =
     audit ''backup_profile_configuration_updated'' (Some (u_id actor)) (Some ''backup'') (Some (show_int (p_id p)))
       [(''source_type'', JStr (source_type_value (pu_source_type u))),
        (''schedule'', JStr (schedule_kind_value (sc_kind (pu_schedule u)))),
        (''compression'', JStr (format_value (cc_format (pu_compression u)))),
        (''encryption'', JStr (encryption_value (ec_mode (pu_encryption u)))),
        (''assigned_admin_count'', JInt (int (length (remdups (pu_admins u))))),
        (''enabled'', JBool (pu_enabled u)),
        (''database_password_changed'', JBool (pu_database u \<noteq> None \<and> \<not> pu_keep_password u)),
        (''age_passphrase_changed'', JBool (ec_mode (pu_encryption u) = AgePassphrase \<and> \<not> pu_keep_passphrase u))] d"

text \<open>The validation part of \<^verbatim>\<open>update_configuration\<close>, and the row it builds.\<close>

definition check_update :: "profile_service \<Rightarrow> db \<Rightarrow> profile_update \<Rightarrow> profile \<Rightarrow>
    (string \<times> string option \<times> source_input) result" where
  "check_update sv d u p =
     bind_result (validate_name (pu_name u) ''name'') (\<lambda>name.
     bind_result (clean_text (pu_description u)) (\<lambda>description.
     bind_result (if list_ex (\<lambda>q. p_name q = name \<and> p_id q \<noteq> p_id p) (profiles d)
       then Inl (ValueError ''backup profile name already exists'') else Inr ()) (\<lambda>_.
     bind_result (validate_schedule (bs_cron sv) (pu_schedule u)) (\<lambda>_.
     bind_result (validate_compression (pu_compression u)) (\<lambda>_.
     bind_result (validate_encryption (pu_keep_passphrase u) (pu_encryption u)) (\<lambda>_.
     bind_result (validate_admins d (pu_admins u) (ValueError ''one or more enabled admins do not exist'')) (\<lambda>_.
     bind_result (chosen_source u) (\<lambda>src.
     bind_result (check_new_source sv d u p src) (\<lambda>_.
     bind_result (if pu_keep_passphrase u \<and>
         (ec_mode (pu_encryption u) \<noteq> AgePassphrase \<or> p_age_secret p = None)
       then Inl (ValueError ''there is no existing Age passphrase to preserve'') else Inr ()) (\<lambda>_.
       Inr (name, description, src)))))))))))"

definition updated_row :: "profile_service \<Rightarrow> db \<Rightarrow> profile_update \<Rightarrow> profile \<Rightarrow> profile result" where
  "updated_row sv d u p =
     bind_result (check_update sv d u p) (\<lambda>(name, description, src).
     bind_result (reschedule sv d (pu_schedule u) (pu_enabled u)
       (p\<lparr>p_name := name, p_description := description, p_source_type := pu_source_type u\<rparr>)) (\<lambda>p1.
     bind_result (next_age_secret sv u p) (\<lambda>secret.
       replace_source sv u p src
         ((store_encryption sv (pu_encryption u) (store_compression (pu_compression u) p1))\<lparr>p_age_secret := secret\<rparr>))))"

definition update_configuration :: "profile_service \<Rightarrow> user \<Rightarrow> int \<Rightarrow> profile_update \<Rightarrow> profile op" where
  "update_configuration sv actor profile_id u d =
     with_result (require_superadmin actor) (\<lambda>_.
     with_result (active_profile d profile_id) (\<lambda>p.
     with_result (updated_row sv d u p) (\<lambda>q d.
       case flush_profile q (snd (get_settings d)) of
         (Inl e, _) \<Rightarrow> (Inl e, d)
       | (Inr _, d1) \<Rightarrow>
           (Inr q, updated_event actor u q
              (access_replace_for_profile profile_id (pu_admins u) (u_id actor) d1))))) d"

section \<open>Deleting\<close>

definition archive_profile :: "time \<Rightarrow> profile \<Rightarrow> profile" where
  "archive_profile now p = p\<lparr>p_gitlab := None, p_enabled := False, p_archived_at := Some now\<rparr>"

definition delete_profile :: "profile_service \<Rightarrow> user \<Rightarrow> int \<Rightarrow> unit op" where
  "delete_profile sv actor profile_id d =
     with_result (require_superadmin actor) (\<lambda>_.
     with_result (active_profile d profile_id) (\<lambda>_ d.
       (Inr (), audit ''backup_deleted'' (Some (u_id actor)) (Some ''backup'') (Some (show_int profile_id)) []
          ((update_profile profile_id (archive_profile (bs_now sv)) d)\<lparr>
             access := filter (\<lambda>a. a_profile a \<noteq> profile_id) (access d)\<rparr>)))) d"

section \<open>The table keeps its constraints\<close>

definition profiles_ok :: "db \<Rightarrow> bool" where
  "profiles_ok d \<longleftrightarrow> distinct (map p_id (profiles d)) \<and> distinct (map p_name (profiles d)) \<and>
     list_all (\<lambda>p. p_id p \<le> profile_seq d \<and> profile_row_ok p) (profiles d)"

lemma profiles_ok_cong: "profiles d' = profiles d \<Longrightarrow> profile_seq d' = profile_seq d \<Longrightarrow> profiles_ok d' = profiles_ok d"
  by (simp add: profiles_ok_def)

lemma profile_frames [simp]:
  "profiles (snd (get_settings d)) = profiles d" "profile_seq (snd (get_settings d)) = profile_seq d"
  "profiles (access_replace_for_profile i us a d) = profiles d"
  "profile_seq (access_replace_for_profile i us a d) = profile_seq d"
  "profile_seq (audit ev actor ty t ds d) = profile_seq d"
  by (simp_all add: get_settings_def access_replace_for_profile_def audit_def split: option.splits)

lemma draft_row_ok: "profile_row_ok (draft_row sv i name description stype actor)"
  by (simp add: draft_row_def profile_row_ok_def schedule_row_ok_def schedule_values_ok_def interval_limits_ok_def
      schedule_shape_ok_def compression_row_ok_def encryption_row_ok_def null_or_def)

lemma profiles_ok_insert:
  assumes "profiles_ok d" and "insert_draft sv name description stype actor d = (Inr p, d1)"
  shows "profiles_ok d1 \<and> p \<in> set (profiles d1)"
proof -
  from assms(2) have p: "p = draft_row sv (profile_seq d + 1) name description stype actor"
    and d1: "d1 = d\<lparr>profiles := profiles d @ [p], profile_seq := profile_seq d + 1\<rparr>"
    and fresh: "\<not> list_ex (\<lambda>q. p_name q = p_name p \<or> p_uuid q = p_uuid p) (profiles d)"
    by (auto simp: insert_draft_def Let_def split: if_splits)
  have "p_id p = profile_seq d + 1" by (simp add: p draft_row_def)
  with assms(1) fresh draft_row_ok show ?thesis
    by (auto simp: profiles_ok_def d1 p list_all_iff list_ex_iff)
qed

lemma profiles_ok_flush:
  assumes ok: "profiles_ok d" and fl: "flush_profile p d = (Inr u, d1)"
  shows "profiles_ok d1"
proof -
  from fl have row: "profile_row_ok p" and uniq: "\<not> list_ex (\<lambda>q. p_id q \<noteq> p_id p \<and> p_name q = p_name p) (profiles d)"
    and d1: "d1 = update_profile (p_id p) (\<lambda>_. p) d" by (auto simp: flush_profile_def split: if_splits)
  let ?f = "update_where (\<lambda>q. p_id q = p_id p) (\<lambda>_. p)"
  have ids: "map p_id (?f ps) = map p_id ps" for ps by (rule map_key_update_where) simp
  have names: "distinct (map p_name ps) \<Longrightarrow> distinct (map p_id ps) \<Longrightarrow>
      \<not> list_ex (\<lambda>q. p_id q \<noteq> p_id p \<and> p_name q = p_name p) ps \<Longrightarrow> distinct (map p_name (?f ps))" for ps
  proof (induction ps)
    case (Cons q ps)
    then show ?case
      by (cases "p_id q = p_id p") (auto simp: list_ex_iff set_update_where update_where_none rev_image_eqI)
  qed simp
  show ?thesis
    using ok row uniq by (auto simp: d1 profiles_ok_def update_profile_def ids names list_all_iff set_update_where)
qed

text \<open>An operation keeps an invariant when it keeps it on each branch.\<close>

lemma with_result_inv:
  "I d \<Longrightarrow> (\<And>a. r = Inr a \<Longrightarrow> I (snd (f a d))) \<Longrightarrow> I (snd (with_result r f d))"
  by (cases r) auto

lemma case_op_inv:
  "I d \<Longrightarrow> (\<And>a e. x = (Inr a, e) \<Longrightarrow> I (snd (g a e))) \<Longrightarrow>
     I (snd (case x of (Inl e, _) \<Rightarrow> (Inl e, d) | (Inr a, e) \<Rightarrow> g a e))"
  by (cases x; cases "fst x") auto

lemma case_result_inv:
  "I d \<Longrightarrow> (\<And>a. r = Inr a \<Longrightarrow> I (snd (g a))) \<Longrightarrow> I (snd (case r of Inl e \<Rightarrow> (Inl e, d) | Inr a \<Rightarrow> g a))"
  by (cases r) auto

lemma case_op_Inr:
  "(case x of (Inl e, _) \<Rightarrow> (Inl e, d) | (Inr a, e) \<Rightarrow> g a e) = (Inr b, d') \<longleftrightarrow>
     (\<exists>a e. x = (Inr a, e) \<and> g a e = (Inr b, d'))"
  by (cases x; cases "fst x") auto

lemma profiles_ok_audit: "profiles_ok (audit ev actor ty t ds d) = profiles_ok d"
  and profiles_ok_access: "profiles_ok (access_replace_for_profile i us a d) = profiles_ok d"
  and profiles_ok_settings: "profiles_ok (snd (get_settings d)) = profiles_ok d"
  by (rule profiles_ok_cong; simp)+

lemmas op_inv = with_result_inv [where I = profiles_ok] case_op_inv [where I = profiles_ok]
  case_result_inv [where I = profiles_ok]
lemmas profiles_ok_frame = profiles_ok_audit profiles_ok_access profiles_ok_settings

lemma profiles_ok_stored:
  assumes "profiles_ok d" and "insert_draft sv name description stype actor (snd (get_settings d)) = (Inr p, d1)"
    and "flush_profile q d1 = (Inr u, d2)"
  shows "profiles_ok d2"
  using profiles_ok_flush [OF _ assms(3)] profiles_ok_insert [OF _ assms(2)] assms(1)
  by (simp add: profiles_ok_frame)

lemma profiles_ok_create_configured:
  assumes "profiles_ok d"
  shows "profiles_ok (snd (create_configured sv actor name description schedule compression encryption ids src d))"
  unfolding create_configured_def
  by (intro op_inv assms) (simp add: configured_event_def profiles_ok_frame profiles_ok_stored [OF assms])

lemma profiles_ok_create_database:
  "profiles_ok d \<Longrightarrow> profiles_ok (snd (create_database_profile sv actor name description c schedule compression encryption ids d))"
  unfolding create_database_profile_def by (intro op_inv profiles_ok_create_configured) simp_all

lemma profiles_ok_create_files:
  "profiles_ok d \<Longrightarrow> profiles_ok (snd (create_files_profile sv actor name description c schedule compression encryption ids d))"
  unfolding create_files_profile_def by (intro op_inv profiles_ok_create_configured) simp_all

lemma profiles_ok_create_gitlab:
  "profiles_ok d \<Longrightarrow> profiles_ok (snd (create_gitlab_profile sv actor name description c schedule compression encryption ids d))"
  unfolding create_gitlab_profile_def by (intro op_inv profiles_ok_create_configured) simp_all

lemma profiles_ok_create_draft:
  assumes "profiles_ok d"
  shows "profiles_ok (snd (create_draft sv actor name description stype d))"
  unfolding create_draft_def
  by (intro op_inv assms) (simp add: profiles_ok_frame profiles_ok_insert [OF assms])

lemma profiles_ok_flushed:
  "profiles_ok d \<Longrightarrow> flush_profile q (snd (get_settings d)) = (Inr u, e) \<Longrightarrow> profiles_ok e"
  using profiles_ok_flush [of "snd (get_settings d)" q u e] by (simp add: profiles_ok_frame)

lemma profiles_ok_edit:
  assumes "profiles_ok d"
  shows "profiles_ok (snd (edit_profile sv actor i name description enabled d))"
  unfolding edit_profile_def
  by (intro op_inv assms) (simp add: profiles_ok_frame profiles_ok_flushed [OF assms])

lemma profiles_ok_update:
  assumes "profiles_ok d"
  shows "profiles_ok (snd (update_configuration sv actor i u d))"
  unfolding update_configuration_def
  by (intro op_inv assms) (simp add: updated_event_def profiles_ok_frame profiles_ok_flushed [OF assms])

lemma profiles_ok_delete:
  assumes "profiles_ok d"
  shows "profiles_ok (snd (delete_profile sv actor i d))"
proof -
  have row: "profile_row_ok p \<Longrightarrow> profile_row_ok (archive_profile now p)" for now p
    by (simp add: archive_profile_def profile_row_ok_def schedule_row_ok_def schedule_values_ok_def
        interval_limits_ok_def schedule_shape_ok_def compression_row_ok_def encryption_row_ok_def null_or_def)
  let ?f = "update_where (\<lambda>p. p_id p = i) (archive_profile (bs_now sv))"
  have keys: "map p_id (?f ps) = map p_id ps" "map p_name (?f ps) = map p_name ps" for ps
    by (rule map_key_update_where; simp add: archive_profile_def)+
  have "profiles_ok (update_profile i (archive_profile (bs_now sv)) d)"
    using assms by (auto simp: profiles_ok_def update_profile_def keys list_all_iff set_update_where row)
       (auto simp: archive_profile_def)
  then have "profiles_ok ((update_profile i (archive_profile (bs_now sv)) d)\<lparr>access := xs\<rparr>)" for xs
    by (rule subst [rotated]) (rule profiles_ok_cong [symmetric]; simp)
  then show ?thesis
    unfolding delete_profile_def by (intro op_inv assms) (simp add: profiles_ok_frame)
qed

section \<open>What is accepted can be stored\<close>

text \<open>A source input its validator has accepted, with the MSSQL columns left out for other engines.\<close>

definition source_accepted :: "source_input \<Rightarrow> bool" where
  "source_accepted src \<longleftrightarrow>
     (case src of
        DatabaseInput c \<Rightarrow> validate_database False c = Inr c \<and>
          (dc_engine c = MSSQL \<or> dc_backup_path c = None \<and> dc_host_path c = None \<and> dc_server_id c = None)
      | FilesInput c \<Rightarrow> validate_files c = Inr c
      | GitLabInput c \<Rightarrow> validate_gitlab c = Inr c)"

lemma validate_absolute_ne: "validate_absolute_path v = Inr s \<Longrightarrow> v \<noteq> [] \<and> s \<noteq> []"
  by (auto simp: validate_absolute_path_def strip_def strip_by_def starts_with_def path_text_def Let_def split: if_splits)

lemma map_result_Inr_elem: "map_result f xs = Inr ys \<Longrightarrow> x \<in> set xs \<Longrightarrow> \<exists>y. f x = Inr y"
  using map_result_Inr_all by metis

lemma canonical_host_ne: "canonical_host_path m v = Inr s \<Longrightarrow> s \<noteq> []"
  by (auto simp: canonical_host_path_def bind_result_Inr path_text_def Let_def split: if_splits)

lemma persisted_paths_ne:
  assumes "persisted_file_paths sv c = Inr ps" and "validate_files c = Inr c'" and "x \<in> set ps"
  shows "x \<noteq> []"
proof -
  from assms(2) obtain ys where "map_result validate_absolute_path (fc_paths c) = Inr ys"
    by (auto simp: validate_files_def bind_result_Inr split: if_splits)
  then have "v \<noteq> []" if "v \<in> set (fc_paths c)" for v
    using map_result_Inr_elem [OF _ that] validate_absolute_ne by metis
  then show ?thesis
    using assms(1,3) canonical_host_ne
    by (auto simp: persisted_file_paths_def split: option.splits if_splits dest!: map_result_Inr_mem)
qed

lemma files_source_ok:
  assumes "validate_files c = Inr c'" and "persisted_file_paths sv c = Inr ps"
  shows "files_row_ok (files_row c ps)"
proof -
  have "(fc_location c = RemoteServer) = (fc_server_id c \<noteq> None)"
    using assms(1) by (cases "fc_location c") (auto simp: validate_files_def bind_result_Inr split: if_splits)
  moreover have "length x > 0" if "x \<in> set ps" for x using persisted_paths_ne [OF assms(2,1) that] by simp
  ultimately show ?thesis by (auto simp: files_row_ok_def files_row_def path_row_ok_def list_all_iff remdups_first_def)
qed

lemma database_source_ok:
  assumes "validate_database False c = Inr c"
    and "dc_engine c = MSSQL \<or> dc_backup_path c = None \<and> dc_host_path c = None \<and> dc_server_id c = None"
  shows "database_row_ok (database_row c sealed)"
proof -
  from assms(1) have "validate_port (dc_port c) = Inr (dc_port c)" "check_credentials False c = Inr ()" "check_mssql c = Inr ()"
    by (auto simp: validate_database_def bind_result_Inr validate_port_def split: if_splits)
  then show ?thesis
    using assms(2)
    by (auto simp: database_row_ok_def database_row_def validate_port_def check_credentials_def check_mssql_def
        invalid_def given_def bind_result_Inr split: if_splits option.splits)
qed

lemma absolute_path_long:
  assumes "validate_absolute_path p = Inr s" and "s \<noteq> [slash]"
  shows "1 < length (strip p)"
proof -
  from assms(1) have st: "starts_with [slash] (strip p)" "s = path_text (pure_path (strip p))"
    by (auto simp: validate_absolute_path_def Let_def split: if_splits)
  have "strip p \<noteq> [slash]"
  proof
    assume "strip p = [slash]"
    with st(2) have "s = [slash]" by (simp add: pure_path_def root_of_def path_text_def)
    with assms(2) show False ..
  qed
  with st(1) show ?thesis by (cases "strip p") (auto simp: starts_with_def)
qed

lemma gitlab_source_ok: "validate_gitlab c = Inr c' \<Longrightarrow> gitlab_row_ok (gitlab_row c)"
  using absolute_path_long
  by (auto simp: validate_gitlab_def gitlab_row_ok_def gitlab_row_def null_or_def bind_result_Inr
      validate_docker_container_name_def Let_def Suc_le_eq split: source_location.splits option.splits if_splits)

lemma encrypt_secret_ne: "encrypt_secret c n t purpose = Inr s \<Longrightarrow> s \<noteq> []"
  by (auto simp: encrypt_secret_def split: if_splits)

text \<open>The constraints read only their own columns.\<close>

lemma schedule_row_frame:
  "schedule_row_ok (p\<lparr>p_next := n\<rparr>) = schedule_row_ok p" "schedule_row_ok (p\<lparr>p_database := x\<rparr>) = schedule_row_ok p"
  "schedule_row_ok (p\<lparr>p_files := y\<rparr>) = schedule_row_ok p" "schedule_row_ok (p\<lparr>p_gitlab := g\<rparr>) = schedule_row_ok p"
  "schedule_row_ok (p\<lparr>p_age_secret := s\<rparr>) = schedule_row_ok p"
  "schedule_row_ok (store_encryption sv e p) = schedule_row_ok p" "schedule_row_ok (store_compression c p) = schedule_row_ok p"
  by (simp_all add: schedule_row_ok_def schedule_values_ok_def interval_limits_ok_def schedule_shape_ok_def
      store_encryption_def store_compression_def)

lemma compression_row_frame:
  "compression_row_ok (p\<lparr>p_database := x\<rparr>) = compression_row_ok p" "compression_row_ok (p\<lparr>p_files := y\<rparr>) = compression_row_ok p"
  "compression_row_ok (p\<lparr>p_gitlab := g\<rparr>) = compression_row_ok p" "compression_row_ok (p\<lparr>p_age_secret := s\<rparr>) = compression_row_ok p"
  "compression_row_ok (store_encryption sv e p) = compression_row_ok p"
  "compression_row_ok (store_compression c p) \<longleftrightarrow> (cc_format c = Fmt_None) = (cc_preset c = None)"
  by (simp_all add: compression_row_ok_def store_encryption_def store_compression_def)

lemma encryption_row_frame:
  "encryption_row_ok (p\<lparr>p_database := x\<rparr>) = encryption_row_ok p" "encryption_row_ok (p\<lparr>p_files := y\<rparr>) = encryption_row_ok p"
  "encryption_row_ok (p\<lparr>p_gitlab := g\<rparr>) = encryption_row_ok p"
  by (simp_all add: encryption_row_ok_def)

lemmas row_frames = schedule_row_frame compression_row_frame encryption_row_frame


definition demo_service :: profile_service where
  "demo_service = \<lparr>bs_cipher = Some demo_aead, bs_allowed = Some [''/srv''], bs_denied = [''/srv/secret''],
     bs_mounts = [], bs_time = demo_time_env, bs_cron = demo_cron_env, bs_dumps = (\<lambda>_. ''[]''), bs_now = 50,
     bs_uuid = ''p-8'', bs_age_nonce = ''abcdefghijkl'', bs_password_nonce = ''mnopqrstuvwx''\<rparr>"

definition demo_files_config :: files_config where
  "demo_files_config = \<lparr>fc_location = LocalSource, fc_paths = [''/srv/www/'', ''/srv/app.db''], fc_server_id = None\<rparr>"

definition demo_plain :: encryption_config where
  "demo_plain = \<lparr>ec_mode = Enc_None, ec_recipients = [], ec_passphrase = None\<rparr>"

definition demo_zstd :: compression_config where
  "demo_zstd = \<lparr>cc_format = Fmt_Zstandard, cc_preset = Some High, cc_archive = Some Arc_Tar, cc_override = Some Alg_Zstandard\<rparr>"

definition demo_configured :: profile where
  "demo_configured = (store_schedule demo_weekly (draft_row demo_service 8 ''web'' None FilesDirectories 1))\<lparr>
     p_next := Some 50, p_preset := Some High,
     p_files := Some \<lparr>f_location = LocalSource, f_server_id = None,
       f_paths = [\<lparr>bp_path = ''/srv/www'', bp_sqlite = False\<rparr>, \<lparr>bp_path = ''/srv/app.db'', bp_sqlite = True\<rparr>],
       f_server = None\<rparr>\<rparr>"

lemma demo_profile_rows: "profiles_ok demo_db"
  by code_simp

lemma demo_configure:
  "configure_row demo_service d demo_weekly demo_zstd demo_plain (FilesInput demo_files_config)
     (draft_row demo_service 8 ''web'' None FilesDirectories 1) = Inr demo_configured"
  by code_simp


section \<open>Secrets an edit keeps\<close>

text \<open>
  Reconfiguring a profile without retyping its secrets keeps the stored bytes: with the
  preserve flags the sealed database password and the sealed age passphrase of the new row are
  those of the old row, and a mode without a passphrase drops it.
\<close>

theorem update_keeps_secrets:
  assumes "update_configuration sv actor profile_id u d = (Inr q, d')" and "profile_by_id d profile_id = Some p"
  shows "(case p_database q of None \<Rightarrow> True | Some s \<Rightarrow>
      pu_keep_password u \<longrightarrow> (\<exists>old. p_database p = Some old \<and> d_password s = d_password old \<and> d_password old \<noteq> [])) \<and>
    (pu_keep_passphrase u \<longrightarrow> p_age_secret q = p_age_secret p \<and> p_age_secret p \<noteq> None) \<and>
    (ec_mode (pu_encryption u) \<noteq> AgePassphrase \<longrightarrow> p_age_secret q = None)"
proof -
  from assms have row: "updated_row sv d u p = Inr q"
    by (auto simp: update_configuration_def active_profile_def with_result_Inr case_op_Inr split: option.splits if_splits)
  then obtain name description src p1 secret where ck: "check_update sv d u p = Inr (name, description, src)"
    and secret: "next_age_secret sv u p = Inr secret"
    and rs: "replace_source sv u p src
       ((store_encryption sv (pu_encryption u) (store_compression (pu_compression u) p1))\<lparr>p_age_secret := secret\<rparr>) = Inr q"
    by (auto simp: updated_row_def bind_result_Inr)
  have age: "p_age_secret q = secret"
    using rs by (cases src) (auto simp: replace_source_def bind_result_Inr Let_def)
  have keep: "pu_keep_passphrase u \<longrightarrow> ec_mode (pu_encryption u) = AgePassphrase \<and> p_age_secret p \<noteq> None"
    and new: "check_new_source sv d u p src = Inr ()"
    using ck by (auto simp: check_update_def bind_result_Inr split: if_splits)
  have pw: "pu_keep_password u \<longrightarrow> (\<exists>old. p_database p = Some old \<and> d_password s = d_password old \<and> d_password old \<noteq> [])"
    if "p_database q = Some s" for s
    using rs new that
    by (cases src) (auto simp: replace_source_def check_new_source_def bind_result_Inr Let_def database_row_def
        split: option.splits if_splits bool.splits)
  show ?thesis using age keep pw secret by (auto simp: next_age_secret_def split: option.splits if_splits)
qed

definition demo_pg_source :: database_source where
  "demo_pg_source = \<lparr>d_engine = PostgreSQL, d_host = ''db'', d_port = 5432, d_name = ''app'', d_username = ''app'',
     d_password = ''sealed'', d_tls = TLS_Disabled, d_tls_ca = None, d_in_docker = False, d_backup_path = None,
     d_host_path = None, d_server_id = None, d_server = None\<rparr>"

definition demo_pg :: profile where
  "demo_pg = demo_profile\<lparr>p_id := 9, p_name := ''pg'', p_source_type := DatabaseType, p_files := None,
     p_database := Some demo_pg_source, p_encryption := AgePassphrase, p_age_secret := Some ''age-sealed''\<rparr>"

definition demo_pg_config :: database_config where
  "demo_pg_config = \<lparr>dc_engine = PostgreSQL, dc_host = ''db2'', dc_port = 5433, dc_name = ''app'', dc_username = ''app'',
     dc_password = None, dc_tls = TLS_Disabled, dc_tls_ca = None, dc_in_docker = False, dc_backup_path = None,
     dc_host_path = None, dc_server_id = None\<rparr>"

definition demo_update :: profile_update where
  "demo_update = \<lparr>pu_name = ''pg'', pu_description = None, pu_source_type = DatabaseType, pu_schedule = demo_weekly,
     pu_compression = demo_zstd, pu_encryption = \<lparr>ec_mode = AgePassphrase, ec_recipients = [], ec_passphrase = None\<rparr>,
     pu_admins = [2], pu_enabled = True, pu_database = Some demo_pg_config, pu_files = None, pu_gitlab = None,
     pu_keep_password = True, pu_keep_passphrase = True\<rparr>"

definition demo_pg_db :: db where
  "demo_pg_db = demo_db\<lparr>profiles := [demo_pg], profile_seq := 9\<rparr>"

lemma demo_update_row:
  "updated_row demo_service d demo_update demo_pg = Inr ((store_schedule demo_weekly demo_pg)\<lparr>p_next := Some 50,
     p_format := Fmt_Zstandard, p_algorithm := Alg_Zstandard, p_preset := Some High,
     p_database := Some (demo_pg_source\<lparr>d_host := ''db2'', d_port := 5433\<rparr>)\<rparr>)" if "d = demo_pg_db"
  unfolding that by code_simp

lemma update_keeps_secrets_witness:
  "\<exists>q d'. update_configuration demo_service demo_root 9 demo_update demo_pg_db = (Inr q, d') \<and>
     p_age_secret q = Some ''age-sealed''"
proof -
  let ?q = "(store_schedule demo_weekly demo_pg)\<lparr>p_next := Some 50, p_format := Fmt_Zstandard,
     p_algorithm := Alg_Zstandard, p_preset := Some High,
     p_database := Some (demo_pg_source\<lparr>d_host := ''db2'', d_port := 5433\<rparr>)\<rparr>"
  have act: "active_profile demo_pg_db 9 = Inr demo_pg" "require_superadmin demo_root = Inr ()" by code_simp+
  have fl: "fst (flush_profile ?q (snd (get_settings demo_pg_db))) = Inr ()" by code_simp
  obtain d1 where "flush_profile ?q (snd (get_settings demo_pg_db)) = (Inr (), d1)"
    using fl by (cases "flush_profile ?q (snd (get_settings demo_pg_db))") auto
  then obtain d' where up: "update_configuration demo_service demo_root 9 demo_update demo_pg_db = (Inr ?q, d')"
    by (simp add: update_configuration_def act demo_update_row)
  have p: "profile_by_id demo_pg_db 9 = Some demo_pg" by code_simp
  from update_keeps_secrets [OF up p] have "p_age_secret ?q = p_age_secret demo_pg" by (simp add: demo_update_def)
  then have "p_age_secret ?q = Some ''age-sealed''" by (simp add: demo_pg_def)
  with up show ?thesis by blast
qed

section \<open>Histories\<close>

text \<open>One operation of the service, with any arguments and any environment.\<close>

inductive profile_steps :: "db \<Rightarrow> db \<Rightarrow> bool" where
  start: "profile_steps d d"
| create_database: "profile_steps d e \<Longrightarrow>
    profile_steps d (snd (create_database_profile sv actor name text db schedule compression encryption ids e))"
| create_files: "profile_steps d e \<Longrightarrow>
    profile_steps d (snd (create_files_profile sv actor name text files schedule compression encryption ids e))"
| create_gitlab: "profile_steps d e \<Longrightarrow>
    profile_steps d (snd (create_gitlab_profile sv actor name text gl schedule compression encryption ids e))"
| draft: "profile_steps d e \<Longrightarrow> profile_steps d (snd (create_draft sv actor name text stype e))"
| edit: "profile_steps d e \<Longrightarrow> profile_steps d (snd (edit_profile sv actor i new_name text on e))"
| update: "profile_steps d e \<Longrightarrow> profile_steps d (snd (update_configuration sv actor i u e))"
| delete: "profile_steps d e \<Longrightarrow> profile_steps d (snd (delete_profile sv actor i e))"

text \<open>
  Whatever superadmins do, the profile table keeps its constraints: identifiers and names stay
  unique and every row satisfies every check constraint, errors and refused operations included.
\<close>

theorem profile_rows_stay_valid:
  assumes "profile_steps d d'" and "profiles_ok d"
  shows "profiles_ok d'"
  using assms
proof induction
  case start
  then show ?case .
qed (blast intro: profiles_ok_create_database profiles_ok_create_files profiles_ok_create_gitlab
    profiles_ok_create_draft profiles_ok_edit profiles_ok_update profiles_ok_delete)+

lemma profile_rows_stay_valid_witness:
  "profiles_ok (snd (edit_profile demo_service demo_root 7 (Some ''renamed'') None (Some False) demo_db))"
  by (rule profile_rows_stay_valid [OF profile_steps.edit [OF profile_steps.start] demo_profile_rows])

text \<open>
  The check that a GitLab source is managed once compares the container name as it was typed with
  the stripped name that is stored: with a space in front, the same container is accepted twice.
\<close>

definition demo_gitlab_config :: gitlab_config where
  "demo_gitlab_config = \<lparr>gc_location = LocalSource, gc_container = ''gitlab'', gc_backup_path = None, gc_server_id = None\<rparr>"

lemma gitlab_managed_twice:
  "check_gitlab_root (demo_db\<lparr>profiles := [demo_profile\<lparr>p_gitlab := Some (gitlab_row demo_gitlab_config)\<rparr>]\<rparr>)
     demo_gitlab_config None \<noteq> Inr () \<and>
   check_gitlab_root (demo_db\<lparr>profiles := [demo_profile\<lparr>p_gitlab := Some (gitlab_row demo_gitlab_config)\<rparr>]\<rparr>)
     (demo_gitlab_config\<lparr>gc_container := '' gitlab''\<rparr>) None = Inr () \<and>
   gitlab_row (demo_gitlab_config\<lparr>gc_container := '' gitlab''\<rparr>) = gitlab_row demo_gitlab_config"
  by code_simp

end
