(* ===== verification/ScheduleTick.thy ===== *)
theory ScheduleTick
  imports Runs Profiles
begin

text \<open>
  The operations that move schedule cursors outside the profile service:
  \<^verbatim>\<open>src/src/pipeline/schedule.py\<close> (one tick of the scheduler),
  \<^verbatim>\<open>src/src/application/settings_service.py\<close> with \<^verbatim>\<open>SettingsRepository\<close> (a change of the backup
  time zone), and \<^verbatim>\<open>snapshot_legacy_active_runs\<close> of \<^verbatim>\<open>src/src/application/run_config.py\<close>.
  An exception rolls the whole transaction back.
\<close>

section \<open>The scheduler\<close>

record scheduler_result =
  sr_run :: int
  sr_status :: string

text \<open>A tick meets the clock, the time zones, and for each profile what its enqueue meets.\<close>

record tick_env =
  tk_now :: time
  tk_time :: time_env
  tk_enqueue :: "int \<Rightarrow> enqueue_env"

definition stored_timezone :: "db \<Rightarrow> string \<Rightarrow> string" where
  "stored_timezone d timezone =
     (case settings d of None \<Rightarrow> timezone | Some s \<Rightarrow> if st_timezone s = [] then timezone else st_timezone s)"

definition schedulable :: "profile \<Rightarrow> bool" where
  "schedulable p \<longleftrightarrow> p_enabled p \<and> p_archived_at p = None \<and> p_kind p \<noteq> Manual"

definition set_cursor :: "int \<Rightarrow> time option \<Rightarrow> db \<Rightarrow> db" where
  "set_cursor i n d = update_profile i (\<lambda>p. p\<lparr>p_next := n\<rparr>) d"

text \<open>The cursor a due profile gets after its run was enqueued.\<close>

definition cursor_after :: "tick_env \<Rightarrow> string \<Rightarrow> profile \<Rightarrow> time \<Rightarrow> time option result" where
  "cursor_after env timezone p due =
     (if p_kind p = Once then Inr None
      else next_scheduled_time (tk_time env) p (max due (tk_now env)) timezone)"

definition result_of_run :: "run \<Rightarrow> scheduler_result" where
  "result_of_run r = \<lparr>sr_run = r_id r, sr_status = status_value (r_status r)\<rparr>"

definition tick_profile :: "tick_env \<Rightarrow> string \<Rightarrow> profile \<Rightarrow> scheduler_result list op" where
  "tick_profile env timezone p d =
     (case p_next p of
        None \<Rightarrow>
          if p_kind p = Once then (Inr [], d)
          else with_result (next_scheduled_time (tk_time env) p (tk_now env) timezone)
                 (\<lambda>n d. (Inr [], set_cursor (p_id p) n d)) d
      | Some due \<Rightarrow>
          if due \<le> tk_now env
          then (case enqueue_scheduled (tk_enqueue env (p_id p)) (p_id p) due d of
              (Inl e, d1) \<Rightarrow> (Inl e, d1)
            | (Inr queued, d1) \<Rightarrow> with_result (cursor_after env timezone p due)
                (\<lambda>n d. (Inr [result_of_run (er_run queued)], set_cursor (p_id p) n d)) d1)
          else (Inr [], d))"

fun tick_profiles :: "tick_env \<Rightarrow> string \<Rightarrow> profile list \<Rightarrow> scheduler_result list op" where
  "tick_profiles env timezone [] d = (Inr [], d)"
| "tick_profiles env timezone (p # ps) d =
     (case tick_profile env timezone p d of
        (Inl e, d1) \<Rightarrow> (Inl e, d1)
      | (Inr rs, d1) \<Rightarrow>
          (case tick_profiles env timezone ps d1 of
             (Inl e, d2) \<Rightarrow> (Inl e, d2) | (Inr rs', d2) \<Rightarrow> (Inr (rs @ rs'), d2)))"

definition tick :: "tick_env \<Rightarrow> string \<Rightarrow> scheduler_result list op" where
  "tick env timezone d =
     (case tick_profiles env (stored_timezone d timezone) (filter schedulable (profiles d)) d of
        (Inl e, _) \<Rightarrow> (Inl e, d) | (Inr rs, d') \<Rightarrow> (Inr rs, d'))"

section \<open>The backup time zone\<close>

definition set_timezone :: "string \<Rightarrow> db \<Rightarrow> db" where
  "set_timezone zone d = d\<lparr>settings := Some ((fst (get_settings d))\<lparr>st_timezone := zone\<rparr>)\<rparr>"

definition follows_clock :: "profile \<Rightarrow> bool" where
  "follows_clock p \<longleftrightarrow> p_enabled p \<and> p_archived_at p = None \<and> p_kind p \<in> {Cron, Daily, Weekly, Monthly}"

definition move_cursor :: "time_env \<Rightarrow> time \<Rightarrow> string \<Rightarrow> profile \<Rightarrow> profile result" where
  "move_cursor env now zone p =
     (if follows_clock p
      then bind_result (next_scheduled_time env p now zone) (\<lambda>n. Inr (p\<lparr>p_next := n\<rparr>)) else Inr p)"

definition set_backup_timezone :: "time_env \<Rightarrow> time \<Rightarrow> user \<Rightarrow> string \<Rightarrow> system_settings op" where
  "set_backup_timezone env now actor timezone d =
     with_result (require_superadmin actor) (\<lambda>_.
     with_result (validate_timezone env (strip timezone)) (\<lambda>zone.
     with_result (map_result (move_cursor env now zone) (profiles d)) (\<lambda>ps d.
       let d1 = set_timezone zone d
       in (Inr (fst (get_settings d1)),
           audit ''backup_timezone_changed'' (Some (u_id actor)) (Some ''system_settings'') (Some ''1'')
             [(''backup_timezone'', JStr zone)] (d1\<lparr>profiles := ps\<rparr>))))) d"

section \<open>Runs queued before snapshots existed\<close>

definition legacy_active :: "run \<Rightarrow> bool" where
  "legacy_active r \<longleftrightarrow> r_snapshot r = None \<and> active r"

definition take_snapshot :: "time \<Rightarrow> db \<Rightarrow> run \<Rightarrow> run result" where
  "take_snapshot now d r =
     (if \<not> legacy_active r then Inr r
      else case profile_by_id d (r_profile r) of
        None \<Rightarrow> Inl (ValueError ''active run profile disappeared'')
      | Some p \<Rightarrow> Inr (r\<lparr>r_snapshot := Some (serialize_run_config (load_graph d p) (access_admin_ids d (r_profile r))),
                     r_updated := now\<rparr>))"

definition snapshot_legacy_active_runs :: "time \<Rightarrow> int op" where
  "snapshot_legacy_active_runs now d =
     with_result (map_result (take_snapshot now d) (runs d)) (\<lambda>rs d.
       (Inr (int (length (filter legacy_active (runs d)))), d\<lparr>runs := rs\<rparr>)) d"

section \<open>What a tick does to the profiles\<close>

text \<open>
  The cursor a tick gives a profile. While a tick runs it holds the profile rows, so what other
  sessions commit during an enqueue leaves the profiles alone and only advances the runs.
\<close>

definition ticked_cursor :: "tick_env \<Rightarrow> string \<Rightarrow> profile \<Rightarrow> time option result" where
  "ticked_cursor env timezone p =
     (case p_next p of
        None \<Rightarrow> if p_kind p = Once then Inr None else next_scheduled_time (tk_time env) p (tk_now env) timezone
      | Some due \<Rightarrow> if due \<le> tk_now env then cursor_after env timezone p due else Inr (Some due))"

definition rows_held :: "tick_env \<Rightarrow> bool" where
  "rows_held env \<longleftrightarrow> (\<forall>i d. race_ok (eq_race (tk_enqueue env i)) d \<and>
     profiles (eq_race (tk_enqueue env i) d) = profiles d)"

lemma insert_run_profiles: "insert_run r d = (x, d') \<Longrightarrow> profiles d' = profiles d"
  by (auto simp: insert_run_def Let_def split: if_splits)

lemma already_active_profiles: "profiles (snd (already_active e p t s r d)) = profiles d"
  by (auto simp: already_active_def record_skipped_def dest: insert_run_profiles
      split: prod.splits sum.splits option.splits)

lemma enqueue_scheduled_profiles:
  assumes "\<And>d. profiles (eq_race e d) = profiles d"
  shows "profiles (snd (enqueue_scheduled e p s d)) = profiles d"
proof -
  have aa: "already_active e p t s r x = (y, z) \<Longrightarrow> profiles z = profiles x" for t s r x y z
    using already_active_profiles [of e p t s r x] by simp
  show ?thesis
    using assms by (auto simp: enqueue_scheduled_def enqueue_def with_result_def Let_def aa already_active_profiles
        dest: insert_run_profiles split: sum.splits option.splits prod.splits)
qed

lemma profile_by_id_set_cursor [simp]:
  "profile_by_id (set_cursor j n d) i =
     (if i = j then map_option (\<lambda>p. p\<lparr>p_next := n\<rparr>) (profile_by_id d i) else profile_by_id d i)"
  using find_update_where_key [where k = p_id and f = "\<lambda>p. p\<lparr>p_next := n\<rparr>" and i = i and j = j and rows = "profiles d"]
  by (simp add: profile_by_id_def set_cursor_def update_profile_def)

lemma set_cursor_runs [simp]:
  "runs (set_cursor i n d) = runs d" "run_seq (set_cursor i n d) = run_seq d"
  by (simp_all add: set_cursor_def update_profile_def)

lemma advances_set_cursor [simp]: "advances d0 (set_cursor i n d) = advances d0 d"
  by (rule advances_frame) simp_all

lemma profile_by_id_cong: "profiles d' = profiles d \<Longrightarrow> profile_by_id d' = profile_by_id d"
  by (simp add: profile_by_id_def fun_eq_iff)

lemma tick_profile_step:
  assumes q: "rows_held env" and ok: "runs_ok d" and p: "profile_by_id d (p_id p) = Some p"
    and t: "tick_profile env timezone p d = (Inr rs, d1)"
  shows "advances d d1"
    and "\<exists>n. ticked_cursor env timezone p = Inr n \<and>
      (\<forall>i. profile_by_id d1 i = (if i = p_id p then Some (p\<lparr>p_next := n\<rparr>) else profile_by_id d i))"
    and "p_next p = Some s \<Longrightarrow> s \<le> tk_now env \<Longrightarrow>
      \<exists>r \<in> set (runs d1). in_slot (p_id p) s r \<and> r_id r \<in> sr_run ` set rs"
proof -
  define e where "e = tk_enqueue env (p_id p)"
  from q have r: "race_ok (eq_race e) d" and rp: "\<And>d. profiles (eq_race e d) = profiles d"
    by (simp_all add: rows_held_def e_def)
  have adv: "advances d d2" if "enqueue_scheduled e (p_id p) due d = (x, d2)" for due x d2
    using advances_enqueue_scheduled [OF ok r, of "p_id p" due] that by simp
  have by_id: "profile_by_id d2 = profile_by_id d" if "enqueue_scheduled e (p_id p) due d = (x, d2)" for due x d2
    using enqueue_scheduled_profiles [OF rp, of "p_id p" due d] that by (intro profile_by_id_cong) simp
  have self: "p\<lparr>p_next := n\<rparr> = p" if "p_next p = n" for n using that by (cases p) simp
  show "advances d d1"
    using t ok by (auto simp: tick_profile_def e_def [symmetric] with_result_Inr advances_refl adv
        split: option.splits if_splits prod.splits sum.splits)
  show "\<exists>n. ticked_cursor env timezone p = Inr n \<and>
      (\<forall>i. profile_by_id d1 i = (if i = p_id p then Some (p\<lparr>p_next := n\<rparr>) else profile_by_id d i))"
  proof (cases "p_next p")
    case None
    then show ?thesis
      using t p self by (cases "p_kind p = Once") (auto simp: tick_profile_def ticked_cursor_def with_result_Inr)
  next
    case (Some due)
    show ?thesis
    proof (cases "due \<le> tk_now env")
      case True
      with Some t obtain n d2 where "cursor_after env timezone p due = Inr n" and d1: "d1 = set_cursor (p_id p) n d2"
        and e: "\<exists>x. enqueue_scheduled e (p_id p) due d = (x, d2)"
        by (auto simp: tick_profile_def e_def [symmetric] with_result_Inr split: prod.splits sum.splits)
      with Some True p show ?thesis using by_id by (auto simp: ticked_cursor_def)
    next
      case False
      with Some t have "d1 = d" by (simp add: tick_profile_def)
      then show ?thesis using p self Some False by (intro exI [of _ "Some due"]) (simp add: ticked_cursor_def)
    qed
  qed
  show "\<exists>r \<in> set (runs d1). in_slot (p_id p) s r \<and> r_id r \<in> sr_run ` set rs"
    if "p_next p = Some s" "s \<le> tk_now env"
    using t that enqueue_scheduled_slot
    by (fastforce simp: tick_profile_def e_def [symmetric] with_result_Inr result_of_run_def
        split: prod.splits sum.splits)
qed

lemma in_slot_advances:
  "advances d d' \<Longrightarrow> r \<in> set (runs d) \<Longrightarrow> in_slot p s r \<Longrightarrow> \<exists>q \<in> set (runs d'). in_slot p s q \<and> r_id q = r_id r"
  by (fastforce simp: advances_def runs_evolve_def run_evolves_def same_identity_def in_slot_def)

lemma tick_profiles_all:
  assumes "rows_held env" and "runs_ok d" and "distinct (map p_id ps)"
    and "\<And>p. p \<in> set ps \<Longrightarrow> profile_by_id d (p_id p) = Some p"
    and "tick_profiles env timezone ps d = (Inr rs, d')"
  shows "advances d d' \<and>
    (\<forall>i. i \<notin> p_id ` set ps \<longrightarrow> profile_by_id d' i = profile_by_id d i) \<and>
    (\<forall>p \<in> set ps. \<exists>n. ticked_cursor env timezone p = Inr n \<and> profile_by_id d' (p_id p) = Some (p\<lparr>p_next := n\<rparr>)) \<and>
    (\<forall>p \<in> set ps. \<forall>s. p_next p = Some s \<longrightarrow> s \<le> tk_now env \<longrightarrow>
      (\<exists>r \<in> set (runs d'). in_slot (p_id p) s r \<and> r_id r \<in> sr_run ` set rs))"
  using assms(2-)
proof (induction ps arbitrary: d rs)
  case Nil
  then show ?case by (simp add: advances_refl)
next
  case (Cons p ps)
  from Cons.prems(4) obtain r1 d1 r2 where t: "tick_profile env timezone p d = (Inr r1, d1)"
    and rest: "tick_profiles env timezone ps d1 = (Inr r2, d')" and rs: "rs = r1 @ r2"
    by (auto split: prod.splits sum.splits)
  have p: "profile_by_id d (p_id p) = Some p" using Cons.prems(3) by simp
  note step = tick_profile_step [OF assms(1) Cons.prems(1) p t]
  from step(2) obtain n where n: "ticked_cursor env timezone p = Inr n"
    and d1: "\<And>i. profile_by_id d1 i = (if i = p_id p then Some (p\<lparr>p_next := n\<rparr>) else profile_by_id d i)"
    by blast
  have fresh: "p_id p \<notin> p_id ` set ps" using Cons.prems(2) by auto
  have "profile_by_id d1 (p_id q) = Some q" if "q \<in> set ps" for q
    using that fresh Cons.prems(3) by (auto simp: d1 image_iff)
  note IH = Cons.IH [OF advances_ok [OF step(1)] _ this rest]
  have adv: "advances d1 d'" using IH Cons.prems(2) by simp
  have "\<exists>r \<in> set (runs d'). in_slot (p_id p) s r \<and> r_id r \<in> sr_run ` set rs"
    if "p_next p = Some s" "s \<le> tk_now env" for s
    using step(3) [OF that] in_slot_advances [OF adv] rs by (fastforce simp: image_iff)
  moreover have "\<exists>r \<in> set (runs d'). in_slot (p_id q) s r \<and> r_id r \<in> sr_run ` set rs"
    if "q \<in> set ps" "p_next q = Some s" "s \<le> tk_now env" for q s
    using IH Cons.prems(2) that rs by (fastforce simp: image_iff)
  ultimately show ?case
    using IH Cons.prems(2) fresh n step(1) adv by (auto simp: d1 intro: advances_trans)
qed

lemma tick_profile_keys:
  assumes "rows_held env" and "tick_profile env timezone p d = (Inr rs, d1)"
  shows "map p_id (profiles d1) = map p_id (profiles d)"
proof -
  have "profiles x = profiles d" if "enqueue_scheduled (tk_enqueue env (p_id p)) (p_id p) s d = (y, x)" for s x y
    using enqueue_scheduled_profiles [of "tk_enqueue env (p_id p)" "p_id p" s d] assms(1) that by (simp add: rows_held_def)
  moreover have "map p_id (profiles (set_cursor i n x)) = map p_id (profiles x)" for i n x
    by (simp add: set_cursor_def update_profile_def map_key_update_where)
  ultimately show ?thesis
    using assms(2) by (auto simp: tick_profile_def with_result_Inr split: option.splits if_splits prod.splits sum.splits)
qed

lemma tick_profiles_keys:
  "rows_held env \<Longrightarrow> tick_profiles env timezone ps d = (Inr rs, d') \<Longrightarrow> map p_id (profiles d') = map p_id (profiles d)"
proof (induction ps arbitrary: d rs)
  case (Cons p ps)
  from Cons.prems(2) obtain r1 d1 r2 where t: "tick_profile env timezone p d = (Inr r1, d1)"
    and rest: "tick_profiles env timezone ps d1 = (Inr r2, d')"
    by (auto split: prod.splits sum.splits)
  show ?case
    using tick_profile_keys [OF Cons.prems(1) t] Cons.IH [OF Cons.prems(1) rest] by simp
qed simp

lemma profile_by_id_mem:
  "distinct (map p_id (profiles d)) \<Longrightarrow> p \<in> set (profiles d) \<Longrightarrow> profile_by_id d (p_id p) = Some p"
  by (simp add: profile_by_id_def find_distinct_key)

lemma profile_by_id_Some: "profile_by_id d i = Some p \<Longrightarrow> p \<in> set (profiles d) \<and> p_id p = i"
  by (auto simp: profile_by_id_def dest: find_SomeD)

lemma distinct_map_filter_id: "distinct (map k xs) \<Longrightarrow> distinct (map k (filter P xs))"
  by (induction xs) auto

lemma tick_all:
  assumes "rows_held env" and "runs_ok d" and "distinct (map p_id (profiles d))"
    and "tick env timezone d = (Inr rs, d')"
  shows "advances d d' \<and> distinct (map p_id (profiles d')) \<and>
    (\<forall>p \<in> set (profiles d). schedulable p \<longrightarrow>
       (\<exists>n. ticked_cursor env (stored_timezone d timezone) p = Inr n \<and>
         profile_by_id d' (p_id p) = Some (p\<lparr>p_next := n\<rparr>))) \<and>
    (\<forall>p \<in> set (profiles d). \<not> schedulable p \<longrightarrow> profile_by_id d' (p_id p) = Some p) \<and>
    (\<forall>p \<in> set (profiles d). \<forall>s. schedulable p \<longrightarrow> p_next p = Some s \<longrightarrow> s \<le> tk_now env \<longrightarrow>
      (\<exists>r \<in> set (runs d'). in_slot (p_id p) s r \<and> r_id r \<in> sr_run ` set rs))"
proof -
  let ?ps = "filter schedulable (profiles d)"
  from assms(4) have t: "tick_profiles env (stored_timezone d timezone) ?ps d = (Inr rs, d')"
    by (auto simp: tick_def split: prod.splits sum.splits)
  note by_id = profile_by_id_mem [OF assms(3)]
  have "p_id p \<notin> p_id ` set ?ps" if "p \<in> set (profiles d)" "\<not> schedulable p" for p
    using that by (auto dest: distinct_key_eq [OF assms(3)])
  moreover note tick_profiles_keys [OF assms(1) t]
  ultimately show ?thesis
    using tick_profiles_all [OF assms(1,2) distinct_map_filter_id [OF assms(3)] _ t] by_id assms(3) by auto
qed

section \<open>Properties\<close>

text \<open>
  C33. A tick that succeeds misses no slot: every enabled, unarchived profile whose cursor is due
  has a run for exactly that slot afterwards, and the tick reports it; every schedulable profile
  gets the cursor its schedule asks for and nothing else of it changes, no other profile changes,
  and the run table only advances, whatever other sessions commit to it meanwhile.
\<close>

theorem tick_queues_due_slots:
  assumes "rows_held env" and "runs_ok d" and "distinct (map p_id (profiles d))"
    and "tick env timezone d = (Inr rs, d')" and p: "p \<in> set (profiles d)"
  shows "runs_ok d' \<and>
    (if schedulable p
     then \<exists>n. ticked_cursor env (stored_timezone d timezone) p = Inr n \<and> profile_by_id d' (p_id p) = Some (p\<lparr>p_next := n\<rparr>)
     else profile_by_id d' (p_id p) = Some p) \<and>
    (\<forall>s. schedulable p \<and> p_next p = Some s \<and> s \<le> tk_now env \<longrightarrow>
      (\<exists>r \<in> set (runs d'). r_profile r = p_id p \<and> r_trigger r = TrigScheduled \<and> r_scheduled_for r = Some s \<and>
        r_id r \<in> sr_run ` set rs))"
  using tick_all [OF assms(1-4)] p by (auto simp: in_slot_def dest: advances_ok)

text \<open>A clock three and a half hours ahead, and a cron iterator that gives the next minute.\<close>

definition demo_tick :: tick_env where
  "demo_tick = \<lparr>tk_now = 5, tk_time = demo_time_env\<lparr>croniter_next := (\<lambda>_ z a. to_utc z a + seconds 60)\<rparr>,
     tk_enqueue = (\<lambda>_. demo_env)\<rparr>"

lemma demo_rows_held: "rows_held demo_tick"
  by (simp add: rows_held_def demo_tick_def demo_env_def race_ok_def advances_refl)

lemma demo_enqueue_due: "\<exists>x d1. enqueue_scheduled demo_env 7 0 demo_db = (Inr x, d1)"
proof -
  have "enqueuable demo_db 7 = Inr demo_profile" by code_simp
  moreover have "runs demo_db = []" "eq_race demo_env demo_db = demo_db"
    by (simp_all add: demo_db_def empty_db_def demo_env_def)
  ultimately show ?thesis
    by (simp add: enqueue_scheduled_def enqueue_def existing_slot_def run_in_slot_def
        active_for_profile_def insert_run_def Let_def)
qed

lemma demo_tick_result: "\<exists>rs d'. tick demo_tick ''UTC'' demo_db = (Inr rs, d')"
proof -
  obtain x d1 where e: "enqueue_scheduled demo_env 7 0 demo_db = (Inr x, d1)" using demo_enqueue_due by blast
  have c: "cursor_after demo_tick z demo_profile 0 = Inr (Some (5 + seconds 3600))" for z
    by (simp add: cursor_after_def demo_tick_def demo_profile_def next_scheduled_time_def interval_unit_def)
  have f: "p_next demo_profile = Some 0" "p_id demo_profile = 7" "schedulable demo_profile" "profiles demo_db = [demo_profile]"
    "tk_now demo_tick = 5" "tk_enqueue demo_tick i = demo_env" for i
    by (simp_all add: schedulable_def demo_profile_def demo_db_def demo_tick_def)
  show ?thesis by (simp add: tick_def tick_profile_def f e c)
qed

lemma tick_queues_due_slots_witness:
  "\<exists>rs d'. tick demo_tick ''UTC'' demo_db = (Inr rs, d') \<and>
     (\<exists>r \<in> set (runs d'). r_profile r = 7 \<and> r_scheduled_for r = Some 0 \<and> r_id r \<in> sr_run ` set rs)"
proof -
  from demo_tick_result obtain rs d' where t: "tick demo_tick ''UTC'' demo_db = (Inr rs, d')" by blast
  have p: "demo_profile \<in> set (profiles demo_db)" by (simp add: demo_db_def)
  have dist: "distinct (map p_id (profiles demo_db))" using demo_profile_rows by (simp add: profiles_ok_def)
  have f: "schedulable demo_profile" "p_next demo_profile = Some 0" "(0::int) \<le> tk_now demo_tick" "p_id demo_profile = 7"
    by (simp_all add: schedulable_def demo_profile_def demo_tick_def)
  from tick_queues_due_slots [OF demo_rows_held demo_ok dist t p] f t show ?thesis by fastforce
qed

text \<open>Schedules the validator accepted keep every cursor ahead of the clock.\<close>

definition accepted_profile :: "profile \<Rightarrow> bool" where
  "accepted_profile p \<longleftrightarrow> (\<exists>env c q. validate_schedule env c = Inr c \<and> p = store_schedule c q)"

definition cron_later :: "time_env \<Rightarrow> zone \<Rightarrow> time \<Rightarrow> bool" where
  "cron_later env z earliest \<longleftrightarrow> (\<forall>e t. earliest \<le> t \<longrightarrow> t < croniter_next env e z (to_local z t))"

lemma next_time_later:
  assumes a: "accepted_profile p" and k: "p_kind p \<notin> {Manual, Once}"
    and z: "zoneinfo env tz = Some (fixed_offset off)" and t: "(1 - epoch_ordinal) * us_per_day - off \<le> t"
    and cron: "cron_later env (fixed_offset off) ((1 - epoch_ordinal) * us_per_day - off)"
    and n: "next_scheduled_time env p t tz = Inr x"
  shows "\<exists>n. x = Some n \<and> t < n"
proof -
  from a obtain cenv c q where c: "validate_schedule cenv c = Inr c" "p = store_schedule c q"
    by (auto simp: accepted_profile_def)
  show ?thesis
  proof (cases "p_kind p = Cron")
    case True
    with n z cron t show ?thesis
      by (auto simp: next_scheduled_time_def interval_unit_def zone_of_def cron_later_def bind_result_Inr
          split: option.splits)
  next
    case False
    with k c have "sc_kind c \<notin> {Manual, Once, Cron}" by simp
    from fixed.next_cursor_later [OF c(1) this z t, of q] n c(2) show ?thesis by auto
  qed
qed

lemma ticked_cursor_later:
  assumes "accepted_profile p" and "schedulable p"
    and "zoneinfo (tk_time env) tz = Some (fixed_offset off)" and "(1 - epoch_ordinal) * us_per_day - off \<le> tk_now env"
    and "cron_later (tk_time env) (fixed_offset off) ((1 - epoch_ordinal) * us_per_day - off)" and "ticked_cursor env tz p = Inr x"
  shows "(p_kind p = Once \<and> x = None) \<or> (\<exists>n. x = Some n \<and> tk_now env < n)"
proof -
  note later = next_time_later [OF assms(1) _ assms(3) _ assms(5)]
  show ?thesis
  proof (cases "p_next p")
    case None
    with assms(2,4,6) later [where t = "tk_now env"] show ?thesis
      by (auto simp: ticked_cursor_def schedulable_def split: if_splits)
  next
    case (Some due)
    with assms(2,4,6) later [where t = "tk_now env"] show ?thesis
      by (cases "due \<le> tk_now env") (auto simp: ticked_cursor_def cursor_after_def schedulable_def max_def split: if_splits)
  qed
qed

lemma tick_nothing_due:
  assumes "\<And>p. p \<in> set ps \<Longrightarrow> (p_kind p = Once \<and> p_next p = None) \<or> (\<exists>n. p_next p = Some n \<and> tk_now env < n)"
  shows "tick_profiles env tz ps d = (Inr [], d)"
  using assms
proof (induction ps)
  case (Cons p ps)
  have "tick_profile env tz p d = (Inr [], d)" using Cons.prems [of p] by (auto simp: tick_profile_def)
  with Cons show ?case by simp
qed simp


lemma demo_accepted: "accepted_profile demo_profile"
proof -
  let ?c = "\<lparr>sc_kind = EveryNHours, sc_interval = Some 1, sc_time = None, sc_weekday = None, sc_monthday = None, sc_cron = None\<rparr>"
  have "validate_schedule demo_cron_env ?c = Inr ?c" by code_simp
  moreover have "demo_profile = store_schedule ?c demo_profile"
    by (simp add: demo_profile_def store_schedule_def normalized_cron_expression_def)
  ultimately show ?thesis unfolding accepted_profile_def by blast
qed

lemma demo_cron_later:
  "cron_later (tk_time demo_tick) (fixed_offset off) ((1 - epoch_ordinal) * us_per_day - off)"
proof -
  have "t < of_civil (civil (t + off)) - off + seconds 60" if "(1 - epoch_ordinal) * us_per_day - off \<le> t" for t
    using civil_wall [OF first_day [of "t + off"]] that by (simp add: of_civil_def)
  then show ?thesis by (simp add: cron_later_def demo_tick_def fixed_offset_def)
qed


section \<open>Changing the time zone\<close>

lemma map_result_all2: "map_result f xs = Inr ys \<longleftrightarrow> list_all2 (\<lambda>x y. f x = Inr y) xs ys"
proof (induction xs arbitrary: ys)
  case (Cons x xs)
  then show ?case by (cases ys) (auto simp: bind_result_Inr)
qed (auto simp: list_all2_Nil)

lemma list_all2_map_key: "list_all2 R xs ys \<Longrightarrow> (\<And>x y. R x y \<Longrightarrow> k y = k x) \<Longrightarrow> map k ys = map k xs"
  by (induction rule: list_all2_induct) auto

lemma list_all2_mem: "list_all2 R xs ys \<Longrightarrow> x \<in> set xs \<Longrightarrow> \<exists>y \<in> set ys. R x y"
  by (induction rule: list_all2_induct) auto

lemma list_all2_mem2: "list_all2 R xs ys \<Longrightarrow> y \<in> set ys \<Longrightarrow> \<exists>x \<in> set xs. R x y"
  by (induction rule: list_all2_induct) auto

lemma move_cursor_Inr:
  "move_cursor env now zone p = Inr q \<longleftrightarrow>
     (if follows_clock p then \<exists>n. next_scheduled_time env p now zone = Inr n \<and> q = p\<lparr>p_next := n\<rparr> else q = p)"
  by (auto simp: move_cursor_def bind_result_Inr)

lemma profile_row_cursor: "profile_row_ok (p\<lparr>p_next := n\<rparr>) = profile_row_ok p"
  by (simp add: profile_row_ok_def row_frames compression_row_ok_def encryption_row_ok_def)

lemma set_timezone_frame [simp]:
  "profiles (set_timezone z d) = profiles d" "profile_seq (set_timezone z d) = profile_seq d"
  "settings (set_timezone z d) = Some ((fst (get_settings d))\<lparr>st_timezone := z\<rparr>)"
  by (simp_all add: set_timezone_def)

text \<open>
  A superadmin's change of the backup time zone stores a known zone and recomputes, in that
  zone and from now, the cursor of every enabled, unarchived cron, daily, weekly or monthly
  profile, changing nothing else of any profile; when it is refused, or one cursor cannot be
  computed, the database is as it was. Either way the rows keep their constraints.
\<close>

theorem timezone_change_reschedules:
  assumes ok: "profiles_ok d" and set: "set_backup_timezone env now actor timezone d = (res, d')"
    and p: "p \<in> set (profiles d)"
  shows "profiles_ok d' \<and>
    (case res of
       Inl e \<Rightarrow> d' = d
     | Inr st \<Rightarrow> require_superadmin actor = Inr () \<and> zoneinfo env (strip timezone) \<noteq> None \<and>
         settings d' = Some st \<and> st_timezone st = strip timezone \<and>
         profile_by_id d' (p_id p) = Some (if follows_clock p
           then p\<lparr>p_next := projr (next_scheduled_time env p now (strip timezone))\<rparr> else p))"
proof (cases res)
  case (Inl e)
  with ok set show ?thesis by (auto simp: set_backup_timezone_def with_result_def Let_def split: sum.splits)
next
  case (Inr st)
  with set obtain ps where su: "require_superadmin actor = Inr ()" "validate_timezone env (strip timezone) = Inr (strip timezone)"
    and ps: "map_result (move_cursor env now (strip timezone)) (profiles d) = Inr ps"
    and d': "d' = audit ''backup_timezone_changed'' (Some (u_id actor)) (Some ''system_settings'') (Some ''1'')
       [(''backup_timezone'', JStr (strip timezone))] ((set_timezone (strip timezone) d)\<lparr>profiles := ps\<rparr>)"
    and st: "st = (fst (get_settings d))\<lparr>st_timezone := strip timezone\<rparr>"
    by (auto simp: set_backup_timezone_def with_result_Inr validate_timezone_def get_settings_def [of "set_timezone x y" for x y]
        Let_def split: option.splits)
  note all = ps [unfolded map_result_all2]
  have keys: "map p_id ps = map p_id (profiles d)" "map p_name ps = map p_name (profiles d)"
    using all by (auto intro!: list_all2_map_key simp: move_cursor_Inr split: if_splits)
  have row: "profile_row_ok q \<and> p_id q \<le> profile_seq d" if "q \<in> set ps" for q
    using list_all2_mem2 [OF all that] ok
    by (auto simp: move_cursor_Inr profile_row_cursor profiles_ok_def list_all_iff split: if_splits)
  have ok': "profiles_ok d'" using ok keys row by (simp add: d' profiles_ok_def list_all_iff)
  from list_all2_mem [OF all p] obtain q where q: "q \<in> set ps" "move_cursor env now (strip timezone) p = Inr q" by blast
  then have qp: "p_id q = p_id p" by (auto simp: move_cursor_Inr split: if_splits)
  have "profile_by_id d' (p_id q) = Some q"
    using ok' q(1) by (intro profile_by_id_mem) (simp_all add: profiles_ok_def d')
  with q(2) qp have "profile_by_id d' (p_id p) = Some (if follows_clock p
      then p\<lparr>p_next := projr (next_scheduled_time env p now (strip timezone))\<rparr> else p)"
    by (auto simp: move_cursor_Inr split: if_splits)
  with Inr su st ok' show ?thesis by (auto simp: d' validate_timezone_def split: option.splits)
qed

lemma timezone_change_reschedules_witness:
  "profile_by_id (snd (set_backup_timezone demo_time_env 5 demo_root '' Asia/Tehran'' demo_db)) 7 = Some demo_profile"
proof -
  have res: "\<not> isl (fst (set_backup_timezone demo_time_env 5 demo_root '' Asia/Tehran'' demo_db))"
    by code_simp
  then obtain st d' where s: "set_backup_timezone demo_time_env 5 demo_root '' Asia/Tehran'' demo_db = (Inr st, d')"
    by (cases "set_backup_timezone demo_time_env 5 demo_root '' Asia/Tehran'' demo_db"; cases "fst (set_backup_timezone demo_time_env 5 demo_root '' Asia/Tehran'' demo_db)") auto
  have "demo_profile \<in> set (profiles demo_db)" by (simp add: demo_db_def)
  from timezone_change_reschedules [OF demo_profile_rows s this] s show ?thesis
    by (simp add: demo_profile_def follows_clock_def)
qed

section \<open>Snapshots of legacy runs\<close>

lemma take_snapshot_Inr:
  "take_snapshot now d r = Inr q \<longleftrightarrow>
     (if legacy_active r
      then \<exists>p. profile_by_id d (r_profile r) = Some p \<and>
        q = r\<lparr>r_snapshot := Some (serialize_run_config (load_graph d p) (access_admin_ids d (r_profile r))), r_updated := now\<rparr>
      else q = r)"
  by (auto simp: take_snapshot_def split: option.splits)

lemma take_snapshot_same:
  assumes "take_snapshot now d r = Inr q"
  shows "r_id q = r_id r" "r_status q = r_status r" "run_ok q = run_ok r" "conflicting q b = conflicting r b"
    "conflicting b q = conflicting b r" "\<not> legacy_active q"
  using assms by (auto simp: take_snapshot_Inr run_ok_def conflicting_def same_slot_def active_def legacy_active_def split: if_splits)

text \<open>
  After the start-up pass over runs queued before snapshots existed, every active run carries
  one; the snapshot of such a run restores to its profile as it is now, with its sources, servers
  and assigned administrators, its status is unchanged, the run table keeps its invariant, and a
  second pass finds nothing to do.
\<close>

theorem legacy_runs_get_snapshots:
  assumes ok: "runs_ok d" and s: "snapshot_legacy_active_runs now d = (Inr n, d')"
    and range: "\<And>p. p \<in> set (profiles d) \<Longrightarrow> \<forall>w \<in> set_option (p_next p). datetime_range w"
  shows "runs_ok d' \<and> (\<forall>r \<in> set (runs d'). active r \<longrightarrow> r_snapshot r \<noteq> None) \<and>
    snapshot_legacy_active_runs now' d' = (Inr 0, d') \<and>
    (\<forall>r \<in> set (runs d). legacy_active r \<longrightarrow> (\<exists>q g j. run_by_id d' (r_id r) = Some q \<and> r_status q = r_status r \<and>
      profile_by_id d (r_profile r) = Some g \<and> r_snapshot q = Some j \<and>
      restore_run_config j = Inr (snapshot_view (load_graph d g)) \<and>
      restore_run_admin_ids j = Inr (sort (access_admin_ids d (r_profile r)))))"
proof -
  from s obtain rs where rs: "map_result (take_snapshot now d) (runs d) = Inr rs" and d': "d' = d\<lparr>runs := rs\<rparr>"
    by (auto simp: snapshot_legacy_active_runs_def with_result_Inr)
  note all = rs [unfolded map_result_all2]
  have ids: "map r_id rs = map r_id (runs d)"
    using all by (auto intro!: list_all2_map_key dest: take_snapshot_same)
  have from_old: "\<exists>r \<in> set (runs d). take_snapshot now d r = Inr q" if "q \<in> set rs" for q
    by (rule list_all2_mem2 [OF all that])
  have new: "\<not> legacy_active q" if "q \<in> set rs" for q using from_old [OF that] take_snapshot_same(6) by blast
  have ok': "runs_ok d'"
    unfolding runs_ok_def d'
  proof (intro conjI ballI impI; simp)
    show "distinct (map r_id rs)" using ok ids by (simp add: runs_ok_def)
    show "run_ok q" "r_id q \<le> run_seq d" if "q \<in> set rs" for q
      using from_old [OF that] ok by (auto simp: runs_ok_def take_snapshot_same)
    show "\<not> conflicting a b" if "a \<in> set rs" "b \<in> set rs" "r_id a \<noteq> r_id b" for a b
      using from_old [OF that(1)] from_old [OF that(2)] ok that(3) by (auto simp: runs_ok_def take_snapshot_same)
  qed
  have again: "snapshot_legacy_active_runs now' d' = (Inr 0, d')"
  proof -
    have "map_result (take_snapshot now' d') rs = Inr rs"
      using map_result_all [of rs "take_snapshot now' d'" "\<lambda>x. x"] new by (simp add: take_snapshot_def)
    moreover have "filter legacy_active rs = []" using new by (simp add: filter_empty_conv)
    ultimately show ?thesis by (simp add: snapshot_legacy_active_runs_def d')
  qed
  have snap: "\<exists>q g j. run_by_id d' (r_id r) = Some q \<and> r_status q = r_status r \<and>
      profile_by_id d (r_profile r) = Some g \<and> r_snapshot q = Some j \<and>
      restore_run_config j = Inr (snapshot_view (load_graph d g)) \<and>
      restore_run_admin_ids j = Inr (sort (access_admin_ids d (r_profile r)))"
    if r: "r \<in> set (runs d)" "legacy_active r" for r
  proof -
    from list_all2_mem [OF all r(1)] obtain q where q: "q \<in> set rs" "take_snapshot now d r = Inr q" by blast
    with r(2) obtain g where g: "profile_by_id d (r_profile r) = Some g"
      and qs: "r_snapshot q = Some (serialize_run_config (load_graph d g) (access_admin_ids d (r_profile r)))"
      by (auto simp: take_snapshot_Inr)
    have "run_by_id d' (r_id r) = Some q"
      using runs_ok_by_id [OF ok', of q] q take_snapshot_same(1) [OF q(2)] by (simp add: d')
    moreover have "\<And>w. p_next (load_graph d g) = Some w \<Longrightarrow> datetime_range w"
      using range [of g] profile_by_id_Some [OF g] by (simp add: load_graph_def)
    note restore_serialize [OF this]
    moreover have "sort (remdups (access_admin_ids d (r_profile r))) = sort (access_admin_ids d (r_profile r))"
      unfolding access_admin_ids_def by (simp only: distinct_remdups_id [OF distinct_remdups])
    ultimately show ?thesis using g qs take_snapshot_same(2) [OF q(2)] by (simp add: restore_admin_ids)
  qed
  show ?thesis using ok' again snap new by (auto simp: legacy_active_def d')
qed

definition demo_legacy :: db where
  "demo_legacy = demo_queued\<lparr>runs := [demo_queued_run\<lparr>r_snapshot := None\<rparr>]\<rparr>"

lemma legacy_runs_get_snapshots_witness:
  "\<exists>d' q j. snapshot_legacy_active_runs 9 demo_legacy = (Inr 1, d') \<and> run_by_id d' 1 = Some q \<and>
     r_snapshot q = Some j \<and> restore_run_admin_ids j = Inr [2]"
proof -
  let ?r = "demo_queued_run\<lparr>r_snapshot := None\<rparr>"
  have r: "r_id ?r = 1" "r_profile ?r = 7" "legacy_active ?r" "runs demo_legacy = [?r]"
    by (simp_all add: demo_queued_run_def queued_run_def blank_run_def legacy_active_def active_def active_statuses_def demo_legacy_def)
  have ok: "runs_ok demo_legacy"
    using demo_queued_ok by (simp add: runs_ok_def demo_legacy_def demo_queued_frame run_ok_def active_def)
  have pr: "profiles demo_legacy = [demo_profile]" "access demo_legacy = access demo_db"
    by (simp_all add: demo_legacy_def demo_queued_frame)
  have p7: "profile_by_id demo_legacy 7 = Some demo_profile"
    by (simp add: profile_by_id_def pr) (simp add: demo_profile_def)
  obtain d' where s: "snapshot_legacy_active_runs 9 demo_legacy = (Inr 1, d')"
    using r by (simp add: snapshot_legacy_active_runs_def take_snapshot_def p7)
  have range: "\<And>p. p \<in> set (profiles demo_legacy) \<Longrightarrow> \<forall>w \<in> set_option (p_next p). datetime_range w"
    by (simp add: pr demo_profile_def datetime_range_def) code_simp
  have ids: "sort (access_admin_ids demo_legacy 7) = [2]"
    by (simp add: access_admin_ids_def pr demo_db_def)
  from legacy_runs_get_snapshots [OF ok s range] r ids s show ?thesis by fastforce
qed

section \<open>Deleted profiles\<close>



end
