(* ===== verification/RemoteServers.thy ===== *)
theory RemoteServers
  imports Profiles
begin

text \<open>
  \<^verbatim>\<open>src/src/application/remote_server_service.py\<close>, \<^verbatim>\<open>RemoteServerRepository\<close> and the gateway
  \<^verbatim>\<open>src/src/infrastructure/ssh.py\<close>: servers are probed, their host key is confirmed by a
  superadmin, and from then on only that key is accepted. \<^verbatim>\<open>asyncssh\<close> is a parameter: whether it
  can import a key, and what a connection attempt gives, an exception or the fingerprint the
  client object was shown, if it was shown one.
\<close>

section \<open>The gateway\<close>

record ssh_credentials =
  sc_host :: string
  sc_port :: int
  sc_username :: string
  sc_private_key :: string
  sc_passphrase :: "string option"

record ssh_env =
  ssh_imports :: "string \<Rightarrow> string option \<Rightarrow> bool"
  ssh_connect :: "ssh_credentials \<Rightarrow> string option result"

definition import_key :: "ssh_env \<Rightarrow> ssh_credentials \<Rightarrow> unit result" where
  "import_key env c = guard_result (ssh_imports env (sc_private_key c) (sc_passphrase c))
     (ValueError ''invalid SSH private key or passphrase'')"

definition discover_fingerprint :: "ssh_env \<Rightarrow> ssh_credentials \<Rightarrow> string result" where
  "discover_fingerprint env c =
     bind_result (import_key env c) (\<lambda>_.
     bind_result (ssh_connect env c) (\<lambda>shown.
       case shown of None \<Rightarrow> Inl (OSError ''SSH server did not present a host key'')
       | Some fingerprint \<Rightarrow> Inr fingerprint))"

definition host_key_changed :: exn where
  "host_key_changed = OSError ''SSH host key does not match the trusted fingerprint''"

text \<open>\<^verbatim>\<open>_PinnedHostKeyClient\<close> raises during the connection when the key shown is another one.\<close>

definition pinned_connection :: "ssh_env \<Rightarrow> ssh_credentials \<Rightarrow> string \<Rightarrow> unit result" where
  "pinned_connection env c expected =
     bind_result (import_key env c) (\<lambda>_.
     bind_result (ssh_connect env c) (\<lambda>shown.
       case shown of None \<Rightarrow> Inr ()
       | Some actual \<Rightarrow> if actual = expected then Inr () else Inl host_key_changed))"

definition test_connection :: "ssh_env \<Rightarrow> ssh_credentials \<Rightarrow> string \<Rightarrow> unit result" where
  "test_connection env c expected = pinned_connection env c expected"

section \<open>The service\<close>

record server_service =
  sv_cipher :: aead
  sv_gateway :: ssh_env
  sv_now :: time
  sv_key_nonce :: bytes
  sv_phrase_nonce :: bytes

record pending_server =
  ps_name :: string
  ps_host :: string
  ps_port :: int
  ps_username :: string
  ps_key :: bytes
  ps_passphrase :: "bytes option"
  ps_fingerprint :: string

definition key_context :: string where
  "key_context = ''remote-server-private-key-v1''"

definition phrase_context :: string where
  "phrase_context = ''remote-server-key-passphrase-v1''"

definition username_ok :: "string \<Rightarrow> bool" where
  "username_ok u \<longleftrightarrow> u \<noteq> [] \<and> length u \<le> 128 \<and> \<not> list_ex is_space u"

definition probe :: "server_service \<Rightarrow> user \<Rightarrow> string \<Rightarrow> string \<Rightarrow> int \<Rightarrow> string \<Rightarrow> string \<Rightarrow> string option \<Rightarrow>
    pending_server result" where
  "probe sv actor name host port username private_key passphrase =
     bind_result (require_superadmin actor) (\<lambda>_.
     bind_result (guard_result (username_ok (strip username)) (ValueError ''invalid SSH username'')) (\<lambda>_.
     bind_result (validate_host host) (\<lambda>clean_host.
     bind_result (validate_port port) (\<lambda>clean_port.
     bind_result (discover_fingerprint (sv_gateway sv)
         \<lparr>sc_host = clean_host, sc_port = clean_port, sc_username = strip username,
           sc_private_key = private_key, sc_passphrase = passphrase\<rparr>) (\<lambda>fingerprint.
     bind_result (validate_name name ''name'') (\<lambda>clean_name.
     bind_result (encrypt_secret (sv_cipher sv) (sv_key_nonce sv) private_key key_context) (\<lambda>sealed_key.
     bind_result (if given passphrase
         then bind_result (encrypt_secret (sv_cipher sv) (sv_phrase_nonce sv) (the passphrase) phrase_context)
                (\<lambda>s. Inr (Some s))
         else Inr None) (\<lambda>sealed_phrase.
       Inr \<lparr>ps_name = clean_name, ps_host = clean_host, ps_port = clean_port, ps_username = strip username,
         ps_key = sealed_key, ps_passphrase = sealed_phrase, ps_fingerprint = fingerprint\<rparr>))))))))"

definition store_pending :: "pending_server \<Rightarrow> remote_server \<Rightarrow> remote_server" where
  "store_pending p s = s\<lparr>s_name := ps_name p, s_host := ps_host p, s_port := ps_port p,
     s_username := ps_username p, s_key := ps_key p, s_passphrase := ps_passphrase p,
     s_fingerprint := ps_fingerprint p\<rparr>"

text \<open>A new row: enabled, not deleted, authenticated by a private key.\<close>

definition server_row :: "int \<Rightarrow> pending_server \<Rightarrow> remote_server" where
  "server_row i p = \<lparr>s_id = i, s_name = ps_name p, s_host = ps_host p, s_port = ps_port p,
     s_username = ps_username p, s_method = PrivateKey, s_key = ps_key p, s_passphrase = ps_passphrase p,
     s_fingerprint = ps_fingerprint p, s_enabled = True, s_deleted = None\<rparr>"

text \<open>Any integrity error of the insert is reported as a name conflict.\<close>

definition create_server :: "pending_server \<Rightarrow> remote_server op" where
  "create_server p d =
     (let s = server_row (server_seq d + 1) p
      in if \<not> server_row_ok s \<or> list_ex (\<lambda>q. s_name q = s_name s) (servers d)
         then (Inl (ConflictError ''remote server name already exists''), d)
         else (Inr s, d\<lparr>servers := servers d @ [s], server_seq := server_seq d + 1\<rparr>))"

definition server_event :: "string \<Rightarrow> user \<Rightarrow> remote_server \<Rightarrow> (string \<times> json) list \<Rightarrow> db \<Rightarrow> db" where
  "server_event ev actor s extra d =
     audit ev (Some (u_id actor)) (Some ''remote_server'') (Some (show_int (s_id s))) extra d"

definition trust_details :: "remote_server \<Rightarrow> (string \<times> json) list" where
  "trust_details s = [(''host'', JStr (s_host s)), (''port'', JInt (s_port s)), (''fingerprint'', JStr (s_fingerprint s))]"

definition confirm_server :: "user \<Rightarrow> pending_server \<Rightarrow> remote_server op" where
  "confirm_server actor p d =
     with_result (require_superadmin actor) (\<lambda>_ d.
       case create_server p d of
         (Inl e, _) \<Rightarrow> (Inl e, d)
       | (Inr s, d1) \<Rightarrow> (Inr s, server_event ''remote_server_trusted'' actor s (trust_details s) d1)) d"

definition locked_server :: "db \<Rightarrow> int \<Rightarrow> remote_server result" where
  "locked_server d i =
     (case find (\<lambda>s. s_id s = i \<and> s_deleted s = None) (servers d) of
        None \<Rightarrow> Inl (ValueError ''remote server not found'') | Some s \<Rightarrow> Inr s)"

definition update_server_row :: "int \<Rightarrow> (remote_server \<Rightarrow> remote_server) \<Rightarrow> db \<Rightarrow> db" where
  "update_server_row i f d = d\<lparr>servers := update_where (\<lambda>s. s_id s = i) f (servers d)\<rparr>"

text \<open>The flush of a changed row; here an integrity error is not translated.\<close>

definition flush_server :: "remote_server \<Rightarrow> unit op" where
  "flush_server s d =
     (if \<not> server_row_ok s \<or> list_ex (\<lambda>q. s_id q \<noteq> s_id s \<and> s_name q = s_name s) (servers d)
      then (Inl IntegrityError, d)
      else (Inr (), update_server_row (s_id s) (\<lambda>_. s) d))"

definition update_server :: "user \<Rightarrow> int \<Rightarrow> pending_server \<Rightarrow> remote_server op" where
  "update_server actor i p d =
     with_result (require_superadmin actor) (\<lambda>_.
     with_result (locked_server d i) (\<lambda>s d.
       case flush_server (store_pending p s) d of
         (Inl e, _) \<Rightarrow> (Inl e, d)
       | (Inr _, d1) \<Rightarrow> (Inr (store_pending p s),
           server_event ''remote_server_retrusted'' actor s (trust_details (store_pending p s)) d1))) d"

definition stored_credentials :: "server_service \<Rightarrow> remote_server \<Rightarrow> ssh_credentials result" where
  "stored_credentials sv s =
     bind_result (decrypt_secret (sv_cipher sv) (s_key s) key_context) (\<lambda>key.
     bind_result (if given (s_passphrase s)
         then bind_result (decrypt_secret (sv_cipher sv) (the (s_passphrase s)) phrase_context) (\<lambda>t. Inr (Some t))
         else Inr None) (\<lambda>phrase.
       Inr \<lparr>sc_host = s_host s, sc_port = s_port s, sc_username = s_username s, sc_private_key = key,
         sc_passphrase = phrase\<rparr>))"

definition test_server :: "server_service \<Rightarrow> user \<Rightarrow> int \<Rightarrow> unit op" where
  "test_server sv actor i d =
     with_result (require_superadmin actor) (\<lambda>_.
     with_result (active_server d i) (\<lambda>s.
     with_result (stored_credentials sv s) (\<lambda>c.
     with_result (test_connection (sv_gateway sv) c (s_fingerprint s)) (\<lambda>_ d.
       (Inr (), server_event ''remote_server_connection_tested'' actor s [] d))))) d"

definition set_server_enabled :: "user \<Rightarrow> int \<Rightarrow> bool \<Rightarrow> remote_server op" where
  "set_server_enabled actor i enabled d =
     with_result (require_superadmin actor) (\<lambda>_.
     with_result (locked_server d i) (\<lambda>s d.
       (Inr (s\<lparr>s_enabled := enabled\<rparr>), server_event ''remote_server_edited'' actor s []
          (update_server_row i (\<lambda>s. s\<lparr>s_enabled := enabled\<rparr>) d)))) d"

definition retire_server :: "time \<Rightarrow> remote_server \<Rightarrow> remote_server" where
  "retire_server now s = s\<lparr>s_enabled := False, s_deleted := Some now\<rparr>"

definition delete_server :: "server_service \<Rightarrow> user \<Rightarrow> int \<Rightarrow> unit op" where
  "delete_server sv actor i d =
     with_result (require_superadmin actor) (\<lambda>_.
     with_result (locked_server d i) (\<lambda>s d.
       (Inr (), server_event ''remote_server_deleted'' actor s []
          (update_server_row i (retire_server (sv_now sv)) d)))) d"

definition list_servers :: "db \<Rightarrow> bool \<Rightarrow> remote_server list" where
  "list_servers d enabled_only =
     sort_key s_id (filter (\<lambda>s. s_deleted s = None \<and> (enabled_only \<longrightarrow> s_enabled s)) (servers d))"

text \<open>\<^verbatim>\<open>RemoteServerRepository.update\<close>, which does translate the conflict.\<close>

definition repository_update :: "int \<Rightarrow> pending_server \<Rightarrow> remote_server op" where
  "repository_update i p d =
     with_result (active_server d i) (\<lambda>s d.
       case flush_server (store_pending p s) d of
         (Inl e, _) \<Rightarrow> (Inl (ConflictError ''remote server name already exists''), d)
       | (Inr _, d1) \<Rightarrow> (Inr (store_pending p s), d1)) d"

section \<open>The table keeps its constraints\<close>

definition servers_ok :: "db \<Rightarrow> bool" where
  "servers_ok d \<longleftrightarrow> distinct (map s_id (servers d)) \<and> distinct (map s_name (servers d)) \<and>
     list_all (\<lambda>s. s_id s \<le> server_seq d \<and> server_row_ok s) (servers d)"

lemma servers_ok_cong: "servers d' = servers d \<Longrightarrow> server_seq d' = server_seq d \<Longrightarrow> servers_ok d' = servers_ok d"
  by (simp add: servers_ok_def)

lemma server_event_frame [simp]:
  "servers (server_event ev a s m d) = servers d" "server_seq (server_event ev a s m d) = server_seq d"
  "servers_ok (server_event ev a s m d) = servers_ok d"
  by (simp_all add: server_event_def servers_ok_def)

lemma server_by_id_mem: "servers_ok d \<Longrightarrow> s \<in> set (servers d) \<Longrightarrow> server_by_id d (s_id s) = Some s"
  by (simp add: servers_ok_def server_by_id_def find_distinct_key)

lemma servers_ok_create:
  assumes "servers_ok d" and "create_server p d = (Inr s, d1)"
  shows "servers_ok d1 \<and> s \<in> set (servers d1) \<and> s = server_row (server_seq d + 1) p"
  using assms by (fastforce simp: create_server_def servers_ok_def Let_def server_row_def list_all_iff list_ex_iff split: if_splits)

lemma servers_ok_update_row:
  assumes ok: "servers_ok d" and keep: "\<And>s. s_id (f s) = s_id s \<and> s_name (f s) = s_name s \<and> s_port (f s) = s_port s"
  shows "servers_ok (update_server_row i f d)"
proof -
  have keys: "map s_id (update_where P f ss) = map s_id ss" "map s_name (update_where P f ss) = map s_name ss" for P ss
    using keep by (simp_all add: map_key_update_where)
  show ?thesis
    using ok keep by (auto simp: servers_ok_def update_server_row_def keys list_all_iff set_update_where server_row_ok_def)
qed

lemma distinct_replace_key:
  assumes "distinct (map k xs)" and "distinct (map i xs)" and "\<not> list_ex (\<lambda>q. i q \<noteq> i x \<and> k q = k x) xs"
  shows "distinct (map k (update_where (\<lambda>q. i q = i x) (\<lambda>_. x) xs))"
  using assms
proof (induction xs)
  case (Cons q xs)
  then show ?case
    by (cases "i q = i x") (auto simp: list_ex_iff set_update_where update_where_none rev_image_eqI)
qed simp

lemma servers_ok_flush:
  assumes ok: "servers_ok d" and fl: "flush_server s d = (Inr u, d1)"
  shows "servers_ok d1"
proof -
  have ids: "map s_id (update_where (\<lambda>q. s_id q = s_id s) (\<lambda>_. s) ss) = map s_id ss" for ss
    by (rule map_key_update_where) simp
  from fl have "server_row_ok s" "\<not> list_ex (\<lambda>q. s_id q \<noteq> s_id s \<and> s_name q = s_name s) (servers d)"
    and "d1 = update_server_row (s_id s) (\<lambda>_. s) d" by (auto simp: flush_server_def split: if_splits)
  with ok distinct_replace_key [of s_name "servers d" s_id s] show ?thesis
    by (auto simp: servers_ok_def update_server_row_def ids list_all_iff set_update_where)
qed

lemmas server_op_inv = with_result_inv [where I = servers_ok] case_op_inv [where I = servers_ok]

text \<open>One operation of the service, with any arguments.\<close>

inductive server_steps :: "db \<Rightarrow> db \<Rightarrow> bool" where
  start: "server_steps d d"
| confirm: "server_steps d e \<Longrightarrow> server_steps d (snd (confirm_server actor p e))"
| update: "server_steps d e \<Longrightarrow> server_steps d (snd (update_server actor i p e))"
| test: "server_steps d e \<Longrightarrow> server_steps d (snd (test_server sv actor i e))"
| enable: "server_steps d e \<Longrightarrow> server_steps d (snd (set_server_enabled actor i on e))"
| delete: "server_steps d e \<Longrightarrow> server_steps d (snd (delete_server sv actor i e))"

lemma server_steps_ok: "server_steps d d' \<Longrightarrow> servers_ok d \<Longrightarrow> servers_ok d'"
proof (induction rule: server_steps.induct)
  case (confirm d e actor p)
  then show ?case
    unfolding confirm_server_def by (intro server_op_inv) (auto dest: servers_ok_create)
next
  case (update d e actor i p)
  then show ?case
    unfolding update_server_def by (intro server_op_inv) (auto dest: servers_ok_flush)
next
  case (test d e sv actor i)
  then show ?case
    unfolding test_server_def by (intro server_op_inv) auto
next
  case (enable d e actor i on)
  then show ?case
    unfolding set_server_enabled_def by (intro server_op_inv) (auto intro: servers_ok_update_row)
next
  case (delete d e sv actor i)
  then show ?case
    unfolding delete_server_def by (intro server_op_inv) (auto intro: servers_ok_update_row simp: retire_server_def)
qed

section \<open>Trust\<close>

text \<open>The laws of the cipher for one sealed text.\<close>

definition opens :: "aead \<Rightarrow> bytes \<Rightarrow> string \<Rightarrow> string \<Rightarrow> bool" where
  "opens c nonce plain purpose \<longleftrightarrow> length nonce = 12 \<and> 16 < length (seal c nonce (utf8 plain) (utf8 purpose)) \<and>
     unseal c nonce (seal c nonce (utf8 plain) (utf8 purpose)) (utf8 purpose) = Some (utf8 plain)"

lemma decrypt_opens:
  "encrypt_secret c nonce plain purpose = Inr token \<Longrightarrow> opens c nonce plain purpose \<Longrightarrow>
     decrypt_secret c token purpose = Inr plain \<and> token \<noteq> []"
  by (auto simp: opens_def encrypt_secret_def decrypt_secret_def utf8_round_trip split: if_splits)


definition demo_gateway :: "string \<Rightarrow> ssh_env" where
  "demo_gateway fp = \<lparr>ssh_imports = (\<lambda>_ _. True), ssh_connect = (\<lambda>_. Inr (Some fp))\<rparr>"

definition demo_servers :: server_service where
  "demo_servers = \<lparr>sv_cipher = demo_aead, sv_gateway = demo_gateway ''SHA256:aa'', sv_now = 5,
     sv_key_nonce = ''abcdefghijkl'', sv_phrase_nonce = ''mnopqrstuvwx''\<rparr>"


end
