(* ===== verification/Expiry.thy ===== *)
theory Expiry
  imports Prelude "HOL-Library.AList"
begin

text \<open>
  What the bot's process-local stores share: a dictionary whose values carry the instant at which
  they lapse. A Python \<^verbatim>\<open>dict\<close> is an association list with distinct keys, updated in place.
\<close>

definition live_item :: "('v \<Rightarrow> time) \<Rightarrow> time \<Rightarrow> ('k \<times> 'v) list \<Rightarrow> 'k \<Rightarrow> 'v option" where
  "live_item expiry now items k =
     (case map_of items k of None \<Rightarrow> None | Some v \<Rightarrow> if expiry v \<le> now then None else Some v)"

definition unexpired :: "('v \<Rightarrow> time) \<Rightarrow> time \<Rightarrow> ('k \<times> 'v) list \<Rightarrow> ('k \<times> 'v) list" where
  "unexpired expiry now items = filter (\<lambda>(k, v). now < expiry v) items"

definition keys :: "('k \<times> 'v) list \<Rightarrow> 'k list" where
  "keys items = map fst items"

text \<open>
  An expiring store: what it holds for a key at an instant only lapses with time, and a sweep is
  invisible from its own instant on.
\<close>

locale expiring_store =
  fixes find_live :: "time \<Rightarrow> 's \<Rightarrow> 'k \<Rightarrow> 'v option"
    and sweep :: "time \<Rightarrow> 's \<Rightarrow> 's"
    and valid :: "'s \<Rightarrow> bool"
  assumes lapses: "t \<le> t' \<Longrightarrow> find_live t' s k = Some v \<Longrightarrow> find_live t s k = Some v"
    and sweep_invisible: "valid s \<Longrightarrow> now \<le> t \<Longrightarrow> find_live t (sweep now s) k = find_live t s k"
    and sweep_valid: "valid s \<Longrightarrow> valid (sweep now s)"
begin

lemma dead_stays_dead: "t \<le> t' \<Longrightarrow> find_live t s k = None \<Longrightarrow> find_live t' s k = None"
  using lapses [of t t' s k] by (cases "find_live t' s k") auto

text \<open>Any number of sweeps up to an instant leaves what the store holds then.\<close>

lemma sweeps_invisible:
  "valid s \<Longrightarrow> list_all (\<lambda>now. now \<le> t) nows \<Longrightarrow>
     valid (foldl (\<lambda>s now. sweep now s) s nows) \<and>
     find_live t (foldl (\<lambda>s now. sweep now s) s nows) k = find_live t s k"
proof (induction nows arbitrary: s)
  case (Cons now nows)
  from Cons.prems have s: "valid (sweep now s)" "now \<le> t" "list_all (\<lambda>now. now \<le> t) nows"
    by (auto intro: sweep_valid)
  from Cons.IH [OF s(1,3)] sweep_invisible [OF Cons.prems(1) s(2)] show ?case by simp
qed simp

end

lemma live_item_lapses: "t \<le> t' \<Longrightarrow> live_item f t' items k = Some v \<Longrightarrow> live_item f t items k = Some v"
  by (auto simp: live_item_def split: option.splits if_splits)

lemma map_of_filter_distinct:
  "distinct (keys items) \<Longrightarrow> map_of (filter P items) k =
     (case map_of items k of None \<Rightarrow> None | Some v \<Rightarrow> if P (k, v) then Some v else None)"
  by (induction items) (auto simp: keys_def map_of_eq_None_iff dest: map_of_SomeD split: option.splits)

lemma live_item_unexpired:
  "distinct (keys items) \<Longrightarrow> now \<le> t \<Longrightarrow> live_item f t (unexpired f now items) k = live_item f t items k"
  by (auto simp: live_item_def unexpired_def map_of_filter_distinct split: option.splits)

lemma keys_unexpired: "distinct (keys items) \<Longrightarrow> distinct (keys (unexpired f now items))"
  by (induction items) (auto simp: unexpired_def keys_def)

lemma keys_update [simp]: "distinct (keys items) \<Longrightarrow> distinct (keys (AList.update k v items))"
  by (simp add: keys_def distinct_update)

lemma set_update_pairs: "(j, w) \<in> set (AList.update k v items) \<Longrightarrow> (j, w) = (k, v) \<or> (j, w) \<in> set items"
  by (induction items) (auto split: if_splits)

lemma set_delete_pairs: "(j, w) \<in> set (AList.delete k items) \<longleftrightarrow> (j, w) \<in> set items \<and> j \<noteq> k"
  by (auto simp: AList.delete_eq)

lemma set_unexpired: "x \<in> set (unexpired f now items) \<Longrightarrow> x \<in> set items"
  by (auto simp: unexpired_def)

lemma keys_delete [simp]: "distinct (keys items) \<Longrightarrow> distinct (keys (AList.delete k items))"
  by (simp add: keys_def distinct_delete)

text \<open>The plain dictionary is one.\<close>

interpretation expiring_dict: expiring_store "live_item f" "unexpired f" "\<lambda>items. distinct (keys items)"
  by unfold_locales (auto intro: live_item_lapses keys_unexpired simp: live_item_unexpired)

end
