(* ===== verification/Callbacks.thy ===== *)
theory Callbacks
  imports Expiry
begin

text \<open>
  \<^verbatim>\<open>CallbackStore\<close> of \<^verbatim>\<open>src/src/presentation/telegram/runtime/callbacks.py\<close>: opaque tokens behind
  the buttons of a message, each for one actor, one use and a limited time. The clock and the
  random token are arguments; a token is drawn from an alphabet without the separator.
\<close>

section \<open>The store\<close>

record callback_action =
  ca_actor :: int
  ca_action :: string
  ca_target :: int
  ca_expires :: time

type_synonym callback_items = "(string \<times> callback_action) list"

datatype verdict = CbAccepted | CbExpired | CbInvalid

definition issue_callback ::
  "int \<Rightarrow> time \<Rightarrow> string \<Rightarrow> int \<Rightarrow> string \<Rightarrow> int \<Rightarrow> callback_items \<Rightarrow> string \<times> callback_items" where
  "issue_callback timeout now token actor action target items =
     (''v1:'' @ token, AList.update token
        \<lparr>ca_actor = actor, ca_action = action, ca_target = target, ca_expires = now + seconds timeout\<rparr>
        (unexpired ca_expires now items))"

text \<open>\<^verbatim>\<open>data.decode("ascii").split(":", 1)\<close>, which must give two parts.\<close>

definition is_ascii :: "string \<Rightarrow> bool" where
  "is_ascii s \<longleftrightarrow> list_all (\<lambda>c. (of_char c :: nat) < 128) s"

definition split_once :: "string \<Rightarrow> (string \<times> string) option" where
  "split_once s =
     (if CHR '':'' \<in> set s then Some (takeWhile (\<lambda>c. c \<noteq> CHR '':'') s, tl (dropWhile (\<lambda>c. c \<noteq> CHR '':'') s))
      else None)"

definition callback_token :: "string \<Rightarrow> string option" where
  "callback_token data =
     (if \<not> is_ascii data then None
      else case split_once data of None \<Rightarrow> None
        | Some (prefix, token) \<Rightarrow> if prefix = ''v1'' then Some token else None)"

definition resolve_detailed ::
  "time \<Rightarrow> int \<Rightarrow> string \<Rightarrow> callback_items \<Rightarrow> (callback_action option \<times> verdict) \<times> callback_items" where
  "resolve_detailed now actor data items =
     (case callback_token data of
        None \<Rightarrow> ((None, CbInvalid), items)
      | Some token \<Rightarrow>
          (case map_of items token of
             None \<Rightarrow> ((None, CbInvalid), items)
           | Some item \<Rightarrow>
               if ca_actor item \<noteq> actor then ((None, CbInvalid), items)
               else (if ca_expires item \<le> now then (Some item, CbExpired) else (Some item, CbAccepted),
                     AList.delete token items)))"

definition resolve :: "time \<Rightarrow> int \<Rightarrow> string \<Rightarrow> callback_items \<Rightarrow> callback_action option \<times> callback_items" where
  "resolve now actor data items =
     (case resolve_detailed now actor data items of
        ((item, v), items') \<Rightarrow> (if v = CbAccepted then item else None, items'))"

definition prune_callbacks :: "time \<Rightarrow> callback_items \<Rightarrow> int \<times> callback_items" where
  "prune_callbacks now items =
     (int (length (filter (\<lambda>(k, item). ca_expires item \<le> now) items)), unexpired ca_expires now items)"

definition clear_callbacks :: "callback_items \<Rightarrow> callback_items" where
  "clear_callbacks items = []"

section \<open>Histories\<close>

text \<open>The operations under the store's lock, with what each returned; the latest comes first.\<close>

datatype callback_event =
    Issued time string int string int
  | Resolved time int string "callback_action option" verdict
  | Pruned time
  | Cleared

inductive callback_history :: "int \<Rightarrow> callback_event list \<Rightarrow> callback_items \<Rightarrow> bool" for timeout where
  start: "callback_history timeout [] []"
| issue: "callback_history timeout h items \<Longrightarrow>
    callback_history timeout (Issued now token actor action target # h)
      (snd (issue_callback timeout now token actor action target items))"
| resolve: "callback_history timeout h items \<Longrightarrow> resolve_detailed now actor data items = ((item, v), items') \<Longrightarrow>
    callback_history timeout (Resolved now actor data item v # h) items'"
| prune: "callback_history timeout h items \<Longrightarrow>
    callback_history timeout (Pruned now # h) (snd (prune_callbacks now items))"
| clear: "callback_history timeout h items \<Longrightarrow> callback_history timeout (Cleared # h) (clear_callbacks items)"

inductive_cases callback_history_Cons: "callback_history timeout (e # h) items"

fun issued_token :: "callback_event \<Rightarrow> string list" where
  "issued_token (Issued now token actor action target) = [token]"
| "issued_token _ = []"

definition issued_tokens :: "callback_event list \<Rightarrow> string list" where
  "issued_tokens h = concat (map issued_token h)"

lemma issued_tokens_simps [simp]:
  "issued_tokens [] = []" "issued_tokens (e # h) = issued_token e @ issued_tokens h"
  "issued_tokens (h @ h') = issued_tokens h @ issued_tokens h'"
  by (simp_all add: issued_tokens_def)

lemma callback_token_v1: "callback_token data = Some token \<Longrightarrow> data = ''v1:'' @ token"
proof -
  assume "callback_token data = Some token"
  then have c: "CHR '':'' \<in> set data" "takeWhile (\<lambda>c. c \<noteq> CHR '':'') data = ''v1''"
    "token = tl (dropWhile (\<lambda>c. c \<noteq> CHR '':'') data)"
    by (auto simp: callback_token_def split_once_def split: if_splits)
  then have "dropWhile (\<lambda>c. c \<noteq> CHR '':'') data = CHR '':'' # token"
    using hd_dropWhile [of "\<lambda>c. c \<noteq> CHR '':''" data]
    by (cases "dropWhile (\<lambda>c. c \<noteq> CHR '':'') data") (auto simp: dropWhile_eq_Nil_conv)
  then show ?thesis
    using takeWhile_dropWhile_id [of "\<lambda>c. c \<noteq> CHR '':''" data] c(2) by simp
qed

text \<open>What the store holds was issued; what was accepted under a token is no longer held.\<close>

definition accepted_in :: "callback_event list \<Rightarrow> string \<Rightarrow> bool" where
  "accepted_in h token \<longleftrightarrow> (\<exists>now actor item. Resolved now actor (''v1:'' @ token) item CbAccepted \<in> set h)"

definition held_items :: "int \<Rightarrow> callback_event list \<Rightarrow> callback_items \<Rightarrow> bool" where
  "held_items timeout h items \<longleftrightarrow> distinct (keys items) \<and>
     (\<forall>(token, a) \<in> set items. \<not> accepted_in h token \<and>
        (\<exists>n. Issued n token (ca_actor a) (ca_action a) (ca_target a) \<in> set h \<and> ca_expires a = n + seconds timeout)) \<and>
     (\<forall>token. accepted_in h token \<longrightarrow> token \<in> set (issued_tokens h))"

lemma issued_mem: "Issued n token a b c \<in> set h \<Longrightarrow> token \<in> set (issued_tokens h)"
  by (induction h) auto

lemma held_items_shrink:
  assumes "held_items timeout h items" and "set items' \<subseteq> set items" and "distinct (keys items')"
    and "\<And>token. accepted_in (e # h) token = accepted_in h token"
  shows "held_items timeout (e # h) items'"
  using assms unfolding held_items_def by (fastforce simp: issued_tokens_def)

lemma callback_history_held:
  "callback_history timeout h items \<Longrightarrow> distinct (issued_tokens h) \<Longrightarrow> held_items timeout h items"
proof (induction rule: callback_history.induct)
  case start
  then show ?case by (simp add: held_items_def keys_def accepted_in_def)
next
  case (issue h items now token actor action target)
  then have IH: "held_items timeout h items" and fresh: "token \<notin> set (issued_tokens h)" by simp_all
  have acc: "accepted_in (Issued now token actor action target # h) t = accepted_in h t" for t
    by (simp add: accepted_in_def)
  from IH fresh have "\<not> accepted_in h token" by (auto simp: held_items_def)
  with IH show ?case
    by (auto simp: held_items_def acc issue_callback_def keys_unexpired dest!: set_update_pairs set_unexpired)
next
  case (resolve h items now actor data item v items')
  then have IH: "held_items timeout h items" by simp
  show ?case
  proof (cases "v = CbAccepted")
    case False
    with resolve.hyps(2) have "set items' \<subseteq> set items" "items' = items \<or> (\<exists>t. items' = AList.delete t items)"
      by (auto simp: resolve_detailed_def set_delete_pairs split: option.splits if_splits)
    with IH False show ?thesis
      by (intro held_items_shrink) (auto simp: held_items_def accepted_in_def)
  next
    case True
    with resolve.hyps(2) obtain token a where t: "callback_token data = Some token" "map_of items token = Some a"
      and i: "items' = AList.delete token items"
      by (auto simp: resolve_detailed_def split: option.splits if_splits)
    from map_of_SomeD [OF t(2)] IH have "token \<in> set (issued_tokens h)"
      by (fastforce simp: held_items_def intro: issued_mem)
    moreover have "accepted_in (Resolved now actor data item v # h) u \<longleftrightarrow> u = token \<or> accepted_in h u" for u
      using True callback_token_v1 [OF t(1)] by (auto simp: accepted_in_def)
    ultimately show ?thesis
      using IH by (auto simp: held_items_def i set_delete_pairs)
  qed
next
  case (prune h items now)
  then show ?case
    by (intro held_items_shrink) (auto simp: held_items_def prune_callbacks_def keys_unexpired accepted_in_def dest: set_unexpired)
next
  case (clear h items)
  then show ?case
    by (intro held_items_shrink) (auto simp: held_items_def clear_callbacks_def accepted_in_def keys_def)
qed

lemma callback_history_suffix: "callback_history timeout (h @ h') items \<Longrightarrow> \<exists>items'. callback_history timeout h' items'"
proof (induction h arbitrary: items)
  case (Cons e h)
  from Cons.prems have "callback_history timeout (e # (h @ h')) items" by simp
  then show ?case by (cases rule: callback_history.cases) (auto dest: Cons.IH)
qed auto

lemma accepted_was_held:
  assumes "callback_history timeout (Resolved now actor data item CbAccepted # g) items" and "distinct (issued_tokens g)"
  shows "\<exists>token n a. data = ''v1:'' @ token \<and> item = Some a \<and> now < n + seconds timeout \<and>
    Issued n token actor (ca_action a) (ca_target a) \<in> set g \<and> \<not> accepted_in g token"
proof -
  from assms(1) obtain i0 where g: "callback_history timeout g i0"
    and r: "resolve_detailed now actor data i0 = ((item, CbAccepted), items)"
    by (cases rule: callback_history.cases) auto
  from r obtain token a where t: "callback_token data = Some token" "map_of i0 token = Some a" "ca_actor a = actor"
      "now < ca_expires a" "item = Some a"
    by (auto simp: resolve_detailed_def split: option.splits if_splits)
  have "held_items timeout g i0" by (rule callback_history_held [OF g assms(2)])
  with map_of_SomeD [OF t(2)] t(3,4) obtain n where "Issued n token actor (ca_action a) (ca_target a) \<in> set g"
    "now < n + seconds timeout" "\<not> accepted_in g token"
    by (fastforce simp: held_items_def)
  with callback_token_v1 [OF t(1)] t(5) show ?thesis by blast
qed

text \<open>
  C37. A callback is a capability for one actor and one use: whenever the store accepts data, the
  very same action was issued earlier to that actor under the token in the data, less than the
  timeout ago, and in the whole history the store accepts that data only this once. The tokens
  that were drawn are distinct.
\<close>

theorem callback_used_once_by_its_actor:
  assumes hist: "callback_history timeout (h @ Resolved now actor data item CbAccepted # h') items"
    and dist: "distinct (issued_tokens (h @ h'))"
  shows "\<exists>token n a. data = ''v1:'' @ token \<and> item = Some a \<and> now < n + seconds timeout \<and>
    Issued n token actor (ca_action a) (ca_target a) \<in> set h' \<and> \<not> accepted_in (h @ h') token"
proof -
  let ?e = "Resolved now actor data item CbAccepted"
  obtain j where "callback_history timeout (?e # h') j" using callback_history_suffix [OF hist] by blast
  from accepted_was_held [OF this] dist obtain token n a where
    t: "data = ''v1:'' @ token" "item = Some a" "now < n + seconds timeout"
      "Issued n token actor (ca_action a) (ca_target a) \<in> set h'" "\<not> accepted_in h' token" by auto
  have "\<not> accepted_in h token"
  proof
    assume "accepted_in h token"
    then obtain t' a' i' where "Resolved t' a' (''v1:'' @ token) i' CbAccepted \<in> set h"
      by (auto simp: accepted_in_def)
    then obtain x y where h: "h = x @ Resolved t' a' (''v1:'' @ token) i' CbAccepted # y" by (meson split_list)
    obtain k where "callback_history timeout (Resolved t' a' (''v1:'' @ token) i' CbAccepted # (y @ ?e # h')) k"
      using callback_history_suffix [of timeout x] hist h by fastforce
    from accepted_was_held [OF this] dist have "\<not> accepted_in (y @ ?e # h') token" by (auto simp: h)
    moreover have "?e \<in> set (y @ ?e # h')" by simp
    ultimately show False using t(1) unfolding accepted_in_def by blast
  qed
  with t show ?thesis by (auto simp: accepted_in_def)
qed

lemma demo_callbacks:
  "callback_history 60 [Resolved 5 7 ''v1:tok'' (Some \<lparr>ca_actor = 7, ca_action = ''run'', ca_target = 3, ca_expires = 2 + seconds 60\<rparr>)
     CbAccepted, Resolved 4 8 ''v1:tok'' None CbInvalid, Issued 2 ''tok'' 7 ''run'' 3] []"
proof -
  let ?a = "\<lparr>ca_actor = 7, ca_action = ''run'', ca_target = 3, ca_expires = 2 + seconds 60\<rparr>"
  have tok: "callback_token ''v1:tok'' = Some ''tok''" by code_simp
  have i: "snd (issue_callback 60 2 ''tok'' 7 ''run'' 3 []) = [(''tok'', ?a)]"
    by (simp add: issue_callback_def unexpired_def)
  have h1: "callback_history 60 [Issued 2 ''tok'' 7 ''run'' 3] [(''tok'', ?a)]"
    using callback_history.issue [OF callback_history.start, of 60 2 "''tok''" 7 "''run''" 3] i by simp
  have r1: "resolve_detailed 4 8 ''v1:tok'' [(''tok'', ?a)] = ((None, CbInvalid), [(''tok'', ?a)])"
    by (simp add: resolve_detailed_def tok)
  have r2: "resolve_detailed 5 7 ''v1:tok'' [(''tok'', ?a)] = ((Some ?a, CbAccepted), [])"
    by (simp add: resolve_detailed_def tok seconds_def)
  show ?thesis
    by (rule callback_history.resolve [OF callback_history.resolve [OF h1 r1] r2])
qed

lemma callback_used_once_by_its_actor_witness:
  "\<exists>n. Issued n ''tok'' 7 ''run'' 3 \<in> {Issued 2 ''tok'' 7 ''run'' 3} \<and> 5 < n + seconds 60"
  using callback_used_once_by_its_actor [where h = "[]", unfolded append_Nil, OF demo_callbacks] by auto

end
