(* ===== verification/RateLimit.thy ===== *)
theory RateLimit
  imports Expiry
begin

text \<open>
  \<^verbatim>\<open>RateLimiter\<close> of \<^verbatim>\<open>src/src/presentation/telegram/runtime/rate_limit.py\<close>: sliding windows of
  sixty seconds, one per user and one for everybody. A deque is the list of its instants from the
  left; the monotonic clock is an argument.
\<close>

section \<open>The limiter\<close>

record rate_limiter =
  rl_users :: "(int \<times> time list) list"
  rl_global :: "time list"

definition new_limiter :: rate_limiter where
  "new_limiter = \<lparr>rl_users = [], rl_global = []\<rparr>"

text \<open>\<^verbatim>\<open>while events and events[0] <= cutoff: events.popleft()\<close>\<close>

definition drop_old :: "time \<Rightarrow> time list \<Rightarrow> time list" where
  "drop_old cutoff events = dropWhile (\<lambda>t. t \<le> cutoff) events"

definition user_events :: "rate_limiter \<Rightarrow> int \<Rightarrow> time list" where
  "user_events rl u = (case map_of (rl_users rl) u of None \<Rightarrow> [] | Some es \<Rightarrow> es)"

definition allow :: "int \<Rightarrow> int \<Rightarrow> time \<Rightarrow> int \<Rightarrow> rate_limiter \<Rightarrow> bool \<times> rate_limiter" where
  "allow per_user global_limit now u rl =
     (let cutoff = now - seconds 60;
          mine = drop_old cutoff (user_events rl u);
          all = drop_old cutoff (rl_global rl)
      in if int (length mine) \<ge> per_user \<or> int (length all) \<ge> global_limit
         then (False, \<lparr>rl_users = AList.update u mine (rl_users rl), rl_global = all\<rparr>)
         else (True, \<lparr>rl_users = AList.update u (mine @ [now]) (rl_users rl), rl_global = all @ [now]\<rparr>))"

definition prune_limiter :: "time \<Rightarrow> rate_limiter \<Rightarrow> int \<times> rate_limiter" where
  "prune_limiter now rl =
     (let cutoff = now - seconds 60;
          users = map (\<lambda>(u, es). (u, drop_old cutoff es)) (rl_users rl)
      in (int (length (filter (\<lambda>(u, es). es = []) users)),
          \<lparr>rl_users = filter (\<lambda>(u, es). es \<noteq> []) users, rl_global = drop_old cutoff (rl_global rl)\<rparr>))"

definition clear_limiter :: "rate_limiter \<Rightarrow> rate_limiter" where
  "clear_limiter rl = new_limiter"

section \<open>Histories\<close>

text \<open>
  Calls at instants of a monotonic clock. The history is the list of allowed requests, with their
  users, in order; \<open>now\<close> is the instant of the last call.
\<close>

inductive limiter_history :: "int \<Rightarrow> int \<Rightarrow> (time \<times> int) list \<Rightarrow> time \<Rightarrow> rate_limiter \<Rightarrow> bool"
  for per_user global_limit where
  start: "limiter_history per_user global_limit [] now new_limiter"
| allowed: "limiter_history per_user global_limit es t rl \<Longrightarrow> t \<le> now \<Longrightarrow>
    allow per_user global_limit now u rl = (True, rl') \<Longrightarrow>
    limiter_history per_user global_limit (es @ [(now, u)]) now rl'"
| refused: "limiter_history per_user global_limit es t rl \<Longrightarrow> t \<le> now \<Longrightarrow>
    allow per_user global_limit now u rl = (False, rl') \<Longrightarrow>
    limiter_history per_user global_limit es now rl'"
| pruned: "limiter_history per_user global_limit es t rl \<Longrightarrow> t \<le> now \<Longrightarrow>
    limiter_history per_user global_limit es now (snd (prune_limiter now rl))"

text \<open>The instants of one user's requests, and how many instants lie in the minute up to one.\<close>

definition times_of :: "int \<Rightarrow> (time \<times> int) list \<Rightarrow> time list" where
  "times_of u es = map fst (filter (\<lambda>e. snd e = u) es)"

definition in_minute :: "time \<Rightarrow> time list \<Rightarrow> nat" where
  "in_minute at ts = length (filter (\<lambda>t. at - seconds 60 < t \<and> t \<le> at) ts)"

text \<open>A deque keeps every instant that still counts: it is the history without a prefix of old ones.\<close>

definition covers :: "time \<Rightarrow> time list \<Rightarrow> time list \<Rightarrow> bool" where
  "covers now deque ts \<longleftrightarrow> (\<exists>old. ts = old @ deque \<and> (\<forall>t \<in> set old. t \<le> now - seconds 60)) \<and>
     sorted ts \<and> (\<forall>t \<in> set ts. t \<le> now)"

lemma covers_later: "covers now deque ts \<Longrightarrow> now \<le> now' \<Longrightarrow> covers now' deque ts"
  unfolding covers_def by force

lemma covers_drop:
  assumes "covers now deque ts"
  shows "covers now (drop_old (now - seconds 60) deque) ts"
proof -
  from assms obtain old where old: "ts = old @ deque" "\<forall>t \<in> set old. t \<le> now - seconds 60"
    by (auto simp: covers_def)
  let ?c = "now - seconds 60"
  have "ts = (old @ takeWhile (\<lambda>t. t \<le> ?c) deque) @ drop_old ?c deque"
    by (simp add: old(1) drop_old_def)
  moreover have "\<forall>t \<in> set (old @ takeWhile (\<lambda>t. t \<le> ?c) deque). t \<le> ?c"
    using old(2) by (auto dest: set_takeWhileD)
  ultimately show ?thesis using assms unfolding covers_def by blast
qed

lemma covers_snoc: "covers now deque ts \<Longrightarrow> covers now (deque @ [now]) (ts @ [now])"
  by (auto simp: covers_def sorted_append)

lemma drop_old_sorted: "sorted ts \<Longrightarrow> drop_old c ts = filter (\<lambda>t. c < t) ts"
  unfolding drop_old_def by (induction ts) (auto simp: filter_id_conv leD intro!: filter_True [symmetric])

lemma in_minute_bound:
  assumes c: "covers now deque ts" and at: "now \<le> at"
  shows "in_minute at ts \<le> length (drop_old (now - seconds 60) deque)"
proof -
  from covers_drop [OF c] obtain old where old: "ts = old @ drop_old (now - seconds 60) deque"
    "\<forall>t \<in> set old. t \<le> now - seconds 60" by (auto simp: covers_def)
  have "filter (\<lambda>t. at - seconds 60 < t \<and> t \<le> at) old = []" using old(2) at by (auto simp: filter_empty_conv)
  then show ?thesis unfolding in_minute_def old(1) by (simp add: length_filter_le)
qed

text \<open>No minute of a history had more requests than the limit.\<close>

definition within :: "int \<Rightarrow> time list \<Rightarrow> bool" where
  "within limit ts \<longleftrightarrow> (\<forall>at. int (in_minute at ts) \<le> max 0 limit)"

lemma within_snoc:
  assumes w: "within limit ts" and c: "covers now deque ts"
    and room: "int (length (drop_old (now - seconds 60) deque)) < limit"
  shows "within limit (ts @ [now])"
  unfolding within_def
proof
  fix at
  show "int (in_minute at (ts @ [now])) \<le> max 0 limit"
  proof (cases "now \<le> at")
    case True
    from in_minute_bound [OF c True] room show ?thesis
      by (auto simp: in_minute_def)
  next
    case False
    then have "in_minute at (ts @ [now]) = in_minute at ts" by (simp add: in_minute_def)
    with w show ?thesis by (simp add: within_def)
  qed
qed

definition limiter_ok :: "int \<Rightarrow> int \<Rightarrow> (time \<times> int) list \<Rightarrow> time \<Rightarrow> rate_limiter \<Rightarrow> bool" where
  "limiter_ok per_user global_limit es now rl \<longleftrightarrow>
     distinct (keys (rl_users rl)) \<and>
     covers now (rl_global rl) (map fst es) \<and> (\<forall>u. covers now (user_events rl u) (times_of u es)) \<and>
     within global_limit (map fst es) \<and> (\<forall>u. within per_user (times_of u es))"

lemma user_events_update [simp]:
  "user_events \<lparr>rl_users = AList.update u es us, rl_global = g\<rparr> v =
     (if v = u then es else user_events \<lparr>rl_users = us, rl_global = g\<rparr> v)"
  by (simp add: user_events_def update_conv')

lemma user_events_global [simp]: "user_events \<lparr>rl_users = rl_users rl, rl_global = g\<rparr> v = user_events rl v"
  by (simp add: user_events_def)

lemma times_of_snoc: "times_of v (es @ [(now, u)]) = times_of v es @ (if v = u then [now] else [])"
  by (simp add: times_of_def)

lemma limiter_ok_allow:
  assumes ok: "limiter_ok per_user global_limit es t rl" and le: "t \<le> now"
    and a: "allow per_user global_limit now u rl = (b, rl')"
  shows "limiter_ok per_user global_limit (if b then es @ [(now, u)] else es) now rl'"
proof -
  let ?c = "now - seconds 60"
  have g: "covers now (drop_old ?c (rl_global rl)) (map fst es)"
    and us: "covers now (user_events rl v) (times_of v es)" for v
    using ok le by (auto simp: limiter_ok_def intro: covers_drop covers_later)
  have mine: "covers now (drop_old ?c (user_events rl u)) (times_of u es)" by (rule covers_drop [OF us])
  have idem: "drop_old ?c (drop_old ?c ts) = drop_old ?c ts" for ts by (simp add: drop_old_def dropWhile_idem)
  show ?thesis
  proof (cases b)
    case True
    with a have room: "int (length (drop_old ?c (user_events rl u))) < per_user"
      "int (length (drop_old ?c (rl_global rl))) < global_limit"
      and rl': "rl' = \<lparr>rl_users = AList.update u (drop_old ?c (user_events rl u) @ [now]) (rl_users rl),
        rl_global = drop_old ?c (rl_global rl) @ [now]\<rparr>"
      by (auto simp: allow_def Let_def split: if_splits)
    have "within global_limit (map fst es @ [now])" "within per_user (times_of u es @ [now])"
      using ok room g mine idem by (auto simp: limiter_ok_def intro!: within_snoc)
    with ok g us mine True show ?thesis
      by (auto simp: limiter_ok_def rl' times_of_snoc intro: covers_snoc)
  next
    case False
    with a have "rl' = \<lparr>rl_users = AList.update u (drop_old ?c (user_events rl u)) (rl_users rl),
        rl_global = drop_old ?c (rl_global rl)\<rparr>"
      by (auto simp: allow_def Let_def split: if_splits)
    with ok g us mine False show ?thesis by (auto simp: limiter_ok_def)
  qed
qed

lemma map_of_drop_old:
  "distinct (keys us) \<Longrightarrow> (case map_of (filter (\<lambda>(u, es). es \<noteq> []) (map (\<lambda>(u, es). (u, drop_old c es)) us)) v of
      None \<Rightarrow> [] | Some es \<Rightarrow> es) = drop_old c (case map_of us v of None \<Rightarrow> [] | Some es \<Rightarrow> es)"
proof -
  assume "distinct (keys us)"
  then have "distinct (keys (map (\<lambda>(u, es). (u, drop_old c es)) us))" by (simp add: keys_def o_def case_prod_unfold)
  then show ?thesis
    by (simp add: map_of_filter_distinct map_of_map split: option.split) (simp add: drop_old_def)
qed

lemma limiter_ok_prune:
  assumes ok: "limiter_ok per_user global_limit es t rl" and le: "t \<le> now"
  shows "limiter_ok per_user global_limit es now (snd (prune_limiter now rl))"
proof -
  let ?c = "now - seconds 60"
  let ?us = "map (\<lambda>(u, es). (u, drop_old ?c es)) (rl_users rl)"
  have "distinct (keys ?us)" using ok by (simp add: limiter_ok_def keys_def o_def case_prod_unfold)
  then have d: "distinct (keys (filter (\<lambda>(u, es). es \<noteq> []) ?us))"
    by (induction ?us) (auto simp: keys_def distinct_map_filter)
  have u: "user_events (snd (prune_limiter now rl)) v = drop_old ?c (user_events rl v)" for v
    using ok map_of_drop_old [of "rl_users rl" ?c v]
    by (simp add: user_events_def prune_limiter_def Let_def limiter_ok_def)
  show ?thesis
    using ok le d by (auto simp: limiter_ok_def u) (auto simp: prune_limiter_def Let_def intro: covers_drop covers_later)
qed

lemma limiter_history_ok: "limiter_history per_user global_limit es now rl \<Longrightarrow> limiter_ok per_user global_limit es now rl"
proof (induction rule: limiter_history.induct)
  case (start now)
  then show ?case
    by (auto simp: limiter_ok_def new_limiter_def covers_def user_events_def times_of_def within_def in_minute_def keys_def)
next
  case (allowed es t rl now u rl')
  then show ?case using limiter_ok_allow by fastforce
next
  case (refused es t rl now u rl')
  then show ?case using limiter_ok_allow by fastforce
qed (rule limiter_ok_prune)

text \<open>
  C38. The limiter keeps its promise over every minute: among the requests it allowed, no user has
  more than the per-user limit and all users together no more than the global limit in any sixty
  seconds, at whatever instants requests came and whenever the stores were pruned.
\<close>

theorem rate_limit_holds_in_every_minute:
  assumes "limiter_history per_user global_limit es now rl"
  shows "int (in_minute at (times_of u es)) \<le> max 0 per_user \<and> int (in_minute at (map fst es)) \<le> max 0 global_limit"
  using limiter_history_ok [OF assms] by (simp add: limiter_ok_def within_def)

lemma rate_limit_holds_in_every_minute_witness:
  "fst (allow 1 5 (seconds 9) 7 (snd (allow 1 5 (seconds 3) 7 new_limiter))) = False \<and>
     int (in_minute (seconds 30) (times_of 7 [(seconds 3, 7)])) \<le> 1"
proof -
  obtain rl where a: "allow 1 5 (seconds 3) 7 new_limiter = (True, rl)"
    by (simp add: allow_def new_limiter_def user_events_def drop_old_def Let_def)
  have "limiter_history 1 5 [(seconds 3, 7)] (seconds 3) rl"
    using limiter_history.allowed [OF limiter_history.start [of 1 5 0] _ a] by (simp add: seconds_def)
  from rate_limit_holds_in_every_minute [OF this, of "seconds 30" 7]
  have "int (in_minute (seconds 30) (times_of 7 [(seconds 3, 7)])) \<le> 1" by simp
  moreover have "fst (allow 1 5 (seconds 9) 7 (snd (allow 1 5 (seconds 3) 7 new_limiter))) = False" by code_simp
  ultimately show ?thesis by simp
qed

end
