(* ===== verification/ConversationStates.thy ===== *)
theory ConversationStates
  imports Prelude
begin

text \<open>
  The states of a dialogue with the bot: the enumeration \<^verbatim>\<open>State\<close> of
  \<^verbatim>\<open>src/src/presentation/telegram/runtime/fsm.py\<close>, with the string value of each member.
\<close>

datatype (plugins only: code) fsm_state =
  EditBackupTimezone | AddServerName | AddServerHost | AddServerPort | AddServerUsername |
  AddServerPrivateKey | AddServerPassphrase | ConfirmServerFingerprint | SelectServerEdit |
  EditServerAction | SelectServerDelete | ConfirmServerDelete | AddBackupName |
  AddBackupDescription | AddBackupSource | AddBackupDatabaseEngine | AddBackupDatabaseHost |
  AddBackupDatabasePort | AddBackupDatabaseName | AddBackupDatabaseUsername |
  AddBackupDatabasePassword | AddBackupDatabaseTLS | AddBackupDatabaseTLSCA |
  AddBackupMssqlDocker | AddBackupMssqlPath | AddBackupMssqlHostPath | AddBackupMssqlServer |
  AddBackupFilesLocation | AddBackupFilesServer | AddBackupFilesPaths | AddBackupGitlabLocation |
  AddBackupGitlabServer | AddBackupGitlabContainer | AddBackupGitlabRemotePath |
  AddBackupSchedule | AddBackupInterval | AddBackupScheduleValue | AddBackupArchive |
  AddBackupCompression | AddBackupCompressionPreset | AddBackupEncryption |
  AddBackupEncryptionSecret | AddBackupAdmins | AddBackupConfirm | AddAdminName | AddAdminID |
  AddAdminLanguage | AddAdminConfirm | AddAdminAccess | SelectBackupEdit | EditBackupAction |
  EditBackupName | EditBackupDescription | SelectBackupDelete | ConfirmBackupDelete |
  BackupAdminAccess | SelectAdminEdit | EditAdminAction | EditAdminName | EditAdminTelegramID |
  EditAdminLanguage | EditAdminAccess | SelectAdminDelete | ConfirmAdminDelete

definition all_fsm_states :: "fsm_state list" where
  "all_fsm_states = [
     EditBackupTimezone, AddServerName, AddServerHost, AddServerPort, AddServerUsername,
     AddServerPrivateKey, AddServerPassphrase, ConfirmServerFingerprint, SelectServerEdit,
     EditServerAction, SelectServerDelete, ConfirmServerDelete, AddBackupName,
     AddBackupDescription, AddBackupSource, AddBackupDatabaseEngine, AddBackupDatabaseHost,
     AddBackupDatabasePort, AddBackupDatabaseName, AddBackupDatabaseUsername,
     AddBackupDatabasePassword, AddBackupDatabaseTLS, AddBackupDatabaseTLSCA, AddBackupMssqlDocker,
     AddBackupMssqlPath, AddBackupMssqlHostPath, AddBackupMssqlServer, AddBackupFilesLocation,
     AddBackupFilesServer, AddBackupFilesPaths, AddBackupGitlabLocation, AddBackupGitlabServer,
     AddBackupGitlabContainer, AddBackupGitlabRemotePath, AddBackupSchedule, AddBackupInterval,
     AddBackupScheduleValue, AddBackupArchive, AddBackupCompression, AddBackupCompressionPreset,
     AddBackupEncryption, AddBackupEncryptionSecret, AddBackupAdmins, AddBackupConfirm,
     AddAdminName, AddAdminID, AddAdminLanguage, AddAdminConfirm, AddAdminAccess, SelectBackupEdit,
     EditBackupAction, EditBackupName, EditBackupDescription, SelectBackupDelete,
     ConfirmBackupDelete, BackupAdminAccess, SelectAdminEdit, EditAdminAction, EditAdminName,
     EditAdminTelegramID, EditAdminLanguage, EditAdminAccess, SelectAdminDelete, ConfirmAdminDelete]"

primrec fsm_state_value :: "fsm_state \<Rightarrow> string" where
  "fsm_state_value EditBackupTimezone = ''edit_backup_timezone''"
| "fsm_state_value AddServerName = ''add_server_name''"
| "fsm_state_value AddServerHost = ''add_server_host''"
| "fsm_state_value AddServerPort = ''add_server_port''"
| "fsm_state_value AddServerUsername = ''add_server_username''"
| "fsm_state_value AddServerPrivateKey = ''add_server_private_key''"
| "fsm_state_value AddServerPassphrase = ''add_server_passphrase''"
| "fsm_state_value ConfirmServerFingerprint = ''confirm_server_fingerprint''"
| "fsm_state_value SelectServerEdit = ''select_server_edit''"
| "fsm_state_value EditServerAction = ''edit_server_action''"
| "fsm_state_value SelectServerDelete = ''select_server_delete''"
| "fsm_state_value ConfirmServerDelete = ''confirm_server_delete''"
| "fsm_state_value AddBackupName = ''add_backup_name''"
| "fsm_state_value AddBackupDescription = ''add_backup_description''"
| "fsm_state_value AddBackupSource = ''add_backup_source''"
| "fsm_state_value AddBackupDatabaseEngine = ''add_backup_database_engine''"
| "fsm_state_value AddBackupDatabaseHost = ''add_backup_database_host''"
| "fsm_state_value AddBackupDatabasePort = ''add_backup_database_port''"
| "fsm_state_value AddBackupDatabaseName = ''add_backup_database_name''"
| "fsm_state_value AddBackupDatabaseUsername = ''add_backup_database_username''"
| "fsm_state_value AddBackupDatabasePassword = ''add_backup_database_password''"
| "fsm_state_value AddBackupDatabaseTLS = ''add_backup_database_tls''"
| "fsm_state_value AddBackupDatabaseTLSCA = ''add_backup_database_tls_ca''"
| "fsm_state_value AddBackupMssqlDocker = ''add_backup_mssql_docker''"
| "fsm_state_value AddBackupMssqlPath = ''add_backup_mssql_path''"
| "fsm_state_value AddBackupMssqlHostPath = ''add_backup_mssql_host_path''"
| "fsm_state_value AddBackupMssqlServer = ''add_backup_mssql_server''"
| "fsm_state_value AddBackupFilesLocation = ''add_backup_files_location''"
| "fsm_state_value AddBackupFilesServer = ''add_backup_files_server''"
| "fsm_state_value AddBackupFilesPaths = ''add_backup_files_paths''"
| "fsm_state_value AddBackupGitlabLocation = ''add_backup_gitlab_location''"
| "fsm_state_value AddBackupGitlabServer = ''add_backup_gitlab_server''"
| "fsm_state_value AddBackupGitlabContainer = ''add_backup_gitlab_container''"
| "fsm_state_value AddBackupGitlabRemotePath = ''add_backup_gitlab_remote_path''"
| "fsm_state_value AddBackupSchedule = ''add_backup_schedule''"
| "fsm_state_value AddBackupInterval = ''add_backup_interval''"
| "fsm_state_value AddBackupScheduleValue = ''add_backup_schedule_value''"
| "fsm_state_value AddBackupArchive = ''add_backup_archive''"
| "fsm_state_value AddBackupCompression = ''add_backup_compression''"
| "fsm_state_value AddBackupCompressionPreset = ''add_backup_compression_preset''"
| "fsm_state_value AddBackupEncryption = ''add_backup_encryption''"
| "fsm_state_value AddBackupEncryptionSecret = ''add_backup_encryption_secret''"
| "fsm_state_value AddBackupAdmins = ''add_backup_admins''"
| "fsm_state_value AddBackupConfirm = ''add_backup_confirm''"
| "fsm_state_value AddAdminName = ''add_admin_name''"
| "fsm_state_value AddAdminID = ''add_admin_id''"
| "fsm_state_value AddAdminLanguage = ''add_admin_language''"
| "fsm_state_value AddAdminConfirm = ''add_admin_confirm''"
| "fsm_state_value AddAdminAccess = ''add_admin_access''"
| "fsm_state_value SelectBackupEdit = ''select_backup_edit''"
| "fsm_state_value EditBackupAction = ''edit_backup_action''"
| "fsm_state_value EditBackupName = ''edit_backup_name''"
| "fsm_state_value EditBackupDescription = ''edit_backup_description''"
| "fsm_state_value SelectBackupDelete = ''select_backup_delete''"
| "fsm_state_value ConfirmBackupDelete = ''confirm_backup_delete''"
| "fsm_state_value BackupAdminAccess = ''backup_admin_access''"
| "fsm_state_value SelectAdminEdit = ''select_admin_edit''"
| "fsm_state_value EditAdminAction = ''edit_admin_action''"
| "fsm_state_value EditAdminName = ''edit_admin_name''"
| "fsm_state_value EditAdminTelegramID = ''edit_admin_telegram_id''"
| "fsm_state_value EditAdminLanguage = ''edit_admin_language''"
| "fsm_state_value EditAdminAccess = ''edit_admin_access''"
| "fsm_state_value SelectAdminDelete = ''select_admin_delete''"
| "fsm_state_value ConfirmAdminDelete = ''confirm_admin_delete''"

interpretation fsm_state_enum: str_enum all_fsm_states fsm_state_value
proof
  show "e \<in> set all_fsm_states" for e by (cases e) (simp_all add: all_fsm_states_def)
  show "distinct (map fsm_state_value all_fsm_states)" by code_simp
qed

end
