(* ===== verification/Conversations.thy ===== *)
theory Conversations
  imports ConversationStates Expiry Secrets
begin

text \<open>
  \<^verbatim>\<open>EphemeralSecretStore\<close> and \<^verbatim>\<open>FSMStore\<close> of
  \<^verbatim>\<open>src/src/presentation/telegram/runtime/fsm.py\<close>: the dialogue each user is in, and the secrets
  typed during it, sealed in memory. A method runs under the store's lock; the monotonic clock it
  reads is \<open>ck\<close>, a reading per place in the method. The cipher's key is drawn at start; AESGCM and
  the nonces are parameters.
\<close>

section \<open>Secrets\<close>

record sealed_secret =
  es_nonce :: bytes
  es_text :: bytes
  es_expires :: time

text \<open>
  The buffers the store has let go of are kept in \<open>ss_erased\<close> with their last content: the code
  overwrites each before dropping it.
\<close>

record secret_store =
  ss_items :: "((int \<times> string) \<times> sealed_secret) list"
  ss_erased :: "bytes list"

definition erase :: "sealed_secret \<Rightarrow> bytes" where
  "erase s = replicate (length (es_text s)) (CHR 0x00)"

definition secret_context :: "int \<Rightarrow> string \<Rightarrow> string" where
  "secret_context user name = ''fsm-secret-v1:'' @ show_int user @ '':'' @ name"

text \<open>Removing the entries of some keys, erasing their buffers in order.\<close>

definition drop_secrets :: "((int \<times> string) \<times> sealed_secret \<Rightarrow> bool) \<Rightarrow> secret_store \<Rightarrow> secret_store" where
  "drop_secrets P st = \<lparr>ss_items = filter (\<lambda>x. \<not> P x) (ss_items st),
     ss_erased = ss_erased st @ map (\<lambda>(k, s). erase s) (filter P (ss_items st))\<rparr>"

definition secret_unavailable :: exn where
  "secret_unavailable = ValueError ''conversation secret is unavailable or expired''"

definition put_secret ::
  "aead \<Rightarrow> int \<Rightarrow> bytes \<Rightarrow> time \<Rightarrow> int \<Rightarrow> string \<Rightarrow> string \<Rightarrow> secret_store \<Rightarrow> unit result \<times> secret_store" where
  "put_secret cipher timeout nonce now user name plain st =
     (if plain = [] then (Inl (ValueError ''secret cannot be empty''), st)
      else let st1 = drop_secrets (\<lambda>(k, s). k = (user, name)) st;
               sealed = \<lparr>es_nonce = nonce, es_text = seal cipher nonce (utf8 plain) (utf8 (secret_context user name)),
                 es_expires = now + seconds timeout\<rparr>
           in (Inr (), st1\<lparr>ss_items := ss_items st1 @ [((user, name), sealed)]\<rparr>))"

text \<open>A failed authentication raises \<^verbatim>\<open>InvalidTag\<close>.\<close>

definition open_secret :: "aead \<Rightarrow> int \<Rightarrow> string \<Rightarrow> sealed_secret \<Rightarrow> string result" where
  "open_secret cipher user name s =
     (case unseal cipher (es_nonce s) (es_text s) (utf8 (secret_context user name)) of
        None \<Rightarrow> Inl (RuntimeError ''InvalidTag'') | Some v \<Rightarrow> utf8_decode v)"

definition take_secret :: "aead \<Rightarrow> time \<Rightarrow> int \<Rightarrow> string \<Rightarrow> secret_store \<Rightarrow> string result \<times> secret_store" where
  "take_secret cipher now user name st =
     (case map_of (ss_items st) (user, name) of
        None \<Rightarrow> (Inl secret_unavailable, st)
      | Some s \<Rightarrow>
          (if es_expires s \<le> now then Inl secret_unavailable else open_secret cipher user name s,
           drop_secrets (\<lambda>(k, s). k = (user, name)) st))"

definition get_secret :: "aead \<Rightarrow> time \<Rightarrow> int \<Rightarrow> string \<Rightarrow> secret_store \<Rightarrow> string result \<times> secret_store" where
  "get_secret cipher now user name st =
     (case map_of (ss_items st) (user, name) of
        None \<Rightarrow> (Inl secret_unavailable, st)
      | Some s \<Rightarrow>
          if es_expires s \<le> now
          then (Inl secret_unavailable, drop_secrets (\<lambda>(k, s). k = (user, name)) st)
          else (open_secret cipher user name s, st))"

definition touch_secrets :: "int \<Rightarrow> time \<Rightarrow> int \<Rightarrow> secret_store \<Rightarrow> secret_store" where
  "touch_secrets timeout now user st = st\<lparr>ss_items := map (\<lambda>(k, s).
     (k, if fst k = user then s\<lparr>es_expires := now + seconds timeout\<rparr> else s)) (ss_items st)\<rparr>"

definition clear_secrets :: "int \<Rightarrow> secret_store \<Rightarrow> secret_store" where
  "clear_secrets user st = drop_secrets (\<lambda>(k, s). fst k = user) st"

definition clear_all_secrets :: "secret_store \<Rightarrow> secret_store" where
  "clear_all_secrets st = drop_secrets (\<lambda>_. True) st"

definition prune_secrets :: "time \<Rightarrow> secret_store \<Rightarrow> int \<times> secret_store" where
  "prune_secrets now st =
     (int (length (filter (\<lambda>(k, s). es_expires s \<le> now) (ss_items st))),
      drop_secrets (\<lambda>(k, s). es_expires s \<le> now) st)"

definition contains_secret :: "time \<Rightarrow> int \<Rightarrow> string option \<Rightarrow> secret_store \<Rightarrow> bool" where
  "contains_secret now user name st \<longleftrightarrow>
     list_ex (\<lambda>((owner, item_name), s). owner = user \<and> (name = None \<or> name = Some item_name) \<and> now < es_expires s)
       (ss_items st)"

section \<open>Conversations\<close>

record conversation =
  cv_state :: fsm_state
  cv_expires :: time
  cv_data :: "(string \<times> json) list"
  cv_options :: "(string \<times> int) list"
  cv_invalid :: int
  cv_history :: "fsm_state list"

record fsm_store =
  fs_states :: "(int \<times> conversation) list"
  fs_secrets :: secret_store

record fsm_config =
  fsm_timeout :: int
  fsm_limit :: int

definition drop_conversation :: "int \<Rightarrow> fsm_store \<Rightarrow> fsm_store" where
  "drop_conversation user s = \<lparr>fs_states = AList.delete user (fs_states s), fs_secrets = clear_secrets user (fs_secrets s)\<rparr>"

definition keep_conversation :: "int \<Rightarrow> conversation \<Rightarrow> fsm_store \<Rightarrow> fsm_store" where
  "keep_conversation user c s = s\<lparr>fs_states := AList.update user c (fs_states s)\<rparr>"

definition get_conversation :: "(nat \<Rightarrow> time) \<Rightarrow> int \<Rightarrow> fsm_store \<Rightarrow> conversation option \<times> fsm_store" where
  "get_conversation ck user s =
     (case map_of (fs_states s) user of
        None \<Rightarrow> (None, s)
      | Some c \<Rightarrow> if cv_expires c \<le> ck 0 then (None, drop_conversation user s) else (Some c, s))"

definition set_conversation ::
  "fsm_config \<Rightarrow> (nat \<Rightarrow> time) \<Rightarrow> int \<Rightarrow> fsm_state \<Rightarrow> (string \<times> json) list option \<Rightarrow> fsm_store \<Rightarrow>
    conversation \<times> fsm_store" where
  "set_conversation cfg ck user state content s =
     (let c = \<lparr>cv_state = state, cv_expires = ck 0 + seconds (fsm_timeout cfg),
        cv_data = (case content of None \<Rightarrow> [] | Some x \<Rightarrow> x), cv_options = [], cv_invalid = 0, cv_history = []\<rparr>
      in (c, keep_conversation user c (s\<lparr>fs_secrets := clear_secrets user (fs_secrets s)\<rparr>)))"

definition touch_user :: "fsm_config \<Rightarrow> time \<Rightarrow> int \<Rightarrow> fsm_store \<Rightarrow> fsm_store" where
  "touch_user cfg now user s = s\<lparr>fs_secrets := touch_secrets (fsm_timeout cfg) now user (fs_secrets s)\<rparr>"

definition invalid_transition :: exn where
  "invalid_transition = ValueError ''invalid FSM transition''"

definition transition ::
  "fsm_config \<Rightarrow> (nat \<Rightarrow> time) \<Rightarrow> int \<Rightarrow> fsm_state \<Rightarrow> fsm_state \<Rightarrow> fsm_store \<Rightarrow> conversation result \<times> fsm_store" where
  "transition cfg ck user expected new s =
     (case map_of (fs_states s) user of
        None \<Rightarrow> (Inl invalid_transition, s)
      | Some c \<Rightarrow>
          if cv_state c \<noteq> expected \<or> cv_expires c \<le> ck 0
          then (Inl invalid_transition, if cv_expires c \<le> ck 1 then drop_conversation user s else s)
          else let c' = c\<lparr>cv_state := new, cv_expires := ck 1 + seconds (fsm_timeout cfg), cv_invalid := 0,
                      cv_history := cv_history c @ [expected]\<rparr>
               in (Inr c', touch_user cfg (ck 2) user (keep_conversation user c' s)))"

definition back_conversation :: "fsm_config \<Rightarrow> (nat \<Rightarrow> time) \<Rightarrow> int \<Rightarrow> fsm_store \<Rightarrow> conversation option \<times> fsm_store" where
  "back_conversation cfg ck user s =
     (case map_of (fs_states s) user of
        None \<Rightarrow> (None, s)
      | Some c \<Rightarrow>
          if cv_expires c \<le> ck 0 then (None, drop_conversation user s)
          else if cv_history c = [] then (None, s)
          else let c' = c\<lparr>cv_state := last (cv_history c), cv_history := butlast (cv_history c),
                      cv_expires := ck 1 + seconds (fsm_timeout cfg), cv_invalid := 0\<rparr>
               in (Some c', touch_user cfg (ck 2) user (keep_conversation user c' s)))"

text \<open>\<^verbatim>\<open>invalid\<close> does not look at the expiry.\<close>

definition invalid_input :: "fsm_config \<Rightarrow> (nat \<Rightarrow> time) \<Rightarrow> int \<Rightarrow> fsm_store \<Rightarrow> bool \<times> fsm_store" where
  "invalid_input cfg ck user s =
     (case map_of (fs_states s) user of
        None \<Rightarrow> (False, s)
      | Some c \<Rightarrow>
          let c' = c\<lparr>cv_invalid := cv_invalid c + 1, cv_expires := ck 0 + seconds (fsm_timeout cfg)\<rparr>
          in if cv_invalid c' \<ge> fsm_limit cfg then (True, drop_conversation user s)
             else (False, touch_user cfg (ck 1) user (keep_conversation user c' s)))"

definition clear_conversation :: "int \<Rightarrow> fsm_store \<Rightarrow> fsm_store" where
  "clear_conversation user s = drop_conversation user s"

text \<open>The expired conversations go with their secrets, then expired secrets go.\<close>

definition prune_conversations :: "(nat \<Rightarrow> time) \<Rightarrow> fsm_store \<Rightarrow> int \<times> fsm_store" where
  "prune_conversations ck s =
     (let users = map fst (filter (\<lambda>(u, c). cv_expires c \<le> ck 0) (fs_states s));
          s1 = foldl (\<lambda>s u. drop_conversation u s) s users
      in (int (length users), s1\<lparr>fs_secrets := snd (prune_secrets (ck 1) (fs_secrets s1))\<rparr>))"

definition clear_all_conversations :: "fsm_store \<Rightarrow> fsm_store" where
  "clear_all_conversations s = \<lparr>fs_states = [], fs_secrets = clear_all_secrets (fs_secrets s)\<rparr>"

section \<open>What a user's dialogue holds\<close>

definition live_conversation :: "time \<Rightarrow> fsm_store \<Rightarrow> int \<Rightarrow> conversation option" where
  "live_conversation t s u = live_item cv_expires t (fs_states s) u"

definition live_secret :: "time \<Rightarrow> secret_store \<Rightarrow> int \<times> string \<Rightarrow> sealed_secret option" where
  "live_secret t st k = live_item es_expires t (ss_items st) k"

definition secrets_ok :: "secret_store \<Rightarrow> bool" where
  "secrets_ok st \<longleftrightarrow> distinct (keys (ss_items st)) \<and> (\<forall>b \<in> set (ss_erased st). set b \<subseteq> {CHR 0x00})"

definition fsm_ok :: "fsm_store \<Rightarrow> bool" where
  "fsm_ok s \<longleftrightarrow> distinct (keys (fs_states s)) \<and> secrets_ok (fs_secrets s)"

lemma distinct_keys_filter: "distinct (keys xs) \<Longrightarrow> distinct (keys (filter P xs))"
  by (simp add: keys_def distinct_map_filter)

lemma secrets_ok_drop [intro]: "secrets_ok st \<Longrightarrow> secrets_ok (drop_secrets P st)"
  by (auto simp: secrets_ok_def drop_secrets_def distinct_keys_filter erase_def)

lemma map_of_drop_secrets:
  "secrets_ok st \<Longrightarrow> map_of (ss_items (drop_secrets P st)) k =
     (case map_of (ss_items st) k of None \<Rightarrow> None | Some s \<Rightarrow> if P (k, s) then None else Some s)"
  by (simp add: drop_secrets_def secrets_ok_def map_of_filter_distinct split: option.split)

lemma live_item_drop:
  "secrets_ok st \<Longrightarrow> now \<le> t \<Longrightarrow> live_secret t (drop_secrets (\<lambda>(k, s). es_expires s \<le> now) st) k = live_secret t st k"
  by (auto simp: live_secret_def live_item_def map_of_drop_secrets split: option.splits)

interpretation secret_items: expiring_store live_secret "\<lambda>now st. snd (prune_secrets now st)" secrets_ok
proof
  show "live_secret t' st k = Some v \<Longrightarrow> live_secret t st k = Some v" if "t \<le> t'" for t t' st k v
    unfolding live_secret_def by (rule live_item_lapses [OF that])
qed (auto simp: prune_secrets_def live_item_drop)

lemma keys_touch: "keys (ss_items (touch_secrets n now u st)) = keys (ss_items st)"
  by (simp add: keys_def touch_secrets_def o_def case_prod_unfold)

lemma map_of_touch:
  "map_of (ss_items (touch_secrets n now u st)) k =
     map_option (\<lambda>s. if fst k = u then s\<lparr>es_expires := now + seconds n\<rparr> else s) (map_of (ss_items st) k)"
proof -
  have "map_of (map (\<lambda>(k, s). (k, f k s)) xs) k = map_option (f k) (map_of xs k)" for f :: "int \<times> string \<Rightarrow> sealed_secret \<Rightarrow> sealed_secret" and xs
    by (induction xs) auto
  from this [of "\<lambda>k s. if fst k = u then s\<lparr>es_expires := now + seconds n\<rparr> else s"] show ?thesis
    by (simp add: touch_secrets_def)
qed

lemma secrets_ok_touch [intro]: "secrets_ok st \<Longrightarrow> secrets_ok (touch_secrets n now u st)"
  using keys_touch [of n now u st] by (simp add: secrets_ok_def) (simp add: touch_secrets_def)

lemma map_of_delete: "map_of (AList.delete u xs) v = (if v = u then None else map_of xs v)"
  by (simp add: AList.delete_conv')

lemma secrets_ok_put: "secrets_ok st \<Longrightarrow> secrets_ok (snd (put_secret c n nonce now u name plain st))"
proof -
  assume ok: "secrets_ok st"
  let ?st = "drop_secrets (\<lambda>(k, s). k = (u, name)) st"
  have "(u, name) \<notin> set (keys (ss_items ?st))" by (auto simp: keys_def drop_secrets_def)
  with secrets_ok_drop [OF ok, of "\<lambda>(k, s). k = (u, name)"] show ?thesis
    using ok by (simp add: put_secret_def Let_def secrets_ok_def keys_def)
qed

lemma map_of_put:
  assumes "secrets_ok st" and "plain \<noteq> []"
  shows "map_of (ss_items (snd (put_secret c n nonce now u name plain st))) k =
    (if k = (u, name) then Some \<lparr>es_nonce = nonce, es_text = seal c nonce (utf8 plain) (utf8 (secret_context u name)),
       es_expires = now + seconds n\<rparr> else map_of (ss_items st) k)"
  using assms by (auto simp: put_secret_def Let_def map_add_def map_of_drop_secrets split: option.splits)

section \<open>Requests\<close>

datatype fsm_request =
    RGet | RSet fsm_state "(string \<times> json) list option" | RMove fsm_state fsm_state | RBack | RInvalid | RClear
  | RPut string string | RTake string | RRead string

record fsm_env =
  fe_config :: fsm_config
  fe_cipher :: aead
  fe_nonce :: bytes
  fe_clock :: "nat \<Rightarrow> time"

text \<open>One request of a user, with the store it leaves.\<close>

definition on_secrets :: "(secret_store \<Rightarrow> secret_store) \<Rightarrow> fsm_store \<Rightarrow> fsm_store" where
  "on_secrets f s = s\<lparr>fs_secrets := f (fs_secrets s)\<rparr>"

fun fsm_step :: "fsm_env \<Rightarrow> int \<Rightarrow> fsm_request \<Rightarrow> fsm_store \<Rightarrow> fsm_store" where
  "fsm_step env u RGet s = snd (get_conversation (fe_clock env) u s)"
| "fsm_step env u (RSet state content) s = snd (set_conversation (fe_config env) (fe_clock env) u state content s)"
| "fsm_step env u (RMove expected new) s = snd (transition (fe_config env) (fe_clock env) u expected new s)"
| "fsm_step env u RBack s = snd (back_conversation (fe_config env) (fe_clock env) u s)"
| "fsm_step env u RInvalid s = snd (invalid_input (fe_config env) (fe_clock env) u s)"
| "fsm_step env u RClear s = clear_conversation u s"
| "fsm_step env u (RPut name plain) s = on_secrets (\<lambda>st. snd (put_secret (fe_cipher env)
     (fsm_timeout (fe_config env)) (fe_nonce env) (fe_clock env 0) u name plain st)) s"
| "fsm_step env u (RTake name) s = on_secrets (\<lambda>st. snd (take_secret (fe_cipher env) (fe_clock env 0) u name st)) s"
| "fsm_step env u (RRead name) s = on_secrets (\<lambda>st. snd (get_secret (fe_cipher env) (fe_clock env 0) u name st)) s"

lemma store_simps [simp]:
  "fs_states (drop_conversation u s) = AList.delete u (fs_states s)"
  "fs_secrets (drop_conversation u s) = clear_secrets u (fs_secrets s)"
  "fs_states (keep_conversation u c s) = AList.update u c (fs_states s)"
  "fs_secrets (keep_conversation u c s) = fs_secrets s"
  "fs_states (touch_user cfg now u s) = fs_states s"
  "fs_secrets (touch_user cfg now u s) = touch_secrets (fsm_timeout cfg) now u (fs_secrets s)"
  "fs_states (on_secrets f s) = fs_states s" "fs_secrets (on_secrets f s) = f (fs_secrets s)"
  by (simp_all add: drop_conversation_def keep_conversation_def touch_user_def on_secrets_def)

lemmas fsm_ops = get_conversation_def set_conversation_def transition_def back_conversation_def invalid_input_def
  clear_conversation_def

text \<open>The three shapes a request leaves: nothing changed, a dialogue dropped, or a dialogue kept.\<close>

lemma fsm_ok_drop_conversation [intro]: "fsm_ok s \<Longrightarrow> fsm_ok (drop_conversation u s)"
  by (auto simp: fsm_ok_def clear_secrets_def)

lemma fsm_ok_keep [intro]: "fsm_ok s \<Longrightarrow> fsm_ok (touch_user cfg now u (keep_conversation u c s))"
  by (auto simp: fsm_ok_def)

lemma secrets_ok_take: "secrets_ok st \<Longrightarrow> secrets_ok (snd (take_secret c now u name st))"
  and secrets_ok_get: "secrets_ok st \<Longrightarrow> secrets_ok (snd (get_secret c now u name st))"
  by (auto simp: take_secret_def get_secret_def split: option.split)

lemma fsm_ok_step: "fsm_ok s \<Longrightarrow> fsm_ok (fsm_step env u req s)"
proof (cases req)
  case (RSet state content)
  assume "fsm_ok s"
  with RSet show ?thesis by (auto simp: fsm_ops Let_def fsm_ok_def clear_secrets_def)
next
  case (RPut name plain)
  assume "fsm_ok s"
  with RPut show ?thesis by (auto simp: fsm_ok_def intro: secrets_ok_put)
next
  case (RTake name)
  assume "fsm_ok s"
  with RTake show ?thesis by (auto simp: fsm_ok_def intro: secrets_ok_take)
next
  case (RRead name)
  assume "fsm_ok s"
  with RRead show ?thesis by (auto simp: fsm_ok_def intro: secrets_ok_get)
qed (auto simp: fsm_ops Let_def split: option.split)

lemma map_of_clear_secrets:
  "secrets_ok st \<Longrightarrow> map_of (ss_items (clear_secrets u st)) k = (if fst k = u then None else map_of (ss_items st) k)"
  by (auto simp: clear_secrets_def map_of_drop_secrets split: option.splits)

lemma other_secrets:
  assumes "secrets_ok st" and "v \<noteq> u"
  shows "map_of (ss_items (snd (take_secret c now u name st))) (v, n) = map_of (ss_items st) (v, n)"
    "map_of (ss_items (snd (get_secret c now u name st))) (v, n) = map_of (ss_items st) (v, n)"
    "map_of (ss_items (snd (put_secret c k nonce now u name plain st))) (v, n) = map_of (ss_items st) (v, n)"
proof -
  show "map_of (ss_items (snd (put_secret c k nonce now u name plain st))) (v, n) = map_of (ss_items st) (v, n)"
    using assms map_of_put [OF assms(1)] by (cases "plain = []") (auto simp: put_secret_def)
qed (use assms in \<open>auto simp: take_secret_def get_secret_def map_of_drop_secrets split: option.split\<close>)

text \<open>
  Users do not see each other's dialogues: whatever a user sends, the dialogue and the sealed
  secrets of every other user stay exactly as they were, the store keeps one entry per key, and
  every buffer of a secret the store has let go of was overwritten with zeros.
\<close>

theorem conversation_isolated_per_user:
  assumes "fsm_ok s" and "v \<noteq> u"
  shows "fsm_ok (fsm_step env u req s) \<and> map_of (fs_states (fsm_step env u req s)) v = map_of (fs_states s) v \<and>
    map_of (ss_items (fs_secrets (fsm_step env u req s))) (v, name) = map_of (ss_items (fs_secrets s)) (v, name) \<and>
    list_all (\<lambda>b. set b \<subseteq> {CHR 0x00}) (ss_erased (fs_secrets (fsm_step env u req s)))"
proof -
  note ok' = fsm_ok_step [OF assms(1), of env u req]
  have st: "secrets_ok (fs_secrets s)" using assms(1) by (simp add: fsm_ok_def)
  have "map_of (fs_states (fsm_step env u req s)) v = map_of (fs_states s) v"
    using assms(2) by (cases req) (auto simp: fsm_ops Let_def update_conv' map_of_delete split: option.split)
  moreover have "map_of (ss_items (fs_secrets (fsm_step env u req s))) (v, name) = map_of (ss_items (fs_secrets s)) (v, name)"
    using assms(2) st by (cases req)
      (auto simp: fsm_ops Let_def map_of_clear_secrets map_of_touch other_secrets option.map_ident split: option.split)
  ultimately show ?thesis using ok' by (auto simp: fsm_ok_def secrets_ok_def list_all_iff)
qed

definition demo_fsm_env :: fsm_env where
  "demo_fsm_env = \<lparr>fe_config = \<lparr>fsm_timeout = 600, fsm_limit = 3\<rparr>, fe_cipher = demo_aead, fe_nonce = ''abcdefghijkl'',
     fe_clock = (\<lambda>n. seconds 10 + int n)\<rparr>"

definition empty_fsm :: fsm_store where
  "empty_fsm = \<lparr>fs_states = [], fs_secrets = \<lparr>ss_items = [], ss_erased = []\<rparr>\<rparr>"

definition demo_fsm :: fsm_store where
  "demo_fsm = fsm_step demo_fsm_env 8 (RPut ''key'' ''pem'')
     (fsm_step demo_fsm_env 8 (RSet AddServerPrivateKey None) (fsm_step demo_fsm_env 7 (RSet AddAdminName None) empty_fsm))"

lemma demo_fsm_ok: "fsm_ok demo_fsm"
proof -
  have "fsm_ok empty_fsm" by (simp add: fsm_ok_def secrets_ok_def empty_fsm_def keys_def)
  then show ?thesis unfolding demo_fsm_def by (intro fsm_ok_step)
qed

lemma conversation_isolated_per_user_witness:
  "map_of (ss_items (fs_secrets (fsm_step demo_fsm_env 7 RClear demo_fsm))) (8, ''key'') =
     map_of (ss_items (fs_secrets demo_fsm)) (8, ''key'') \<and> map_of (ss_items (fs_secrets demo_fsm)) (8, ''key'') \<noteq> None"
proof -
  have "(8::int) \<noteq> 7" by simp
  from conversation_isolated_per_user [OF demo_fsm_ok this, of demo_fsm_env RClear "''key''"]
  have "map_of (ss_items (fs_secrets (fsm_step demo_fsm_env 7 RClear demo_fsm))) (8, ''key'') =
     map_of (ss_items (fs_secrets demo_fsm)) (8, ''key'')" by blast
  moreover have "secrets_ok (fs_secrets (fsm_step demo_fsm_env 8 (RSet AddServerPrivateKey None)
      (fsm_step demo_fsm_env 7 (RSet AddAdminName None) empty_fsm)))"
    by (simp add: secrets_ok_def empty_fsm_def keys_def set_conversation_def Let_def clear_secrets_def drop_secrets_def)
  then have "map_of (ss_items (fs_secrets demo_fsm)) (8, ''key'') \<noteq> None"
    by (simp add: demo_fsm_def map_of_put)
  ultimately show ?thesis by simp
qed

section \<open>Expiry\<close>

lemma live_conversation_cong:
  "map_of (fs_states s') u = map_of (fs_states s) u \<Longrightarrow> live_conversation t s' u = live_conversation t s u"
  by (simp add: live_conversation_def live_item_def)

lemma live_None: "live_conversation t s u = None \<longleftrightarrow>
    (\<forall>c. map_of (fs_states s) u = Some c \<longrightarrow> cv_expires c \<le> t)"
  by (auto simp: live_conversation_def live_item_def split: option.splits)

text \<open>
  C39. A dialogue that has expired stays closed: looking it up, moving it on, going back or
  clearing it neither revives it nor leaves any secret typed in it behind, until the user starts
  a new dialogue. (A wrong input is the exception shown below.)
\<close>

theorem expired_conversation_stays_closed:
  assumes ok: "fsm_ok s" and dead: "map_of (fs_states s) u = Some c" "cv_expires c \<le> t"
    and clock: "\<And>n. t \<le> fe_clock env n" and req: "req \<in> {RGet, RMove expected new, RBack, RClear}"
  shows "map_of (fs_states (fsm_step env u req s)) u = None \<and>
    map_of (ss_items (fs_secrets (fsm_step env u req s))) (u, name) = None"
proof -
  have st: "secrets_ok (fs_secrets s)" using ok by (simp add: fsm_ok_def)
  have late: "cv_expires c \<le> fe_clock env n" for n using dead(2) clock [of n] by simp
  have "fsm_step env u req s = drop_conversation u s"
    using req dead(1) late by (auto simp: fsm_ops)
  then show ?thesis by (simp add: map_of_delete map_of_clear_secrets [OF st])
qed

lemma expired_conversation_stays_closed_witness:
  "map_of (ss_items (fs_secrets (fsm_step (demo_fsm_env\<lparr>fe_clock := \<lambda>n. seconds 700\<rparr>) 8 RBack demo_fsm))) (8, ''key'') = None"
proof -
  have "\<exists>c. map_of (fs_states demo_fsm) 8 = Some c \<and> cv_expires c = seconds 610"
    by (simp add: demo_fsm_def empty_fsm_def set_conversation_def Let_def demo_fsm_env_def seconds_def)
  then obtain c where c: "map_of (fs_states demo_fsm) 8 = Some c" "cv_expires c \<le> seconds 700" by auto
  from expired_conversation_stays_closed [OF demo_fsm_ok c, of "demo_fsm_env\<lparr>fe_clock := \<lambda>n. seconds 700\<rparr>" RBack]
  show ?thesis by simp
qed

text \<open>
  A wrong input revives an expired dialogue: \<^verbatim>\<open>invalid\<close> renews the expiry of whatever entry it
  finds, and of the user's secrets with it.
\<close>

lemma invalid_input_revives:
  assumes "cv_invalid c + 1 < fsm_limit cfg" and "0 < fsm_timeout cfg"
  shows "live_conversation (ck 0) (snd (invalid_input cfg ck u (keep_conversation u c s))) u \<noteq> None"
  using assms by (simp add: invalid_input_def update_conv' Let_def live_conversation_def live_item_def not_le)

section \<open>One way and back\<close>

lemma back_undoes_transition:
  assumes "transition cfg ck u expected new s = (Inr c, s1)" and "ck' 0 < ck 1 + seconds (fsm_timeout cfg)"
    and "map_of (fs_states s) u = Some c0"
  shows "\<exists>c2. fst (back_conversation cfg ck' u s1) = Some c2 \<and> cv_state c2 = expected \<and>
    cv_history c2 = cv_history c0 \<and> cv_data c2 = cv_data c0 \<and> cv_options c2 = cv_options c0"
  using assms by (auto simp: transition_def back_conversation_def update_conv' Let_def split: if_splits)

section \<open>Secrets open once\<close>

text \<open>
  A secret typed into a dialogue reads back, as often as needed, while the dialogue lasts;
  taking it gives it once more and removes it, its buffer overwritten, so that neither another
  take nor another read succeeds; once expired it is never given. The hypothesis on the cipher is
  that it opens what it sealed.
\<close>

theorem secret_opens_until_taken:
  assumes ok: "secrets_ok st" and put: "put_secret c n nonce now u name plain st = (Inr (), st1)"
    and opens: "unseal c nonce (seal c nonce (utf8 plain) (utf8 (secret_context u name))) (utf8 (secret_context u name)) = Some (utf8 plain)"
    and t: "t < now + seconds n"
  shows "get_secret c t u name st1 = (Inr plain, st1) \<and>
    (\<exists>st2. take_secret c t u name st1 = (Inr plain, st2) \<and> secrets_ok st2 \<and>
      fst (take_secret c t' u name st2) = Inl secret_unavailable \<and> fst (get_secret c t' u name st2) = Inl secret_unavailable) \<and>
    (\<forall>late. now + seconds n \<le> late \<longrightarrow> fst (get_secret c late u name st1) = Inl secret_unavailable \<and>
      fst (take_secret c late u name st1) = Inl secret_unavailable)"
proof -
  have ne: "plain \<noteq> []" and st1: "st1 = snd (put_secret c n nonce now u name plain st)"
    using put by (auto simp: put_secret_def split: if_splits)
  note item = map_of_put [OF ok ne, of c n nonce now u name "(u, name)", folded st1]
  have ok1: "secrets_ok st1" unfolding st1 by (rule secrets_ok_put [OF ok])
  let ?st2 = "drop_secrets (\<lambda>(k, s). k = (u, name)) st1"
  have gone: "map_of (ss_items ?st2) (u, name) = None" by (simp add: map_of_drop_secrets [OF ok1] item)
  show ?thesis
    using t by (auto simp: get_secret_def take_secret_def item gone open_secret_def opens utf8_round_trip ok1)
qed

lemma secret_opens_until_taken_witness:
  "\<exists>st1. put_secret demo_aead 600 ''abcdefghijkl'' 5 8 ''key'' ''pem'' \<lparr>ss_items = [], ss_erased = []\<rparr> = (Inr (), st1) \<and>
     fst (get_secret demo_aead 9 8 ''key'' st1) = Inr ''pem''"
proof -
  obtain st1 where p: "put_secret demo_aead 600 ''abcdefghijkl'' 5 8 ''key'' ''pem'' \<lparr>ss_items = [], ss_erased = []\<rparr> = (Inr (), st1)"
    by (simp add: put_secret_def Let_def)
  have ok: "secrets_ok \<lparr>ss_items = [], ss_erased = []\<rparr>" by (simp add: secrets_ok_def keys_def)
  have o: "unseal demo_aead ''abcdefghijkl'' (seal demo_aead ''abcdefghijkl'' (utf8 ''pem'') (utf8 (secret_context 8 ''key'')))
      (utf8 (secret_context 8 ''key'')) = Some (utf8 ''pem'')" by code_simp
  from secret_opens_until_taken [OF ok p o, of 9] p show ?thesis by (simp add: seconds_def)
qed

text \<open>The store of dialogues is an expiring store as well.\<close>

lemma drop_conversations_states:
  "fs_states (foldl (\<lambda>s u. drop_conversation u s) s us) = filter (\<lambda>(u, c). u \<notin> set us) (fs_states s)"
proof (induction us arbitrary: s)
  case (Cons u us)
  then show ?case by (simp add: AList.delete_eq filter_filter) (rule filter_cong; auto)
qed (simp add: filter_True case_prod_unfold)

lemma pruned_states:
  assumes "distinct (keys (fs_states s))"
  shows "fs_states (snd (prune_conversations ck s)) = unexpired cv_expires (ck 0) (fs_states s)"
  using assms by (auto simp: prune_conversations_def Let_def drop_conversations_states unexpired_def keys_def
      case_prod_unfold not_le intro!: filter_cong) (force dest: eq_key_imp_eq_value)+

interpretation dialogues: expiring_store live_conversation "\<lambda>now s. snd (prune_conversations (\<lambda>_. now) s)"
  "\<lambda>s. distinct (keys (fs_states s))"
proof
  show "live_conversation t' s u = Some c \<Longrightarrow> live_conversation t s u = Some c" if "t \<le> t'" for t t' s u c
    unfolding live_conversation_def by (rule live_item_lapses [OF that])
qed (simp_all add: live_conversation_def pruned_states live_item_unexpired keys_unexpired)

end
