(* ===== verification/Transforms.thy ===== *)
theory Transforms
  imports Filesystem Deadline Secrets
begin

text \<open>
  \<^verbatim>\<open>src/src/pipeline/process.py\<close> and \<^verbatim>\<open>src/src/pipeline/transforms.py\<close>: running the external
  tools and the stages of the pipeline built from them: the archive, its compression and its
  encryption. What a tool does to the file system, how long it runs and what it prints is a
  parameter; the commands, the supervision of a tool and the checks of its output are the code's.
\<close>

section \<open>Steps on the file system\<close>

type_synonym 'a fsop = "fs \<Rightarrow> 'a result \<times> fs"

definition bind_fs :: "'a fsop \<Rightarrow> ('a \<Rightarrow> 'b fsop) \<Rightarrow> 'b fsop" where
  "bind_fs m f fs = (case m fs of (Inl e, fs') \<Rightarrow> (Inl e, fs') | (Inr a, fs') \<Rightarrow> f a fs')"

definition check_fs :: "(fs \<Rightarrow> 'a result) \<Rightarrow> 'a fsop" where
  "check_fs g fs = (g fs, fs)"

lemma bind_fs_Inr: "bind_fs m f fs = (Inr b, fs') \<longleftrightarrow> (\<exists>a fs1. m fs = (Inr a, fs1) \<and> f a fs1 = (Inr b, fs'))"
  by (auto simp: bind_fs_def split: prod.splits sum.splits)

lemma check_fs_Inr: "check_fs g fs = (Inr a, fs') \<longleftrightarrow> g fs = Inr a \<and> fs' = fs"
  by (auto simp: check_fs_def)

definition path_str :: "path \<Rightarrow> string" where
  "path_str p = CHR ''/'' # join_with ''/'' p"

definition file_content :: "fs \<Rightarrow> path \<Rightarrow> bytes option" where
  "file_content fs p = (case node_at fs (resolve fs p) of Some (RegularFile b) \<Rightarrow> Some b | _ \<Rightarrow> None)"

text \<open>Opening for writing: the place the path leads to, in an existing directory.\<close>

definition open_for_writing :: "bool \<Rightarrow> path \<Rightarrow> path fsop" where
  "open_for_writing exclusive p fs =
     (let q = (if exclusive \<and> p \<noteq> [] then resolve fs (butlast p) @ [last p] else resolve fs p)
      in if q = [] \<or> node_at fs (butlast q) \<noteq> Some Directory then (Inl (OSError ''FileNotFoundError''), fs)
         else if exclusive \<and> node_at fs q \<noteq> None then (Inl (OSError ''FileExistsError''), fs)
         else if node_at fs q = Some Directory then (Inl (OSError ''IsADirectoryError''), fs)
         else (Inr q, put_node q (RegularFile []) fs))"

section \<open>Processes\<close>

text \<open>
  One run of a tool: how long it takes, if it ends by itself, what it leaves, the refusals of the
  capacity check while it runs with their times, and what is left when it is terminated at a time.
\<close>

record tool_run =
  tr_code :: int
  tr_stdout :: bytes
  tr_stderr :: bytes
  tr_duration :: "int option"
  tr_refusals :: "(int \<times> exn) list"
  tr_after :: fs
  tr_killed :: "int \<Rightarrow> fs"

record process_env =
  pe_spawn :: "string \<Rightarrow> exn option"
  pe_tool :: "string \<Rightarrow> string list \<Rightarrow> bytes option \<Rightarrow> fs \<Rightarrow> tool_run"
  pe_dir_size :: int

definition tail :: "nat \<Rightarrow> bytes \<Rightarrow> bytes" where
  "tail limit b = drop (length b - limit) b"

text \<open>The pipes are drained in pieces, with at most \<open>limit > 0\<close> bytes kept at any time.\<close>

fun drain_tail :: "nat \<Rightarrow> bytes \<Rightarrow> bytes list \<Rightarrow> bytes" where
  "drain_tail limit kept [] = kept"
| "drain_tail limit kept (piece # pieces) =
     (let kept1 = kept @ piece
      in drain_tail limit (if limit < length kept1 then drop (length kept1 - limit) kept1 else kept1) pieces)"

lemma tail_drop: "n \<le> length b - limit \<Longrightarrow> tail limit (drop n b @ c) = tail limit (b @ c)"
proof (cases "limit \<le> length b")
  case True
  assume "n \<le> length b - limit"
  with True have "length b + length c - (n + limit) + n = length b + length c - limit"
    "length b - n + length c - limit + n = length b + length c - limit" by linarith+
  then show ?thesis by (simp add: tail_def)
qed (simp add: tail_def)

lemma drain_tail_is_tail: "length kept \<le> limit \<Longrightarrow> drain_tail limit kept pieces = tail limit (kept @ concat pieces)"
proof (induction limit kept pieces rule: drain_tail.induct)
  case (2 limit kept piece pieces)
  show ?case
  proof (cases "limit < length (kept @ piece)")
    case True
    define kept1 where "kept1 = drop (length (kept @ piece) - limit) (kept @ piece)"
    have "length kept1 \<le> limit" using True by (simp add: kept1_def)
    with True have "drain_tail limit kept (piece # pieces) = tail limit (kept1 @ concat pieces)"
      using 2(1) [OF refl] by (simp add: Let_def kept1_def)
    then show ?thesis unfolding kept1_def by (simp only: tail_drop order_refl) simp
  next
    case False
    then show ?thesis using 2(1) [OF refl] by (simp add: Let_def)
  qed
qed (simp add: tail_def)

definition process_timeout :: exn where
  "process_timeout = PipelineError ''PROCESS_TIMEOUT'' ''backup tool timed out''"

text \<open>The tool ends by itself, or a refused check or the timeout terminates its process group.\<close>

definition supervise :: "exn \<Rightarrow> int \<Rightarrow> bool \<Rightarrow> tool_run \<Rightarrow> int fsop" where
  "supervise expired timeout checked run fs =
     (let ends = (case tr_duration run of Some d \<Rightarrow> d < timeout | None \<Rightarrow> False);
          limit = (if ends then the (tr_duration run) else timeout)
      in case (if checked then find (\<lambda>(t, e). t < limit) (tr_refusals run) else None) of
           Some (t, e) \<Rightarrow> (Inl e, tr_killed run t)
         | None \<Rightarrow> if ends then (Inr (tr_code run), tr_after run) else (Inl expired, tr_killed run timeout))"

record process_result =
  pr_stdout :: bytes
  pr_stderr :: bytes

definition process_failed :: "bytes \<Rightarrow> exn" where
  "process_failed stderr = PipelineError ''PROCESS_FAILED'' (if stderr = [] then ''backup tool failed'' else stderr)"

definition output_to :: "path option \<Rightarrow> bytes \<Rightarrow> fs \<Rightarrow> fs" where
  "output_to stdout_at b fs = (case stdout_at of None \<Rightarrow> fs | Some q \<Rightarrow> put_node q (RegularFile b) fs)"

definition run_process ::
  "process_env \<Rightarrow> string \<times> string list \<Rightarrow> int \<Rightarrow> bytes option \<Rightarrow> path option \<Rightarrow> bool \<Rightarrow> process_result fsop" where
  "run_process env command timeout stdin stdout_path checked =
     bind_fs (check_fs (\<lambda>fs. guard_result (starts_with ''/'' (fst command))
       (ValueError ''executable must be an absolute path''))) (\<lambda>_.
     bind_fs (case stdout_path of None \<Rightarrow> check_fs (\<lambda>fs. Inr None)
       | Some p \<Rightarrow> bind_fs (open_for_writing False p) (\<lambda>q. check_fs (\<lambda>fs. Inr (Some q)))) (\<lambda>stdout_at.
     bind_fs (check_fs (\<lambda>fs. case pe_spawn env (fst command) of None \<Rightarrow> Inr () | Some e \<Rightarrow> Inl e)) (\<lambda>_ fs.
       let run = pe_tool env (fst command) (snd command) stdin fs
       in bind_fs (supervise process_timeout timeout checked run) (\<lambda>code fs.
            let fs1 = output_to stdout_at (tr_stdout run) fs
            in if code \<noteq> 0 then (Inl (process_failed (tail 16384 (tr_stderr run))), fs1)
               else (Inr \<lparr>pr_stdout = (if stdout_at = None then tail 16384 (tr_stdout run) else []),
                       pr_stderr = tail 16384 (tr_stderr run)\<rparr>, fs1)) fs)))"

text \<open>
  \<^verbatim>\<open>run_age_passphrase\<close>: the passphrase is typed twice on a private terminal. A timeout passes
  through as the \<^verbatim>\<open>TimeoutError\<close> it is.
\<close>

definition run_age_passphrase ::
  "process_env \<Rightarrow> string \<times> string list \<Rightarrow> string \<Rightarrow> int \<Rightarrow> bool \<Rightarrow> unit fsop" where
  "run_age_passphrase env command passphrase timeout checked =
     bind_fs (check_fs (\<lambda>fs. case pe_spawn env ''/usr/bin/setsid'' of None \<Rightarrow> Inr () | Some e \<Rightarrow> Inl e)) (\<lambda>_ fs.
       bind_fs (supervise (OSError ''TimeoutError'') timeout checked
           (pe_tool env ''/usr/bin/setsid'' ([''--ctty'', ''--wait'', fst command] @ snd command)
              (Some (utf8 passphrase @ [CHR 0x0A] @ utf8 passphrase @ [CHR 0x0A])) fs)) (\<lambda>code.
         check_fs (\<lambda>fs. guard_result (code = 0)
           (PipelineError ''PROCESS_FAILED'' ''age passphrase encryption failed''))) fs)"

section \<open>Names and levels\<close>

fun compression_extension :: "compression_format \<Rightarrow> string" where
  "compression_extension Fmt_None = ''''"
| "compression_extension Fmt_Zstandard = ''.zst''"
| "compression_extension Fmt_Gzip = ''.gz''"
| "compression_extension Fmt_XZ = ''.xz''"
| "compression_extension Fmt_Bzip2 = ''.bz2''"
| "compression_extension Fmt_Zip = ''.zip''"
| "compression_extension Fmt_SevenZ = ''.7z''"

fun algorithm_extension :: "compression_algorithm \<Rightarrow> string" where
  "algorithm_extension Alg_None = ''''"
| "algorithm_extension Alg_Zstandard = ''.zst''"
| "algorithm_extension Alg_Gzip = ''.gz''"
| "algorithm_extension Alg_XZ = ''.xz''"
| "algorithm_extension Alg_Bzip2 = ''.bz2''"
| "algorithm_extension Alg_LZ4 = ''.lz4''"

fun archive_extension :: "archive_format \<Rightarrow> string" where
  "archive_extension Arc_Tar = ''.tar''"
| "archive_extension Arc_Zip = ''.zip''"
| "archive_extension Arc_SevenZ = ''.7z''"

text \<open>\<^verbatim>\<open>dict(zip(CompressionPreset, levels))\<close>\<close>

definition preset_level :: "string list \<Rightarrow> compression_preset \<Rightarrow> string" where
  "preset_level levels preset = (case map_of (zip all_presets levels) preset of Some l \<Rightarrow> l | None \<Rightarrow> [])"

fun format_levels :: "compression_format \<Rightarrow> string list" where
  "format_levels Fmt_Zstandard = [''1'', ''6'', ''15'', ''19'']"
| "format_levels Fmt_Gzip = [''1'', ''6'', ''9'', ''9'']"
| "format_levels Fmt_XZ = [''1'', ''4'', ''7'', ''9'']"
| "format_levels Fmt_Bzip2 = [''1'', ''5'', ''8'', ''9'']"
| "format_levels Fmt_Zip = [''1'', ''5'', ''8'', ''9'']"
| "format_levels Fmt_SevenZ = [''1'', ''5'', ''7'', ''9'']"
| "format_levels Fmt_None = []"

fun algorithm_levels :: "compression_algorithm \<Rightarrow> string list" where
  "algorithm_levels Alg_Zstandard = format_levels Fmt_Zstandard"
| "algorithm_levels Alg_Gzip = format_levels Fmt_Gzip"
| "algorithm_levels Alg_XZ = format_levels Fmt_XZ"
| "algorithm_levels Alg_Bzip2 = format_levels Fmt_Bzip2"
| "algorithm_levels Alg_LZ4 = [''1'', ''6'', ''9'', ''12'']"
| "algorithm_levels Alg_None = []"

text \<open>\<^verbatim>\<open>source.suffix == ".tar"\<close>\<close>

definition has_tar_suffix :: "path \<Rightarrow> bool" where
  "has_tar_suffix p \<longleftrightarrow> ends_with ''.tar'' (path_name p) \<and> 4 < length (path_name p)"

section \<open>Commands\<close>

type_synonym command = "string \<times> string list"

fun archive_command :: "archive_format \<Rightarrow> path \<Rightarrow> path \<Rightarrow> command" where
  "archive_command Arc_Tar source target =
     (''/usr/bin/tar'', [''-cf'', path_str target, ''-C'', path_str (butlast source), path_name source])"
| "archive_command Arc_Zip source target = (''/usr/bin/zip'', [''-q'', ''-0'', path_str target, path_str source])"
| "archive_command Arc_SevenZ source target =
     (''/usr/bin/7z'', [''a'', ''-bd'', ''-mx=0'', path_str target, path_str source])"

fun archive_verify :: "archive_format \<Rightarrow> path \<Rightarrow> command" where
  "archive_verify Arc_Tar target = (''/usr/bin/tar'', [''-tf'', path_str target])"
| "archive_verify Arc_Zip target = (''/usr/bin/unzip'', [''-tqq'', path_str target])"
| "archive_verify Arc_SevenZ target = (''/usr/bin/7z'', [''t'', ''-bd'', path_str target])"

definition zstd_command :: "int \<Rightarrow> string \<Rightarrow> path \<Rightarrow> command" where
  "zstd_command threads level source =
     (''/usr/bin/zstd'', [''-T'' @ show_int threads, CHR ''-'' # level, ''-q'', ''-c'', path_str source])"

definition xz_command :: "int \<Rightarrow> int \<Rightarrow> string \<Rightarrow> path \<Rightarrow> command" where
  "xz_command threads memory level source =
     (''/usr/bin/xz'', [''-T'' @ show_int threads, ''--memlimit-compress='' @ show_int memory @ ''MiB'', CHR ''-'' # level,
        ''-c'', path_str source])"

fun algorithm_command :: "compression_algorithm \<Rightarrow> int \<Rightarrow> int \<Rightarrow> string \<Rightarrow> path \<Rightarrow> command" where
  "algorithm_command Alg_Zstandard threads memory level source = zstd_command threads level source"
| "algorithm_command Alg_Gzip threads memory level source =
     (''/usr/bin/gzip'', [CHR ''-'' # level, ''-c'', path_str source])"
| "algorithm_command Alg_XZ threads memory level source = xz_command threads memory level source"
| "algorithm_command Alg_Bzip2 threads memory level source =
     (''/usr/bin/bzip2'', [CHR ''-'' # level, ''-c'', path_str source])"
| "algorithm_command Alg_LZ4 threads memory level source =
     (''/usr/bin/lz4'', [''-q'', CHR ''-'' # level, ''-c'', path_str source])"
| "algorithm_command Alg_None threads memory level source = ([], [])"

fun algorithm_verify :: "compression_algorithm \<Rightarrow> path \<Rightarrow> command" where
  "algorithm_verify Alg_Zstandard target = (''/usr/bin/zstd'', [''-q'', ''-t'', path_str target])"
| "algorithm_verify Alg_Gzip target = (''/usr/bin/gzip'', [''-t'', path_str target])"
| "algorithm_verify Alg_XZ target = (''/usr/bin/xz'', [''-t'', path_str target])"
| "algorithm_verify Alg_Bzip2 target = (''/usr/bin/bzip2'', [''-t'', path_str target])"
| "algorithm_verify Alg_LZ4 target = (''/usr/bin/lz4'', [''-q'', ''-t'', path_str target])"
| "algorithm_verify Alg_None target = ([], [])"

definition seven_zip_dictionary :: "int \<Rightarrow> int \<Rightarrow> int" where
  "seven_zip_dictionary threads memory = max 1 (min 256 (memory div max (threads * 4) 1))"

text \<open>The command of a format with the file its output goes to, if it writes to standard output.\<close>

fun format_command :: "compression_format \<Rightarrow> int \<Rightarrow> int \<Rightarrow> string \<Rightarrow> path \<Rightarrow> path \<Rightarrow> command \<times> path option" where
  "format_command Fmt_Zstandard threads memory level source target = (zstd_command threads level source, Some target)"
| "format_command Fmt_Gzip threads memory level source target =
     ((''/usr/bin/gzip'', [CHR ''-'' # level, ''-c'', path_str source]), Some target)"
| "format_command Fmt_XZ threads memory level source target = (xz_command threads memory level source, Some target)"
| "format_command Fmt_Bzip2 threads memory level source target =
     ((''/usr/bin/bzip2'', [CHR ''-'' # level, ''-c'', path_str source]), Some target)"
| "format_command Fmt_Zip threads memory level source target =
     ((''/usr/bin/zip'', [''-q'', CHR ''-'' # level, path_str target, path_str source]), None)"
| "format_command Fmt_SevenZ threads memory level source target =
     ((''/usr/bin/7z'', [''a'', ''-bd'', ''-mx='' @ level, ''-mmt='' @ show_int threads,
        ''-md='' @ show_int (seven_zip_dictionary threads memory) @ ''m'', path_str target, path_str source]), None)"
| "format_command Fmt_None threads memory level source target = (([], []), None)"

fun format_verify :: "compression_format \<Rightarrow> path \<Rightarrow> command" where
  "format_verify Fmt_Zstandard target = (''/usr/bin/zstd'', [''-q'', ''-t'', path_str target])"
| "format_verify Fmt_Gzip target = (''/usr/bin/gzip'', [''-t'', path_str target])"
| "format_verify Fmt_XZ target = (''/usr/bin/xz'', [''-t'', path_str target])"
| "format_verify Fmt_Bzip2 target = (''/usr/bin/bzip2'', [''-t'', path_str target])"
| "format_verify Fmt_Zip target = (''/usr/bin/unzip'', [''-tqq'', path_str target])"
| "format_verify Fmt_SevenZ target = (''/usr/bin/7z'', [''t'', ''-bd'', path_str target])"
| "format_verify Fmt_None target = ([], [])"

definition age_args :: "encryption_mode \<Rightarrow> string list \<Rightarrow> path \<Rightarrow> path \<Rightarrow> string list" where
  "age_args mode recipients source target = [''--output'', path_str target] @
     (if mode = AgePublicKey then concat (map (\<lambda>r. [''--recipient'', r]) recipients) else [''--passphrase'']) @
     [path_str source]"

section \<open>The stages\<close>

text \<open>
  What a stage is called with: the capacity check, the cooperative stop seen by the copying
  thread at its \<open>k\<close>th check, and the \<open>k\<close>th answer of the timeout provider, which may raise.
\<close>

record transform_env =
  te_process :: process_env
  te_capacity :: "(fs \<Rightarrow> int \<Rightarrow> unit result) option"
  te_stop :: "nat \<Rightarrow> unit result"
  te_timeout :: "nat \<Rightarrow> int result"
  te_threads :: int
  te_memory :: int

definition check_capacity :: "transform_env \<Rightarrow> int \<Rightarrow> unit fsop" where
  "check_capacity env required = check_fs (\<lambda>fs. case te_capacity env of None \<Rightarrow> Inr () | Some c \<Rightarrow> c fs required)"

definition stat_size :: "transform_env \<Rightarrow> path \<Rightarrow> int fsop" where
  "stat_size env p = check_fs (\<lambda>fs. case node_at fs (resolve fs p) of
     Some (RegularFile b) \<Rightarrow> Inr (int (length b))
   | Some _ \<Rightarrow> Inr (pe_dir_size (te_process env))
   | None \<Rightarrow> Inl (OSError ''FileNotFoundError''))"

function chunks :: "nat \<Rightarrow> bytes \<Rightarrow> bytes list" where
  "chunks n b = (if b = [] \<or> n = 0 then [] else take n b # chunks n (drop n b))"
  by pat_completeness auto
termination by (relation "measure (\<lambda>(n, b). length b)") auto

declare chunks.simps [simp del]

definition copy_chunk :: nat where
  "copy_chunk = 1024 * 1024"

text \<open>The loop of \<^verbatim>\<open>_copyfile_guarded\<close>: each chunk is written after its check has passed.\<close>

fun copy_loop :: "transform_env \<Rightarrow> path \<Rightarrow> bytes \<Rightarrow> nat \<Rightarrow> bytes list \<Rightarrow> unit fsop" where
  "copy_loop env q written k [] = bind_fs (check_fs (\<lambda>fs. te_stop env k)) (\<lambda>_. check_capacity env 0)"
| "copy_loop env q written k (c # cs) =
     bind_fs (check_fs (\<lambda>fs. te_stop env k)) (\<lambda>_.
     bind_fs (check_capacity env (int (length c) + 4096)) (\<lambda>_ fs.
       copy_loop env q (written @ c) (Suc k) cs (put_node q (RegularFile (written @ c)) fs)))"

definition cooperative_copy :: "transform_env \<Rightarrow> path \<Rightarrow> path \<Rightarrow> unit fsop" where
  "cooperative_copy env source target =
     bind_fs (check_fs (\<lambda>fs. case file_content fs source of None \<Rightarrow> Inl (OSError ''FileNotFoundError'') | Some b \<Rightarrow> Inr b)) (\<lambda>b.
     bind_fs (open_for_writing True target) (\<lambda>q. copy_loop env q [] 0 (chunks copy_chunk b)))"

text \<open>A tool of a stage, and the verification of its output; the provider is asked each time.\<close>

definition stage_tool :: "transform_env \<Rightarrow> nat \<Rightarrow> command \<Rightarrow> path option \<Rightarrow> bool \<Rightarrow> unit fsop" where
  "stage_tool env k command stdout_path checked =
     bind_fs (check_fs (\<lambda>fs. te_timeout env k)) (\<lambda>timeout.
     bind_fs (run_process (te_process env) command timeout None stdout_path checked) (\<lambda>_. check_fs (\<lambda>fs. Inr ())))"

definition stage_room :: "transform_env \<Rightarrow> path \<Rightarrow> int \<Rightarrow> unit fsop" where
  "stage_room env source extra =
     (if te_capacity env = None then check_fs (\<lambda>fs. Inr ())
      else bind_fs (stat_size env source) (\<lambda>n. check_capacity env (n + extra)))"

definition not_empty :: "path \<Rightarrow> exn \<Rightarrow> unit fsop" where
  "not_empty target e = check_fs (\<lambda>fs. case file_content fs target of
     Some (c # cs) \<Rightarrow> Inr () | _ \<Rightarrow> Inl e)"

definition create_archive :: "transform_env \<Rightarrow> path \<Rightarrow> path \<Rightarrow> archive_format \<Rightarrow> unit fsop" where
  "create_archive env source target kind =
     bind_fs (if kind = Arc_Tar \<and> has_tar_suffix source then cooperative_copy env source target
       else bind_fs (stage_room env source 4096) (\<lambda>_.
            stage_tool env 0 (archive_command kind source target) None (te_capacity env \<noteq> None))) (\<lambda>_.
     bind_fs (stage_tool env 1 (archive_verify kind target) None False) (\<lambda>_.
       not_empty target (PipelineError ''EMPTY_ARCHIVE'' ''archive creation produced an empty container'')))"

definition missing_preset :: exn where
  "missing_preset = PipelineError ''INVALID_COMPRESSION'' ''compression preset is missing''"

definition compress_algorithm ::
  "transform_env \<Rightarrow> path \<Rightarrow> path \<Rightarrow> compression_algorithm \<Rightarrow> compression_preset option \<Rightarrow> unit fsop" where
  "compress_algorithm env source target kind preset =
     (if kind = Alg_None then cooperative_copy env source target
      else case preset of
        None \<Rightarrow> check_fs (\<lambda>fs. Inl missing_preset)
      | Some p \<Rightarrow>
          bind_fs (stage_room env source 4096) (\<lambda>_.
          bind_fs (stage_tool env 0 (algorithm_command kind (te_threads env) (te_memory env)
              (preset_level (algorithm_levels kind) p) source) (Some target) (te_capacity env \<noteq> None)) (\<lambda>_.
          stage_tool env 1 (algorithm_verify kind target) None False)))"

definition compress_format ::
  "transform_env \<Rightarrow> path \<Rightarrow> path \<Rightarrow> compression_format \<Rightarrow> compression_preset option \<Rightarrow> unit fsop" where
  "compress_format env source target kind preset =
     (if kind = Fmt_None then cooperative_copy env source target
      else case preset of
        None \<Rightarrow> check_fs (\<lambda>fs. Inl missing_preset)
      | Some p \<Rightarrow>
          (let (command, stdout_path) = format_command kind (te_threads env) (te_memory env)
              (preset_level (format_levels kind) p) source target
           in bind_fs (stage_room env source 4096) (\<lambda>_.
              bind_fs (stage_tool env 0 command stdout_path (te_capacity env \<noteq> None)) (\<lambda>_.
              bind_fs (stage_tool env 1 (format_verify kind target) None False) (\<lambda>_.
                not_empty target (PipelineError ''EMPTY_ARCHIVE'' ''compression produced an empty archive''))))))"

definition age_header :: string where
  "age_header = ''age-encryption.org/''"

definition encrypt ::
  "transform_env \<Rightarrow> path \<Rightarrow> path \<Rightarrow> encryption_mode \<Rightarrow> string list \<Rightarrow> string option \<Rightarrow> unit fsop" where
  "encrypt env source target mode recipients passphrase =
     (if mode = Enc_None then cooperative_copy env source target
      else if mode = AgePassphrase \<and> passphrase = None
      then check_fs (\<lambda>fs. Inl (PipelineError ''MISSING_SECRET'' ''age passphrase is missing''))
      else let command = (''/usr/bin/age'', age_args mode recipients source target); checked = te_capacity env \<noteq> None
           in bind_fs (stage_room env source 65536) (\<lambda>_.
              bind_fs (if mode = AgePassphrase
                then bind_fs (check_fs (\<lambda>fs. te_timeout env 0)) (\<lambda>timeout.
                     run_age_passphrase (te_process env) command (the passphrase) timeout checked)
                else stage_tool env 0 command None checked) (\<lambda>_.
              bind_fs (check_fs (\<lambda>fs. case file_content fs target of
                  None \<Rightarrow> Inl (OSError ''FileNotFoundError'') | Some b \<Rightarrow> Inr b)) (\<lambda>b.
                check_fs (\<lambda>fs. guard_result (b \<noteq> [] \<and> starts_with age_header (take 32 b))
                  (PipelineError ''INVALID_ENCRYPTION'' ''age output validation failed''))))))"

section \<open>Copies\<close>

lemma concat_chunks: "0 < n \<Longrightarrow> concat (chunks n b) = b"
proof (induction n b rule: chunks.induct)
  case (1 n b)
  then show ?case by (subst chunks.simps) auto
qed

lemma bind_check_Inr:
  "bind_fs (check_fs g) f fs = (Inr b, fs') \<longleftrightarrow> (\<exists>a. g fs = Inr a \<and> f a fs = (Inr b, fs'))"
  by (auto simp: bind_fs_Inr check_fs_Inr)

lemma copy_loop_content:
  "copy_loop env q written k cs fs = (Inr u, fs') \<Longrightarrow> node_at fs q = Some (RegularFile written) \<Longrightarrow>
     node_at fs' q = Some (RegularFile (written @ concat cs)) \<and> (\<forall>p. p \<noteq> q \<longrightarrow> node_at fs' p = node_at fs p)"
proof (induction env q written k cs arbitrary: fs rule: copy_loop.induct)
  case (1 env q written k)
  then show ?case by (auto simp: bind_check_Inr check_capacity_def check_fs_Inr)
next
  case (2 env q written k c cs)
  from 2(2) have "copy_loop env q (written @ c) (Suc k) cs (put_node q (RegularFile (written @ c)) fs) = (Inr u, fs')"
    by (auto simp: bind_check_Inr check_capacity_def)
  from 2(1) [OF this] show ?case by simp
qed

text \<open>The target is a new file with the bytes of the source, and nothing else changed.\<close>

definition copied :: "path \<Rightarrow> path \<Rightarrow> fs \<Rightarrow> fs \<Rightarrow> bool" where
  "copied source target fs fs' \<longleftrightarrow> target \<noteq> [] \<and>
     (let q = resolve fs (butlast target) @ [last target]
      in node_at fs q = None \<and> (\<exists>b. file_content fs source = Some b \<and> node_at fs' q = Some (RegularFile b)) \<and>
         (\<forall>p. p \<noteq> q \<longrightarrow> node_at fs' p = node_at fs p))"

lemma cooperative_copy_copied:
  assumes "cooperative_copy env source target fs = (Inr u, fs')"
  shows "copied source target fs fs'"
proof -
  from assms obtain b q fs1 where b: "file_content fs source = Some b" and o: "open_for_writing True target fs = (Inr q, fs1)"
    and l: "copy_loop env q [] 0 (chunks copy_chunk b) fs1 = (Inr u, fs')"
    by (auto simp: cooperative_copy_def bind_check_Inr bind_fs_Inr check_fs_Inr split: option.splits)
  from o have q: "target \<noteq> []" "q = resolve fs (butlast target) @ [last target]" "node_at fs q = None" "fs1 = put_node q (RegularFile []) fs"
    by (auto simp: open_for_writing_def Let_def resolve_def split: if_splits)
  have "node_at fs' q = Some (RegularFile b) \<and> (\<forall>p. p \<noteq> q \<longrightarrow> node_at fs' p = node_at fs1 p)"
    using copy_loop_content [OF l] q(4) concat_chunks [of copy_chunk b] by (simp add: copy_chunk_def)
  with b q show ?thesis unfolding copied_def Let_def by auto
qed

section \<open>What a stage leaves\<close>

text \<open>The requests of the pipeline, and the command that verifies the output of each.\<close>

datatype transform =
    Archive archive_format
  | CompressWith compression_algorithm "compression_preset option"
  | CompressAs compression_format "compression_preset option"
  | Encrypt encryption_mode "string list" "string option"

fun run_transform :: "transform_env \<Rightarrow> path \<Rightarrow> path \<Rightarrow> transform \<Rightarrow> unit fsop" where
  "run_transform env source target (Archive kind) = create_archive env source target kind"
| "run_transform env source target (CompressWith kind preset) = compress_algorithm env source target kind preset"
| "run_transform env source target (CompressAs kind preset) = compress_format env source target kind preset"
| "run_transform env source target (Encrypt mode recipients passphrase) = encrypt env source target mode recipients passphrase"

text \<open>The verification ran to a successful end, as the last thing that touched the files.\<close>

definition verified_by :: "transform_env \<Rightarrow> command \<Rightarrow> fs \<Rightarrow> bool" where
  "verified_by env command fs' \<longleftrightarrow> (\<exists>fs1.
     tr_code (pe_tool (te_process env) (fst command) (snd command) None fs1) = 0 \<and>
     tr_duration (pe_tool (te_process env) (fst command) (snd command) None fs1) \<noteq> None \<and>
     tr_after (pe_tool (te_process env) (fst command) (snd command) None fs1) = fs')"

definition has_bytes :: "fs \<Rightarrow> path \<Rightarrow> bool" where
  "has_bytes fs p \<longleftrightarrow> file_content fs p \<notin> {None, Some []}"

lemma supervise_Inr:
  "supervise e timeout checked run fs = (Inr code, fs') \<longleftrightarrow>
     (\<exists>d. tr_duration run = Some d \<and> d < timeout \<and> code = tr_code run \<and> fs' = tr_after run \<and>
       (checked \<longrightarrow> find (\<lambda>(t, e). t < d) (tr_refusals run) = None))"
  by (auto simp: supervise_def Let_def split: option.splits if_splits)

lemma stage_tool_verified:
  assumes "stage_tool env k command None False fs = (Inr u, fs')"
  shows "verified_by env command fs'"
  using assms unfolding verified_by_def
  by (auto simp: stage_tool_def bind_check_Inr bind_fs_Inr check_fs_Inr run_process_def supervise_Inr output_to_def Let_def
      split: option.splits if_splits)

lemma not_empty_Inr: "not_empty target e fs = (Inr u, fs') \<longleftrightarrow> fs' = fs \<and> has_bytes fs target"
  by (auto simp: not_empty_def check_fs_def has_bytes_def split: option.splits list.splits)

lemma encrypt_checked:
  assumes "encrypt env source target mode recipients passphrase fs = (Inr u, fs')" and "mode \<noteq> Enc_None"
  shows "(mode = AgePublicKey \<or> passphrase \<noteq> None) \<and>
    (\<exists>b. file_content fs' target = Some b \<and> b \<noteq> [] \<and> starts_with age_header (take 32 b))"
  using assms
  by (auto simp: encrypt_def bind_fs_Inr check_fs_Inr Let_def split: option.splits if_splits) (cases mode; auto)+

text \<open>
  C40. A stage of the pipeline that succeeds leaves output it has checked: an archive or a
  compressed file was verified by its own tool, which ended with success as the last thing that
  ran on the files, and an archive is not empty; an encrypted file is not empty and starts with
  the age header; without compression or encryption the output is a new file with exactly the
  bytes of the input and nothing else changed. A preset or a passphrase that is missing is never
  replaced by a default.
\<close>

theorem stage_output_is_checked:
  assumes "run_transform env source target tr fs = (Inr u, fs')"
  shows "case tr of
      Archive kind \<Rightarrow> verified_by env (archive_verify kind target) fs' \<and> has_bytes fs' target
    | CompressWith kind preset \<Rightarrow>
        if kind = Alg_None then copied source target fs fs'
        else preset \<noteq> None \<and> verified_by env (algorithm_verify kind target) fs'
    | CompressAs kind preset \<Rightarrow>
        if kind = Fmt_None then copied source target fs fs'
        else preset \<noteq> None \<and> verified_by env (format_verify kind target) fs' \<and> has_bytes fs' target
    | Encrypt mode recipients passphrase \<Rightarrow>
        if mode = Enc_None then copied source target fs fs'
        else (mode = AgePublicKey \<or> passphrase \<noteq> None) \<and> has_bytes fs' target \<and>
          starts_with age_header (take 32 (the (file_content fs' target)))"
proof (cases tr)
  case (Archive kind)
  with assms show ?thesis
    by (auto simp: create_archive_def bind_fs_Inr not_empty_Inr stage_tool_verified)
next
  case (CompressWith kind preset)
  with assms show ?thesis
    by (auto simp: compress_algorithm_def bind_fs_Inr check_fs_Inr cooperative_copy_copied stage_tool_verified
        split: option.splits if_splits)
next
  case (CompressAs kind preset)
  with assms show ?thesis
    by (cases "format_command kind (te_threads env) (te_memory env) (preset_level (format_levels kind) (the preset)) source target")
      (auto simp: compress_format_def bind_fs_Inr check_fs_Inr not_empty_Inr cooperative_copy_copied stage_tool_verified
        split: option.splits if_splits)
next
  case (Encrypt mode recipients passphrase)
  show ?thesis
  proof (cases "mode = Enc_None")
    case True
    with assms Encrypt show ?thesis by (auto simp: encrypt_def cooperative_copy_copied)
  next
    case False
    from assms Encrypt have "encrypt env source target mode recipients passphrase fs = (Inr u, fs')" by simp
    from encrypt_checked [OF this False] False show ?thesis unfolding Encrypt by (auto simp: has_bytes_def)
  qed
qed

text \<open>A tool that copies its input argument and always succeeds, for a concrete run.\<close>

definition demo_tool :: "string \<Rightarrow> string list \<Rightarrow> bytes option \<Rightarrow> fs \<Rightarrow> tool_run" where
  "demo_tool exe args stdin fs = \<lparr>tr_code = 0, tr_stdout = ''zzz'', tr_stderr = [], tr_duration = Some 5, tr_refusals = [],
     tr_after = fs, tr_killed = (\<lambda>_. fs)\<rparr>"

definition demo_stage :: transform_env where
  "demo_stage = \<lparr>te_process = \<lparr>pe_spawn = (\<lambda>_. None), pe_tool = demo_tool, pe_dir_size = 4096\<rparr>,
     te_capacity = Some (\<lambda>fs n. guard_result (n \<le> 100000) (PipelineError ''DISK_CAPACITY'' [])),
     te_stop = (\<lambda>_. Inr ()), te_timeout = (\<lambda>_. Inr 60), te_threads = 2, te_memory = 512\<rparr>"

definition demo_work :: fs where
  "demo_work = [([], Directory), ([''w''], Directory), ([''w'', ''source.tar''], RegularFile ''data'')]"

lemma stage_output_is_checked_witness:
  "\<exists>fs'. run_transform demo_stage [''w'', ''source.tar''] [''w'', ''source.tar.zst''] (CompressWith Alg_Zstandard (Some High))
      demo_work = (Inr (), fs') \<and>
     verified_by demo_stage (''/usr/bin/zstd'', [''-q'', ''-t'', ''/w/source.tar.zst'']) fs'"
proof -
  let ?r = "run_transform demo_stage [''w'', ''source.tar''] [''w'', ''source.tar.zst''] (CompressWith Alg_Zstandard (Some High)) demo_work"
  have "\<not> isl (fst ?r)" by code_simp
  then obtain u fs' where r: "?r = (Inr u, fs')" by (cases ?r; cases "fst ?r") auto
  from stage_output_is_checked [OF r] r show ?thesis by (simp add: path_str_def)
qed

text \<open>
  The passphrase reaches age over its private terminal and nowhere else: for tools that do
  not look at what is typed, encryption with any two passphrases runs the same commands, on the
  same files, with the same outcome.
\<close>

lemma passphrase_only_on_terminal:
  assumes "\<And>exe args i j fs. pe_tool (te_process env) exe args i fs = pe_tool (te_process env) exe args j fs"
  shows "encrypt env source target mode recipients (Some p) = encrypt env source target mode recipients (Some q)"
proof -
  have "run_age_passphrase (te_process env) command p timeout checked = run_age_passphrase (te_process env) command q timeout checked"
    for command timeout checked
    unfolding run_age_passphrase_def
    using assms [of "''/usr/bin/setsid''" _ "Some (utf8 p @ [CHR 0x0A] @ utf8 p @ [CHR 0x0A])" _ "Some (utf8 q @ [CHR 0x0A] @ utf8 q @ [CHR 0x0A])"]
    by simp
  then show ?thesis by (simp add: encrypt_def cong: if_cong)
qed

end
