(* ===== verification/Worker.thy ===== *)
theory Worker
  imports Recovery Deadline Transforms Profiles "HOL-Library.AList"
begin

text \<open>
  \<^verbatim>\<open>src/src/pipeline/worker.py\<close>: the orchestration of one backup run over the parts modelled in
  the other theories. The steps of the worker are those of \<^theory_text>\<open>Delivery\<close>: what other sessions commit
  becomes visible at the ownership boundaries. What the worker sets on the run object and the
  boundary that follows reach the database with the next commit, and an exception before it rolls
  them back, so such a group is one write. The acquisition of a source, the deletion of a backup
  on its database server, the tools, the clocks and the free disk space are parameters, indexed by
  the counter of events.
\<close>

section \<open>The worker and its world\<close>

record source_artifact =
  sa_path :: path
  sa_metadata :: "(string \<times> json) list"
  sa_size :: int

text \<open>What one acquisition does: the MSSQL artifact it reports as retrieved, its result, its files.\<close>

record acquisition =
  aq_retrieved :: "(int \<times> string) option"
  aq_result :: "source_artifact result"
  aq_files :: fs

text \<open>
  \<open>wk_interrupt n\<close> is what is raised into the task at the \<open>n\<close>th event, by the heartbeat or by the
  timer of the deadline; \<open>wk_lost n\<close> is whether the heartbeat has by then set \<^verbatim>\<open>lease_lost\<close>;
  \<open>wk_mono n k\<close> is the \<open>k\<close>th reading of the monotonic clock after it.
\<close>

record worker_env =
  wk_delivery :: delivery_env
  wk_owner :: string
  wk_cipher :: aead
  wk_work_root :: path
  wk_runtime :: int
  wk_min_free :: int
  wk_time :: time_env
  wk_interrupt :: "nat \<Rightarrow> exn option"
  wk_lost :: "nat \<Rightarrow> bool"
  wk_mono :: "nat \<Rightarrow> nat \<Rightarrow> time"
  wk_free :: "nat \<Rightarrow> fs \<Rightarrow> int"
  wk_tools :: "nat \<Rightarrow> process_env"
  wk_operation :: "nat \<Rightarrow> string"
  wk_acquire :: "nat \<Rightarrow> profile \<Rightarrow> path \<Rightarrow> string \<Rightarrow> fs \<Rightarrow> acquisition"
  wk_remote_delete :: "nat \<Rightarrow> mssql_cleanup \<Rightarrow> profile \<Rightarrow> exn option"
  wk_same_device :: bool
  wk_finalize_stop :: "nat \<Rightarrow> exn option"

abbreviation files_env :: "worker_env \<Rightarrow> file_env" where
  "files_env env \<equiv> dv_files (wk_delivery env)"

definition tick_step :: "(nat \<Rightarrow> delivery_state \<Rightarrow> 'a result) \<Rightarrow> 'a step" where
  "tick_step f s = (f (ds_tick s) s, s\<lparr>ds_tick := ds_tick s + 1\<rparr>)"

definition await :: "worker_env \<Rightarrow> unit step" where
  "await env = tick_step (\<lambda>n s. case wk_interrupt env n of None \<Rightarrow> Inr () | Some e \<Rightarrow> Inl e)"

definition other_commits :: "worker_env \<Rightarrow> unit step" where
  "other_commits env s = (Inr (), s\<lparr>ds_db := dv_others (wk_delivery env) (ds_tick s) (ds_db s), ds_tick := ds_tick s + 1\<rparr>)"

definition on_files :: "(fs \<Rightarrow> 'a result \<times> fs) \<Rightarrow> 'a step" where
  "on_files m s = (case m (ds_fs s) of (res, fs') \<Rightarrow> (res, s\<lparr>ds_fs := fs'\<rparr>))"

definition transact :: "'a op \<Rightarrow> 'a step" where
  "transact f s = (case f (ds_db s) of (Inl e, _) \<Rightarrow> (Inl e, s) | (Inr a, d) \<Rightarrow> (Inr a, s\<lparr>ds_db := d\<rparr>))"

definition clock :: "worker_env \<Rightarrow> time step" where
  "clock env = now_step (wk_delivery env)"

definition ownership_boundary :: "worker_env \<Rightarrow> int \<Rightarrow> unit step" where
  "ownership_boundary env i =
     bind_step (await env) (\<lambda>_. cancel_boundary (wk_delivery env) i (Some (wk_owner env)) True)"

text \<open>A commit of attributes of the run, which also moves its \<^verbatim>\<open>updated_at\<close>.\<close>

definition save_run :: "worker_env \<Rightarrow> int \<Rightarrow> (run \<Rightarrow> run) \<Rightarrow> unit step" where
  "save_run env i f =
     bind_step (clock env) (\<lambda>t. writes (update_run i (\<lambda>q. (f q)\<lparr>r_updated := t\<rparr>)))"

definition enter_stage :: "worker_env \<Rightarrow> int \<Rightarrow> run_stage \<Rightarrow> unit step" where
  "enter_stage env i st =
     bind_step (ownership_boundary env i) (\<lambda>_. save_run env i (\<lambda>q. q\<lparr>r_stage := st\<rparr>))"

definition persist_acquisition :: "worker_env \<Rightarrow> int \<Rightarrow> (string \<times> json) list \<Rightarrow> int \<Rightarrow> unit step" where
  "persist_acquisition env i metadata sz =
     bind_step (lift_result (guard_result (0 \<le> sz)
       (RuntimeError ''source acquisition did not report a valid logical size''))) (\<lambda>_.
     bind_step (ownership_boundary env i) (\<lambda>_.
       save_run env i (\<lambda>q. q\<lparr>r_metadata := Some (JObj metadata), r_original_size := Some sz,
         r_stage := StVerifySource\<rparr>)))"

definition remove_run_workspace :: "worker_env \<Rightarrow> string \<Rightarrow> unit step" where
  "remove_run_workspace env uuid =
     bind_step (await env) (\<lambda>_. on_files (remove_workspace (wk_work_root env) uuid))"

definition check_deadline :: "worker_env \<Rightarrow> time \<Rightarrow> unit step" where
  "check_deadline env expires =
     tick_step (\<lambda>n s. bind_result (deadline_remaining expires (wk_mono env n 0)) (\<lambda>_. Inr ()))"

definition processing_disk :: "worker_env \<Rightarrow> time \<Rightarrow> nat \<Rightarrow> fs \<Rightarrow> int \<Rightarrow> unit result" where
  "processing_disk env expires n fs required =
     bind_result (deadline_remaining expires (wk_mono env n 0)) (\<lambda>_.
       ensure_disk_capacity (wk_free env n fs) (wk_min_free env) required)"

definition check_processing_disk :: "worker_env \<Rightarrow> time \<Rightarrow> unit step" where
  "check_processing_disk env expires = tick_step (\<lambda>n s. processing_disk env expires n (ds_fs s) 0)"

section \<open>Cleaning up MSSQL backups\<close>

definition mssql_execution_path :: "string \<Rightarrow> string \<Rightarrow> string" where
  "mssql_execution_path p operation =
     (let suffix = (if ends_with ''.bak'' (map lower_char p) then ''.bak'' else [])
      in take (length p - length suffix) p @ ''.'' @ operation @ suffix)"

definition cleanup_refused :: "string \<Rightarrow> exn" where
  "cleanup_refused = PipelineError ''MSSQL_CLEANUP_REFUSED''"

definition mssql_visible_path :: "database_source \<Rightarrow> string \<Rightarrow> string result" where
  "mssql_visible_path x operation =
     (if length operation \<noteq> 32 \<or> \<not> list_all is_hex operation
      then Inl (cleanup_refused ''MSSQL cleanup fence is invalid'')
      else case (if d_in_docker x then d_host_path x else d_backup_path x) of
        None \<Rightarrow> Inl (cleanup_refused ''MSSQL cleanup requires a configured .bak path'')
      | Some base \<Rightarrow>
          if \<not> ends_with ''.bak'' (map lower_char base)
          then Inl (cleanup_refused ''MSSQL cleanup requires a configured .bak path'')
          else if pp_root (pure_path base) = [] \<or> ''..'' \<in> set (pp_segments (pure_path base)) \<or>
            path_text (pure_path base) \<noteq> base
          then Inl (cleanup_refused ''MSSQL cleanup path is unsafe'')
          else Inr (mssql_execution_path base operation))"

text \<open>
  One record of the run: refused, or deleted on its server between two ownership boundaries. The
  result is the warning it leaves.
\<close>

definition remote_deletion :: "worker_env \<Rightarrow> mssql_cleanup \<Rightarrow> profile \<Rightarrow> exn option step" where
  "remote_deletion env c p = tick_step (\<lambda>n s. Inr (wk_remote_delete env n c p))"

definition cleanup_record :: "worker_env \<Rightarrow> int \<Rightarrow> profile \<Rightarrow> string \<Rightarrow> string option step" where
  "cleanup_record env i p operation =
     bind_step (asks (\<lambda>d. find (\<lambda>c. c_operation c = operation) (cleanups d))) (\<lambda>row.
       case row of None \<Rightarrow> lift_result (Inl (RuntimeError ''MSSQL cleanup record is unavailable''))
       | Some c \<Rightarrow>
           if \<not> cleanup_allowed c p \<or> c_retrieved c = None
           then bind_step (writes (update_cleanup operation (cleanup_note ''MSSQL_CLEANUP_REFUSED''))) (\<lambda>_.
                  pure (Some ''MSSQL_CLEANUP_REFUSED''))
           else bind_step (ownership_boundary env i) (\<lambda>_.
                bind_step (remote_deletion env c p) (\<lambda>out.
                bind_step (if out = None then ownership_boundary env i else pure ()) (\<lambda>_.
                bind_step (clock env) (\<lambda>t.
                bind_step (lift_result (cleanup_outcome t out)) (\<lambda>f.
                bind_step (writes (update_cleanup operation f)) (\<lambda>_. pure (c_error (f c)))))))))"

definition cleanup_previous :: "worker_env \<Rightarrow> int \<Rightarrow> profile \<Rightarrow> unit step" where
  "cleanup_previous env i p =
     bind_step (asks (\<lambda>d. filter (\<lambda>c. c_run c = i \<and> orphan_candidate c) (cleanups d))) (\<lambda>cs.
       each_step (\<lambda>c. bind_step (cleanup_record env i p (c_operation c)) (\<lambda>_. pure ())) cs)"

definition new_cleanup :: "int \<Rightarrow> string \<Rightarrow> string \<Rightarrow> int option \<Rightarrow> mssql_cleanup" where
  "new_cleanup i operation p server =
     \<lparr>c_run = i, c_operation = operation, c_path = p, c_server_id = server, c_retrieved = None,
      c_size = None, c_sha = None, c_cleaned = None, c_error = None\<rparr>"

definition record_retrieval :: "worker_env \<Rightarrow> int \<Rightarrow> string \<Rightarrow> int \<Rightarrow> string \<Rightarrow> unit step" where
  "record_retrieval env i operation sz checksum =
     bind_step (ownership_boundary env i) (\<lambda>_.
     bind_step (clock env) (\<lambda>t.
       writes (update_cleanup operation (\<lambda>c. c\<lparr>c_retrieved := Some t, c_size := Some sz,
         c_sha := Some checksum, c_error := None\<rparr>))))"

section \<open>Building the artifact\<close>

definition begin_run :: "worker_env \<Rightarrow> run \<Rightarrow> unit step" where
  "begin_run env r =
     bind_step (ownership_boundary env (r_id r)) (\<lambda>_.
     bind_step (clock env) (\<lambda>t.
     bind_step (save_run env (r_id r) (\<lambda>q. q\<lparr>r_status := Running,
         r_started := Some (case r_started r of None \<Rightarrow> t | Some u \<Rightarrow> u), r_stage := StBackup\<rparr>)) (\<lambda>_.
       if r_status r = Queued
       then writes (record_run_transition ''started'' (r_id r) Running StBackup None) else pure ())))"

definition prepare_workspace :: "worker_env \<Rightarrow> run \<Rightarrow> time \<Rightarrow> workspace step" where
  "prepare_workspace env r expires =
     bind_step (remove_run_workspace env (r_uuid r)) (\<lambda>_.
     bind_step (on_files (create_workspace (wk_work_root env) (r_uuid r))) (\<lambda>ws.
     bind_step (save_run env (r_id r) (\<lambda>q. q\<lparr>r_workspace := Some (ws_root ws)\<rparr>)) (\<lambda>_.
     bind_step (check_processing_disk env expires) (\<lambda>_. pure ws))))"

text \<open>The settings row, created with its defaults when it is missing, goes with the next commit.\<close>

definition store_settings :: "db \<Rightarrow> db" where
  "store_settings d = snd (get_settings d)"

definition acquired :: "worker_env \<Rightarrow> profile \<Rightarrow> path \<Rightarrow> string \<Rightarrow> acquisition step" where
  "acquired env p target operation s =
     (let aq = wk_acquire env (ds_tick s) p target operation (ds_fs s)
      in (Inr aq, s\<lparr>ds_fs := aq_files aq, ds_tick := ds_tick s + 1\<rparr>))"

definition acquire_source :: "worker_env \<Rightarrow> int \<Rightarrow> profile \<Rightarrow> workspace \<Rightarrow> string \<Rightarrow> bool \<Rightarrow> source_artifact step" where
  "acquire_source env i p ws operation recorded =
     bind_step (await env) (\<lambda>_.
     bind_step (acquired env p (ws_raw ws @ [''source'']) operation) (\<lambda>aq.
     bind_step (case aq_retrieved aq of
         Some (n, checksum) \<Rightarrow> if recorded then record_retrieval env i operation n checksum else pure ()
       | None \<Rightarrow> pure ()) (\<lambda>_. lift_result (aq_result aq))))"

definition note_cleanup :: "string option \<Rightarrow> (string \<times> json) list \<Rightarrow> (string \<times> json) list" where
  "note_cleanup warning m = (case warning of
       None \<Rightarrow> AList.update ''server_artifact_cleanup'' (JStr ''succeeded'') m
     | Some w \<Rightarrow> AList.update ''server_artifact_cleanup_error'' (JStr w)
         (AList.update ''server_artifact_cleanup'' (JStr ''warning'') m))"

definition mssql_source :: "profile \<Rightarrow> database_source option" where
  "mssql_source p = (case p_database p of None \<Rightarrow> None | Some x \<Rightarrow> if d_engine x = MSSQL then Some x else None)"

definition fetch_source :: "worker_env \<Rightarrow> int \<Rightarrow> profile \<Rightarrow> workspace \<Rightarrow> source_artifact step" where
  "fetch_source env i p ws =
     bind_step (tick_step (\<lambda>n s. Inr (wk_operation env n))) (\<lambda>operation.
       case mssql_source p of
         None \<Rightarrow> acquire_source env i p ws operation False
       | Some x \<Rightarrow>
           bind_step (cleanup_previous env i p) (\<lambda>_.
           bind_step (lift_result (mssql_visible_path x operation)) (\<lambda>visible.
           bind_step (writes (\<lambda>d. (store_settings d)\<lparr>cleanups := cleanups d @
               [new_cleanup i operation visible (d_server_id x)]\<rparr>)) (\<lambda>_.
           bind_step (acquire_source env i p ws operation True) (\<lambda>src.
           bind_step (cleanup_record env i p operation) (\<lambda>warning.
             pure (src\<lparr>sa_metadata := note_cleanup warning (sa_metadata src)\<rparr>)))))))"

text \<open>
  The formats of a profile; a row from before the split formats has them in its legacy format, and
  a source that is compressed by its server is not compressed again.
\<close>

fun json_truthy :: "json \<Rightarrow> bool" where
  "json_truthy JNull = False"
| "json_truthy (JBool b) = b"
| "json_truthy (JInt n) = (n \<noteq> 0)"
| "json_truthy (JStr s) = (s \<noteq> [])"
| "json_truthy (JList js) = (js \<noteq> [])"
| "json_truthy (JObj m) = (m \<noteq> [])"

definition native_compression :: "(string \<times> json) list \<Rightarrow> bool" where
  "native_compression m = (case map_of m ''native_compression'' of None \<Rightarrow> False | Some j \<Rightarrow> json_truthy j)"

definition compression_plan ::
  "profile \<Rightarrow> bool \<Rightarrow> archive_format \<times> compression_algorithm \<times> compression_preset option" where
  "compression_plan p native =
     (let legacy = \<lparr>cc_format = p_format p, cc_preset = p_preset p, cc_archive = None, cc_override = None\<rparr>;
          old = p_archive p = Arc_Tar \<and> p_algorithm p = Alg_Zstandard \<and> p_format p \<noteq> Fmt_Zstandard;
          archive = (if old then config_archive_format legacy else p_archive p);
          algorithm = (if old then config_algorithm legacy else p_algorithm p)
      in if native then (archive, Alg_None, None) else (archive, algorithm, p_preset p))"

definition age_passphrase :: "worker_env \<Rightarrow> profile \<Rightarrow> string option result" where
  "age_passphrase env p = (case p_age_secret p of
       Some (c # cs) \<Rightarrow> bind_result (decrypt_secret (wk_cipher env) (c # cs) ''backup-age-passphrase-v1'') (\<lambda>s. Inr (Some s))
     | _ \<Rightarrow> Inr None)"

text \<open>\<^verbatim>\<open>tuple(json.loads(...))\<close>, whose members the command line requires to be strings.\<close>

fun json_strings :: "json list \<Rightarrow> string list result" where
  "json_strings [] = Inr []"
| "json_strings (JStr s # js) = bind_result (json_strings js) (\<lambda>ws. Inr (s # ws))"
| "json_strings (_ # js) = Inl (TypeError ''expected str, bytes or os.PathLike object'')"

fun json_tuple :: "json \<Rightarrow> string list result" where
  "json_tuple (JList js) = json_strings js"
| "json_tuple (JStr s) = Inr (map (\<lambda>c. [c]) s)"
| "json_tuple (JObj m) = Inr (map fst m)"
| "json_tuple _ = Inl (TypeError ''object is not iterable'')"

definition age_recipients :: "worker_env \<Rightarrow> profile \<Rightarrow> string list result" where
  "age_recipients env p = bind_result (json_load (files_env env)
     (utf8 (case p_recipients p of Some (c # cs) \<Rightarrow> c # cs | _ \<Rightarrow> ''[]''))) json_tuple"

definition stage_env :: "worker_env \<Rightarrow> time \<Rightarrow> system_settings \<Rightarrow> nat \<Rightarrow> transform_env" where
  "stage_env env expires st n =
     \<lparr>te_process = wk_tools env n, te_capacity = Some (processing_disk env expires n),
      te_stop = (\<lambda>k. bind_result (deadline_remaining expires (wk_mono env n k)) (\<lambda>_. Inr ())),
      te_timeout = (\<lambda>k. deadline_remaining expires (wk_mono env n k)),
      te_threads = st_threads st, te_memory = st_memory st\<rparr>"

definition transform_step ::
  "worker_env \<Rightarrow> time \<Rightarrow> system_settings \<Rightarrow> path \<Rightarrow> path \<Rightarrow> transform \<Rightarrow> unit step" where
  "transform_step env expires st source target tr =
     bind_step (check_deadline env expires) (\<lambda>_.
     bind_step (await env) (\<lambda>_ s.
       on_files (run_transform (stage_env env expires st (ds_tick s)) source target tr)
         (s\<lparr>ds_tick := ds_tick s + 1\<rparr>)))"

definition transform_source ::
  "worker_env \<Rightarrow> int \<Rightarrow> profile \<Rightarrow> workspace \<Rightarrow> time \<Rightarrow> system_settings \<Rightarrow> source_artifact \<Rightarrow>
     (path \<times> string \<times> (string \<times> json) list) step" where
  "transform_source env i p ws expires st src =
     (let native = native_compression (sa_metadata src);
          (archive, algorithm, preset) = compression_plan p native;
          metadata = (if native then AList.update ''secondary_compression_skipped'' (JBool True) (sa_metadata src)
            else sa_metadata src);
          suffixes = archive_extension archive @ algorithm_extension algorithm;
          extensions = suffixes @ (if p_encryption p \<noteq> Enc_None then ''.age'' else []);
          archived = ws_staging ws @ [''source'' @ archive_extension archive];
          compressed = (if algorithm = Alg_None then archived else ws_staging ws @ [''source'' @ suffixes]);
          target = ws_final ws @ [''artifact'' @ extensions]
      in bind_step (transform_step env expires st (sa_path src) archived (Archive archive)) (\<lambda>_.
         bind_step (if algorithm = Alg_None then pure ()
           else transform_step env expires st archived compressed (CompressWith algorithm preset)) (\<lambda>_.
         bind_step (enter_stage env i StEncrypt) (\<lambda>_.
         bind_step (if native then save_run env i (\<lambda>q. q\<lparr>r_metadata := Some (JObj metadata)\<rparr>) else pure ()) (\<lambda>_.
         bind_step (lift_result (age_passphrase env p)) (\<lambda>passphrase.
         bind_step (lift_result (age_recipients env p)) (\<lambda>recipients.
         bind_step (transform_step env expires st compressed target
             (Encrypt (p_encryption p) recipients passphrase)) (\<lambda>_.
           pure (target, extensions, metadata)))))))))"

section \<open>Publishing the artifact\<close>

definition artifact_free :: "db \<Rightarrow> int \<Rightarrow> artifact_kind \<Rightarrow> bool" where
  "artifact_free d i kind \<longleftrightarrow> \<not> list_ex (\<lambda>a. af_run a = i \<and> af_kind a = kind) (artifacts d)"

definition final_row :: "int \<Rightarrow> finalized \<Rightarrow> artifact" where
  "final_row i fin = \<lparr>af_run = i, af_kind = FinalArtifact, af_path = path_name (fa_artifact fin),
     af_size = int (fa_size fin), af_sha = fa_checksum fin\<rparr>"

definition manifest_row :: "int \<Rightarrow> int \<times> string \<Rightarrow> artifact" where
  "manifest_row i facts = \<lparr>af_run = i, af_kind = ManifestArtifact, af_path = ''manifest.json'',
     af_size = fst facts, af_sha = snd facts\<rparr>"

definition pending_delivery :: "finalized \<Rightarrow> time \<Rightarrow> run \<Rightarrow> run" where
  "pending_delivery fin t q = q\<lparr>r_filename := Some (path_name (fa_artifact fin)),
     r_final_size := Some (int (fa_size fin)), r_sha := Some (fa_checksum fin),
     r_status := DeliveryPending, r_stage := StPendingDelivery, r_updated := t\<rparr>"

definition publish_run :: "int \<Rightarrow> time \<Rightarrow> finalized \<Rightarrow> int \<times> string \<Rightarrow> unit op" where
  "publish_run i t fin facts d =
     (if \<not> artifact_free d i FinalArtifact \<or> \<not> artifact_free d i ManifestArtifact then (Inl IntegrityError, d)
      else (Inr (), record_run_transition ''delivery_pending'' i DeliveryPending StPendingDelivery None
        (update_run i (\<lambda>q. (pending_delivery fin t q)\<lparr>r_pending_dir := Some (fa_directory fin)\<rparr>)
          (d\<lparr>artifacts := artifacts d @ [final_row i fin, manifest_row i facts]\<rparr>))))"

definition manifest_facts :: "worker_env \<Rightarrow> finalized \<Rightarrow> (int \<times> string) step" where
  "manifest_facts env fin =
     bind_step (await env) (\<lambda>_ s. (case file_content (ds_fs s) (fa_manifest fin) of
         None \<Rightarrow> Inl (OSError ''FileNotFoundError'')
       | Some b \<Rightarrow> Inr (int (length b), sha256_hex (files_env env) b), s))"

definition finalize_step ::
  "worker_env \<Rightarrow> run \<Rightarrow> profile \<Rightarrow> zone \<Rightarrow> time \<Rightarrow> string \<Rightarrow> path \<Rightarrow> (string \<times> json) list \<Rightarrow> int \<Rightarrow> finalized step" where
  "finalize_step env r p z now filename source metadata sz s =
     on_files (finalize_artifact (files_env env)
       \<lparr>fz_source = source, fz_root = dv_root (wk_delivery env), fz_profile = p_name p, fz_uuid = r_uuid r,
        fz_zone = z, fz_now = now, fz_filename = filename, fz_metadata = metadata,
        fz_max = dv_max_bytes (wk_delivery env), fz_original = Some sz,
        fz_same_device = wk_same_device env, fz_interrupt = wk_finalize_stop env (ds_tick s)\<rparr>)
       (s\<lparr>ds_tick := ds_tick s + 1\<rparr>)"

text \<open>What both ways to a published artifact end with.\<close>

definition leave_workspace :: "worker_env \<Rightarrow> run \<Rightarrow> time \<Rightarrow> unit step" where
  "leave_workspace env r expires =
     bind_step (remove_run_workspace env (r_uuid r)) (\<lambda>_.
     bind_step (save_run env (r_id r) (\<lambda>q. q\<lparr>r_workspace := None\<rparr>)) (\<lambda>_.
       check_deadline env expires))"

text \<open>The place in the spool is recorded before anything is put there.\<close>

definition reserve_spool ::
  "worker_env \<Rightarrow> run \<Rightarrow> profile \<Rightarrow> time \<Rightarrow> system_settings \<Rightarrow> string \<Rightarrow> (zone \<times> time \<times> string) step" where
  "reserve_spool env r p expires st extensions =
     bind_step (check_processing_disk env expires) (\<lambda>_.
     bind_step (enter_stage env (r_id r) StChecksum) (\<lambda>_.
     bind_step (clock env) (\<lambda>now.
     bind_step (lift_result (zone_of (wk_time env) (st_timezone st))) (\<lambda>z.
     bind_step (enter_stage env (r_id r) StFinalize) (\<lambda>_.
     bind_step (check_processing_disk env expires) (\<lambda>_.
     let filename = artifact_filename (p_name p) z now extensions;
         intended = pending_directory_path (dv_root (wk_delivery env)) (p_name p) (r_uuid r) z now
     in bind_step (save_run env (r_id r) (\<lambda>q. q\<lparr>r_pending_dir := Some intended, r_filename := Some filename\<rparr>)) (\<lambda>_.
        bind_step (await env) (\<lambda>_. pure (z, now, filename)))))))))"

definition record_artifact :: "worker_env \<Rightarrow> run \<Rightarrow> time \<Rightarrow> finalized \<Rightarrow> unit step" where
  "record_artifact env r expires fin =
     bind_step (ownership_boundary env (r_id r)) (\<lambda>_.
     bind_step (manifest_facts env fin) (\<lambda>facts.
     bind_step (ownership_boundary env (r_id r)) (\<lambda>_.
     bind_step (clock env) (\<lambda>t.
     bind_step (transact (publish_run (r_id r) t fin facts)) (\<lambda>_.
       leave_workspace env r expires)))))"

definition publish_artifact ::
  "worker_env \<Rightarrow> run \<Rightarrow> profile \<Rightarrow> time \<Rightarrow> system_settings \<Rightarrow> int \<Rightarrow> path \<times> string \<times> (string \<times> json) list \<Rightarrow> unit step" where
  "publish_artifact env r p expires st sz built =
     (case built of (source, extensions, metadata) \<Rightarrow>
       bind_step (reserve_spool env r p expires st extensions) (\<lambda>(z, now, filename).
       bind_step (finalize_step env r p z now filename source metadata sz) (\<lambda>fin.
         record_artifact env r expires fin)))"

text \<open>
  \<^verbatim>\<open>_resume_finalized\<close>: an artifact that an earlier attempt published is verified and taken over.
  Unlike everywhere else, no ownership boundary precedes the commit.
\<close>

definition resume_published :: "run \<Rightarrow> time \<Rightarrow> finalized \<Rightarrow> (string \<times> json) list \<Rightarrow> int \<times> string \<Rightarrow> db \<Rightarrow> db" where
  "resume_published r t fin metadata facts d =
     (let d1 = update_run (r_id r) (\<lambda>q. (pending_delivery fin t q)\<lparr>
            r_original_size := (case fa_original fin of None \<Rightarrow> r_original_size q | Some k \<Rightarrow> Some k),
            r_metadata := Some (JObj metadata)\<rparr>)
          (d\<lparr>artifacts := artifacts d @
            (if artifact_free d (r_id r) FinalArtifact then [final_row (r_id r) fin] else []) @
            (if artifact_free d (r_id r) ManifestArtifact then [manifest_row (r_id r) facts] else [])\<rparr>)
      in if r_status r = DeliveryPending then d1
         else record_run_transition ''delivery_pending'' (r_id r) DeliveryPending StPendingDelivery None d1)"

definition resume_finalized :: "worker_env \<Rightarrow> run \<Rightarrow> time \<Rightarrow> bool step" where
  "resume_finalized env r expires =
     bind_step (check_deadline env expires) (\<lambda>_.
       case r_pending_dir r of None \<Rightarrow> pure False
       | Some pending \<Rightarrow>
           bind_step (await env) (\<lambda>_.
           bind_step (\<lambda>s. (recover_finalized (files_env env) (ds_fs s) (dv_root (wk_delivery env)) pending (r_uuid r), s)) (\<lambda>found.
           bind_step (other_commits env) (\<lambda>_.
             case found of
               None \<Rightarrow> bind_step (save_run env (r_id r) (\<lambda>q. q\<lparr>r_pending_dir := None, r_filename := None\<rparr>)) (\<lambda>_. pure False)
             | Some (fin, metadata) \<Rightarrow>
                 if fa_original fin \<noteq> None \<and> r_original_size r \<noteq> None \<and> r_original_size r \<noteq> fa_original fin
                 then lift_result (Inl (invalid_manifest ''original backup size changed during recovery''))
                 else bind_step (asks (\<lambda>d. artifact_free d (r_id r) ManifestArtifact)) (\<lambda>wanted.
                      bind_step (if wanted then manifest_facts env fin else pure (0, [])) (\<lambda>facts.
                      bind_step (clock env) (\<lambda>t.
                      bind_step (writes (resume_published r t fin metadata facts)) (\<lambda>_.
                      bind_step (leave_workspace env r expires) (\<lambda>_. pure True)))))))))"

section \<open>A run from its claim to its end\<close>

text \<open>\<^verbatim>\<open>_build\<close>, on the run as loaded; the result is whether an earlier artifact was taken over.\<close>

definition source_ready :: "fs \<Rightarrow> path \<Rightarrow> bool" where
  "source_ready fs p \<longleftrightarrow> file_content fs p \<notin> {None, Some []}"

definition build_artifact :: "worker_env \<Rightarrow> run \<Rightarrow> profile \<Rightarrow> time \<Rightarrow> workspace \<Rightarrow> system_settings \<Rightarrow> unit step" where
  "build_artifact env r p expires ws st =
     bind_step (fetch_source env (r_id r) p ws) (\<lambda>src.
     bind_step (persist_acquisition env (r_id r) (sa_metadata src) (sa_size src)) (\<lambda>_.
     bind_step (writes store_settings) (\<lambda>_.
     bind_step (check_processing_disk env expires) (\<lambda>_.
     bind_step (\<lambda>s. (guard_result (source_ready (ds_fs s) (sa_path src)) (ValueError ''source backup is empty''), s)) (\<lambda>_.
     bind_step (enter_stage env (r_id r) StCompress) (\<lambda>_.
     bind_step (transform_source env (r_id r) p ws expires st src) (\<lambda>built.
       publish_artifact env r p expires st (sa_size src) built)))))))"

definition build :: "worker_env \<Rightarrow> run \<Rightarrow> time \<Rightarrow> bool step" where
  "build env r expires =
     bind_step (asks (\<lambda>d. run_configuration d r)) (\<lambda>config.
     bind_step (lift_result config) (\<lambda>p.
     bind_step (resume_finalized env r expires) (\<lambda>resumed.
     if resumed then pure True
     else bind_step (begin_run env r) (\<lambda>_.
          bind_step (prepare_workspace env r expires) (\<lambda>ws.
          bind_step (asks (\<lambda>d. fst (get_settings d))) (\<lambda>st.
          bind_step (build_artifact env r p expires ws st) (\<lambda>_. pure False)))))))"

text \<open>The body of \<^verbatim>\<open>execute\<close>. The object keeps the lease owner it was last refreshed with.\<close>

definition refreshed :: "worker_env \<Rightarrow> run \<Rightarrow> bool \<Rightarrow> run \<Rightarrow> run" where
  "refreshed env r resumed q = q\<lparr>r_lease_owner := (if resumed then r_lease_owner r else Some (wk_owner env))\<rparr>"

definition make_deadline :: "worker_env \<Rightarrow> run \<Rightarrow> time step" where
  "make_deadline env r = bind_step (clock env) (\<lambda>wall.
     tick_step (\<lambda>n s. Inr (run_deadline (wk_runtime env) (r_started r) wall (wk_mono env n 0))))"

definition work_on :: "worker_env \<Rightarrow> int \<Rightarrow> unit step" where
  "work_on env i =
     bind_step (asks (\<lambda>d. run_by_id d i)) (\<lambda>row.
       case row of None \<Rightarrow> lift_result (Inl (ValueError ''run disappeared''))
       | Some r \<Rightarrow>
           if r_cancel r then lift_result (Inl CancelledError)
           else if r_status r = DeliveryPending
           then bind_step (attempt (wk_delivery env) r) (\<lambda>_. pure ())
           else bind_step (make_deadline env r) (\<lambda>expires.
                bind_step (check_deadline env expires) (\<lambda>_.
                bind_step (build env r expires) (\<lambda>resumed.
                bind_step (asks (\<lambda>d. run_by_id d i)) (\<lambda>again.
                  case again of None \<Rightarrow> lift_result (Inl (RuntimeError ''run disappeared''))
                  | Some q \<Rightarrow> bind_step (attempt (wk_delivery env) (refreshed env r resumed q)) (\<lambda>_. pure ()))))))"

section \<open>When a run fails or is cancelled\<close>

definition delivery_ending_codes :: "string list" where
  "delivery_ending_codes = [''PENDING_ARTIFACT_MISSING'', ''PENDING_CHECKSUM_MISMATCH'', ''UPLOAD_LIMIT'',
     ''INVALID_MANIFEST'', ''INVALID_PENDING_PATH'']"

definition failed_row :: "time \<Rightarrow> run \<Rightarrow> run" where
  "failed_row t q = (drop_lease q)\<lparr>r_status := Failed, r_stage := StComplete, r_finished := Some t\<rparr>"

definition fail_row :: "worker_env \<Rightarrow> time \<Rightarrow> string \<Rightarrow> string \<Rightarrow> run \<Rightarrow> run" where
  "fail_row env t code msg q =
     (let ended = (if r_status q \<noteq> DeliveryPending then (failed_row t q)\<lparr>r_workspace := None\<rparr>
            else if code \<in> set delivery_ending_codes then failed_row t q else drop_lease q)
      in ended\<lparr>r_error_code := Some code, r_error_message := Some (take 2000 msg),
           r_cleanup_at := (if r_status ended = Failed \<and> r_pending_dir q \<noteq> None
             then Some (t + seconds (dv_retention (wk_delivery env))) else r_cleanup_at q),
           r_updated := t\<rparr>)"

text \<open>\<^verbatim>\<open>_fail\<close>: reading the row and committing it is one step.\<close>

definition fail :: "worker_env \<Rightarrow> int \<Rightarrow> string \<Rightarrow> string \<Rightarrow> unit step" where
  "fail env i raw_code msg =
     bind_step (other_commits env) (\<lambda>_.
     bind_step (asks (\<lambda>d. run_by_id d i)) (\<lambda>row.
       case row of None \<Rightarrow> pure ()
       | Some r \<Rightarrow>
           if \<not> active r \<or> r_lease_owner r \<noteq> Some (wk_owner env) then pure ()
           else bind_step (if r_status r = DeliveryPending then pure ()
               else on_files (remove_workspace (wk_work_root env) (r_uuid r))) (\<lambda>_.
             bind_step (clock env) (\<lambda>t.
             let code = take 64 raw_code; after_row = fail_row env t code msg r
             in writes (\<lambda>d. (if r_status after_row = Failed
                   then record_run_transition ''failed'' i Failed StComplete (Some code) else (\<lambda>d. d))
                  (update_run i (fail_row env t code msg) d))))))"

text \<open>\<^verbatim>\<open>except Exception\<close> around a deletion: whether it succeeded.\<close>

definition try_files :: "(fs \<Rightarrow> unit result \<times> fs) \<Rightarrow> bool step" where
  "try_files m s = (case m (ds_fs s) of (res, fs') \<Rightarrow> (Inr (res = Inr ()), s\<lparr>ds_fs := fs'\<rparr>))"

definition clear_cancelled_paths :: "cancellation_cleanup \<Rightarrow> bool \<Rightarrow> bool \<Rightarrow> run \<Rightarrow> run" where
  "clear_cancelled_paths c workspace_cleaned pending_cleaned q =
     q\<lparr>r_workspace := (if workspace_cleaned \<and> r_workspace q = cc_workspace c then None else r_workspace q),
       r_pending_dir := (if pending_cleaned \<and> r_pending_dir q = cc_pending c then None else r_pending_dir q)\<rparr>"

definition orphan_cleanup :: "worker_env \<Rightarrow> unit step" where
  "orphan_cleanup env =
     bind_step (clock env) (\<lambda>now s.
       transact (cleanup_orphaned_mssql_artifacts True now (wk_remote_delete env (ds_tick s)))
         (s\<lparr>ds_tick := ds_tick s + 1\<rparr>))"

text \<open>The files of a run just cancelled; what could not be deleted stays recorded.\<close>

definition clean_cancelled :: "worker_env \<Rightarrow> int \<Rightarrow> cancellation_cleanup \<Rightarrow> unit step" where
  "clean_cancelled env i c =
     bind_step (case cc_workspace c of None \<Rightarrow> pure True
       | Some _ \<Rightarrow> try_files (remove_workspace (wk_work_root env) (cc_uuid c))) (\<lambda>workspace_cleaned.
     bind_step (case cc_pending c of None \<Rightarrow> pure True
       | Some pending \<Rightarrow> try_files (\<lambda>fs. if path_exists fs pending
           then remove_owned_directory (dv_root (wk_delivery env)) pending (cc_uuid c) fs else (Inr (), fs))) (\<lambda>pending_cleaned.
     bind_step (other_commits env) (\<lambda>_.
     bind_step (asks (\<lambda>d. run_by_id d i)) (\<lambda>row.
     bind_step (if (workspace_cleaned \<or> pending_cleaned) \<and>
         (case row of None \<Rightarrow> False | Some q \<Rightarrow> r_status q = Cancelled)
       then save_run env i (clear_cancelled_paths c workspace_cleaned pending_cleaned) else pure ()) (\<lambda>_.
       orphan_cleanup env)))))"

definition finalize_cancelled :: "worker_env \<Rightarrow> int \<Rightarrow> bool step" where
  "finalize_cancelled env i =
     bind_step (other_commits env) (\<lambda>_.
     bind_step (clock env) (\<lambda>now.
     bind_step (asks (\<lambda>d. fst (Runs.finalize_cancel_requested now i (wk_owner env) d))) (\<lambda>cleanup.
     bind_step (writes (\<lambda>d. snd (Runs.finalize_cancel_requested now i (wk_owner env) d))) (\<lambda>_.
       case cleanup of None \<Rightarrow> pure False
       | Some c \<Rightarrow> bind_step (clean_cancelled env i c) (\<lambda>_. pure True)))))"

text \<open>
  \<^verbatim>\<open>getattr(exc, "code", None)\<close>: pipeline errors have one, and so have the errors of SQLAlchemy,
  whose code for an \<^verbatim>\<open>IntegrityError\<close> is the anchor of its documentation.
\<close>

fun exception_code :: "exn \<Rightarrow> string" where
  "exception_code (PipelineError code msg) = code"
| "exception_code IntegrityError = ''gkpj''"
| "exception_code _ = ''PIPELINE_FAILED''"

definition operation_failed :: string where
  "operation_failed = ''backup operation failed; consult server logs using the run ID''"

definition settle :: "worker_env \<Rightarrow> int \<Rightarrow> exn \<Rightarrow> unit step" where
  "settle env i e =
     bind_step (tick_step (\<lambda>n s. Inr (wk_lost env n))) (\<lambda>lost.
       if lost then pure ()
       else bind_step (finalize_cancelled env i) (\<lambda>cancelled.
         if cancelled then pure ()
         else if e = CancelledError then lift_result (Inl CancelledError)
         else bind_step (fail env i (exception_code e) operation_failed) (\<lambda>_. orphan_cleanup env)))"

definition execute :: "worker_env \<Rightarrow> int \<Rightarrow> unit step" where
  "execute env i s = (case work_on env i s of (Inr _, s') \<Rightarrow> (Inr (), s') | (Inl e, s') \<Rightarrow> settle env i e s')"

section \<open>The heartbeat\<close>

datatype beat = LeaseLost | CancelSeen | LeaseRenewed | NotYet

text \<open>One round of \<^verbatim>\<open>_heartbeat\<close>: at the time \<open>monotonic\<close>, with the next renewal due at \<open>due\<close>.\<close>

definition heartbeat_round ::
  "string \<Rightarrow> int \<Rightarrow> time \<Rightarrow> time \<Rightarrow> time \<Rightarrow> int \<Rightarrow> db \<Rightarrow> beat \<times> db" where
  "heartbeat_round owner lease_seconds now monotonic due i d =
     (case run_by_id d i of
        None \<Rightarrow> (LeaseLost, d)
      | Some r \<Rightarrow>
          if r_lease_owner r \<noteq> Some owner then (LeaseLost, d)
          else if r_cancel r then (CancelSeen, d)
          else if monotonic < due then (NotYet, d)
          else (case renew now i owner lease_seconds d of
              (True, d') \<Rightarrow> (LeaseRenewed, d') | (False, d') \<Rightarrow> (LeaseLost, d')))"

section \<open>The runs\<close>

text \<open>
  What the worker may rely on: only it acts under its name (a lease it has lost does not come
  back, and nobody else moves a run that it holds), and, where it says so, its lease is respected.
\<close>

definition sole_holder :: "worker_env \<Rightarrow> int \<Rightarrow> bool" where
  "sole_holder env i \<longleftrightarrow> (\<forall>n d q. run_by_id (dv_others (wk_delivery env) n d) i = Some q \<longrightarrow>
     r_lease_owner q = Some (wk_owner env) \<longrightarrow>
     (\<exists>p. run_by_id d i = Some p \<and> r_lease_owner p = Some (wk_owner env) \<and> r_status p = r_status q))"

definition lease_respected :: "worker_env \<Rightarrow> int \<Rightarrow> bool" where
  "lease_respected env i \<longleftrightarrow> (\<forall>n d p. run_by_id d i = Some p \<longrightarrow> r_lease_owner p = Some (wk_owner env) \<longrightarrow>
     (\<exists>q. run_by_id (dv_others (wk_delivery env) n d) i = Some q \<and> r_lease_owner q = Some (wk_owner env)))"

text \<open>The run, while this worker holds it, has not gone past running.\<close>

definition unfinished :: "worker_env \<Rightarrow> int \<Rightarrow> delivery_state \<Rightarrow> bool" where
  "unfinished env i s \<longleftrightarrow> (\<forall>q. run_by_id (ds_db s) i = Some q \<longrightarrow> r_lease_owner q = Some (wk_owner env) \<longrightarrow>
     r_status q = Queued \<or> r_status q = Running)"

lemma keeps_tick_step: "(\<And>s. I s \<Longrightarrow> I (s\<lparr>ds_tick := ds_tick s + 1\<rparr>)) \<Longrightarrow> keeps_step I (tick_step f)"
  by (simp add: keeps_step_def triple_def tick_step_def split: sum.splits)

lemma keeps_clock: "(\<And>s. I s \<Longrightarrow> I (s\<lparr>ds_tick := ds_tick s + 1\<rparr>)) \<Longrightarrow> keeps_step I (clock env)"
  unfolding clock_def by (rule keeps_now)

lemma keeps_on_files: "(\<And>s f. I s \<Longrightarrow> I (s\<lparr>ds_fs := f\<rparr>)) \<Longrightarrow> keeps_step I (on_files m)"
  by (simp add: keeps_step_def triple_def on_files_def split: prod.splits sum.splits)

lemma keeps_try_files: "(\<And>s f. I s \<Longrightarrow> I (s\<lparr>ds_fs := f\<rparr>)) \<Longrightarrow> keeps_step I (try_files m)"
  by (simp add: keeps_step_def triple_def try_files_def split: prod.splits)

lemma keeps_reads: "keeps_step I (\<lambda>s. (f s, s))"
  by (simp add: keeps_step_def triple_def split: sum.splits)

lemma keeps_transact:
  "(\<And>s a d. I s \<Longrightarrow> f (ds_db s) = (Inr a, d) \<Longrightarrow> I (s\<lparr>ds_db := d\<rparr>)) \<Longrightarrow> keeps_step I (transact f)"
  by (simp add: keeps_step_def triple_def transact_def split: prod.splits sum.splits)

lemma advances_cleanup_tables [simp]:
  "advances d0 (update_cleanup op g d) = advances d0 d"
  "advances d0 (store_settings d) = advances d0 d"
  "advances d0 ((store_settings d)\<lparr>cleanups := cs\<rparr>) = advances d0 d"
  by (rule advances_frame; simp add: update_cleanup_def store_settings_def get_settings_def split: option.splits)+

lemma runs_since_basic:
  "keeps_step (runs_since d0) (tick_step f)" "keeps_step (runs_since d0) (clock env)"
  "keeps_step (runs_since d0) (on_files m)" "keeps_step (runs_since d0) (try_files m1)"
  "keeps_step (runs_since d0) (writes (update_cleanup op g))"
  "keeps_step (runs_since d0) (writes store_settings)"
  "keeps_step (runs_since d0) (writes (\<lambda>d. (store_settings d)\<lparr>cleanups := h d\<rparr>))"
  by (auto intro!: keeps_tick_step keeps_clock keeps_on_files keeps_try_files keeps_writes)
    (simp_all add: runs_since_def)

lemma runs_since_others_step: "others_advance (wk_delivery env) \<Longrightarrow> keeps_step (runs_since d0) (other_commits env)"
  using runs_since_others [of "wk_delivery env"]
  by (simp add: keeps_step_def triple_def other_commits_def)

lemma keeps_save:
  assumes "\<And>q. same_identity q (f q)"
    and "\<And>q. r_status (f q) = r_status q \<and> r_finished (f q) = r_finished q \<and>
      r_lease_owner (f q) = r_lease_owner q \<and> r_lease_expires (f q) = r_lease_expires q"
  shows "keeps_step (runs_since d0) (save_run env i f)"
proof -
  have "same_identity q ((f q)\<lparr>r_updated := t\<rparr>)" for q t using assms(1) [of q] by (simp add: same_identity_def)
  then have "advances d0 (update_run i (\<lambda>q. (f q)\<lparr>r_updated := t\<rparr>) d)" if "advances d0 d" for d t
    by (intro advances_update_row [OF that]) (simp_all add: assms(2))
  then show ?thesis unfolding save_run_def
    by (intro keeps_bind runs_since_basic keeps_writes) (simp add: runs_since_def)
qed

lemma runs_since_worker:
  "keeps_step (runs_since d0) (await env)" "keeps_step (runs_since d0) (remove_run_workspace env u)"
  "keeps_step (runs_since d0) (check_deadline env e)" "keeps_step (runs_since d0) (check_processing_disk env e)"
  "keeps_step (runs_since d0) (manifest_facts env fin)" "keeps_step (runs_since d0) (make_deadline env r)"
  "keeps_step (runs_since d0) (remote_deletion env c p)"
  by (auto simp: await_def remove_run_workspace_def check_deadline_def check_processing_disk_def
      manifest_facts_def make_deadline_def remote_deletion_def intro!: keeps_bind runs_since_basic keeps_reads)

lemma runs_since_tools:
  "keeps_step (runs_since d0) (acquired env p target op1)"
  "keeps_step (runs_since d0) (\<lambda>s. on_files (m s) (s\<lparr>ds_tick := ds_tick s + 1\<rparr>))"
  by (auto simp: keeps_step_def triple_def acquired_def on_files_def Let_def runs_since_def split: prod.splits sum.splits)

lemma runs_since_stages:
  "keeps_step (runs_since d0) (transform_step env e st source target tr)"
  "keeps_step (runs_since d0) (finalize_step env r p z now filename source md sz)"
proof -
  show "keeps_step (runs_since d0) (transform_step env e st source target tr)"
    unfolding transform_step_def by (intro keeps_bind runs_since_worker runs_since_tools)
  show "keeps_step (runs_since d0) (finalize_step env r p z now filename source md sz)"
    unfolding keeps_step_def triple_def finalize_step_def on_files_def
    by (simp add: runs_since_def split: prod.splits sum.splits)
qed

lemmas worker_rules = keeps_bind keeps_simple runs_since_basic runs_since_worker runs_since_tools runs_since_stages
  triple_each keeps_reads

lemma runs_ownership: "others_advance (wk_delivery env) \<Longrightarrow> keeps_step (runs_since d0) (ownership_boundary env i)"
  unfolding ownership_boundary_def by (intro worker_rules keeps_runs_boundary)

lemma runs_enter_stage: "others_advance (wk_delivery env) \<Longrightarrow> keeps_step (runs_since d0) (enter_stage env i st)"
  unfolding enter_stage_def by (intro worker_rules runs_ownership keeps_save) (simp_all add: same_identity_def)

lemma runs_persist: "others_advance (wk_delivery env) \<Longrightarrow> keeps_step (runs_since d0) (persist_acquisition env i md sz)"
  unfolding persist_acquisition_def by (intro worker_rules runs_ownership keeps_save) (simp_all add: same_identity_def)

lemma runs_cleanup_record: "others_advance (wk_delivery env) \<Longrightarrow> keeps_step (runs_since d0) (cleanup_record env i p op)"
  unfolding cleanup_record_def by (auto intro!: worker_rules runs_ownership split: option.splits)

lemma runs_cleanup_previous: "others_advance (wk_delivery env) \<Longrightarrow> keeps_step (runs_since d0) (cleanup_previous env i p)"
  unfolding cleanup_previous_def by (intro worker_rules runs_cleanup_record)

lemma runs_retrieval: "others_advance (wk_delivery env) \<Longrightarrow> keeps_step (runs_since d0) (record_retrieval env i op n c)"
  unfolding record_retrieval_def by (intro worker_rules runs_ownership)

lemma runs_prepare: "others_advance (wk_delivery env) \<Longrightarrow> keeps_step (runs_since d0) (prepare_workspace env r e)"
  unfolding prepare_workspace_def by (intro worker_rules keeps_save) (simp_all add: same_identity_def)

lemma runs_acquire: "others_advance (wk_delivery env) \<Longrightarrow> keeps_step (runs_since d0) (acquire_source env i p ws op b)"
  unfolding acquire_source_def by (auto intro!: worker_rules runs_retrieval split: option.splits)

lemma runs_fetch: "others_advance (wk_delivery env) \<Longrightarrow> keeps_step (runs_since d0) (fetch_source env i p ws)"
  unfolding fetch_source_def
  by (auto intro!: worker_rules runs_acquire runs_cleanup_previous runs_cleanup_record split: option.splits)

lemma runs_transform: "others_advance (wk_delivery env) \<Longrightarrow> keeps_step (runs_since d0) (transform_source env i p ws e st src)"
  unfolding transform_source_def Let_def
  by (auto intro!: worker_rules runs_enter_stage keeps_save simp: same_identity_def split: prod.splits)

lemma runs_reserve: "others_advance (wk_delivery env) \<Longrightarrow> keeps_step (runs_since d0) (reserve_spool env r p e st ext)"
  unfolding reserve_spool_def Let_def
  by (intro worker_rules runs_enter_stage keeps_save) (simp_all add: same_identity_def)

lemma runs_leave: "others_advance (wk_delivery env) \<Longrightarrow> keeps_step (runs_since d0) (leave_workspace env r e)"
  unfolding leave_workspace_def by (intro worker_rules keeps_save) (simp_all add: same_identity_def)

text \<open>Writes that follow a boundary: the worker holds the run, which is then active.\<close>

definition owned :: "db \<Rightarrow> worker_env \<Rightarrow> int \<Rightarrow> delivery_state \<Rightarrow> bool" where
  "owned d0 env i s \<longleftrightarrow> runs_since d0 s \<and> leased i (Some (wk_owner env)) s"

lemma owned_frame [simp]: "owned d0 env i (s\<lparr>ds_tick := n\<rparr>) = owned d0 env i s"
  by (simp add: owned_def leased_def)

lemma triple_keeps: "keeps_step I m \<Longrightarrow> triple I m (\<lambda>_. I) I"
  by (simp add: keeps_step_def)

lemma triple_snd: "triple P m (\<lambda>_. Q) Q \<Longrightarrow> P s \<Longrightarrow> Q (snd (m s))"
  by (cases "m s"; cases "fst (m s)") (auto simp: triple_def)

lemma triple_drop: "keeps_step (runs_since d0) m \<Longrightarrow> triple (owned d0 env i) m (\<lambda>_. runs_since d0) (runs_since d0)"
  by (rule triple_weaken [OF triple_keeps]) (auto simp: owned_def)

lemma boundary_owned:
  assumes "others_advance (wk_delivery env)"
  shows "triple (runs_since d0) (ownership_boundary env i) (\<lambda>_. owned d0 env i) (runs_since d0)"
  unfolding ownership_boundary_def owned_def
  by (rule triple_bind [OF triple_keeps [OF runs_since_worker(1)] triple_boundary])
    (rule runs_since_others [OF assms])

lemma clock_owned: "triple (owned d0 env i) (clock env') (\<lambda>_. owned d0 env i) (runs_since d0)"
  by (simp add: triple_def clock_def now_step_def)

lemma advances_pending_delivery:
  assumes "advances d0 d" and "run_by_id d i = Some q" and "active q"
    and "\<And>x. same_identity x (g x)"
    and "\<And>x. r_status (g x) = DeliveryPending \<and> r_finished (g x) = r_finished x \<and>
      r_lease_owner (g x) = r_lease_owner x \<and> r_lease_expires (g x) = r_lease_expires x"
  shows "advances d0 (update_run i g d)"
proof -
  have ok: "runs_ok d" using assms(1) by (rule advances_ok)
  have "advances d (update_run i g d)"
    using assms(3) runs_ok_run [OF ok assms(2)]
    by (intro advances_update_run [OF ok assms(2,4)]) (auto simp: assms(5) run_ok_def active_iff status_reaches_def)
  with assms(1) show ?thesis by (rule advances_trans)
qed

lemma advances_artifacts [simp]: "advances d0 (d\<lparr>artifacts := as\<rparr>) = advances d0 d"
  by (rule advances_frame) simp_all

lemma run_by_id_artifacts [simp]: "run_by_id (d\<lparr>artifacts := as\<rparr>) i = run_by_id d i"
  by (simp add: run_by_id_def)

lemma publish_owned:
  "triple (owned d0 env i) (transact (publish_run i t fin facts)) (\<lambda>_. runs_since d0) (runs_since d0)"
proof -
  have "advances d0 d'"
    if o: "owned d0 env i s" and p: "publish_run i t fin facts (ds_db s) = (Inr u, d')" for s u d'
  proof -
    from o have a: "advances d0 (ds_db s)" by (simp add: owned_def runs_since_def)
    from o leased_active [OF _ advances_ok [OF a], of i "wk_owner env"] obtain q where
      q: "run_by_id (ds_db s) i = Some q" "active q" by (auto simp: owned_def)
    from p q a show ?thesis
      by (auto simp: publish_run_def same_identity_def pending_delivery_def split: if_splits
          intro!: advances_pending_delivery [where q = q])
  qed
  then show ?thesis by (auto simp: triple_def transact_def runs_since_def owned_def split: prod.splits sum.splits)
qed

lemma runs_publish:
  assumes "others_advance (wk_delivery env)"
  shows "keeps_step (runs_since d0) (publish_artifact env r p e st sz built)"
proof -
  have tail: "keeps_step (runs_since d0) (bind_step (ownership_boundary env (r_id r)) (\<lambda>_.
          bind_step (clock env) (\<lambda>t. bind_step (transact (publish_run (r_id r) t fin facts)) (\<lambda>_.
            leave_workspace env r e))))" for fin facts
    unfolding keeps_step_def
    by (intro triple_bind [OF boundary_owned [OF assms]] triple_bind [OF clock_owned] triple_bind [OF publish_owned]
        triple_keeps runs_leave assms)
  show ?thesis
    unfolding publish_artifact_def record_artifact_def
    by (auto split: prod.splits intro!: worker_rules tail runs_ownership [OF assms] runs_reserve [OF assms])
qed

text \<open>Until the run is marked running, other sessions leave it unfinished while it is held.\<close>

definition waiting :: "db \<Rightarrow> worker_env \<Rightarrow> int \<Rightarrow> delivery_state \<Rightarrow> bool" where
  "waiting d0 env i s \<longleftrightarrow> runs_since d0 s \<and> unfinished env i s"

lemma waiting_frame [simp]:
  "waiting d0 env i (s\<lparr>ds_tick := n\<rparr>) = waiting d0 env i s" "waiting d0 env i (s\<lparr>ds_fs := f\<rparr>) = waiting d0 env i s"
  by (simp_all add: waiting_def unfinished_def)

lemma waiting_others:
  assumes "others_advance (wk_delivery env)" and "sole_holder env i" and "waiting d0 env i s"
  shows "waiting d0 env i (s\<lparr>ds_db := dv_others (wk_delivery env) (ds_tick s) (ds_db s), ds_tick := ds_tick s + 1\<rparr>)"
  using runs_since_others [OF assms(1), of d0 s] assms(2,3)
  unfolding waiting_def unfinished_def sole_holder_def
  by (auto simp: runs_since_def) metis+

lemma begin_run_keeps:
  assumes "others_advance (wk_delivery env)" and "sole_holder env (r_id r)"
  shows "triple (waiting d0 env (r_id r)) (begin_run env r) (\<lambda>_. runs_since d0) (runs_since d0)"
proof -
  let ?i = "r_id r" and ?w = "waiting d0 env (r_id r)"
  have aw: "triple ?w (await env) (\<lambda>_. ?w) (runs_since d0)"
    by (auto simp: triple_def await_def tick_step_def waiting_def runs_since_def unfinished_def split: option.splits sum.splits)
  have "triple ?w (cancel_boundary (wk_delivery env) ?i (Some (wk_owner env)) True)
      (\<lambda>_ s. ?w s \<and> leased ?i (Some (wk_owner env)) s) ?w"
    by (rule triple_boundary) (rule waiting_others [OF assms])
  then have bd: "triple ?w (ownership_boundary env ?i) (\<lambda>_ s. ?w s \<and> leased ?i (Some (wk_owner env)) s) (runs_since d0)"
    unfolding ownership_boundary_def
    by (intro triple_bind [OF aw]) (erule triple_weaken; auto simp: waiting_def)
  have ck: "triple (\<lambda>s. ?w s \<and> leased ?i (Some (wk_owner env)) s) (clock env)
      (\<lambda>_ s. ?w s \<and> leased ?i (Some (wk_owner env)) s) (runs_since d0)"
    by (simp add: triple_def clock_def now_step_def leased_def)
  have sv: "triple (\<lambda>s. ?w s \<and> leased ?i (Some (wk_owner env)) s) (save_run env ?i f) (\<lambda>_. runs_since d0) (runs_since d0)"
    if f: "\<And>q. same_identity q (f q)" "\<And>q. r_status (f q) = Running \<and> r_finished (f q) = r_finished q \<and>
      r_lease_owner (f q) = r_lease_owner q \<and> r_lease_expires (f q) = r_lease_expires q" for f
  proof -
    have "advances d0 (update_run ?i (\<lambda>q. (f q)\<lparr>r_updated := t\<rparr>) (ds_db s))"
      if s: "?w s" "leased ?i (Some (wk_owner env)) s" for s t
    proof -
      from s have a: "advances d0 (ds_db s)" by (simp add: waiting_def runs_since_def)
      note ok = advances_ok [OF a]
      from leased_active [OF s(2) ok] obtain q where q: "run_by_id (ds_db s) ?i = Some q" "active q"
        "r_lease_owner q = Some (wk_owner env)" "r_finished q = None" by blast
      with s(1) have "r_status q = Queued \<or> r_status q = Running" by (auto simp: waiting_def unfinished_def)
      with q f runs_ok_run [OF ok q(1)] have "advances (ds_db s) (update_run ?i (\<lambda>q. (f q)\<lparr>r_updated := t\<rparr>) (ds_db s))"
        by (intro advances_update_run [OF ok q(1)]) (auto simp: same_identity_def run_ok_def active_iff status_reaches_def)
      with a show ?thesis by (rule advances_trans)
    qed
    then show ?thesis
      by (simp add: triple_def save_run_def bind_step_def clock_def now_step_def writes_def runs_since_def)
  qed
  have tr: "keeps_step (runs_since d0) (if r_status r = Queued
       then writes (record_run_transition ''started'' ?i Running StBackup None) else pure ())"
    by (auto intro!: worker_rules keeps_writes simp: runs_since_def)
  show ?thesis
    unfolding begin_run_def
    by (intro triple_bind [OF bd] triple_bind [OF ck] triple_bind [OF sv] triple_keeps tr)
      (simp_all add: same_identity_def)
qed

text \<open>Taking over an earlier artifact, which only a respected lease makes safe.\<close>

definition resumable :: "worker_env \<Rightarrow> run \<Rightarrow> bool" where
  "resumable env r \<longleftrightarrow> r_pending_dir r = None \<or>
     r_lease_owner r = Some (wk_owner env) \<and> lease_respected env (r_id r)"

definition starting :: "db \<Rightarrow> worker_env \<Rightarrow> run \<Rightarrow> delivery_state \<Rightarrow> bool" where
  "starting d0 env r s \<longleftrightarrow> waiting d0 env (r_id r) s \<and>
     (r_pending_dir r \<noteq> None \<longrightarrow> leased (r_id r) (Some (wk_owner env)) s)"

lemma starting_tick [simp]: "starting d0 env r (s\<lparr>ds_tick := n\<rparr>) = starting d0 env r s"
  by (simp add: starting_def leased_def)

lemma starting_steps:
  "keeps_step (starting d0 env r) (tick_step f)" "keeps_step (starting d0 env r) (await env)"
  "keeps_step (starting d0 env r) (check_deadline env e)" "keeps_step (starting d0 env r) (clock env)"
  "keeps_step (starting d0 env r) (manifest_facts env fin)"
  by (auto simp: await_def check_deadline_def manifest_facts_def
      intro!: keeps_tick_step keeps_clock keeps_bind keeps_reads)

lemma starting_since: "starting d0 env r s \<Longrightarrow> runs_since d0 s"
  by (simp add: starting_def waiting_def)

lemma triple_starting: "keeps_step (starting d0 env r) m \<Longrightarrow> triple (starting d0 env r) m (\<lambda>_. starting d0 env r) (runs_since d0)"
  by (rule triple_weaken [OF triple_keeps [where I = "starting d0 env r"]]) (auto dest: starting_since)

lemma starting_others:
  assumes "others_advance (wk_delivery env)" and "sole_holder env (r_id r)" and "resumable env r"
  shows "keeps_step (starting d0 env r) (other_commits env)"
proof -
  let ?o = "\<lambda>s. s\<lparr>ds_db := dv_others (wk_delivery env) (ds_tick s) (ds_db s), ds_tick := ds_tick s + 1\<rparr>"
  have "starting d0 env r (?o s)" if s: "starting d0 env r s" for s
  proof -
    have "waiting d0 env (r_id r) (?o s)"
      using s by (intro waiting_others [OF assms(1,2)]) (simp add: starting_def)
    moreover have "leased (r_id r) (Some (wk_owner env)) (?o s)" if p: "r_pending_dir r \<noteq> None"
    proof -
      from s p obtain q where "run_by_id (ds_db s) (r_id r) = Some q" "r_lease_owner q = Some (wk_owner env)"
        by (auto simp: starting_def leased_def split: option.splits)
      moreover have "lease_respected env (r_id r)" using assms(3) p by (auto simp: resumable_def)
      ultimately obtain q' where "run_by_id (dv_others (wk_delivery env) (ds_tick s) (ds_db s)) (r_id r) = Some q'"
        "r_lease_owner q' = Some (wk_owner env)" unfolding lease_respected_def by blast
      then show ?thesis by (simp add: leased_def)
    qed
    ultimately show ?thesis by (simp add: starting_def)
  qed
  then show ?thesis by (simp add: keeps_step_def triple_def other_commits_def)
qed

lemma starting_resumed:
  assumes "starting d0 env r s" and "r_pending_dir r \<noteq> None"
  shows "advances d0 (resume_published r t fin md facts (ds_db s))"
proof -
  from assms have a: "advances d0 (ds_db s)" and l: "leased (r_id r) (Some (wk_owner env)) s"
    by (auto simp: starting_def waiting_def runs_since_def)
  from leased_active [OF l advances_ok [OF a]] obtain q where
    q: "run_by_id (ds_db s) (r_id r) = Some q" "active q" by blast
  then show ?thesis
    by (auto simp: resume_published_def Let_def a same_identity_def pending_delivery_def
        intro!: advances_pending_delivery [where q = q])
qed

lemma starting_forgets:
  "starting d0 env r s \<Longrightarrow> starting d0 env r (s\<lparr>ds_db := update_run (r_id r)
     (\<lambda>q. q\<lparr>r_pending_dir := None, r_filename := None, r_updated := t\<rparr>) (ds_db s)\<rparr>)"
  by (auto simp: starting_def waiting_def runs_since_def unfinished_def leased_def same_identity_def
      split: option.splits if_splits intro!: advances_update_row)

lemma starting_forget_step:
  "triple (starting d0 env r) (bind_step (save_run env (r_id r) (\<lambda>q. q\<lparr>r_pending_dir := None, r_filename := None\<rparr>))
     (\<lambda>_. pure False)) (\<lambda>resumed. if resumed then runs_since d0 else starting d0 env r) (runs_since d0)"
proof -
  have "starting d0 env r (s\<lparr>ds_tick := n, ds_db := update_run (r_id r)
      (\<lambda>q. q\<lparr>r_pending_dir := None, r_filename := None, r_updated := t\<rparr>) (ds_db s)\<rparr>)"
    if "starting d0 env r s" for s n t
    using starting_forgets [of d0 env r "s\<lparr>ds_tick := n\<rparr>" t] that by simp
  then show ?thesis
    by (simp add: triple_def save_run_def bind_step_def clock_def now_step_def writes_def pure_def)
qed

lemma resume_keeps:
  assumes "others_advance (wk_delivery env)" and "sole_holder env (r_id r)" and "resumable env r"
  shows "triple (starting d0 env r) (resume_finalized env r e)
    (\<lambda>resumed. if resumed then runs_since d0 else starting d0 env r) (runs_since d0)"
proof -
  let ?S = "starting d0 env r" and ?Q = "\<lambda>resumed. if resumed then runs_since d0 else starting d0 env r"
  have wr: "triple ?S (bind_step (writes (resume_published r t fin md facts)) (\<lambda>_.
      bind_step (leave_workspace env r e) (\<lambda>_. pure True))) ?Q (runs_since d0)"
    if "r_pending_dir r \<noteq> None" for t fin md facts
  proof (rule triple_bind)
    show "triple ?S (writes (resume_published r t fin md facts)) (\<lambda>_. runs_since d0) (runs_since d0)"
      using starting_resumed that by (simp add: triple_def writes_def runs_since_def)
    have "keeps_step (runs_since d0) (bind_step (leave_workspace env r e) (\<lambda>_. pure True))"
      by (intro worker_rules runs_leave assms)
    then show "triple (runs_since d0) (bind_step (leave_workspace env r e) (\<lambda>_. pure True)) ?Q (runs_since d0)"
      by (auto simp: keeps_step_def triple_def bind_step_def pure_def split: prod.splits sum.splits)
  qed
  note st = triple_bind [OF triple_starting [OF starting_steps(3)]] triple_bind [OF triple_starting [OF starting_steps(2)]]
    triple_bind [OF triple_starting [OF starting_steps(4)]] triple_bind [OF triple_starting [OF keeps_reads]]
    triple_bind [OF triple_starting [OF keeps_simple(3)]]
    triple_bind [OF triple_starting [OF starting_others [OF assms]]]
  show ?thesis
  proof (cases "r_pending_dir r")
    case None
    have "triple ?S (pure False) ?Q (runs_since d0)" by (simp add: triple_def pure_def)
    with None show ?thesis unfolding resume_finalized_def by (intro st(1)) simp
  next
    case (Some pending)
    have fail: "triple ?S (lift_result (Inl x)) ?Q (runs_since d0)" for x
      by (auto simp: triple_def lift_result_def dest: starting_since)
    have facts: "keeps_step ?S (if wanted then manifest_facts env fin else pure x)" for wanted fin x
      by (simp add: starting_steps keeps_simple)
    have "triple ?S (case found of
              None \<Rightarrow> bind_step (save_run env (r_id r) (\<lambda>q. q\<lparr>r_pending_dir := None, r_filename := None\<rparr>)) (\<lambda>_. pure False)
            | Some (fin, metadata) \<Rightarrow>
                 if fa_original fin \<noteq> None \<and> r_original_size r \<noteq> None \<and> r_original_size r \<noteq> fa_original fin
                 then lift_result (Inl (invalid_manifest ''original backup size changed during recovery''))
                 else bind_step (asks (\<lambda>d. artifact_free d (r_id r) ManifestArtifact)) (\<lambda>wanted.
                      bind_step (if wanted then manifest_facts env fin else pure (0, [])) (\<lambda>facts.
                      bind_step (clock env) (\<lambda>t.
                      bind_step (writes (resume_published r t fin metadata facts)) (\<lambda>_.
                      bind_step (leave_workspace env r e) (\<lambda>_. pure True)))))) ?Q (runs_since d0)" for found
      using Some
      by (auto split: option.splits intro!: starting_forget_step fail st(3,5)
          triple_bind [OF triple_starting [OF facts]] wr)
    with Some show ?thesis
      unfolding resume_finalized_def by (simp, intro st(1,2,4,6)) simp
  qed
qed

lemma runs_build_artifact:
  "others_advance (wk_delivery env) \<Longrightarrow> keeps_step (runs_since d0) (build_artifact env r p e ws st)"
  unfolding build_artifact_def
  by (intro worker_rules runs_fetch runs_persist runs_enter_stage runs_transform runs_publish)

lemma build_keeps:
  assumes "others_advance (wk_delivery env)" and "sole_holder env (r_id r)" and "resumable env r"
  shows "triple (starting d0 env r) (build env r e) (\<lambda>_. runs_since d0) (runs_since d0)"
proof -
  have rest: "triple (starting d0 env r) (bind_step (begin_run env r) f) (\<lambda>_. runs_since d0) (runs_since d0)"
    if "\<And>u. keeps_step (runs_since d0) (f u)" for f :: "unit \<Rightarrow> bool step"
    by (rule triple_weaken [OF triple_bind [OF begin_run_keeps [OF assms(1,2), of d0] triple_keeps [OF that]]])
      (simp_all add: starting_def)
  have lr: "triple (starting d0 env r) (lift_result x) (\<lambda>_. starting d0 env r) (runs_since d0)" for x :: "profile result"
    by (rule triple_starting [OF keeps_simple(2)])
  show ?thesis
    unfolding build_def
    apply (rule triple_bind [OF triple_starting [OF keeps_simple(3)]])
    apply (rule triple_bind [OF lr])
    apply (rule triple_bind [OF resume_keeps [OF assms]])
    subgoal for config p resumed
      by (cases resumed)
        (auto intro!: rest worker_rules runs_prepare [OF assms(1)] runs_build_artifact [OF assms(1)]
          simp: triple_keeps [OF keeps_simple(1)])
    done
qed

text \<open>The delivery, and what follows an exception.\<close>

lemma attempt_keeps:
  assumes "others_advance denv" and "r_lease_owner r = Some w"
  shows "keeps_step (runs_since d0) (attempt denv r)"
proof -
  have "advances d0 (ds_db (snd (attempt denv r s)))" if "advances d0 (ds_db s)" for s
    using attempt_advances [OF assms advances_ok [OF that]] that by (rule advances_trans [rotated])
  then show ?thesis
    by (auto simp: keeps_step_def triple_def runs_since_def split: prod.splits sum.splits) (metis snd_conv)+
qed

lemma work_on_keeps:
  assumes "others_advance (wk_delivery env)" and "sole_holder env i"
    and "run_by_id (ds_db s) i = Some r" and "r_lease_owner r = Some w" and "resumable env r" and "runs_ok (ds_db s)"
  shows "runs_since (ds_db s) (snd (work_on env i s))"
proof -
  let ?d = "ds_db s"
  have s: "runs_since ?d s" by (simp add: runs_since_def advances_refl assms(6))
  have id: "r_id r = i" using run_by_id_Some [OF assms(3)] by simp
  have act: "active r" using runs_ok_run [OF assms(6,3)] assms(4) by (auto simp: run_ok_def)
  have keep: "runs_since ?d (snd (m s))" if "keeps_step (runs_since ?d) m" for m :: "unit step"
    using keeps_step_snd [OF that s] .
  have w: "work_on env i s = (if r_cancel r then lift_result (Inl CancelledError)
           else if r_status r = DeliveryPending
           then bind_step (attempt (wk_delivery env) r) (\<lambda>_. pure ())
           else bind_step (make_deadline env r) (\<lambda>e.
                bind_step (check_deadline env e) (\<lambda>_.
                bind_step (build env r e) (\<lambda>resumed.
                bind_step (asks (\<lambda>d. run_by_id d i)) (\<lambda>again.
                  case again of None \<Rightarrow> lift_result (Inl (RuntimeError ''run disappeared''))
                  | Some q \<Rightarrow> bind_step (attempt (wk_delivery env) (refreshed env r resumed q)) (\<lambda>_. pure ())))))) s"
    by (simp add: work_on_def bind_step_def asks_def assms(3))
  show ?thesis
  proof (cases "r_cancel r \<or> r_status r = DeliveryPending")
    case True
    with w show ?thesis
      by (auto intro!: keep worker_rules attempt_keeps [OF assms(1,4)])
  next
    case False
    then have st: "r_status r = Queued \<or> r_status r = Running" using act by (auto simp: active_iff)
    have S: "starting ?d env r s"
      using s st assms(3,5) id by (auto simp: starting_def waiting_def unfinished_def leased_def resumable_def)
    have at: "keeps_step (runs_since ?d) (bind_step (asks (\<lambda>d. run_by_id d i)) (\<lambda>again.
                  case again of None \<Rightarrow> lift_result (Inl (RuntimeError ''run disappeared''))
                  | Some q \<Rightarrow> bind_step (attempt (wk_delivery env) (refreshed env r resumed q)) (\<lambda>_. pure ())))" for resumed
      using assms(4)
      by (auto intro!: worker_rules attempt_keeps [OF assms(1)] simp: refreshed_def split: option.splits)
    have md: "keeps_step (starting ?d env r) (make_deadline env r)"
      unfolding make_deadline_def by (intro keeps_bind starting_steps)
    have "triple (starting ?d env r) (bind_step (make_deadline env r) (\<lambda>e.
                bind_step (check_deadline env e) (\<lambda>_.
                bind_step (build env r e) (\<lambda>resumed.
                bind_step (asks (\<lambda>d. run_by_id d i)) (\<lambda>again.
                  case again of None \<Rightarrow> lift_result (Inl (RuntimeError ''run disappeared''))
                  | Some q \<Rightarrow> bind_step (attempt (wk_delivery env) (refreshed env r resumed q)) (\<lambda>_. pure ()))))))
         (\<lambda>_. runs_since ?d) (runs_since ?d)"
      by (intro triple_bind [OF triple_starting [OF md]] triple_bind [OF triple_starting [OF starting_steps(3)]]
          triple_bind [OF build_keeps [OF assms(1) _ assms(5)]] triple_keeps at)
        (simp add: id assms(2))
    from triple_snd [OF this S] False show ?thesis unfolding w by simp
  qed
qed

lemma cleanup_orphans_frame:
  "runs (snd (cleanup_orphans now remote cs d)) = runs d \<and> run_seq (snd (cleanup_orphans now remote cs d)) = run_seq d"
proof (induction cs arbitrary: d)
  case (Cons c cs)
  have "runs (snd (cleanup_orphan now remote c d)) = runs d \<and> run_seq (snd (cleanup_orphan now remote c d)) = run_seq d"
    by (auto simp: cleanup_orphan_def update_cleanup_def split: option.splits sum.splits)
  with Cons show ?case
    by (cases "cleanup_orphan now remote c d"; cases "fst (cleanup_orphan now remote c d)") auto
qed simp

lemma advances_orphans:
  "cleanup_orphaned_mssql_artifacts b now remote d = (res, d') \<Longrightarrow> advances d0 d' = advances d0 d"
  using cleanup_orphans_frame [of now remote "filter orphan_candidate (cleanups d)" d]
  by (intro advances_frame) (auto simp: cleanup_orphaned_mssql_artifacts_def split: if_splits prod.splits sum.splits)

lemma runs_orphan_cleanup: "keeps_step (runs_since d0) (orphan_cleanup env)"
proof -
  have "keeps_step (runs_since d0) (\<lambda>s. transact (cleanup_orphaned_mssql_artifacts True now (wk_remote_delete env (ds_tick s)))
         (s\<lparr>ds_tick := ds_tick s + 1\<rparr>))" for now
    by (auto simp: keeps_step_def triple_def transact_def runs_since_def advances_orphans split: prod.splits sum.splits)
  then show ?thesis unfolding orphan_cleanup_def by (intro worker_rules)
qed

lemma fail_row_simps:
  "same_identity q (fail_row env t code msg q)"
  "active q \<Longrightarrow> r_finished q = None \<Longrightarrow> run_ok (fail_row env t code msg q)"
  "active q \<Longrightarrow> status_reaches (r_status q) (r_status (fail_row env t code msg q))"
  "active (fail_row env t code msg q) \<Longrightarrow> r_status q = DeliveryPending"
  by (auto simp: fail_row_def Let_def failed_row_def drop_lease_def same_identity_def run_ok_def active_iff status_reaches_def
      split: if_splits)

lemma fail_keeps:
  assumes "others_advance (wk_delivery env)"
  shows "keeps_step (runs_since d0) (fail env i code msg)"
proof -
  let ?R = "\<lambda>r s. runs_since d0 s \<and> run_by_id (ds_db s) i = Some r"
  have wr: "triple (?R r) (writes (\<lambda>d. (if r_status (fail_row env t c msg r) = Failed
                   then record_run_transition ''failed'' i Failed StComplete (Some c) else (\<lambda>d. d))
                  (update_run i (fail_row env t c msg) d))) (\<lambda>_. runs_since d0) (runs_since d0)"
    if act: "active r" for r t c
  proof -
    have "advances d0 (update_run i (fail_row env t c msg) d)"
      if a: "advances d0 d" and r: "run_by_id d i = Some r" for d
    proof -
      note ok = advances_ok [OF a]
      have "r_finished r = None" using runs_ok_run [OF ok r] act by (simp add: run_ok_def)
      with act have "advances d (update_run i (fail_row env t c msg) d)"
        by (intro advances_update_run [OF ok r]) (simp_all add: fail_row_simps)
      with a show ?thesis by (rule advances_trans)
    qed
    then show ?thesis by (auto simp: triple_def writes_def runs_since_def)
  qed
  have fs: "triple (?R r) (on_files m) (\<lambda>_. ?R r) (runs_since d0)" for r and m :: "fs \<Rightarrow> unit result \<times> fs"
    by (auto simp: triple_def on_files_def split: prod.splits sum.splits)
  have pu: "triple (?R r) (pure ()) (\<lambda>_. ?R r) (runs_since d0)" for r
    by (simp add: triple_def pure_def)
  have ck: "triple (?R r) (clock env) (\<lambda>_. ?R r) (runs_since d0)" for r
    by (simp add: triple_def clock_def now_step_def)
  have some: "triple (?R r) (if \<not> active r \<or> r_lease_owner r \<noteq> Some (wk_owner env) then pure ()
           else bind_step (if r_status r = DeliveryPending then pure ()
               else on_files (remove_workspace (wk_work_root env) (r_uuid r))) (\<lambda>_.
             bind_step (clock env) (\<lambda>t.
             let code = take 64 code; after_row = fail_row env t code msg r
             in writes (\<lambda>d. (if r_status after_row = Failed
                   then record_run_transition ''failed'' i Failed StComplete (Some code) else (\<lambda>d. d))
                  (update_run i (fail_row env t code msg) d))))) (\<lambda>_. runs_since d0) (runs_since d0)" for r
  proof (cases "\<not> active r \<or> r_lease_owner r \<noteq> Some (wk_owner env)")
    case True
    then show ?thesis by (simp only: if_True) (simp add: triple_def pure_def)
  next
    case False
    then show ?thesis
      unfolding Let_def
      by (simp only: if_False, intro triple_bind [OF _ triple_bind [OF ck wr]]) (auto intro: fs pu)
  qed
  have rd: "triple (runs_since d0) (asks (\<lambda>d. run_by_id d i))
      (\<lambda>row s. runs_since d0 s \<and> run_by_id (ds_db s) i = row) (runs_since d0)"
    by (simp add: triple_def asks_def)
  show ?thesis
    unfolding fail_def keeps_step_def
  proof (intro triple_bind [OF triple_keeps [OF runs_since_others_step [OF assms]]] triple_bind [OF rd])
    fix u row
    show "triple (\<lambda>s. runs_since d0 s \<and> run_by_id (ds_db s) i = row) (case row of None \<Rightarrow> pure ()
       | Some r \<Rightarrow>
           if \<not> active r \<or> r_lease_owner r \<noteq> Some (wk_owner env) then pure ()
           else bind_step (if r_status r = DeliveryPending then pure ()
               else on_files (remove_workspace (wk_work_root env) (r_uuid r))) (\<lambda>_.
             bind_step (clock env) (\<lambda>t.
             let code = take 64 code; after_row = fail_row env t code msg r
             in writes (\<lambda>d. (if r_status after_row = Failed
                   then record_run_transition ''failed'' i Failed StComplete (Some code) else (\<lambda>d. d))
                  (update_run i (fail_row env t code msg) d))))) (\<lambda>_. runs_since d0) (runs_since d0)"
      using some by (cases row) (simp_all add: triple_def pure_def)
  qed
qed

lemma cancelled_keeps:
  assumes "others_advance (wk_delivery env)"
  shows "keeps_step (runs_since d0) (finalize_cancelled env i)"
proof -
  have fin: "keeps_step (runs_since d0) (writes (\<lambda>d. snd (Runs.finalize_cancel_requested now i (wk_owner env) d)))" for now
    by (rule keeps_writes) (auto simp: runs_since_def intro: advances_trans advances_finalize_cancel dest: advances_ok)
  show ?thesis
    unfolding finalize_cancelled_def clean_cancelled_def
    by (auto intro!: worker_rules fin runs_since_others_step [OF assms] runs_orphan_cleanup keeps_save
        simp: clear_cancelled_paths_def same_identity_def split: option.splits)
qed

lemma settle_keeps:
  assumes "others_advance (wk_delivery env)"
  shows "keeps_step (runs_since d0) (settle env i e)"
  unfolding settle_def
  by (auto intro!: worker_rules cancelled_keeps [OF assms] fail_keeps [OF assms] runs_orphan_cleanup)

section \<open>What a build publishes\<close>

lemma bind_step_InrE:
  assumes "bind_step m f s = (Inr b, s')"
  obtains a s1 where "m s = (Inr a, s1)" and "f a s1 = (Inr b, s')"
  using assms by (auto simp: bind_step_Inr)

lemma on_files_Inr:
  "on_files m s = (Inr a, s') \<longleftrightarrow> (\<exists>fs'. m (ds_fs s) = (Inr a, fs') \<and> s' = s\<lparr>ds_fs := fs'\<rparr>)"
  by (auto simp: on_files_def split: prod.splits)

text \<open>Steps that leave the files, and steps that leave the database.\<close>

definition files_still :: "'a step \<Rightarrow> bool" where
  "files_still m \<longleftrightarrow> (\<forall>s. ds_fs (snd (m s)) = ds_fs s)"

definition rows_still :: "'a step \<Rightarrow> bool" where
  "rows_still m \<longleftrightarrow> (\<forall>s. ds_db (snd (m s)) = ds_db s)"

lemma files_still_bind: "files_still m \<Longrightarrow> (\<And>a. files_still (f a)) \<Longrightarrow> files_still (bind_step m f)"
  by (auto simp: files_still_def bind_step_def split: prod.splits sum.splits) (metis snd_conv)+

lemma rows_still_bind: "rows_still m \<Longrightarrow> (\<And>a. rows_still (f a)) \<Longrightarrow> rows_still (bind_step m f)"
  by (auto simp: rows_still_def bind_step_def split: prod.splits sum.splits) (metis snd_conv)+

lemma files_still_basic:
  "files_still (tick_step g)" "files_still (pure a)" "files_still (lift_result r)" "files_still (asks h)"
  "files_still (writes w)" "files_still (clock env)" "files_still (cancel_boundary denv i w1 c)"
  by (auto simp: files_still_def tick_step_def pure_def lift_result_def asks_def writes_def clock_def now_step_def
      cancel_boundary_def Let_def split: option.splits)

lemma files_still_steps:
  "files_still (await env)" "files_still (check_deadline env e)" "files_still (check_processing_disk env e)"
  "files_still (ownership_boundary env i)" "files_still (save_run env i f)" "files_still (enter_stage env i st)"
  by (auto simp: await_def check_deadline_def check_processing_disk_def ownership_boundary_def save_run_def enter_stage_def
      intro!: files_still_bind files_still_basic)

lemma rows_still_steps:
  "rows_still (await env)" "rows_still (check_deadline env e)" "rows_still (clock env)"
  "rows_still (remove_run_workspace env u)"
  by (auto simp: await_def check_deadline_def clock_def remove_run_workspace_def intro!: rows_still_bind)
    (auto simp: rows_still_def tick_step_def now_step_def on_files_def split: prod.splits)

lemma files_still_D: "files_still m \<Longrightarrow> m s = (res, s') \<Longrightarrow> ds_fs s' = ds_fs s"
  by (metis files_still_def snd_conv)

lemma rows_still_D: "rows_still m \<Longrightarrow> m s = (res, s') \<Longrightarrow> ds_db s' = ds_db s"
  by (metis rows_still_def snd_conv)

text \<open>What is to be published, when the profile asks for encryption, starts with the age header.\<close>

definition protected_content :: "profile \<Rightarrow> bytes \<Rightarrow> bool" where
  "protected_content p b \<longleftrightarrow> (p_encryption p \<noteq> Enc_None \<longrightarrow> starts_with age_header (take 32 b))"

lemma transform_source_protects:
  assumes "transform_source env i p ws e st src s = (Inr (target, ext, md), s')"
    and "file_content (ds_fs s') target = Some b"
  shows "protected_content p b"
proof -
  obtain archive algorithm preset where plan:
    "compression_plan p (native_compression (sa_metadata src)) = (archive, algorithm, preset)"
    by (cases "compression_plan p (native_compression (sa_metadata src))") auto
  from assms(1) obtain source recipients passphrase s1 u where
    "transform_step env e st source target (Encrypt (p_encryption p) recipients passphrase) s1 = (Inr u, s')"
    by (auto simp: transform_source_def plan Let_def bind_step_Inr pure_def split: if_splits)
  then obtain tenv fs1 where "encrypt tenv source target (p_encryption p) recipients passphrase fs1 = (Inr u, ds_fs s')"
    by (auto simp: transform_step_def bind_step_Inr on_files_Inr)
  from encrypt_checked [OF this] assms(2) show ?thesis
    by (auto simp: protected_content_def)
qed

text \<open>Making directories does not change what a path leads to, nor any file.\<close>

definition adds_directories :: "fs \<Rightarrow> fs \<Rightarrow> bool" where
  "adds_directories fs fs' \<longleftrightarrow> (\<forall>q. node_at fs' q = node_at fs q \<or> (node_at fs q = None \<and> node_at fs' q = Some Directory))"

lemma adds_directories_refl [simp]: "adds_directories fs fs"
  by (simp add: adds_directories_def)

lemma adds_directories_put: "adds_directories fs fs1 \<Longrightarrow> node_at fs1 q = None \<Longrightarrow> adds_directories fs (put_node q Directory fs1)"
  unfolding adds_directories_def by (metis node_at_put)

lemma adds_directories_parents: "adds_directories fs fs1 \<Longrightarrow> adds_directories fs (make_parents acc p fs1)"
proof (induction acc p fs1 rule: make_parents.induct)
  case (2 acc c cs fs1)
  then show ?case by (auto simp: adds_directories_put split: option.split)
qed simp

lemma resolve_from_adds_directories:
  "adds_directories fs fs' \<Longrightarrow> resolve_from n fs' acc cs = resolve_from n fs acc cs"
proof (induction n fs acc cs rule: resolve_from.induct)
  case (3 n fs acc c cs)
  then have "node_at fs' (acc @ [c]) = node_at fs (acc @ [c]) \<or>
      (node_at fs (acc @ [c]) = None \<and> node_at fs' (acc @ [c]) = Some Directory)"
    by (simp add: adds_directories_def)
  with 3 show ?case by (cases "node_at fs (acc @ [c])") (auto split: node.split)
qed simp_all

lemma resolve_adds_directories: "adds_directories fs fs' \<Longrightarrow> resolve fs' p = resolve fs p"
  by (simp add: resolve_def resolve_from_adds_directories)

lemma publish_facts:
  "publish fenv a dir content = Inr (fin, files) \<Longrightarrow>
     fa_directory fin = dir \<and> fa_checksum fin = sha256_hex fenv content \<and> fa_size fin = length content"
  by (auto simp: publish_def bind_result_def Let_def split: sum.splits)

lemma finalize_takes_source:
  assumes "finalize_artifact fenv a fs = (Inr fin, fs')"
  shows "\<exists>content files. file_content fs (fz_source a) = Some content \<and>
    publish fenv a (fa_directory fin) content = Inr (fin, files)"
proof -
  define root where "root = resolve fs (fz_root a)"
  define fs1 where "fs1 = make_parents [] root fs"
  define pd where "pd = root @ [safe_slug (fz_profile a)]"
  define fs2 where "fs2 = (if node_at fs1 pd = None then put_node pd Directory fs1 else fs1)"
  define dir where "dir = pending_directory_path root (fz_profile a) (fz_uuid a) (fz_zone a) (fz_now a)"
  have add: "adds_directories fs fs2"
    by (simp add: fs2_def fs1_def adds_directories_put adds_directories_parents)
  from assms obtain content files where
    c: "node_at fs2 (resolve fs2 (fz_source a)) = Some (RegularFile content)" and
    p: "publish fenv a dir content = Inr (fin, files)"
    unfolding finalize_artifact_def Let_def root_def [symmetric] fs1_def [symmetric] pd_def [symmetric]
      fs2_def [symmetric] dir_def [symmetric]
    by (auto split: if_splits option.splits node.splits sum.splits)
  have "node_at fs (resolve fs (fz_source a)) = Some (RegularFile content)"
    using c add resolve_adds_directories [OF add] unfolding adds_directories_def
    by (metis node.distinct(1) option.inject)
  moreover have "fa_directory fin = dir" using publish_facts [OF p] by simp
  ultimately show ?thesis using p by (auto simp: file_content_def)
qed

lemma boundary_finds_run:
  "ownership_boundary env i s = (Inr u, s') \<Longrightarrow>
     \<exists>q. run_by_id (ds_db s') i = Some q \<and> r_lease_owner q = Some (wk_owner env) \<and> \<not> r_cancel q"
  by (auto simp: ownership_boundary_def bind_step_Inr cancel_boundary_def Let_def split: option.splits if_splits)

lemma save_run_Inr:
  "save_run env i f s = (Inr u, s') \<Longrightarrow> \<exists>t. ds_db s' = update_run i (\<lambda>q. (f q)\<lparr>r_updated := t\<rparr>) (ds_db s)"
  by (auto simp: save_run_def bind_step_Inr clock_def now_step_def writes_def)

text \<open>The row of a published run.\<close>

definition published_row :: "file_env \<Rightarrow> run \<Rightarrow> finalized \<Rightarrow> bytes \<Rightarrow> run \<Rightarrow> db \<Rightarrow> bool" where
  "published_row fenv r fin content q d \<longleftrightarrow> run_by_id d (r_id r) = Some q \<and>
     r_status q = DeliveryPending \<and> r_stage q = StPendingDelivery \<and> r_workspace q = None \<and>
     r_pending_dir q = Some (fa_directory fin) \<and> r_filename q = Some (path_name (fa_artifact fin)) \<and>
     r_final_size q = Some (int (length content)) \<and> r_sha q = Some (sha256_hex fenv content) \<and>
     final_row (r_id r) fin \<in> set (artifacts d) \<and> (\<exists>facts. manifest_row (r_id r) facts \<in> set (artifacts d))"

lemma leave_workspace_Inr:
  assumes "leave_workspace env r e s = (Inr u, s')"
  shows "\<exists>t. ds_db s' = update_run (r_id r) (\<lambda>q. q\<lparr>r_workspace := None, r_updated := t\<rparr>) (ds_db s)"
proof -
  from assms obtain s1 s2 a b where a: "remove_run_workspace env (r_uuid r) s = (Inr a, s1)"
    and b: "save_run env (r_id r) (\<lambda>q. q\<lparr>r_workspace := None\<rparr>) s1 = (Inr b, s2)"
    and c: "check_deadline env e s2 = (Inr u, s')"
    by (auto simp: leave_workspace_def bind_step_Inr)
  show ?thesis using save_run_Inr [OF b] rows_still_D [OF rows_still_steps(4) a] rows_still_D [OF rows_still_steps(2) c] by auto
qed

lemma files_still_reserve: "files_still (reserve_spool env r p e st ext)"
  unfolding reserve_spool_def Let_def by (intro files_still_bind files_still_basic files_still_steps)

lemma record_artifact_result:
  assumes "record_artifact env r e fin s = (Inr u, s')" and "fa_checksum fin = sha256_hex fenv content"
    and "fa_size fin = length content"
  shows "\<exists>q. published_row fenv r fin content q (ds_db s')"
proof -
  let ?i = "r_id r"
  from assms(1) obtain facts s1 s2 s3 t s4 u5 s5 where
    b: "ownership_boundary env ?i s2 = (Inr (), s3)" and c: "clock env s3 = (Inr t, s4)" and
    pub: "transact (publish_run ?i t fin facts) s4 = (Inr u5, s5)" and lv: "leave_workspace env r e s5 = (Inr u, s')"
    unfolding record_artifact_def by (auto elim!: bind_step_InrE)
  from boundary_finds_run [OF b] rows_still_D [OF rows_still_steps(3) c] obtain q0 where
    q0: "run_by_id (ds_db s4) ?i = Some q0" by auto
  from pub have s5: "ds_db s5 = record_run_transition ''delivery_pending'' ?i DeliveryPending StPendingDelivery None
        (update_run ?i (\<lambda>q. (pending_delivery fin t q)\<lparr>r_pending_dir := Some (fa_directory fin)\<rparr>)
          ((ds_db s4)\<lparr>artifacts := artifacts (ds_db s4) @ [final_row ?i fin, manifest_row ?i facts]\<rparr>))"
    by (auto simp: transact_def publish_run_def split: if_splits)
  from leave_workspace_Inr [OF lv] obtain t' where
    s': "ds_db s' = update_run ?i (\<lambda>q. q\<lparr>r_workspace := None, r_updated := t'\<rparr>) (ds_db s5)" by blast
  have "run_by_id (ds_db s') ?i = Some ((pending_delivery fin t q0)\<lparr>r_pending_dir := Some (fa_directory fin),
      r_workspace := None, r_updated := t'\<rparr>)"
    using q0 by (simp add: s' s5 pending_delivery_def)
  moreover have "artifacts (ds_db s') = artifacts (ds_db s4) @ [final_row ?i fin, manifest_row ?i facts]"
    by (simp add: s' s5)
  ultimately show ?thesis
    using assms(2,3) by (cases facts) (auto simp: published_row_def pending_delivery_def)
qed

lemma publish_artifact_result:
  assumes "publish_artifact env r p e st sz (target, ext, md) s = (Inr u, s')"
  shows "\<exists>q fin content files a. file_content (ds_fs s) target = Some content \<and>
    publish (files_env env) a (fa_directory fin) content = Inr (fin, files) \<and> fz_uuid a = r_uuid r \<and>
    published_row (files_env env) r fin content q (ds_db s')"
proof -
  from assms obtain z now f s1 fin s2 where rs: "reserve_spool env r p e st ext s = (Inr (z, now, f), s1)"
    and fin: "finalize_step env r p z now f target md sz s1 = (Inr fin, s2)"
    and rec: "record_artifact env r e fin s2 = (Inr u, s')"
    unfolding publish_artifact_def by (auto elim!: bind_step_InrE)
  from fin obtain a fs' where fa: "finalize_artifact (files_env env) a (ds_fs s1) = (Inr fin, fs')"
    and a: "fz_source a = target" "fz_uuid a = r_uuid r"
    by (auto simp: finalize_step_def on_files_Inr)
  from finalize_takes_source [OF fa] a files_still_D [OF files_still_reserve rs] obtain content files where
    src: "file_content (ds_fs s) target = Some content"
    and pb: "publish (files_env env) a (fa_directory fin) content = Inr (fin, files)" by auto
  from record_artifact_result [OF rec] publish_facts [OF pb] obtain q where
    "published_row (files_env env) r fin content q (ds_db s')" by blast
  with src pb a show ?thesis by blast
qed

lemma build_result:
  assumes "build env r e s = (Inr False, s')"
  shows "\<exists>p q fin content files a. run_configuration (ds_db s) r = Inr p \<and> protected_content p content \<and>
    publish (files_env env) a (fa_directory fin) content = Inr (fin, files) \<and> fz_uuid a = r_uuid r \<and>
    published_row (files_env env) r fin content q (ds_db s')"
proof -
  from assms obtain p ws st u s1 where c: "run_configuration (ds_db s) r = Inr p"
    and b: "build_artifact env r p e ws st s1 = (Inr u, s')"
    unfolding build_def
    by (auto elim!: bind_step_InrE simp: asks_def lift_result_def pure_def split: if_splits)
  from b obtain src target ext md s2 s3 where t: "transform_source env (r_id r) p ws e st src s2 = (Inr (target, ext, md), s3)"
    and pa: "publish_artifact env r p e st (sa_size src) (target, ext, md) s3 = (Inr u, s')"
    unfolding build_artifact_def by (auto elim!: bind_step_InrE)
  from publish_artifact_result [OF pa] transform_source_protects [OF t] c show ?thesis by blast
qed

section \<open>Letting go of a run\<close>

definition let_go :: "worker_env \<Rightarrow> int \<Rightarrow> delivery_state \<Rightarrow> bool" where
  "let_go env i s \<longleftrightarrow> (\<forall>q. run_by_id (ds_db s) i = Some q \<longrightarrow> \<not> (active q \<and> r_lease_owner q = Some (wk_owner env)))"

definition unleased :: "int \<Rightarrow> delivery_state \<Rightarrow> bool" where
  "unleased i s \<longleftrightarrow> (\<forall>q. run_by_id (ds_db s) i = Some q \<longrightarrow> r_lease_owner q = None)"

lemma unleased_let_go: "unleased i s \<Longrightarrow> let_go env i s"
  by (auto simp: unleased_def let_go_def)

lemma finish_unleased: "finish denv i owner st code s = (Inr u, s') \<Longrightarrow> unleased i s'"
  by (auto simp: finish_def finish_run_def unleased_def drop_lease_def writes_def asks_def lift_result_def now_step_def
      elim!: bind_step_InrE split: if_splits option.splits)

lemma conclude_unleased:
  assumes "conclude denv r owner pending s = (Inr b, s')"
  shows "unleased (r_id r) s'"
  using assms unfolding conclude_def
  by (auto elim!: bind_step_InrE dest!: finish_unleased split: if_splits prod.splits
      simp: asks_def pure_def writes_def discard_spool_def unleased_def drop_lease_def)

lemma attempt_unleased:
  assumes "attempt denv r s = (Inr b, s')"
  shows "unleased (r_id r) s'"
  using assms unfolding attempt_def Let_def
  by (auto elim!: bind_step_InrE dest!: conclude_unleased split: if_splits option.splits simp: lift_result_def)

lemma work_on_unleased:
  assumes "work_on env i s = (Inr u, s')"
  shows "unleased i s'"
  using assms unfolding work_on_def
  by (auto elim!: bind_step_InrE dest!: attempt_unleased split: if_splits option.splits
      simp: lift_result_def asks_def pure_def refreshed_def) (auto dest!: run_by_id_Some)

lemma let_go_frame [simp]:
  "let_go env i (s\<lparr>ds_tick := n\<rparr>) = let_go env i s" "let_go env i (s\<lparr>ds_fs := f\<rparr>) = let_go env i s"
  by (simp_all add: let_go_def)

lemma let_go_row:
  assumes "let_go env i s"
    and "\<And>q. r_id (f q) = r_id q \<and> r_status (f q) = r_status q \<and> r_lease_owner (f q) = r_lease_owner q"
  shows "let_go env i (s\<lparr>ds_db := update_run j f (ds_db s)\<rparr>)"
  using assms by (auto simp: let_go_def active_def)

lemma row_ids [simp]: "r_id (mark_cancelled t m q) = r_id q" "r_id (fail_row env t c m q) = r_id q"
  by (simp_all add: mark_cancelled_def drop_lease_def fail_row_def failed_row_def Let_def)

lemma let_go_keeps:
  assumes "sole_holder env i"
  shows "keeps_step (let_go env i) (other_commits env)" "keeps_step (let_go env i) (orphan_cleanup env)"
    "keeps_step (let_go env i) (try_files m)" "keeps_step (let_go env i) (clock env)" "keeps_step (let_go env i) (asks g)"
    "keeps_step (let_go env i) (pure x)" "keeps_step (let_go env i) (save_run env i (clear_cancelled_paths c b1 b2))"
proof -
  have "let_go env i (s\<lparr>ds_db := dv_others (wk_delivery env) (ds_tick s) (ds_db s), ds_tick := ds_tick s + 1\<rparr>)"
    if "let_go env i s" for s
    using assms that by (auto simp: let_go_def sole_holder_def active_def) metis
  then show "keeps_step (let_go env i) (other_commits env)"
    by (simp add: keeps_step_def triple_def other_commits_def)
  have "let_go env i (s\<lparr>ds_db := d\<rparr>)"
    if "let_go env i s" "cleanup_orphaned_mssql_artifacts b now remote (ds_db s) = (Inr a, d)" for s b now remote a d
    using that cleanup_orphans_frame [of now remote "filter orphan_candidate (cleanups (ds_db s))" "ds_db s"]
    by (auto simp: let_go_def run_by_id_def cleanup_orphaned_mssql_artifacts_def split: if_splits prod.splits sum.splits)
  from this [of "s\<lparr>ds_tick := n\<rparr>" for s n]
  have "keeps_step (let_go env i) (\<lambda>s. transact (cleanup_orphaned_mssql_artifacts True now (wk_remote_delete env (ds_tick s)))
         (s\<lparr>ds_tick := ds_tick s + 1\<rparr>))" for now
    unfolding keeps_step_def triple_def transact_def by (simp split: prod.split sum.split)
  then show "keeps_step (let_go env i) (orphan_cleanup env)"
    unfolding orphan_cleanup_def by (intro keeps_bind keeps_clock) simp_all
  show "keeps_step (let_go env i) (try_files m)" by (rule keeps_try_files) simp
  show ck: "keeps_step (let_go env i) (clock env)" by (rule keeps_clock) simp
  show "keeps_step (let_go env i) (asks g)" "keeps_step (let_go env i) (pure x)" by (rule keeps_simple)+
  show "keeps_step (let_go env i) (save_run env i (clear_cancelled_paths c b1 b2))"
    unfolding save_run_def
    by (intro keeps_bind ck keeps_writes let_go_row) (simp_all add: clear_cancelled_paths_def)
qed

lemma clean_cancelled_lets_go: "sole_holder env i \<Longrightarrow> keeps_step (let_go env i) (clean_cancelled env i c)"
  unfolding clean_cancelled_def
  by (auto intro!: keeps_bind let_go_keeps split: option.splits)

lemma finalize_cancelled_lets_go:
  assumes "sole_holder env i" and "finalize_cancelled env i s = (Inr True, s')"
  shows "let_go env i s'"
proof -
  from assms(2) obtain now s1 s2 c u where
    c: "fst (Runs.finalize_cancel_requested now i (wk_owner env) (ds_db s1)) = Some c"
    and s2: "s2 = s1\<lparr>ds_db := snd (Runs.finalize_cancel_requested now i (wk_owner env) (ds_db s1))\<rparr>"
    and r: "clean_cancelled env i c s2 = (Inr u, s')"
    unfolding finalize_cancelled_def
    by (auto elim!: bind_step_InrE simp: asks_def writes_def pure_def split: option.splits)
  have "let_go env i s2"
    using c by (auto simp: s2 let_go_def finalize_cancel_requested_def split: option.splits if_splits)
  with keeps_step_snd [OF clean_cancelled_lets_go [OF assms(1)], of s2 c] r show ?thesis by simp
qed

lemma fail_lets_go:
  assumes "fail env i code msg s = (Inr u, s')"
  shows "let_go env i s'"
proof -
  have "r_lease_owner (fail_row env t c msg q) = None" for t c q
    by (simp add: fail_row_def Let_def failed_row_def drop_lease_def)
  moreover have "\<not> active (mark_cancelled t m q)" for t m q by (rule mark_cancelled_simps)
  ultimately show ?thesis using assms
    unfolding fail_def
    by (auto elim!: bind_step_InrE simp: asks_def pure_def writes_def clock_def now_step_def on_files_def let_go_def Let_def
        split: option.splits if_splits prod.splits)
qed

lemma settle_lets_go:
  assumes "sole_holder env i" and "\<And>n. \<not> wk_lost env n" and "settle env i e s = (Inr u, s')"
  shows "let_go env i s'"
proof -
  from assms(2,3) obtain c s1 s2 where fc: "finalize_cancelled env i s1 = (Inr c, s2)"
    and rest: "(if c then pure () else if e = CancelledError then lift_result (Inl CancelledError)
         else bind_step (fail env i (exception_code e) operation_failed) (\<lambda>_. orphan_cleanup env)) s2 = (Inr u, s')"
    unfolding settle_def by (auto elim!: bind_step_InrE simp: tick_step_def)
  show ?thesis
  proof (cases c)
    case True
    with rest fc finalize_cancelled_lets_go [OF assms(1)] show ?thesis by (auto simp: pure_def)
  next
    case False
    with rest obtain u3 s3 u4 where "fail env i (exception_code e) operation_failed s2 = (Inr u3, s3)"
      "orphan_cleanup env s3 = (Inr u4, s')"
      by (auto elim!: bind_step_InrE simp: lift_result_def split: if_splits)
    with keeps_step_snd [OF let_go_keeps(2) [OF assms(1)], of s3] fail_lets_go show ?thesis by fastforce
  qed
qed

end
