(* ===== verification/WorkerDemo.thy ===== *)
theory WorkerDemo
  imports Worker
begin

text \<open>
  A concrete worker that backs up one file to an encrypted artifact: an acquisition that yields a
  tar archive, tools that succeed, age writing its header. The steps of its build are run one
  after another, from one tree of files to the next.
\<close>

section \<open>A concrete worker\<close>

definition demo_source_file :: path where
  "demo_source_file = [''wr'', demo_run_uuid, ''raw'', ''source.tar'']"

definition demo_sealed :: path where
  "demo_sealed = [''wr'', demo_run_uuid, ''final'', ''artifact.tar.age'']"

definition demo_worker_tool :: "string \<Rightarrow> string list \<Rightarrow> bytes option \<Rightarrow> fs \<Rightarrow> tool_run" where
  "demo_worker_tool exe args stdin fs = \<lparr>tr_code = 0, tr_stdout = [], tr_stderr = [], tr_duration = Some 5,
     tr_refusals = [], tr_after = (if exe = ''/usr/bin/age''
       then put_node demo_sealed (RegularFile (age_header @ ''sealed'')) fs else fs), tr_killed = (\<lambda>_. fs)\<rparr>"

definition demo_fetched :: source_artifact where
  "demo_fetched = \<lparr>sa_path = demo_source_file, sa_metadata = [(''kind'', JStr ''files'')], sa_size = 3\<rparr>"

definition demo_worker_files :: file_env where
  "demo_worker_files = demo_file_env\<lparr>json_load := (\<lambda>b. if b = utf8 (CHR ''['' # CHR 0x22 # ''age1'' @ [CHR 0x22, CHR '']'']) then Inr (JList [JStr ''age1''])
     else json_load demo_file_env b)\<rparr>"

definition demo_worker :: worker_env where
  "demo_worker = \<lparr>wk_delivery = demo_delivery_env\<lparr>dv_clock := (\<lambda>_. 0), dv_files := demo_worker_files\<rparr>, wk_owner = ''w'', wk_cipher = demo_aead,
     wk_work_root = [''wr''], wk_runtime = 3600, wk_min_free = 1000,
     wk_time = \<lparr>zoneinfo = (\<lambda>_. Some (fixed_offset 0)), croniter_next = (\<lambda>_ _ _. 0)\<rparr>,
     wk_interrupt = (\<lambda>_. None), wk_lost = (\<lambda>_. False), wk_mono = (\<lambda>n k. 0), wk_free = (\<lambda>_ _. 1000000),
     wk_tools = (\<lambda>_. \<lparr>pe_spawn = (\<lambda>_. None), pe_tool = demo_worker_tool, pe_dir_size = 4096\<rparr>),
     wk_operation = (\<lambda>_. replicate 32 (CHR ''0'')),
     wk_acquire = (\<lambda>_ _ target _ fs. \<lparr>aq_retrieved = None, aq_result = Inr demo_fetched,
       aq_files = put_node demo_source_file (RegularFile ''abc'') fs\<rparr>),
     wk_remote_delete = (\<lambda>_ _ _. None), wk_same_device = True, wk_finalize_stop = (\<lambda>_. None)\<rparr>"

definition demo_work_run :: run where
  "demo_work_run = (blank_run 0 demo_run_uuid 7 TrigManual None)\<lparr>r_id := 1, r_lease_owner := Some ''w'',
     r_lease_expires := Some 100\<rparr>"

definition demo_sealed_profile :: profile where
  "demo_sealed_profile = demo_profile\<lparr>p_encryption := AgePublicKey, p_recipients := Some (CHR ''['' # CHR 0x22 # ''age1'' @ [CHR 0x22, CHR '']''])\<rparr>"

definition demo_work_files :: fs where
  "demo_work_files = [([], Directory), ([''pending''], Directory), ([''wr''], Directory)]"

definition demo_work_db :: db where
  "demo_work_db = demo_db\<lparr>profiles := [demo_sealed_profile], runs := [demo_work_run], run_seq := 1\<rparr>"

definition demo_work_state :: delivery_state where
  "demo_work_state = \<lparr>ds_db = demo_work_db, ds_fs = demo_work_files, ds_tick = 0, ds_media = [], ds_sent = []\<rparr>"

lemma demo_worker_simps [simp]:
  "wk_owner demo_worker = ''w''" "wk_work_root demo_worker = [''wr'']" "wk_interrupt demo_worker n = None"
  "wk_lost demo_worker n = False" "wk_mono demo_worker n k = 0" "dv_others (wk_delivery demo_worker) n d = d"
  "dv_clock (wk_delivery demo_worker) n = 0" "dv_root (wk_delivery demo_worker) = [''pending'']"
  "dv_max_bytes (wk_delivery demo_worker) = 2000" "dv_files (wk_delivery demo_worker) = demo_worker_files"
  "wk_free demo_worker n fs = 1000000" "wk_min_free demo_worker = 1000"
  by (simp_all add: demo_worker_def demo_delivery_env_def)

lemma demo_worker_others: "others_advance (wk_delivery demo_worker)" "sole_holder demo_worker 1" "lease_respected demo_worker 1"
  by (simp_all add: others_advance_def sole_holder_def lease_respected_def advances_refl)

lemma demo_work_facts:
  "run_by_id demo_work_db 1 = Some demo_work_run" "r_lease_owner demo_work_run = Some ''w''" "r_id demo_work_run = 1"
  "r_pending_dir demo_work_run = None" "r_uuid demo_work_run = demo_run_uuid" "r_snapshot demo_work_run = None"
  "r_status demo_work_run = Queued" "r_cancel demo_work_run = False" "r_profile demo_work_run = 7"
  by (simp_all add: demo_work_db_def demo_work_run_def run_by_id_def blank_run_def)

lemma demo_work_ok: "runs_ok demo_work_db"
  by (simp add: runs_ok_def demo_work_db_def demo_work_run_def blank_run_def run_ok_def active_iff)

section \<open>Steps from one tree of files to the next\<close>

definition demo_running :: "fs \<Rightarrow> delivery_state \<Rightarrow> bool" where
  "demo_running fs s \<longleftrightarrow> ds_fs s = fs \<and> artifacts (ds_db s) = [] \<and> fst (get_settings (ds_db s)) = default_settings \<and>
     (\<exists>q. run_by_id (ds_db s) 1 = Some q \<and> r_lease_owner q = Some ''w'' \<and> \<not> r_cancel q)"

definition yields :: "fs \<Rightarrow> 'a step \<Rightarrow> 'a \<Rightarrow> fs \<Rightarrow> bool" where
  "yields fs m a fs' \<longleftrightarrow> (\<forall>s. demo_running fs s \<longrightarrow> (\<exists>s'. m s = (Inr a, s') \<and> demo_running fs' s'))"

lemma yields_bind: "yields fs m a mid \<Longrightarrow> yields mid (f a) b fs' \<Longrightarrow> yields fs (bind_step m f) b fs'"
  unfolding yields_def bind_step_def by fastforce

definition ends :: "fs \<Rightarrow> 'a step \<Rightarrow> 'a \<Rightarrow> bool" where
  "ends fs m a \<longleftrightarrow> (\<forall>s. demo_running fs s \<longrightarrow> (\<exists>s'. m s = (Inr a, s')))"

lemma ends_bind: "yields fs m a mid \<Longrightarrow> ends mid (f a) b \<Longrightarrow> ends fs (bind_step m f) b"
  unfolding yields_def ends_def bind_step_def by fastforce

lemma ends_then: "ends fs m a \<Longrightarrow> (\<And>s. \<exists>s'. f a s = (Inr b, s')) \<Longrightarrow> ends fs (bind_step m f) b"
  unfolding ends_def bind_step_def by fastforce

lemma yields_basic:
  "yields fs (pure a) a fs" "yields fs (lift_result (Inr a)) a fs" "yields fs (clock demo_worker) 0 fs"
  "yields fs (await demo_worker) () fs" "yields fs (tick_step (\<lambda>n s. Inr a)) a fs"
  "yields fs (asks (\<lambda>d. fst (get_settings d))) default_settings fs"
  "yields fs (asks (\<lambda>d. artifact_free d i k)) True fs"
  by (auto simp: yields_def demo_running_def pure_def lift_result_def clock_def now_step_def await_def tick_step_def asks_def
     artifact_free_def)

lemma yields_boundary: "yields fs (ownership_boundary demo_worker 1) () fs"
  unfolding ownership_boundary_def
  by (rule yields_bind [OF yields_basic(4)]) (auto simp: yields_def demo_running_def cancel_boundary_def Let_def)

lemma yields_writes:
  assumes "\<And>d. artifacts (w d) = artifacts d" "\<And>d. fst (get_settings (w d)) = fst (get_settings d)"
    "\<And>d q. run_by_id d 1 = Some q \<Longrightarrow> \<exists>q'. run_by_id (w d) 1 = Some q' \<and> r_lease_owner q' = r_lease_owner q \<and> r_cancel q' = r_cancel q"
  shows "yields fs (writes w) () fs"
  unfolding yields_def
proof (intro allI impI)
  fix s assume "demo_running fs s"
  moreover from this obtain q where "run_by_id (ds_db s) 1 = Some q" "r_lease_owner q = Some ''w''" "\<not> r_cancel q"
    by (auto simp: demo_running_def)
  moreover from this(1) obtain q' where "run_by_id (w (ds_db s)) 1 = Some q'" "r_lease_owner q' = r_lease_owner q" "r_cancel q' = r_cancel q"
    using assms(3) by blast
  ultimately show "\<exists>s'. writes w s = (Inr (), s') \<and> demo_running fs s'"
    by (simp add: demo_running_def writes_def assms(1,2))
qed

lemma get_settings_congs: "settings d' = settings d \<Longrightarrow> fst (get_settings d') = fst (get_settings d)"
  by (simp add: get_settings_def split: option.splits)

lemma yields_transition: "yields fs (writes (record_run_transition tr i s g c)) () fs"
  by (rule yields_writes) (simp_all add: get_settings_def split: option.split)

lemma yields_save:
  assumes "\<And>q. r_lease_owner (f q) = r_lease_owner q \<and> r_cancel (f q) = r_cancel q \<and> r_id (f q) = r_id q"
  shows "yields fs (save_run demo_worker 1 f) () fs"
  unfolding save_run_def
  by (rule yields_bind [OF yields_basic(3)], rule yields_writes)
    (simp_all add: get_settings_def assms split: option.split)

lemma yields_store: "yields fs (writes store_settings) () fs"
  by (rule yields_writes) (auto simp: store_settings_def get_settings_def run_by_id_def split: option.splits)

lemma yields_files: "m fs = (Inr a, fs') \<Longrightarrow> yields fs (on_files m) a fs'"
  by (auto simp: yields_def on_files_def demo_running_def)

lemma yields_stage: "yields fs (enter_stage demo_worker 1 g) () fs"
  unfolding enter_stage_def by (rule yields_bind [OF yields_boundary yields_save]) simp

lemma yields_disk: "0 < e \<Longrightarrow> yields fs (check_processing_disk demo_worker e) () fs"
  by (auto simp: yields_def check_processing_disk_def tick_step_def processing_disk_def deadline_remaining_def
     ensure_disk_capacity_def demo_running_def bind_result_def)

lemma yields_deadline: "0 < e \<Longrightarrow> yields fs (check_deadline demo_worker e) () fs"
  by (auto simp: yields_def check_deadline_def tick_step_def deadline_remaining_def demo_running_def bind_result_def)


definition demo_fs1 :: fs where "demo_fs1 = snd (create_workspace [''wr''] demo_run_uuid demo_work_files)"
definition demo_ws :: workspace where
  "demo_ws = (let p = [''wr'', demo_run_uuid] in \<lparr>ws_root = p, ws_raw = p @ [''raw''], ws_staging = p @ [''staging''],
     ws_final = p @ [''final''], ws_temp = p @ [''temp'']\<rparr>)"
definition demo_fs2 :: fs where "demo_fs2 = put_node demo_source_file (RegularFile ''abc'') demo_fs1"
definition demo_tar :: path where "demo_tar = [''wr'', demo_run_uuid, ''staging'', ''source.tar'']"
definition demo_fs3 :: fs where "demo_fs3 = put_node demo_tar (RegularFile ''abc'') demo_fs2"
definition demo_fs4 :: fs where "demo_fs4 = put_node demo_sealed (RegularFile (age_header @ ''sealed'')) demo_fs3"

lemma demo_create: "create_workspace [''wr''] demo_run_uuid demo_work_files = (Inr demo_ws, demo_fs1)"
proof -
  have "fst (create_workspace [''wr''] demo_run_uuid demo_work_files) = Inr demo_ws" by code_simp
  then show ?thesis by (simp add: demo_fs1_def prod_eq_iff)
qed

lemma demo_remove: "remove_workspace [''wr''] demo_run_uuid demo_work_files = (Inr (), demo_work_files)"
  by code_simp

lemma demo_configuration: "run_configuration demo_work_db demo_work_run = Inr demo_sealed_profile"
  by code_simp

lemma demo_fs2_facts: "file_content demo_fs2 demo_source_file = Some ''abc''" "resolve demo_fs2 demo_source_file = demo_source_file"
   "open_for_writing True demo_tar demo_fs2 = (Inr demo_tar, put_node demo_tar (RegularFile []) demo_fs2)"
  by code_simp+
lemma demo_fs3_facts: "put_node demo_tar (RegularFile ''abc'') (put_node demo_tar (RegularFile []) demo_fs2) = demo_fs3"
  "file_content demo_fs3 demo_tar = Some ''abc''" 
  "node_at demo_fs3 (resolve demo_fs3 demo_tar) = Some (RegularFile ''abc'')"
  "file_content demo_fs4 demo_sealed = Some (age_header @ ''sealed'')"
  by code_simp+

lemma demo_archive: 
  assumes "5 < e"
  shows "run_transform (stage_env demo_worker e st n) demo_source_file demo_tar (Archive Arc_Tar) demo_fs2 = (Inr (), demo_fs3)"
proof -
  have "chunks copy_chunk ''abc'' = [''abc'']"
    by (subst chunks.simps, simp add: copy_chunk_def, subst chunks.simps, simp)
  moreover have "has_tar_suffix demo_source_file" by code_simp
  moreover have "starts_with ''/'' ''/usr/bin/tar''" by code_simp
  ultimately show ?thesis using assms
  by (simp add: create_archive_def cooperative_copy_def bind_fs_def check_fs_def demo_fs2_facts demo_fs3_facts stage_env_def
     deadline_remaining_def bind_result_def check_capacity_def processing_disk_def ensure_disk_capacity_def stage_tool_def
     run_process_def demo_worker_def guard_result_def demo_worker_tool_def supervise_def Let_def output_to_def not_empty_def)
qed

lemma demo_encrypt: 
  assumes "5 < e"
  shows "run_transform (stage_env demo_worker e st n) demo_tar demo_sealed (Encrypt AgePublicKey [''age1''] None) demo_fs3 = (Inr (), demo_fs4)"
proof -
  have "starts_with ''/'' ''/usr/bin/age''" by code_simp
  moreover have "starts_with age_header (take 32 (age_header @ ''sealed''))" "age_header @ x \<noteq> []" for x by code_simp (simp add: age_header_def)
  ultimately show ?thesis using assms
  by (simp add: encrypt_def bind_fs_def check_fs_def demo_fs3_facts stage_env_def stage_room_def stat_size_def seconds_def
     deadline_remaining_def bind_result_def check_capacity_def processing_disk_def ensure_disk_capacity_def stage_tool_def
     run_process_def demo_worker_def guard_result_def demo_worker_tool_def supervise_def Let_def output_to_def not_empty_def demo_fs4_def [symmetric])
qed

definition demo_final_args :: finalize_args where
  "demo_final_args = \<lparr>fz_source = demo_sealed, fz_root = [''pending''], fz_profile = ''data'', fz_uuid = demo_run_uuid,
     fz_zone = fixed_offset 0, fz_now = 0, fz_filename = ''data_1970-01-01_00-00-00+00-00.tar.age'',
     fz_metadata = [(''kind'', JStr ''files'')], fz_max = 2000, fz_original = Some 3, fz_same_device = True, fz_interrupt = None\<rparr>"
definition demo_outcome :: finalized where
  "demo_outcome = \<lparr>fa_directory = demo_directory, fa_artifact = demo_directory @ [''data_1970-01-01_00-00-00+00-00.tar.age''],
     fa_manifest = demo_directory @ [manifest_name], fa_checksum = demo_sha, fa_size = 25,
     fa_parts = [], fa_original = Some 3\<rparr>"

definition demo_fs5 :: fs where
  "demo_fs5 = put_all [(demo_directory, Directory),
      (demo_directory @ [''data_1970-01-01_00-00-00+00-00.tar.age''], RegularFile (age_header @ ''sealed'')),
      (demo_directory @ [manifest_name], RegularFile ''manifest'')]
    (remove_node demo_sealed (put_node [''pending'', ''data''] Directory demo_fs4))"

lemma demo_fs4_facts: "resolve demo_fs4 [''pending''] = [''pending'']" "make_parents [] [''pending''] demo_fs4 = demo_fs4"
  "node_at demo_fs4 [''pending'', ''data''] = None" 
  "resolve (put_node [''pending'', ''data''] Directory demo_fs4) [''pending'', ''data''] = [''pending'', ''data'']"
  "node_at (put_node [''pending'', ''data''] Directory demo_fs4) [''pending'', ''data''] = Some Directory"
  "node_at (put_node [''pending'', ''data''] Directory demo_fs4) demo_directory = None"
  "resolve (put_node [''pending'', ''data''] Directory demo_fs4) demo_sealed = demo_sealed"
  "node_at (put_node [''pending'', ''data''] Directory demo_fs4) demo_sealed = Some (RegularFile (age_header @ ''sealed''))"
  by code_simp+

lemma demo_seal: "finalize_artifact demo_worker_files demo_final_args demo_fs4 = (Inr demo_outcome, demo_fs5)"
  using demo_fs4_facts
  by (simp add: finalize_artifact_def demo_final_args_def demo_pending demo_slug Let_def publish_def
        demo_worker_files_def demo_file_env_def demo_outcome_def demo_fs5_def bind_result_def age_header_def)

lemma demo_fs5_facts:
  "file_content demo_fs5 (fa_manifest demo_outcome) = Some ''manifest''"
  by code_simp

lemma demo_leave: "\<exists>fs6. remove_workspace [''wr''] demo_run_uuid demo_fs5 = (Inr (), fs6)"
proof -
  have "\<not> isl (fst (remove_workspace [''wr''] demo_run_uuid demo_fs5))" by code_simp
  then show ?thesis by (cases "remove_workspace [''wr''] demo_run_uuid demo_fs5"; cases "fst (remove_workspace [''wr''] demo_run_uuid demo_fs5)") auto
qed

lemma demo_stage_at:
  assumes "\<And>n. run_transform (stage_env demo_worker e default_settings n) a b tr fs = (Inr (), fs')" and "0 < e"
  shows "yields fs (transform_step demo_worker e default_settings a b tr) () fs'"
  unfolding transform_step_def
  by (rule yields_bind [OF yields_deadline [OF assms(2)]], rule yields_bind [OF yields_basic(4)])
    (auto simp: yields_def on_files_def assms(1) demo_running_def)

lemma demo_fetch: "yields demo_fs1 (fetch_source demo_worker 1 demo_sealed_profile demo_ws) demo_fetched demo_fs2"
  unfolding fetch_source_def acquire_source_def
  apply (rule yields_bind [where mid = demo_fs1 and a = "replicate 32 (CHR ''0'')"])
   apply (simp add: yields_def tick_step_def demo_worker_def demo_running_def)
  apply (simp add: mssql_source_def demo_sealed_profile_def demo_profile_def)
  apply (rule yields_bind [OF yields_basic(4)])
  apply (rule yields_bind [where mid = demo_fs2 and a = "wk_acquire demo_worker 0 demo_sealed_profile [] [] demo_fs1"])
   apply (auto simp: yields_def acquired_def demo_worker_def demo_running_def demo_fs2_def pure_def bind_step_def lift_result_def)
  done

lemma demo_plan: "compression_plan demo_sealed_profile False = (Arc_Tar, Alg_None, None)"
  by (simp add: compression_plan_def demo_sealed_profile_def demo_profile_def)

lemma demo_recipients: "age_recipients demo_worker demo_sealed_profile = Inr [''age1'']" "age_passphrase demo_worker demo_sealed_profile = Inr None"
  by (simp_all add: age_recipients_def age_passphrase_def demo_sealed_profile_def demo_profile_def demo_worker_files_def bind_result_def)

lemma demo_transforms:
  assumes "5 < e"
  shows "yields demo_fs2 (transform_source demo_worker 1 demo_sealed_profile demo_ws e default_settings demo_fetched)
    (demo_sealed, ''.tar.age'', [(''kind'', JStr ''files'')]) demo_fs4"
proof -
  have e: "p_encryption demo_sealed_profile = AgePublicKey" by (simp add: demo_sealed_profile_def)
  have m: "native_compression (sa_metadata demo_fetched) = False" "sa_path demo_fetched = demo_source_file" 
     "sa_metadata demo_fetched = [(''kind'', JStr ''files'')]" "\<not> native_compression [(''kind'', JStr ''files'')]"
    by (simp_all add: demo_fetched_def native_compression_def)
  have w: "ws_staging demo_ws @ [''source.tar''] = demo_tar" "ws_final demo_ws @ [''artifact.tar.age''] = demo_sealed" 
    by (simp_all add: demo_ws_def demo_tar_def demo_sealed_def)
  show ?thesis
    unfolding transform_source_def
    apply (simp add: m demo_plan e w Let_def demo_recipients)
    apply (rule yields_bind [OF demo_stage_at [OF demo_archive]], use assms in simp_all)
    apply (rule yields_bind [OF yields_basic(1)])
    apply (rule yields_bind [OF yields_stage])
    apply (rule yields_bind [OF yields_basic(1)])
    apply (rule yields_bind [OF yields_basic(2)])+
    apply (rule yields_bind [OF demo_stage_at [OF demo_encrypt]], use assms in simp_all)
    apply (rule yields_basic(1))
    done
qed


lemma demo_filename: "artifact_filename ''data'' (fixed_offset 0) 0 ''.tar.age'' = ''data_1970-01-01_00-00-00+00-00.tar.age''"
  by (simp add: artifact_filename_def demo_stamp demo_slug)

lemma demo_run_simps: "r_id demo_work_run = 1" "r_uuid demo_work_run = demo_run_uuid" "r_pending_dir demo_work_run = None" 
   "r_status demo_work_run = Queued" "p_name demo_sealed_profile = ''data''"
  by (simp_all add: demo_work_run_def blank_run_def demo_sealed_profile_def demo_profile_def)

lemma demo_zone: "zone_of (wk_time demo_worker) (st_timezone default_settings) = Inr (fixed_offset 0)"
  by (simp add: zone_of_def demo_worker_def default_settings_def)

lemma demo_reserve:
  assumes "5 < e"
  shows "yields fs (reserve_spool demo_worker demo_work_run demo_sealed_profile e default_settings ''.tar.age'')
    (fixed_offset 0, 0, ''data_1970-01-01_00-00-00+00-00.tar.age'') fs"
  unfolding reserve_spool_def demo_run_simps demo_zone Let_def
  apply (rule yields_bind [OF yields_disk], use assms in simp)
  apply (rule yields_bind [OF yields_stage])
  apply (rule yields_bind [OF yields_basic(3)])
  apply (rule yields_bind [OF yields_basic(2)])
  apply (rule yields_bind [OF yields_stage])
  apply (rule yields_bind [OF yields_disk], use assms in simp)
  apply (rule yields_bind [OF yields_save], simp)
  apply (rule yields_bind [OF yields_basic(4)])
  apply (simp add: demo_filename yields_basic)
  done

lemma demo_finalize_step: 
  "yields demo_fs4 (finalize_step demo_worker demo_work_run demo_sealed_profile (fixed_offset 0) 0 ''data_1970-01-01_00-00-00+00-00.tar.age''
     demo_sealed [(''kind'', JStr ''files'')] 3) demo_outcome demo_fs5"
proof -
  have a: "\<lparr>fz_source = demo_sealed, fz_root = dv_root (wk_delivery demo_worker), fz_profile = p_name demo_sealed_profile, 
        fz_uuid = r_uuid demo_work_run,
        fz_zone = fixed_offset 0, fz_now = 0, fz_filename = ''data_1970-01-01_00-00-00+00-00.tar.age'', 
        fz_metadata = [(''kind'', JStr ''files'')],
        fz_max = dv_max_bytes (wk_delivery demo_worker), fz_original = Some 3,
        fz_same_device = wk_same_device demo_worker, fz_interrupt = wk_finalize_stop demo_worker n\<rparr> = demo_final_args" for n
    by (simp add: demo_final_args_def demo_run_simps) (simp add: demo_worker_def)
  show ?thesis
    unfolding finalize_step_def a yields_def
    by (auto simp: on_files_def demo_seal demo_running_def)
qed


lemma demo_leaves:
  assumes "5 < e" and "ds_fs s = demo_fs5"
  shows "\<exists>s'. leave_workspace demo_worker demo_work_run e s = (Inr (), s')"
proof -
  obtain fs6 where "remove_workspace [''wr''] demo_run_uuid demo_fs5 = (Inr (), fs6)" using demo_leave by blast
  with assms show ?thesis
    by (simp add: leave_workspace_def remove_run_workspace_def bind_step_def await_def tick_step_def on_files_def demo_run_simps
      save_run_def clock_def now_step_def writes_def check_deadline_def deadline_remaining_def bind_result_def)
qed

lemma demo_record: 
  assumes "5 < e" and "demo_running demo_fs5 s"
  shows "\<exists>s'. record_artifact demo_worker demo_work_run e demo_outcome s = (Inr (), s')"
proof -
  let ?f = "(8 :: int, demo_sha)"
  have f: "yields demo_fs5 (manifest_facts demo_worker demo_outcome) ?f demo_fs5"
    unfolding manifest_facts_def
    by (rule yields_bind [OF yields_basic(4)]) (auto simp: yields_def demo_running_def demo_fs5_facts demo_worker_files_def demo_file_env_def)
  obtain s1 where s1: "ownership_boundary demo_worker 1 s = (Inr (), s1)" "demo_running demo_fs5 s1" 
    using assms(2) yields_boundary unfolding yields_def by blast
  with f obtain s2 where s2: "manifest_facts demo_worker demo_outcome s1 = (Inr ?f, s2)" "demo_running demo_fs5 s2" 
    unfolding yields_def by blast
  then obtain s3 where s3: "ownership_boundary demo_worker 1 s2 = (Inr (), s3)" "demo_running demo_fs5 s3" 
    using yields_boundary unfolding yields_def by blast
  then obtain s4 where s4: "clock demo_worker s3 = (Inr 0, s4)" "demo_running demo_fs5 s4" 
    using yields_basic(3) unfolding yields_def by blast
  then obtain s5 where s5: "transact (publish_run 1 0 demo_outcome ?f) s4 = (Inr (), s5)" "ds_fs s5 = demo_fs5"
    by (auto simp: transact_def publish_run_def artifact_free_def demo_running_def)
  from demo_leaves [OF assms(1) s5(2)] show ?thesis
    by (simp add: record_artifact_def demo_run_simps bind_step_def s1 s2 s3 s4 s5)
qed

lemma demo_build:
  assumes "5 < e"
  shows "\<exists>s'. build demo_worker demo_work_run e demo_work_state = (Inr False, s')"
proof -
  have e: "0 < e" using assms by simp
  have run0: "demo_running demo_work_files demo_work_state"
    by (simp add: demo_running_def demo_work_state_def demo_work_facts) (simp add: demo_work_db_def demo_db_def empty_db_def get_settings_def)
  have resume: "yields demo_work_files (resume_finalized demo_worker demo_work_run e) False demo_work_files"
    unfolding resume_finalized_def demo_run_simps
    by (rule yields_bind [OF yields_deadline [OF e]]) (simp add: yields_basic)
  have start: "yields demo_work_files (begin_run demo_worker demo_work_run) () demo_work_files"
    unfolding begin_run_def demo_run_simps
    by (rule yields_bind [OF yields_boundary], rule yields_bind [OF yields_basic(3)], rule yields_bind [OF yields_save], simp)
      (simp add: yields_transition)
  have removed: "yields demo_work_files (on_files (remove_workspace [''wr''] demo_run_uuid)) () demo_work_files"
    by (rule yields_files, rule demo_remove)
  have created: "yields demo_work_files (on_files (create_workspace [''wr''] demo_run_uuid)) demo_ws demo_fs1"
    by (rule yields_files, rule demo_create)
  have workspace: "yields demo_work_files (prepare_workspace demo_worker demo_work_run e) demo_ws demo_fs1"
    unfolding prepare_workspace_def remove_run_workspace_def demo_run_simps demo_worker_simps
    by (rule yields_bind [OF yields_bind [OF yields_basic(4) removed]],
        rule yields_bind [OF created], rule yields_bind [OF yields_save], simp,
        rule yields_bind [OF yields_disk [OF e] yields_basic(1)])
  have check: "yields demo_fs2 (\<lambda>s. (guard_result (source_ready (ds_fs s) (sa_path demo_fetched)) (ValueError ''source backup is empty''), s)) () demo_fs2"
    by (auto simp: yields_def demo_running_def source_ready_def demo_fetched_def demo_fs2_facts guard_result_def)
  have persist: "yields demo_fs2 (persist_acquisition demo_worker 1 (sa_metadata demo_fetched) (sa_size demo_fetched)) () demo_fs2"
  proof -
    have "guard_result (0 \<le> sa_size demo_fetched) x = Inr ()" for x by (simp add: guard_result_def demo_fetched_def)
    then show ?thesis unfolding persist_acquisition_def
      by (simp only:) (rule yields_bind [OF yields_basic(2)], rule yields_bind [OF yields_boundary yields_save], simp)
  qed


  have size: "sa_size demo_fetched = 3" by (simp add: demo_fetched_def)
  have sealed: "ends demo_fs4 (publish_artifact demo_worker demo_work_run demo_sealed_profile e default_settings (sa_size demo_fetched)
      (demo_sealed, ''.tar.age'', [(''kind'', JStr ''files'')])) ()"
    unfolding publish_artifact_def prod.case
    by (rule ends_bind [OF demo_reserve [OF assms]], unfold prod.case, unfold size,
        rule ends_bind [OF demo_finalize_step]) (simp add: ends_def demo_record [OF assms])
  have artifact: "ends demo_fs1 (build_artifact demo_worker demo_work_run demo_sealed_profile e demo_ws default_settings) ()"
    unfolding build_artifact_def demo_run_simps
    by (rule ends_bind [OF demo_fetch], rule ends_bind [OF persist], rule ends_bind [OF yields_store],
        rule ends_bind [OF yields_disk [OF e]], rule ends_bind [OF check], rule ends_bind [OF yields_stage],
        rule ends_bind [OF demo_transforms [OF assms]], rule sealed)
  have "ends demo_work_files (bind_step (resume_finalized demo_worker demo_work_run e) (\<lambda>resumed.
     if resumed then pure True
     else bind_step (begin_run demo_worker demo_work_run) (\<lambda>_.
          bind_step (prepare_workspace demo_worker demo_work_run e) (\<lambda>ws.
          bind_step (asks (\<lambda>d. fst (get_settings d))) (\<lambda>st.
          bind_step (build_artifact demo_worker demo_work_run demo_sealed_profile e ws st) (\<lambda>_. pure False)))))) False"
    by (rule ends_bind [OF resume], simp, rule ends_bind [OF start], rule ends_bind [OF workspace], 
        rule ends_bind [OF yields_basic(6)], rule ends_then [OF artifact]) (simp add: pure_def)
  with run0 show ?thesis
    by (simp add: build_def bind_step_def [of "asks _"] bind_step_def [of "lift_result _"] asks_def lift_result_def ends_def
       demo_configuration) (simp add: demo_work_state_def demo_configuration)
qed

section \<open>A run that is cancelled before it starts\<close>

definition demo_cancelled_state :: delivery_state where
  "demo_cancelled_state = demo_work_state\<lparr>ds_db := demo_work_db\<lparr>runs := [demo_work_run\<lparr>r_cancel := True\<rparr>]\<rparr>\<rparr>"

lemma demo_clean_cancelled:
  assumes "cc_workspace c = None" and "cc_pending c = None" and "cleanups (ds_db s) = []"
    and "run_by_id (ds_db s) 1 = Some q"
  shows "\<exists>s' q'. clean_cancelled demo_worker 1 c s = (Inr (), s') \<and> run_by_id (ds_db s') 1 = Some q'"
  using assms
  by (cases "r_status q = Cancelled") (simp_all add: clean_cancelled_def bind_step_def pure_def other_commits_def asks_def
      save_run_def clock_def now_step_def writes_def orphan_cleanup_def transact_def cleanup_orphaned_mssql_artifacts_def
      clear_cancelled_paths_def)

lemma demo_execute_cancelled:
  "\<exists>s' q. execute demo_worker 1 demo_cancelled_state = (Inr (), s') \<and> run_by_id (ds_db s') 1 = Some q"
proof -
  let ?r = "demo_work_run\<lparr>r_cancel := True\<rparr>"
  let ?d = "demo_work_db\<lparr>runs := [?r]\<rparr>"
  have r: "run_by_id ?d 1 = Some ?r" "active ?r"
    by (simp_all add: run_by_id_def demo_work_facts active_iff)
  have w: "work_on demo_worker 1 demo_cancelled_state = (Inl CancelledError, demo_cancelled_state)"
    using r by (simp add: work_on_def bind_step_def asks_def lift_result_def demo_cancelled_state_def demo_work_state_def)
  let ?d1 = "record_run_transition ''cancelled'' 1 Cancelled StComplete (Some ''CANCELLED'') (update_run 1 (mark_cancelled 0 ''run cancelled'') ?d)"
  let ?c = "\<lparr>cc_run = 1, cc_uuid = demo_run_uuid, cc_workspace = None, cc_pending = None\<rparr>"
  have f: "Runs.finalize_cancel_requested 0 1 ''w'' ?d = (Some ?c, ?d1)"
    using r by (simp add: Runs.finalize_cancel_requested_def demo_work_facts) (simp add: demo_work_run_def blank_run_def)
  have d1: "run_by_id ?d1 1 = Some (mark_cancelled 0 ''run cancelled'' ?r)" "cleanups ?d1 = []"
    using r by (simp_all add: demo_work_db_def demo_db_def empty_db_def)
  obtain s' q where "clean_cancelled demo_worker 1 ?c (demo_cancelled_state\<lparr>ds_db := ?d1, ds_tick := 3\<rparr>) = (Inr (), s')"
    "run_by_id (ds_db s') 1 = Some q"
    using demo_clean_cancelled [of ?c "demo_cancelled_state\<lparr>ds_db := ?d1, ds_tick := 3\<rparr>"] d1 by auto
  then show ?thesis
    unfolding execute_def w using f by (simp add: settle_def bind_step_def tick_step_def finalize_cancelled_def other_commits_def
      clock_def now_step_def asks_def writes_def pure_def demo_cancelled_state_def demo_work_state_def numeral_3_eq_3)
qed

end
