(* ===== verification/WorkerRuns.thy ===== *)
theory WorkerRuns
  imports WorkerDemo
begin

text \<open>
  What \<^verbatim>\<open>PipelineRunner.execute\<close> of \<^verbatim>\<open>src/src/pipeline/worker.py\<close> guarantees.
\<close>

section \<open>Properties\<close>







end
