(* ===== verification/SourceBudget.thy ===== *)
theory SourceBudget
  imports Deadline
begin

text \<open>
  \<^verbatim>\<open>SourceBudget\<close> of \<^verbatim>\<open>src/src/pipeline/acquisition/common.py\<close>: how much one acquisition may
  still take from its source. The disk check that each addition makes is an argument, its answer.
\<close>

record source_limits =
  sl_bytes :: int
  sl_files :: int
  sl_file_size :: int
  sl_depth :: int

record source_budget =
  sb_bytes :: int
  sb_files :: int

definition fresh_budget :: source_budget where
  "fresh_budget = \<lparr>sb_bytes = 0, sb_files = 0\<rparr>"

definition check_depth :: "source_limits \<Rightarrow> int \<Rightarrow> unit result" where
  "check_depth lim depth = guard_result (\<not> sl_depth lim < depth)
     (PipelineError ''SOURCE_DEPTH_LIMIT'' ''source directory depth limit exceeded'')"

definition validate_addition :: "source_limits \<Rightarrow> source_budget \<Rightarrow> int \<Rightarrow> int \<Rightarrow> unit result" where
  "validate_addition lim b bytes_added files_added =
     (if sl_bytes lim < sb_bytes b + bytes_added
      then Inl (PipelineError ''SOURCE_BYTES_LIMIT'' ''source byte limit exceeded'')
      else if sl_files lim < sb_files b + files_added
      then Inl (PipelineError ''SOURCE_FILE_COUNT_LIMIT'' ''source file-count limit exceeded'')
      else Inr ())"

definition validate_file_size :: "source_limits \<Rightarrow> int \<Rightarrow> unit result" where
  "validate_file_size lim sz = guard_result (\<not> sl_file_size lim < sz)
     (PipelineError ''SOURCE_FILE_SIZE_LIMIT'' ''source single-file limit exceeded'')"

text \<open>\<open>disk\<close> answers \<^verbatim>\<open>check_disk\<close> for a number of bytes.\<close>

definition preflight_streamed_file :: "source_limits \<Rightarrow> source_budget \<Rightarrow> int \<Rightarrow> (int \<Rightarrow> unit result) \<Rightarrow> unit result" where
  "preflight_streamed_file lim b sz disk =
     bind_result (validate_file_size lim sz) (\<lambda>_.
     bind_result (validate_addition lim b sz 1) (\<lambda>_. disk (sz + 1024)))"

definition add_known_file :: "source_limits \<Rightarrow> source_budget \<Rightarrow> int \<Rightarrow> (int \<Rightarrow> unit result) \<Rightarrow> source_budget result" where
  "add_known_file lim b sz disk =
     bind_result (validate_file_size lim sz) (\<lambda>_.
     bind_result (validate_addition lim b sz 1) (\<lambda>_.
     bind_result (disk (sz + 1024)) (\<lambda>_. Inr (b\<lparr>sb_bytes := sb_bytes b + sz, sb_files := sb_files b + 1\<rparr>))))"

definition begin_streamed_file :: "source_limits \<Rightarrow> source_budget \<Rightarrow> source_budget result" where
  "begin_streamed_file lim b =
     bind_result (validate_addition lim b 0 1) (\<lambda>_. Inr (b\<lparr>sb_files := sb_files b + 1\<rparr>))"

definition add_streamed_chunk ::
  "source_limits \<Rightarrow> source_budget \<Rightarrow> int \<Rightarrow> int \<Rightarrow> (int \<Rightarrow> unit result) \<Rightarrow> source_budget result" where
  "add_streamed_chunk lim b sz file_bytes disk =
     bind_result (guard_result (\<not> sl_file_size lim < file_bytes + sz)
       (PipelineError ''SOURCE_FILE_SIZE_LIMIT'' ''source single-file limit exceeded'')) (\<lambda>_.
     bind_result (validate_addition lim b sz 0) (\<lambda>_.
     bind_result (disk (sz + 1024)) (\<lambda>_. Inr (b\<lparr>sb_bytes := sb_bytes b + sz\<rparr>))))"

definition commit_scanned :: "source_limits \<Rightarrow> source_budget \<Rightarrow> int \<Rightarrow> int \<Rightarrow> source_budget result" where
  "commit_scanned lim b bytes_added files_added =
     bind_result (validate_addition lim b bytes_added files_added) (\<lambda>_.
       Inr (b\<lparr>sb_bytes := sb_bytes b + bytes_added, sb_files := sb_files b + files_added\<rparr>))"

section \<open>The limits hold\<close>

definition within_limits :: "source_limits \<Rightarrow> source_budget \<Rightarrow> bool" where
  "within_limits lim b \<longleftrightarrow> sb_bytes b \<le> sl_bytes lim \<and> sb_files b \<le> sl_files lim"

lemma validate_addition_Inr:
  "validate_addition lim b k n = Inr u \<longleftrightarrow> sb_bytes b + k \<le> sl_bytes lim \<and> sb_files b + n \<le> sl_files lim"
  by (auto simp: validate_addition_def)

lemma add_known_file_Inr:
  "add_known_file lim b sz disk = Inr b' \<longleftrightarrow> sz \<le> sl_file_size lim \<and> sb_bytes b + sz \<le> sl_bytes lim \<and>
     sb_files b + 1 \<le> sl_files lim \<and> disk (sz + 1024) = Inr () \<and>
     b' = b\<lparr>sb_bytes := sb_bytes b + sz, sb_files := sb_files b + 1\<rparr>"
  by (auto simp: add_known_file_def bind_result_Inr validate_file_size_def guard_result_def validate_addition_Inr)

text \<open>Every way of adding to the budget, and the budgets it leads to.\<close>

inductive budget_step :: "source_limits \<Rightarrow> source_budget \<Rightarrow> source_budget \<Rightarrow> bool" for lim where
  known: "add_known_file lim b sz disk = Inr b' \<Longrightarrow> budget_step lim b b'"
| begun: "begin_streamed_file lim b = Inr b' \<Longrightarrow> budget_step lim b b'"
| chunk: "add_streamed_chunk lim b sz file_bytes disk = Inr b' \<Longrightarrow> 0 \<le> sz \<Longrightarrow> budget_step lim b b'"
| scanned: "commit_scanned lim b k n = Inr b' \<Longrightarrow> budget_step lim b b'"

lemma budget_step_within:
  assumes "budget_step lim b b'" and "within_limits lim b"
  shows "within_limits lim b'"
  using assms
  by cases (auto simp: within_limits_def add_known_file_Inr begin_streamed_file_def add_streamed_chunk_def
      commit_scanned_def bind_result_Inr validate_addition_Inr)

lemma budget_within:
  assumes "(budget_step lim)\<^sup>*\<^sup>* b b'" and "within_limits lim b"
  shows "within_limits lim b'"
  using assms by (induction rule: rtranclp_induct) (auto intro: budget_step_within)

end
