(* ===== verification/LocalFiles.thy ===== *)
theory LocalFiles
  imports SourcePaths SourceBudget "HOL-Library.List_Lexorder" "HOL-Library.Char_ord"
begin

text \<open>
  \<^verbatim>\<open>src/src/pipeline/acquisition/local_files.py\<close>: packing local files and directories into a tar
  archive while the source may change at any moment. The file system is what its system calls
  show: a graph of inodes with the names that directories give them, another one at every event.
\<close>

section \<open>The file system as seen through system calls\<close>

datatype file_kind = KindFile | KindDirectory | KindLink | KindSocket | KindFifo | KindChar | KindBlock | KindOther

text \<open>\<^verbatim>\<open>os.stat_result\<close>, its mode split into kind and permission bits.\<close>

record file_stat =
  st_dev :: int
  st_ino :: int
  st_kind :: file_kind
  st_mode :: int
  st_uid :: int
  st_gid :: int
  st_size :: int
  st_mtime :: int
  st_ctime :: int

text \<open>
  An open descriptor holds on to an inode. The pair of device and number that \<^verbatim>\<open>stat\<close> reports
  does not identify an inode for ever: the number of a deleted one is given out again.
\<close>

type_synonym inode = nat

record inode_world =
  iw_stat :: "inode \<Rightarrow> file_stat"
  iw_names :: "inode \<Rightarrow> (string \<times> inode) list"
  iw_bytes :: "inode \<Rightarrow> bytes"

text \<open>What an exception carries besides its code and its message, and running out of fuel.\<close>

datatype failure = Raised exn "string option" | OutOfFuel

text \<open>
  \<open>le_fault n\<close> is the error of the \<open>n\<close>th system call, if it fails for a reason of its own, like a
  missing permission; \<open>le_write\<close> is the same for writing the archive. Looking up a whole path,
  which follows links in its directories, is answered by \<open>le_lstat\<close> and \<open>le_realpath\<close>.
  \<open>le_backup n i\<close> is a backup by SQLite of an inode: how often it reports its progress, the inode
  of the copy, and what the integrity check of the copy says.
\<close>

record source_env =
  le_world :: "nat \<Rightarrow> inode_world"
  le_root :: inode
  le_fault :: "nat \<Rightarrow> exn option"
  le_write :: "nat \<Rightarrow> exn option"
  le_lstat :: "nat \<Rightarrow> string \<Rightarrow> file_stat result"
  le_realpath :: "nat \<Rightarrow> string \<Rightarrow> string result"
  le_access :: "nat \<Rightarrow> string \<Rightarrow> bool"
  le_backup :: "nat \<Rightarrow> inode \<Rightarrow> nat \<times> (inode \<times> bool) result"
  le_expires :: "time option"
  le_mono :: "nat \<Rightarrow> time"
  le_stop :: "nat \<Rightarrow> exn option"
  le_free :: "nat \<Rightarrow> int result"
  le_mapper :: path_mapper
  le_min_free :: int
  le_limits :: source_limits

section \<open>The archive under construction\<close>

record tar_member =
  tar_name :: string
  tar_directory :: bool
  tar_mode :: int
  tar_uid :: int
  tar_gid :: int
  tar_mtime :: int
  tar_content :: bytes

record skipped_entry =
  sk_reason :: string
  sk_type :: string
  sk_path :: string

record archive_state =
  as_tick :: nat
  as_budget :: source_budget
  as_members :: "tar_member list"
  as_skipped :: "skipped_entry list"

type_synonym 'a walk = "archive_state \<Rightarrow> (failure + 'a) \<times> archive_state"

definition bind_walk :: "'a walk \<Rightarrow> ('a \<Rightarrow> 'b walk) \<Rightarrow> 'b walk" where
  "bind_walk m f s = (case m s of (Inl e, s') \<Rightarrow> (Inl e, s') | (Inr a, s') \<Rightarrow> f a s')"

definition done_walk :: "'a \<Rightarrow> 'a walk" where
  "done_walk a s = (Inr a, s)"

definition raise_walk :: "failure \<Rightarrow> 'a walk" where
  "raise_walk e s = (Inl e, s)"

definition pipeline_failure :: "string \<Rightarrow> string \<Rightarrow> failure" where
  "pipeline_failure code msg = Raised (PipelineError code msg) None"

definition require :: "bool \<Rightarrow> failure \<Rightarrow> unit walk" where
  "require ok e = (if ok then done_walk () else raise_walk e)"

definition update_walk :: "(archive_state \<Rightarrow> archive_state) \<Rightarrow> unit walk" where
  "update_walk f s = (Inr (), f s)"

primrec each_walk :: "('x \<Rightarrow> unit walk) \<Rightarrow> 'x list \<Rightarrow> unit walk" where
  "each_walk f [] = done_walk ()"
| "each_walk f (x # xs) = bind_walk (f x) (\<lambda>_. each_walk f xs)"

text \<open>\<^verbatim>\<open>except\<close> clauses: \<open>handle m sel h\<close> runs \<open>h\<close> on the failures that \<open>sel\<close> picks.\<close>

definition handle_walk :: "'a walk \<Rightarrow> (failure \<Rightarrow> bool) \<Rightarrow> (failure \<Rightarrow> 'a walk) \<Rightarrow> 'a walk" where
  "handle_walk m sel h s = (case m s of (Inl e, s') \<Rightarrow> if sel e then h e s' else (Inl e, s') | (Inr a, s') \<Rightarrow> (Inr a, s'))"

fun is_os_error :: "failure \<Rightarrow> bool" where
  "is_os_error (Raised (OSError c) r) = True"
| "is_os_error _ = False"

definition permission_denied :: "failure \<Rightarrow> bool" where
  "permission_denied e \<longleftrightarrow> e = Raised (OSError ''PermissionError'') None"

text \<open>One event: the world as it is then, unless the call fails by itself.\<close>

definition event :: "(nat \<Rightarrow> (failure + 'a)) \<Rightarrow> 'a walk" where
  "event f s = (f (as_tick s), s\<lparr>as_tick := as_tick s + 1\<rparr>)"

fun raised :: "'a result \<Rightarrow> failure + 'a" where
  "raised (Inl e) = Inl (Raised e None)"
| "raised (Inr a) = Inr a"

definition lift_walk :: "'a result \<Rightarrow> 'a walk" where
  "lift_walk r s = (raised r, s)"

definition system_call :: "source_env \<Rightarrow> (inode_world \<Rightarrow> 'a result) \<Rightarrow> 'a walk" where
  "system_call env f = event (\<lambda>n. case le_fault env n of
       Some e \<Rightarrow> Inl (Raised e None) | None \<Rightarrow> raised (f (le_world env n)))"

definition no_entry :: exn where
  "no_entry = OSError ''FileNotFoundError''"

text \<open>\<^verbatim>\<open>os.stat(name, dir_fd=..., follow_symlinks=False)\<close>\<close>

definition sys_stat :: "source_env \<Rightarrow> inode \<Rightarrow> string \<Rightarrow> file_stat walk" where
  "sys_stat env d name = system_call env (\<lambda>w. case map_of (iw_names w d) name of
     None \<Rightarrow> Inl no_entry | Some i \<Rightarrow> Inr (iw_stat w i))"

text \<open>\<^verbatim>\<open>os.open\<close> with \<^verbatim>\<open>O_NOFOLLOW\<close>, and with \<^verbatim>\<open>O_DIRECTORY\<close> or \<^verbatim>\<open>O_NONBLOCK\<close>\<close>

definition sys_open :: "source_env \<Rightarrow> inode \<Rightarrow> string \<Rightarrow> bool \<Rightarrow> inode walk" where
  "sys_open env d name directory = system_call env (\<lambda>w. case map_of (iw_names w d) name of
     None \<Rightarrow> Inl no_entry
   | Some i \<Rightarrow> (case st_kind (iw_stat w i) of
         KindLink \<Rightarrow> Inl (OSError ''OSError'')
       | KindDirectory \<Rightarrow> Inr i
       | k \<Rightarrow> if directory then Inl (OSError ''NotADirectoryError'')
              else if k = KindSocket then Inl (OSError ''OSError'') else Inr i))"

definition sys_fstat :: "source_env \<Rightarrow> inode \<Rightarrow> file_stat walk" where
  "sys_fstat env i = system_call env (\<lambda>w. Inr (iw_stat w i))"

definition sys_list :: "source_env \<Rightarrow> inode \<Rightarrow> string list walk" where
  "sys_list env d = system_call env (\<lambda>w. Inr (map fst (iw_names w d)))"

definition sys_read :: "source_env \<Rightarrow> inode \<Rightarrow> nat \<Rightarrow> nat \<Rightarrow> bytes walk" where
  "sys_read env i offset n = system_call env (\<lambda>w. Inr (take n (drop offset (iw_bytes w i))))"

definition write_archive :: "source_env \<Rightarrow> unit walk" where
  "write_archive env = event (\<lambda>n. case le_write env n of None \<Rightarrow> Inr () | Some e \<Rightarrow> Inl (Raised e None))"

definition add_member :: "source_env \<Rightarrow> tar_member \<Rightarrow> unit walk" where
  "add_member env m = bind_walk (write_archive env) (\<lambda>_. update_walk (\<lambda>s. s\<lparr>as_members := as_members s @ [m]\<rparr>))"

definition skip_entry :: "string \<Rightarrow> string \<Rightarrow> string \<Rightarrow> unit walk" where
  "skip_entry reason kind p =
     update_walk (\<lambda>s. s\<lparr>as_skipped := as_skipped s @ [\<lparr>sk_reason = reason, sk_type = kind, sk_path = p\<rparr>]\<rparr>)"

section \<open>Budget checks\<close>

definition disk_answer :: "source_env \<Rightarrow> nat \<Rightarrow> int \<Rightarrow> unit result" where
  "disk_answer env n required =
     bind_result (case le_expires env of None \<Rightarrow> Inr ()
       | Some t \<Rightarrow> bind_result (deadline_remaining t (le_mono env n)) (\<lambda>_. Inr ())) (\<lambda>_.
     bind_result (case le_stop env n of None \<Rightarrow> Inr () | Some e \<Rightarrow> Inl e) (\<lambda>_.
     bind_result (le_free env n) (\<lambda>free. ensure_disk_capacity free (le_min_free env) required)))"

definition check_disk :: "source_env \<Rightarrow> int \<Rightarrow> unit walk" where
  "check_disk env required = event (\<lambda>n. raised (disk_answer env n required))"

definition account_file :: "source_env \<Rightarrow> int \<Rightarrow> unit walk" where
  "account_file env sz s =
     (case add_known_file (le_limits env) (as_budget s) sz (disk_answer env (as_tick s)) of
        Inl e \<Rightarrow> (Inl (Raised e None), s\<lparr>as_tick := as_tick s + 1\<rparr>)
      | Inr b \<Rightarrow> (Inr (), s\<lparr>as_budget := b, as_tick := as_tick s + 1\<rparr>))"

section \<open>Opening\<close>

definition same_inode :: "file_stat \<Rightarrow> file_stat \<Rightarrow> bool" where
  "same_inode a b \<longleftrightarrow> st_dev a = st_dev b \<and> st_ino a = st_ino b \<and> st_kind a = st_kind b"

definition unchanged_file :: "file_stat \<Rightarrow> file_stat \<Rightarrow> bool" where
  "unchanged_file a b \<longleftrightarrow> same_inode a b \<and> st_size a = st_size b \<and> st_mtime a = st_mtime b \<and> st_ctime a = st_ctime b"

definition source_changed :: "string \<Rightarrow> failure" where
  "source_changed msg = pipeline_failure ''SOURCE_CHANGED'' msg"

definition unsafe_source :: "string \<Rightarrow> failure" where
  "unsafe_source msg = pipeline_failure ''UNSAFE_SOURCE'' msg"

definition traversal_changed :: failure where
  "traversal_changed = source_changed ''source changed during secure traversal''"

definition open_verified_at :: "source_env \<Rightarrow> inode \<Rightarrow> string \<Rightarrow> file_stat \<Rightarrow> bool \<Rightarrow> (inode \<times> file_stat) walk" where
  "open_verified_at env d name expected directory =
     bind_walk (require (st_kind expected \<noteq> KindLink) (unsafe_source ''source tree contains a symbolic link'')) (\<lambda>_.
     bind_walk (require (directory \<longrightarrow> st_kind expected = KindDirectory) traversal_changed) (\<lambda>_.
     bind_walk (require (directory \<or> st_kind expected = KindFile)
       (unsafe_source ''source tree contains a special file'')) (\<lambda>_.
     bind_walk (handle_walk (sys_open env d name directory) (\<lambda>e. is_os_error e \<and> \<not> permission_denied e)
       (\<lambda>_. raise_walk traversal_changed)) (\<lambda>i.
     bind_walk (sys_fstat env i) (\<lambda>opened.
     bind_walk (require (directory \<longrightarrow> st_kind opened = KindDirectory)
       (source_changed ''source directory changed before it was opened'')) (\<lambda>_.
     bind_walk (require (directory \<or> st_kind opened = KindFile)
       (unsafe_source ''source tree contains a special file'')) (\<lambda>_.
     bind_walk (require (same_inode expected opened)
       (source_changed ''source inode changed before it was opened'')) (\<lambda>_.
       done_walk (i, opened)))))))))"

text \<open>The loop of \<^verbatim>\<open>_open_local_root\<close> over the components of the path.\<close>

fun open_parts :: "source_env \<Rightarrow> inode \<Rightarrow> string list \<Rightarrow> (inode \<times> file_stat) walk" where
  "open_parts env d [] = raise_walk (unsafe_source ''source is not a regular file or directory'')"
| "open_parts env d (name # rest) =
     bind_walk (handle_walk (sys_stat env d name) is_os_error (\<lambda>_. raise_walk traversal_changed)) (\<lambda>expected.
     bind_walk (open_verified_at env d name expected (rest \<noteq> [] \<or> st_kind expected = KindDirectory)) (\<lambda>(i, opened).
       if rest \<noteq> [] then open_parts env i rest
       else bind_walk (require (st_kind opened = KindFile \<or> st_kind opened = KindDirectory)
              (unsafe_source ''source is not a regular file or directory'')) (\<lambda>_. done_walk (i, opened))))"

definition open_local_root :: "source_env \<Rightarrow> string \<Rightarrow> (inode \<times> file_stat) walk" where
  "open_local_root env text =
     bind_walk (require (pp_root (pure_path text) \<noteq> []) (unsafe_source ''local source path must be absolute'')) (\<lambda>_.
     bind_walk (handle_walk (system_call env (\<lambda>w. Inr (le_root env))) is_os_error
       (\<lambda>_. raise_walk (unsafe_source ''source path is unavailable''))) (\<lambda>root.
       if pp_segments (pure_path text) = []
       then bind_walk (sys_fstat env root) (\<lambda>opened. done_walk (root, opened))
       else open_parts env root (pp_segments (pure_path text))))"

section \<open>Validating\<close>

definition rejected :: "string \<Rightarrow> string \<Rightarrow> failure" where
  "rejected msg reason = Raised (PipelineError ''UNSAFE_SOURCE'' msg) (Some reason)"

fun error_reason :: "exn \<Rightarrow> string" where
  "error_reason (LocalSourcePathError reason msg) = reason"
| "error_reason _ = []"

text \<open>A check of the mapper, whose errors all carry a reason.\<close>

definition mapped :: "string \<Rightarrow> 'a result \<Rightarrow> 'a walk" where
  "mapped msg r = (case r of Inl e \<Rightarrow> raise_walk (rejected msg (error_reason e)) | Inr a \<Rightarrow> done_walk a)"

definition path_lstat :: "source_env \<Rightarrow> string \<Rightarrow> file_stat walk" where
  "path_lstat env text = event (\<lambda>n. raised (le_lstat env n text))"

definition path_resolve :: "source_env \<Rightarrow> string \<Rightarrow> string walk" where
  "path_resolve env text = event (\<lambda>n. raised (le_realpath env n text))"

definition validated_local_source :: "source_env \<Rightarrow> string \<Rightarrow> (string \<times> file_stat) walk" where
  "validated_local_source env raw =
     bind_walk (mapped ''local source path was rejected'' (container_path (le_mapper env) raw)) (\<lambda>text.
     bind_walk (handle_walk (path_lstat env text) is_os_error
       (\<lambda>_. raise_walk (rejected ''source path is unavailable'' ''unavailable''))) (\<lambda>initial.
     bind_walk (require (st_kind initial \<noteq> KindLink)
       (rejected ''symbolic-link sources are not allowed'' ''symlink_escape'')) (\<lambda>_.
     bind_walk (handle_walk (path_resolve env text) is_os_error
       (\<lambda>_. raise_walk (rejected ''source path is unavailable'' ''unavailable''))) (\<lambda>resolved.
     bind_walk (mapped ''resolved local source escaped its configured root''
       (validate_container_path (le_mapper env) resolved)) (\<lambda>_.
     bind_walk (require (st_kind initial = KindFile \<or> st_kind initial = KindDirectory)
       (rejected ''source is not a regular file or directory'' ''unsafe_object'')) (\<lambda>_.
       done_walk (text, initial)))))))"

text \<open>What the form and the path report ask: opened and closed again, never read.\<close>

definition may_search :: "source_env \<Rightarrow> string \<Rightarrow> bool walk" where
  "may_search env text = event (\<lambda>n. Inr (le_access env n text))"

definition preflight_local_source :: "source_env \<Rightarrow> string \<Rightarrow> string walk" where
  "preflight_local_source env raw =
     bind_walk (validated_local_source env raw) (\<lambda>(text, initial).
     bind_walk (open_local_root env text) (\<lambda>(i, opened).
     bind_walk (require (same_inode initial opened) (source_changed ''source changed during validation'')) (\<lambda>_.
     bind_walk (if st_kind opened = KindDirectory then may_search env text else done_walk True) (\<lambda>readable.
     bind_walk (require readable (rejected ''source is unreadable'' ''unavailable'')) (\<lambda>_.
       done_walk (if st_kind opened = KindDirectory then ''directory'' else ''file''))))))"

fun is_refusal :: "failure \<Rightarrow> bool" where
  "is_refusal (Raised (OSError c) r) = True"
| "is_refusal (Raised (PipelineError c m) r) = True"
| "is_refusal (Raised (ValueError m) r) = True"
| "is_refusal (Raised (LocalSourcePathError c m) r) = True"
| "is_refusal _ = False"

definition local_source_available :: "source_env \<Rightarrow> string \<Rightarrow> bool walk" where
  "local_source_available env raw = handle_walk
     (bind_walk (validated_local_source env raw) (\<lambda>(text, initial).
      bind_walk (open_local_root env text) (\<lambda>(i, opened).
        if \<not> same_inode initial opened then done_walk False
        else if st_kind opened = KindDirectory then may_search env text else done_walk True)))
     is_refusal (\<lambda>_. done_walk False)"

definition verify_path_identity :: "source_env \<Rightarrow> string \<Rightarrow> file_stat \<Rightarrow> unit walk" where
  "verify_path_identity env text expected =
     bind_walk (handle_walk (path_lstat env text) is_os_error
       (\<lambda>_. raise_walk (source_changed ''source path changed during acquisition''))) (\<lambda>current.
       require (same_inode expected current) (source_changed ''source path changed during acquisition''))"

section \<open>Archiving\<close>

text \<open>\<^verbatim>\<open>tarfile\<close> copies a member of \<open>n\<close> bytes in blocks of this size, the last one short.\<close>

definition copy_block :: nat where
  "copy_block = 16 * 1024"

definition block_sizes :: "nat \<Rightarrow> nat list" where
  "block_sizes n = replicate (n div copy_block) copy_block @ (if n mod copy_block = 0 then [] else [n mod copy_block])"

text \<open>Each block is asked for after a disk check; a short one ends the copy.\<close>

primrec copy_blocks :: "source_env \<Rightarrow> inode \<Rightarrow> nat list \<Rightarrow> nat \<Rightarrow> bytes walk" where
  "copy_blocks env i [] offset = done_walk []"
| "copy_blocks env i (k # ks) offset =
     bind_walk (check_disk env 0) (\<lambda>_.
     bind_walk (sys_read env i offset k) (\<lambda>b.
     bind_walk (require (length b = k) (Raised (OSError ''unexpected end of data'') None)) (\<lambda>_.
     bind_walk (write_archive env) (\<lambda>_.
     bind_walk (copy_blocks env i ks (offset + k)) (\<lambda>rest. done_walk (b @ rest))))))"

definition tar_information :: "string \<Rightarrow> file_stat \<Rightarrow> bool \<Rightarrow> bytes \<Rightarrow> tar_member" where
  "tar_information arcname st directory content =
     \<lparr>tar_name = arcname, tar_directory = directory, tar_mode = st_mode st, tar_uid = st_uid st, tar_gid = st_gid st,
      tar_mtime = st_mtime st, tar_content = content\<rparr>"

definition add_file :: "source_env \<Rightarrow> inode \<Rightarrow> file_stat \<Rightarrow> string \<Rightarrow> unit walk" where
  "add_file env i st arcname =
     bind_walk (write_archive env) (\<lambda>_.
     bind_walk (copy_blocks env i (block_sizes (nat (st_size st))) 0) (\<lambda>content.
     bind_walk (if nat (st_size st) mod 512 = 0 then done_walk () else write_archive env) (\<lambda>_.
       update_walk (\<lambda>s. s\<lparr>as_members := as_members s @ [tar_information arcname st False content]\<rparr>))))"

definition archive_open_file :: "source_env \<Rightarrow> inode \<Rightarrow> file_stat \<Rightarrow> string \<Rightarrow> unit walk" where
  "archive_open_file env i opened arcname =
     bind_walk (sys_fstat env i) (\<lambda>before.
     bind_walk (require (same_inode opened before \<and> st_kind before = KindFile)
       (source_changed ''source changed before it was archived'')) (\<lambda>_.
     bind_walk (account_file env (st_size before)) (\<lambda>_.
     bind_walk (handle_walk (add_file env i before arcname) is_os_error
       (\<lambda>_. raise_walk (source_changed ''source changed while it was being archived''))) (\<lambda>_.
     bind_walk (sys_fstat env i) (\<lambda>after.
     bind_walk (require (unchanged_file before after)
       (source_changed ''source changed while it was being archived'')) (\<lambda>_.
       check_disk env 0))))))"

text \<open>The recursion is on fuel; the depth limit is what bounds it.\<close>

fun special_type :: "file_kind \<Rightarrow> string" where
  "special_type KindSocket = ''socket''"
| "special_type KindFifo = ''fifo''"
| "special_type KindChar = ''character_device''"
| "special_type KindBlock = ''block_device''"
| "special_type _ = ''unsupported''"

text \<open>\<^verbatim>\<open>except PermissionError\<close>: the entry is recorded and passed over.\<close>

definition unless_denied :: "'a walk \<Rightarrow> string \<Rightarrow> string \<Rightarrow> ('a \<Rightarrow> unit walk) \<Rightarrow> unit walk" where
  "unless_denied m kind relative use =
     bind_walk (handle_walk (bind_walk m (\<lambda>a. done_walk (Some a))) permission_denied (\<lambda>_. done_walk None)) (\<lambda>found.
       case found of None \<Rightarrow> skip_entry ''unreadable'' kind relative | Some a \<Rightarrow> use a)"

definition child_path :: "string \<Rightarrow> string \<Rightarrow> string" where
  "child_path parent name = parent @ ''/'' @ name"

definition archive_entry ::
  "source_env \<Rightarrow> (inode \<Rightarrow> file_stat \<Rightarrow> string \<Rightarrow> string \<Rightarrow> unit walk) \<Rightarrow> inode \<Rightarrow> string \<Rightarrow> string \<Rightarrow> string \<Rightarrow> unit walk" where
  "archive_entry env archive_subdirectory d arcname relative name =
     bind_walk (check_disk env 0) (\<lambda>_.
     unless_denied (handle_walk (sys_stat env d name) (\<lambda>e. is_os_error e \<and> \<not> permission_denied e)
         (\<lambda>_. raise_walk (source_changed ''source entry changed during traversal'')))
       ''unknown'' (child_path relative name) (\<lambda>expected.
       case st_kind expected of
         KindLink \<Rightarrow> skip_entry ''symlink'' ''symlink'' (child_path relative name)
       | KindDirectory \<Rightarrow>
           unless_denied (open_verified_at env d name expected True) ''directory'' (child_path relative name)
             (\<lambda>(i, opened). archive_subdirectory i opened (child_path arcname name) (child_path relative name))
       | KindFile \<Rightarrow>
           unless_denied (open_verified_at env d name expected False) ''regular_file'' (child_path relative name)
             (\<lambda>(i, opened). archive_open_file env i opened (child_path arcname name))
       | kind \<Rightarrow> skip_entry ''special_file'' (special_type kind) (child_path relative name)))"

definition directory_unchanged :: "file_stat \<Rightarrow> file_stat \<Rightarrow> bool" where
  "directory_unchanged a b \<longleftrightarrow> same_inode a b \<and> st_mtime a = st_mtime b \<and> st_ctime a = st_ctime b"

primrec archive_directory ::
  "nat \<Rightarrow> source_env \<Rightarrow> int \<Rightarrow> inode \<Rightarrow> file_stat \<Rightarrow> string \<Rightarrow> string \<Rightarrow> unit walk" where
  "archive_directory 0 env depth d opened arcname relative = raise_walk OutOfFuel"
| "archive_directory (Suc fuel) env depth d opened arcname relative =
     bind_walk (lift_walk (check_depth (le_limits env) depth)) (\<lambda>_.
     bind_walk (sys_fstat env d) (\<lambda>before.
     bind_walk (require (same_inode opened before \<and> st_kind before = KindDirectory)
       (source_changed ''source directory changed during traversal'')) (\<lambda>_.
     bind_walk (add_member env (tar_information arcname before True [])) (\<lambda>_.
     bind_walk (check_disk env 0) (\<lambda>_.
     unless_denied (handle_walk (sys_list env d) (\<lambda>e. is_os_error e \<and> \<not> permission_denied e)
         (\<lambda>_. raise_walk (source_changed ''source directory changed during traversal'')))
       ''directory'' relative (\<lambda>names.
         bind_walk (each_walk (archive_entry env (archive_directory fuel env (depth + 1)) d arcname relative) (sort names)) (\<lambda>_.
         bind_walk (sys_fstat env d) (\<lambda>after.
           require (directory_unchanged before after)
             (source_changed ''source directory changed during traversal'')))))))))"

section \<open>SQLite files\<close>

definition check_integrity :: "(inode \<times> bool) result \<Rightarrow> inode walk" where
  "check_integrity r = (case r of
       Inl e \<Rightarrow> raise_walk (Raised e None)
     | Inr (copy, ok) \<Rightarrow> if ok then done_walk copy
         else raise_walk (pipeline_failure ''SQLITE_VERIFY_FAILED'' ''SQLite integrity check failed''))"

definition snapshot_sqlite :: "source_env \<Rightarrow> inode \<Rightarrow> inode walk" where
  "snapshot_sqlite env i =
     bind_walk (event (\<lambda>n. Inr (le_backup env n i))) (\<lambda>(pages, res).
     bind_walk (each_walk (\<lambda>_. check_disk env 0) [0..<pages]) (\<lambda>_. check_integrity res))"

definition archive_sqlite :: "source_env \<Rightarrow> inode \<Rightarrow> string \<Rightarrow> unit walk" where
  "archive_sqlite env i arcname =
     bind_walk (snapshot_sqlite env i) (\<lambda>copy.
     bind_walk (sys_fstat env copy) (\<lambda>st. archive_open_file env copy st arcname))"

section \<open>Packing the sources of a profile\<close>

definition member_root :: "nat \<Rightarrow> string" where
  "member_root index = ''sources/'' @ show_nat index"

definition last_component :: "string \<Rightarrow> string" where
  "last_component text = (case rev (pp_segments (pure_path text)) of [] \<Rightarrow> [] | name # _ \<Rightarrow> name)"

definition archive_source :: "nat \<Rightarrow> source_env \<Rightarrow> nat \<Rightarrow> bool \<Rightarrow> string \<Rightarrow> inode \<Rightarrow> file_stat \<Rightarrow> unit walk" where
  "archive_source fuel env index sqlite text i opened =
     (let root = member_root index; arcname = child_path root (last_component text)
      in if sqlite \<and> st_kind opened = KindFile then archive_sqlite env i arcname
         else if st_kind opened = KindFile then archive_open_file env i opened arcname
         else if st_kind opened = KindDirectory then archive_directory fuel env 0 i opened root root
         else raise_walk (unsafe_source ''source is not a regular file or directory''))"

definition package_source :: "nat \<Rightarrow> source_env \<Rightarrow> nat \<times> backup_path \<Rightarrow> string walk" where
  "package_source fuel env item =
     bind_walk (validated_local_source env (bp_path (snd item))) (\<lambda>(text, validated).
     bind_walk (handle_walk (open_local_root env text) permission_denied
       (\<lambda>_. raise_walk (rejected ''selected source is unreadable'' ''unavailable''))) (\<lambda>(i, opened).
     bind_walk (require (same_inode validated opened) (source_changed ''source inode changed after validation'')) (\<lambda>_.
     bind_walk (archive_source fuel env (fst item) (bp_sqlite (snd item)) text i opened) (\<lambda>_.
     bind_walk (verify_path_identity env text opened) (\<lambda>_.
       done_walk (if st_kind opened = KindDirectory then ''directory'' else ''file''))))))"

text \<open>Fuel that the depth limit never lets run out.\<close>

definition source_fuel :: "source_env \<Rightarrow> nat" where
  "source_fuel env = nat (sl_depth (le_limits env)) + 2"

primrec collect_walk :: "('x \<Rightarrow> 'a walk) \<Rightarrow> 'x list \<Rightarrow> 'a list walk" where
  "collect_walk f [] = done_walk []"
| "collect_walk f (x # xs) = bind_walk (f x) (\<lambda>a. bind_walk (collect_walk f xs) (\<lambda>as. done_walk (a # as)))"

definition fresh_archive :: archive_state where
  "fresh_archive = \<lparr>as_tick = 0, as_budget = fresh_budget, as_members = [], as_skipped = []\<rparr>"

definition package_local :: "nat \<Rightarrow> source_env \<Rightarrow> files_source option \<Rightarrow> string list walk" where
  "package_local fuel env source =
     (case source of
        None \<Rightarrow> raise_walk (pipeline_failure ''UNSUPPORTED_SOURCE'' ''remote file acquisition is unavailable'')
      | Some x \<Rightarrow>
          bind_walk (require (f_location x = LocalSource)
            (pipeline_failure ''UNSUPPORTED_SOURCE'' ''remote file acquisition is unavailable'')) (\<lambda>_.
          bind_walk (check_disk env 0) (\<lambda>_.
          bind_walk (write_archive env) (\<lambda>_.
          bind_walk (collect_walk (package_source fuel env) (enumerate 0 (f_paths x))) (\<lambda>kinds.
          bind_walk (write_archive env) (\<lambda>_. done_walk kinds))))))"

definition count_skipped :: "string list \<Rightarrow> skipped_entry list \<Rightarrow> int" where
  "count_skipped reasons xs = int (length (filter (\<lambda>x. sk_reason x \<in> set reasons) xs))"

definition skipped_json :: "skipped_entry \<Rightarrow> json" where
  "skipped_json x = JObj [(''reason'', JStr (sk_reason x)), (''entry_type'', JStr (sk_type x)),
     (''relative_path'', JStr (sk_path x))]"

definition package_metadata :: "string list \<Rightarrow> archive_state \<Rightarrow> (string \<times> json) list" where
  "package_metadata kinds s =
     [(''source_kinds'', JList (map JStr kinds)), (''original_size_bytes'', JInt (sb_bytes (as_budget s))),
      (''skipped_symlinks'', JInt (count_skipped [''symlink''] (as_skipped s))),
      (''skipped_special_files'', JInt (count_skipped [''special_file''] (as_skipped s))),
      (''skipped_unreadable_entries'', JInt (int (length (filter (\<lambda>x. sk_reason x \<notin> {''symlink'', ''special_file''}) (as_skipped s))))),
      (''skipped_entries'', JList (map skipped_json (as_skipped s)))]"

section \<open>Acquiring\<close>

text \<open>\<^verbatim>\<open>_verify_tar\<close> of \<^verbatim>\<open>remote_files.py\<close>: members by their names and whether they are files or directories.\<close>

definition unsafe_member :: "string \<times> bool \<Rightarrow> bool" where
  "unsafe_member m \<longleftrightarrow> pp_root (pure_path (fst m)) \<noteq> [] \<or> ''..'' \<in> set (pp_segments (pure_path (fst m))) \<or> \<not> snd m"

definition verify_tar :: "source_env \<Rightarrow> (string \<times> bool) list \<Rightarrow> unit walk" where
  "verify_tar env ms = each_walk (\<lambda>m.
     bind_walk (event (\<lambda>n. raised (case le_expires env of None \<Rightarrow> Inr ()
       | Some t \<Rightarrow> bind_result (deadline_remaining t (le_mono env n)) (\<lambda>_. Inr ())))) (\<lambda>_.
     bind_walk (event (\<lambda>n. case le_stop env n of None \<Rightarrow> Inr () | Some e \<Rightarrow> Inl (Raised e None))) (\<lambda>_.
       require (\<not> unsafe_member m) (pipeline_failure ''UNSAFE_ARCHIVE'' ''source archive contains unsafe entries'')))) ms"

text \<open>The local branch of \<^verbatim>\<open>acquire\<close>: the metadata and the logical size of the artifact.\<close>

definition acquire_local :: "source_env \<Rightarrow> files_source option \<Rightarrow> ((string \<times> json) list \<times> int) walk" where
  "acquire_local env source =
     bind_walk (package_local (source_fuel env) env source) (\<lambda>kinds s.
       bind_walk (verify_tar env (map (\<lambda>m. (tar_name m, True)) (as_members s))) (\<lambda>_.
         done_walk ([(''kind'', JStr ''files''), (''verified'', JBool True)] @ package_metadata kinds s,
           sb_bytes (as_budget s))) s)"

end
