(* ===== verification/ArchivedSources.thy ===== *)
theory ArchivedSources
  imports LocalFiles
begin

text \<open>
  What an archive of local sources holds, whatever happens to the sources meanwhile: where its
  members come from, how much they are, and that the walk ends.
\<close>

section \<open>The walk ends\<close>

definition never_starved :: "'a walk \<Rightarrow> bool" where
  "never_starved m \<longleftrightarrow> (\<forall>s. fst (m s) \<noteq> Inl OutOfFuel)"

lemma fuel_bind: "never_starved m \<Longrightarrow> (\<And>a. never_starved (f a)) \<Longrightarrow> never_starved (bind_walk m f)"
  by (auto simp: never_starved_def bind_walk_def split: prod.splits sum.splits) (metis fst_conv)+

lemma fuel_handle: "never_starved m \<Longrightarrow> (\<And>e. never_starved (h e)) \<Longrightarrow> never_starved (handle_walk m sel h)"
  by (auto simp: never_starved_def handle_walk_def split: prod.splits sum.splits) (metis fst_conv)+

lemma raised_fuel: "raised r \<noteq> Inl OutOfFuel"
  by (cases r) simp_all

lemma fuel_basic [simp]:
  "never_starved (done_walk a)" "never_starved (raise_walk (Raised e r))" "never_starved (update_walk f)"
  "never_starved (lift_walk res)" "never_starved (system_call env g)" "never_starved (write_archive env)"
  "never_starved (check_disk env k)" "never_starved (account_file env k)" "never_starved (path_lstat env t)" "never_starved (path_resolve env t)"
  by (auto simp: never_starved_def done_walk_def raise_walk_def update_walk_def lift_walk_def system_call_def event_def
      write_archive_def check_disk_def account_file_def path_lstat_def path_resolve_def raised_fuel split: option.split sum.split)

lemma fuel_failures [simp]:
  "never_starved (raise_walk (source_changed m))" "never_starved (raise_walk (unsafe_source m))" "never_starved (raise_walk (rejected m c))"
  "never_starved (raise_walk traversal_changed)" "never_starved (raise_walk (pipeline_failure c m))"
  by (simp_all add: source_changed_def unsafe_source_def rejected_def traversal_changed_def pipeline_failure_def)

lemma fuel_require [simp]:
  "never_starved (require b (source_changed m))" "never_starved (require b (unsafe_source m))" "never_starved (require b (rejected m c))"
  "never_starved (require b traversal_changed)" "never_starved (require b (pipeline_failure c m))" "never_starved (require b (Raised e r))"
  by (simp_all add: require_def)

lemma fuel_calls [simp]:
  "never_starved (sys_stat env d n)" "never_starved (sys_open env d n b)" "never_starved (sys_fstat env d)" "never_starved (sys_list env d)"
  "never_starved (sys_read env d k j)" "never_starved (skip_entry x y z)" "never_starved (mapped w res)"
  by (simp_all add: sys_stat_def sys_open_def sys_fstat_def sys_list_def sys_read_def skip_entry_def mapped_def split: sum.splits)

lemma fuel_each: "(\<And>x. never_starved (f x)) \<Longrightarrow> never_starved (each_walk f xs)"
  by (induction xs) (auto intro: fuel_bind)

lemma fuel_collect: "(\<And>x. never_starved (f x)) \<Longrightarrow> never_starved (collect_walk f xs)"
  by (induction xs) (auto intro!: fuel_bind)

lemma fuel_open_verified [simp]: "never_starved (open_verified_at env d name st b)"
  unfolding open_verified_at_def by (intro fuel_bind fuel_handle) simp_all

lemma fuel_open_parts [simp]: "never_starved (open_parts env d ns)"
  by (induction env d ns rule: open_parts.induct) (auto intro!: fuel_bind fuel_handle)

lemma fuel_open_root [simp]: "never_starved (open_local_root env t)"
  by (auto simp: open_local_root_def intro!: fuel_bind fuel_handle)

lemma fuel_validated [simp]: "never_starved (validated_local_source env raw)"
  by (auto simp: validated_local_source_def intro!: fuel_bind fuel_handle)

lemma fuel_copy [simp]: "never_starved (copy_blocks env i ks off)"
  by (induction ks arbitrary: off) (auto intro!: fuel_bind)

lemma fuel_archive_file [simp]: "never_starved (archive_open_file env i st a)"
  by (auto simp: archive_open_file_def add_file_def intro!: fuel_bind fuel_handle)

lemma fuel_unless_denied: "never_starved m \<Longrightarrow> (\<And>a. never_starved (use a)) \<Longrightarrow> never_starved (unless_denied m k p use)"
  by (auto simp: unless_denied_def intro!: fuel_bind fuel_handle split: option.split)

lemma fuel_archive_entry:
  assumes "\<And>i st a r. never_starved (sub i st a r)"
  shows "never_starved (archive_entry env sub d a r name)"
  unfolding archive_entry_def
  by (intro fuel_bind fuel_unless_denied fuel_handle)
    (auto split: file_kind.split intro!: fuel_unless_denied simp: assms)

lemma fuel_archive_sqlite [simp]: "never_starved (archive_sqlite env i a)"
proof -
  have "never_starved (event (\<lambda>n. Inr (le_backup env n i)))" by (simp add: never_starved_def event_def)
  moreover have "never_starved (check_integrity r)" for r by (auto simp: check_integrity_def split: sum.split prod.split)
  ultimately show ?thesis
    by (auto simp: archive_sqlite_def snapshot_sqlite_def intro!: fuel_bind fuel_each)
qed

text \<open>The depth check is passed only while it leaves fuel for the next level.\<close>

lemma directory_fuel:
  assumes "nat (sl_depth (le_limits env) + 1 - depth) < fuel"
  shows "never_starved (archive_directory fuel env depth d opened a r)"
  using assms
proof (induction fuel arbitrary: depth d opened a r)
  case (Suc fuel)
  show ?case
  proof (cases "sl_depth (le_limits env) < depth")
    case True
    then show ?thesis
      by (simp add: never_starved_def bind_walk_def lift_walk_def check_depth_def guard_result_def)
  next
    case False
    with Suc.prems have "nat (sl_depth (le_limits env) + 1 - (depth + 1)) < fuel" by linarith
    note IH = Suc.IH [OF this]
    show ?thesis
      by (auto simp: add_member_def intro!: fuel_bind fuel_handle fuel_unless_denied fuel_each fuel_archive_entry IH)
  qed
qed simp

lemma package_source_fuel:
  assumes "source_fuel env \<le> fuel"
  shows "never_starved (package_source fuel env item)"
proof -
  from assms have "nat (sl_depth (le_limits env) + 1 - 0) < fuel" by (simp add: source_fuel_def)
  note directory = directory_fuel [OF this]
  show ?thesis
    by (auto simp: package_source_def archive_source_def Let_def verify_path_identity_def directory
        intro!: fuel_bind fuel_handle)
qed

lemma package_local_fuel:
  assumes "source_fuel env \<le> fuel"
  shows "never_starved (package_local fuel env source)"
  by (auto simp: package_local_def split: option.split intro!: fuel_bind fuel_collect package_source_fuel [OF assms])

text \<open>More fuel than that changes nothing.\<close>

lemma directory_fuel_irrelevant:
  assumes "nat (sl_depth (le_limits env) + 1 - depth) < f" and "nat (sl_depth (le_limits env) + 1 - depth) < g"
  shows "archive_directory f env depth = archive_directory g env depth"
  using assms
proof (induction f arbitrary: depth g)
  case (Suc f)
  then obtain k where g: "g = Suc k" by (cases g) auto
  show ?case
  proof (cases "sl_depth (le_limits env) < depth")
    case True
    then show ?thesis
      by (simp add: g fun_eq_iff bind_walk_def lift_walk_def check_depth_def guard_result_def)
  next
    case False
    with Suc.prems g have "archive_directory f env (depth + 1) = archive_directory k env (depth + 1)"
      by (intro Suc.IH) linarith+
    note deeper = this
    show ?thesis unfolding g by (intro ext) (simp add: deeper)
  qed
qed simp

lemma package_local_more_fuel:
  assumes "source_fuel env \<le> fuel"
  shows "package_local fuel env source = package_local (source_fuel env) env source"
proof -
  have "nat (sl_depth (le_limits env) + 1 - 0) < source_fuel env" by (simp add: source_fuel_def)
  with assms have "archive_directory fuel env 0 = archive_directory (source_fuel env) env 0"
    by (intro directory_fuel_irrelevant) linarith+
  note walk = this
  have "package_source fuel env = package_source (source_fuel env) env"
    by (intro ext) (simp only: package_source_def archive_source_def walk)
  then show ?thesis unfolding package_local_def by (rule arg_cong)
qed

section \<open>What the archive gains\<close>

definition content_bytes :: "tar_member list \<Rightarrow> int" where
  "content_bytes ms = int (sum_list (map (length \<circ> tar_content) ms))"

definition file_members :: "tar_member list \<Rightarrow> int" where
  "file_members ms = int (length (filter (\<lambda>m. \<not> tar_directory m) ms))"

lemma member_counts [simp]:
  "content_bytes [] = 0" "content_bytes (ms @ ns) = content_bytes ms + content_bytes ns"
  "file_members [] = 0" "file_members (ms @ ns) = file_members ms + file_members ns"
  "content_bytes [m] = int (length (tar_content m))" "file_members [m] = (if tar_directory m then 0 else 1)"
  by (simp_all add: content_bytes_def file_members_def)

text \<open>
  From one state to a later one: new members, all of them fit, accounted for in the budget.
\<close>

definition gains :: "source_env \<Rightarrow> (tar_member \<Rightarrow> bool) \<Rightarrow> archive_state \<Rightarrow> archive_state \<Rightarrow> bool" where
  "gains env fit s s' \<longleftrightarrow> as_tick s \<le> as_tick s' \<and>
     (within_limits (le_limits env) (as_budget s) \<longrightarrow> within_limits (le_limits env) (as_budget s')) \<and>
     (\<exists>new. as_members s' = as_members s @ new \<and>
        (\<forall>m \<in> set new. fit m \<and> (tar_directory m \<or> int (length (tar_content m)) \<le> sl_file_size (le_limits env))) \<and>
        sb_bytes (as_budget s') = sb_bytes (as_budget s) + content_bytes new \<and>
        sb_files (as_budget s') = sb_files (as_budget s) + file_members new)"

lemma gains_refl: "as_members s' = as_members s \<Longrightarrow> as_budget s' = as_budget s \<Longrightarrow> as_tick s \<le> as_tick s' \<Longrightarrow> gains env fit s s'"
  by (simp add: gains_def)

lemma gains_trans: "gains env fit s s1 \<Longrightarrow> gains env fit s1 s2 \<Longrightarrow> gains env fit s s2"
  unfolding gains_def by (elim conjE exE, intro conjI) (auto intro!: exI [of _ "_ @ _"])

lemma gains_weaken: "gains env fit s s' \<Longrightarrow> (\<And>m. fit m \<Longrightarrow> fit' m) \<Longrightarrow> gains env fit' s s'"
  by (fastforce simp: gains_def)

text \<open>Walks that only look, and walks whose success is a gain.\<close>

definition looks :: "'a walk \<Rightarrow> bool" where
  "looks m \<longleftrightarrow> (\<forall>s. as_members (snd (m s)) = as_members s \<and> as_budget (snd (m s)) = as_budget s \<and>
     as_tick s \<le> as_tick (snd (m s)))"

definition grows :: "source_env \<Rightarrow> (tar_member \<Rightarrow> bool) \<Rightarrow> 'a walk \<Rightarrow> bool" where
  "grows env fit m \<longleftrightarrow> (\<forall>s a s'. m s = (Inr a, s') \<longrightarrow> gains env fit s s')"

lemma looks_D: "looks m \<Longrightarrow> m s = (r, s') \<Longrightarrow>
    as_members s' = as_members s \<and> as_budget s' = as_budget s \<and> as_tick s \<le> as_tick s'"
  by (metis looks_def snd_conv)

lemma grows_D: "grows env fit m \<Longrightarrow> m s = (Inr a, s') \<Longrightarrow> gains env fit s s'"
  by (simp add: grows_def)

lemma looks_grows: "looks m \<Longrightarrow> grows env fit m"
  by (auto simp: grows_def intro!: gains_refl dest: looks_D)

definition looks_at :: "'a walk \<Rightarrow> archive_state \<Rightarrow> bool" where
  "looks_at m s \<longleftrightarrow> as_members (snd (m s)) = as_members s \<and> as_budget (snd (m s)) = as_budget s \<and>
     as_tick s \<le> as_tick (snd (m s))"

lemma looks_iff: "looks m \<longleftrightarrow> (\<forall>s. looks_at m s)"
  by (simp add: looks_def looks_at_def)

lemma looks_bind: "looks m \<Longrightarrow> (\<And>a. looks (f a)) \<Longrightarrow> looks (bind_walk m f)"
  unfolding looks_iff
proof (intro allI)
  fix s assume m: "\<forall>s. looks_at m s" and f: "\<And>a. \<forall>s. looks_at (f a) s"
  show "looks_at (bind_walk m f) s"
    using m [rule_format, of s] f [rule_format, of "projr (fst (m s))" "snd (m s)"]
    by (cases "m s"; cases "fst (m s)") (auto simp: looks_at_def bind_walk_def)
qed

lemma looks_handle: "looks m \<Longrightarrow> (\<And>e. looks (h e)) \<Longrightarrow> looks (handle_walk m sel h)"
  unfolding looks_iff
proof (intro allI)
  fix s assume m: "\<forall>s. looks_at m s" and h: "\<And>e. \<forall>s. looks_at (h e) s"
  show "looks_at (handle_walk m sel h) s"
    using m [rule_format, of s] h [rule_format, of "projl (fst (m s))" "snd (m s)"]
    by (cases "m s"; cases "fst (m s)") (auto simp: looks_at_def handle_walk_def)
qed

lemma bind_walk_Inr:
  "bind_walk m f s = (Inr b, s') \<longleftrightarrow> (\<exists>a s1. m s = (Inr a, s1) \<and> f a s1 = (Inr b, s'))"
  by (auto simp: bind_walk_def split: prod.splits sum.splits)

lemma bind_walk_InrE:
  assumes "bind_walk m f s = (Inr b, s')"
  obtains a s1 where "m s = (Inr a, s1)" and "f a s1 = (Inr b, s')"
  using assms by (auto simp: bind_walk_Inr)

lemma grows_bind:
  assumes "grows env fit m" and "\<And>a s s1. m s = (Inr a, s1) \<Longrightarrow> grows env fit (f a)"
  shows "grows env fit (bind_walk m f)"
  using assms unfolding grows_def bind_walk_Inr by (blast intro: gains_trans)

lemma looks_basic [simp]:
  "looks (done_walk a)" "looks (raise_walk e)" "looks (require b e)" "looks (lift_walk res)" "looks (event g)"
  "looks (skip_entry x y z)" "looks (mapped w res)"
  by (auto simp: looks_def done_walk_def raise_walk_def require_def lift_walk_def event_def skip_entry_def update_walk_def
      mapped_def split: sum.split)

lemma looks_calls [simp]:
  "looks (system_call env h)" "looks (sys_stat env d n)" "looks (sys_open env d n b)" "looks (sys_fstat env d)"
  "looks (sys_list env d)" "looks (sys_read env d k j)" "looks (write_archive env)" "looks (check_disk env req)"
  "looks (path_lstat env t)" "looks (path_resolve env t)"
  by (simp_all add: system_call_def sys_stat_def sys_open_def sys_fstat_def sys_list_def sys_read_def write_archive_def
      check_disk_def path_lstat_def path_resolve_def)

lemma looks_each: "(\<And>x. looks (f x)) \<Longrightarrow> looks (each_walk f xs)"
  by (induction xs) (auto intro: looks_bind)

lemma looks_open_verified [simp]: "looks (open_verified_at env d name st b)"
  unfolding open_verified_at_def by (intro looks_bind looks_handle) simp_all

lemma looks_open_parts [simp]: "looks (open_parts env d ns)"
  by (induction env d ns rule: open_parts.induct) (auto intro!: looks_bind looks_handle)

lemma looks_open_root [simp]: "looks (open_local_root env t)"
  by (auto simp: open_local_root_def intro!: looks_bind looks_handle)

lemma looks_validated [simp]: "looks (validated_local_source env raw)" "looks (verify_path_identity env t st)"
  by (auto simp: validated_local_source_def verify_path_identity_def intro!: looks_bind looks_handle)

lemma looks_copy [simp]: "looks (copy_blocks env i ks off)"
  by (induction ks arbitrary: off) (auto intro!: looks_bind)

lemma looks_snapshot [simp]: "looks (snapshot_sqlite env i)"
  by (auto simp: snapshot_sqlite_def check_integrity_def intro!: looks_bind looks_each split: sum.split)

lemma grows_each: "(\<And>x. x \<in> set xs \<Longrightarrow> grows env fit (f x)) \<Longrightarrow> grows env fit (each_walk f xs)"
  by (induction xs) (auto intro: grows_bind looks_grows)

lemma grows_unless_denied:
  assumes "looks m" and "\<And>a s s1. m s = (Inr a, s1) \<Longrightarrow> grows env fit (use a)"
  shows "grows env fit (unless_denied m k p use)"
  unfolding unless_denied_def
proof (rule grows_bind)
  show "grows env fit (handle_walk (bind_walk m (\<lambda>a. done_walk (Some a))) permission_denied (\<lambda>_. done_walk None))"
    using assms(1) by (intro looks_grows looks_handle looks_bind) simp_all
next
  fix found s s1
  assume "handle_walk (bind_walk m (\<lambda>a. done_walk (Some a))) permission_denied (\<lambda>_. done_walk None) s = (Inr found, s1)"
  then have "found = None \<or> (\<exists>a. found = Some a \<and> (\<exists>s s1. m s = (Inr a, s1)))"
    by (auto simp: handle_walk_def bind_walk_def done_walk_def split: prod.splits sum.splits if_splits)
  then show "grows env fit (case found of None \<Rightarrow> skip_entry ''unreadable'' k p | Some a \<Rightarrow> use a)"
    by (auto intro: looks_grows assms(2))
qed

section \<open>Files as they were at one moment\<close>

text \<open>
  What the kernel documents: sizes are the lengths of the contents, and a content that changed
  shows in the change time that \<^verbatim>\<open>fstat\<close> reports of the file.
\<close>

definition honest_kernel :: "source_env \<Rightarrow> bool" where
  "honest_kernel env \<longleftrightarrow> (\<forall>n i. 0 \<le> st_size (iw_stat (le_world env n) i) \<and>
     (st_kind (iw_stat (le_world env n) i) = KindFile \<longrightarrow>
        st_size (iw_stat (le_world env n) i) = int (length (iw_bytes (le_world env n) i)))) \<and>
   (\<forall>m k n i. m \<le> k \<longrightarrow> k \<le> n \<longrightarrow> st_ctime (iw_stat (le_world env m) i) = st_ctime (iw_stat (le_world env n) i) \<longrightarrow>
     iw_bytes (le_world env k) i = iw_bytes (le_world env m) i)"

lemma system_call_Inr:
  "system_call env f s = (Inr a, s') \<Longrightarrow> f (le_world env (as_tick s)) = Inr a \<and> s' = s\<lparr>as_tick := as_tick s + 1\<rparr>"
  by (cases "f (le_world env (as_tick s))") (auto simp: system_call_def event_def split: option.splits)

lemma require_Inr: "require b e s = (Inr u, s') \<longleftrightarrow> b \<and> s' = s"
  by (auto simp: require_def done_walk_def raise_walk_def)

lemma sum_block_sizes: "sum_list (block_sizes n) = n"
  using div_mult_mod_eq [of n copy_block] by (auto simp: block_sizes_def sum_list_replicate)

lemma copy_blocks_content:
  assumes "copy_blocks env i ks off s = (Inr b, s')"
    and "\<And>k. as_tick s \<le> k \<Longrightarrow> k < as_tick s' \<Longrightarrow> iw_bytes (le_world env k) i = content"
  shows "b = take (sum_list ks) (drop off content) \<and> length b = sum_list ks"
  using assms
proof (induction ks arbitrary: off s b)
  case Nil
  then show ?case by (simp add: done_walk_def)
next
  case (Cons k ks)
  from Cons.prems(1) obtain s1 piece s2 s3 rest where c: "check_disk env 0 s = (Inr (), s1)"
    and r: "sys_read env i off k s1 = (Inr piece, s2)" and len: "length piece = k"
    and w: "write_archive env s2 = (Inr (), s3)" and more: "copy_blocks env i ks (off + k) s3 = (Inr rest, s')"
    and b: "b = piece @ rest"
    by (auto elim!: bind_walk_InrE simp: require_Inr done_walk_def)
  have t: "as_tick s \<le> as_tick s1" "as_tick s2 \<le> as_tick s3" "as_tick s3 \<le> as_tick s'"
    using looks_D [OF looks_calls(8) c] looks_D [OF looks_calls(7) w] looks_D [OF looks_copy more] by auto
  from r have piece: "piece = take k (drop off (iw_bytes (le_world env (as_tick s1)) i))" and "as_tick s2 = as_tick s1 + 1"
    by (auto simp: sys_read_def dest!: system_call_Inr)
  with t b have "iw_bytes (le_world env (as_tick s1)) i = content"
    by (intro Cons.prems(2)) auto
  moreover have "rest = take (sum_list ks) (drop (off + k) content) \<and> length rest = sum_list ks"
    using t \<open>as_tick s2 = as_tick s1 + 1\<close> b by (intro Cons.IH [OF more]) (auto intro!: Cons.prems(2))
  ultimately show ?case
    using piece len b by (auto simp: take_add add.commute)
qed

lemma archive_file_grows:
  assumes "honest_kernel env"
    and fit: "\<And>n st. st_kind (iw_stat (le_world env n) i) = KindFile \<Longrightarrow>
      fit (tar_information arcname st False (iw_bytes (le_world env n) i))"
  shows "grows env fit (archive_open_file env i opened arcname)"
  unfolding grows_def
proof (intro allI impI)
  fix s u s'
  assume run: "archive_open_file env i opened arcname s = (Inr u, s')"
  then obtain before s1 s2 s3 after s4 where b: "sys_fstat env i s = (Inr before, s1)"
    and kind: "st_kind before = KindFile" and acc: "account_file env (st_size before) s1 = (Inr (), s2)"
    and add: "add_file env i before arcname s2 = (Inr (), s3)" and a: "sys_fstat env i s3 = (Inr after, s4)"
    and same: "unchanged_file before after" and last: "check_disk env 0 s4 = (Inr u, s')"
    unfolding archive_open_file_def
    by (auto elim!: bind_walk_InrE simp: require_Inr handle_walk_def raise_walk_def split: prod.splits sum.splits if_splits)
  define n where "n = as_tick s"
  from b have before: "before = iw_stat (le_world env n) i" and s1: "s1 = s\<lparr>as_tick := n + 1\<rparr>"
    by (auto simp: sys_fstat_def n_def dest!: system_call_Inr)
  from a have after: "after = iw_stat (le_world env (as_tick s3)) i" and s4: "s4 = s3\<lparr>as_tick := as_tick s3 + 1\<rparr>"
    by (auto simp: sys_fstat_def dest!: system_call_Inr)
  define content where "content = iw_bytes (le_world env n) i"
  from add obtain t1 piece t2 t3 where w: "write_archive env s2 = (Inr (), t1)"
    and c: "copy_blocks env i (block_sizes (nat (st_size before))) 0 t1 = (Inr piece, t2)"
    and pad: "(if nat (st_size before) mod 512 = 0 then done_walk () else write_archive env) t2 = (Inr (), t3)"
    and s3: "s3 = t3\<lparr>as_members := as_members t3 @ [tar_information arcname before False piece]\<rparr>"
    unfolding add_file_def by (auto elim!: bind_walk_InrE simp: update_walk_def)
  have "looks (if nat (st_size before) mod 512 = 0 then done_walk () else write_archive env)" by simp
  note pd = looks_D [OF this pad] and wd = looks_D [OF looks_calls(7) w] and cd = looks_D [OF looks_copy c]
    and ld = looks_D [OF looks_calls(8) last]
  from acc obtain bud where bud: "add_known_file (le_limits env) (as_budget s1) (st_size before) (disk_answer env (as_tick s1)) = Inr bud"
    and s2: "s2 = s1\<lparr>as_budget := bud, as_tick := as_tick s1 + 1\<rparr>"
    by (auto simp: account_file_def split: sum.splits)
  have order: "n < as_tick t1" "as_tick t2 \<le> as_tick s3" using s1 s2 s3 wd pd by auto
  have still: "iw_bytes (le_world env k) i = content" if "as_tick t1 \<le> k" "k < as_tick t2" for k
    using assms(1) same that order unfolding honest_kernel_def unchanged_file_def before after content_def
    by (meson less_imp_le_nat order.trans order.strict_trans1)
  from copy_blocks_content [OF c still] have piece: "piece = take (nat (st_size before)) content"
    by (simp add: sum_block_sizes)
  from assms(1) kind have sz: "st_size before = int (length content)"
    unfolding honest_kernel_def before content_def by blast
  with piece have piece: "piece = content" by simp
  from fit kind have "fit (tar_information arcname before False piece)"
    unfolding piece content_def before by blast
  with bud sz piece show "gains env fit s s'"
    using s1 s2 s3 s4 wd cd pd ld
    by (auto simp: gains_def within_limits_def add_known_file_Inr tar_information_def n_def intro!: exI [of _ "[_]"])
qed

section \<open>Where members come from\<close>

text \<open>
  Inodes that a path leads to through directories: each name was in its directory when it was
  looked up, and none of them was a link.
\<close>

inductive leads_to :: "source_env \<Rightarrow> string list \<Rightarrow> inode \<Rightarrow> bool" for env where
  root: "leads_to env [] (le_root env)"
| entry: "leads_to env (p @ [name]) i" if "leads_to env p d" and "map_of (iw_names (le_world env n) d) name = Some i"
    and "st_kind (iw_stat (le_world env n) i) \<noteq> KindLink"

lemma sys_open_leads:
  assumes "sys_open env d name b s = (Inr i, s')" and "leads_to env p d"
  shows "leads_to env (p @ [name]) i"
proof -
  let ?w = "le_world env (as_tick s)"
  from assms(1) have "map_of (iw_names ?w d) name = Some i \<and> st_kind (iw_stat ?w i) \<noteq> KindLink"
    unfolding sys_open_def by (auto dest!: system_call_Inr split: option.splits file_kind.splits if_splits)
  with assms(2) show ?thesis by (blast intro: leads_to.entry)
qed

lemma open_verified_leads:
  assumes "open_verified_at env d name expected b s = (Inr (i, opened), s')" and "leads_to env p d"
  shows "leads_to env (p @ [name]) i"
proof -
  from assms(1) obtain s1 s2 where "sys_open env d name b s1 = (Inr i, s2)"
    unfolding open_verified_at_def
    by (auto elim!: bind_walk_InrE simp: require_Inr done_walk_def handle_walk_def raise_walk_def
        split: prod.splits sum.splits if_splits)
  with assms(2) show ?thesis by (blast intro: sys_open_leads)
qed

lemma open_parts_leads:
  assumes "open_parts env d ns s = (Inr (i, opened), s')" and "leads_to env p d"
  shows "leads_to env (p @ ns) i"
  using assms
proof (induction env d ns arbitrary: p s rule: open_parts.induct)
  case (2 env d name rest)
  from "2.prems"(1) obtain expected s1 j st s2 where
    o: "open_verified_at env d name expected (rest \<noteq> [] \<or> st_kind expected = KindDirectory) s1 = (Inr (j, st), s2)" and
    r: "(if rest \<noteq> [] then open_parts env j rest else bind_walk (require (st_kind st = KindFile \<or> st_kind st = KindDirectory)
        (unsafe_source ''source is not a regular file or directory'')) (\<lambda>_. done_walk (j, st))) s2 = (Inr (i, opened), s')"
    by (auto elim!: bind_walk_InrE)
  note j = open_verified_leads [OF o "2.prems"(2)]
  show ?case
  proof (cases "rest = []")
    case True
    with r j show ?thesis by (auto simp: bind_walk_Inr require_Inr done_walk_def)
  next
    case False
    with r have "open_parts env j rest s2 = (Inr (i, opened), s')" by simp
    from "2.IH" [OF False this j] show ?thesis by simp
  qed
qed (simp add: raise_walk_def)

lemma open_root_leads:
  assumes "open_local_root env text s = (Inr (i, opened), s')"
  shows "leads_to env (pp_segments (pure_path text)) i"
proof (cases "pp_segments (pure_path text) = []")
  case True
  with assms have "i = le_root env"
    unfolding open_local_root_def
    by (auto simp: bind_walk_Inr require_Inr handle_walk_def raise_walk_def done_walk_def dest!: system_call_Inr
        split: prod.splits sum.splits if_splits)
  with True show ?thesis by (simp add: leads_to.root)
next
  case False
  with assms obtain s1 where "open_parts env (le_root env) (pp_segments (pure_path text)) s1 = (Inr (i, opened), s')"
    unfolding open_local_root_def
    by (auto simp: bind_walk_Inr require_Inr handle_walk_def raise_walk_def dest!: system_call_Inr
        split: prod.splits sum.splits if_splits)
  from open_parts_leads [OF this leads_to.root] show ?thesis by simp
qed

text \<open>
  A member below a source: the names that lead to it from the root of the source are those in
  its own name, and a file has the content its inode had at one moment.
\<close>

definition found_below :: "source_env \<Rightarrow> string list \<Rightarrow> string \<Rightarrow> tar_member \<Rightarrow> bool" where
  "found_below env base root m \<longleftrightarrow> (\<exists>names i. leads_to env (base @ names) i \<and> tar_name m = foldl child_path root names \<and>
     (if tar_directory m then tar_content m = []
      else \<exists>n. st_kind (iw_stat (le_world env n) i) = KindFile \<and> tar_content m = iw_bytes (le_world env n) i))"

lemma found_below_file:
  assumes "leads_to env (base @ names) i" and "arcname = foldl child_path root names"
    and "st_kind (iw_stat (le_world env n) i) = KindFile"
  shows "found_below env base root (tar_information arcname st False (iw_bytes (le_world env n) i))"
proof -
  have "\<exists>n'. st_kind (iw_stat (le_world env n') i) = KindFile \<and> iw_bytes (le_world env n) i = iw_bytes (le_world env n') i"
    using assms(3) by blast
  with assms(1,2) show ?thesis
    unfolding found_below_def by (intro exI [of _ names] exI [of _ i]) (simp add: tar_information_def)
qed

lemma found_below_directory:
  "leads_to env (base @ names) d \<Longrightarrow> arcname = foldl child_path root names \<Longrightarrow>
     found_below env base root (tar_information arcname st True [])"
  unfolding found_below_def by (intro exI [of _ names] exI [of _ d]) (simp add: tar_information_def)

lemma archive_directory_grows:
  assumes "honest_kernel env" and "leads_to env (base @ names) d" and "arcname = foldl child_path root names"
  shows "grows env (found_below env base root) (archive_directory fuel env depth d opened arcname relative)"
  using assms(2,3)
proof (induction fuel arbitrary: depth d opened arcname relative names)
  case 0
  then show ?case by (simp add: looks_grows)
next
  case (Suc fuel)
  note deeper = Suc.IH
  have dir: "found_below env base root (tar_information arcname st True [])" for st
    using Suc.prems by (rule found_below_directory)
  have entry: "grows env (found_below env base root)
      (archive_entry env (archive_directory fuel env (depth + 1)) d arcname relative name)" for name
  proof -
    have child: "child_path arcname name = foldl child_path root (names @ [name])"
      using Suc.prems by simp
    have leads: "leads_to env (base @ names @ [name]) i"
      if "open_verified_at env d name ex b s = (Inr (i, st), s1)" for ex b s i st s1
      using open_verified_leads [OF that Suc.prems(1)] by simp
    have leaf: "grows env (found_below env base root) (archive_open_file env i st (child_path arcname name))"
      if "leads_to env (base @ names @ [name]) i" for i st
      using that child by (intro archive_file_grows assms(1) found_below_file) 
    show ?thesis
      unfolding archive_entry_def
      by (intro grows_bind grows_unless_denied looks_handle)
        (auto simp: looks_grows split: file_kind.split intro!: grows_unless_denied leaf deeper leads child)
  qed
  show ?case
    by (auto simp: looks_grows add_member_def intro!: grows_bind grows_unless_denied looks_handle grows_each entry)
      (auto simp: grows_def update_walk_def gains_def tar_information_def dir [unfolded tar_information_def] intro!: exI [of _ "[_]"])
qed

section \<open>Whole archives\<close>

definition file_of :: "source_env \<Rightarrow> inode \<Rightarrow> bytes \<Rightarrow> bool" where
  "file_of env i b \<longleftrightarrow> (\<exists>n. st_kind (iw_stat (le_world env n) i) = KindFile \<and> b = iw_bytes (le_world env n) i)"

definition came_from :: "source_env \<Rightarrow> nat \<times> backup_path \<Rightarrow> tar_member \<Rightarrow> bool" where
  "came_from env item m \<longleftrightarrow> (\<exists>text i. container_path (le_mapper env) (bp_path (snd item)) = Inr text \<and>
     leads_to env (pp_segments (pure_path text)) i \<and>
     (found_below env (pp_segments (pure_path text)) (member_root (fst item)) m \<or>
      tar_name m = child_path (member_root (fst item)) (last_component text) \<and> \<not> tar_directory m \<and>
        (file_of env i (tar_content m) \<or>
         bp_sqlite (snd item) \<and> (\<exists>k pages copy. le_backup env k i = (pages, Inr (copy, True)) \<and>
           file_of env copy (tar_content m)))))"

lemma validated_path:
  assumes "validated_local_source env raw s = (Inr (text, st), s')"
  shows "container_path (le_mapper env) raw = Inr text"
  using assms unfolding validated_local_source_def
  by (auto elim!: bind_walk_InrE simp: mapped_def done_walk_def raise_walk_def split: sum.splits)

lemma snapshot_copy:
  assumes "snapshot_sqlite env i s = (Inr copy, s')"
  shows "\<exists>k pages. le_backup env k i = (pages, Inr (copy, True))"
proof -
  obtain pages res where b: "le_backup env (as_tick s) i = (pages, res)" by fastforce
  with assms have "res = Inr (copy, True)"
    unfolding snapshot_sqlite_def
    by (auto elim!: bind_walk_InrE simp: event_def check_integrity_def done_walk_def raise_walk_def split: sum.splits if_splits)
  with b show ?thesis by blast
qed

lemma archive_sqlite_grows:
  assumes "honest_kernel env"
    and "\<And>k pages copy st b. le_backup env k i = (pages, Inr (copy, True)) \<Longrightarrow> file_of env copy b \<Longrightarrow>
      fit (tar_information arcname st False b)"
  shows "grows env fit (archive_sqlite env i arcname)"
  unfolding archive_sqlite_def
  by (intro grows_bind archive_file_grows assms(1) looks_grows looks_snapshot)
    (auto simp: looks_grows file_of_def intro!: archive_file_grows assms dest!: snapshot_copy)

lemma archive_source_grows:
  assumes "honest_kernel env" and located: "container_path (le_mapper env) (bp_path (snd item)) = Inr text"
    and leads: "leads_to env (pp_segments (pure_path text)) i"
  shows "grows env (came_from env item) (archive_source fuel env (fst item) (bp_sqlite (snd item)) text i opened)"
proof -
  let ?root = "member_root (fst item)" and ?name = "child_path (member_root (fst item)) (last_component text)"
  let ?base = "pp_segments (pure_path text)"
  have leaf: "came_from env item (tar_information ?name st False b)"
    if "file_of env i b \<or> bp_sqlite (snd item) \<and> (\<exists>k pages copy. le_backup env k i = (pages, Inr (copy, True)) \<and> file_of env copy b)" for st b
    using located leads that unfolding came_from_def by (auto simp: tar_information_def)
  have below: "came_from env item m" if "found_below env ?base ?root m" for m
    using located leads that unfolding came_from_def by blast
  have sqlite: "grows env (came_from env item) (archive_sqlite env i ?name)" if "bp_sqlite (snd item)"
    using that by (intro archive_sqlite_grows assms(1) leaf) blast
  have single: "grows env (came_from env item) (archive_open_file env i opened ?name)"
    by (intro archive_file_grows assms(1) leaf) (auto simp: file_of_def)
  have "grows env (found_below env ?base ?root) (archive_directory fuel env 0 i opened ?root ?root)"
    using leads by (intro archive_directory_grows [of _ _ "[]"] assms(1)) simp_all
  then have tree: "grows env (came_from env item) (archive_directory fuel env 0 i opened ?root ?root)"
    unfolding grows_def by (blast intro: gains_weaken below)
  show ?thesis
    using sqlite single tree by (auto simp: archive_source_def Let_def looks_grows)
qed

lemma package_source_grows:
  assumes "honest_kernel env"
  shows "grows env (came_from env item) (package_source fuel env item)"
  unfolding grows_def
proof (intro allI impI)
  fix s kind s'
  assume "package_source fuel env item s = (Inr kind, s')"
  then obtain tx st s1 i opened s2 u s3 v where
    val: "validated_local_source env (bp_path (snd item)) s = (Inr (tx, st), s1)" and
    op: "open_local_root env tx s1 = (Inr (i, opened), s2)" and
    arch: "archive_source fuel env (fst item) (bp_sqlite (snd item)) tx i opened s2 = (Inr u, s3)" and
    ident: "verify_path_identity env tx opened s3 = (Inr v, s')"
    unfolding package_source_def
    by (auto elim!: bind_walk_InrE simp: require_Inr done_walk_def handle_walk_def raise_walk_def
        split: prod.splits sum.splits if_splits)
  have "gains env (came_from env item) s s2"
    by (rule gains_trans [OF grows_D [OF looks_grows [OF looks_validated(1)] val] grows_D [OF looks_grows [OF looks_open_root] op]])
  moreover have "gains env (came_from env item) s2 s3"
    by (rule grows_D [OF archive_source_grows [OF assms validated_path [OF val] open_root_leads [OF op]] arch])
  moreover have "gains env (came_from env item) s3 s'"
    by (rule grows_D [OF looks_grows [OF looks_validated(2)] ident])
  ultimately show "gains env (came_from env item) s s'" by (blast intro: gains_trans)
qed

lemma grows_weaken: "grows env fit m \<Longrightarrow> (\<And>x. fit x \<Longrightarrow> fit' x) \<Longrightarrow> grows env fit' m"
  unfolding grows_def by (blast intro: gains_weaken)

lemma grows_collect: "(\<And>x. x \<in> set xs \<Longrightarrow> grows env fit (f x)) \<Longrightarrow> grows env fit (collect_walk f xs)"
proof (induction xs)
  case (Cons x xs)
  then have "grows env fit (collect_walk f xs)" "grows env fit (f x)" by simp_all
  then show ?case by (simp, intro grows_bind) (simp_all add: looks_grows)
qed (simp add: looks_grows)

lemma package_local_grows:
  assumes "honest_kernel env"
  shows "grows env (\<lambda>m. \<exists>x item. source = Some x \<and> item \<in> set (enumerate 0 (f_paths x)) \<and> came_from env item m)
    (package_local fuel env source)"
  unfolding package_local_def
  by (auto simp: looks_grows split: option.split intro!: grows_bind grows_collect
      intro: grows_weaken [OF package_source_grows [OF assms]])

end
