(* ===== verification/SourceTrees.thy ===== *)
theory SourceTrees
  imports ArchivedSources Demo
begin

text \<open>
  The archive of sources that do not change: a listing of each tree, defined without any of the
  checks of the walk, and the proof that the walk produces exactly it.
\<close>

section \<open>The listing of a tree\<close>

text \<open>The trees are at most \<open>k\<close> directories high.\<close>

primrec tree_members :: "nat \<Rightarrow> inode_world \<Rightarrow> string \<Rightarrow> inode \<Rightarrow> tar_member list" where
  "tree_members 0 w arcname d = []"
| "tree_members (Suc k) w arcname d = tar_information arcname (iw_stat w d) True [] #
     concat (map (\<lambda>name. case map_of (iw_names w d) name of None \<Rightarrow> [] | Some i \<Rightarrow>
         if st_kind (iw_stat w i) = KindDirectory then tree_members k w (child_path arcname name) i
         else if st_kind (iw_stat w i) = KindFile
         then [tar_information (child_path arcname name) (iw_stat w i) False (iw_bytes w i)] else [])
       (sort (map fst (iw_names w d))))"

definition skipped_as :: "file_kind \<Rightarrow> string \<Rightarrow> skipped_entry list" where
  "skipped_as k p = (if k = KindDirectory \<or> k = KindFile then []
     else if k = KindLink then [\<lparr>sk_reason = ''symlink'', sk_type = ''symlink'', sk_path = p\<rparr>]
     else [\<lparr>sk_reason = ''special_file'', sk_type = special_type k, sk_path = p\<rparr>])"

primrec tree_skipped :: "nat \<Rightarrow> inode_world \<Rightarrow> string \<Rightarrow> inode \<Rightarrow> skipped_entry list" where
  "tree_skipped 0 w p d = []"
| "tree_skipped (Suc k) w p d =
     concat (map (\<lambda>name. case map_of (iw_names w d) name of None \<Rightarrow> [] | Some i \<Rightarrow>
         if st_kind (iw_stat w i) = KindDirectory then tree_skipped k w (child_path p name) i
         else skipped_as (st_kind (iw_stat w i)) (child_path p name))
       (sort (map fst (iw_names w d))))"

primrec tree_height :: "nat \<Rightarrow> inode_world \<Rightarrow> inode \<Rightarrow> bool" where
  "tree_height 0 w d \<longleftrightarrow> False"
| "tree_height (Suc k) w d \<longleftrightarrow>
     list_all (\<lambda>(name, i). st_kind (iw_stat w i) = KindDirectory \<longrightarrow> tree_height k w i) (iw_names w d)"

section \<open>A world that stands still\<close>

definition stands_still :: "source_env \<Rightarrow> inode_world \<Rightarrow> bool" where
  "stands_still env w \<longleftrightarrow> 0 \<le> sl_file_size (le_limits env) \<and>
     (\<forall>i. st_kind (iw_stat w i) = KindFile \<longrightarrow> st_size (iw_stat w i) = int (length (iw_bytes w i))) \<and>
     (\<forall>n. le_world env n = w \<and> le_fault env n = None \<and> le_write env n = None \<and> le_stop env n = None \<and>
       (case le_expires env of None \<Rightarrow> True | Some t \<Rightarrow> le_mono env n < t) \<and>
       (\<exists>free. le_free env n = Inr free \<and> le_min_free env + sl_file_size (le_limits env) + 1024 \<le> free))"

definition spent :: "source_budget \<Rightarrow> tar_member list \<Rightarrow> source_budget" where
  "spent b ms = b\<lparr>sb_bytes := sb_bytes b + content_bytes ms, sb_files := sb_files b + file_members ms\<rparr>"

definition room :: "source_env \<Rightarrow> source_budget \<Rightarrow> tar_member list \<Rightarrow> bool" where
  "room env b ms \<longleftrightarrow> within_limits (le_limits env) (spent b ms) \<and>
     (\<forall>m \<in> set ms. tar_directory m \<or> int (length (tar_content m)) \<le> sl_file_size (le_limits env))"

text \<open>Walks that add known members and skipped entries, while there is room, and yield a known value.\<close>

definition moved :: "tar_member list \<Rightarrow> skipped_entry list \<Rightarrow> archive_state \<Rightarrow> archive_state \<Rightarrow> bool" where
  "moved ms ks s s' \<longleftrightarrow> as_members s' = as_members s @ ms \<and> as_skipped s' = as_skipped s @ ks \<and>
     as_budget s' = spent (as_budget s) ms"

definition adds :: "source_env \<Rightarrow> tar_member list \<Rightarrow> skipped_entry list \<Rightarrow> 'a walk \<Rightarrow> 'a \<Rightarrow> bool" where
  "adds env ms ks m a \<longleftrightarrow> (\<forall>s. room env (as_budget s) ms \<longrightarrow> (\<exists>s'. m s = (Inr a, s') \<and> moved ms ks s s'))"

lemma spent_simps [simp]: "spent b [] = b" "spent (spent b ms) ns = spent b (ms @ ns)"
  by (simp_all add: spent_def add.assoc)

lemma counts_nonneg: "0 \<le> content_bytes ms" "0 \<le> file_members ms"
  by (simp_all add: content_bytes_def file_members_def)

lemma room_append: "room env b (ms @ ns) \<Longrightarrow> room env b ms \<and> room env (spent b ms) ns"
  using counts_nonneg [of ns] by (auto simp: room_def within_limits_def spent_def)

lemma moved_trans: "moved ms ks s s1 \<Longrightarrow> moved ns ls s1 s' \<Longrightarrow> moved (ms @ ns) (ks @ ls) s s'"
  by (simp add: moved_def)

lemma adds_bind:
  assumes "adds env ms ks m a" and "adds env ns ls (f a) b"
  shows "adds env (ms @ ns) (ks @ ls) (bind_walk m f) b"
  unfolding adds_def
proof (intro allI impI)
  fix s :: archive_state
  assume r: "room env (as_budget s) (ms @ ns)"
  with assms(1) obtain s1 where s1: "m s = (Inr a, s1)" "moved ms ks s s1"
    unfolding adds_def by (blast dest: room_append)
  with r have "room env (as_budget s1) ns" by (auto simp: moved_def dest: room_append)
  with assms(2) obtain s' where "f a s1 = (Inr b, s')" "moved ns ls s1 s'" unfolding adds_def by blast
  with s1 show "\<exists>s'. bind_walk m f s = (Inr b, s') \<and> moved (ms @ ns) (ks @ ls) s s'"
    by (auto simp: bind_walk_def intro: moved_trans)
qed

lemma adds_after: "adds env [] [] m a \<Longrightarrow> adds env ms ks (f a) b \<Longrightarrow> adds env ms ks (bind_walk m f) b"
  using adds_bind [of env "[]" "[]" m a ms ks f b] by simp

lemma adds_last: "adds env ms ks m a \<Longrightarrow> adds env [] [] (f a) b \<Longrightarrow> adds env ms ks (bind_walk m f) b"
  using adds_bind [of env ms ks m a "[]" "[]" f b] by simp

lemma adds_basic [simp]: "adds env [] [] (done_walk a) a" "b \<Longrightarrow> adds env [] [] (require b e) ()"
  by (simp_all add: adds_def done_walk_def require_def moved_def)

lemma adds_each:
  "(\<And>x. x \<in> set xs \<Longrightarrow> adds env (ms x) (ks x) (f x) ()) \<Longrightarrow>
     adds env (concat (map ms xs)) (concat (map ks xs)) (each_walk f xs) ()"
  by (induction xs) (auto intro!: adds_bind)

lemma adds_handle: "adds env ms ks m a \<Longrightarrow> adds env ms ks (handle_walk m sel h) a"
  unfolding adds_def handle_walk_def by fastforce

lemma adds_unless_denied:
  "adds env [] [] m a \<Longrightarrow> adds env ms ks (use a) () \<Longrightarrow> adds env ms ks (unless_denied m k p use) ()"
  unfolding unless_denied_def
  by (rule adds_after [of _ _ "Some a"]) (auto intro!: adds_handle adds_after)

lemma adds_skip: "adds env [] [\<lparr>sk_reason = r, sk_type = k, sk_path = p\<rparr>] (skip_entry r k p) ()"
  by (simp add: adds_def skip_entry_def update_walk_def moved_def)

lemma adds_call:
  assumes "stands_still env w" and "h w = Inr a"
  shows "adds env [] [] (system_call env h) a"
  using assms unfolding adds_def stands_still_def system_call_def event_def by (simp add: moved_def)

lemma disk_answers:
  assumes "stands_still env w" and "k \<le> sl_file_size (le_limits env) + 1024"
  shows "disk_answer env n k = Inr ()"
proof -
  from assms(1) obtain free where "le_free env n = Inr free" "le_min_free env + sl_file_size (le_limits env) + 1024 \<le> free"
    "le_stop env n = None" "case le_expires env of None \<Rightarrow> True | Some t \<Rightarrow> le_mono env n < t"
    unfolding stands_still_def by blast
  with assms(2) show ?thesis
    by (auto simp: disk_answer_def deadline_remaining_def ensure_disk_capacity_def split: option.splits)
qed

lemma adds_calls:
  assumes "stands_still env w"
  shows "adds env [] [] (sys_fstat env i) (iw_stat w i)" and "adds env [] [] (sys_list env d) (map fst (iw_names w d))"
    and "adds env [] [] (write_archive env) ()" and "adds env [] [] (check_disk env 0) ()"
proof -
  show "adds env [] [] (sys_fstat env i) (iw_stat w i)" "adds env [] [] (sys_list env d) (map fst (iw_names w d))"
    by (simp_all add: sys_fstat_def sys_list_def adds_call [OF assms])
  show "adds env [] [] (write_archive env) ()"
    using assms by (simp add: adds_def write_archive_def event_def stands_still_def moved_def)
  have "0 \<le> sl_file_size (le_limits env)" using assms by (simp add: stands_still_def)
  then show "adds env [] [] (check_disk env 0) ()"
    by (simp add: adds_def check_disk_def event_def disk_answers [OF assms] moved_def)
qed

lemma adds_named:
  assumes "stands_still env w" and "map_of (iw_names w d) name = Some i"
  shows "adds env [] [] (sys_stat env d name) (iw_stat w i)"
    and "st_kind (iw_stat w i) = KindDirectory \<or> st_kind (iw_stat w i) = KindFile \<and> \<not> b \<Longrightarrow> adds env [] [] (sys_open env d name b) i"
  using assms by (auto simp: sys_stat_def sys_open_def intro!: adds_call)

lemma adds_open_verified:
  assumes "stands_still env w" and "map_of (iw_names w d) name = Some i"
    and "st_kind (iw_stat w i) = (if b then KindDirectory else KindFile)"
  shows "adds env [] [] (open_verified_at env d name (iw_stat w i) b) (i, iw_stat w i)"
  unfolding open_verified_at_def using assms(3)
  by (intro adds_after [OF adds_basic(2)] adds_after [OF adds_handle [OF adds_named(2) [OF assms(1,2)]]]
      adds_after [OF adds_calls(1) [OF assms(1)]] adds_basic)
    (auto simp: same_inode_def split: if_splits)

section \<open>Files and directories that stand still\<close>

lemma adds_read:
  "stands_still env w \<Longrightarrow> adds env [] [] (sys_read env i off k) (take k (drop off (iw_bytes w i)))"
  by (simp add: sys_read_def adds_call)

lemma adds_copy:
  assumes "stands_still env w"
  shows "off + sum_list ks \<le> length (iw_bytes w i) \<Longrightarrow>
    adds env [] [] (copy_blocks env i ks off) (take (sum_list ks) (drop off (iw_bytes w i)))"
proof (induction ks arbitrary: off)
  case (Cons k ks)
  then show ?case
    by (auto simp: take_add add.commute intro!: adds_after [OF adds_calls(4) [OF assms]] adds_after [OF adds_read [OF assms]]
        adds_after [OF adds_basic(2)] adds_after [OF adds_calls(3) [OF assms]] adds_after [OF Cons.IH])
qed simp

lemma adds_account:
  assumes "stands_still env w" and "ms = [m]" and "\<not> tar_directory m" and "sz = int (length (tar_content m))"
    and "room env (as_budget s) ms"
  shows "\<exists>s'. account_file env sz s = (Inr (), s') \<and> as_members s' = as_members s \<and> as_skipped s' = as_skipped s \<and>
    as_budget s' = spent (as_budget s) ms"
proof -
  let ?b = "spent (as_budget s) ms"
  have "add_known_file (le_limits env) (as_budget s) sz (disk_answer env (as_tick s)) = Inr ?b"
    using assms(2-5) by (auto simp: add_known_file_Inr room_def within_limits_def spent_def intro!: disk_answers [OF assms(1)])
  then show ?thesis by (simp add: account_file_def)
qed

lemma adds_file:
  assumes "stands_still env w" and "st_kind (iw_stat w i) = KindFile"
  shows "adds env [tar_information arcname (iw_stat w i) False (iw_bytes w i)] [] (archive_open_file env i (iw_stat w i) arcname) ()"
proof -
  let ?st = "iw_stat w i"
  let ?m = "tar_information arcname ?st False (iw_bytes w i)"
  have sz: "st_size ?st = int (length (iw_bytes w i))" using assms by (simp add: stands_still_def)
  have copied: "adds env [] [] (copy_blocks env i (block_sizes (nat (st_size ?st))) 0) (iw_bytes w i)"
    using adds_copy [OF assms(1), of 0 "block_sizes (nat (st_size ?st))" i] by (simp add: sum_block_sizes sz)
  have pad: "adds env [] [] (if nat (st_size ?st) mod 512 = 0 then done_walk () else write_archive env) ()"
    by (simp add: adds_calls [OF assms(1)])
  have body: "\<exists>s'. (bind_walk (account_file env (st_size ?st)) (\<lambda>_.
      bind_walk (handle_walk (add_file env i ?st arcname) is_os_error h) f)) s = (Inr (), s') \<and> moved [?m] [] s s'"
    if r: "room env (as_budget s) [?m]" and f: "adds env [] [] (f ()) ()" for s f h
  proof -
    from adds_account [OF assms(1) refl _ _ r, of "st_size ?st"] sz obtain s1 where
      a: "account_file env (st_size ?st) s = (Inr (), s1)" and
      s1: "as_members s1 = as_members s" "as_skipped s1 = as_skipped s" "as_budget s1 = spent (as_budget s) [?m]"
      by (auto simp: tar_information_def)
    have none: "room env b [?m] \<Longrightarrow> room env (spent b [?m]) []" for b by (simp add: room_def)
    from adds_calls(3) [OF assms(1)] none [OF r] s1 obtain s2 where
      w: "write_archive env s1 = (Inr (), s2)" "moved [] [] s1 s2" unfolding adds_def by metis
    from copied none [OF r] s1 w obtain s3 where
      c: "copy_blocks env i (block_sizes (nat (st_size ?st))) 0 s2 = (Inr (iw_bytes w i), s3)" "moved [] [] s2 s3"
      unfolding adds_def moved_def by (metis spent_simps(1))
    from pad none [OF r] s1 w c obtain s4 where
      p: "(if nat (st_size ?st) mod 512 = 0 then done_walk () else write_archive env) s3 = (Inr (), s4)" "moved [] [] s3 s4"
      unfolding adds_def moved_def by (metis spent_simps(1))
    let ?s5 = "s4\<lparr>as_members := as_members s4 @ [?m]\<rparr>"
    have "add_file env i ?st arcname s1 = (Inr (), ?s5)"
      using w(1) c(1) p(1) by (simp add: add_file_def bind_walk_def update_walk_def)
    moreover from f none [OF r] s1 w c p obtain s6 where "f () ?s5 = (Inr (), s6)" "moved [] [] ?s5 s6"
      unfolding adds_def moved_def by (metis (no_types, lifting) archive_state.select_convs(2) archive_state.surjective
          archive_state.update_convs(3) spent_simps(1))
    ultimately show ?thesis
      using a s1 w(2) c(2) p(2) by (auto simp: bind_walk_def handle_walk_def moved_def)
  qed
  show ?thesis
    unfolding archive_open_file_def
    by (intro adds_after [OF adds_calls(1) [OF assms(1)]] adds_after [OF adds_basic(2)])
      (auto simp: same_inode_def assms(2) adds_def [of _ "[_]"] intro!: body adds_after [OF adds_calls(1) [OF assms(1)]]
        adds_after [OF adds_basic(2)] adds_calls(4) [OF assms(1)] simp: unchanged_file_def)
qed

lemma adds_directory_member:
  assumes "stands_still env w" and "tar_directory m" and "tar_content m = []"
  shows "adds env [m] [] (add_member env m) ()"
proof -
  have "adds env [m] [] (update_walk (\<lambda>s. s\<lparr>as_members := as_members s @ [m]\<rparr>)) ()"
    using assms(2,3) by (simp add: adds_def update_walk_def moved_def spent_def)
  then show ?thesis unfolding add_member_def by (rule adds_after [OF adds_calls(3) [OF assms(1)]])
qed

lemma adds_directory:
  assumes "stands_still env w"
  shows "tree_height k w d \<Longrightarrow> k \<le> fuel \<Longrightarrow> depth + int k \<le> sl_depth (le_limits env) + 1 \<Longrightarrow>
    st_kind (iw_stat w d) = KindDirectory \<Longrightarrow>
    adds env (tree_members k w arcname d) (tree_skipped k w relative d)
      (archive_directory fuel env depth d (iw_stat w d) arcname relative) ()"
proof (induction k arbitrary: fuel depth d arcname relative)
  case (Suc k)
  then obtain fuel' where fuel: "fuel = Suc fuel'" "k \<le> fuel'" by (cases fuel) auto
  let ?entry = "archive_entry env (archive_directory fuel' env (depth + 1)) d arcname relative"
  let ?ms = "\<lambda>name. case map_of (iw_names w d) name of None \<Rightarrow> [] | Some i \<Rightarrow>
         if st_kind (iw_stat w i) = KindDirectory then tree_members k w (child_path arcname name) i
         else if st_kind (iw_stat w i) = KindFile
         then [tar_information (child_path arcname name) (iw_stat w i) False (iw_bytes w i)] else []"
  let ?ks = "\<lambda>name. case map_of (iw_names w d) name of None \<Rightarrow> [] | Some i \<Rightarrow>
         if st_kind (iw_stat w i) = KindDirectory then tree_skipped k w (child_path relative name) i
         else skipped_as (st_kind (iw_stat w i)) (child_path relative name)"
  have entry: "adds env (?ms name) (?ks name) (?entry name) ()" if name: "name \<in> set (map fst (iw_names w d))" for name
  proof -
    from name obtain i where i: "map_of (iw_names w d) name = Some i"
      by (metis map_of_eq_None_iff not_None_eq set_map)
    then have mem: "(name, i) \<in> set (iw_names w d)" by (rule map_of_SomeD)
    have sub: "adds env (tree_members k w (child_path arcname name) i) (tree_skipped k w (child_path relative name) i)
        (archive_directory fuel' env (depth + 1) i (iw_stat w i) (child_path arcname name) (child_path relative name)) ()"
      if "st_kind (iw_stat w i) = KindDirectory"
      using Suc.prems(1,3) mem that fuel by (intro Suc.IH) (auto simp: list_all_iff)
    show ?thesis
      unfolding archive_entry_def
      by (rule adds_after [OF adds_calls(4) [OF assms]], rule adds_unless_denied [OF adds_handle [OF adds_named(1) [OF assms i]]])
        (auto simp: i skipped_as_def split: file_kind.split intro!: adds_skip sub adds_file [OF assms]
          adds_unless_denied [OF adds_open_verified [OF assms i]])
  qed
  have entries: "adds env (concat (map ?ms (sort (map fst (iw_names w d))))) (concat (map ?ks (sort (map fst (iw_names w d)))))
      (each_walk ?entry (sort (map fst (iw_names w d)))) ()"
    by (rule adds_each) (use entry in simp)
  let ?m = "tar_information arcname (iw_stat w d) True []"
  let ?rest = "unless_denied (handle_walk (sys_list env d) (\<lambda>e. is_os_error e \<and> \<not> permission_denied e)
         (\<lambda>_. raise_walk (source_changed ''source directory changed during traversal'')))
       ''directory'' relative (\<lambda>names.
         bind_walk (each_walk ?entry (sort names)) (\<lambda>_.
         bind_walk (sys_fstat env d) (\<lambda>after.
           require (directory_unchanged (iw_stat w d) after)
             (source_changed ''source directory changed during traversal''))))"
  let ?M = "concat (map ?ms (sort (map fst (iw_names w d))))" and ?K = "concat (map ?ks (sort (map fst (iw_names w d))))"
  have listed: "adds env ?M ?K ?rest ()"
    by (rule adds_unless_denied [OF adds_handle [OF adds_calls(2) [OF assms]]], rule adds_last [OF entries])
      (rule adds_after [OF adds_calls(1) [OF assms]], simp add: directory_unchanged_def same_inode_def)
  have member: "adds env [?m] [] (add_member env ?m) ()"
    by (rule adds_directory_member [OF assms]) (simp_all add: tar_information_def)
  have packed: "adds env ([?m] @ ?M) ([] @ ?K) (bind_walk (add_member env ?m) (\<lambda>_. bind_walk (check_disk env 0) (\<lambda>_. ?rest))) ()"
    by (rule adds_bind [OF member], rule adds_after [OF adds_calls(4) [OF assms]], rule listed)
  have depth_ok: "adds env [] [] (lift_walk (check_depth (le_limits env) depth)) ()"
    using Suc.prems(3) by (simp add: adds_def lift_walk_def check_depth_def guard_result_def moved_def)
  have same: "adds env [] [] (require (same_inode (iw_stat w d) (iw_stat w d) \<and> st_kind (iw_stat w d) = KindDirectory)
      (source_changed ''source directory changed during traversal'')) ()"
    using Suc.prems(4) by (intro adds_basic) (simp add: same_inode_def)
  have "adds env ([?m] @ ?M) ([] @ ?K) (archive_directory fuel env depth d (iw_stat w d) arcname relative) ()"
    unfolding fuel archive_directory.simps
    by (rule adds_after [OF depth_ok], rule adds_after [OF adds_calls(1) [OF assms]], rule adds_after [OF same], rule packed)
  then show ?case by simp
qed simp

section \<open>Whole sources\<close>

primrec path_inode :: "inode_world \<Rightarrow> inode \<Rightarrow> string list \<Rightarrow> inode option" where
  "path_inode w d [] = Some d"
| "path_inode w d (name # rest) = (case map_of (iw_names w d) name of None \<Rightarrow> None | Some i \<Rightarrow>
     if rest = [] \<or> st_kind (iw_stat w i) = KindDirectory then path_inode w i rest else None)"

text \<open>A source in the still world: accepted by the mapper, and a file or a tree of at most \<open>k\<close> levels.\<close>

definition source_place :: "source_env \<Rightarrow> inode_world \<Rightarrow> nat \<Rightarrow> backup_path \<Rightarrow> string \<Rightarrow> inode \<Rightarrow> bool" where
  "source_place env w k source place i \<longleftrightarrow> container_path (le_mapper env) (bp_path source) = Inr place \<and>
     pp_root (pure_path place) \<noteq> [] \<and> validate_container_path (le_mapper env) place = Inr place \<and>
     (\<forall>n. le_lstat env n place = Inr (iw_stat w i) \<and> le_realpath env n place = Inr place) \<and>
     path_inode w (le_root env) (pp_segments (pure_path place)) = Some i \<and>
     (st_kind (iw_stat w i) = KindFile \<and> \<not> bp_sqlite source \<or> st_kind (iw_stat w i) = KindDirectory \<and> tree_height k w i)"

definition place_members :: "inode_world \<Rightarrow> nat \<Rightarrow> nat \<Rightarrow> string \<times> inode \<Rightarrow> tar_member list" where
  "place_members w k index at = (if st_kind (iw_stat w (snd at)) = KindDirectory
     then tree_members k w (member_root index) (snd at)
     else [tar_information (child_path (member_root index) (last_component (fst at))) (iw_stat w (snd at)) False (iw_bytes w (snd at))])"

definition place_skipped :: "inode_world \<Rightarrow> nat \<Rightarrow> nat \<Rightarrow> string \<times> inode \<Rightarrow> skipped_entry list" where
  "place_skipped w k index at = (if st_kind (iw_stat w (snd at)) = KindDirectory
     then tree_skipped k w (member_root index) (snd at) else [])"

lemma adds_open_parts:
  assumes "stands_still env w"
  shows "path_inode w d ns = Some i \<Longrightarrow> ns \<noteq> [] \<Longrightarrow> st_kind (iw_stat w i) = KindFile \<or> st_kind (iw_stat w i) = KindDirectory \<Longrightarrow>
    adds env [] [] (open_parts env d ns) (i, iw_stat w i)"
proof (induction ns arbitrary: d)
  case (Cons name rest)
  then obtain j where j: "map_of (iw_names w d) name = Some j" "path_inode w j rest = Some i"
    "rest = [] \<or> st_kind (iw_stat w j) = KindDirectory" by (auto split: option.splits if_splits)
  let ?dir = "rest \<noteq> [] \<or> st_kind (iw_stat w j) = KindDirectory"
  have "st_kind (iw_stat w j) = (if ?dir then KindDirectory else KindFile)"
    using j Cons.prems by auto
  note opened = adds_open_verified [OF assms j(1) this]
  have "adds env [] [] ((\<lambda>(i, opened). if rest \<noteq> [] then open_parts env i rest
       else bind_walk (require (st_kind opened = KindFile \<or> st_kind opened = KindDirectory)
              (unsafe_source ''source is not a regular file or directory'')) (\<lambda>_. done_walk (i, opened))) (j, iw_stat w j)) (i, iw_stat w i)"
    using j Cons by (cases "rest = []") (auto intro: adds_after)
  then show ?case
    unfolding open_parts.simps
    by (intro adds_after [OF adds_handle [OF adds_named(1) [OF assms j(1)]]] adds_after [OF opened]) simp_all
qed simp

lemma adds_open_root:
  assumes "stands_still env w" and "source_place env w k source place i"
  shows "adds env [] [] (open_local_root env place) (i, iw_stat w i)"
proof -
  have root: "adds env [] [] (system_call env (\<lambda>w. Inr (le_root env))) (le_root env)"
    by (rule adds_call [OF assms(1)]) simp
  have "adds env [] [] (if pp_segments (pure_path place) = []
       then bind_walk (sys_fstat env (le_root env)) (\<lambda>opened. done_walk (le_root env, opened))
       else open_parts env (le_root env) (pp_segments (pure_path place))) (i, iw_stat w i)"
    using assms by (auto simp: source_place_def intro!: adds_open_parts adds_after [OF adds_calls(1)])
  then show ?thesis
    unfolding open_local_root_def using assms(2)
    by (intro adds_after [OF adds_basic(2)] adds_after [OF adds_handle [OF root]]) (simp_all add: source_place_def)
qed

lemma adds_path_answers:
  assumes "source_place env w k source place i"
  shows "adds env [] [] (path_lstat env place) (iw_stat w i)" and "adds env [] [] (path_resolve env place) place"
  using assms by (simp_all add: adds_def path_lstat_def path_resolve_def event_def source_place_def moved_def)

lemma adds_validated:
  assumes "source_place env w k source place i"
  shows "adds env [] [] (validated_local_source env (bp_path source)) (place, iw_stat w i)"
proof -
  from assms have place: "container_path (le_mapper env) (bp_path source) = Inr place" "validate_container_path (le_mapper env) place = Inr place"
    and kind: "st_kind (iw_stat w i) = KindFile \<or> st_kind (iw_stat w i) = KindDirectory"
    by (auto simp: source_place_def)
  have "adds env [] [] (mapped m (Inr p)) p" for m p by (simp add: mapped_def)
  from this [of "''local source path was rejected''" place]
    this [of "''resolved local source escaped its configured root''" place] show ?thesis
    unfolding validated_local_source_def place using kind
    by (intro adds_after [of env _ place] adds_after [OF adds_handle [OF adds_path_answers(1) [OF assms]]] adds_after [OF adds_basic(2)]
        adds_after [OF adds_handle [OF adds_path_answers(2) [OF assms]]]) (auto simp: place)
qed

lemma adds_archive_source:
  assumes "stands_still env w" and "source_place env w k source place i" and "k \<le> fuel" and "int k \<le> sl_depth (le_limits env) + 1"
  shows "adds env (place_members w k index (place, i)) (place_skipped w k index (place, i))
    (archive_source fuel env index (bp_sqlite source) place i (iw_stat w i)) ()"
proof (cases "st_kind (iw_stat w i) = KindDirectory")
  case True
  moreover from this assms(2) have "tree_height k w i" by (auto simp: source_place_def)
  ultimately show ?thesis
    using assms(3,4) by (simp add: archive_source_def Let_def place_members_def place_skipped_def adds_directory [OF assms(1)])
next
  case False
  with assms(2) have "st_kind (iw_stat w i) = KindFile" "\<not> bp_sqlite source" by (auto simp: source_place_def)
  then show ?thesis
    by (simp add: archive_source_def Let_def place_members_def place_skipped_def adds_file [OF assms(1)])
qed

lemma adds_package_source:
  assumes "stands_still env w" and "source_place env w k (snd item) place i" and "k \<le> fuel" and "int k \<le> sl_depth (le_limits env) + 1"
  shows "adds env (place_members w k (fst item) (place, i)) (place_skipped w k (fst item) (place, i))
    (package_source fuel env item) (if st_kind (iw_stat w i) = KindDirectory then ''directory'' else ''file'')"
proof -
  have same: "same_inode (iw_stat w i) (iw_stat w i)" by (simp add: same_inode_def)
  have identity: "adds env [] [] (verify_path_identity env place (iw_stat w i)) ()"
    unfolding verify_path_identity_def
    by (rule adds_after [OF adds_handle [OF adds_path_answers(1) [OF assms(2)]]]) (simp add: same)
  show ?thesis
    unfolding package_source_def
    apply (rule adds_after [OF adds_validated [OF assms(2)]], unfold prod.case)
    apply (rule adds_after [OF adds_handle [OF adds_open_root [OF assms(1,2)]]], unfold prod.case)
    apply (rule adds_after [OF adds_basic(2) [OF same]])
    apply (rule adds_last [OF adds_archive_source [OF assms]])
    apply (rule adds_after [OF identity adds_basic(1)])
    done
qed

lemma adds_collect:
  "(\<And>x. x \<in> set xs \<Longrightarrow> adds env (ms x) (ks x) (f x) (v x)) \<Longrightarrow>
     adds env (concat (map ms xs)) (concat (map ks xs)) (collect_walk f xs) (map v xs)"
proof (induction xs)
  case (Cons x xs)
  then have "adds env (concat (map ms xs)) (concat (map ks xs)) (collect_walk f xs) (map v xs)" by simp
  then have "adds env (concat (map ms xs)) (concat (map ks xs)) (bind_walk (collect_walk f xs) (\<lambda>as. done_walk (v x # as))) (v x # map v xs)"
    by (rule adds_last) simp
  with Cons.prems show ?case by (auto intro!: adds_bind)
qed simp

lemma adds_package_local:
  assumes "stands_still env w" and "f_location x = LocalSource" and "k \<le> fuel" and "int k \<le> sl_depth (le_limits env) + 1"
    and "\<And>item. item \<in> set (enumerate 0 (f_paths x)) \<Longrightarrow>
      source_place env w k (snd item) (fst (at (fst item))) (snd (at (fst item)))"
  shows "adds env (concat (map (\<lambda>item. place_members w k (fst item) (at (fst item))) (enumerate 0 (f_paths x))))
    (concat (map (\<lambda>item. place_skipped w k (fst item) (at (fst item))) (enumerate 0 (f_paths x))))
    (package_local fuel env (Some x))
    (map (\<lambda>item. if st_kind (iw_stat w (snd (at (fst item)))) = KindDirectory then ''directory'' else ''file'') (enumerate 0 (f_paths x)))"
proof -
  have "adds env (place_members w k (fst item) (at (fst item))) (place_skipped w k (fst item) (at (fst item)))
      (package_source fuel env item) (if st_kind (iw_stat w (snd (at (fst item)))) = KindDirectory then ''directory'' else ''file'')"
    if "item \<in> set (enumerate 0 (f_paths x))" for item
    using adds_package_source [OF assms(1) assms(5) [OF that] assms(3,4)] by simp
  note all = adds_collect [of "enumerate 0 (f_paths x)", OF this]
  have local: "adds env [] [] (require (f_location x = LocalSource) e) ()" for e
    using assms(2) by simp
  show ?thesis
    unfolding package_local_def option.case
    apply (rule adds_after [OF local])
    apply (rule adds_after [OF adds_calls(4) [OF assms(1)]])
    apply (rule adds_after [OF adds_calls(3) [OF assms(1)]])
    apply (rule adds_last [OF all], assumption)
    apply (rule adds_after [OF adds_calls(3) [OF assms(1)] adds_basic(1)])
    done
qed

section \<open>A concrete source\<close>

definition demo_bytes :: "inode \<Rightarrow> bytes" where
  "demo_bytes i = (if i = 3 then ''hello'' else [])"

definition demo_world :: inode_world where
  "demo_world = \<lparr>iw_stat = (\<lambda>i. \<lparr>st_dev = 1, st_ino = int i,
       st_kind = (if i \<in> {0, 1, 2, 4} then KindDirectory else if i = 5 then KindLink else KindFile), st_mode = 420,
       st_uid = 0, st_gid = 0, st_size = int (length (demo_bytes i)), st_mtime = 7, st_ctime = 7\<rparr>),
     iw_names = (\<lambda>i. if i = 0 then [(''srv'', 1)] else if i = 1 then [(''data'', 2)]
       else if i = 2 then [(''b'', 3), (''a'', 4), (''l'', 5)] else if i = 4 then [(''x'', 6)] else []),
     iw_bytes = demo_bytes\<rparr>"

definition demo_source_env :: source_env where
  "demo_source_env = \<lparr>le_world = (\<lambda>_. demo_world), le_root = 0, le_fault = (\<lambda>_. None), le_write = (\<lambda>_. None),
     le_lstat = (\<lambda>_ _. Inr (iw_stat demo_world 2)), le_realpath = (\<lambda>_ p. Inr p), le_access = (\<lambda>_ _. True),
     le_backup = (\<lambda>_ i. (0, Inr (i, True))), le_expires = None, le_mono = (\<lambda>_. 0), le_stop = (\<lambda>_. None),
     le_free = (\<lambda>_. Inr 100000), le_mapper = demo_mapper, le_min_free = 1000,
     le_limits = \<lparr>sl_bytes = 1000, sl_files = 10, sl_file_size = 100, sl_depth = 5\<rparr>\<rparr>"

lemma demo_still: "stands_still demo_source_env demo_world"
  by (simp add: stands_still_def demo_source_env_def demo_world_def)

lemma demo_honest: "honest_kernel demo_source_env"
  by (simp add: honest_kernel_def demo_source_env_def demo_world_def)

lemma demo_place: "source_place demo_source_env demo_world 2 \<lparr>bp_path = ''/srv/data'', bp_sqlite = False\<rparr> ''/srv/data'' 2"
proof -
  have "container_path demo_mapper ''/srv/data'' = Inr ''/srv/data''"
    "validate_container_path demo_mapper ''/srv/data'' = Inr ''/srv/data''"
    "pp_root (pure_path ''/srv/data'') \<noteq> []" "pp_segments (pure_path ''/srv/data'') = [''srv'', ''data'']" by code_simp+
  moreover have "path_inode demo_world 0 [''srv'', ''data''] = Some 2" "tree_height 2 demo_world 2"
    by (simp_all add: demo_world_def numeral_2_eq_2)
  ultimately show ?thesis by (simp add: source_place_def demo_source_env_def) (simp add: demo_world_def)
qed

definition demo_tree :: "tar_member list" where
  "demo_tree = [tar_information ''sources/0'' (iw_stat demo_world 2) True [],
     tar_information ''sources/0/a'' (iw_stat demo_world 4) True [],
     tar_information ''sources/0/a/x'' (iw_stat demo_world 6) False [],
     tar_information ''sources/0/b'' (iw_stat demo_world 3) False ''hello'']"

lemma demo_root_member: "member_root 0 = ''sources/0''"
  by code_simp

lemma demo_members: "place_members demo_world 2 0 (''/srv/data'', 2) = demo_tree"
proof -
  have "sort [''b'', ''a'', ''l''] = [''a'', ''b'', ''l'']" by code_simp
  then show ?thesis
    by (simp add: place_members_def demo_world_def numeral_2_eq_2 demo_tree_def demo_root_member child_path_def demo_bytes_def)
qed

definition demo_link :: skipped_entry where
  "demo_link = \<lparr>sk_reason = ''symlink'', sk_type = ''symlink'', sk_path = ''sources/0/l''\<rparr>"

lemma demo_skipped: "place_skipped demo_world 2 0 (''/srv/data'', 2) = [demo_link]"
proof -
  have "sort [''b'', ''a'', ''l''] = [''a'', ''b'', ''l'']" by code_simp
  then show ?thesis
    by (simp add: place_skipped_def demo_world_def numeral_2_eq_2 demo_link_def demo_root_member child_path_def skipped_as_def)
qed

lemma demo_room: "room demo_source_env fresh_budget demo_tree"
  by (simp add: room_def within_limits_def spent_def fresh_budget_def demo_source_env_def demo_tree_def content_bytes_def
      file_members_def tar_information_def)

lemma demo_packaged:
  "\<exists>s'. package_local (source_fuel demo_source_env) demo_source_env (Some demo_files) fresh_archive = (Inr [''directory''], s') \<and>
     moved demo_tree [demo_link] fresh_archive s'"
proof -
  have "adds demo_source_env demo_tree [demo_link] (package_local (source_fuel demo_source_env) demo_source_env (Some demo_files)) [''directory'']"
    using adds_package_local [OF demo_still, of demo_files 2 "source_fuel demo_source_env" "\<lambda>_. (''/srv/data'', 2)"] demo_place
    by (simp add: demo_files_def demo_members demo_skipped source_fuel_def demo_source_env_def) (simp add: demo_world_def)
  with demo_room show ?thesis by (simp add: adds_def fresh_archive_def)
qed

section \<open>Properties\<close>

text \<open>
  C12. The walk over a source always ends, even if somebody keeps moving its directories so that
  they contain each other: the depth limit leaves more levels than there can be, and looking
  deeper would change nothing.
\<close>

theorem source_walk_ends:
  assumes "source_fuel env \<le> fuel"
  shows "fst (package_local fuel env source s) \<noteq> Inl OutOfFuel \<and>
    package_local fuel env source s = package_local (source_fuel env) env source s"
  using package_local_fuel [OF assms, of source] package_local_more_fuel [OF assms]
  by (simp add: never_starved_def)

definition demo_cycle :: source_env where
  "demo_cycle = demo_source_env\<lparr>le_world := (\<lambda>_. demo_world\<lparr>iw_names := (\<lambda>i. [(''srv'', 1), (''data'', 2)])\<rparr>)\<rparr>"

lemma source_walk_ends_witness:
  "fst (package_local 100 demo_cycle (Some demo_files) fresh_archive) \<noteq> Inl OutOfFuel"
proof -
  have "source_fuel demo_cycle \<le> 100" by (simp add: source_fuel_def demo_cycle_def demo_source_env_def)
  from source_walk_ends [OF this] show ?thesis by blast
qed

text \<open>
  C9. Whatever happens to the file system while a source is archived, every member of the
  archive comes from below its source: each name on the way was an entry of the directory before
  it when it was opened, none of them a link, and a file has exactly the content its inode had at
  one moment, or is the checked copy that SQLite made of such a file.
\<close>

theorem archived_members_are_snapshots:
  assumes "honest_kernel env" and "package_local fuel env (Some x) fresh_archive = (Inr kinds, s')"
    and "m \<in> set (as_members s')"
  shows "\<exists>item. item \<in> set (enumerate 0 (f_paths x)) \<and> came_from env item m"
  using grows_D [OF package_local_grows [OF assms(1)] assms(2)] assms(3)
  by (auto simp: gains_def fresh_archive_def)

lemma archived_members_are_snapshots_witness:
  "\<exists>item. item \<in> set (enumerate 0 (f_paths demo_files)) \<and>
     came_from demo_source_env item (tar_information ''sources/0/b'' (iw_stat demo_world 3) False ''hello'')"
proof -
  from demo_packaged obtain s' where
    p: "package_local (source_fuel demo_source_env) demo_source_env (Some demo_files) fresh_archive = (Inr [''directory''], s')" and
    m: "moved demo_tree [demo_link] fresh_archive s'" by blast
  from m have "tar_information ''sources/0/b'' (iw_stat demo_world 3) False ''hello'' \<in> set (as_members s')"
    by (simp add: moved_def demo_tree_def)
  from archived_members_are_snapshots [OF demo_honest p this] show ?thesis .
qed

lemma verified_names:
  "verify_tar env ms s = (Inr u, s') \<Longrightarrow> m \<in> set ms \<Longrightarrow> \<not> unsafe_member m"
  unfolding verify_tar_def by (induction ms arbitrary: s) (auto elim!: bind_walk_InrE simp: require_Inr)

lemma looks_verify: "looks (verify_tar env ms)"
  unfolding verify_tar_def by (intro looks_each looks_bind) simp_all

lemma acquire_local_Inr:
  assumes "acquire_local env source s = (Inr (metadata, n), s')"
  shows "\<exists>kinds s1. package_local (source_fuel env) env source s = (Inr kinds, s1) \<and> as_members s' = as_members s1 \<and>
    as_budget s' = as_budget s1 \<and> n = sb_bytes (as_budget s1) \<and>
    (\<forall>m \<in> set (as_members s1). \<not> unsafe_member (tar_name m, True))"
proof -
  from assms obtain kinds s1 u where p: "package_local (source_fuel env) env source s = (Inr kinds, s1)"
    and v: "verify_tar env (map (\<lambda>m. (tar_name m, True)) (as_members s1)) s1 = (Inr u, s')" and n: "n = sb_bytes (as_budget s1)"
    unfolding acquire_local_def by (auto elim!: bind_walk_InrE simp: done_walk_def)
  moreover have "\<not> unsafe_member (tar_name m, True)" if "m \<in> set (as_members s1)" for m
    using verified_names [OF v] that by auto
  ultimately show ?thesis using looks_D [OF looks_verify v] by auto
qed

text \<open>
  C11. An acquired archive stays within the limits of the settings, and the size it reports is
  exactly the size of what it holds: the bytes of all members together, their number and each of
  them alone are bounded, and no member has a name that would leave the place it is unpacked to.
\<close>

theorem archive_within_limits:
  assumes "honest_kernel env" and "acquire_local env source fresh_archive = (Inr (metadata, n), s')"
    and "0 \<le> sl_bytes (le_limits env)" and "0 \<le> sl_files (le_limits env)"
  shows "n = content_bytes (as_members s') \<and> n \<le> sl_bytes (le_limits env) \<and>
    file_members (as_members s') \<le> sl_files (le_limits env) \<and>
    (\<forall>m \<in> set (as_members s'). (tar_directory m \<or> int (length (tar_content m)) \<le> sl_file_size (le_limits env)) \<and>
       \<not> unsafe_member (tar_name m, True))"
proof -
  from acquire_local_Inr [OF assms(2)] obtain kinds s1 where
    p: "package_local (source_fuel env) env source fresh_archive = (Inr kinds, s1)" and
    same: "as_members s' = as_members s1" "n = sb_bytes (as_budget s1)" and
    safe: "\<forall>m \<in> set (as_members s1). \<not> unsafe_member (tar_name m, True)" by blast
  from grows_D [OF package_local_grows [OF assms(1)] p] assms(3,4) same safe show ?thesis
    by (auto simp: gains_def fresh_archive_def fresh_budget_def within_limits_def)
qed

lemma archive_within_limits_witness:
  "\<exists>metadata n s'. acquire_local demo_source_env (Some demo_files) fresh_archive = (Inr (metadata, n), s') \<and>
     n = content_bytes (as_members s') \<and> n \<le> 1000"
proof -
  from demo_packaged obtain s1 where
    p: "package_local (source_fuel demo_source_env) demo_source_env (Some demo_files) fresh_archive = (Inr [''directory''], s1)" and
    m: "moved demo_tree [demo_link] fresh_archive s1" by blast
  have names: "map (\<lambda>m. (tar_name m, True)) (as_members s1) =
      [(''sources/0'', True), (''sources/0/a'', True), (''sources/0/a/x'', True), (''sources/0/b'', True)]"
    using m by (simp add: moved_def fresh_archive_def demo_tree_def tar_information_def)
  have "\<not> unsafe_member (''sources/0'', True)" "\<not> unsafe_member (''sources/0/a'', True)"
    "\<not> unsafe_member (''sources/0/a/x'', True)" "\<not> unsafe_member (''sources/0/b'', True)" by code_simp+
  then have "\<exists>s2. verify_tar demo_source_env (map (\<lambda>m. (tar_name m, True)) (as_members s1)) s1 = (Inr (), s2)"
    by (simp add: names verify_tar_def bind_walk_def event_def require_def done_walk_def demo_source_env_def)
  then obtain metadata n s' where "acquire_local demo_source_env (Some demo_files) fresh_archive = (Inr (metadata, n), s')"
    by (auto simp: acquire_local_def bind_walk_def p done_walk_def)
  from archive_within_limits [OF demo_honest this] this show ?thesis by (auto simp: demo_source_env_def)
qed

text \<open>
  C10. Archiving sources that stand still yields exactly their listing: every directory and every
  file of each tree once, in the order of the sorted names, with the bytes it has; links and
  special files are left out and reported, and the budget spent is the size of the listing. It
  succeeds whenever the trees are not too deep, the listing fits the limits and there is room on
  the disk.
\<close>

theorem still_sources_are_archived_exactly:
  assumes "stands_still env w" and "f_location x = LocalSource" and "int k \<le> sl_depth (le_limits env) + 1"
    and "\<And>item. item \<in> set (enumerate 0 (f_paths x)) \<Longrightarrow>
      source_place env w k (snd item) (fst (at (fst item))) (snd (at (fst item)))"
    and "room env fresh_budget (concat (map (\<lambda>item. place_members w k (fst item) (at (fst item))) (enumerate 0 (f_paths x))))"
  shows "\<exists>kinds s'. package_local (source_fuel env) env (Some x) fresh_archive = (Inr kinds, s') \<and>
    as_members s' = concat (map (\<lambda>item. place_members w k (fst item) (at (fst item))) (enumerate 0 (f_paths x))) \<and>
    as_skipped s' = concat (map (\<lambda>item. place_skipped w k (fst item) (at (fst item))) (enumerate 0 (f_paths x))) \<and>
    as_budget s' = spent fresh_budget (as_members s')"
proof -
  let ?ms = "concat (map (\<lambda>item. place_members w k (fst item) (at (fst item))) (enumerate 0 (f_paths x)))"
  let ?ks = "concat (map (\<lambda>item. place_skipped w k (fst item) (at (fst item))) (enumerate 0 (f_paths x)))"
  have "k \<le> source_fuel env" using assms(3) by (simp add: source_fuel_def)
  then obtain kinds where "adds env ?ms ?ks (package_local (source_fuel env) env (Some x)) kinds"
    using adds_package_local [OF assms(1,2) _ assms(3), of "source_fuel env" at] assms(4) by blast
  moreover have "room env (as_budget fresh_archive) ?ms" using assms(5) by (simp add: fresh_archive_def)
  ultimately obtain s' where "package_local (source_fuel env) env (Some x) fresh_archive = (Inr kinds, s')"
    "moved ?ms ?ks fresh_archive s'" unfolding adds_def by blast
  then show ?thesis
    by (intro exI [of _ kinds] exI [of _ s']) (simp add: moved_def fresh_archive_def)
qed

lemma still_sources_are_archived_exactly_witness:
  "\<exists>kinds s'. package_local (source_fuel demo_source_env) demo_source_env (Some demo_files) fresh_archive = (Inr kinds, s') \<and>
     as_members s' = demo_tree \<and> as_skipped s' = [demo_link]"
proof -
  have "int 2 \<le> sl_depth (le_limits demo_source_env) + 1" "f_location demo_files = LocalSource"
    "enumerate 0 (f_paths demo_files) = [(0, \<lparr>bp_path = ''/srv/data'', bp_sqlite = False\<rparr>)]"
    by (simp_all add: demo_source_env_def demo_files_def)
  then show ?thesis
    using still_sources_are_archived_exactly [OF demo_still, of demo_files 2 "\<lambda>_. (''/srv/data'', 2)"] demo_place demo_room
    by (auto simp: demo_members demo_skipped)
qed

end
