(* ===== verification/Console.thy ===== *)
theory Console
  imports ScheduleTick RemoteServers
begin

text \<open>
  The services an operator works through, taken together: who may use them, what an attempt
  leaves behind, and what every history of them keeps. One request is one transaction of
  \<^verbatim>\<open>AdminService\<close>, \<^verbatim>\<open>BackupService\<close>, \<^verbatim>\<open>RemoteServerService\<close> or \<^verbatim>\<open>SettingsService\<close>.
\<close>

section \<open>Requests\<close>

definition outcome :: "'a result \<times> db \<Rightarrow> exn option \<times> db" where
  "outcome x = (case fst x of Inl e \<Rightarrow> Some e | Inr _ \<Rightarrow> None, snd x)"

inductive request :: "user \<Rightarrow> db \<Rightarrow> exn option \<times> db \<Rightarrow> bool" for actor d where
  create_admin: "request actor d (outcome (create_admin actor telegram name profile_ids language d))"
| rename_admin: "request actor d (outcome (rename_admin actor i name d))"
| change_telegram: "request actor d (outcome (change_telegram_id actor i telegram d))"
| set_admin: "request actor d (outcome (set_admin_enabled actor i on d))"
| delete_admin: "request actor d (outcome (delete_admin now actor i d))"
| assign_profiles: "request actor d (outcome (assign_profiles actor i profile_ids d))"
| assign_admins: "request actor d (outcome (assign_admins actor i admin_ids d))"
| create_draft: "request actor d (outcome (create_draft sv actor name description stype d))"
| create_database: "request actor d (outcome (create_database_profile sv actor name description db_config
     schedule compression encryption admin_ids d))"
| create_files: "request actor d (outcome (create_files_profile sv actor name description files_config
     schedule compression encryption admin_ids d))"
| create_gitlab: "request actor d (outcome (create_gitlab_profile sv actor name description gitlab_config
     schedule compression encryption admin_ids d))"
| edit_profile: "request actor d (outcome (edit_profile sv actor i new_name description enabled d))"
| configure: "request actor d (outcome (update_configuration sv actor i update d))"
| delete_profile: "request actor d (outcome (delete_profile sv actor i d))"
| confirm_server: "request actor d (outcome (confirm_server actor pending d))"
| update_server: "request actor d (outcome (update_server actor i pending d))"
| test_server: "request actor d (outcome (test_server service actor i d))"
| set_server: "request actor d (outcome (set_server_enabled actor i on d))"
| delete_server: "request actor d (outcome (delete_server service actor i d))"
| set_timezone: "request actor d (outcome (set_backup_timezone env now actor zone d))"

section \<open>Who may use them\<close>

definition superadmin :: "user \<Rightarrow> bool" where
  "superadmin actor \<longleftrightarrow> u_role actor = Superadmin \<and> u_enabled actor \<and> u_deleted actor = None"

lemma require_refused: "\<not> superadmin actor \<Longrightarrow> require_superadmin actor = Inl (PermissionError ''SUPERADMIN required'')"
  by (auto simp: superadmin_def require_superadmin_def guard_result_def)

lemma request_refused:
  assumes "request actor d out" and "\<not> superadmin actor"
  shows "out = (Some (PermissionError ''SUPERADMIN required''), d)"
proof -
  note r = require_refused [OF assms(2)]
  from assms(1) show ?thesis
    by cases (simp_all add: outcome_def r create_admin_def rename_admin_def change_telegram_id_def
      set_admin_enabled_def delete_admin_def assign_profiles_def assign_admins_def create_draft_def
      create_database_profile_def create_files_profile_def create_gitlab_profile_def edit_profile_def
      update_configuration_def delete_profile_def confirm_server_def update_server_def test_server_def
      set_server_enabled_def delete_server_def set_backup_timezone_def)
qed

text \<open>
  C13. Whoever is not an enabled superadmin can change nothing: every request is refused with the
  same permission error and leaves the database as it was, and so is every attempt to start,
  cancel, retry, purge or look at a run; purging touches no file either.
\<close>

theorem only_superadmins_manage:
  assumes "\<not> superadmin actor"
  shows "(\<forall>out. request actor d out \<longrightarrow> out = (Some (PermissionError ''SUPERADMIN required''), d)) \<and>
    enqueue_manual eq actor i d = (Inl (PermissionError ''SUPERADMIN required''), d) \<and>
    request_cancel now actor i d = (Inl (PermissionError ''SUPERADMIN required''), d) \<and>
    retry_failed files fs eq actor i root d = (Inl (PermissionError ''SUPERADMIN required''), d) \<and>
    purge_failed_artifact files now actor i root (d, fs) = (Inl (PermissionError ''SUPERADMIN required''), d, fs) \<and>
    details actor i d = Inl (PermissionError ''SUPERADMIN required'') \<and>
    list_active actor d = Inl (PermissionError ''SUPERADMIN required'') \<and>
    history actor page page_size d = Inl (PermissionError ''SUPERADMIN required'')"
  using request_refused [OF _ assms] require_refused [OF assms]
  by (simp add: enqueue_manual_def request_cancel_def retry_failed_def purge_failed_artifact_def details_def
      list_active_def history_def)

theorem only_superadmins_manage_witness:
  "\<not> superadmin demo_admin \<and> request demo_admin demo_db (Some (PermissionError ''SUPERADMIN required''), demo_db) \<and>
    fst (request_cancel 0 demo_admin 1 demo_db) = Inl (PermissionError ''SUPERADMIN required'')"
proof -
  have no: "\<not> superadmin demo_admin" by (simp add: superadmin_def demo_admin_def)
  note refused = only_superadmins_manage [OF no, of demo_db]
  have ran: "request demo_admin demo_db (outcome (set_admin_enabled demo_admin 2 False demo_db))" by (rule request.set_admin)
  with conjunct1 [OF refused] have out: "outcome (set_admin_enabled demo_admin 2 False demo_db) = (Some (PermissionError ''SUPERADMIN required''), demo_db)"
    by blast
  have cancel: "fst (request_cancel 0 demo_admin 1 demo_db) = Inl (PermissionError ''SUPERADMIN required'')"
    by (simp only: conjunct1 [OF conjunct2 [OF conjunct2 [OF refused]]] fst_conv)
  show ?thesis using no ran cancel unfolding out by (intro conjI)
qed

section \<open>What an attempt leaves behind\<close>

definition granted :: "db \<Rightarrow> (int \<times> int) set" where
  "granted d = (\<lambda>a. (a_admin a, a_profile a)) ` set (access d)"

definition same_configuration :: "db \<Rightarrow> db \<Rightarrow> bool" where
  "same_configuration d d' \<longleftrightarrow> users d' = users d \<and> profiles d' = profiles d \<and> servers d' = servers d \<and>
     settings d' = settings d \<and> granted d' = granted d"

text \<open>An error leaves everything as it was; a success that changes the configuration says who did it.\<close>

definition accountable :: "user \<Rightarrow> db \<Rightarrow> exn option \<times> db \<Rightarrow> bool" where
  "accountable actor d out \<longleftrightarrow>
     (if fst out \<noteq> None then snd out = d
      else \<exists>new. audits (snd out) = audits d @ new \<and> (\<forall>ev \<in> set new. ev_actor ev = Some (u_id actor)) \<and>
        (new = [] \<longrightarrow> same_configuration d (snd out)))"

lemma accountable_error: "accountable actor d (outcome (Inl e, d))"
  by (simp add: accountable_def outcome_def)

lemma accountable_with_result:
  "(\<And>a. r = Inr a \<Longrightarrow> accountable actor d (outcome (f a d))) \<Longrightarrow> accountable actor d (outcome (with_result r f d))"
  by (cases r) (simp_all add: accountable_error)

lemma accountable_case_op:
  "(\<And>a e. x = (Inr a, e) \<Longrightarrow> accountable actor d (outcome (g a e))) \<Longrightarrow>
     accountable actor d (outcome (case x of (Inl e, _) \<Rightarrow> (Inl e, d) | (Inr a, e) \<Rightarrow> g a e))"
  by (cases x; cases "fst x") (auto simp: accountable_error)

lemma accountable_case_result:
  "(\<And>a. r = Inr a \<Longrightarrow> accountable actor d (outcome (g a))) \<Longrightarrow>
     accountable actor d (outcome (case r of Inl e \<Rightarrow> (Inl e, d) | Inr a \<Rightarrow> g a))"
  by (cases r) (auto simp: accountable_error)

lemma accountable_if:
  "(b \<Longrightarrow> accountable actor d (outcome x)) \<Longrightarrow> (\<not> b \<Longrightarrow> accountable actor d (outcome y)) \<Longrightarrow>
     accountable actor d (outcome (if b then x else y))"
  by simp

lemmas accountable_rules = accountable_with_result accountable_case_op accountable_case_result accountable_if
  accountable_error

lemma accountable_audit:
  "audits d1 = audits d \<Longrightarrow> accountable actor d (outcome (Inr x, audit ev (Some (u_id actor)) t i m d1))"
  by (simp add: accountable_def outcome_def audit_def)

lemma audits_frame [simp]:
  "audits (update_user i f d) = audits d" "audits (update_profile i g d) = audits d"
  "audits (update_server_row i h d) = audits d" "audits (snd (get_settings d)) = audits d"
  "audits (access_replace a ps u d) = audits d" "audits (access_replace_for_profile p us u d) = audits d"
  "audits (set_timezone z d) = audits d"
  by (simp_all add: update_user_def update_profile_def update_server_row_def get_settings_def access_replace_def
      access_replace_for_profile_def set_timezone_def split: option.splits)

lemma audits_after:
  "create_user t n r c l d = (Inr u, d1) \<Longrightarrow> audits d1 = audits d"
  "insert_draft sv n de st a d = (Inr p, d1) \<Longrightarrow> audits d1 = audits d"
  "flush_profile q d = (Inr x, d1) \<Longrightarrow> audits d1 = audits d"
  "create_server pd d = (Inr s, d1) \<Longrightarrow> audits d1 = audits d"
  "flush_server s d = (Inr x, d1) \<Longrightarrow> audits d1 = audits d"
  by (auto simp: create_user_def insert_draft_def flush_profile_def create_server_def flush_server_def Let_def
      split: if_splits)

definition access_record :: "string \<Rightarrow> user \<Rightarrow> int \<Rightarrow> int \<Rightarrow> audit_event" where
  "access_record ev actor p u = \<lparr>ev_type = ev, ev_actor = Some (u_id actor), ev_target_type = Some ''backup'',
     ev_target_id = Some (show_int p), ev_details = [(''admin_id'', JInt u)]\<rparr>"

lemma access_events:
  "audits (fold (\<lambda>p. access_event actor ev p u) ps d) = audits d @ map (\<lambda>p. access_record ev actor p u) ps"
  "audits (fold (access_event actor ev p) us d) = audits d @ map (access_record ev actor p) us"
  by (induction ps arbitrary: d; simp add: access_event_def audit_def access_record_def)
    (induction us arbitrary: d; simp add: access_event_def audit_def access_record_def)

lemma access_event_frame [simp]:
  "users (access_event actor ev p u d) = users d" "profiles (access_event actor ev p u d) = profiles d"
  "servers (access_event actor ev p u d) = servers d" "settings (access_event actor ev p u d) = settings d"
  "access (access_event actor ev p u d) = access d"
  by (simp_all add: access_event_def)

lemma fold_frame:
  "(\<And>x d. g (f x d) = g d) \<Longrightarrow> g (fold f xs d) = g d"
  by (induction xs arbitrary: d) simp_all

lemma access_replace_frame [simp]:
  "users (access_replace a ps u d) = users d" "profiles (access_replace a ps u d) = profiles d"
  "servers (access_replace a ps u d) = servers d" "settings (access_replace a ps u d) = settings d"
  "users (access_replace_for_profile p us u d) = users d"
  "servers (access_replace_for_profile p us u d) = servers d"
  "settings (access_replace_for_profile p us u d) = settings d"
  by (simp_all add: access_replace_def access_replace_for_profile_def)

lemma granted_replaced:
  "granted (access_replace admin_id ps u d) = {g \<in> granted d. fst g \<noteq> admin_id} \<union> {admin_id} \<times> set ps"
  "granted (access_replace_for_profile p us u d) = {g \<in> granted d. snd g \<noteq> p} \<union> set us \<times> {p}"
  by (auto simp: granted_def access_replace_def access_replace_for_profile_def image_Un image_image)

lemma granted_kept:
  "set ps = {p. (a, p) \<in> granted d} \<Longrightarrow> granted (access_replace a ps u d) = granted d"
  "set us = {u. (u, p) \<in> granted d} \<Longrightarrow> granted (access_replace_for_profile p us w d) = granted d"
  by (auto simp: granted_replaced)

lemma accountable_events:
  "audits d' = audits d @ new \<Longrightarrow> \<forall>ev \<in> set new. ev_actor ev = Some (u_id actor) \<Longrightarrow>
     (new = [] \<Longrightarrow> same_configuration d d') \<Longrightarrow> accountable actor d (outcome (Inr x, d'))"
  by (auto simp: accountable_def outcome_def)

lemma accountable_assign_profiles: "accountable actor d (outcome (assign_profiles actor admin_id profile_ids d))"
proof -
  define previous where "previous = access_profile_ids d admin_id"
  define d1 where "d1 = access_replace admin_id profile_ids (u_id actor) d"
  define d3 where "d3 = fold (\<lambda>p. access_event actor ''backup_access_revoked'' p admin_id) (filter (\<lambda>p. p \<notin> set profile_ids) previous)
     (fold (\<lambda>p. access_event actor ''backup_access_granted'' p admin_id) (filter (\<lambda>p. p \<notin> set previous) (remdups profile_ids)) d1)"
  have frames: "users d3 = users d" "profiles d3 = profiles d" "servers d3 = servers d" "settings d3 = settings d"
    "access d3 = access d1"
    by (simp_all add: d3_def d1_def fold_frame)
  have pairs: "set previous = {p. (admin_id, p) \<in> granted d}"
    by (force simp: previous_def access_profile_ids_def granted_def)
  have "granted d3 = granted d"
    if "filter (\<lambda>p. p \<notin> set profile_ids) previous = []" "filter (\<lambda>p. p \<notin> set previous) (remdups profile_ids) = []"
  proof -
    from that have "set profile_ids = set previous" by (auto simp: filter_empty_conv)
    moreover have "granted d3 = granted d1" by (simp add: granted_def frames)
    ultimately show ?thesis using granted_kept pairs d1_def by metis
  qed
  with frames have same: "filter (\<lambda>p. p \<notin> set profile_ids) previous = [] \<Longrightarrow>
      filter (\<lambda>p. p \<notin> set previous) (remdups profile_ids) = [] \<Longrightarrow> same_configuration d d3"
    by (simp add: same_configuration_def)
  have new: "audits d3 = audits d @ (map (\<lambda>p. access_record ''backup_access_granted'' actor p admin_id) (filter (\<lambda>p. p \<notin> set previous) (remdups profile_ids)) @
      map (\<lambda>p. access_record ''backup_access_revoked'' actor p admin_id) (filter (\<lambda>p. p \<notin> set profile_ids) previous))"
    by (simp only: d3_def d1_def access_events audits_frame append_assoc)
  have "accountable actor d (outcome (Inr (), d3))"
    by (rule accountable_events [OF new]) (simp add: access_record_def ball_Un, rule same, simp_all only: append_is_Nil_conv map_is_Nil_conv)
  then show ?thesis
    unfolding assign_profiles_def
    by (intro accountable_rules) (simp add: Let_def d3_def d1_def previous_def)
qed

lemma accountable_assign_admins: "accountable actor d (outcome (assign_admins actor profile_id admin_ids d))"
proof -
  define previous where "previous = access_admin_ids d profile_id"
  define d1 where "d1 = access_replace_for_profile profile_id admin_ids (u_id actor) d"
  define d3 where "d3 = fold (access_event actor ''backup_access_revoked'' profile_id) (filter (\<lambda>u. u \<notin> set admin_ids) previous)
     (fold (access_event actor ''backup_access_granted'' profile_id) (filter (\<lambda>u. u \<notin> set previous) (remdups admin_ids)) d1)"
  have frames: "users d3 = users d" "profiles d3 = profiles d" "servers d3 = servers d" "settings d3 = settings d"
    "access d3 = access d1"
    by (simp_all add: d3_def d1_def fold_frame)
  have pairs: "set previous = {u. (u, profile_id) \<in> granted d}"
    by (force simp: previous_def access_admin_ids_def granted_def)
  have "granted d3 = granted d"
    if "filter (\<lambda>u. u \<notin> set admin_ids) previous = []" "filter (\<lambda>u. u \<notin> set previous) (remdups admin_ids) = []"
  proof -
    from that have "set admin_ids = set previous" by (auto simp: filter_empty_conv)
    moreover have "granted d3 = granted d1" by (simp add: granted_def frames)
    ultimately show ?thesis using granted_kept pairs d1_def by metis
  qed
  with frames have same: "filter (\<lambda>u. u \<notin> set admin_ids) previous = [] \<Longrightarrow>
      filter (\<lambda>u. u \<notin> set previous) (remdups admin_ids) = [] \<Longrightarrow> same_configuration d d3"
    by (simp add: same_configuration_def)
  have new: "audits d3 = audits d @ (map (access_record ''backup_access_granted'' actor profile_id) (filter (\<lambda>u. u \<notin> set previous) (remdups admin_ids)) @
      map (access_record ''backup_access_revoked'' actor profile_id) (filter (\<lambda>u. u \<notin> set admin_ids) previous))"
    by (simp only: d3_def d1_def access_events audits_frame append_assoc)
  have "accountable actor d (outcome (Inr (), d3))"
    by (rule accountable_events [OF new]) (simp add: access_record_def ball_Un, rule same, simp_all only: append_is_Nil_conv map_is_Nil_conv)
  then show ?thesis
    unfolding assign_admins_def
    by (intro accountable_rules) (simp add: Let_def d3_def d1_def previous_def)
qed

lemma accountable_create_configured:
  "accountable actor d (outcome (create_configured sv actor name description schedule compression encryption ids src d))"
  unfolding create_configured_def configured_event_def
  by (intro accountable_rules accountable_audit; ((drule audits_after)+)?; simp)

lemmas account_definitions = create_admin_def rename_admin_def change_telegram_id_def set_admin_enabled_def
  delete_admin_def create_draft_def create_database_profile_def create_files_profile_def create_gitlab_profile_def
  edit_profile_def update_configuration_def delete_profile_def confirm_server_def update_server_def test_server_def
  set_server_enabled_def delete_server_def set_backup_timezone_def admin_audit_def server_event_def updated_event_def

lemma accountable_change_language: "accountable actor d (outcome (change_language actor language target d))"
  unfolding change_language_def by (intro accountable_rules accountable_audit) simp

lemma accountable_request: "request actor d out \<Longrightarrow> accountable actor d out"
  by (induction rule: request.induct)
    (unfold account_definitions Let_def, (intro accountable_rules accountable_audit accountable_create_configured
       accountable_assign_profiles accountable_assign_admins; ((drule audits_after)+)?; simp)+)



section \<open>What every history keeps\<close>

text \<open>
  The accounts: identifiers and Telegram ids are unique, Telegram ids and names are what the
  validators allow. The grants: no pair twice, each to an account that is not deleted, for a
  profile that is not.
\<close>

definition accounts_ok :: "db \<Rightarrow> bool" where
  "accounts_ok d \<longleftrightarrow> distinct (map u_id (users d)) \<and> distinct (map u_telegram (users d)) \<and>
     (\<forall>u \<in> set (users d). u_id u \<le> user_seq d \<and> 0 < u_telegram u \<and> u_telegram u < 2 ^ 63 \<and>
        1 \<le> length (u_name u) \<and> length (u_name u) \<le> 200)"

definition live_users :: "db \<Rightarrow> int set" where
  "live_users d = u_id ` {u \<in> set (users d). u_deleted u = None}"

definition live_profiles :: "db \<Rightarrow> int set" where
  "live_profiles d = p_id ` {p \<in> set (profiles d). p_archived_at p = None}"

definition grants_ok :: "db \<Rightarrow> bool" where
  "grants_ok d \<longleftrightarrow> distinct (map (\<lambda>a. (a_admin a, a_profile a)) (access d)) \<and> granted d \<subseteq> live_users d \<times> live_profiles d"

definition directory_ok :: "db \<Rightarrow> bool" where
  "directory_ok d \<longleftrightarrow> accounts_ok d \<and> grants_ok d \<and> profiles_ok d \<and> servers_ok d"

text \<open>Histories from the empty database. What else happens to it does not touch the configuration.\<close>

inductive history_of_requests :: "db \<Rightarrow> bool" where
  empty: "history_of_requests empty_db"
| bootstrap: "history_of_requests d \<Longrightarrow> history_of_requests (snd (bootstrap_superadmin telegram language d))"
| requested: "history_of_requests d \<Longrightarrow> request actor d out \<Longrightarrow> history_of_requests (snd out)"
| language: "history_of_requests d \<Longrightarrow> history_of_requests (snd (change_language actor language target d))"
| elsewhere: "history_of_requests d \<Longrightarrow> users d' = users d \<Longrightarrow> user_seq d' = user_seq d \<Longrightarrow> access d' = access d \<Longrightarrow>
    profiles d' = profiles d \<Longrightarrow> profile_seq d' = profile_seq d \<Longrightarrow> servers d' = servers d \<Longrightarrow>
    server_seq d' = server_seq d \<Longrightarrow> history_of_requests d'"

subsection \<open>Accounts\<close>

lemma validated_name: "validate_name n f = Inr c \<Longrightarrow> 1 \<le> length c \<and> length c \<le> 200"
  by (auto simp: validate_name_def Let_def split: if_splits)

lemma validated_telegram: "validate_telegram_id t = Inr i \<Longrightarrow> i = t \<and> 0 < t \<and> t < 2 ^ 63"
  by (auto simp: validate_telegram_id_def split: if_splits)

lemma strip_by_fixed: "(t \<noteq> [] \<Longrightarrow> \<not> p (hd t) \<and> \<not> p (last t)) \<Longrightarrow> strip_by p t = t"
proof (cases t)
  case (Cons x xs)
  assume "t \<noteq> [] \<Longrightarrow> \<not> p (hd t) \<and> \<not> p (last t)"
  with Cons have "dropWhile p t = t" and "\<not> p (hd (rev t))" and "rev t \<noteq> []" by (simp_all only: hd_rev) simp_all
  moreover from this(2,3) have "dropWhile p (rev t) = rev t" by (cases "rev t") auto
  ultimately show ?thesis by (simp add: strip_by_def)
qed (simp add: strip_by_def)

lemma strip_by_first: "strip_by p s \<noteq> [] \<Longrightarrow> \<not> p (hd (strip_by p s))"
proof -
  assume ne: "strip_by p s \<noteq> []"
  have "rev (takeWhile p (rev (dropWhile p s)) @ dropWhile p (rev (dropWhile p s))) = dropWhile p s"
    by (simp only: takeWhile_dropWhile_id rev_rev_ident)
  then have split: "strip_by p s @ rev (takeWhile p (rev (dropWhile p s))) = dropWhile p s"
    by (simp only: strip_by_def rev_append)
  with ne have "hd (dropWhile p s) = hd (strip_by p s)" "dropWhile p s \<noteq> []"
    by (metis hd_append2, metis append_is_Nil_conv)
  then show ?thesis using hd_dropWhile [of p s] by metis
qed

lemma strip_twice: "strip (strip s) = strip s"
  unfolding strip_def by (rule strip_by_fixed) (simp add: strip_by_first strip_by_hd)

lemma validated_name_clean: "validate_name n f = Inr c \<Longrightarrow> strip c = c"
  by (auto simp: validate_name_def Let_def strip_twice split: if_splits)

definition account_fine :: "user \<Rightarrow> bool" where
  "account_fine u \<longleftrightarrow> 0 < u_telegram u \<and> u_telegram u < 2 ^ 63 \<and> 1 \<le> length (u_name u) \<and> length (u_name u) \<le> 200"

definition access_ok :: "db \<Rightarrow> bool" where
  "access_ok d \<longleftrightarrow> accounts_ok d \<and> grants_ok d"

lemma accounts_ok_alt: "accounts_ok d \<longleftrightarrow> distinct (map u_id (users d)) \<and> distinct (map u_telegram (users d)) \<and>
    (\<forall>u \<in> set (users d). u_id u \<le> user_seq d \<and> account_fine u)"
  by (auto simp: accounts_ok_def account_fine_def)

lemma access_ok_mono:
  "access_ok d \<Longrightarrow> users d' = users d \<Longrightarrow> user_seq d' = user_seq d \<Longrightarrow> access d' = access d \<Longrightarrow>
     live_profiles d \<subseteq> live_profiles d' \<Longrightarrow> access_ok d'"
  by (auto simp: access_ok_def accounts_ok_def grants_ok_def granted_def live_users_def)

lemma access_ok_audit [simp]: "access_ok (audit e a t i m d) = access_ok d"
  by (simp add: access_ok_def accounts_ok_def grants_ok_def granted_def live_users_def live_profiles_def)

lemma access_ok_events: "(\<And>x d. access_ok (f x d) = access_ok d) \<Longrightarrow> access_ok (fold f xs d) = access_ok d"
  by (rule fold_frame)

text \<open>A count that equals the number of identifiers asked for finds each of them.\<close>

lemma counted_all:
  assumes "distinct (map k xs)" and "length (filter (\<lambda>x. k x \<in> set ids \<and> P x) xs) = length (remdups ids)" and "i \<in> set ids"
  shows "\<exists>x \<in> set xs. k x = i \<and> P x"
proof -
  let ?f = "filter (\<lambda>x. k x \<in> set ids \<and> P x) xs"
  have "card (k ` set ?f) = length ?f"
    using assms(1) distinct_map_filter [of k xs] distinct_card [of "map k ?f"] by simp
  also have "\<dots> = card (set ids)" using assms(2) by (simp add: card_set)
  finally have "k ` set ?f = set ids" by (intro card_subset_eq) auto
  with assms(3) have "i \<in> k ` set ?f" by simp
  then show ?thesis by auto
qed

lemma validated_admins:
  "accounts_ok d \<Longrightarrow> validate_admins d ids e = Inr u \<Longrightarrow> set ids \<subseteq> live_users d"
  using counted_all [of u_id "users d" ids "\<lambda>u. u_role u = Admin \<and> u_enabled u \<and> u_deleted u = None"]
  by (auto simp: validate_admins_def Let_def accounts_ok_def live_users_def)

lemma validated_profiles:
  "profiles_ok d \<Longrightarrow> validate_profiles d ids = Inr u \<Longrightarrow> set ids \<subseteq> live_profiles d"
  using counted_all [of p_id "profiles d" ids "\<lambda>p. p_archived_at p = None"]
  by (auto simp: validate_profiles_def Let_def profiles_ok_def live_profiles_def)

lemma replaced_frames:
  "accounts_ok (access_replace u ps w d) = accounts_ok d" "live_users (access_replace u ps w d) = live_users d"
  "live_profiles (access_replace u ps w d) = live_profiles d"
  "accounts_ok (access_replace_for_profile p us w d) = accounts_ok d"
  "live_users (access_replace_for_profile p us w d) = live_users d"
  "live_profiles (access_replace_for_profile p us w d) = live_profiles d"
  by (simp_all add: accounts_ok_def live_users_def live_profiles_def access_replace_def access_replace_for_profile_def)

lemma access_ok_for_profile:
  assumes "access_ok d" and "set us \<subseteq> live_users d" and "p \<in> live_profiles d"
  shows "access_ok (access_replace_for_profile p us w d)"
proof -
  have "distinct (map (\<lambda>a. (a_admin a, a_profile a)) (access (access_replace_for_profile p us w d)))"
    using assms(1) distinct_map_filter
    by (auto simp: access_replace_for_profile_def access_ok_def grants_ok_def comp_def distinct_map inj_on_def)
  with assms show ?thesis
    by (auto simp: access_ok_def grants_ok_def granted_replaced replaced_frames)
qed

lemma access_ok_for_admin:
  assumes "access_ok d" and "set ps \<subseteq> live_profiles d" and "u \<in> live_users d"
  shows "access_ok (access_replace u ps w d)"
proof -
  have "distinct (map (\<lambda>a. (a_admin a, a_profile a)) (access (access_replace u ps w d)))"
    using assms(1) distinct_map_filter
    by (auto simp: access_replace_def access_ok_def grants_ok_def comp_def distinct_map inj_on_def)
  with assms show ?thesis
    by (auto simp: access_ok_def grants_ok_def granted_replaced replaced_frames)
qed

lemma access_ok_user:
  assumes ok: "access_ok d"
    and keep: "\<And>u. u_id (f u) = u_id u \<and> (u_deleted u = None \<longrightarrow> u_deleted (f u) = None)"
    and fine: "\<And>u. u \<in> set (users d) \<Longrightarrow> u_id u = i \<Longrightarrow> account_fine (f u) \<and> (\<forall>v \<in> set (users d). u_id v \<noteq> i \<longrightarrow> u_telegram v \<noteq> u_telegram (f u))"
  shows "access_ok (update_user i f d)"
proof -
  have ids: "map u_id (update_where (\<lambda>u. u_id u = i) f us) = map u_id us" for us
    using keep by (intro map_key_update_where) simp
  have tel: "distinct (map u_telegram (update_where (\<lambda>u. u_id u = i) f us))"
    if "distinct (map u_telegram us)" "distinct (map u_id us)" "set us \<subseteq> set (users d)" for us
    using that
  proof (induction us)
    case (Cons u us)
    have new: "u_telegram (f u) \<noteq> u_telegram x" if "u_id u = i" "x \<in> set us" for x
    proof -
      have "u_id u \<notin> u_id ` set us" using Cons.prems(2) by simp
      with that have "u_id x \<noteq> i" by (metis imageI)
      moreover have "x \<in> set (users d)" using Cons.prems(3) that by auto
      ultimately show ?thesis using fine [of u] that Cons.prems(3) by auto
    qed
    have old: "u_telegram x \<noteq> u_telegram u" if "x \<in> set (update_where (\<lambda>u. u_id u = i) f us)" "u_id u \<noteq> i" for x
    proof (cases "x \<in> set us")
      case True
      then have "u_telegram x \<in> u_telegram ` set us" by (rule imageI)
      moreover have "u_telegram u \<notin> u_telegram ` set us" using Cons.prems(1) by simp
      ultimately show ?thesis by metis
    next
      case False
      with that(1) obtain y where y: "y \<in> set us" "u_id y = i" "x = f y" by (auto simp: set_update_where)
      then have "y \<in> set (users d)" "u \<in> set (users d)" using Cons.prems(3) by auto
      with fine [of y] that(2) y(2,3) show ?thesis by auto
    qed
    have same: "u_id u = i \<Longrightarrow> update_where (\<lambda>u. u_id u = i) f us = us"
      using Cons.prems(2) by (intro update_where_none) (auto simp: image_iff)
    have "u_telegram (f u) \<notin> u_telegram ` set us" if "u_id u = i" using new [OF that] by auto
    moreover have "u_telegram u \<notin> u_telegram ` set (update_where (\<lambda>u. u_id u = i) f us)" if "u_id u \<noteq> i"
      using old [OF _ that] by force
    ultimately show ?case using Cons by (cases "u_id u = i") (simp_all add: same)
  qed simp
  have live: "live_users d \<subseteq> live_users (update_user i f d)"
  proof
    fix k assume "k \<in> live_users d"
    then obtain u where u: "u \<in> set (users d)" "u_deleted u = None" "k = u_id u" by (auto simp: live_users_def)
    define v where "v = (if u_id u = i then f u else u)"
    have "v \<in> set (users (update_user i f d))" using u(1) by (auto simp: v_def update_user_def set_update_where)
    moreover have "u_deleted v = None" "u_id v = k" using keep [of u] u by (auto simp: v_def)
    ultimately show "k \<in> live_users (update_user i f d)" by (auto simp: live_users_def)
  qed
  have rest: "live_profiles (update_user i f d) = live_profiles d" "access (update_user i f d) = access d"
    "user_seq (update_user i f d) = user_seq d" by (simp_all add: live_profiles_def update_user_def)
  have "accounts_ok (update_user i f d)"
    using ok tel [of "users d"] keep fine ids
    by (auto simp: access_ok_def accounts_ok_alt update_user_def set_update_where)
  with ok live rest show ?thesis by (auto simp: access_ok_def grants_ok_def granted_def)
qed

lemma known_account: "access_ok d \<Longrightarrow> u \<in> set (users d) \<Longrightarrow> account_fine u"
  by (simp add: access_ok_def accounts_ok_alt)

lemma same_account: "access_ok d \<Longrightarrow> u \<in> set (users d) \<Longrightarrow> v \<in> set (users d) \<Longrightarrow> u_telegram u = u_telegram v \<Longrightarrow> u = v"
  by (auto simp: access_ok_def accounts_ok_alt distinct_map inj_on_def)

lemma access_ok_keep:
  assumes "access_ok d"
    and "\<And>u. u_id (f u) = u_id u \<and> u_telegram (f u) = u_telegram u \<and> (u_deleted u = None \<longrightarrow> u_deleted (f u) = None)"
    and "\<And>u. u_name (f u) = u_name u \<or> 1 \<le> length (u_name (f u)) \<and> length (u_name (f u)) \<le> 200"
  shows "access_ok (update_user i f d)"
proof (rule access_ok_user [OF assms(1)])
  show "u_id (f u) = u_id u \<and> (u_deleted u = None \<longrightarrow> u_deleted (f u) = None)" for u using assms(2) by simp
  fix u assume u: "u \<in> set (users d)" "u_id u = i"
  have "account_fine (f u)"
    using known_account [OF assms(1) u(1)] assms(2) [of u] assms(3) [of u] by (auto simp: account_fine_def)
  moreover have "u_id v = i" if "v \<in> set (users d)" "u_telegram v = u_telegram (f u)" for v
    using same_account [OF assms(1) that(1) u(1)] that(2) assms(2) [of u] u(2) by simp
  ultimately show "account_fine (f u) \<and> (\<forall>v \<in> set (users d). u_id v \<noteq> i \<longrightarrow> u_telegram v \<noteq> u_telegram (f u))" by blast
qed

lemma access_ok_new_user:
  assumes ok: "access_ok d" and c: "create_user t n r cb l d = (Inr u, d1)"
    and fine: "0 < t" "t < 2 ^ 63" "1 \<le> length (strip n)" "length (strip n) \<le> 200"
  shows "access_ok d1 \<and> u_id u \<in> live_users d1 \<and> live_profiles d1 = live_profiles d"
proof -
  from c have d1: "d1 = d\<lparr>users := users d @ [u], user_seq := user_seq d + 1\<rparr>" and fresh: "t \<notin> u_telegram ` set (users d)"
    and u: "u_id u = user_seq d + 1" "u_telegram u = t" "u_name u = strip n" "u_deleted u = None"
    by (auto simp: create_user_def Let_def split: if_splits)
  have ids: "u_id u \<notin> u_id ` set (users d)"
    using ok u(1) by (force simp: access_ok_def accounts_ok_alt)
  have "accounts_ok d1"
    using ok ids fresh u fine by (auto simp: d1 access_ok_def accounts_ok_alt account_fine_def)
  moreover have "live_users d1 = insert (u_id u) (live_users d)" "live_profiles d1 = live_profiles d" "access d1 = access d"
    using u(4) by (auto simp: d1 live_users_def live_profiles_def)
  ultimately show ?thesis using ok by (auto simp: access_ok_def grants_ok_def granted_def)
qed

lemmas access_inv = with_result_inv [where I = access_ok] case_op_inv [where I = access_ok]
  case_result_inv [where I = access_ok]

lemma target_found: "admin_target d i = Inr u \<Longrightarrow> u \<in> set (users d) \<and> u_id u = i \<and> i \<in> live_users d"
  by (auto simp: admin_target_def user_by_id_def live_users_def dest: find_SomeD split: option.splits if_splits)

lemma access_ok_create_admin:
  assumes "access_ok d" and "profiles_ok d"
  shows "access_ok (snd (create_admin actor t n ps l d))"
proof -
  have "access_ok (access_replace (u_id u) ps (u_id actor) d1)"
    if v: "validate_profiles d ps = Inr x" "validate_telegram_id t = Inr tid" "validate_name n ''display name'' = Inr name"
      and c: "create_user tid name Admin (Some (u_id actor)) l d = (Inr u, d1)" for x tid name u d1
    using access_ok_new_user [OF assms(1) c] validated_telegram [OF v(2)] validated_name [OF v(3)]
      validated_name_clean [OF v(3)] validated_profiles [OF assms(2) v(1)]
    by (intro access_ok_for_admin) auto
  with assms(1) show ?thesis
    unfolding create_admin_def admin_audit_def by (intro access_inv) auto
qed

lemma access_ok_edit_admin:
  assumes "access_ok d"
  shows "access_ok (snd (rename_admin actor i n d))" "access_ok (snd (change_telegram_id actor i t d))"
    "access_ok (snd (set_admin_enabled actor i on d))" "access_ok (snd (change_language actor l target d))"
proof -
  show "access_ok (snd (rename_admin actor i n d))"
    unfolding rename_admin_def admin_audit_def
    by (intro access_inv assms) (auto intro!: access_ok_keep [OF assms] dest: validated_name)
  show "access_ok (snd (change_telegram_id actor i t d))"
    unfolding change_telegram_id_def admin_audit_def
    by (intro access_inv assms) (auto intro!: access_ok_user [OF assms] simp: account_fine_def list_ex_iff assms
        dest: known_account [OF assms] dest!: validated_telegram)
  show "access_ok (snd (set_admin_enabled actor i on d))"
    unfolding set_admin_enabled_def admin_audit_def
    by (intro access_inv assms) (auto intro!: access_ok_keep [OF assms])
  show "access_ok (snd (change_language actor l target d))"
    unfolding change_language_def
    by (intro access_inv assms) (auto intro!: access_ok_keep [OF assms])
qed

lemma access_ok_delete_admin:
  assumes "access_ok d"
  shows "access_ok (snd (delete_admin now actor i d))"
proof -
  let ?f = "update_where (\<lambda>u. u_id u = i) (\<lambda>u. u\<lparr>u_enabled := False, u_deleted := Some now\<rparr>)"
  let ?d = "(update_user i (\<lambda>u. u\<lparr>u_enabled := False, u_deleted := Some now\<rparr>) d)\<lparr>access := filter (\<lambda>a. a_admin a \<noteq> i) (access d)\<rparr>"
  have keys: "map u_id (?f us) = map u_id us" "map u_telegram (?f us) = map u_telegram us" for us
    by (rule map_key_update_where; simp)+
  have "accounts_ok ?d"
    using assms by (auto simp: access_ok_def accounts_ok_alt update_user_def keys set_update_where account_fine_def)
  moreover have "grants_ok ?d"
    using assms by (fastforce simp: access_ok_def grants_ok_def granted_def live_users_def live_profiles_def update_user_def
        set_update_where distinct_map_filter)
  ultimately have "access_ok ?d" by (simp add: access_ok_def)
  with assms show ?thesis
    unfolding delete_admin_def admin_audit_def by (intro access_inv) (simp_all add: update_user_def Let_def)
qed

lemma access_ok_assign:
  assumes "access_ok d" and "profiles_ok d"
  shows "access_ok (snd (assign_profiles actor i ps d))" "access_ok (snd (assign_admins actor p us d))"
proof -
  have events: "access_ok (access_event actor ev q u e) = access_ok e" for ev q u e
    by (simp add: access_event_def)
  show "access_ok (snd (assign_profiles actor i ps d))"
    unfolding assign_profiles_def Let_def
    by (intro access_inv assms(1)) (auto simp: access_ok_events events dest!: target_found
        intro!: access_ok_for_admin assms(1) dest: validated_profiles [OF assms(2)])
  have live: "p \<in> live_profiles d" if "profile_by_id d p = Some x" "p_archived_at x = None" for x
    using that by (auto simp: profile_by_id_def live_profiles_def dest!: find_SomeD)
  have acc: "accounts_ok d" using assms(1) by (simp add: access_ok_def)
  show "access_ok (snd (assign_admins actor p us d))"
    unfolding assign_admins_def Let_def
    by (intro access_inv assms(1)) (auto simp: access_ok_events events live split: option.splits
        intro!: access_ok_for_profile assms(1) dest: validated_admins [OF acc])
qed

subsection \<open>Profiles\<close>

text \<open>A row that stands for a live profile: of that identifier, not archived.\<close>

definition row_of :: "int \<Rightarrow> profile \<Rightarrow> bool" where
  "row_of i p \<longleftrightarrow> p_id p = i \<and> p_archived_at p = None"

lemma row_of_parts:
  "register_schedule sv d p = Inr q \<Longrightarrow> row_of i p \<Longrightarrow> row_of i q"
  "attach_source sv src p = Inr q \<Longrightarrow> row_of i p \<Longrightarrow> row_of i q"
  "rename_profile n p = Inr q \<Longrightarrow> row_of i p \<Longrightarrow> row_of i q"
  "describe_profile n p = Inr q \<Longrightarrow> row_of i p \<Longrightarrow> row_of i q"
  "replace_source sv u old src p = Inr q \<Longrightarrow> row_of i p \<Longrightarrow> row_of i q"
  "row_of i p \<Longrightarrow> row_of i (store_schedule c p)"
  "row_of i p \<Longrightarrow> row_of i (store_encryption sv e p)" "row_of i p \<Longrightarrow> row_of i (store_compression cc p)"
  by (auto simp: row_of_def register_schedule_def attach_source_def rename_profile_def describe_profile_def replace_source_def
      store_schedule_def store_encryption_def store_compression_def Let_def bind_result_Inr
      split: if_splits option.splits source_input.splits)

lemma row_of_enable: "enable_profile sv d on p = Inr q \<Longrightarrow> row_of i p \<Longrightarrow> row_of i q"
  by (auto simp: enable_profile_def Let_def row_of_def split: option.splits if_splits
      dest: row_of_parts(1) [of sv d "p\<lparr>p_enabled := x\<rparr>" for x, unfolded row_of_def])

lemma row_of_reschedule: "reschedule sv d c on p = Inr q \<Longrightarrow> row_of i p \<Longrightarrow> row_of i q"
  using row_of_parts(1) [of sv d "store_schedule c (p\<lparr>p_enabled := on\<rparr>)" q i]
  by (auto simp: reschedule_def Let_def row_of_def store_schedule_def split: if_splits)

lemma row_of_configure:
  assumes "configure_row sv d sc cc ec src p = Inr q" and "row_of i p"
  shows "row_of i q"
proof -
  from assms(1) obtain p1 secret where r: "register_schedule sv d (store_schedule sc p) = Inr p1"
    and q: "attach_source sv src ((store_encryption sv ec (store_compression cc p1))\<lparr>p_age_secret := secret\<rparr>) = Inr q"
    by (auto simp: configure_row_def bind_result_Inr)
  have "row_of i p1" using row_of_parts(1) [OF r] row_of_parts(6) [OF assms(2)] by blast
  then show ?thesis
    using row_of_parts(2) [OF q] by (simp add: row_of_def store_encryption_def store_compression_def)
qed

lemma row_of_updated:
  assumes "updated_row sv d u p = Inr q" and "row_of i p"
  shows "row_of i q"
proof -
  from assms(1) obtain name description src p1 secret where
    r: "reschedule sv d (pu_schedule u) (pu_enabled u)
       (p\<lparr>p_name := name, p_description := description, p_source_type := pu_source_type u\<rparr>) = Inr p1"
    and q: "replace_source sv u p src
         ((store_encryption sv (pu_encryption u) (store_compression (pu_compression u) p1))\<lparr>p_age_secret := secret\<rparr>) = Inr q"
    by (auto simp: updated_row_def bind_result_Inr)
  have "row_of i p1" using row_of_reschedule [OF r] assms(2) by (simp add: row_of_def)
  then show ?thesis
    using row_of_parts(5) [OF q] by (simp add: row_of_def store_encryption_def store_compression_def)
qed

lemma flushed_live:
  assumes "flush_profile p d = (Inr x, d1)" and "row_of (p_id p) p"
  shows "users d1 = users d \<and> user_seq d1 = user_seq d \<and> access d1 = access d \<and> live_profiles d \<subseteq> live_profiles d1 \<and>
    (p_id p \<in> p_id ` set (profiles d) \<longrightarrow> p_id p \<in> live_profiles d1)"
proof -
  from assms(1) have d1: "d1 = update_profile (p_id p) (\<lambda>_. p) d" by (auto simp: flush_profile_def split: if_splits)
  have "k \<in> live_profiles d1" if "q \<in> set (profiles d)" "k = p_id q" "p_archived_at q = None \<or> k = p_id p" for k q
  proof -
    define v where "v = (if p_id q = p_id p then p else q)"
    have "v \<in> set (profiles d1)" using that(1) by (auto simp: v_def d1 update_profile_def set_update_where)
    moreover have "p_archived_at v = None" "p_id v = k" using that(2,3) assms(2) by (auto simp: v_def row_of_def)
    ultimately show ?thesis by (auto simp: live_profiles_def)
  qed
  then show ?thesis by (auto simp: d1 update_profile_def live_profiles_def [of d])
qed

lemma settings_frames [simp]:
  "users (snd (get_settings d)) = users d" "user_seq (snd (get_settings d)) = user_seq d"
  "access (snd (get_settings d)) = access d"
  by (simp_all add: get_settings_def split: option.splits)

lemma inserted_live:
  assumes "insert_draft sv n de st a d = (Inr p, d1)"
  shows "users d1 = users d \<and> user_seq d1 = user_seq d \<and> access d1 = access d \<and> live_profiles d \<subseteq> live_profiles d1 \<and>
    p \<in> set (profiles d1) \<and> row_of (p_id p) p"
  using assms by (auto simp: insert_draft_def Let_def live_profiles_def row_of_def draft_row_def split: if_splits)

lemma access_ok_create_configured:
  assumes ok: "access_ok d"
  shows "access_ok (snd (create_configured sv actor n de sc cc ec us src d))"
proof -
  have "access_ok (access_replace_for_profile (p_id p) us (u_id actor) d2)"
    if v: "validate_admins d us e = Inr x"
      and i: "insert_draft sv cn cd st (u_id actor) (snd (get_settings d)) = (Inr draft, d1)"
      and c: "configure_row sv d1 sc cc ec src draft = Inr p" and f: "flush_profile p d1 = (Inr y, d2)"
    for e x cn cd st draft d1 p y d2
  proof -
    note ins = inserted_live [OF i]
    have p: "row_of (p_id draft) p" using row_of_configure [OF c] ins by blast
    then have "row_of (p_id p) p" "p_id p = p_id draft" by (simp_all add: row_of_def)
    with flushed_live [OF f] ins have fl: "users d2 = users d" "user_seq d2 = user_seq d" "access d2 = access d"
      "live_profiles d \<subseteq> live_profiles d2" "p_id p \<in> live_profiles d2"
      by (auto simp: live_profiles_def [of "snd (get_settings d)"] live_profiles_def [of d])
    have "access_ok d2" by (rule access_ok_mono [OF ok fl(1-4)])
    moreover have "set us \<subseteq> live_users d2"
      using validated_admins [OF _ v] ok fl(1) by (auto simp: access_ok_def live_users_def)
    ultimately show ?thesis using fl(5) by (intro access_ok_for_profile)
  qed
  then show ?thesis
    unfolding create_configured_def configured_event_def by (intro access_inv ok) simp
qed

lemma active_row: "active_profile d i = Inr p \<Longrightarrow> row_of i p \<and> i \<in> p_id ` set (profiles d)"
  by (auto simp: active_profile_def profile_by_id_def row_of_def dest!: find_SomeD split: option.splits if_splits)

lemma access_ok_flushed:
  assumes ok: "access_ok d" and f: "flush_profile q (snd (get_settings d)) = (Inr x, d1)"
    and q: "row_of i q" "i \<in> p_id ` set (profiles d)"
  shows "access_ok d1 \<and> i \<in> live_profiles d1 \<and> live_users d1 = live_users d \<and> accounts_ok d1"
proof -
  from q have fl: "users d1 = users d" "user_seq d1 = user_seq d" "access d1 = access d"
      "live_profiles d \<subseteq> live_profiles d1" "i \<in> live_profiles d1"
    using flushed_live [OF f] by (auto simp: row_of_def live_profiles_def [of "snd (get_settings d)"] live_profiles_def [of d])
  have "access_ok d1" by (rule access_ok_mono [OF ok fl(1-4)])
  with fl show ?thesis by (simp add: live_users_def access_ok_def)
qed

lemma access_ok_edit_profile:
  assumes ok: "access_ok d"
  shows "access_ok (snd (edit_profile sv actor i n de on d))"
proof -
  have "access_ok d1"
    if "active_profile d i = Inr p" "rename_profile n p = Inr p1" "describe_profile de p1 = Inr p2"
      "enable_profile sv d on p2 = Inr p3" "flush_profile p3 (snd (get_settings d)) = (Inr x, d1)" for p p1 p2 p3 x d1
    using access_ok_flushed [OF ok that(5), of i] active_row [OF that(1)]
      row_of_enable [OF that(4) row_of_parts(4) [OF that(3) row_of_parts(3) [OF that(2)]]] by blast
  then show ?thesis
    unfolding edit_profile_def by (intro access_inv ok) simp
qed

lemma access_ok_configure:
  assumes ok: "access_ok d"
  shows "access_ok (snd (update_configuration sv actor i u d))"
proof -
  have "access_ok (access_replace_for_profile i (pu_admins u) (u_id actor) d1)"
    if "active_profile d i = Inr p" "updated_row sv d u p = Inr q" "flush_profile q (snd (get_settings d)) = (Inr x, d1)"
    for p q x d1
  proof -
    from that(2) have "validate_admins d (pu_admins u) (ValueError ''one or more enabled admins do not exist'') = Inr ()"
      by (auto simp: updated_row_def check_update_def bind_result_Inr)
    then have "set (pu_admins u) \<subseteq> live_users d" using ok by (intro validated_admins) (simp_all add: access_ok_def)
    with access_ok_flushed [OF ok that(3), of i] active_row [OF that(1)] row_of_updated [OF that(2)]
    show ?thesis by (intro access_ok_for_profile) auto
  qed
  then show ?thesis
    unfolding update_configuration_def updated_event_def by (intro access_inv ok) simp
qed

lemma access_ok_delete_profile:
  assumes ok: "access_ok d"
  shows "access_ok (snd (delete_profile sv actor i d))"
proof -
  let ?d = "(update_profile i (archive_profile (bs_now sv)) d)\<lparr>access := filter (\<lambda>a. a_profile a \<noteq> i) (access d)\<rparr>"
  have live: "k \<in> live_profiles ?d" if "k \<in> live_profiles d" "k \<noteq> i" for k
    using that by (auto simp: live_profiles_def update_profile_def set_update_where)
  have "granted ?d = {g \<in> granted d. snd g \<noteq> i}" by (auto simp: granted_def)
  with ok live have "grants_ok ?d"
    by (fastforce simp: access_ok_def grants_ok_def live_users_def update_profile_def distinct_map_filter)
  with ok have "access_ok ?d" by (simp add: access_ok_def accounts_ok_def update_profile_def)
  with ok show ?thesis
    unfolding delete_profile_def by (intro access_inv) simp_all
qed

lemma access_ok_server_event [simp]: "access_ok (server_event ev a s m d) = access_ok d"
  by (simp add: server_event_def)

lemma access_ok_servers_only:
  "access_ok d \<Longrightarrow> create_server pd d = (Inr s, d1) \<Longrightarrow> access_ok d1"
  "access_ok d \<Longrightarrow> flush_server s d = (Inr x, d1) \<Longrightarrow> access_ok d1"
  "access_ok d \<Longrightarrow> access_ok (update_server_row i f d)"
  by (auto simp: create_server_def flush_server_def update_server_row_def Let_def live_profiles_def
      elim!: access_ok_mono split: if_splits)

lemma access_ok_server_requests:
  assumes ok: "access_ok d"
  shows "access_ok (snd (confirm_server actor pd d))" "access_ok (snd (update_server actor i pd d))"
    "access_ok (snd (test_server sv actor i d))" "access_ok (snd (set_server_enabled actor i on d))"
    "access_ok (snd (delete_server sv actor i d))"
  unfolding confirm_server_def update_server_def test_server_def set_server_enabled_def delete_server_def
  by ((intro access_inv ok; simp add: ok access_ok_servers_only [OF ok])+)

lemma moved_rows:
  assumes "map_result (move_cursor env now z) ps = Inr qs"
  shows "map p_id qs = map p_id ps \<and> map p_name qs = map p_name ps \<and> map p_archived_at qs = map p_archived_at ps \<and>
    (list_all (\<lambda>p. p_id p \<le> n \<and> profile_row_ok p) ps \<longrightarrow> list_all (\<lambda>p. p_id p \<le> n \<and> profile_row_ok p) qs)"
proof -
  note all = assms [unfolded map_result_all2]
  have "map p_id qs = map p_id ps" "map p_name qs = map p_name ps" "map p_archived_at qs = map p_archived_at ps"
    using all by (auto intro!: list_all2_map_key simp: move_cursor_Inr split: if_splits)
  moreover have "p_id q \<le> n \<and> profile_row_ok q"
    if "list_all (\<lambda>p. p_id p \<le> n \<and> profile_row_ok p) ps" "q \<in> set qs" for q
  proof -
    from list_all2_mem2 [OF all that(2)] obtain p where "p \<in> set ps" and q: "move_cursor env now z p = Inr q" by blast
    with that(1) have "p_id p \<le> n" "profile_row_ok p" by (simp_all add: list_all_iff)
    with q show ?thesis by (auto simp: move_cursor_Inr profile_row_cursor split: if_splits)
  qed
  ultimately show ?thesis unfolding list_all_iff by blast
qed

lemma directory_timezone:
  assumes acc: "access_ok d" and prof: "profiles_ok d"
  shows "access_ok (snd (set_backup_timezone env now actor z d))" "profiles_ok (snd (set_backup_timezone env now actor z d))"
proof -
  have live: "live_profiles e = fst ` {x \<in> set (zip (map p_id (profiles e)) (map p_archived_at (profiles e))). snd x = None}" for e
    by (auto simp: live_profiles_def zip_map_map zip_same_conv_map image_iff) metis
  have "access_ok ((set_timezone zone d)\<lparr>profiles := qs\<rparr>) \<and> profiles_ok ((set_timezone zone d)\<lparr>profiles := qs\<rparr>)"
    if "map_result (move_cursor env now zone) (profiles d) = Inr qs" for zone qs
  proof -
    note rows = moved_rows [OF that, of "profile_seq d"]
    have "live_profiles ((set_timezone zone d)\<lparr>profiles := qs\<rparr>) = live_profiles d" using rows by (simp add: live)
    then have "access_ok ((set_timezone zone d)\<lparr>profiles := qs\<rparr>)"
      by (intro access_ok_mono [OF acc]) (simp_all add: set_timezone_def)
    with rows prof show ?thesis by (simp add: profiles_ok_def)
  qed
  then have moved: "map_result (move_cursor env now zone) (profiles d) = Inr qs \<Longrightarrow> access_ok ((set_timezone zone d)\<lparr>profiles := qs\<rparr>)"
    "map_result (move_cursor env now zone) (profiles d) = Inr qs \<Longrightarrow> profiles_ok ((set_timezone zone d)\<lparr>profiles := qs\<rparr>)" for zone qs
    by blast+
  show "access_ok (snd (set_backup_timezone env now actor z d))"
    unfolding set_backup_timezone_def Let_def by (intro access_inv acc) (simp add: moved)
  show "profiles_ok (snd (set_backup_timezone env now actor z d))"
    unfolding set_backup_timezone_def Let_def by (intro op_inv prof) (simp add: moved profiles_ok_frame)
qed

subsection \<open>All of it\<close>

lemma access_ok_bootstrap:
  assumes ok: "access_ok d"
  shows "access_ok (snd (bootstrap_superadmin t l d))"
proof -
  have "access_ok d1" if "validate_telegram_id t = Inr x" "create_user t ''System Administrator'' Superadmin None l d = (Inr u, d1)" for x u d1
    using access_ok_new_user [OF ok that(2)] validated_telegram [OF that(1)] by (simp add: strip_def strip_by_def is_space_def)
  moreover have "access_ok (update_user i (\<lambda>u. u\<lparr>u_role := Superadmin, u_enabled := True, u_deleted := None\<rparr>) d)" for i
    by (rule access_ok_keep [OF ok]) simp_all
  ultimately show ?thesis
    using ok unfolding bootstrap_superadmin_def Let_def
    by (intro access_inv) (auto split: option.splits prod.splits sum.splits)
qed

text \<open>The tables an operation does not touch.\<close>

definition same_profiles :: "db \<Rightarrow> db \<Rightarrow> bool" where
  "same_profiles d e \<longleftrightarrow> profiles e = profiles d \<and> profile_seq e = profile_seq d"

definition same_servers :: "db \<Rightarrow> db \<Rightarrow> bool" where
  "same_servers d e \<longleftrightarrow> servers e = servers d \<and> server_seq e = server_seq d"

lemma same_frames [simp]:
  "same_profiles d d" "same_servers d d"
  "same_profiles d (audit ev a t i m e) = same_profiles d e" "same_servers d (audit ev a t i m e) = same_servers d e"
  "same_profiles d (server_event ev u s m e) = same_profiles d e"
  "same_profiles d (update_user k f e) = same_profiles d e" "same_servers d (update_user k f e) = same_servers d e"
  "same_servers d (update_profile k g e) = same_servers d e" "same_profiles d (update_server_row k h e) = same_profiles d e"
  "same_profiles d (access_replace v ps w e) = same_profiles d e" "same_servers d (access_replace v ps w e) = same_servers d e"
  "same_profiles d (access_replace_for_profile q us w e) = same_profiles d e"
  "same_servers d (access_replace_for_profile q us w e) = same_servers d e"
  "same_profiles d (access_event u ev q k e) = same_profiles d e" "same_servers d (access_event u ev q k e) = same_servers d e"
  "same_profiles d (e\<lparr>access := xs\<rparr>) = same_profiles d e" "same_servers d (e\<lparr>access := xs\<rparr>) = same_servers d e"
  "same_servers d (snd (get_settings e)) = same_servers d e" "same_servers d (set_timezone z e) = same_servers d e"
  "same_servers d (e\<lparr>profiles := qs\<rparr>) = same_servers d e"
  by (simp_all add: same_profiles_def same_servers_def server_event_def update_user_def update_profile_def audit_def
      update_server_row_def access_replace_def access_replace_for_profile_def access_event_def get_settings_def
      set_timezone_def split: option.splits)

lemma same_after:
  "create_user t n r c l e = (Inr u, e1) \<Longrightarrow> same_profiles d e \<Longrightarrow> same_profiles d e1"
  "create_user t n r c l e = (Inr u, e1) \<Longrightarrow> same_servers d e \<Longrightarrow> same_servers d e1"
  "insert_draft sv n de st a e = (Inr p, e1) \<Longrightarrow> same_servers d e \<Longrightarrow> same_servers d e1"
  "flush_profile q e = (Inr x, e1) \<Longrightarrow> same_servers d e \<Longrightarrow> same_servers d e1"
  "create_server pd e = (Inr s, e1) \<Longrightarrow> same_profiles d e \<Longrightarrow> same_profiles d e1"
  "flush_server s e = (Inr x, e1) \<Longrightarrow> same_profiles d e \<Longrightarrow> same_profiles d e1"
  by (auto simp: create_user_def insert_draft_def flush_profile_def create_server_def flush_server_def Let_def
      same_profiles_def same_servers_def update_profile_def update_server_row_def split: if_splits)

lemmas same_inv = with_result_inv [where I = "same_profiles d" for d] case_op_inv [where I = "same_profiles d" for d]
  case_result_inv [where I = "same_profiles d" for d]
  with_result_inv [where I = "same_servers d" for d] case_op_inv [where I = "same_servers d" for d]
  case_result_inv [where I = "same_servers d" for d]

lemma fold_same:
  "(\<And>x e. same_profiles d (f x e) = same_profiles d e) \<Longrightarrow> same_profiles d (fold f xs e) = same_profiles d e"
  "(\<And>x e. same_servers d (f x e) = same_servers d e) \<Longrightarrow> same_servers d (fold f xs e) = same_servers d e"
  by (rule fold_frame; assumption)+

lemma admin_requests_frame:
  "same_profiles d (snd (create_admin actor t n ps l d))" "same_servers d (snd (create_admin actor t n ps l d))"
  "same_profiles d (snd (rename_admin actor i n d))" "same_servers d (snd (rename_admin actor i n d))"
  "same_profiles d (snd (change_telegram_id actor i t d))" "same_servers d (snd (change_telegram_id actor i t d))"
  "same_profiles d (snd (set_admin_enabled actor i on d))" "same_servers d (snd (set_admin_enabled actor i on d))"
  "same_profiles d (snd (delete_admin now actor i d))" "same_servers d (snd (delete_admin now actor i d))"
  "same_profiles d (snd (assign_profiles actor i ps d))" "same_servers d (snd (assign_profiles actor i ps d))"
  "same_profiles d (snd (assign_admins actor i ps d))" "same_servers d (snd (assign_admins actor i ps d))"
  "same_profiles d (snd (change_language actor l target d))" "same_servers d (snd (change_language actor l target d))"
  unfolding create_admin_def rename_admin_def change_telegram_id_def set_admin_enabled_def delete_admin_def
    assign_profiles_def assign_admins_def change_language_def admin_audit_def Let_def
  by ((intro same_inv; simp add: fold_same same_after)+)

lemma bootstrap_frame:
  "same_profiles d (snd (bootstrap_superadmin t l d))" "same_servers d (snd (bootstrap_superadmin t l d))"
  unfolding bootstrap_superadmin_def Let_def
  by (intro same_inv; auto split: option.splits prod.splits sum.splits dest: same_after(1,2) [where d = d])+

lemma configured_frame: "same_servers d (snd (create_configured sv actor n de sc cc ec us src d))"
  unfolding create_configured_def configured_event_def
  by (intro same_inv; simp) (meson same_after(3,4) same_frames)

lemma flushed_frame:
  "flush_profile q (snd (get_settings d)) = (Inr x, e) \<Longrightarrow> same_servers d e"
  "insert_draft sv n de st a d = (Inr p, e) \<Longrightarrow> same_servers d e"
  by (erule same_after; simp)+

lemma profile_requests_frame:
  "same_servers d (snd (create_draft sv actor n de st d))"
  "same_servers d (snd (create_database_profile sv actor n de dbc sc cc ec us d))"
  "same_servers d (snd (create_files_profile sv actor n de fc sc cc ec us d))"
  "same_servers d (snd (create_gitlab_profile sv actor n de gc sc cc ec us d))"
  "same_servers d (snd (edit_profile sv actor i nn nd on d))"
  "same_servers d (snd (update_configuration sv actor i u d))"
  "same_servers d (snd (delete_profile sv actor i d))"
  "same_servers d (snd (set_backup_timezone env now actor z d))"
  unfolding create_draft_def create_database_profile_def create_files_profile_def create_gitlab_profile_def
    edit_profile_def update_configuration_def updated_event_def delete_profile_def set_backup_timezone_def Let_def
  by ((intro same_inv configured_frame; simp add: flushed_frame)+)

lemma server_requests_frame:
  "same_profiles d (snd (confirm_server actor pd d))" "same_profiles d (snd (update_server actor i pd d))"
  "same_profiles d (snd (test_server ssv actor i d))" "same_profiles d (snd (set_server_enabled actor i on d))"
  "same_profiles d (snd (delete_server ssv actor i d))"
  unfolding confirm_server_def update_server_def test_server_def set_server_enabled_def delete_server_def
  by ((intro same_inv; simp add: same_after)+)

lemma access_ok_creations:
  assumes ok: "access_ok d"
  shows "access_ok (snd (create_draft sv actor n de st d))"
    "access_ok (snd (create_database_profile sv actor n de dbc sc cc ec us d))"
    "access_ok (snd (create_files_profile sv actor n de fc sc cc ec us d))"
    "access_ok (snd (create_gitlab_profile sv actor n de gc sc cc ec us d))"
proof -
  have "access_ok d1" if "insert_draft sv c de st (u_id actor) d = (Inr p, d1)" for c p d1
    using inserted_live [OF that] by (intro access_ok_mono [OF ok]) auto
  then show "access_ok (snd (create_draft sv actor n de st d))"
    unfolding create_draft_def by (intro access_inv ok) simp
  show "access_ok (snd (create_database_profile sv actor n de dbc sc cc ec us d))"
    "access_ok (snd (create_files_profile sv actor n de fc sc cc ec us d))"
    "access_ok (snd (create_gitlab_profile sv actor n de gc sc cc ec us d))"
    unfolding create_database_profile_def create_files_profile_def create_gitlab_profile_def
    by ((intro access_inv ok access_ok_create_configured)+)
qed

lemma access_ok_request: "request actor d out \<Longrightarrow> access_ok d \<Longrightarrow> profiles_ok d \<Longrightarrow> access_ok (snd out)"
  by (induction rule: request.induct)
    (simp_all add: outcome_def access_ok_create_admin access_ok_edit_admin access_ok_delete_admin access_ok_assign
      access_ok_creations access_ok_edit_profile access_ok_configure access_ok_delete_profile access_ok_server_requests
      directory_timezone)

lemma profiles_ok_same: "profiles_ok d \<Longrightarrow> same_profiles d e \<Longrightarrow> profiles_ok e"
  by (simp add: profiles_ok_def same_profiles_def)

lemma servers_ok_same: "servers_ok d \<Longrightarrow> same_servers d e \<Longrightarrow> servers_ok e"
  by (simp add: servers_ok_def same_servers_def)

lemma profiles_ok_request: "request actor d out \<Longrightarrow> access_ok d \<Longrightarrow> profiles_ok d \<Longrightarrow> profiles_ok (snd out)"
  by (induction rule: request.induct)
    (simp_all add: outcome_def profiles_ok_create_draft profiles_ok_create_database profiles_ok_create_files
      profiles_ok_create_gitlab profiles_ok_edit profiles_ok_update profiles_ok_delete directory_timezone
      profiles_ok_same [OF _ admin_requests_frame(1)] profiles_ok_same [OF _ admin_requests_frame(3)]
      profiles_ok_same [OF _ admin_requests_frame(5)] profiles_ok_same [OF _ admin_requests_frame(7)]
      profiles_ok_same [OF _ admin_requests_frame(9)] profiles_ok_same [OF _ admin_requests_frame(11)]
      profiles_ok_same [OF _ admin_requests_frame(13)] profiles_ok_same [OF _ server_requests_frame(1)]
      profiles_ok_same [OF _ server_requests_frame(2)] profiles_ok_same [OF _ server_requests_frame(3)]
      profiles_ok_same [OF _ server_requests_frame(4)] profiles_ok_same [OF _ server_requests_frame(5)])

lemma servers_ok_request: "request actor d out \<Longrightarrow> servers_ok d \<Longrightarrow> servers_ok (snd out)"
proof (induction rule: request.induct)
  case (confirm_server pending)
  then show ?case using server_steps_ok server_steps.confirm [OF server_steps.start] by (simp add: outcome_def) blast
next
  case (update_server i pending)
  then show ?case using server_steps_ok server_steps.update [OF server_steps.start] by (simp add: outcome_def) blast
next
  case (test_server service i)
  then show ?case using server_steps_ok server_steps.test [OF server_steps.start] by (simp add: outcome_def) blast
next
  case (set_server i on)
  then show ?case using server_steps_ok server_steps.enable [OF server_steps.start] by (simp add: outcome_def) blast
next
  case (delete_server service i)
  then show ?case using server_steps_ok server_steps.delete [OF server_steps.start] by (simp add: outcome_def) blast
qed (use servers_ok_same admin_requests_frame profile_requests_frame in \<open>simp add: outcome_def; blast\<close>)+

text \<open>
  C18. Whatever operators ask for, in any order and however often they are refused, and whatever
  else happens to the database: accounts keep unique identifiers and Telegram ids with valid
  names, profiles and servers satisfy the constraints of their tables, no access is granted twice,
  and every grant is to an account that is not deleted for a profile that is not deleted.
\<close>

theorem directory_stays_consistent:
  assumes "history_of_requests d"
  shows "accounts_ok d \<and> profiles_ok d \<and> servers_ok d \<and>
    distinct (map (\<lambda>a. (a_admin a, a_profile a)) (access d)) \<and>
    (\<forall>a \<in> set (access d). (\<exists>u \<in> set (users d). u_id u = a_admin a \<and> u_deleted u = None) \<and>
       (\<exists>p \<in> set (profiles d). p_id p = a_profile a \<and> p_archived_at p = None))"
proof -
  from assms have "access_ok d \<and> profiles_ok d \<and> servers_ok d"
  proof (induction rule: history_of_requests.induct)
    case empty
    show ?case by (simp add: access_ok_def accounts_ok_def grants_ok_def granted_def profiles_ok_def servers_ok_def empty_db_def)
  next
    case (bootstrap d telegram language)
    then show ?case
      using access_ok_bootstrap profiles_ok_same [OF _ bootstrap_frame(1)] servers_ok_same [OF _ bootstrap_frame(2)] by simp
  next
    case (requested d actor out)
    then show ?case using access_ok_request profiles_ok_request servers_ok_request by simp
  next
    case (language d actor language target)
    then show ?case
      using access_ok_edit_admin(4) profiles_ok_same [OF _ admin_requests_frame(15)]
        servers_ok_same [OF _ admin_requests_frame(16)] by simp
  next
    case (elsewhere d d')
    then show ?case by (auto simp: profiles_ok_def servers_ok_def live_profiles_def elim!: access_ok_mono)
  qed
  then show ?thesis
    by (fastforce simp: access_ok_def grants_ok_def granted_def live_users_def live_profiles_def)
qed

theorem directory_stays_consistent_witness:
  "\<exists>d. history_of_requests d \<and> map (\<lambda>a. (a_admin a, a_profile a)) (access d) = [(2, 1)] \<and> accounts_ok d"
proof -
  define root where "root = demo_root"
  define d1 where "d1 = snd (bootstrap_superadmin 100 English empty_db)"
  define d2 where "d2 = snd (create_draft demo_service root ''nightly'' None FilesDirectories d1)"
  define d3 where "d3 = snd (create_admin root 200 ''ops'' [1] Persian d2)"
  have "history_of_requests d1" unfolding d1_def by (intro history_of_requests.bootstrap history_of_requests.empty)
  from history_of_requests.requested [OF this request.create_draft [of root d1 demo_service "''nightly''" None FilesDirectories]]
  have "history_of_requests d2" by (simp add: d2_def outcome_def)
  from history_of_requests.requested [OF this request.create_admin [of root d2 200 "''ops''" "[1]" Persian]]
  have h: "history_of_requests d3" by (simp add: d3_def outcome_def)
  have "map (\<lambda>a. (a_admin a, a_profile a)) (access d3) = [(2, 1)]"
    unfolding d3_def d2_def d1_def root_def by code_simp
  with h directory_stays_consistent [OF h] show ?thesis by (intro exI [of _ d3]) simp
qed

end
