(* ===== verification/Effects.thy ===== *)
theory Effects
  imports Prelude
begin

text \<open>
  Steps of code that may raise, over a state of any type: sequencing, checks, \<^verbatim>\<open>except\<close> and
  \<^verbatim>\<open>finally\<close>. What every step of a computation does to the state, be it a relation that only grows
  or an invariant, the whole computation does: the locale \<open>progress\<close> proves it once.
\<close>

type_synonym ('s, 'e, 'a) effect = "'s \<Rightarrow> ('e + 'a) \<times> 's"

definition bind_eff :: "('s, 'e, 'a) effect \<Rightarrow> ('a \<Rightarrow> ('s, 'e, 'b) effect) \<Rightarrow> ('s, 'e, 'b) effect" where
  "bind_eff m f s = (case m s of (Inl e, s') \<Rightarrow> (Inl e, s') | (Inr a, s') \<Rightarrow> f a s')"

definition done_eff :: "'a \<Rightarrow> ('s, 'e, 'a) effect" where
  "done_eff a s = (Inr a, s)"

definition raise_eff :: "'e \<Rightarrow> ('s, 'e, 'a) effect" where
  "raise_eff e s = (Inl e, s)"

definition lift_eff :: "'e + 'a \<Rightarrow> ('s, 'e, 'a) effect" where
  "lift_eff r s = (r, s)"

definition guard_eff :: "bool \<Rightarrow> 'e \<Rightarrow> ('s, 'e, unit) effect" where
  "guard_eff ok e = (if ok then done_eff () else raise_eff e)"

definition read_eff :: "('s \<Rightarrow> 'e + 'a) \<Rightarrow> ('s, 'e, 'a) effect" where
  "read_eff f s = (f s, s)"

definition write_eff :: "('s \<Rightarrow> 's) \<Rightarrow> ('s, 'e, unit) effect" where
  "write_eff f s = (Inr (), f s)"

primrec each_eff :: "('x \<Rightarrow> ('s, 'e, unit) effect) \<Rightarrow> 'x list \<Rightarrow> ('s, 'e, unit) effect" where
  "each_eff f [] = done_eff ()"
| "each_eff f (x # xs) = bind_eff (f x) (\<lambda>_. each_eff f xs)"

text \<open>An \<^verbatim>\<open>except\<close> clause: \<open>h e\<close> runs on the exceptions that \<open>sel\<close> picks.\<close>

definition catch_eff :: "('s, 'e, 'a) effect \<Rightarrow> ('e \<Rightarrow> bool) \<Rightarrow> ('e \<Rightarrow> ('s, 'e, 'a) effect) \<Rightarrow> ('s, 'e, 'a) effect" where
  "catch_eff m sel h s = (case m s of (Inl e, s') \<Rightarrow> if sel e then h e s' else (Inl e, s') | (Inr a, s') \<Rightarrow> (Inr a, s'))"

text \<open>A \<^verbatim>\<open>finally\<close> clause, whose own exception replaces the one on its way.\<close>

definition finally_eff :: "('s, 'e, 'a) effect \<Rightarrow> ('s, 'e, unit) effect \<Rightarrow> ('s, 'e, 'a) effect" where
  "finally_eff m cleanup s = (case m s of (r, s1) \<Rightarrow>
     (case cleanup s1 of (Inl e, s2) \<Rightarrow> (Inl e, s2) | (Inr _, s2) \<Rightarrow> (r, s2)))"

lemma bind_eff_Inr: "bind_eff m f s = (Inr b, s') \<longleftrightarrow> (\<exists>a s1. m s = (Inr a, s1) \<and> f a s1 = (Inr b, s'))"
  by (auto simp: bind_eff_def split: prod.splits sum.splits)

lemma bind_eff_Inl:
  "bind_eff m f s = (Inl e, s') \<longleftrightarrow> m s = (Inl e, s') \<or> (\<exists>a s1. m s = (Inr a, s1) \<and> f a s1 = (Inl e, s'))"
  by (auto simp: bind_eff_def split: prod.splits sum.splits)

lemma catch_eff_Inr:
  "catch_eff m sel h s = (Inr a, s') \<longleftrightarrow> m s = (Inr a, s') \<or> (\<exists>e s1. m s = (Inl e, s1) \<and> sel e \<and> h e s1 = (Inr a, s'))"
  by (auto simp: catch_eff_def split: prod.splits sum.splits if_splits)

lemma finally_eff_Inr:
  "finally_eff m c s = (Inr a, s') \<longleftrightarrow> (\<exists>s1. m s = (Inr a, s1) \<and> c s1 = (Inr (), s'))"
  by (auto simp: finally_eff_def split: prod.splits sum.splits)

lemma eff_simps [simp]:
  "done_eff a s = (Inr a, s)" "raise_eff e s = (Inl e, s)" "lift_eff r s = (r, s)" "read_eff f s = (f s, s)"
  "write_eff g s = (Inr (), g s)"
  by (simp_all add: done_eff_def raise_eff_def lift_eff_def read_eff_def write_eff_def)

lemma guard_eff_Inr [simp]: "guard_eff ok e s = (Inr u, s') \<longleftrightarrow> ok \<and> s' = s"
  by (auto simp: guard_eff_def)

lemma bind_eff_simps [simp]:
  "m s = (Inr a, s1) \<Longrightarrow> bind_eff m f s = f a s1" "m s = (Inl e, s1) \<Longrightarrow> bind_eff m f s = (Inl e, s1)"
  by (simp_all add: bind_eff_def)

lemmas eff_Inr = bind_eff_Inr catch_eff_Inr finally_eff_Inr

locale progress =
  fixes R :: "'s \<Rightarrow> 's \<Rightarrow> bool"
  assumes same: "R s s" and onwards: "R s t \<Longrightarrow> R t u \<Longrightarrow> R s u"
begin

definition moves :: "('s, 'e, 'a) effect \<Rightarrow> bool" where
  "moves m \<longleftrightarrow> (\<forall>s. R s (snd (m s)))"

lemma moves_apply: "moves m \<Longrightarrow> m s = (r, s') \<Longrightarrow> R s s'"
  by (metis moves_def snd_conv)

lemma moves_bind: "moves m \<Longrightarrow> (\<And>a. moves (f a)) \<Longrightarrow> moves (bind_eff m f)"
  unfolding moves_def bind_eff_def
  by (auto split: prod.splits sum.splits) (metis snd_conv, metis onwards snd_conv)

lemma moves_pure [simp]:
  "moves (done_eff a)" "moves (raise_eff e)" "moves (lift_eff r)" "moves (guard_eff ok e)" "moves (read_eff g)" "moves (Pair r)"
  by (simp_all add: moves_def same guard_eff_def)

lemma moves_write: "(\<And>s. R s (g s)) \<Longrightarrow> moves (write_eff g)"
  by (simp add: moves_def)

lemma moves_each: "(\<And>x. x \<in> set xs \<Longrightarrow> moves (f x)) \<Longrightarrow> moves (each_eff f xs)"
  by (induction xs) (auto intro: moves_bind)

lemma moves_catch: "moves m \<Longrightarrow> (\<And>e. moves (h e)) \<Longrightarrow> moves (catch_eff m sel h)"
  unfolding moves_def catch_eff_def
  by (auto split: prod.splits sum.splits) (metis onwards snd_conv, metis snd_conv, metis snd_conv)

lemma moves_finally: "moves m \<Longrightarrow> moves c \<Longrightarrow> moves (finally_eff m c)"
  unfolding moves_def finally_eff_def
  by (auto split: prod.splits sum.splits) (metis onwards snd_conv)+

lemma moves_cases:
  "(\<And>a. x = Some a \<Longrightarrow> moves (f a)) \<Longrightarrow> moves g \<Longrightarrow> moves (case x of None \<Rightarrow> g | Some a \<Rightarrow> f a)"
  "(b \<Longrightarrow> moves f1) \<Longrightarrow> (\<not> b \<Longrightarrow> moves g) \<Longrightarrow> moves (if b then f1 else g)"
  "(\<And>a c. p = (a, c) \<Longrightarrow> moves (k a c)) \<Longrightarrow> moves (case p of (a, c) \<Rightarrow> k a c)"
  by (auto split: option.splits prod.splits)

lemmas moves_rules = moves_bind moves_each moves_catch moves_finally moves_cases moves_pure

end

section \<open>What an effect ensures\<close>

text \<open>
  From a state with \<open>P\<close>, an effect ends with a value and a state that satisfy \<open>Q\<close>, or with an
  exception in a state that satisfies \<open>E\<close>.
\<close>

definition ensures :: "('s \<Rightarrow> bool) \<Rightarrow> ('s, 'e, 'a) effect \<Rightarrow> ('s \<Rightarrow> bool) \<Rightarrow> ('a \<Rightarrow> 's \<Rightarrow> bool) \<Rightarrow> bool" where
  "ensures P m E Q \<longleftrightarrow> (\<forall>s. P s \<longrightarrow> (case m s of (Inl e, t) \<Rightarrow> E t | (Inr a, t) \<Rightarrow> Q a t))"

lemma ensuresI: "(\<And>s. P s \<Longrightarrow> (case m s of (Inl e, t) \<Rightarrow> E t | (Inr a, t) \<Rightarrow> Q a t)) \<Longrightarrow> ensures P m E Q"
  by (simp add: ensures_def)

lemma ensures_apply: "ensures P m E Q \<Longrightarrow> P s \<Longrightarrow> m s = (r, t) \<Longrightarrow> (case r of Inl e \<Rightarrow> E t | Inr a \<Rightarrow> Q a t)"
  by (fastforce simp: ensures_def split: sum.splits)

lemma ensures_bind:
  assumes m: "ensures P m E Q" and f: "\<And>a. ensures (Q a) (f a) E R"
  shows "ensures P (bind_eff m f) E R"
proof (rule ensuresI)
  fix s assume s: "P s"
  obtain r t where m1: "m s = (r, t)" by fastforce
  from ensures_apply [OF m s m1] show "case bind_eff m f s of (Inl e, t) \<Rightarrow> E t | (Inr a, t) \<Rightarrow> R a t"
    using f m1 by (cases r) (simp_all add: ensures_def)
qed

lemma ensures_weaken:
  assumes m: "ensures P m E Q" and "\<And>s. P' s \<Longrightarrow> P s" and e: "\<And>s. E s \<Longrightarrow> E' s" and q: "\<And>a s. Q a s \<Longrightarrow> Q' a s"
  shows "ensures P' m E' Q'"
proof (rule ensuresI)
  fix s assume "P' s"
  then have s: "P s" by (rule assms)
  obtain r t where m1: "m s = (r, t)" by fastforce
  from ensures_apply [OF m s m1] show "case m s of (Inl e, t) \<Rightarrow> E' t | (Inr a, t) \<Rightarrow> Q' a t"
    using m1 e q by (cases r) simp_all
qed

lemma ensures_finally:
  assumes m: "ensures P m E Q" and c: "ensures E c E' (\<lambda>_. E')" and d: "\<And>a. ensures (Q a) c E' (\<lambda>_. Q' a)"
  shows "ensures P (finally_eff m c) E' Q'"
proof (rule ensuresI)
  fix s assume s: "P s"
  obtain r t where m1: "m s = (r, t)" by fastforce
  obtain q u where c1: "c t = (q, u)" by fastforce
  show "case finally_eff m c s of (Inl e, t) \<Rightarrow> E' t | (Inr a, t) \<Rightarrow> Q' a t"
  proof (cases r)
    case (Inl e)
    from ensures_apply [OF m s m1] Inl have "E t" by simp
    from ensures_apply [OF c this c1] show ?thesis using Inl m1 c1 by (cases q) (simp_all add: finally_eff_def)
  next
    case (Inr a)
    from ensures_apply [OF m s m1] Inr have "Q a t" by simp
    from ensures_apply [OF d this c1] show ?thesis using Inr m1 c1 by (cases q) (simp_all add: finally_eff_def)
  qed
qed

lemma ensures_catch:
  assumes m: "ensures P m E Q" and h: "\<And>e. ensures E (h e) E Q"
  shows "ensures P (catch_eff m sel h) E Q"
proof (rule ensuresI)
  fix s assume s: "P s"
  obtain r t where m1: "m s = (r, t)" by fastforce
  from ensures_apply [OF m s m1] show "case catch_eff m sel h s of (Inl e, t) \<Rightarrow> E t | (Inr a, t) \<Rightarrow> Q a t"
    using h m1 by (cases r) (simp_all add: catch_eff_def ensures_def)
qed

lemma ensures_if:
  "(b \<Longrightarrow> ensures P m1 E Q) \<Longrightarrow> (\<not> b \<Longrightarrow> ensures P m2 E Q) \<Longrightarrow> ensures P (if b then m1 else m2) E Q"
  by simp

lemma ensures_done: "(\<And>s. P s \<Longrightarrow> Q a s) \<Longrightarrow> ensures P (done_eff a) E Q"
  by (simp add: ensures_def)

lemma ensures_raise: "(\<And>s. P s \<Longrightarrow> E s) \<Longrightarrow> ensures P (raise_eff e) E Q"
  by (simp add: ensures_def)

lemma ensures_lift:
  "(\<And>s e. r = Inl e \<Longrightarrow> P s \<Longrightarrow> E s) \<Longrightarrow> (\<And>a s. r = Inr a \<Longrightarrow> P s \<Longrightarrow> Q a s) \<Longrightarrow> ensures P (lift_eff r) E Q"
  by (auto simp: ensures_def split: sum.splits)

lemma ensures_guard: "(\<And>s. P s \<Longrightarrow> E s) \<Longrightarrow> (\<And>s. ok \<Longrightarrow> P s \<Longrightarrow> Q () s) \<Longrightarrow> ensures P (guard_eff ok e) E Q"
  by (auto simp: ensures_def guard_eff_def)

lemma ensures_write: "(\<And>s. P s \<Longrightarrow> Q () (g s)) \<Longrightarrow> ensures P (write_eff g) E Q"
  by (simp add: ensures_def)

lemma ensures_read:
  "(\<And>s e. P s \<Longrightarrow> f s = Inl e \<Longrightarrow> E s) \<Longrightarrow> (\<And>s a. P s \<Longrightarrow> f s = Inr a \<Longrightarrow> Q a s) \<Longrightarrow> ensures P (read_eff f) E Q"
  by (auto simp: ensures_def split: sum.splits)

lemmas ensures_pure = ensures_done ensures_raise ensures_lift ensures_guard ensures_write ensures_read

text \<open>An effect keeps what it ensures of the state before.\<close>

definition keeps :: "('s \<Rightarrow> bool) \<Rightarrow> ('s, 'e, 'a) effect \<Rightarrow> bool" where
  "keeps I m \<longleftrightarrow> ensures I m I (\<lambda>_. I)"

lemma keeps_then: "keeps I m \<Longrightarrow> (\<And>a. keeps I (f a)) \<Longrightarrow> keeps I (bind_eff m f)"
  unfolding keeps_def by (rule ensures_bind)

lemma keeps_pure [simp]:
  "keeps I (done_eff a)" "keeps I (raise_eff e)" "keeps I (lift_eff r)" "keeps I (guard_eff ok e)" "keeps I (read_eff f)"
  unfolding keeps_def by (rule ensures_pure; simp)+

lemma keeps_write: "(\<And>s. I s \<Longrightarrow> I (g s)) \<Longrightarrow> keeps I (write_eff g)"
  unfolding keeps_def by (rule ensures_write)

lemma keeps_finally: "keeps I m \<Longrightarrow> keeps I c \<Longrightarrow> keeps I (finally_eff m c)"
  unfolding keeps_def by (rule ensures_finally)

lemma keeps_catch: "keeps I m \<Longrightarrow> (\<And>e. keeps I (h e)) \<Longrightarrow> keeps I (catch_eff m sel h)"
  unfolding keeps_def by (rule ensures_catch)

lemma keeps_each: "(\<And>x. x \<in> set xs \<Longrightarrow> keeps I (f x)) \<Longrightarrow> keeps I (each_eff f xs)"
  by (induction xs) (auto intro: keeps_then)

lemma keeps_cases:
  "(\<And>a. x = Some a \<Longrightarrow> keeps I (f a)) \<Longrightarrow> keeps I g \<Longrightarrow> keeps I (case x of None \<Rightarrow> g | Some a \<Rightarrow> f a)"
  "(b \<Longrightarrow> keeps I f1) \<Longrightarrow> (\<not> b \<Longrightarrow> keeps I g) \<Longrightarrow> keeps I (if b then f1 else g)"
  by (auto split: option.splits)

lemma keeps_apply: "keeps I m \<Longrightarrow> I s \<Longrightarrow> m s = (r, t) \<Longrightarrow> I t"
  by (auto dest: ensures_apply simp: keeps_def split: sum.splits)

lemma keepsI: "(\<And>s. I s \<Longrightarrow> I (snd (m s))) \<Longrightarrow> keeps I m"
  by (fastforce simp: keeps_def ensures_def split: prod.splits sum.splits)

lemmas keeps_rules = keeps_then keeps_finally keeps_catch keeps_each keeps_cases

end
