(* ===== verification/Quoting.thy ===== *)
theory Quoting
  imports Prelude
begin

text \<open>
  Text that another program takes apart again: command lines for a shell (\<^verbatim>\<open>shlex.quote\<close> and
  \<^verbatim>\<open>shlex.join\<close>), MySQL option files, PostgreSQL password files and T-SQL statements, as
  \<^verbatim>\<open>src/src/pipeline/acquisition/mysql.py\<close>, \<^verbatim>\<open>postgres.py\<close> and \<^verbatim>\<open>mssql.py\<close> write them. Each
  writer has a reader here that spells out how its text is meant, and reading gives back exactly
  what was written: no value can end its field, its line, its argument or its statement.
\<close>

section \<open>Command lines\<close>

text \<open>\<^verbatim>\<open>[^\w@%+=:,./-]\<close> with \<^verbatim>\<open>re.ASCII\<close> is what needs quotes.\<close>

definition shell_safe :: "char \<Rightarrow> bool" where
  "shell_safe c \<longleftrightarrow> is_alnum c \<or> c \<in> set ''_@%+=:,./-''"

definition quote_char :: "char \<Rightarrow> string" where
  "quote_char c = (if c = CHR 0x27 then [CHR 0x27, CHR 0x22, CHR 0x27, CHR 0x22, CHR 0x27] else [c])"

definition shlex_quote :: "string \<Rightarrow> string" where
  "shlex_quote s = (if s = [] then [CHR 0x27, CHR 0x27]
     else if list_all shell_safe s then s
     else [CHR 0x27] @ concat (map quote_char s) @ [CHR 0x27])"

definition shlex_join :: "string list \<Rightarrow> string" where
  "shlex_join ws = join_with '' '' (map shlex_quote ws)"

text \<open>
  The words a POSIX shell makes of a line when nothing in it asks for an expansion, a redirection
  or another command; otherwise, or when a quote is left open, there is no answer.
\<close>

datatype quotes = Unquoted | InSingle | InDouble

definition word_so_far :: "string option \<Rightarrow> string" where
  "word_so_far w = (case w of None \<Rightarrow> [] | Some s \<Rightarrow> s)"

fun shell_words_from :: "quotes \<Rightarrow> string option \<Rightarrow> string \<Rightarrow> string list option" where
  "shell_words_from Unquoted w [] = Some (case w of None \<Rightarrow> [] | Some s \<Rightarrow> [s])"
| "shell_words_from InSingle w [] = None"
| "shell_words_from InDouble w [] = None"
| "shell_words_from Unquoted w (c # cs) =
     (if c \<in> {CHR '' '', CHR 0x09}
      then map_option (\<lambda>ws. case w of None \<Rightarrow> ws | Some s \<Rightarrow> s # ws) (shell_words_from Unquoted None cs)
      else if c = CHR 0x27 then shell_words_from InSingle (Some (word_so_far w)) cs
      else if c = CHR 0x22 then shell_words_from InDouble (Some (word_so_far w)) cs
      else if shell_safe c then shell_words_from Unquoted (Some (word_so_far w @ [c])) cs
      else None)"
| "shell_words_from InSingle w (c # cs) =
     (if c = CHR 0x27 then shell_words_from Unquoted w cs
      else shell_words_from InSingle (Some (word_so_far w @ [c])) cs)"
| "shell_words_from InDouble w (c # cs) =
     (if c = CHR 0x22 then shell_words_from Unquoted w cs
      else if c \<in> {CHR ''$'', CHR 0x60, CHR 0x5C} then None
      else shell_words_from InDouble (Some (word_so_far w @ [c])) cs)"

definition shell_words :: "string \<Rightarrow> string list option" where
  "shell_words line = shell_words_from Unquoted None line"

lemma shell_safe_plain: "shell_safe c \<Longrightarrow> c \<noteq> CHR '' '' \<and> c \<noteq> CHR 0x09 \<and> c \<noteq> CHR 0x27 \<and> c \<noteq> CHR 0x22"
  by (auto simp: shell_safe_def is_alnum_def)

lemma safe_word:
  "list_all shell_safe s \<Longrightarrow> shell_words_from Unquoted (Some w) (s @ rest) = shell_words_from Unquoted (Some (w @ s)) rest"
  by (induction s arbitrary: w) (auto simp: word_so_far_def dest: shell_safe_plain)

lemma single_quoted:
  "shell_words_from InSingle (Some w) (concat (map quote_char s) @ CHR 0x27 # rest) =
     shell_words_from Unquoted (Some (w @ s)) rest"
  by (induction s arbitrary: w) (auto simp: quote_char_def word_so_far_def)

lemma quoted_word:
  "shell_words_from Unquoted None (shlex_quote s @ rest) = shell_words_from Unquoted (Some s) rest"
proof (cases "s = []")
  case False
  show ?thesis
  proof (cases "list_all shell_safe s")
    case True
    from False obtain c cs where s: "s = c # cs" by (cases s) auto
    with True show ?thesis
      using safe_word [of cs "[c]" rest] by (auto simp: shlex_quote_def word_so_far_def dest: shell_safe_plain)
  next
    case unsafe: False
    with False show ?thesis using single_quoted [of "[]" s rest] by (simp add: shlex_quote_def word_so_far_def)
  qed
qed (simp add: shlex_quote_def word_so_far_def)

lemma shell_words_join: "shell_words (shlex_join ws) = Some ws"
proof (induction ws)
  case (Cons w ws)
  show ?case
  proof (cases ws)
    case Nil
    then show ?thesis using quoted_word [of w "[]"] by (simp add: shell_words_def shlex_join_def)
  next
    case (Cons v vs)
    then show ?thesis
      using quoted_word [of w "'' '' @ shlex_join ws"] Cons.IH by (simp add: shell_words_def shlex_join_def)
  qed
qed (simp add: shell_words_def shlex_join_def)

section \<open>MySQL option files\<close>

text \<open>\<^verbatim>\<open>value.replace(c, t)\<close> for one character.\<close>

definition replace_with :: "char \<Rightarrow> string \<Rightarrow> string \<Rightarrow> string" where
  "replace_with c t s = concat (map (\<lambda>x. if x = c then t else [x]) s)"

definition backslash :: char where
  "backslash = CHR 0x5C"

definition double_quote :: char where
  "double_quote = CHR 0x22"

definition newline :: char where
  "newline = CHR 0x0A"

definition mysql_option :: "string \<Rightarrow> string" where
  "mysql_option v =
     [double_quote] @
     replace_with (CHR 0x09) [backslash, CHR ''t'']
      (replace_with (CHR 0x0D) [backslash, CHR ''r'']
       (replace_with newline [backslash, CHR ''n'']
        (replace_with (CHR 0x00) [backslash, CHR ''0'']
         (replace_with double_quote [backslash, double_quote]
          (replace_with backslash [backslash, backslash] v))))) @
     [double_quote]"

definition mysql_option_file :: "(string \<times> string) list \<Rightarrow> string" where
  "mysql_option_file options =
     ''[client]'' @ [newline] @ concat (map (\<lambda>(key, v). key @ ''='' @ mysql_option v @ [newline]) options)"

text \<open>Reading a value: after the opening quote, up to the closing one at the end of the line.\<close>

definition option_escapes :: "(char \<times> char) list" where
  "option_escapes = [(backslash, backslash), (double_quote, double_quote), (CHR ''0'', CHR 0x00), (CHR ''n'', newline),
     (CHR ''r'', CHR 0x0D), (CHR ''t'', CHR 0x09)]"

fun read_quoted :: "string \<Rightarrow> string option" where
  "read_quoted [] = None"
| "read_quoted (c # cs) =
     (if c = double_quote then (if cs = [] then Some [] else None)
      else if c = backslash
      then (case cs of [] \<Rightarrow> None
         | d # ds \<Rightarrow> (case map_of option_escapes d of None \<Rightarrow> None | Some x \<Rightarrow> map_option ((#) x) (read_quoted ds)))
      else map_option ((#) c) (read_quoted cs))"

definition read_option :: "string \<Rightarrow> (string \<times> string) option" where
  "read_option line =
     (case dropWhile (\<lambda>c. c \<noteq> CHR ''='') line of
        a # b # rest \<Rightarrow> if b = double_quote
          then map_option (Pair (takeWhile (\<lambda>c. c \<noteq> CHR ''='') line)) (read_quoted rest) else None
      | _ \<Rightarrow> None)"

fun read_all :: "('a \<Rightarrow> 'b option) \<Rightarrow> 'a list \<Rightarrow> 'b list option" where
  "read_all f [] = Some []"
| "read_all f (x # xs) = (case f x of None \<Rightarrow> None | Some y \<Rightarrow> map_option ((#) y) (read_all f xs))"

definition read_option_file :: "string \<Rightarrow> (string \<times> string) list option" where
  "read_option_file text =
     (let ls = split_on newline text
      in if hd ls = ''[client]'' \<and> last ls = [] then read_all read_option (butlast (tl ls)) else None)"

fun escaped :: "char \<Rightarrow> string" where
  "escaped c = (if c = backslash then [backslash, backslash] else if c = double_quote then [backslash, double_quote]
     else if c = CHR 0x00 then [backslash, CHR ''0''] else if c = newline then [backslash, CHR ''n'']
     else if c = CHR 0x0D then [backslash, CHR ''r''] else if c = CHR 0x09 then [backslash, CHR ''t''] else [c])"

lemma replace_with_simps [simp]:
  "replace_with c t [] = []" "replace_with c t (x # xs) = (if x = c then t else [x]) @ replace_with c t xs"
  "replace_with c t (xs @ ys) = replace_with c t xs @ replace_with c t ys"
  by (simp_all add: replace_with_def)

lemma mysql_option_escaped: "mysql_option v = double_quote # concat (map escaped v) @ [double_quote]"
  unfolding mysql_option_def
  by (induction v) (auto simp: backslash_def double_quote_def newline_def)

lemma read_escaped: "read_quoted (escaped c @ rest) = map_option ((#) c) (read_quoted rest)"
  by (simp add: option_escapes_def backslash_def double_quote_def newline_def)

lemma read_mysql_option: "read_quoted (concat (map escaped v) @ [double_quote]) = Some v"
  by (induction v) (simp_all add: read_escaped del: escaped.simps)

lemma escaped_line: "newline \<notin> set (escaped c)"
  by (simp add: backslash_def double_quote_def newline_def)

lemma option_line: "newline \<notin> set (mysql_option v)"
  by (simp add: mysql_option_escaped escaped_line del: escaped.simps) (simp add: double_quote_def newline_def)

lemma split_on_line: "c \<notin> set line \<Longrightarrow> split_on c (line @ c # rest) = line # split_on c rest"
  by (induction line) auto

definition option_key :: "string \<Rightarrow> bool" where
  "option_key key \<longleftrightarrow> CHR ''='' \<notin> set key \<and> newline \<notin> set key"

lemma read_option_line:
  assumes "option_key key"
  shows "read_option (key @ ''='' @ mysql_option v) = Some (key, v)"
proof -
  have k: "CHR ''='' \<notin> set key" using assms by (simp add: option_key_def)
  have "dropWhile (\<lambda>c. c \<noteq> CHR ''='') (key @ ''='' @ t) = ''='' @ t" "takeWhile (\<lambda>c. c \<noteq> CHR ''='') (key @ ''='' @ t) = key" for t
    using k by (auto simp: dropWhile_append takeWhile_append intro!: dropWhile_eq_Nil_conv [THEN iffD2])
  then show ?thesis by (simp add: read_option_def mysql_option_escaped read_mysql_option del: escaped.simps)
qed

lemma option_lines:
  assumes "\<forall>(key, v) \<in> set options. option_key key"
  shows "split_on newline (concat (map (\<lambda>(key, v). key @ ''='' @ mysql_option v @ [newline]) options)) =
    map (\<lambda>(key, v). key @ ''='' @ mysql_option v) options @ [[]]"
  using assms
proof (induction options)
  case (Cons opt opts)
  obtain key v where opt: "opt = (key, v)" by (cases opt)
  have "newline \<notin> set (key @ ''='' @ mysql_option v)"
    using Cons.prems opt option_line by (simp add: option_key_def newline_def)
  from split_on_line [OF this] Cons show ?case by (simp add: opt)
qed simp

lemma read_all_map: "(\<And>x. x \<in> set xs \<Longrightarrow> f (g x) = Some x) \<Longrightarrow> read_all f (map g xs) = Some xs"
  by (induction xs) simp_all

lemma option_file_reads_back:
  assumes "\<forall>(key, v) \<in> set options. option_key key"
  shows "read_option_file (mysql_option_file options) = Some options"
proof -
  have "split_on newline (mysql_option_file options) =
    ''[client]'' # map (\<lambda>(key, v). key @ ''='' @ mysql_option v) options @ [[]]"
    using split_on_line [of newline "''[client]''"] option_lines [OF assms]
    by (simp add: mysql_option_file_def newline_def)
  moreover have "read_all read_option (map (\<lambda>(key, v). key @ ''='' @ mysql_option v) options) = Some options"
    using assms read_option_line by (intro read_all_map) auto
  ultimately show ?thesis by (simp add: read_option_file_def)
qed

section \<open>PostgreSQL password files\<close>

definition pgpass_field :: "string \<Rightarrow> string result" where
  "pgpass_field v =
     (if newline \<in> set v \<or> CHR 0x0D \<in> set v \<or> CHR 0x00 \<in> set v
      then Inl (PipelineError ''INVALID_PROFILE'' ''PostgreSQL credentials contain unsafe characters'')
      else Inr (replace_with (CHR '':'') [backslash, CHR '':''] (replace_with backslash [backslash, backslash] v)))"

text \<open>The fields of a line: a backslash takes the next character as it is, a colon ends the field.\<close>

fun pgpass_fields :: "string \<Rightarrow> string \<Rightarrow> string list" where
  "pgpass_fields field [] = [field]"
| "pgpass_fields field (c # cs) =
     (if c = backslash then (case cs of [] \<Rightarrow> [field @ [c]] | d # ds \<Rightarrow> pgpass_fields (field @ [d]) ds)
      else if c = CHR '':'' then field # pgpass_fields [] cs
      else pgpass_fields (field @ [c]) cs)"

definition pg_escaped :: "char \<Rightarrow> string" where
  "pg_escaped c = (if c = backslash \<or> c = CHR '':'' then [backslash, c] else [c])"

lemma pgpass_field_escaped: "pgpass_field v = Inr t \<Longrightarrow> t = concat (map pg_escaped v)"
proof -
  have "replace_with (CHR '':'') [backslash, CHR '':''] (replace_with backslash [backslash, backslash] v) = concat (map pg_escaped v)"
    by (induction v) (auto simp: pg_escaped_def backslash_def)
  then show "pgpass_field v = Inr t \<Longrightarrow> t = concat (map pg_escaped v)"
    by (auto simp: pgpass_field_def split: if_splits)
qed

lemma pgpass_field_read: "pgpass_fields field (concat (map pg_escaped v) @ rest) = pgpass_fields (field @ v) rest"
  by (induction v arbitrary: field) (auto simp: pg_escaped_def backslash_def)

lemma pgpass_line_read:
  "fs \<noteq> [] \<Longrightarrow> pgpass_fields [] (join_with '':'' (map (\<lambda>f. concat (map pg_escaped f)) fs)) = fs"
proof (induction fs)
  case (Cons f fs)
  show ?case
  proof (cases fs)
    case Nil
    then show ?thesis using pgpass_field_read [of "[]" f "[]"] by simp
  next
    case (Cons g gs)
    then show ?thesis using pgpass_field_read [of "[]" f] Cons.IH by (simp add: backslash_def)
  qed
qed simp

section \<open>T-SQL statements\<close>

definition sql_identifier :: "string \<Rightarrow> string" where
  "sql_identifier v = ''['' @ replace_with (CHR '']'') '']]'' v @ '']''"

definition sql_literal :: "string \<Rightarrow> string" where
  "sql_literal v = ''N'' @ [CHR 0x27] @ replace_with (CHR 0x27) [CHR 0x27, CHR 0x27] v @ [CHR 0x27]"

definition backup_statement :: "string \<Rightarrow> string \<Rightarrow> string" where
  "backup_statement database_name path =
     ''BACKUP DATABASE '' @ sql_identifier database_name @ '' TO DISK = '' @ sql_literal path @
     '' WITH INIT, COPY_ONLY, CHECKSUM, COMPRESSION''"

definition verify_statement :: "string \<Rightarrow> string" where
  "verify_statement path = ''RESTORE VERIFYONLY FROM DISK = '' @ sql_literal path @ '' WITH CHECKSUM''"

text \<open>\<^verbatim>\<open>statement.removesuffix(suffix)\<close>\<close>

definition remove_suffix :: "string \<Rightarrow> string \<Rightarrow> string" where
  "remove_suffix suffix t = (if suffix \<noteq> [] \<and> ends_with suffix t then take (length t - length suffix) t else t)"

text \<open>The tokens of a statement: words, bracketed names, text and other characters.\<close>

datatype sql_token = SqlWord string | SqlName string | SqlText string | SqlMark char

datatype sql_mode = Plain | InWord string | InName string | InText string

fun sql_tokens :: "sql_mode \<Rightarrow> string \<Rightarrow> sql_token list option" where
  "sql_tokens Plain [] = Some []"
| "sql_tokens (InWord w) [] = Some [SqlWord w]"
| "sql_tokens (InName n) [] = None"
| "sql_tokens (InText t) [] = None"
| "sql_tokens Plain (c # cs) =
     (if c = CHR '' '' then sql_tokens Plain cs
      else if c = CHR ''['' then sql_tokens (InName []) cs
      else if c = CHR 0x27 then sql_tokens (InText []) cs
      else if c = CHR ''N'' \<and> take 1 cs = [CHR 0x27] then sql_tokens Plain cs
      else if is_alnum c \<or> c = CHR ''_'' then sql_tokens (InWord [c]) cs
      else map_option ((#) (SqlMark c)) (sql_tokens Plain cs))"
| "sql_tokens (InWord w) (c # cs) =
     (if is_alnum c \<or> c = CHR ''_'' then sql_tokens (InWord (w @ [c])) cs
      else if c = CHR '' '' then map_option ((#) (SqlWord w)) (sql_tokens Plain cs)
      else if c \<in> {CHR ''['', CHR 0x27} then None
      else map_option (\<lambda>ts. SqlWord w # SqlMark c # ts) (sql_tokens Plain cs))"
| "sql_tokens (InName n) (c # cs) =
     (if c \<noteq> CHR '']'' then sql_tokens (InName (n @ [c])) cs
      else case cs of d # ds \<Rightarrow> if d = CHR '']'' then sql_tokens (InName (n @ [d])) ds
             else map_option ((#) (SqlName n)) (sql_tokens Plain cs)
         | [] \<Rightarrow> Some [SqlName n])"
| "sql_tokens (InText t) (c # cs) =
     (if c \<noteq> CHR 0x27 then sql_tokens (InText (t @ [c])) cs
      else case cs of d # ds \<Rightarrow> if d = CHR 0x27 then sql_tokens (InText (t @ [d])) ds
             else map_option ((#) (SqlText t)) (sql_tokens Plain cs)
         | [] \<Rightarrow> Some [SqlText t])"

lemma name_token:
  "take 1 rest \<noteq> [CHR '']''] \<Longrightarrow> sql_tokens (InName n) (replace_with (CHR '']'') '']]'' v @ CHR '']'' # rest) =
     map_option ((#) (SqlName (n @ v))) (sql_tokens Plain rest)"
  by (induction v arbitrary: n) (auto split: list.splits)

lemma text_token:
  "take 1 rest \<noteq> [CHR 0x27] \<Longrightarrow> sql_tokens (InText t) (replace_with (CHR 0x27) [CHR 0x27, CHR 0x27] v @ CHR 0x27 # rest) =
     map_option ((#) (SqlText (t @ v))) (sql_tokens Plain rest)"
  by (induction v arbitrary: t) (auto split: list.splits)

lemma backup_statement_tokens:
  "sql_tokens Plain (backup_statement database_name path) =
     Some [SqlWord ''BACKUP'', SqlWord ''DATABASE'', SqlName database_name, SqlWord ''TO'', SqlWord ''DISK'', SqlMark (CHR ''=''),
       SqlText path, SqlWord ''WITH'', SqlWord ''INIT'', SqlMark (CHR '',''), SqlWord ''COPY_ONLY'', SqlMark (CHR '',''),
       SqlWord ''CHECKSUM'', SqlMark (CHR '',''), SqlWord ''COMPRESSION'']"
  by (simp add: backup_statement_def sql_identifier_def sql_literal_def name_token text_token is_alnum_def)

lemma plain_backup_statement:
  "remove_suffix '', COMPRESSION'' (backup_statement database_name path) =
     ''BACKUP DATABASE '' @ sql_identifier database_name @ '' TO DISK = '' @ sql_literal path @ '' WITH INIT, COPY_ONLY, CHECKSUM''"
proof -
  have "remove_suffix s (t @ s) = t" for s t by (simp add: remove_suffix_def ends_with_def)
  from this [of "'', COMPRESSION''" "''BACKUP DATABASE '' @ sql_identifier database_name @ '' TO DISK = '' @ sql_literal path @
      '' WITH INIT, COPY_ONLY, CHECKSUM''"] show ?thesis by (simp add: backup_statement_def)
qed

lemma verify_statement_tokens:
  "sql_tokens Plain (verify_statement path) =
     Some [SqlWord ''RESTORE'', SqlWord ''VERIFYONLY'', SqlWord ''FROM'', SqlWord ''DISK'', SqlMark (CHR ''=''), SqlText path,
       SqlWord ''WITH'', SqlWord ''CHECKSUM'']"
  by (simp add: verify_statement_def sql_literal_def text_token is_alnum_def)

lemma plain_backup_tokens:
  "sql_tokens Plain (remove_suffix '', COMPRESSION'' (backup_statement database_name path)) =
     Some [SqlWord ''BACKUP'', SqlWord ''DATABASE'', SqlName database_name, SqlWord ''TO'', SqlWord ''DISK'', SqlMark (CHR ''=''),
       SqlText path, SqlWord ''WITH'', SqlWord ''INIT'', SqlMark (CHR '',''), SqlWord ''COPY_ONLY'', SqlMark (CHR '',''),
       SqlWord ''CHECKSUM'']"
  by (simp add: plain_backup_statement sql_identifier_def sql_literal_def name_token text_token is_alnum_def)

end
