(* ===== verification/RemoteFiles.thy ===== *)
theory RemoteFiles
  imports Effects Quoting LocalFiles RemoteServers Filesystem
begin

text \<open>
  \<^verbatim>\<open>src/src/pipeline/acquisition/remote_files.py\<close>: fetching the sources of a profile from a
  trusted server with rsync, checking everything that arrived, and packing it. The server, rsync
  and the connection are parameters that may answer anything at all.
\<close>

section \<open>What arrives\<close>

text \<open>
  A downloaded tree: files with the inode their hard links share, directories, links with what
  they lead to, if they lead anywhere, and devices or pipes.
\<close>

datatype entry = FileEntry nat int | DirEntry "(string \<times> entry) list" | LinkEntry "entry option" | SpecialEntry

text \<open>
  One run of rsync: the download at every check made while it runs, how it ends, and what it leaves.
\<close>

datatype tool_end = ToolDone | ToolExit int string string | ToolRaised exn

record transfer =
  tf_seen :: "entry option list"
  tf_end :: tool_end
  tf_left :: "entry option"

datatype command_end = Ran int string | ConnectionLost | RunFailed exn

text \<open>The outcome of connecting: the host key the server showed, if any, as its fingerprint.\<close>

datatype connect_end = Connected "string option" | ConnectTimeout | AuthRefused | ConnectFailed exn

record remote_env =
  re_limits :: source_limits
  re_disk :: "nat \<Rightarrow> int \<Rightarrow> unit result"
  re_timeout :: "nat \<Rightarrow> int \<Rightarrow> int result"
  re_expired :: "nat \<Rightarrow> exn option"
  re_rsync :: bool
  re_imports :: "string \<Rightarrow> string option \<Rightarrow> bool"
  re_connect :: connect_end
  re_transfer :: "nat \<Rightarrow> string list \<Rightarrow> transfer"
  re_command :: "nat \<Rightarrow> string \<Rightarrow> command_end"
  re_snapshot_name :: "nat \<Rightarrow> string"
  re_cipher :: aead
  re_material :: string
  re_root :: string
  re_stop :: "nat \<Rightarrow> exn option"
  re_archive_fault :: "nat \<Rightarrow> exn option"

text \<open>The downloads so far, by their names in the download directory, and the commands sent.\<close>

record remote_state =
  rs_tick :: nat
  rs_budget :: source_budget
  rs_tree :: "(string \<times> entry) list"
  rs_sent :: "string list"

type_synonym 'a remote = "(remote_state, exn, 'a) effect"

definition fresh_remote :: remote_state where
  "fresh_remote = \<lparr>rs_tick = 0, rs_budget = fresh_budget, rs_tree = [], rs_sent = []\<rparr>"

text \<open>An event: something outside is asked, and time passes.\<close>

definition ask :: "(nat \<Rightarrow> 'a result) \<Rightarrow> 'a remote" where
  "ask f s = (f (rs_tick s), s\<lparr>rs_tick := rs_tick s + 1\<rparr>)"

definition disk_check :: "remote_env \<Rightarrow> int \<Rightarrow> unit remote" where
  "disk_check env required = ask (\<lambda>n. re_disk env n required)"

definition commit_budget :: "remote_env \<Rightarrow> int \<Rightarrow> int \<Rightarrow> unit remote" where
  "commit_budget env bytes_found files_found s =
     (case commit_scanned (re_limits env) (rs_budget s) bytes_found files_found of
        Inl e \<Rightarrow> (Inl e, s) | Inr b \<Rightarrow> (Inr (), s\<lparr>rs_budget := b\<rparr>))"

section \<open>Checking a download\<close>

fun resolved_entry :: "entry option \<Rightarrow> entry option" where
  "resolved_entry (Some (LinkEntry target)) = target"
| "resolved_entry e = e"

text \<open>\<^verbatim>\<open>os.walk\<close> lists links to directories with the directories.\<close>

fun listed_as_directory :: "string \<times> entry \<Rightarrow> bool" where
  "listed_as_directory (name, DirEntry cs) = True"
| "listed_as_directory (name, LinkEntry (Some (DirEntry cs))) = True"
| "listed_as_directory _ = False"

type_synonym counts = "int \<times> int"

definition if_budget :: "bool \<Rightarrow> (source_budget \<Rightarrow> unit result) \<Rightarrow> unit remote" where
  "if_budget budget f = (if budget then read_eff (\<lambda>s. f (rs_budget s)) else done_eff ())"

fun check_item :: "remote_env \<Rightarrow> bool \<Rightarrow> string \<times> entry \<Rightarrow> counts \<Rightarrow> counts remote" where
  "check_item env budget (name, LinkEntry t) acc =
     raise_eff (PipelineError ''UNSAFE_SOURCE'' ''remote source contains a symbolic link'')"
| "check_item env budget (name, SpecialEntry) acc =
     raise_eff (PipelineError ''UNSAFE_SOURCE'' ''remote source contains a special file'')"
| "check_item env budget (name, DirEntry cs) acc = done_eff acc"
| "check_item env budget (name, FileEntry inode sz) (bytes_found, files_found) =
     bind_eff (if_budget budget (\<lambda>_. validate_file_size (re_limits env) sz)) (\<lambda>_.
       done_eff (bytes_found + sz, files_found + 1))"

fun check_items :: "remote_env \<Rightarrow> bool \<Rightarrow> (string \<times> entry) list \<Rightarrow> counts \<Rightarrow> counts remote" where
  "check_items env budget [] acc = done_eff acc"
| "check_items env budget (x # xs) acc = bind_eff (check_item env budget x acc) (check_items env budget xs)"

text \<open>One directory of the walk: its depth, its entries, and the totals so far.\<close>

definition check_directory :: "remote_env \<Rightarrow> bool \<Rightarrow> int \<Rightarrow> (string \<times> entry) list \<Rightarrow> counts \<Rightarrow> counts remote" where
  "check_directory env budget depth cs acc =
     bind_eff (if_budget budget (\<lambda>_. check_depth (re_limits env) depth)) (\<lambda>_.
     bind_eff (check_items env budget (filter listed_as_directory cs @ filter (\<lambda>x. \<not> listed_as_directory x) cs) acc) (\<lambda>acc.
     bind_eff (if_budget budget (\<lambda>b. validate_addition (re_limits env) b (fst acc) (snd acc))) (\<lambda>_.
     bind_eff (if budget then disk_check env 0 else done_eff ()) (\<lambda>_. done_eff acc))))"

fun walk_below :: "remote_env \<Rightarrow> bool \<Rightarrow> int \<Rightarrow> (string \<times> entry) list \<Rightarrow> counts \<Rightarrow> counts remote" where
  "walk_below env budget depth [] acc = done_eff acc"
| "walk_below env budget depth ((name, DirEntry cs) # rest) acc =
     bind_eff (bind_eff (check_directory env budget (depth + 1) cs acc) (walk_below env budget (depth + 1) cs)) (walk_below env budget depth rest)"
| "walk_below env budget depth (_ # rest) acc = walk_below env budget depth rest acc"

definition walk_download :: "remote_env \<Rightarrow> bool \<Rightarrow> (string \<times> entry) list \<Rightarrow> counts remote" where
  "walk_download env budget cs = bind_eff (check_directory env budget 0 cs (0, 0)) (walk_below env budget 0 cs)"

definition validate_download :: "remote_env \<Rightarrow> bool \<Rightarrow> bool \<Rightarrow> entry option \<Rightarrow> counts remote" where
  "validate_download env budget commit at =
     (case resolved_entry at of
        None \<Rightarrow> bind_eff (if budget then disk_check env 0 else done_eff ()) (\<lambda>_. done_eff (0, 0))
      | Some (FileEntry inode sz) \<Rightarrow>
          bind_eff (if_budget budget (\<lambda>_. validate_file_size (re_limits env) sz)) (\<lambda>_.
          bind_eff (if_budget budget (\<lambda>b. validate_addition (re_limits env) b sz 1)) (\<lambda>_.
          bind_eff (if budget then disk_check env 0 else done_eff ()) (\<lambda>_.
          bind_eff (if budget \<and> commit then commit_budget env sz 1 else done_eff ()) (\<lambda>_. done_eff (sz, 1)))))
      | Some e \<Rightarrow>
          bind_eff (case e of DirEntry cs \<Rightarrow> walk_download env budget cs | _ \<Rightarrow> done_eff (0, 0)) (\<lambda>(bytes_found, files_found).
          bind_eff (if budget \<and> commit then commit_budget env bytes_found files_found else done_eff ()) (\<lambda>_.
            done_eff (bytes_found, files_found))))"

section \<open>Paths and failures\<close>

text \<open>The check at the worker's own boundary: what the database holds must already be normalized.\<close>

definition unsafe_path :: exn where
  "unsafe_path = PipelineError ''UNSAFE_SOURCE'' ''remote source path is unsafe''"

definition control_char :: "char \<Rightarrow> bool" where
  "control_char c \<longleftrightarrow> (of_char c :: nat) < 32"

definition validate_remote_path :: "string \<Rightarrow> string result" where
  "validate_remote_path v =
     (if v = [] \<or> CHR 0x00 \<in> set v \<or> list_ex control_char v then Inl unsafe_path
      else let p = pure_path v; normalized = path_text p;
               expected = (if ends_with ''/'' v \<and> v \<noteq> ''/'' then normalized @ ''/'' else normalized)
           in if pp_root p = [] \<or> ''..'' \<in> set (pp_segments p) \<or> v \<noteq> expected then Inl unsafe_path else Inr v)"

definition confined_download_destination :: "fs \<Rightarrow> path \<Rightarrow> path \<Rightarrow> path result" where
  "confined_download_destination fs root candidate =
     (if below (resolve fs root) (resolve fs candidate) then Inr (resolve fs candidate)
      else Inl (PipelineError ''UNSAFE_SOURCE'' ''remote source destination escapes the run directory''))"

fun contains_text :: "string \<Rightarrow> string \<Rightarrow> bool" where
  "contains_text t [] \<longleftrightarrow> t = []"
| "contains_text t (c # cs) \<longleftrightarrow> starts_with t (c # cs) \<or> contains_text t cs"

definition any_marker :: "string list \<Rightarrow> string \<Rightarrow> bool" where
  "any_marker markers t \<longleftrightarrow> list_ex (\<lambda>m. contains_text m t) markers"

definition classify_rsync_failure :: "int \<Rightarrow> string \<Rightarrow> string \<Rightarrow> exn" where
  "classify_rsync_failure exit_code out err =
     (let diagnostic = map lower_char (err @ [newline] @ out)
      in if any_marker [''permission denied'', ''operation not permitted''] diagnostic
         then PipelineError ''RSYNC_PERMISSION_DENIED'' ''rsync permission denied''
         else if any_marker [''no such file or directory'', ''link_stat '', ''change_dir '', ''failed to stat ''] diagnostic
         then PipelineError ''RSYNC_REMOTE_PATH_NOT_FOUND'' ''remote rsync path not found''
         else if exit_code \<in> {30, 35} \<or> any_marker [''connection timed out'', ''operation timed out'', ''timeout waiting''] diagnostic
         then PipelineError ''RSYNC_TIMEOUT'' ''rsync transfer timed out''
         else if exit_code \<in> {5, 10, 12, 255} \<or>
           any_marker [''connection refused'', ''connection reset'', ''connection unexpectedly closed'',
             ''could not resolve hostname'', ''host key verification failed'', ''no route to host'',
             ''ssh_exchange_identification''] diagnostic
         then PipelineError ''RSYNC_CONNECTION_FAILED'' ''rsync SSH connection failed''
         else PipelineError ''RSYNC_TRANSFER_FAILED'' ''rsync transfer failed'')"

section \<open>Running rsync\<close>

text \<open>\<^verbatim>\<open>_ssh_credentials\<close>\<close>

definition ssh_credentials_of :: "aead \<Rightarrow> remote_server \<Rightarrow> ssh_credentials result" where
  "ssh_credentials_of cipher s =
     bind_result (if given (s_passphrase s)
         then bind_result (decrypt_secret cipher (the (s_passphrase s)) phrase_context) (\<lambda>t. Inr (Some t))
         else Inr None) (\<lambda>phrase.
     bind_result (decrypt_secret cipher (s_key s) key_context) (\<lambda>key.
       Inr \<lparr>sc_host = s_host s, sc_port = s_port s, sc_username = s_username s, sc_private_key = key,
         sc_passphrase = phrase\<rparr>))"

text \<open>The identity file and the known hosts are written in the run's private directory of key material.\<close>

definition identity_file :: "remote_env \<Rightarrow> string" where
  "identity_file env = re_material env @ ''/id''"

definition known_hosts_file :: "remote_env \<Rightarrow> string" where
  "known_hosts_file env = re_material env @ ''/known_hosts''"

definition known_host :: "remote_server \<Rightarrow> string" where
  "known_host s = (if s_port s \<noteq> 22 then ''['' @ s_host s @ '']:'' @ show_int (s_port s) else s_host s)"

definition ssh_arguments :: "remote_env \<Rightarrow> remote_server \<Rightarrow> string list" where
  "ssh_arguments env s =
     [''/usr/bin/ssh'', ''-i'', identity_file env, ''-o'', ''UserKnownHostsFile='' @ known_hosts_file env,
      ''-o'', ''StrictHostKeyChecking=yes'', ''-o'', ''UpdateHostKeys=no'', ''-o'', ''IdentitiesOnly=yes'',
      ''-o'', ''BatchMode=yes'', ''-o'', ''PasswordAuthentication=no'', ''-o'', ''KbdInteractiveAuthentication=no'',
      ''-p'', show_int (s_port s)]"

definition host_spec :: "remote_server \<Rightarrow> string" where
  "host_spec s = (if CHR '':'' \<in> set (s_host s) then ''['' @ s_host s @ '']'' else s_host s)"

definition download_path :: "remote_env \<Rightarrow> string \<Rightarrow> string" where
  "download_path env name = re_root env @ ''/'' @ name"

definition rsync_arguments :: "remote_env \<Rightarrow> remote_server \<Rightarrow> string \<Rightarrow> string \<Rightarrow> string list" where
  "rsync_arguments env s remote target =
     [''-aHAX'', ''--numeric-ids'', ''--safe-links'', ''--no-specials'', ''--no-devices'', ''--secluded-args'',
      ''-e'', shlex_join (ssh_arguments env s), ''--'', s_username s @ ''@'' @ host_spec s @ '':'' @ remote, target]"

definition put_download :: "string \<Rightarrow> entry option \<Rightarrow> remote_state \<Rightarrow> remote_state" where
  "put_download name at s = s\<lparr>rs_tree := filter (\<lambda>x. fst x \<noteq> name) (rs_tree s) @ (case at of None \<Rightarrow> [] | Some e \<Rightarrow> [(name, e)])\<rparr>"

text \<open>What arrives is checked again and again while rsync runs; a refusal stops it.\<close>

definition monitor_download :: "remote_env \<Rightarrow> bool \<Rightarrow> string \<Rightarrow> entry option \<Rightarrow> unit remote" where
  "monitor_download env budget name seen =
     bind_eff (write_eff (put_download name seen)) (\<lambda>_.
     bind_eff (validate_download env budget False seen) (\<lambda>_. done_eff ()))"

fun rsync_ended :: "tool_end \<Rightarrow> unit result" where
  "rsync_ended ToolDone = Inr ()"
| "rsync_ended (ToolExit exit_code out err) = Inl (classify_rsync_failure exit_code out err)"
| "rsync_ended (ToolRaised (PipelineError code msg)) =
     Inl (if code = ''PROCESS_TIMEOUT'' then PipelineError ''RSYNC_TIMEOUT'' ''rsync transfer timed out''
          else if code = ''PROCESS_FAILED'' then PipelineError ''RSYNC_TRANSFER_FAILED'' ''rsync transfer failed''
          else PipelineError code msg)"
| "rsync_ended (ToolRaised e) = Inl e"

definition run_rsync :: "remote_env \<Rightarrow> bool \<Rightarrow> string list \<Rightarrow> string \<Rightarrow> unit remote" where
  "run_rsync env budget arguments name =
     bind_eff (ask (\<lambda>n. Inr (re_transfer env n arguments))) (\<lambda>t.
     bind_eff (each_eff (monitor_download env budget name) (tf_seen t)) (\<lambda>_.
     bind_eff (write_eff (put_download name (tf_left t))) (\<lambda>_. lift_eff (rsync_ended (tf_end t)))))"

definition rsync_download :: "remote_env \<Rightarrow> remote_server \<Rightarrow> ssh_credentials \<Rightarrow> string \<Rightarrow> string \<Rightarrow> bool \<Rightarrow> counts remote" where
  "rsync_download env s cred remote name budget =
     bind_eff (guard_eff (re_rsync env) (PipelineError ''REMOTE_RSYNC_UNAVAILABLE'' ''local rsync execution failed'')) (\<lambda>_.
     bind_eff (guard_eff (re_imports env (sc_private_key cred) (sc_passphrase cred)) (ValueError ''invalid private key'')) (\<lambda>_.
     bind_eff (lift_eff (validate_remote_path remote)) (\<lambda>remote.
     bind_eff (ask (\<lambda>n. re_timeout env n 3600)) (\<lambda>_.
     bind_eff (run_rsync env budget (rsync_arguments env s remote (download_path env name)) name) (\<lambda>_.
     bind_eff (read_eff (\<lambda>s. Inr (map_of (rs_tree s) name))) (validate_download env budget True))))))"

section \<open>Commands over the connection\<close>

definition connection_lost :: exn where
  "connection_lost = RuntimeError ''asyncssh.ConnectionLost''"

definition process_error :: exn where
  "process_error = RuntimeError ''asyncssh.ProcessError''"

text \<open>\<^verbatim>\<open>connection.run\<close>, with \<^verbatim>\<open>check=True\<close> or without: exit status and output.\<close>

definition send_command :: "remote_env \<Rightarrow> bool \<Rightarrow> string \<Rightarrow> (int \<times> string) remote" where
  "send_command env check line =
     bind_eff (write_eff (\<lambda>s. s\<lparr>rs_sent := rs_sent s @ [line]\<rparr>)) (\<lambda>_.
       ask (\<lambda>n. case re_command env n line of
         Ran status out \<Rightarrow> if check \<and> status \<noteq> 0 then Inl process_error else Inr (status, out)
       | ConnectionLost \<Rightarrow> Inl connection_lost
       | RunFailed e \<Rightarrow> Inl e))"

text \<open>\<^verbatim>\<open>OSError\<close>, \<^verbatim>\<open>asyncssh.Error\<close> and \<^verbatim>\<open>TimeoutError\<close>\<close>

definition connection_error :: "exn \<Rightarrow> bool" where
  "connection_error e \<longleftrightarrow> e = connection_lost \<or> e = process_error \<or> (\<exists>c. e = OSError c)"

lemma connection_error_code [code]:
  "connection_error e \<longleftrightarrow> e = connection_lost \<or> e = process_error \<or> (case e of OSError _ \<Rightarrow> True | _ \<Rightarrow> False)"
  by (auto simp: connection_error_def split: exn.splits)

definition python_launcher :: "string \<Rightarrow> string" where
  "python_launcher script = ''import base64;exec(base64.b64decode('' @ [CHR 0x27] @ b64_encode script @ [CHR 0x27] @ '').decode())''"

definition sqlite_script :: string where
  "sqlite_script = ''import sqlite3,sys;'' @
     ''a=sqlite3.connect('' @ [CHR 0x27] @ ''file:'' @ [CHR 0x27] @ ''+sys.argv[1]+'' @ [CHR 0x27] @ ''?mode=ro'' @ [CHR 0x27] @ '',uri=True);'' @
     ''b=sqlite3.connect(sys.argv[2]);a.backup(b);'' @
     ''r=b.execute('' @ [CHR 0x27] @ ''PRAGMA integrity_check'' @ [CHR 0x27] @ '').fetchone();'' @
     ''a.close();b.close();assert r==('' @ [CHR 0x27] @ ''ok'' @ [CHR 0x27] @ '',),'' @ [CHR 0x27] @ ''integrity check failed'' @ [CHR 0x27]"

definition sqlite_command :: "string \<Rightarrow> string \<Rightarrow> string list" where
  "sqlite_command source remote = [''/usr/bin/python3'', ''-c'', python_launcher sqlite_script, source, remote]"

definition remove_command :: "string \<Rightarrow> string list" where
  "remove_command remote = [''/bin/rm'', ''-f'', ''--'', remote]"

text \<open>
  The copy on the server is removed in a \<^verbatim>\<open>finally\<close> clause; the errors of the connection are
  suppressed there, those of the deadline are not.
\<close>

definition remote_sqlite_snapshot ::
  "remote_env \<Rightarrow> remote_server \<Rightarrow> ssh_credentials \<Rightarrow> string \<Rightarrow> string \<Rightarrow> unit remote" where
  "remote_sqlite_snapshot env s cred source name =
     bind_eff (ask (\<lambda>n. Inr (''/tmp/backup-telebot-'' @ re_snapshot_name env n @ ''.sqlite''))) (\<lambda>remote.
     finally_eff
       (bind_eff (ask (\<lambda>n. re_timeout env n 3600)) (\<lambda>_.
        bind_eff (send_command env True (shlex_join (sqlite_command source remote))) (\<lambda>_.
        bind_eff (rsync_download env s cred remote name True) (\<lambda>_. done_eff ()))))
       (catch_eff
         (bind_eff (ask (\<lambda>n. re_timeout env n 60)) (\<lambda>_.
          bind_eff (send_command env False (shlex_join (remove_command remote))) (\<lambda>_. done_eff ())))
         connection_error (\<lambda>_. done_eff ())))"

definition deadline_check :: "remote_env \<Rightarrow> unit remote" where
  "deadline_check env = ask (\<lambda>n. case re_expired env n of None \<Rightarrow> Inr () | Some e \<Rightarrow> Inl e)"

definition validate_remote_rsync :: "remote_env \<Rightarrow> string remote" where
  "validate_remote_rsync env =
     bind_eff (ask (\<lambda>n. re_timeout env n 30)) (\<lambda>_.
     bind_eff (catch_eff (send_command env False ''command -v rsync'') connection_error
       (\<lambda>_. bind_eff (deadline_check env) (\<lambda>_.
         raise_eff (PipelineError ''REMOTE_SSH_CHECK_FAILED'' ''remote SSH validation failed'')))) (\<lambda>(status, out).
       let executable = strip out; p = pure_path executable
       in if status \<noteq> 0 \<or> executable = [] \<or> list_ex control_char executable \<or> pp_root p = [] \<or>
            ''..'' \<in> set (pp_segments p) \<or> path_text p \<noteq> executable \<or> last_component executable \<noteq> ''rsync''
          then raise_eff (PipelineError ''REMOTE_RSYNC_MISSING'' ''rsync is not installed on the remote server'')
          else done_eff executable))"

section \<open>Packing what arrived\<close>

datatype member_kind = FileMember | DirMember | HardLinkMember | SymLinkMember | OtherMember

record remote_member =
  rm_name :: string
  rm_kind :: member_kind
  rm_size :: int

text \<open>
  \<^verbatim>\<open>TarFile.add\<close>, recursively and by name: a file whose inode the archive already holds under
  another name becomes a hard link to it.
\<close>

definition archive_guard :: "remote_env \<Rightarrow> unit remote" where
  "archive_guard env =
     bind_eff (ask (\<lambda>n. case re_stop env n of None \<Rightarrow> Inr () | Some e \<Rightarrow> Inl e)) (\<lambda>_.
     bind_eff (disk_check env 0) (\<lambda>_.
       ask (\<lambda>n. case re_archive_fault env n of None \<Rightarrow> Inr () | Some e \<Rightarrow> Inl e)))"

fun insert_by_name :: "string \<times> entry \<Rightarrow> (string \<times> entry) list \<Rightarrow> (string \<times> entry) list" where
  "insert_by_name x [] = [x]"
| "insert_by_name x (y # ys) = (if fst x \<le> fst y then x # y # ys else y # insert_by_name x ys)"

definition sort_names :: "(string \<times> entry) list \<Rightarrow> (string \<times> entry) list" where
  "sort_names xs = foldr insert_by_name xs []"

text \<open>A tree with the entries of every directory in the order \<^verbatim>\<open>sorted(os.listdir(...))\<close> visits them.\<close>

lemma entry_size: "x \<in> set cs \<Longrightarrow> size (snd x) < Suc (size_list (size_prod (\<lambda>x. 0) size) cs)"
  using size_list_estimation' [of x cs "size (snd x)" "size_prod (\<lambda>x. 0) size"]
  by (cases x) (simp add: less_Suc_eq_le)

function in_order :: "entry \<Rightarrow> entry" where
  "in_order (DirEntry cs) = DirEntry (sort_names (map (\<lambda>x. (fst x, in_order (snd x))) cs))"
| "in_order (FileEntry i sz) = FileEntry i sz"
| "in_order (LinkEntry t) = LinkEntry t"
| "in_order SpecialEntry = SpecialEntry"
  by pat_completeness auto
termination by (relation "measure size") (simp_all add: entry_size)

text \<open>The names under which inodes are in the archive so far, and the members.\<close>

type_synonym tar_state = "(nat \<times> string) list \<times> remote_member list"

definition add_remote_member :: "remote_env \<Rightarrow> string \<Rightarrow> member_kind \<Rightarrow> int \<Rightarrow> (nat \<times> string) list \<Rightarrow> tar_state \<Rightarrow> tar_state remote" where
  "add_remote_member env name kind sz inodes t =
     bind_eff (archive_guard env) (\<lambda>_. done_eff (inodes, snd t @ [\<lparr>rm_name = name, rm_kind = kind, rm_size = sz\<rparr>]))"

fun tar_entries :: "remote_env \<Rightarrow> string \<Rightarrow> (string \<times> entry) list \<Rightarrow> tar_state \<Rightarrow> tar_state remote" where
  "tar_entries env parent [] t = done_eff t"
| "tar_entries env parent ((name, FileEntry inode sz) # rest) t =
     bind_eff (if inode \<in> fst ` set (fst t)
       then add_remote_member env (child_path parent name) HardLinkMember 0 (fst t) t
       else add_remote_member env (child_path parent name) FileMember sz (fst t @ [(inode, child_path parent name)]) t)
       (tar_entries env parent rest)"
| "tar_entries env parent ((name, DirEntry cs) # rest) t =
     bind_eff (bind_eff (add_remote_member env (child_path parent name) DirMember 0 (fst t) t)
         (tar_entries env (child_path parent name) cs))
       (tar_entries env parent rest)"
| "tar_entries env parent ((name, LinkEntry target) # rest) t =
     bind_eff (add_remote_member env (child_path parent name) SymLinkMember 0 (fst t) t) (tar_entries env parent rest)"
| "tar_entries env parent ((name, SpecialEntry) # rest) t =
     bind_eff (add_remote_member env (child_path parent name) OtherMember 0 (fst t) t) (tar_entries env parent rest)"

text \<open>\<^verbatim>\<open>_tar_download\<close>: the download directory under the name \<^verbatim>\<open>sources\<close>.\<close>

definition tar_download :: "remote_env \<Rightarrow> remote_member list remote" where
  "tar_download env s =
     bind_eff (add_remote_member env ''sources'' DirMember 0 [] ([], [])) (\<lambda>t.
     bind_eff (case in_order (DirEntry (rs_tree s)) of DirEntry cs \<Rightarrow> tar_entries env ''sources'' cs t | _ \<Rightarrow> done_eff t) (\<lambda>t.
       done_eff (snd t))) s"

text \<open>\<^verbatim>\<open>_verify_tar\<close>: only files and directories, by names that stay below the place of unpacking.\<close>

definition verify_remote_tar :: "remote_env \<Rightarrow> remote_member list \<Rightarrow> unit remote" where
  "verify_remote_tar env ms = each_eff (\<lambda>m.
     bind_eff (deadline_check env) (\<lambda>_.
     bind_eff (ask (\<lambda>n. case re_stop env n of None \<Rightarrow> Inr () | Some e \<Rightarrow> Inl e)) (\<lambda>_.
       guard_eff (\<not> unsafe_member (rm_name m, rm_kind m \<in> {FileMember, DirMember}))
         (PipelineError ''UNSAFE_ARCHIVE'' ''source archive contains unsafe entries'')))) ms"

section \<open>The acquisition\<close>

text \<open>\<^verbatim>\<open>pinned_connection\<close> with the exceptions it may end in, and the host key it leaves.\<close>

definition pinned_session :: "remote_env \<Rightarrow> remote_server \<Rightarrow> ssh_credentials \<Rightarrow> bool \<Rightarrow> unit remote" where
  "pinned_session env s cred checked =
     bind_eff (ask (\<lambda>n. re_timeout env n 30)) (\<lambda>_.
     bind_eff (guard_eff (re_imports env (sc_private_key cred) (sc_passphrase cred))
       (ValueError ''invalid SSH private key or passphrase'')) (\<lambda>_.
       case re_connect env of
         ConnectTimeout \<Rightarrow> bind_eff (if checked then deadline_check env else done_eff ()) (\<lambda>_.
           raise_eff (PipelineError ''SSH_CONNECT_TIMEOUT'' ''SSH connection timed out''))
       | AuthRefused \<Rightarrow> raise_eff (PipelineError ''REMOTE_AUTHENTICATION_FAILED'' ''remote SSH authentication failed'')
       | ConnectFailed e \<Rightarrow> raise_eff e
       | Connected shown \<Rightarrow> guard_eff (shown = None \<or> shown = Some (s_fingerprint s))
             (PipelineError ''REMOTE_HOST_KEY_MISMATCH'' ''remote SSH host key verification failed'')))"

definition host_key_there :: "remote_env \<Rightarrow> unit remote" where
  "host_key_there env = guard_eff (re_connect env \<noteq> Connected None)
     (PipelineError ''SSH_HOST_KEY_MISSING'' ''SSH server key is unavailable'')"

definition open_connection :: "remote_env \<Rightarrow> remote_server \<Rightarrow> ssh_credentials \<Rightarrow> bool \<Rightarrow> unit remote" where
  "open_connection env s cred checked = bind_eff (pinned_session env s cred checked) (\<lambda>_. host_key_there env)"

definition fetch_path :: "remote_env \<Rightarrow> remote_server \<Rightarrow> ssh_credentials \<Rightarrow> nat \<times> backup_path \<Rightarrow> unit remote" where
  "fetch_path env s cred item =
     bind_eff (lift_eff (validate_remote_path (bp_path (snd item)))) (\<lambda>remote.
       if bp_sqlite (snd item)
       then bind_eff (remote_sqlite_snapshot env s cred remote (show_nat (fst item))) (\<lambda>_.
            bind_eff (read_eff (\<lambda>t. Inr (map_of (rs_tree t) (show_nat (fst item))))) (\<lambda>at.
            bind_eff (validate_download env False False at) (\<lambda>_. done_eff ())))
       else bind_eff (rsync_download env s cred remote (show_nat (fst item)) True) (\<lambda>_. done_eff ()))"

definition enabled_remote :: "files_source option \<Rightarrow> (files_source \<times> remote_server) result" where
  "enabled_remote source =
     (case source of
        Some x \<Rightarrow> (case f_server x of Some s \<Rightarrow> if s_enabled s then Inr (x, s)
            else Inl (PipelineError ''INVALID_PROFILE'' ''enabled remote server is missing'')
          | None \<Rightarrow> Inl (PipelineError ''INVALID_PROFILE'' ''enabled remote server is missing''))
      | None \<Rightarrow> Inl (PipelineError ''INVALID_PROFILE'' ''enabled remote server is missing''))"

definition package_remote :: "remote_env \<Rightarrow> files_source option \<Rightarrow> (remote_member list \<times> int) remote" where
  "package_remote env source =
     bind_eff (lift_eff (enabled_remote source)) (\<lambda>(x, s).
     bind_eff (disk_check env 0) (\<lambda>_.
     bind_eff (lift_eff (ssh_credentials_of (re_cipher env) s)) (\<lambda>cred.
     catch_eff
       (bind_eff (open_connection env s cred True) (\<lambda>_.
        bind_eff (validate_remote_rsync env) (\<lambda>_.
        bind_eff (each_eff (fetch_path env s cred) (enumerate 0 (f_paths x))) (\<lambda>_.
        bind_eff (read_eff (\<lambda>t. Inr (sb_bytes (rs_budget t)))) (\<lambda>used.
        bind_eff (disk_check env (used + 4096)) (\<lambda>_.
        bind_eff (tar_download env) (\<lambda>ms.
        bind_eff (disk_check env 0) (\<lambda>_.
        read_eff (\<lambda>t. Inr (ms, sb_bytes (rs_budget t)))))))))))
       (\<lambda>e. e = connection_lost)
       (\<lambda>_. raise_eff (PipelineError ''SSH_CONNECTION_LOST'' ''SSH connection lost'')))))"

text \<open>The remote branch of \<^verbatim>\<open>acquire\<close>: the members, the metadata and the logical size.\<close>

definition acquire_remote :: "remote_env \<Rightarrow> files_source option \<Rightarrow> (remote_member list \<times> (string \<times> json) list \<times> int) remote" where
  "acquire_remote env source =
     bind_eff (package_remote env source) (\<lambda>(ms, sz).
     bind_eff (verify_remote_tar env ms) (\<lambda>_.
       done_eff (ms, [(''kind'', JStr ''files''), (''verified'', JBool True)], sz)))"

end
