(* ===== verification/RemoteArchives.thy ===== *)
theory RemoteArchives
  imports RemoteFiles "HOL-Library.Multiset"
begin

text \<open>
  What an acquired archive of remote sources holds, whatever the server and rsync did; which
  commands reach the server; and two ways in which sources are not backed up.
\<close>

section \<open>The files of a tree\<close>

fun files_in :: "entry \<Rightarrow> int list" where
  "files_in (FileEntry inode sz) = [sz]"
| "files_in (DirEntry cs) = concat (map (\<lambda>x. files_in (snd x)) cs)"
| "files_in (LinkEntry t) = []"
| "files_in SpecialEntry = []"

fun is_file_entry :: "entry \<Rightarrow> bool" where
  "is_file_entry (FileEntry inode sz) = True"
| "is_file_entry _ = False"

fun is_dir_entry :: "entry \<Rightarrow> bool" where
  "is_dir_entry (DirEntry cs) = True"
| "is_dir_entry _ = False"

definition direct_files :: "(string \<times> entry) list \<Rightarrow> int list" where
  "direct_files cs = concat (map (\<lambda>x. if is_file_entry (snd x) then files_in (snd x) else []) cs)"

definition deeper_files :: "(string \<times> entry) list \<Rightarrow> int list" where
  "deeper_files cs = concat (map (\<lambda>x. if is_dir_entry (snd x) then files_in (snd x) else []) cs)"

lemma files_split:
  "mset (files_in (DirEntry cs)) = mset (direct_files cs) + mset (deeper_files cs)"
proof (induction cs)
  case (Cons x cs)
  show ?case using Cons by (cases "snd x") (simp_all add: direct_files_def deeper_files_def)
qed (simp add: direct_files_def deeper_files_def)

lemma direct_partition: "mset (direct_files (filter P cs @ filter (\<lambda>x. \<not> P x) cs)) = mset (direct_files cs)"
  by (induction cs) (auto simp: direct_files_def)

definition totals :: "int list \<Rightarrow> counts \<Rightarrow> counts" where
  "totals fs acc = (fst acc + sum_list fs, snd acc + int (length fs))"

lemma totals_simps [simp]:
  "totals [] acc = acc" "totals (fs @ gs) acc = totals gs (totals fs acc)" "totals [sz] acc = (fst acc + sz, snd acc + 1)"
  by (simp_all add: totals_def algebra_simps)

lemma totals_mset: "mset fs = mset gs \<Longrightarrow> totals fs acc = totals gs acc"
  unfolding totals_def by (metis sum_mset_sum_list size_mset)

definition sizes_ok :: "remote_env \<Rightarrow> bool \<Rightarrow> int list \<Rightarrow> bool" where
  "sizes_ok env budget fs \<longleftrightarrow> (budget \<longrightarrow> (\<forall>sz \<in> set fs. sz \<le> sl_file_size (re_limits env)))"

lemma sizes_ok_simps [simp]:
  "sizes_ok env b []" "sizes_ok env b (fs @ gs) \<longleftrightarrow> sizes_ok env b fs \<and> sizes_ok env b gs"
  by (auto simp: sizes_ok_def)

lemma sizes_ok_mset: "mset fs = mset gs \<Longrightarrow> sizes_ok env b fs = sizes_ok env b gs"
  unfolding sizes_ok_def by (metis set_mset_mset)

section \<open>Checks look, they do not touch\<close>

interpretation untouched: progress "\<lambda>s t. rs_tree t = rs_tree s \<and> rs_budget t = rs_budget s"
  by unfold_locales auto

lemma untouched_ask [simp]: "untouched.moves (ask f)"
  by (simp add: untouched.moves_def ask_def)

lemma untouched_disk [simp]: "untouched.moves (disk_check env k)"
  by (simp add: disk_check_def)

lemma untouched_if_budget [simp]: "untouched.moves (if_budget b f)"
  by (auto simp: if_budget_def intro: untouched.moves_cases)

lemma untouched_item [simp]: "untouched.moves (check_item env b x acc)"
  by (cases "(env, b, x, acc)" rule: check_item.cases) (auto intro!: untouched.moves_bind)

lemma untouched_items [simp]: "untouched.moves (check_items env b xs acc)"
  by (induction xs arbitrary: acc) (auto intro!: untouched.moves_bind)

lemma untouched_directory [simp]: "untouched.moves (check_directory env b depth cs acc)"
  unfolding check_directory_def by (intro untouched.moves_rules) (auto intro!: untouched.moves_cases)

lemma untouched_below [simp]: "untouched.moves (walk_below env b depth cs acc)"
  by (induction env b depth cs acc rule: walk_below.induct) (auto intro!: untouched.moves_bind)

lemma untouched_walk [simp]: "untouched.moves (walk_download env b cs)"
  unfolding walk_download_def by (intro untouched.moves_bind) auto

section \<open>A checked download\<close>

lemma check_items_counts:
  "check_items env b xs acc s = (Inr acc', s') \<Longrightarrow>
     acc' = totals (direct_files xs) acc \<and> sizes_ok env b (direct_files xs)"
proof (induction xs arbitrary: acc s)
  case (Cons x xs)
  from Cons.prems obtain a1 s1 where i: "check_item env b x acc s = (Inr a1, s1)" and r: "check_items env b xs a1 s1 = (Inr acc', s')"
    by (auto simp: bind_eff_Inr)
  have "a1 = totals (if is_file_entry (snd x) then files_in (snd x) else []) acc \<and>
      sizes_ok env b (if is_file_entry (snd x) then files_in (snd x) else [])"
    using i by (cases "(env, b, x, acc)" rule: check_item.cases)
      (auto simp: bind_eff_Inr if_budget_def validate_file_size_def sizes_ok_def split: if_splits)
  with Cons.IH [OF r] show ?case by (simp add: direct_files_def)
qed (simp add: direct_files_def)

lemma check_directory_counts:
  assumes "check_directory env b depth cs acc s = (Inr acc', s')"
  shows "acc' = totals (direct_files cs) acc \<and> sizes_ok env b (direct_files cs)"
proof -
  from assms obtain s1 s2 where "check_items env b (filter listed_as_directory cs @ filter (\<lambda>x. \<not> listed_as_directory x) cs) acc s1 = (Inr acc', s2)"
    by (auto simp: check_directory_def bind_eff_Inr)
  from check_items_counts [OF this] show ?thesis
    using direct_partition [of listed_as_directory cs] totals_mset sizes_ok_mset by metis
qed

lemma walk_below_counts:
  "walk_below env b depth cs acc s = (Inr acc', s') \<Longrightarrow> acc' = totals (deeper_files cs) acc \<and> sizes_ok env b (deeper_files cs)"
proof (induction env b depth cs acc arbitrary: s acc' s' rule: walk_below.induct)
  case (2 env b depth name cs rest acc)
  from "2.prems" obtain a1 s1 a2 s2 where d: "check_directory env b (depth + 1) cs acc s = (Inr a1, s1)"
    and w: "walk_below env b (depth + 1) cs a1 s1 = (Inr a2, s2)" and r: "walk_below env b depth rest a2 s2 = (Inr acc', s')"
    by (auto simp: bind_eff_Inr)
  have m: "mset (direct_files cs @ deeper_files cs) = mset (files_in (DirEntry cs))" by (simp only: files_split mset_append)
  from check_directory_counts [OF d] "2.IH"(1) [OF w] have "a2 = totals (direct_files cs @ deeper_files cs) acc"
    "sizes_ok env b (direct_files cs @ deeper_files cs)" by simp_all
  then have "a2 = totals (files_in (DirEntry cs)) acc" "sizes_ok env b (files_in (DirEntry cs))"
    using totals_mset [OF m] sizes_ok_mset [OF m] by simp_all
  with "2.IH"(2) [OF r] show ?case by (simp add: deeper_files_def)
qed (auto simp: deeper_files_def)

lemma walk_download_counts:
  assumes "walk_download env b cs s = (Inr acc', s')"
  shows "acc' = totals (files_in (DirEntry cs)) (0, 0) \<and> sizes_ok env b (files_in (DirEntry cs))"
proof -
  from assms obtain a1 s1 where d: "check_directory env b 0 cs (0, 0) s = (Inr a1, s1)" and w: "walk_below env b 0 cs a1 s1 = (Inr acc', s')"
    by (auto simp: walk_download_def bind_eff_Inr)
  have m: "mset (direct_files cs @ deeper_files cs) = mset (files_in (DirEntry cs))" by (simp only: files_split mset_append)
  from check_directory_counts [OF d] walk_below_counts [OF w] have "acc' = totals (direct_files cs @ deeper_files cs) (0, 0)"
    "sizes_ok env b (direct_files cs @ deeper_files cs)" by simp_all
  then show ?thesis using totals_mset [OF m] sizes_ok_mset [OF m] by simp
qed

lemma show_nat_inj: "show_nat m = show_nat n \<Longrightarrow> m = n"
proof -
  assume "show_nat m = show_nat n"
  then have "digits_value 0 (show_nat m) = digits_value 0 (show_nat n)" by (rule arg_cong)
  moreover have "digits_value 0 (show_nat k) = k" for k using show_nat_digits [of k 0] by simp
  ultimately show "m = n" by simp
qed

fun top_special :: "entry \<Rightarrow> bool" where
  "top_special (LinkEntry t) = True"
| "top_special SpecialEntry = True"
| "top_special _ = False"

definition found_files :: "entry option \<Rightarrow> int list" where
  "found_files at = (case at of None \<Rightarrow> [] | Some e \<Rightarrow> files_in e)"

lemma commit_budget_Inr:
  "commit_budget env k n s = (Inr u, s') \<longleftrightarrow> sb_bytes (rs_budget s) + k \<le> sl_bytes (re_limits env) \<and>
     sb_files (rs_budget s) + n \<le> sl_files (re_limits env) \<and>
     s' = s\<lparr>rs_budget := \<lparr>sb_bytes = sb_bytes (rs_budget s) + k, sb_files = sb_files (rs_budget s) + n\<rparr>\<rparr>"
  by (cases "rs_budget s")
    (auto simp: commit_budget_def commit_scanned_def validate_addition_def bind_result_def split: sum.splits if_splits)

text \<open>A download that was checked and charged to the budget, unless a link or a device stands in its place.\<close>

lemma validate_download_charged:
  assumes v: "validate_download env True True at s = (Inr acc, s')" and ordinary: "\<And>e. at = Some e \<Longrightarrow> \<not> top_special e"
  shows "rs_tree s' = rs_tree s \<and> sizes_ok env True (found_files at) \<and>
    sb_bytes (rs_budget s') = sb_bytes (rs_budget s) + sum_list (found_files at) \<and>
    sb_files (rs_budget s') = sb_files (rs_budget s) + int (length (found_files at)) \<and>
    (within_limits (re_limits env) (rs_budget s) \<longrightarrow> within_limits (re_limits env) (rs_budget s'))"
proof (cases at)
  case None
  with v obtain u where "disk_check env 0 s = (Inr u, s')"
    by (auto simp: validate_download_def bind_eff_Inr)
  from untouched.moves_apply [OF untouched_disk this] None show ?thesis by (simp add: found_files_def)
next
  case (Some e)
  show ?thesis
  proof (cases e)
    case (FileEntry inode sz)
    with Some v obtain s1 where size: "sz \<le> sl_file_size (re_limits env)" and d: "disk_check env 0 s = (Inr (), s1)"
      and c: "commit_budget env sz 1 s1 = (Inr (), s')"
      by (auto simp: validate_download_def if_budget_def bind_eff_Inr validate_file_size_def)
    from untouched.moves_apply [OF untouched_disk d] size c Some FileEntry show ?thesis
      by (simp add: commit_budget_Inr found_files_def sizes_ok_def within_limits_def)
  next
    case (DirEntry cs)
    with Some v obtain s1 k n where w: "walk_download env True cs s = (Inr (k, n), s1)"
      and c: "commit_budget env k n s1 = (Inr (), s')"
      by (auto simp: validate_download_def bind_eff_Inr)
    from untouched.moves_apply [OF untouched_walk w] walk_download_counts [OF w] c Some DirEntry show ?thesis
      by (simp add: commit_budget_Inr found_files_def within_limits_def totals_def)
  qed (use ordinary Some in auto)
qed

lemma untouched_validate_unbudgeted [simp]: "untouched.moves (validate_download env b False at)"
  unfolding validate_download_def by (cases "resolved_entry at") (auto intro!: untouched.moves_rules split: entry.splits)

lemmas untouched_validate_unbudgeted' = untouched_validate_unbudgeted [of _ False]

section \<open>The budget is what the download directory holds\<close>

definition tree_files :: "(string \<times> entry) list \<Rightarrow> int list" where
  "tree_files t = concat (map (\<lambda>x. files_in (snd x)) t)"

lemma tree_files_simps [simp]: "tree_files [] = []" "tree_files (xs @ ys) = tree_files xs @ tree_files ys"
  by (simp_all add: tree_files_def)

definition charged :: "remote_env \<Rightarrow> remote_state \<Rightarrow> bool" where
  "charged env s \<longleftrightarrow> within_limits (re_limits env) (rs_budget s) \<and>
     (list_ex (\<lambda>x. top_special (snd x)) (rs_tree s) \<or>
      sizes_ok env True (tree_files (rs_tree s)) \<and> sb_bytes (rs_budget s) = sum_list (tree_files (rs_tree s)) \<and>
      sb_files (rs_budget s) = int (length (tree_files (rs_tree s))))"

lemma charged_untouched: "rs_tree t = rs_tree s \<and> rs_budget t = rs_budget s \<Longrightarrow> charged env t = charged env s"
  by (simp add: charged_def)

lemma untouched_send [simp]: "untouched.moves (send_command env check line)"
  unfolding send_command_def by (intro untouched.moves_bind untouched.moves_write) auto

lemma untouched_expired [simp]: "untouched.moves (deadline_check env)"
  by (simp add: deadline_check_def)

lemma untouched_session [simp]: "untouched.moves (pinned_session env sv cred checked)"
  unfolding pinned_session_def
  by (intro untouched.moves_bind) (auto intro!: untouched.moves_bind untouched.moves_cases split: connect_end.splits)

lemma untouched_connection [simp]: "untouched.moves (open_connection env sv cred checked)"
  unfolding open_connection_def host_key_there_def by (intro untouched.moves_bind) auto

lemma untouched_rsync_check [simp]: "untouched.moves (validate_remote_rsync env)"
  unfolding validate_remote_rsync_def Let_def
  by (intro untouched.moves_bind untouched.moves_catch) (auto intro!: untouched.moves_bind split: prod.splits)

text \<open>Whatever is in its place, a download that passes leaves the budget within the limits.\<close>

lemma validate_download_within:
  assumes v: "validate_download env True True at s = (Inr acc, s')"
  shows "rs_tree s' = rs_tree s \<and> (within_limits (re_limits env) (rs_budget s) \<longrightarrow> within_limits (re_limits env) (rs_budget s'))"
proof -
  have charge: "rs_tree s' = rs_tree s \<and> (within_limits (re_limits env) (rs_budget s) \<longrightarrow> within_limits (re_limits env) (rs_budget s'))"
    if "untouched.moves m" "m s = (Inr x, s1)" "commit_budget env k n s1 = (Inr (), s')" for m :: "'b remote" and x s1 k n
    using untouched.moves_apply [OF that(1,2)] that(3) by (auto simp: commit_budget_Inr within_limits_def)
  show ?thesis
  proof (cases "resolved_entry at")
    case None
    with v obtain u where "disk_check env 0 s = (Inr u, s')" by (auto simp: validate_download_def bind_eff_Inr)
    from untouched.moves_apply [OF untouched_disk this] show ?thesis by simp
  next
    case (Some e)
    show ?thesis
    proof (cases e)
      case (FileEntry inode sz)
      with Some v obtain s1 where "disk_check env 0 s = (Inr (), s1)" "commit_budget env sz 1 s1 = (Inr (), s')"
        by (auto simp: validate_download_def if_budget_def bind_eff_Inr)
      from charge [OF untouched_disk this] show ?thesis .
    next
      case (DirEntry cs)
      with Some v obtain s1 k n where "walk_download env True cs s = (Inr (k, n), s1)" "commit_budget env k n s1 = (Inr (), s')"
        by (auto simp: validate_download_def bind_eff_Inr)
      from charge [OF untouched_walk this] show ?thesis .
    qed (use Some v in \<open>auto simp: validate_download_def bind_eff_Inr commit_budget_Inr within_limits_def\<close>)
  qed
qed

text \<open>While rsync runs only its own download changes; the budget does not.\<close>

lemma monitor_download_Inr:
  "monitor_download env b name x s = (Inr u, s') \<longleftrightarrow>
     (\<exists>acc. validate_download env b False x (put_download name x s) = (Inr acc, s'))"
  by (auto simp: monitor_download_def bind_eff_Inr)

lemma monitored:
  assumes "each_eff (monitor_download env b name) seen s = (Inr u, s')"
  shows "filter (\<lambda>x. fst x \<noteq> name) (rs_tree s') = filter (\<lambda>x. fst x \<noteq> name) (rs_tree s) \<and> rs_budget s' = rs_budget s"
  using assms
proof (induction seen arbitrary: s)
  case (Cons x seen)
  from Cons.prems obtain acc s1 where v: "validate_download env b False x (put_download name x s) = (Inr acc, s1)"
    and r: "each_eff (monitor_download env b name) seen s1 = (Inr u, s')"
    by (auto simp: bind_eff_Inr monitor_download_Inr)
  from untouched.moves_apply [OF untouched_validate_unbudgeted v] Cons.IH [OF r] show ?case
    by (auto simp: put_download_def split: option.splits)
qed simp

lemma rsync_left:
  assumes "run_rsync env b arguments name s = (Inr u, s')" and "name \<notin> fst ` set (rs_tree s)"
  shows "\<exists>at. rs_tree s' = rs_tree s @ (case at of None \<Rightarrow> [] | Some e \<Rightarrow> [(name, e)]) \<and> map_of (rs_tree s') name = at \<and>
    rs_budget s' = rs_budget s"
proof -
  define t where "t = re_transfer env (rs_tick s) arguments"
  define s0 where "s0 = s\<lparr>rs_tick := rs_tick s + 1\<rparr>"
  from assms(1) obtain s1 where m: "each_eff (monitor_download env b name) (tf_seen t) s0 = (Inr (), s1)"
    and s': "s' = put_download name (tf_left t) s1"
    by (auto simp: run_rsync_def bind_eff_Inr ask_def t_def s0_def)
  have a: "rs_tree s0 = rs_tree s" "rs_budget s0 = rs_budget s" by (simp_all add: s0_def)
  have fresh: "filter (\<lambda>x. fst x \<noteq> name) (rs_tree s) = rs_tree s"
    using assms(2) by (auto simp: filter_id_conv image_iff)
  have tree: "rs_tree s' = rs_tree s @ (case tf_left t of None \<Rightarrow> [] | Some e \<Rightarrow> [(name, e)])"
    using monitored [OF m] a fresh by (simp add: s' put_download_def)
  have "map_of (rs_tree s) name = None" using assms(2) by (simp add: map_of_eq_None_iff)
  with tree have "map_of (rs_tree s') name = tf_left t" by (auto simp: map_add_def split: option.splits)
  with tree monitored [OF m] a show ?thesis by (auto simp: s' put_download_def)
qed

lemma rsync_download_charged:
  assumes r: "rsync_download env sv cred remote name True s = (Inr acc, s')"
    and fresh: "name \<notin> fst ` set (rs_tree s)" and ok: "charged env s"
  shows "charged env s' \<and> fst ` set (rs_tree s') \<subseteq> insert name (fst ` set (rs_tree s))"
proof -
  define s0 where "s0 = s\<lparr>rs_tick := rs_tick s + 1\<rparr>"
  from r obtain s1 remote' where run: "run_rsync env True (rsync_arguments env sv remote' (download_path env name)) name s0 = (Inr (), s1)"
    and v: "validate_download env True True (map_of (rs_tree s1) name) s1 = (Inr acc, s')"
    by (auto simp: rsync_download_def bind_eff_Inr ask_def s0_def)
  have a: "rs_tree s0 = rs_tree s" "rs_budget s0 = rs_budget s" by (simp_all add: s0_def)
  have fresh0: "name \<notin> fst ` set (rs_tree s0)" using fresh by (simp add: a)
  obtain at where tree: "rs_tree s1 = rs_tree s @ (case at of None \<Rightarrow> [] | Some e \<Rightarrow> [(name, e)])"
    and at: "map_of (rs_tree s1) name = at" and budget: "rs_budget s1 = rs_budget s"
    using rsync_left [OF run fresh0] unfolding a by blast
  note v = v [unfolded at]
  have within: "rs_tree s' = rs_tree s1" "within_limits (re_limits env) (rs_budget s')"
    using validate_download_within [OF v] ok budget by (simp_all add: charged_def)
  have keys: "fst ` set (rs_tree s') \<subseteq> insert name (fst ` set (rs_tree s))"
    using within(1) tree by (auto split: option.splits)
  have files: "tree_files (rs_tree s') = tree_files (rs_tree s) @ found_files at"
    using within(1) tree by (cases at) (simp_all add: found_files_def tree_files_def)
  note files1 = files [unfolded within(1)]
  show ?thesis
  proof (cases "list_ex (\<lambda>x. top_special (snd x)) (rs_tree s')")
    case True
    with within keys show ?thesis by (simp add: charged_def)
  next
    case False
    with within(1) tree have ordinary: "\<And>e. at = Some e \<Longrightarrow> \<not> top_special e"
      and before: "\<not> list_ex (\<lambda>x. top_special (snd x)) (rs_tree s)"
      by (auto simp: list_ex_iff)
    from validate_download_charged [OF v ordinary] ok before within keys budget show ?thesis
      by (simp add: charged_def files1)
  qed
qed

definition names_below :: "nat \<Rightarrow> remote_state \<Rightarrow> bool" where
  "names_below n s \<longleftrightarrow> fst ` set (rs_tree s) \<subseteq> show_nat ` {..<n}"

lemma names_below_fresh: "names_below n s \<Longrightarrow> show_nat n \<notin> fst ` set (rs_tree s)"
  unfolding names_below_def by (metis imageE lessThan_iff less_irrefl show_nat_inj subsetD)

lemma names_below_Suc:
  "fst ` set (rs_tree s') \<subseteq> insert (show_nat n) (fst ` set (rs_tree s)) \<Longrightarrow> names_below n s \<Longrightarrow> names_below (Suc n) s'"
  unfolding names_below_def lessThan_Suc by blast

text \<open>What is invariant while the paths are fetched one by one.\<close>

lemma rsync_download_step:
  assumes "rsync_download env sv cred remote (show_nat n) True s = (Inr acc, s')" and "charged env s" and "names_below n s"
  shows "charged env s' \<and> names_below (Suc n) s'"
  using rsync_download_charged [OF assms(1) names_below_fresh [OF assms(3)] assms(2)] names_below_Suc [OF _ assms(3)] by blast

lemma step_untouched:
  "rs_tree t = rs_tree s \<and> rs_budget t = rs_budget s \<Longrightarrow> charged env t = charged env s \<and> names_below n t = names_below n s"
  by (simp add: charged_def names_below_def)

lemma snapshot_step:
  assumes r: "remote_sqlite_snapshot env sv cred source (show_nat n) s = (Inr u, s')" and ok: "charged env s" "names_below n s"
  shows "charged env s' \<and> names_below (Suc n) s'"
proof -
  from r obtain remote s0 where s0: "ask (\<lambda>n. Inr (''/tmp/backup-telebot-'' @ re_snapshot_name env n @ ''.sqlite'')) s = (Inr remote, s0)"
    and f: "finally_eff
       (bind_eff (ask (\<lambda>n. re_timeout env n 3600)) (\<lambda>_.
        bind_eff (send_command env True (shlex_join (sqlite_command source remote))) (\<lambda>_.
        bind_eff (rsync_download env sv cred remote (show_nat n) True) (\<lambda>_. done_eff ()))))
       (catch_eff
         (bind_eff (ask (\<lambda>n. re_timeout env n 60)) (\<lambda>_.
          bind_eff (send_command env False (shlex_join (remove_command remote))) (\<lambda>_. done_eff ())))
         connection_error (\<lambda>_. done_eff ())) s0 = (Inr u, s')"
    unfolding remote_sqlite_snapshot_def bind_eff_Inr by blast
  from f obtain left s1 out s2 acc s3 where s1: "ask (\<lambda>n. re_timeout env n 3600) s0 = (Inr left, s1)"
    and send: "send_command env True (shlex_join (sqlite_command source remote)) s1 = (Inr out, s2)"
    and d: "rsync_download env sv cred remote (show_nat n) True s2 = (Inr acc, s3)"
    and last: "catch_eff (bind_eff (ask (\<lambda>n. re_timeout env n 60)) (\<lambda>_.
        bind_eff (send_command env False (shlex_join (remove_command remote))) (\<lambda>_. done_eff ())))
      connection_error (\<lambda>_. done_eff ()) s3 = (Inr (), s')"
    unfolding finally_eff_Inr bind_eff_Inr eff_simps by blast
  have "untouched.moves (catch_eff (bind_eff (ask (\<lambda>n. re_timeout env n 60)) (\<lambda>_.
        bind_eff (send_command env False (shlex_join (remove_command remote))) (\<lambda>_. done_eff ())))
      connection_error (\<lambda>_. done_eff ()))"
    by (intro untouched.moves_catch untouched.moves_bind) auto
  from step_untouched [OF untouched.moves_apply [OF this last]]
    rsync_download_step [OF d] step_untouched [OF untouched.moves_apply [OF untouched_send send]]
    step_untouched [OF untouched.moves_apply [OF untouched_ask s1]] step_untouched [OF untouched.moves_apply [OF untouched_ask s0]] ok
  show ?thesis by blast
qed

lemma fetch_path_step:
  assumes r: "fetch_path env sv cred (n, p) s = (Inr u, s')" and ok: "charged env s" "names_below n s"
  shows "charged env s' \<and> names_below (Suc n) s'"
proof (cases "bp_sqlite p")
  case True
  with r obtain s1 remote acc at where f: "remote_sqlite_snapshot env sv cred remote (show_nat n) s = (Inr (), s1)"
    and v: "validate_download env False False at s1 = (Inr acc, s')"
    by (auto simp: fetch_path_def bind_eff_Inr)
  from snapshot_step [OF f ok] step_untouched [OF untouched.moves_apply [OF untouched_validate_unbudgeted' v]]
  show ?thesis by blast
next
  case False
  with r obtain remote acc where "rsync_download env sv cred remote (show_nat n) True s = (Inr acc, s')"
    by (auto simp: fetch_path_def bind_eff_Inr)
  from rsync_download_step [OF this ok] show ?thesis .
qed

lemma fetch_all:
  assumes "each_eff (fetch_path env sv cred) (enumerate n ps) s = (Inr u, s')" and "charged env s" and "names_below n s"
  shows "charged env s'"
  using assms
proof (induction ps arbitrary: n s)
  case (Cons p ps)
  from Cons.prems(1) obtain s1 where f: "fetch_path env sv cred (n, p) s = (Inr (), s1)"
    and r: "each_eff (fetch_path env sv cred) (enumerate (Suc n) ps) s1 = (Inr u, s')"
    by (auto simp: bind_eff_Inr)
  from fetch_path_step [OF f Cons.prems(2,3)] Cons.IH [OF r] show ?case by blast
qed simp

section \<open>The archive of the downloads\<close>

definition plain_members :: "remote_member list \<Rightarrow> bool" where
  "plain_members ms \<longleftrightarrow> (\<forall>m \<in> set ms. rm_kind m = FileMember \<or> rm_kind m = DirMember)"

definition member_sizes :: "remote_member list \<Rightarrow> int list" where
  "member_sizes ms = map rm_size (filter (\<lambda>m. rm_kind m = FileMember) ms)"

definition under_name :: "string \<Rightarrow> remote_member \<Rightarrow> bool" where
  "under_name parent m \<longleftrightarrow> (\<exists>below. rm_name m = parent @ ''/'' @ below)"

text \<open>
  The members that one directory adds. When none of them is a link or a device, there is none in
  the directory either, and the file members are its files, in the same order.
\<close>

definition members_of :: "string \<Rightarrow> (string \<times> entry) list \<Rightarrow> remote_member list \<Rightarrow> bool" where
  "members_of parent cs ms \<longleftrightarrow> list_all (under_name parent) ms \<and>
     (plain_members ms \<longrightarrow> list_all (\<lambda>x. \<not> top_special (snd x)) cs \<and> member_sizes ms = files_in (DirEntry cs))"

lemma plain_simps [simp]:
  "plain_members []" "plain_members (m # ms) \<longleftrightarrow> (rm_kind m = FileMember \<or> rm_kind m = DirMember) \<and> plain_members ms"
  "plain_members (ms @ ns) \<longleftrightarrow> plain_members ms \<and> plain_members ns"
  "member_sizes [] = []" "member_sizes (ms @ ns) = member_sizes ms @ member_sizes ns"
  "member_sizes (m # ms) = (if rm_kind m = FileMember then rm_size m # member_sizes ms else member_sizes ms)"
  by (auto simp: plain_members_def member_sizes_def)

lemma under_child: "under_name (child_path parent name) m \<Longrightarrow> under_name parent m"
  by (auto simp: under_name_def child_path_def)

lemma under_self [simp]: "under_name parent \<lparr>rm_name = child_path parent name, rm_kind = k, rm_size = sz\<rparr>"
  by (simp add: under_name_def child_path_def)

lemma add_remote_member_Inr:
  "add_remote_member env name kind sz inodes t s = (Inr t', s') \<longleftrightarrow>
     (\<exists>u. archive_guard env s = (Inr u, s')) \<and> t' = (inodes, snd t @ [\<lparr>rm_name = name, rm_kind = kind, rm_size = sz\<rparr>])"
  by (auto simp: add_remote_member_def bind_eff_Inr)

lemma tar_entries_members:
  "tar_entries env parent cs t s = (Inr t', s') \<Longrightarrow> \<exists>ms. snd t' = snd t @ ms \<and> members_of parent cs ms"
proof (induction env parent cs t arbitrary: s t' s' rule: tar_entries.induct)
  case (1 env parent t)
  then show ?case by (simp add: members_of_def)
next
  case (2 env parent name inode sz rest t)
  define k where "k = (if inode \<in> fst ` set (fst t) then HardLinkMember else FileMember)"
  have k: "k = FileMember \<or> k = HardLinkMember" by (simp add: k_def)
  from "2.prems" obtain t1 s1 where one: "snd t1 = snd t @ [\<lparr>rm_name = child_path parent name, rm_kind = k, rm_size = (if k = FileMember then sz else 0)\<rparr>]"
    and r: "tar_entries env parent rest t1 s1 = (Inr t', s')"
    by (cases "inode \<in> fst ` set (fst t)") (auto simp: bind_eff_Inr add_remote_member_Inr k_def)
  from "2.IH" [OF r] obtain ms where ms: "snd t' = snd t1 @ ms" "members_of parent rest ms" by blast
  have "members_of parent ((name, FileEntry inode sz) # rest)
      (\<lparr>rm_name = child_path parent name, rm_kind = k, rm_size = (if k = FileMember then sz else 0)\<rparr> # ms)"
    using ms(2) k by (auto simp: members_of_def)
  with ms(1) one show ?case by simp
next
  case (3 env parent name cs rest t)
  from "3.prems" obtain t1 s1 t2 s2 where one: "snd t1 = snd t @ [\<lparr>rm_name = child_path parent name, rm_kind = DirMember, rm_size = 0\<rparr>]"
    and d: "tar_entries env (child_path parent name) cs t1 s1 = (Inr t2, s2)" and r: "tar_entries env parent rest t2 s2 = (Inr t', s')"
    by (auto simp: bind_eff_Inr add_remote_member_Inr)
  from "3.IH"(1) [OF d] obtain ms where ms: "snd t2 = snd t1 @ ms" "members_of (child_path parent name) cs ms" by blast
  from "3.IH"(2) [OF r] obtain ns where ns: "snd t' = snd t2 @ ns" "members_of parent rest ns" by blast
  have "members_of parent ((name, DirEntry cs) # rest)
      ((\<lparr>rm_name = child_path parent name, rm_kind = DirMember, rm_size = 0\<rparr> # ms) @ ns)"
    using ms(2) ns(2) by (auto simp: members_of_def list_all_iff dest: under_child)
  with ms(1) ns(1) one show ?case by simp
next
  case (4 env parent name target rest t)
  from "4.prems" obtain t1 s1 where one: "snd t1 = snd t @ [\<lparr>rm_name = child_path parent name, rm_kind = SymLinkMember, rm_size = 0\<rparr>]"
    and r: "tar_entries env parent rest t1 s1 = (Inr t', s')"
    by (auto simp: bind_eff_Inr add_remote_member_Inr)
  from "4.IH" [OF r] obtain ms where "snd t' = snd t1 @ ms" "members_of parent rest ms" by blast
  with one show ?case by (auto simp: members_of_def)
next
  case (5 env parent name rest t)
  from "5.prems" obtain t1 s1 where one: "snd t1 = snd t @ [\<lparr>rm_name = child_path parent name, rm_kind = OtherMember, rm_size = 0\<rparr>]"
    and r: "tar_entries env parent rest t1 s1 = (Inr t', s')"
    by (auto simp: bind_eff_Inr add_remote_member_Inr)
  from "5.IH" [OF r] obtain ms where "snd t' = snd t1 @ ms" "members_of parent rest ms" by blast
  with one show ?case by (auto simp: members_of_def)
qed

lemma mset_insert_by_name: "mset (insert_by_name x xs) = add_mset x (mset xs)"
  by (induction xs) auto

lemma mset_sort_names: "mset (sort_names xs) = mset xs"
  by (induction xs) (auto simp: sort_names_def mset_insert_by_name)

lemma mset_concat_map: "mset (concat (map f xs)) = (\<Sum>x\<in>#mset xs. mset (f x))"
  by (induction xs) auto

lemma files_in_order: "mset (files_in (in_order e)) = mset (files_in e)"
proof (induction e rule: in_order.induct)
  case (1 cs)
  have "mset (files_in (in_order (DirEntry cs))) = (\<Sum>x\<in>#mset cs. mset (files_in (in_order (snd x))))"
    by (simp add: mset_concat_map mset_sort_names image_mset.compositionality comp_def del: mset_map flip: mset_map)
  also have "\<dots> = (\<Sum>x\<in>#mset cs. mset (files_in (snd x)))"
    using 1 by (intro arg_cong [where f = sum_mset] image_mset_cong) auto
  finally show ?case by (simp add: mset_concat_map)
qed simp_all

lemma top_special_in_order: "top_special (in_order e) = top_special e"
  by (cases e) simp_all

lemma set_sort_names: "set (sort_names xs) = set xs"
  by (metis mset_sort_names set_mset_mset)

lemma special_in_order:
  "list_all (\<lambda>x. \<not> top_special (snd x)) (sort_names (map (\<lambda>x. (fst x, in_order (snd x))) cs)) =
     list_all (\<lambda>x. \<not> top_special (snd x)) cs"
  by (auto simp: list_all_iff set_sort_names top_special_in_order)

lemma tar_download_members:
  assumes "tar_download env s = (Inr ms, s')"
  shows "list_all (\<lambda>m. rm_name m = ''sources'' \<or> under_name ''sources'' m) ms \<and>
    (plain_members ms \<longrightarrow> list_all (\<lambda>x. \<not> top_special (snd x)) (rs_tree s) \<and>
      mset (member_sizes ms) = mset (tree_files (rs_tree s)))"
proof -
  let ?cs = "sort_names (map (\<lambda>x. (fst x, in_order (snd x))) (rs_tree s))"
  from assms obtain t s1 where "tar_entries env ''sources'' ?cs ([], [\<lparr>rm_name = ''sources'', rm_kind = DirMember, rm_size = 0\<rparr>]) s1 = (Inr t, s')"
    and ms: "ms = snd t"
    by (auto simp: tar_download_def bind_eff_Inr add_remote_member_Inr)
  from tar_entries_members [OF this(1)] obtain ns where ns: "members_of ''sources'' ?cs ns"
    and t: "ms = \<lparr>rm_name = ''sources'', rm_kind = DirMember, rm_size = 0\<rparr> # ns" by (auto simp: ms)
  have "mset (files_in (DirEntry ?cs)) = mset (tree_files (rs_tree s))"
    using files_in_order [of "DirEntry (rs_tree s)"] by (simp add: tree_files_def)
  with ns show ?thesis by (simp add: t members_of_def special_in_order list_all_iff [of "under_name _"]) (auto simp: list_all_iff)
qed

lemma verify_remote_tar_Inr:
  "verify_remote_tar env ms s = (Inr u, s') \<Longrightarrow> \<forall>m \<in> set ms. \<not> unsafe_member (rm_name m, rm_kind m \<in> {FileMember, DirMember})"
proof (induction ms arbitrary: s)
  case (Cons m ms)
  then show ?case unfolding verify_remote_tar_def by (auto simp: bind_eff_Inr)
qed simp

lemma fresh_charged: "0 \<le> sl_bytes (re_limits env) \<Longrightarrow> 0 \<le> sl_files (re_limits env) \<Longrightarrow> charged env fresh_remote"
  by (simp add: charged_def fresh_remote_def fresh_budget_def within_limits_def)

lemma fresh_names: "names_below 0 fresh_remote"
  by (simp add: names_below_def fresh_remote_def)

lemma untouched_tar [simp]: "untouched.moves (add_remote_member env name kind sz inodes t)"
  by (auto simp: add_remote_member_def archive_guard_def intro!: untouched.moves_bind)

lemma untouched_tar_entries [simp]: "untouched.moves (tar_entries env parent cs t)"
  by (induction env parent cs t rule: tar_entries.induct) (auto intro!: untouched.moves_bind untouched.moves_cases(2))

lemma untouched_tar_download: "tar_download env s = (r, s') \<Longrightarrow> rs_tree s' = rs_tree s \<and> rs_budget s' = rs_budget s"
  unfolding tar_download_def
  by (drule untouched.moves_apply [rotated]) (auto intro!: untouched.moves_bind untouched.moves_pure)

text \<open>The parts of a successful acquisition.\<close>

lemma package_remote_charged:
  assumes p: "package_remote env source s = (Inr (ms, sz), s')" and ok: "charged env s" "names_below 0 s"
  shows "charged env s' \<and> sz = sb_bytes (rs_budget s') \<and> (\<exists>s3 s4. tar_download env s3 = (Inr ms, s4) \<and> rs_tree s3 = rs_tree s')"
proof -
  from p obtain ps sv cred a b w c d used e f where a: "disk_check env 0 s = (Inr (), a)"
    and o: "open_connection env sv cred True a = (Inr (), b)"
    and r: "validate_remote_rsync env b = (Inr w, c)"
    and fetch: "each_eff (fetch_path env sv cred) (enumerate 0 ps) c = (Inr (), d)"
    and disk: "disk_check env used d = (Inr (), e)" and tar: "tar_download env e = (Inr ms, f)"
    and last: "disk_check env 0 f = (Inr (), s')" and sz: "sz = sb_bytes (rs_budget s')"
    by (auto simp: package_remote_def bind_eff_Inr catch_eff_Inr split: prod.splits)
  have c: "charged env c \<and> names_below 0 c"
    using step_untouched [OF untouched.moves_apply [OF untouched_disk a]] step_untouched [OF untouched.moves_apply [OF untouched_connection o]]
      step_untouched [OF untouched.moves_apply [OF untouched_rsync_check r]] ok by blast
  have "charged env d" using fetch_all [OF fetch] c by blast
  then have "charged env s'"
    using step_untouched [OF untouched.moves_apply [OF untouched_disk disk]] step_untouched [OF untouched_tar_download [OF tar]]
      step_untouched [OF untouched.moves_apply [OF untouched_disk last]] by blast
  moreover have "rs_tree e = rs_tree s'"
    using untouched_tar_download [OF tar] untouched.moves_apply [OF untouched_disk last] by simp
  ultimately show ?thesis using tar sz by blast
qed

text \<open>
  C19. Whatever a server sends and rsync does, an archive of remote sources that is accepted holds
  only files and directories, under the name \<^verbatim>\<open>sources\<close> and never outside of it; no file is larger
  than the limit, there are no more files than the limit, and the reported size is the size of all
  files together, which is within the limit.
\<close>

theorem remote_archive_within_limits:
  assumes acquired: "acquire_remote env source fresh_remote = (Inr (ms, meta, sz), s')"
    and limits: "0 \<le> sl_bytes (re_limits env)" "0 \<le> sl_files (re_limits env)"
  shows "(\<forall>m \<in> set ms. (rm_kind m = FileMember \<or> rm_kind m = DirMember) \<and>
        (rm_name m = ''sources'' \<or> (\<exists>below. rm_name m = ''sources/'' @ below)) \<and>
        ''..'' \<notin> set (pp_segments (pure_path (rm_name m))) \<and>
        (rm_kind m = FileMember \<longrightarrow> rm_size m \<le> sl_file_size (re_limits env))) \<and>
    sz = (\<Sum>m\<leftarrow>filter (\<lambda>m. rm_kind m = FileMember) ms. rm_size m) \<and> sz \<le> sl_bytes (re_limits env) \<and>
    int (length (filter (\<lambda>m. rm_kind m = FileMember) ms)) \<le> sl_files (re_limits env)"
proof -
  from acquired obtain s1 where p: "package_remote env source fresh_remote = (Inr (ms, sz), s1)"
    and v: "verify_remote_tar env ms s1 = (Inr (), s')"
    by (auto simp: acquire_remote_def bind_eff_Inr)
  from package_remote_charged [OF p fresh_charged [OF limits] fresh_names] obtain s3 s4
    where ok: "charged env s1" and sz: "sz = sb_bytes (rs_budget s1)"
      and tar: "tar_download env s3 = (Inr ms, s4)" and tree: "rs_tree s3 = rs_tree s1" by blast
  note safe = verify_remote_tar_Inr [OF v]
  have plain: "plain_members ms" using safe by (auto simp: plain_members_def unsafe_member_def)
  note members = tar_download_members [OF tar]
  from members plain have special: "list_all (\<lambda>x. \<not> top_special (snd x)) (rs_tree s1)"
    and sizes: "mset (member_sizes ms) = mset (tree_files (rs_tree s1))" by (simp_all add: tree)
  from ok special have budget: "within_limits (re_limits env) (rs_budget s1)" "sizes_ok env True (tree_files (rs_tree s1))"
    "sb_bytes (rs_budget s1) = sum_list (tree_files (rs_tree s1))" "sb_files (rs_budget s1) = int (length (tree_files (rs_tree s1)))"
    by (auto simp: charged_def list_all_iff list_ex_iff)
  have "sum_list (member_sizes ms) = sum_list (tree_files (rs_tree s1))" "length (member_sizes ms) = length (tree_files (rs_tree s1))"
    "set (member_sizes ms) = set (tree_files (rs_tree s1))"
    using sizes by (metis sum_mset_sum_list, metis size_mset, metis set_mset_mset)
  with budget sz have totals: "sz = sum_list (member_sizes ms)" "sz \<le> sl_bytes (re_limits env)"
    "int (length (member_sizes ms)) \<le> sl_files (re_limits env)"
    and each: "\<forall>k \<in> set (member_sizes ms). k \<le> sl_file_size (re_limits env)"
    by (simp_all add: within_limits_def sizes_ok_def)
  from members have names: "\<forall>m \<in> set ms. rm_name m = ''sources'' \<or> (\<exists>below. rm_name m = ''sources/'' @ below)"
    by (auto simp: list_all_iff under_name_def)
  show ?thesis using safe plain names totals each
    by (auto simp: plain_members_def unsafe_member_def member_sizes_def)
qed

section \<open>A small server\<close>

definition small_server :: remote_server where
  "small_server = \<lparr>s_id = 3, s_name = ''nas'', s_host = ''10.0.0.5'', s_port = 22, s_username = ''backup'',
     s_method = PrivateKey, s_key = cipher_version # ''abcdefghijkl'' @ seal demo_aead ''abcdefghijkl'' ''KEY'' (utf8 key_context),
     s_passphrase = None, s_fingerprint = ''SHA256:aa'', s_enabled = True, s_deleted = None\<rparr>"

definition small_source :: "backup_path list \<Rightarrow> files_source" where
  "small_source ps = \<lparr>f_location = RemoteServer, f_server_id = Some 3, f_paths = ps, f_server = Some small_server\<rparr>"

text \<open>A server that answers every command, with rsync leaving the given tree for every path.\<close>

definition small_remote :: "entry option \<Rightarrow> remote_env" where
  "small_remote left = \<lparr>re_limits = \<lparr>sl_bytes = 100, sl_files = 10, sl_file_size = 50, sl_depth = 5\<rparr>,
     re_disk = (\<lambda>n k. Inr ()), re_timeout = (\<lambda>n k. Inr k), re_expired = (\<lambda>n. None), re_rsync = True,
     re_imports = (\<lambda>k p. True), re_connect = Connected (Some ''SHA256:aa''),
     re_transfer = (\<lambda>n args. \<lparr>tf_seen = [None], tf_end = ToolDone, tf_left = left\<rparr>),
     re_command = (\<lambda>n line. Ran 0 ''/usr/bin/rsync''),
     re_snapshot_name = (\<lambda>n. ''x''), re_cipher = demo_aead, re_material = ''/dev/shm/m'', re_root = ''/w'',
     re_stop = (\<lambda>n. None), re_archive_fault = (\<lambda>n. None)\<rparr>"

lemma remote_archive_within_limits_witness:
  "\<exists>ms meta s'. acquire_remote (small_remote (Some (DirEntry [(''b'', FileEntry 2 5), (''a'', FileEntry 1 3)])))
      (Some (small_source [\<lparr>bp_path = ''/srv/data'', bp_sqlite = False\<rparr>])) fresh_remote = (Inr (ms, meta, 8), s') \<and>
    map rm_name ms = [''sources'', ''sources/0'', ''sources/0/a'', ''sources/0/b''] \<and>
    list_all (\<lambda>m. ''..'' \<notin> set (pp_segments (pure_path (rm_name m)))) ms"
proof -
  let ?env = "small_remote (Some (DirEntry [(''b'', FileEntry 2 5), (''a'', FileEntry 1 3)]))"
  let ?source = "Some (small_source [\<lparr>bp_path = ''/srv/data'', bp_sqlite = False\<rparr>])"
  let ?ms = "[\<lparr>rm_name = ''sources'', rm_kind = DirMember, rm_size = 0\<rparr>, \<lparr>rm_name = ''sources/0'', rm_kind = DirMember, rm_size = 0\<rparr>,
    \<lparr>rm_name = ''sources/0/a'', rm_kind = FileMember, rm_size = 3\<rparr>, \<lparr>rm_name = ''sources/0/b'', rm_kind = FileMember, rm_size = 5\<rparr>]"
  let ?meta = "[(''kind'', JStr ''files''), (''verified'', JBool True)]"
  have r: "acquire_remote ?env ?source fresh_remote = (Inr (?ms, ?meta, 8), snd (acquire_remote ?env ?source fresh_remote))"
    by code_simp
  have l: "0 \<le> sl_bytes (re_limits ?env)" "0 \<le> sl_files (re_limits ?env)" by (simp_all add: small_remote_def)
  have n: "map rm_name ?ms = [''sources'', ''sources/0'', ''sources/0/a'', ''sources/0/b'']" by simp
  from remote_archive_within_limits [OF r l] have safe: "list_all (\<lambda>m. ''..'' \<notin> set (pp_segments (pure_path (rm_name m)))) ?ms"
    unfolding list_all_iff by blast
  show ?thesis by (intro exI conjI) (rule r, rule n, rule safe)
qed

end
