(* ===== verification/RemoteCommands.thy ===== *)
theory RemoteCommands
  imports RemoteArchives
begin

text \<open>
  Which commands a remote acquisition sends, and to whom; and three ways in which a remote source
  is not backed up as it should be.
\<close>

section \<open>Effects after effects that succeeded\<close>

context progress begin

lemma moves_bind_on:
  assumes "moves m" and "\<And>s a s'. m s = (Inr a, s') \<Longrightarrow> moves (f a)"
  shows "moves (bind_eff m f)"
proof -
  have "R s (snd (bind_eff m f s))" for s
  proof (cases "fst (m s)")
    case (Inl e)
    then show ?thesis using assms(1) by (cases "m s") (auto simp: bind_eff_def moves_def dest: spec [of _ s])
  next
    case (Inr a)
    then obtain s' where m: "m s = (Inr a, s')" by (cases "m s") auto
    from assms(2) [OF this] have "R s' (snd (f a s'))" by (simp add: moves_def)
    with moves_apply [OF assms(1) m] onwards show ?thesis by (auto simp: bind_eff_def m)
  qed
  then show ?thesis by (simp add: moves_def)
qed

end

section \<open>What is sent\<close>

text \<open>Only lines that satisfy a predicate are added to those sent.\<close>

definition sends_only :: "(string \<Rightarrow> bool) \<Rightarrow> remote_state \<Rightarrow> remote_state \<Rightarrow> bool" where
  "sends_only P s t \<longleftrightarrow> (\<exists>ls. rs_sent t = rs_sent s @ ls \<and> list_all P ls)"

interpretation sends: progress "sends_only P" for P
proof unfold_locales
  show "sends_only P s s" for s by (simp add: sends_only_def)
  show "sends_only P s u" if "sends_only P s t" "sends_only P t u" for s t u
    using that by (fastforce simp: sends_only_def)
qed

lemma sends_ask [simp]: "sends.moves P (ask f)"
  by (simp add: sends.moves_def ask_def sends_only_def)

lemma sends_disk [simp]: "sends.moves P (disk_check env k)"
  by (simp add: disk_check_def)

lemma sends_if_budget [simp]: "sends.moves P (if_budget b f)"
  by (auto simp: if_budget_def intro: sends.moves_cases)

lemma sends_commit [simp]: "sends.moves P (commit_budget env k n)"
  by (auto simp: sends.moves_def commit_budget_def sends_only_def split: sum.splits)

lemma sends_item [simp]: "sends.moves P (check_item env b x acc)"
  by (cases "(env, b, x, acc)" rule: check_item.cases) (auto intro!: sends.moves_bind)

lemma sends_items [simp]: "sends.moves P (check_items env b xs acc)"
  by (induction xs arbitrary: acc) (auto intro!: sends.moves_bind)

lemma sends_directory [simp]: "sends.moves P (check_directory env b depth cs acc)"
  unfolding check_directory_def by (intro sends.moves_rules) (auto intro!: sends.moves_cases)

lemma sends_below [simp]: "sends.moves P (walk_below env b depth cs acc)"
  by (induction env b depth cs acc rule: walk_below.induct) (auto intro!: sends.moves_bind)

lemma sends_walk [simp]: "sends.moves P (walk_download env b cs)"
  unfolding walk_download_def by (intro sends.moves_bind) auto

lemma sends_validate [simp]: "sends.moves P (validate_download env b commit at)"
  unfolding validate_download_def by (cases "resolved_entry at") (auto intro!: sends.moves_rules split: entry.splits)

lemma sends_put [simp]: "sends.moves P (write_eff (put_download name x))"
  by (simp add: sends.moves_def put_download_def sends_only_def)

lemma sends_run_rsync [simp]: "sends.moves P (run_rsync env b arguments name)"
  unfolding run_rsync_def monitor_download_def by (intro sends.moves_rules) auto

lemma sends_rsync_download [simp]: "sends.moves P (rsync_download env sv cred remote name b)"
  unfolding rsync_download_def by (intro sends.moves_rules) auto

lemma sends_command: "P line \<Longrightarrow> sends.moves P (send_command env check line)"
  unfolding send_command_def by (intro sends.moves_bind sends.moves_write) (auto simp: sends_only_def)

lemma sends_expired [simp]: "sends.moves P (deadline_check env)"
  by (simp add: deadline_check_def)

lemma sends_session [simp]: "sends.moves P (pinned_session env sv cred checked)"
  unfolding pinned_session_def
  by (intro sends.moves_bind) (auto intro!: sends.moves_bind sends.moves_cases split: connect_end.splits)

lemma sends_connection [simp]: "sends.moves P (open_connection env sv cred checked)"
  unfolding open_connection_def host_key_there_def by (intro sends.moves_bind) auto

lemma sends_rsync_check: "P ''command -v rsync'' \<Longrightarrow> sends.moves P (validate_remote_rsync env)"
  unfolding validate_remote_rsync_def Let_def
  by (intro sends.moves_bind sends.moves_catch sends_command) (auto intro!: sends.moves_bind split: prod.splits)

lemma sends_guard [simp]: "sends.moves P (archive_guard env)"
  by (auto simp: archive_guard_def intro!: sends.moves_bind)

lemma sends_member [simp]: "sends.moves P (add_remote_member env name kind sz inodes t)"
  by (auto simp: add_remote_member_def intro!: sends.moves_bind)

lemma sends_tar_entries [simp]: "sends.moves P (tar_entries env parent cs t)"
  by (induction env parent cs t rule: tar_entries.induct) (auto intro!: sends.moves_bind sends.moves_cases(2))

lemma sends_tar_download [simp]: "sends.moves P (tar_download env)"
proof -
  have "sends.moves P (\<lambda>s. bind_eff (add_remote_member env ''sources'' DirMember 0 [] ([], [])) (\<lambda>t.
     bind_eff (case in_order (DirEntry tree) of DirEntry cs \<Rightarrow> tar_entries env ''sources'' cs t | _ \<Rightarrow> done_eff t) (\<lambda>t.
       done_eff (snd t))) s)" for tree
    by (intro sends.moves_bind) auto
  then show ?thesis by (simp add: sends.moves_def tar_download_def)
qed

lemma sends_verify [simp]: "sends.moves P (verify_remote_tar env ms)"
  unfolding verify_remote_tar_def by (intro sends.moves_each sends.moves_bind) auto

text \<open>A connection is only opened to a server that shows the key its row holds.\<close>

lemma open_connection_pinned:
  "open_connection env sv cred checked s = (Inr u, s') \<Longrightarrow> re_connect env = Connected (Some (s_fingerprint sv))"
  by (auto simp: open_connection_def pinned_session_def host_key_there_def bind_eff_Inr split: connect_end.splits)

text \<open>The lines a source may cause, as the shell on the server reads them.\<close>

definition snapshot_copy :: "remote_env \<Rightarrow> nat \<Rightarrow> string" where
  "snapshot_copy env n = ''/tmp/backup-telebot-'' @ re_snapshot_name env n @ ''.sqlite''"

definition our_command :: "remote_env \<Rightarrow> backup_path list \<Rightarrow> string \<Rightarrow> bool" where
  "our_command env ps line \<longleftrightarrow> line = ''command -v rsync'' \<or>
     (\<exists>p n. p \<in> set ps \<and> bp_sqlite p \<and> (shell_words line = Some (sqlite_command (bp_path p) (snapshot_copy env n)) \<or>
        shell_words line = Some (remove_command (snapshot_copy env n))))"

lemma sends_snapshot:
  assumes "\<And>n. P (shlex_join (sqlite_command source (snapshot_copy env n)))" and "\<And>n. P (shlex_join (remove_command (snapshot_copy env n)))"
  shows "sends.moves P (remote_sqlite_snapshot env sv cred source name)"
  unfolding remote_sqlite_snapshot_def
proof (rule sends.moves_bind_on)
  fix s remote s'
  assume "ask (\<lambda>n. Inr (''/tmp/backup-telebot-'' @ re_snapshot_name env n @ ''.sqlite'')) s = (Inr remote, s')"
  then have "remote = snapshot_copy env (rs_tick s)" by (simp add: ask_def snapshot_copy_def)
  with assms have "P (shlex_join (sqlite_command source remote))" "P (shlex_join (remove_command remote))" by simp_all
  then show "sends.moves P (finally_eff
       (bind_eff (ask (\<lambda>n. re_timeout env n 3600)) (\<lambda>_.
        bind_eff (send_command env True (shlex_join (sqlite_command source remote))) (\<lambda>_.
        bind_eff (rsync_download env sv cred remote name True) (\<lambda>_. done_eff ()))))
       (catch_eff
         (bind_eff (ask (\<lambda>n. re_timeout env n 60)) (\<lambda>_.
          bind_eff (send_command env False (shlex_join (remove_command remote))) (\<lambda>_. done_eff ())))
         connection_error (\<lambda>_. done_eff ())))"
    by (intro sends.moves_finally sends.moves_catch sends.moves_bind sends_command) auto
qed simp

lemma validate_remote_path_Inr: "validate_remote_path v = Inr w \<Longrightarrow> w = v"
  by (auto simp: validate_remote_path_def Let_def split: if_splits)

lemma sends_fetch:
  assumes "p \<in> set ps" and "\<And>line. our_command env ps line \<Longrightarrow> P line"
  shows "sends.moves P (fetch_path env sv cred (n, p))"
  unfolding fetch_path_def
proof (rule sends.moves_bind_on)
  fix s remote s'
  assume "lift_eff (validate_remote_path (bp_path (snd (n, p)))) s = (Inr remote, s')"
  then have remote: "remote = bp_path p" by (simp add: validate_remote_path_Inr)
  have "sends.moves P (remote_sqlite_snapshot env sv cred remote name)" if "bp_sqlite p" for name
    using that assms(1) remote by (intro sends_snapshot assms(2)) (auto simp: our_command_def shell_words_join)
  then show "sends.moves P (if bp_sqlite (snd (n, p))
       then bind_eff (remote_sqlite_snapshot env sv cred remote (show_nat (fst (n, p)))) (\<lambda>_.
            bind_eff (read_eff (\<lambda>t. Inr (map_of (rs_tree t) (show_nat (fst (n, p)))))) (\<lambda>at.
            bind_eff (validate_download env False False at) (\<lambda>_. done_eff ())))
       else bind_eff (rsync_download env sv cred remote (show_nat (fst (n, p))) True) (\<lambda>_. done_eff ()))"
    by (auto intro!: sends.moves_bind)
qed simp

text \<open>
  The whole acquisition: the connection comes first, and without the pinned key nothing follows it.
\<close>

lemma sends_package:
  assumes "\<And>x sv line. enabled_remote source = Inr (x, sv) \<Longrightarrow> re_connect env = Connected (Some (s_fingerprint sv)) \<Longrightarrow>
    our_command env (f_paths x) line \<Longrightarrow> P line"
  shows "sends.moves P (package_remote env source)"
  unfolding package_remote_def
proof (rule sends.moves_bind_on)
  fix s y s'
  assume "lift_eff (enabled_remote source) s = (Inr y, s')"
  then obtain x sv where y: "y = (x, sv)" and e: "enabled_remote source = Inr (x, sv)" by (cases y) auto
  have "sends.moves P (bind_eff (open_connection env sv cred True) (\<lambda>_.
        bind_eff (validate_remote_rsync env) (\<lambda>_.
        bind_eff (each_eff (fetch_path env sv cred) (enumerate 0 (f_paths x))) (\<lambda>_.
        bind_eff (read_eff (\<lambda>t. Inr (sb_bytes (rs_budget t)))) (\<lambda>used.
        bind_eff (disk_check env (used + 4096)) (\<lambda>_.
        bind_eff (tar_download env) (\<lambda>ms.
        bind_eff (disk_check env 0) (\<lambda>_.
        read_eff (\<lambda>t. Inr (ms, sb_bytes (rs_budget t)))))))))))" for cred
  proof (rule sends.moves_bind_on)
    fix s u s'
    assume "open_connection env sv cred True s = (Inr u, s')"
    then have ours: "\<And>line. our_command env (f_paths x) line \<Longrightarrow> P line"
      using assms [OF e] open_connection_pinned by blast
    have "P ''command -v rsync''" by (rule ours) (simp add: our_command_def)
    moreover have "sends.moves P (fetch_path env sv cred item)" if "item \<in> set (enumerate 0 (f_paths x))" for item
    proof -
      have "snd item \<in> set (f_paths x)" using that by (metis imageI set_map map_snd_enumerate)
      from sends_fetch [of "snd item" "f_paths x", OF this] ours show ?thesis by (metis prod.collapse)
    qed
    ultimately show "sends.moves P (bind_eff (validate_remote_rsync env) (\<lambda>_.
        bind_eff (each_eff (fetch_path env sv cred) (enumerate 0 (f_paths x))) (\<lambda>_.
        bind_eff (read_eff (\<lambda>t. Inr (sb_bytes (rs_budget t)))) (\<lambda>used.
        bind_eff (disk_check env (used + 4096)) (\<lambda>_.
        bind_eff (tar_download env) (\<lambda>ms.
        bind_eff (disk_check env 0) (\<lambda>_.
        read_eff (\<lambda>t. Inr (ms, sb_bytes (rs_budget t))))))))))"
      by (intro sends.moves_bind sends.moves_each sends_rsync_check) auto
  qed simp
  then show "sends.moves P (case y of (x, s) \<Rightarrow>
     bind_eff (disk_check env 0) (\<lambda>_.
     bind_eff (lift_eff (ssh_credentials_of (re_cipher env) s)) (\<lambda>cred.
     catch_eff
       (bind_eff (open_connection env s cred True) (\<lambda>_.
        bind_eff (validate_remote_rsync env) (\<lambda>_.
        bind_eff (each_eff (fetch_path env s cred) (enumerate 0 (f_paths x))) (\<lambda>_.
        bind_eff (read_eff (\<lambda>t. Inr (sb_bytes (rs_budget t)))) (\<lambda>used.
        bind_eff (disk_check env (used + 4096)) (\<lambda>_.
        bind_eff (tar_download env) (\<lambda>ms.
        bind_eff (disk_check env 0) (\<lambda>_.
        read_eff (\<lambda>t. Inr (ms, sb_bytes (rs_budget t)))))))))))
       (\<lambda>e. e = connection_lost)
       (\<lambda>_. raise_eff (PipelineError ''SSH_CONNECTION_LOST'' ''SSH connection lost'')))))"
    by (auto simp: y intro!: sends.moves_bind [of _ "disk_check env 0"] sends.moves_bind [of _ "lift_eff _"] sends.moves_catch)
qed simp


text \<open>What one copied database costs the server in commands, when the copy cannot be fetched.\<close>

definition without_rsync :: remote_env where
  "without_rsync = (small_remote None)\<lparr>re_rsync := False\<rparr>"

lemma small_credentials:
  "ssh_credentials_of demo_aead small_server = Inr \<lparr>sc_host = ''10.0.0.5'', sc_port = 22, sc_username = ''backup'',
     sc_private_key = ''KEY'', sc_passphrase = None\<rparr>"
  by code_simp

lemma small_rsync:
  "strip ''/usr/bin/rsync'' = ''/usr/bin/rsync''" "pp_root (pure_path ''/usr/bin/rsync'') \<noteq> []"
  "''..'' \<notin> set (pp_segments (pure_path ''/usr/bin/rsync''))" "list_all (\<lambda>c. \<not> control_char c) ''/usr/bin/rsync''"
  "path_text (pure_path ''/usr/bin/rsync'') = ''/usr/bin/rsync''" "last_component ''/usr/bin/rsync'' = ''rsync''"
  by code_simp+

lemma small_check:
  "validate_remote_rsync without_rsync s =
     (Inr ''/usr/bin/rsync'', s\<lparr>rs_tick := rs_tick s + 2, rs_sent := rs_sent s @ [''command -v rsync'']\<rparr>)"
  using small_rsync(4)
  by (simp add: validate_remote_rsync_def bind_eff_def ask_def small_remote_def without_rsync_def send_command_def catch_eff_def
      small_rsync(1-3,5-6) Let_def)

lemma without_rsync_fields:
  "re_disk without_rsync n i = Inr ()" "re_timeout without_rsync n i = Inr i" "re_rsync without_rsync = False"
  "re_imports without_rsync key phrase = True" "re_connect without_rsync = Connected (Some (s_fingerprint small_server))"
  "re_command without_rsync n line = Ran 0 ''/usr/bin/rsync''" "re_cipher without_rsync = demo_aead"
  by (simp_all add: without_rsync_def small_remote_def small_server_def)

lemma small_copy:
  "validate_remote_path v = Inr v \<Longrightarrow> fetch_path without_rsync small_server cred (0, \<lparr>bp_path = v, bp_sqlite = True\<rparr>) s =
     (Inl (PipelineError ''REMOTE_RSYNC_UNAVAILABLE'' ''local rsync execution failed''),
      s\<lparr>rs_tick := rs_tick s + 5, rs_sent := rs_sent s @ [shlex_join (sqlite_command v (snapshot_copy without_rsync (rs_tick s))),
        shlex_join (remove_command (snapshot_copy without_rsync (rs_tick s)))]\<rparr>)"
  by (simp add: fetch_path_def remote_sqlite_snapshot_def bind_eff_def ask_def without_rsync_fields send_command_def finally_eff_def
      catch_eff_def rsync_download_def guard_eff_def snapshot_copy_def)

lemma sent_for_copy:
  assumes "validate_remote_path v = Inr v"
  shows "rs_sent (snd (acquire_remote without_rsync (Some (small_source [\<lparr>bp_path = v, bp_sqlite = True\<rparr>])) fresh_remote)) =
    [''command -v rsync'', shlex_join (sqlite_command v (snapshot_copy without_rsync 4)),
     shlex_join (remove_command (snapshot_copy without_rsync 4))]"
proof -
  have e: "enabled_remote (Some (small_source ps)) = Inr (small_source ps, small_server)" for ps
    by (simp add: enabled_remote_def small_source_def) (simp add: small_server_def)
  have f: "f_paths (small_source ps) = ps" for ps by (simp add: small_source_def)
  show ?thesis
    by (simp add: acquire_remote_def package_remote_def bind_eff_def catch_eff_def e f disk_check_def ask_def without_rsync_fields
        open_connection_def pinned_session_def host_key_there_def guard_eff_def small_credentials small_check small_copy [OF assms] fresh_remote_def connection_lost_def
        eval_nat_numeral)
qed


section \<open>Sources that are not backed up\<close>

text \<open>
  A path that is a link out of its directory, or a device, is left out by rsync, which then ends
  well: the backup succeeds and holds nothing but an empty directory.
\<close>

lemma skipped_link_is_an_empty_backup:
  "fst (acquire_remote (small_remote None) (Some (small_source [\<lparr>bp_path = ''/srv/data'', bp_sqlite = False\<rparr>])) fresh_remote) =
     Inr ([\<lparr>rm_name = ''sources'', rm_kind = DirMember, rm_size = 0\<rparr>], [(''kind'', JStr ''files''), (''verified'', JBool True)], 0)"
  by code_simp

text \<open>
  rsync keeps hard links, and the second name of a file becomes a link in the archive, which the
  check of the archive refuses: such a source is never backed up.
\<close>

lemma hard_links_are_refused:
  "fst (acquire_remote (small_remote (Some (DirEntry [(''a'', FileEntry 1 3), (''b'', FileEntry 1 3)])))
      (Some (small_source [\<lparr>bp_path = ''/srv/data'', bp_sqlite = False\<rparr>])) fresh_remote) =
     Inl (PipelineError ''UNSAFE_ARCHIVE'' ''source archive contains unsafe entries'')"
  by code_simp

text \<open>
  When the deadline of the run passes while a database is copied on the server, the time limit of
  the removal raises before the removal is sent, and the copy stays in the server's
  \<^verbatim>\<open>/tmp\<close>.
\<close>

lemma late_copy_stays_on_the_server:
  assumes late: "\<And>n. re_timeout env n 60 = Inl e" "\<not> connection_error e" and early: "\<And>n. re_timeout env n 3600 = Inr k"
  shows "rs_sent (snd (remote_sqlite_snapshot env sv cred source name s)) =
    rs_sent s @ [shlex_join (sqlite_command source (snapshot_copy env (rs_tick s)))]"
proof -
  have quiet: "rs_sent (snd (rsync_download env sv cred remote name True t)) = rs_sent t" for remote t
  proof -
    obtain r t' where d: "rsync_download env sv cred remote name True t = (r, t')" by fastforce
    have "sends_only (\<lambda>_. False) t t'" using sends.moves_apply [OF sends_rsync_download d] .
    then show ?thesis by (auto simp: sends_only_def list_all_iff d)
  qed
  obtain r t where send: "send_command env True (shlex_join (sqlite_command source (snapshot_copy env (rs_tick s))))
      (s\<lparr>rs_tick := Suc (Suc (rs_tick s))\<rparr>) = (r, t)" by fastforce
  then have t: "rs_sent t = rs_sent s @ [shlex_join (sqlite_command source (snapshot_copy env (rs_tick s)))]"
    by (auto simp: send_command_def bind_eff_def ask_def)
  show ?thesis
    using quiet [of "snapshot_copy env (rs_tick s)" t] send t
    by (cases r) (auto simp: remote_sqlite_snapshot_def bind_eff_def ask_def early late finally_eff_def catch_eff_def
        snapshot_copy_def split: prod.splits sum.splits)
qed

end
