(* ===== verification/Databases.thy ===== *)
theory Databases
  imports Effects Quoting Transforms Profiles
begin

text \<open>
  \<^verbatim>\<open>src/src/pipeline/acquisition/mysql.py\<close> and \<^verbatim>\<open>postgres.py\<close>: dumping a database with the client
  tools of its engine. The clients, the temporary directory and its faults are parameters; the
  files with the credentials, the arguments and the environment the clients are started with, and
  what is left afterwards are the code's.
\<close>

section \<open>The surroundings of a dump\<close>

text \<open>
  One launch of a tool: its arguments, the variables added to the environment, and the files there
  are when it starts.
\<close>

record launch =
  la_tool :: string
  la_args :: "string list"
  la_variables :: "(string \<times> string) list"
  la_files :: fs

record dump_state =
  du_tick :: nat
  du_files :: fs
  du_created :: "path list"
  du_launched :: "launch list"

type_synonym 'a dump = "(dump_state, exn, 'a) effect"

text \<open>
  Temporary files get names that are not in use; creating, writing and closing one may fail, the
  last two with the file left behind.
\<close>

record dump_env =
  de_process :: "nat \<Rightarrow> (string \<times> string) list \<Rightarrow> process_env"
  de_temp :: "nat \<Rightarrow> fs \<Rightarrow> path"
  de_open :: "nat \<Rightarrow> exn option"
  de_write :: "nat \<Rightarrow> exn option"
  de_close :: "nat \<Rightarrow> exn option"
  de_timeout :: "nat \<Rightarrow> int \<Rightarrow> int result"
  de_limit :: int
  de_clients :: path
  de_unresolved :: "nat \<Rightarrow> bool"

definition dump_ask :: "(nat \<Rightarrow> 'a result) \<Rightarrow> 'a dump" where
  "dump_ask f s = (f (du_tick s), s\<lparr>du_tick := du_tick s + 1\<rparr>)"

definition dump_fault :: "(nat \<Rightarrow> exn option) \<Rightarrow> unit dump" where
  "dump_fault f = dump_ask (\<lambda>n. case f n of None \<Rightarrow> Inr () | Some e \<Rightarrow> Inl e)"

definition put_file :: "path \<Rightarrow> bytes \<Rightarrow> unit dump" where
  "put_file p b = write_eff (\<lambda>s. s\<lparr>du_files := put_node p (RegularFile b) (du_files s)\<rparr>)"

text \<open>\<^verbatim>\<open>tempfile.NamedTemporaryFile(delete=False)\<close>, its \<^verbatim>\<open>write\<close> and the end of the \<^verbatim>\<open>with\<close> block.\<close>

definition open_temp :: "dump_env \<Rightarrow> path dump" where
  "open_temp env =
     bind_eff (dump_fault (de_open env)) (\<lambda>_ s.
       let p = de_temp env (du_tick s) (du_files s)
       in (Inr p, s\<lparr>du_files := put_node p (RegularFile []) (du_files s), du_created := du_created s @ [p]\<rparr>))"

definition write_temp :: "dump_env \<Rightarrow> path \<Rightarrow> string \<Rightarrow> unit dump" where
  "write_temp env p t = bind_eff (dump_fault (de_write env)) (\<lambda>_. put_file p (utf8 t))"

definition close_temp :: "dump_env \<Rightarrow> unit dump" where
  "close_temp env = dump_fault (de_close env)"

definition unlink_file :: "path \<Rightarrow> unit dump" where
  "unlink_file p = write_eff (\<lambda>s. s\<lparr>du_files := remove_node p (du_files s)\<rparr>)"

definition launch_tool ::
  "dump_env \<Rightarrow> (string \<times> string) list \<Rightarrow> string \<times> string list \<Rightarrow> int \<Rightarrow> path option \<Rightarrow> process_result dump" where
  "launch_tool env variables command limit stdout_path =
     bind_eff (dump_ask (\<lambda>n. de_timeout env n limit)) (\<lambda>timeout s.
       case run_process (de_process env (du_tick s) variables) command timeout None stdout_path False (du_files s) of
         (r, fs) \<Rightarrow> (r, s\<lparr>du_tick := du_tick s + 1, du_files := fs,
           du_launched := du_launched s @ [\<lparr>la_tool = fst command, la_args = snd command, la_variables = variables,
             la_files = du_files s\<rparr>]\<rparr>))"

definition target_size :: "path \<Rightarrow> int dump" where
  "target_size p = read_eff (\<lambda>s. case file_content (du_files s) p of
     None \<Rightarrow> Inl (OSError ''FileNotFoundError'') | Some b \<Rightarrow> Inr (int (length b)))"

section \<open>MySQL and MariaDB\<close>

datatype dump_flavor = MySQL | MariaDB

fun flavor_value :: "dump_flavor \<Rightarrow> string" where
  "flavor_value MySQL = ''mysql''"
| "flavor_value MariaDB = ''mariadb''"

type_synonym version = "nat \<times> nat \<times> nat"

record dump_client =
  dc_path :: path
  dc_flavor :: dump_flavor
  dc_version :: version

fun version_string :: "version \<Rightarrow> string" where
  "version_string (a, b, c) = show_nat a @ ''.'' @ show_nat b @ ''.'' @ show_nat c"

fun version_less :: "version \<Rightarrow> version \<Rightarrow> bool" where
  "version_less (a, b, c) (x, y, z) \<longleftrightarrow> a < x \<or> a = x \<and> (b < y \<or> b = y \<and> c < z)"

text \<open>\<^verbatim>\<open>\s+(\d+)\.(\d+)(?:\.(\d+))?\<close> at the beginning of a text, with \<^verbatim>\<open>int(patch or 0)\<close>.\<close>

definition read_version :: "string \<Rightarrow> version option" where
  "read_version t =
     (let r = dropWhile is_space t; major = takeWhile is_digit r; r1 = dropWhile is_digit r;
          minor = takeWhile is_digit (drop 1 r1); r2 = dropWhile is_digit (drop 1 r1);
          patch = (if take 1 r2 = ''.'' then takeWhile is_digit (drop 1 r2) else [])
      in if r = t \<or> major = [] \<or> take 1 r1 \<noteq> ''.'' \<or> minor = [] then None
         else Some (digits_value 0 major, digits_value 0 minor, digits_value 0 patch))"

text \<open>\<^verbatim>\<open>re.search\<close>: the leftmost place where one of the words is followed by a version.\<close>

fun find_version :: "string list \<Rightarrow> string \<Rightarrow> version option" where
  "find_version ws [] = None"
| "find_version ws (c # cs) =
     (case find (\<lambda>w. starts_with w (c # cs)) ws of
        Some w \<Rightarrow> (case read_version (drop (length w) (c # cs)) of Some v \<Rightarrow> Some v | None \<Rightarrow> find_version ws cs)
      | None \<Rightarrow> find_version ws cs)"

fun has_text :: "string \<Rightarrow> string \<Rightarrow> bool" where
  "has_text t [] \<longleftrightarrow> t = []"
| "has_text t (c # cs) \<longleftrightarrow> starts_with t (c # cs) \<or> has_text t cs"

definition parse_mysql_dump_client :: "path \<Rightarrow> string \<Rightarrow> dump_client result" where
  "parse_mysql_dump_client resolved out =
     (let lowered = map lower_char out; name = map lower_char (path_name resolved);
          checked = (\<lambda>flavor ws minimum. case find_version ws lowered of
              None \<Rightarrow> Inl (PipelineError ''MYSQL_CLIENT_VERSION_UNKNOWN''
                (''could not determine '' @ flavor_value flavor @ '' dump client version''))
            | Some v \<Rightarrow> if version_less v minimum
                then Inl (PipelineError ''MYSQL_CLIENT_UNSUPPORTED'' (flavor_value flavor @ '' dump client '' @
                  version_string v @ '' is unsupported; minimum is '' @ version_string minimum))
                else Inr \<lparr>dc_path = resolved, dc_flavor = flavor, dc_version = v\<rparr>)
      in if has_text ''mariadb'' lowered \<or> has_text ''mariadb'' name
         then checked MariaDB [''from'', ''distrib''] (10, 5, 0)
         else if has_text ''mysql'' lowered \<or> name = ''mysqldump''
         then checked MySQL [''distrib'', ''ver''] (5, 7, 11)
         else Inl (PipelineError ''MYSQL_CLIENT_UNRECOGNIZED'' (''unsupported database dump client: '' @ path_str resolved)))"

definition mysql_candidates :: "path list" where
  "mysql_candidates = [[''usr'', ''bin'', ''mysqldump''], [''usr'', ''bin'', ''mariadb-dump'']]"

definition detect_mysql_dump_client :: "dump_env \<Rightarrow> dump_client dump" where
  "detect_mysql_dump_client env =
     bind_eff (read_eff (\<lambda>s. case find (is_file (du_files s)) mysql_candidates of
         None \<Rightarrow> Inl (PipelineError ''MYSQL_CLIENT_MISSING'' ''mysqldump or mariadb-dump is not installed'')
       | Some p \<Rightarrow> Inr (resolve (du_files s) p))) (\<lambda>resolved.
     bind_eff (dump_ask (\<lambda>n. if de_unresolved env n
         then Inl (PipelineError ''MYSQL_CLIENT_MISSING'' ''database dump client cannot be resolved'') else Inr ())) (\<lambda>_.
     bind_eff (launch_tool env [] (path_str resolved, [''--version'']) 30 None) (\<lambda>r.
       lift_eff (parse_mysql_dump_client resolved
         (join_with [newline] (filter (\<lambda>part. part \<noteq> []) [pr_stdout r, pr_stderr r]))))))"

fun mysql_ssl_mode :: "tls_mode \<Rightarrow> string" where
  "mysql_ssl_mode TLS_Disabled = ''DISABLED''"
| "mysql_ssl_mode TLS_Preferred = ''PREFERRED''"
| "mysql_ssl_mode TLS_Required = ''REQUIRED''"
| "mysql_ssl_mode TLS_VerifyCA = ''VERIFY_CA''"
| "mysql_ssl_mode TLS_VerifyFull = ''VERIFY_IDENTITY''"

definition mysql_tls_options :: "dump_flavor \<Rightarrow> tls_mode \<Rightarrow> path option \<Rightarrow> (string \<times> string) list result" where
  "mysql_tls_options flavor mode ca =
     (if mode \<in> {TLS_VerifyCA, TLS_VerifyFull} \<and> ca = None
      then Inl (PipelineError ''MYSQL_TLS_CA_MISSING'' ''certificate verification requires a CA file'')
      else if flavor = MySQL
      then Inr ((''ssl-mode'', mysql_ssl_mode mode) # (case ca of None \<Rightarrow> [] | Some p \<Rightarrow> [(''ssl-ca'', path_str p)]))
      else if mode = TLS_Disabled then Inr [(''ssl'', ''0''), (''ssl-verify-server-cert'', ''0'')]
      else if mode \<in> {TLS_Preferred, TLS_Required} then Inr [(''ssl'', ''1''), (''ssl-verify-server-cert'', ''0'')]
      else Inr [(''ssl'', ''1''), (''ssl-ca'', path_str (the ca)), (''ssl-verify-server-cert'', ''1'')])"

definition mysql_dump_arguments :: "path \<Rightarrow> string \<Rightarrow> string list" where
  "mysql_dump_arguments config database_name =
     [''--defaults-extra-file='' @ path_str config, ''--single-transaction'', ''--skip-lock-tables'', ''--quick'',
      ''--routines'', ''--events'', ''--triggers'', ''--hex-blob'', ''--databases'', database_name]"

definition mysql_credentials :: "database_source \<Rightarrow> string \<Rightarrow> (string \<times> string) list" where
  "mysql_credentials source password =
     [(''host'', d_host source), (''port'', show_int (d_port source)), (''user'', d_username source), (''password'', password)]"

text \<open>
  The certificate in a file of its own, for as long as the rest takes. It is known to the
  \<^verbatim>\<open>finally\<close> clause from the moment it is written.
\<close>

definition with_certificate :: "dump_env \<Rightarrow> string option \<Rightarrow> (path option \<Rightarrow> 'a dump) \<Rightarrow> 'a dump" where
  "with_certificate env certificate k =
     (if given certificate
      then bind_eff (open_temp env) (\<lambda>p. bind_eff (write_temp env p (the certificate)) (\<lambda>_.
             finally_eff (bind_eff (close_temp env) (\<lambda>_. k (Some p))) (unlink_file p)))
      else k None)"

definition dump_failed :: "dump_client \<Rightarrow> exn" where
  "dump_failed client = PipelineError ''MYSQL_DUMP_FAILED'' (flavor_value (dc_flavor client) @ '' dump client '' @
     version_string (dc_version client) @ '' failed; verify client/server compatibility and privileges'')"

fun is_pipeline_error :: "exn \<Rightarrow> bool" where
  "is_pipeline_error (PipelineError code msg) = True"
| "is_pipeline_error _ = False"

definition mysql_run :: "dump_env \<Rightarrow> database_source \<Rightarrow> path \<Rightarrow> string \<Rightarrow> dump_client \<Rightarrow> path option \<Rightarrow> unit dump" where
  "mysql_run env source target password client ca =
     bind_eff (open_temp env) (\<lambda>config.
     finally_eff
       (bind_eff (lift_eff (mysql_tls_options (dc_flavor client) (d_tls source) ca)) (\<lambda>tls.
        bind_eff (write_temp env config (mysql_option_file (mysql_credentials source password @ tls))) (\<lambda>_.
        bind_eff (close_temp env) (\<lambda>_.
        catch_eff
          (bind_eff (launch_tool env [] (path_str (dc_path client), mysql_dump_arguments config (d_name source))
             (de_limit env) (Some target)) (\<lambda>_. done_eff ()))
          is_pipeline_error (\<lambda>_. raise_eff (dump_failed client))))))
       (unlink_file config))"

definition mysql_dump :: "dump_env \<Rightarrow> database_source \<Rightarrow> path \<Rightarrow> string \<Rightarrow> (string \<times> json) list dump" where
  "mysql_dump env source target password =
     bind_eff (detect_mysql_dump_client env) (\<lambda>client.
     bind_eff (with_certificate env (d_tls_ca source) (mysql_run env source target password client)) (\<lambda>_.
     bind_eff (target_size target) (\<lambda>sz.
     bind_eff (guard_eff (sz \<noteq> 0) (PipelineError ''EMPTY_BACKUP'' ''database dump is empty'')) (\<lambda>_.
       done_eff [(''engine'', JStr ''mysql-mariadb''), (''client_flavor'', JStr (flavor_value (dc_flavor client))),
         (''client_version'', JStr (version_string (dc_version client))), (''definers_preserved'', JBool True)]))))"

section \<open>PostgreSQL\<close>

fun pg_sslmode :: "tls_mode \<Rightarrow> string" where
  "pg_sslmode TLS_Disabled = ''disable''"
| "pg_sslmode TLS_Preferred = ''prefer''"
| "pg_sslmode TLS_Required = ''require''"
| "pg_sslmode TLS_VerifyCA = ''verify-ca''"
| "pg_sslmode TLS_VerifyFull = ''verify-full''"

definition pgpass_line :: "database_source \<Rightarrow> string \<Rightarrow> string result" where
  "pgpass_line source password =
     bind_result (pgpass_field (d_host source)) (\<lambda>host.
     bind_result (pgpass_field (d_name source)) (\<lambda>name.
     bind_result (pgpass_field (d_username source)) (\<lambda>user.
     bind_result (pgpass_field password) (\<lambda>pw.
       Inr (join_with '':'' [host, show_int (d_port source), name, user, pw])))))"

text \<open>The password file and, where there is one, the certificate: written before the \<^verbatim>\<open>try\<close> block.\<close>

definition written_temp :: "dump_env \<Rightarrow> string \<Rightarrow> path dump" where
  "written_temp env t = bind_eff (open_temp env) (\<lambda>p. bind_eff (write_temp env p t) (\<lambda>_.
     bind_eff (close_temp env) (\<lambda>_. done_eff p)))"

definition pg_variables :: "database_source \<Rightarrow> path \<Rightarrow> path option \<Rightarrow> (string \<times> string) list" where
  "pg_variables source pgpass ca =
     [(''PGPASSFILE'', path_str pgpass), (''PGSSLMODE'', pg_sslmode (d_tls source))] @
     (case ca of None \<Rightarrow> [] | Some p \<Rightarrow> [(''PGSSLROOTCERT'', path_str p)])"

definition psql_arguments :: "database_source \<Rightarrow> string list" where
  "psql_arguments source = [''-X'', ''-A'', ''-t'', ''-h'', d_host source, ''-p'', show_int (d_port source), ''-U'', d_username source,
     ''-d'', d_name source, ''-c'', ''SHOW server_version_num'']"

definition pg_dump_arguments :: "database_source \<Rightarrow> path \<Rightarrow> string list" where
  "pg_dump_arguments source target = [''--format=custom'', ''--compress=0'', ''--no-password'', ''--host'', d_host source,
     ''--port'', show_int (d_port source), ''--username'', d_username source, ''--file'', path_str target, d_name source]"

definition pg_client :: "dump_env \<Rightarrow> int \<Rightarrow> string \<Rightarrow> path" where
  "pg_client env major name = de_clients env @ [show_int major, ''bin'', name]"

definition postgres_run :: "dump_env \<Rightarrow> database_source \<Rightarrow> path \<Rightarrow> (string \<times> string) list \<Rightarrow> (string \<times> json) list dump" where
  "postgres_run env source target variables =
     bind_eff (launch_tool env variables (''/usr/bin/psql'', psql_arguments source) (de_limit env) None) (\<lambda>probe.
     bind_eff (lift_eff (py_int (strip (pr_stdout probe)))) (\<lambda>number.
     let major = number div 10000; dump = pg_client env major ''pg_dump''; restore = pg_client env major ''pg_restore''
     in bind_eff (read_eff (\<lambda>s. if is_file (du_files s) dump \<and> is_file (du_files s) restore then Inr ()
            else Inl (PipelineError ''PG_CLIENT_MISSING'' (''PostgreSQL '' @ show_int major @ '' client is not installed'')))) (\<lambda>_.
        bind_eff (launch_tool env variables (path_str dump, pg_dump_arguments source target) (de_limit env) None) (\<lambda>_.
        bind_eff (launch_tool env [] (path_str restore, [''--list'', path_str target]) (de_limit env) None) (\<lambda>_.
          done_eff [(''engine'', JStr ''postgresql''), (''server_major'', JInt major), (''native_compression'', JBool False)])))))"

definition postgres_dump :: "dump_env \<Rightarrow> database_source \<Rightarrow> path \<Rightarrow> string \<Rightarrow> (string \<times> json) list dump" where
  "postgres_dump env source target password =
     bind_eff (lift_eff (pgpass_line source password)) (\<lambda>line.
     bind_eff (written_temp env (line @ [newline])) (\<lambda>pgpass.
     bind_eff (if given (d_tls_ca source)
         then bind_eff (written_temp env (the (d_tls_ca source))) (\<lambda>p. done_eff (Some p)) else done_eff None) (\<lambda>ca.
     finally_eff (postgres_run env source target (pg_variables source pgpass ca))
       (bind_eff (unlink_file pgpass) (\<lambda>_. case ca of None \<Rightarrow> done_eff () | Some p \<Rightarrow> unlink_file p)))))"

end
