(* ===== verification/DatabaseDumps.thy ===== *)
theory DatabaseDumps
  imports Databases
begin

text \<open>
  What the clients of a database are started with: the credentials and the TLS settings of the
  source, in files that read back as they were meant, and nothing secret in the arguments. And
  what is left of these files, however a dump ends.
\<close>

section \<open>Launches\<close>

definition start_dump :: "fs \<Rightarrow> dump_state" where
  "start_dump fs = \<lparr>du_tick = 0, du_files = fs, du_created = [], du_launched = []\<rparr>"

text \<open>The documented behaviour of \<^verbatim>\<open>mkstemp\<close>: a name that is not in use.\<close>

definition new_names :: "dump_env \<Rightarrow> bool" where
  "new_names env \<longleftrightarrow> (\<forall>n fs. node_at fs (de_temp env n fs) = None)"

definition launches_ok :: "(launch \<Rightarrow> bool) \<Rightarrow> dump_state \<Rightarrow> bool" where
  "launches_ok L s \<longleftrightarrow> list_all L (du_launched s)"

definition holds_text :: "dump_state \<Rightarrow> path \<Rightarrow> string \<Rightarrow> bool" where
  "holds_text s p t \<longleftrightarrow> node_at (du_files s) p = Some (RegularFile (utf8 t))"

text \<open>What each step keeps: assertions that do not look at the clock.\<close>

definition untimed :: "(dump_state \<Rightarrow> bool) \<Rightarrow> bool" where
  "untimed P \<longleftrightarrow> (\<forall>s n. P (s\<lparr>du_tick := n\<rparr>) = P s)"

lemma untimedI: "(\<And>s n. P (s\<lparr>du_tick := n\<rparr>) = P s) \<Longrightarrow> untimed P"
  by (simp add: untimed_def)

lemma ensures_ask:
  "untimed P \<Longrightarrow> (\<And>s. P s \<Longrightarrow> E s) \<Longrightarrow> (\<And>s a. P s \<Longrightarrow> Q a s) \<Longrightarrow> ensures P (dump_ask f) E Q"
  by (fastforce simp: ensures_def dump_ask_def untimed_def split: sum.splits)

lemma keeps_ask: "untimed P \<Longrightarrow> keeps P (dump_ask f)"
  unfolding keeps_def by (rule ensures_ask)

lemma ensures_fault: "untimed P \<Longrightarrow> (\<And>s. P s \<Longrightarrow> E s) \<Longrightarrow> ensures P (dump_fault f) E (\<lambda>_. P)"
  unfolding dump_fault_def by (rule ensures_ask)

lemma ensures_open:
  assumes "untimed P" and "\<And>s. P s \<Longrightarrow> E s"
    and q: "\<And>s n. P s \<Longrightarrow> Q (de_temp env n (du_files s)) (s\<lparr>du_files := put_node (de_temp env n (du_files s)) (RegularFile []) (du_files s),
      du_created := du_created s @ [de_temp env n (du_files s)]\<rparr>)"
  shows "ensures P (open_temp env) E Q"
  unfolding open_temp_def
proof (rule ensures_bind)
  show "ensures P (dump_fault (de_open env)) E (\<lambda>_. P)" by (rule ensures_fault) (use assms in auto)
  show "ensures P (\<lambda>s. let p = de_temp env (du_tick s) (du_files s)
       in (Inr p, s\<lparr>du_files := put_node p (RegularFile []) (du_files s), du_created := du_created s @ [p]\<rparr>)) E Q"
    using q by (simp add: ensures_def Let_def)
qed

lemma ensures_write_temp:
  assumes "untimed P" and "\<And>s. P s \<Longrightarrow> E s"
    and "\<And>s. P s \<Longrightarrow> Q (s\<lparr>du_files := put_node p (RegularFile (utf8 t)) (du_files s)\<rparr>)"
  shows "ensures P (write_temp env p t) E (\<lambda>_. Q)"
  unfolding write_temp_def put_file_def
  by (rule ensures_bind [OF ensures_fault]) (use assms in \<open>auto intro: ensures_pure\<close>)

lemma ensures_launch:
  assumes p: "untimed P" "\<And>s. P s \<Longrightarrow> launches_ok L s"
    and l: "\<And>s. P s \<Longrightarrow> L \<lparr>la_tool = fst command, la_args = snd command, la_variables = variables, la_files = du_files s\<rparr>"
  shows "ensures P (launch_tool env variables command limit stdout_path) (launches_ok L) (\<lambda>_. launches_ok L)"
  unfolding launch_tool_def
proof (rule ensures_bind)
  show "ensures P (dump_ask (\<lambda>n. de_timeout env n limit)) (launches_ok L) (\<lambda>_. P)" by (rule ensures_ask) (use p in auto)
  show "ensures P (\<lambda>s. case run_process (de_process env (du_tick s) variables) command timeout None stdout_path False (du_files s) of
         (r, fs) \<Rightarrow> (r, s\<lparr>du_tick := du_tick s + 1, du_files := fs,
           du_launched := du_launched s @ [\<lparr>la_tool = fst command, la_args = snd command, la_variables = variables,
             la_files = du_files s\<rparr>]\<rparr>)) (launches_ok L) (\<lambda>_. launches_ok L)" for timeout
    using p(2) l by (fastforce simp: ensures_def launches_ok_def split: prod.splits sum.splits)
qed

lemma untimed_launches [simp]: "untimed (launches_ok L)"
  by (simp add: untimed_def launches_ok_def)

section \<open>MySQL and MariaDB\<close>

text \<open>
  A launch of the client: the question for its version, or the dump, which reads the credentials
  and the TLS settings from the file it is pointed to, and the certificate from the file named
  there.
\<close>

definition mysql_launch :: "database_source \<Rightarrow> string \<Rightarrow> launch \<Rightarrow> bool" where
  "mysql_launch source password l \<longleftrightarrow> la_variables l = [] \<and> (la_args l = [''--version''] \<or>
     (\<exists>config flavor ca tls b t. la_args l = mysql_dump_arguments config (d_name source) \<and>
        node_at (la_files l) config = Some (RegularFile b) \<and> utf8_decode b = Inr t \<and>
        read_option_file t = Some (mysql_credentials source password @ tls) \<and>
        mysql_tls_options flavor (d_tls source) ca = Inr tls \<and>
        (\<forall>p. ca = Some p \<longrightarrow> node_at (la_files l) p = Some (RegularFile (utf8 (the (d_tls_ca source)))))))"

lemma mysql_options_read:
  assumes "mysql_tls_options flavor mode ca = Inr tls"
  shows "read_option_file (mysql_option_file (mysql_credentials source password @ tls)) = Some (mysql_credentials source password @ tls)"
proof (rule option_file_reads_back)
  show "\<forall>(key, v) \<in> set (mysql_credentials source password @ tls). option_key key"
    using assms by (auto simp: mysql_credentials_def mysql_tls_options_def option_key_def newline_def split: if_splits option.splits)
qed

definition certificate_there :: "database_source \<Rightarrow> path option \<Rightarrow> dump_state \<Rightarrow> bool" where
  "certificate_there source ca s \<longleftrightarrow> (\<forall>p. ca = Some p \<longrightarrow> holds_text s p (the (d_tls_ca source)))"

lemma keeps_launch:
  "(\<And>fs. L \<lparr>la_tool = fst command, la_args = snd command, la_variables = variables, la_files = fs\<rparr>) \<Longrightarrow>
     keeps (launches_ok L) (launch_tool env variables command limit stdout_path)"
  unfolding keeps_def by (rule ensures_launch) auto

lemma mysql_detect_launches: "keeps (launches_ok (mysql_launch source password)) (detect_mysql_dump_client env)"
  unfolding detect_mysql_dump_client_def
  by (intro keeps_then keeps_pure keeps_ask keeps_launch) (auto simp: mysql_launch_def)

lemma mysql_run_launches:
  assumes new: "new_names env"
  shows "ensures (\<lambda>s. launches_ok (mysql_launch source password) s \<and> certificate_there source ca s)
    (mysql_run env source target password client ca) (launches_ok (mysql_launch source password))
    (\<lambda>_. launches_ok (mysql_launch source password))"
  unfolding mysql_run_def
proof (rule ensures_bind)
  let ?I = "launches_ok (mysql_launch source password)"
  let ?P = "\<lambda>s. ?I s \<and> certificate_there source ca s"
  let ?Q = "\<lambda>config s. ?P s \<and> ca \<noteq> Some config"
  show "ensures ?P (open_temp env) ?I ?Q"
  proof (rule ensures_open)
    show "untimed ?P" by (simp add: untimed_def launches_ok_def certificate_there_def holds_text_def)
    show "?Q (de_temp env n (du_files s)) (s\<lparr>du_files := put_node (de_temp env n (du_files s)) (RegularFile []) (du_files s),
      du_created := du_created s @ [de_temp env n (du_files s)]\<rparr>)" if "?P s" for s n
      using that new by (auto simp: launches_ok_def certificate_there_def holds_text_def new_names_def)
  qed simp
  fix config
  show "ensures (?Q config) (finally_eff
       (bind_eff (lift_eff (mysql_tls_options (dc_flavor client) (d_tls source) ca)) (\<lambda>tls.
        bind_eff (write_temp env config (mysql_option_file (mysql_credentials source password @ tls))) (\<lambda>_.
        bind_eff (close_temp env) (\<lambda>_.
        catch_eff
          (bind_eff (launch_tool env [] (path_str (dc_path client), mysql_dump_arguments config (d_name source))
             (de_limit env) (Some target)) (\<lambda>_. done_eff ()))
          is_pipeline_error (\<lambda>_. raise_eff (dump_failed client))))))
       (unlink_file config)) ?I (\<lambda>_. ?I)"
  proof (rule ensures_finally)
    show "ensures ?I (unlink_file config) ?I (\<lambda>_. ?I)" "ensures ?I (unlink_file config) ?I (\<lambda>_. ?I)"
      unfolding unlink_file_def by (rule ensures_pure, simp add: launches_ok_def)+
    show "ensures (?Q config) (bind_eff (lift_eff (mysql_tls_options (dc_flavor client) (d_tls source) ca)) (\<lambda>tls.
        bind_eff (write_temp env config (mysql_option_file (mysql_credentials source password @ tls))) (\<lambda>_.
        bind_eff (close_temp env) (\<lambda>_.
        catch_eff
          (bind_eff (launch_tool env [] (path_str (dc_path client), mysql_dump_arguments config (d_name source))
             (de_limit env) (Some target)) (\<lambda>_. done_eff ()))
          is_pipeline_error (\<lambda>_. raise_eff (dump_failed client)))))) ?I (\<lambda>_. ?I)"
    proof (rule ensures_bind)
      let ?R = "\<lambda>tls s. ?Q config s \<and> mysql_tls_options (dc_flavor client) (d_tls source) ca = Inr tls"
      show "ensures (?Q config) (lift_eff (mysql_tls_options (dc_flavor client) (d_tls source) ca)) ?I ?R"
        by (rule ensures_pure) simp_all
      fix tls
      let ?t = "mysql_option_file (mysql_credentials source password @ tls)"
      let ?S = "\<lambda>s. ?R tls s \<and> holds_text s config ?t"
      have S: "untimed ?S" by (simp add: untimed_def launches_ok_def certificate_there_def holds_text_def)
      show "ensures (?R tls) (bind_eff (write_temp env config ?t) (\<lambda>_.
        bind_eff (close_temp env) (\<lambda>_.
        catch_eff
          (bind_eff (launch_tool env [] (path_str (dc_path client), mysql_dump_arguments config (d_name source))
             (de_limit env) (Some target)) (\<lambda>_. done_eff ()))
          is_pipeline_error (\<lambda>_. raise_eff (dump_failed client))))) ?I (\<lambda>_. ?I)"
      proof (intro ensures_bind ensures_catch)
        show "ensures (?R tls) (write_temp env config ?t) ?I (\<lambda>_. ?S)"
        proof (rule ensures_write_temp)
          show "untimed (?R tls)" by (simp add: untimed_def launches_ok_def certificate_there_def holds_text_def)
        qed (auto simp: launches_ok_def certificate_there_def holds_text_def)
        show "ensures ?S (close_temp env) ?I (\<lambda>_. ?S)"
          unfolding close_temp_def by (rule ensures_fault [OF S]) simp
        show "ensures ?S (launch_tool env [] (path_str (dc_path client), mysql_dump_arguments config (d_name source))
             (de_limit env) (Some target)) ?I (\<lambda>_. ?I)"
        proof (rule ensures_launch [OF S])
          fix s assume s: "?S s"
          then show "?I s" by simp
          from s have tls: "mysql_tls_options (dc_flavor client) (d_tls source) ca = Inr tls" by simp
          from s mysql_options_read [OF tls] tls
          show "mysql_launch source password \<lparr>la_tool = fst (path_str (dc_path client), mysql_dump_arguments config (d_name source)),
              la_args = snd (path_str (dc_path client), mysql_dump_arguments config (d_name source)), la_variables = [],
              la_files = du_files s\<rparr>"
            unfolding mysql_launch_def
            by (intro conjI disjI2 exI [of _ config] exI [of _ "dc_flavor client"] exI [of _ ca] exI [of _ tls] exI [of _ "utf8 ?t"] exI [of _ ?t])
              (simp_all add: holds_text_def certificate_there_def utf8_round_trip)
        qed
      qed (rule ensures_pure; simp)+
    qed
  qed
qed

lemma mysql_certificate_launches:
  assumes new: "new_names env"
  shows "keeps (launches_ok (mysql_launch source password))
    (with_certificate env (d_tls_ca source) (mysql_run env source target password client))"
proof (cases "given (d_tls_ca source)")
  case False
  then show ?thesis
    using mysql_run_launches [OF new, of source password None target client]
    by (simp add: with_certificate_def keeps_def certificate_there_def)
next
  case True
  let ?I = "launches_ok (mysql_launch source password)" and ?t = "the (d_tls_ca source)"
  have "ensures ?I (bind_eff (open_temp env) (\<lambda>p. bind_eff (write_temp env p ?t) (\<lambda>_.
      finally_eff (bind_eff (close_temp env) (\<lambda>_. mysql_run env source target password client (Some p))) (unlink_file p))))
    ?I (\<lambda>_. ?I)"
  proof (intro ensures_bind ensures_finally)
    show "ensures ?I (open_temp env) ?I (\<lambda>_. ?I)"
      by (rule ensures_open) (auto simp: launches_ok_def)
    fix p
    let ?C = "\<lambda>s. ?I s \<and> certificate_there source (Some p) s"
    show "ensures ?I (write_temp env p ?t) ?I (\<lambda>_. ?C)"
      by (rule ensures_write_temp) (auto simp: launches_ok_def certificate_there_def holds_text_def)
    show "ensures ?C (close_temp env) ?I (\<lambda>_. ?C)"
      unfolding close_temp_def
      by (rule ensures_fault) (simp_all add: untimed_def launches_ok_def certificate_there_def holds_text_def)
    show "ensures ?C (mysql_run env source target password client (Some p)) ?I (\<lambda>_. ?I)"
      by (rule mysql_run_launches [OF new])
    show "ensures ?I (unlink_file p) ?I (\<lambda>_. ?I)" "ensures ?I (unlink_file p) ?I (\<lambda>_. ?I)"
      unfolding unlink_file_def by (rule ensures_pure, simp add: launches_ok_def)+
  qed
  with True show ?thesis by (simp add: with_certificate_def keeps_def)
qed

lemma mysql_dump_launches: "new_names env \<Longrightarrow> keeps (launches_ok (mysql_launch source password)) (mysql_dump env source target password)"
  unfolding mysql_dump_def target_size_def
  by (intro keeps_then keeps_pure mysql_detect_launches mysql_certificate_launches)

section \<open>PostgreSQL\<close>

text \<open>
  A launch of a PostgreSQL tool: \<^verbatim>\<open>pg_restore\<close>, which only lists the dump, or a tool that connects:
  its password is found by the fields of the one line of the file it is pointed to.
\<close>

definition postgres_launch :: "database_source \<Rightarrow> string \<Rightarrow> path \<Rightarrow> launch \<Rightarrow> bool" where
  "postgres_launch source password target l \<longleftrightarrow>
     la_variables l = [] \<and> la_args l = [''--list'', path_str target] \<or>
     (\<exists>pgpass ca b line. la_variables l = pg_variables source pgpass ca \<and>
        la_args l \<in> {psql_arguments source, pg_dump_arguments source target} \<and>
        node_at (la_files l) pgpass = Some (RegularFile b) \<and> utf8_decode b = Inr (line @ [newline]) \<and>
        pgpass_fields [] line = [d_host source, show_int (d_port source), d_name source, d_username source, password] \<and>
        (ca \<noteq> None \<longleftrightarrow> given (d_tls_ca source)) \<and>
        (\<forall>p. ca = Some p \<longrightarrow> node_at (la_files l) p = Some (RegularFile (utf8 (the (d_tls_ca source))))))"

text \<open>The documented behaviour of \<^verbatim>\<open>psql\<close> here: it only reads files.\<close>

definition psql_only_reads :: "dump_env \<Rightarrow> bool" where
  "psql_only_reads env \<longleftrightarrow> (\<forall>n variables args fs.
     tr_after (pe_tool (de_process env n variables) ''/usr/bin/psql'' args None fs) = fs)"

lemma run_process_leaves:
  assumes "run_process env command timeout None None False fs = (Inr r, fs')"
  shows "fs' = tr_after (pe_tool env (fst command) (snd command) None fs)"
  using assms
  by (auto simp: run_process_def bind_fs_def check_fs_def supervise_def output_to_def Let_def
      split: sum.splits prod.splits option.splits if_splits)

lemma show_nat_plain: "concat (map pg_escaped (show_nat n)) = show_nat n"
proof -
  have "concat (map pg_escaped t) = t" if "list_all is_digit t" for t
    using that by (induction t) (auto simp: pg_escaped_def backslash_def is_digit_def)
  then show ?thesis using show_nat_digits [of n 0] by blast
qed

lemma minus_plain: "pg_escaped (CHR ''-'') = ''-''"
  by (simp add: pg_escaped_def backslash_def)

lemma pgpass_line_fields:
  assumes "pgpass_line source password = Inr line"
  shows "pgpass_fields [] line = [d_host source, show_int (d_port source), d_name source, d_username source, password]"
proof -
  let ?fields = "[d_host source, show_int (d_port source), d_name source, d_username source, password]"
  from assms have "line = join_with '':'' (map (\<lambda>f. concat (map pg_escaped f)) ?fields)"
    by (auto simp: pgpass_line_def bind_result_Inr show_nat_plain minus_plain dest!: pgpass_field_escaped)
  with pgpass_line_read [of ?fields] show ?thesis by simp
qed

lemma written_temp_ensures:
  assumes "untimed P" and "\<And>s. P s \<Longrightarrow> E s"
    and q: "\<And>s n. P s \<Longrightarrow> Q (de_temp env n (du_files s)) (s\<lparr>du_files := put_node (de_temp env n (du_files s)) (RegularFile []) (du_files s),
      du_created := du_created s @ [de_temp env n (du_files s)]\<rparr>)"
    and w: "\<And>p s. Q p s \<Longrightarrow> W p (s\<lparr>du_files := put_node p (RegularFile (utf8 t)) (du_files s)\<rparr>)"
    and u: "\<And>p. untimed (Q p)" "\<And>p. untimed (W p)" and e: "\<And>p s. Q p s \<Longrightarrow> E s" "\<And>p s. W p s \<Longrightarrow> E s"
  shows "ensures P (written_temp env t) E W"
  unfolding written_temp_def close_temp_def
proof (intro ensures_bind)
  show "ensures P (open_temp env) E Q" by (rule ensures_open) (use assms in auto)
  show "ensures (Q p) (write_temp env p t) E (\<lambda>_. W p)" for p
    by (rule ensures_write_temp [OF u(1)]) (use e w in auto)
  show "ensures (W p) (dump_fault (de_close env)) E (\<lambda>_. W p)" for p
    by (rule ensures_fault [OF u(2)]) (use e in auto)
  show "ensures (W p) (done_eff p) E W" for p by (rule ensures_pure) simp
qed

definition pg_files :: "database_source \<Rightarrow> string \<Rightarrow> path \<Rightarrow> path option \<Rightarrow> dump_state \<Rightarrow> bool" where
  "pg_files source line pgpass ca s \<longleftrightarrow> holds_text s pgpass (line @ [newline]) \<and> (ca \<noteq> None \<longleftrightarrow> given (d_tls_ca source)) \<and>
     certificate_there source ca s"

lemma untimed_pg [simp]: "untimed (\<lambda>s. launches_ok L s \<and> pg_files source line pgpass ca s)"
  by (simp add: untimed_def launches_ok_def pg_files_def holds_text_def certificate_there_def)

lemma postgres_run_launches:
  assumes psql: "psql_only_reads env" and line: "pgpass_line source password = Inr line"
  shows "ensures (\<lambda>s. launches_ok (postgres_launch source password target) s \<and> pg_files source line pgpass ca s)
    (postgres_run env source target (pg_variables source pgpass ca)) (launches_ok (postgres_launch source password target))
    (\<lambda>_. launches_ok (postgres_launch source password target))"
proof -
  let ?I = "launches_ok (postgres_launch source password target)"
  let ?P = "\<lambda>s. ?I s \<and> pg_files source line pgpass ca s"
  let ?v = "pg_variables source pgpass ca"
  have connect: "postgres_launch source password target \<lparr>la_tool = tool, la_args = args, la_variables = ?v, la_files = du_files s\<rparr>"
    if "?P s" "args \<in> {psql_arguments source, pg_dump_arguments source target}" for s tool args
    unfolding postgres_launch_def using that pgpass_line_fields [OF line]
    by (intro disjI2 exI [of _ pgpass] exI [of _ ca] exI [of _ "utf8 (line @ [newline])"] exI [of _ line])
      (auto simp: pg_files_def holds_text_def certificate_there_def utf8_round_trip)
  have probe: "ensures ?P (launch_tool env ?v (''/usr/bin/psql'', psql_arguments source) limit None) ?I (\<lambda>_. ?P)" for limit
    unfolding launch_tool_def
  proof (rule ensures_bind)
    show "ensures ?P (dump_ask (\<lambda>n. de_timeout env n limit)) ?I (\<lambda>_. ?P)" by (rule ensures_ask) auto
    fix timeout
    show "ensures ?P (\<lambda>s. case run_process (de_process env (du_tick s) ?v) (''/usr/bin/psql'', psql_arguments source) timeout None None False (du_files s) of
         (r, fs) \<Rightarrow> (r, s\<lparr>du_tick := du_tick s + 1, du_files := fs,
           du_launched := du_launched s @ [\<lparr>la_tool = fst (''/usr/bin/psql'', psql_arguments source),
             la_args = snd (''/usr/bin/psql'', psql_arguments source), la_variables = ?v, la_files = du_files s\<rparr>]\<rparr>)) ?I (\<lambda>_. ?P)"
    proof (rule ensuresI)
      fix s assume s: "?P s"
      obtain r fs where r: "run_process (de_process env (du_tick s) ?v) (''/usr/bin/psql'', psql_arguments source) timeout None None False (du_files s) = (r, fs)"
        by fastforce
      have same: "fs = du_files s" if "r = Inr a" for a
        using run_process_leaves [of "de_process env (du_tick s) ?v" "(''/usr/bin/psql'', psql_arguments source)" timeout "du_files s" a fs]
          r that psql by (simp add: psql_only_reads_def)
      show "case case run_process (de_process env (du_tick s) ?v) (''/usr/bin/psql'', psql_arguments source) timeout None None False (du_files s) of
         (r, fs) \<Rightarrow> (r, s\<lparr>du_tick := du_tick s + 1, du_files := fs,
           du_launched := du_launched s @ [\<lparr>la_tool = fst (''/usr/bin/psql'', psql_arguments source),
             la_args = snd (''/usr/bin/psql'', psql_arguments source), la_variables = ?v, la_files = du_files s\<rparr>]\<rparr>) of
         (Inl e, t) \<Rightarrow> ?I t | (Inr a, t) \<Rightarrow> ?P t"
        using connect [OF s] s same r
        by (cases r) (simp_all add: launches_ok_def pg_files_def holds_text_def certificate_there_def)
    qed
  qed
  show ?thesis
    unfolding postgres_run_def Let_def
  proof (intro ensures_bind)
    show "ensures ?P (launch_tool env ?v (''/usr/bin/psql'', psql_arguments source) (de_limit env) None) ?I (\<lambda>_. ?P)"
      by (rule probe)
    show "ensures ?P (lift_eff (py_int (strip (pr_stdout p)))) ?I (\<lambda>_. ?P)" for p by (rule ensures_pure) auto
    show "ensures ?P (read_eff f) ?I (\<lambda>_. ?P)" for f :: "dump_state \<Rightarrow> unit result" by (rule ensures_pure) auto
    show "ensures ?P (launch_tool env ?v (tool, pg_dump_arguments source target) limit None) ?I (\<lambda>_. ?I)" for tool limit
      by (rule ensures_launch) (use connect in auto)
    show "ensures ?I (launch_tool env [] (tool, [''--list'', path_str target]) limit None) ?I (\<lambda>_. ?I)" for tool limit
      by (rule ensures_launch) (auto simp: postgres_launch_def)
    show "ensures ?I (done_eff x) ?I (\<lambda>_. ?I)" for x :: "(string \<times> json) list" by (rule ensures_pure) simp
  qed
qed

lemma postgres_dump_launches:
  assumes new: "new_names env" and psql: "psql_only_reads env"
  shows "keeps (launches_ok (postgres_launch source password target)) (postgres_dump env source target password)"
  unfolding keeps_def postgres_dump_def
proof (rule ensures_bind)
  let ?I = "launches_ok (postgres_launch source password target)"
  let ?L = "\<lambda>line s. ?I s \<and> pgpass_line source password = Inr line"
  show "ensures ?I (lift_eff (pgpass_line source password)) ?I ?L" by (rule ensures_pure) auto
  fix line
  let ?A = "\<lambda>pgpass s. ?L line s \<and> holds_text s pgpass (line @ [newline])"
  let ?B = "\<lambda>pgpass ca s. ?A pgpass s \<and> pg_files source line pgpass ca s"
  show "ensures (?L line) (bind_eff (written_temp env (line @ [newline])) (\<lambda>pgpass.
     bind_eff (if given (d_tls_ca source)
         then bind_eff (written_temp env (the (d_tls_ca source))) (\<lambda>p. done_eff (Some p)) else done_eff None) (\<lambda>ca.
     finally_eff (postgres_run env source target (pg_variables source pgpass ca))
       (bind_eff (unlink_file pgpass) (\<lambda>_. case ca of None \<Rightarrow> done_eff () | Some p \<Rightarrow> unlink_file p))))) ?I (\<lambda>_. ?I)"
  proof (intro ensures_bind ensures_finally ensures_if)
    show "ensures (?L line) (written_temp env (line @ [newline])) ?I ?A"
      by (rule written_temp_ensures [where Q = "\<lambda>_. ?L line"])
        (auto simp: untimed_def launches_ok_def holds_text_def)
    fix pgpass
    show "ensures (?A pgpass) (written_temp env (the (d_tls_ca source))) ?I
        (\<lambda>p s. ?B pgpass (Some p) s)" if "given (d_tls_ca source)"
      by (rule written_temp_ensures [where Q = "\<lambda>p s. ?A pgpass s \<and> p \<noteq> pgpass"])
        (use that new in \<open>auto simp: untimed_def launches_ok_def holds_text_def pg_files_def certificate_there_def new_names_def\<close>)
    show "ensures (\<lambda>s. ?B pgpass (Some p) s) (done_eff (Some p)) ?I (?B pgpass)" for p by (rule ensures_pure) simp
    show "ensures (?A pgpass) (done_eff None) ?I (?B pgpass)" if "\<not> given (d_tls_ca source)"
      by (rule ensures_pure) (use that in \<open>simp add: pg_files_def certificate_there_def\<close>)
    show "ensures (?B pgpass ca) (postgres_run env source target (pg_variables source pgpass ca)) ?I (\<lambda>_. ?I)" for ca
    proof (cases "pgpass_line source password = Inr line")
      case True
      show ?thesis by (rule ensures_weaken [OF postgres_run_launches [OF psql True]]) auto
    next
      case False
      then show ?thesis by (simp add: ensures_def)
    qed
    show "ensures ?I (unlink_file pgpass) ?I (\<lambda>_. ?I)" "ensures ?I (unlink_file pgpass) ?I (\<lambda>_. ?I)"
      unfolding unlink_file_def by (rule ensures_pure, simp add: launches_ok_def)+
    show "ensures ?I (case ca of None \<Rightarrow> done_eff () | Some p \<Rightarrow> unlink_file p) ?I (\<lambda>_. ?I)"
      "ensures ?I (case ca of None \<Rightarrow> done_eff () | Some p \<Rightarrow> unlink_file p) ?I (\<lambda>_. ?I)" for ca
      by (cases ca; simp add: unlink_file_def; rule ensures_pure; simp add: launches_ok_def)+
  qed
qed

lemma keeps_from_start: "keeps (launches_ok L) m \<Longrightarrow> list_all L (du_launched (snd (m (start_dump fs))))"
  using keeps_apply [of "launches_ok L" m "start_dump fs"] by (cases "m (start_dump fs)") (simp add: launches_ok_def start_dump_def)


section \<open>What is left\<close>

text \<open>The temporary files made are gone or empty, but for those in a set.\<close>

definition cleared :: "path set \<Rightarrow> dump_state \<Rightarrow> bool" where
  "cleared X s \<longleftrightarrow> (\<forall>p \<in> set (du_created s). p \<in> X \<or> node_at (du_files s) p \<in> {None, Some (RegularFile [])})"

definition made_within :: "path set \<Rightarrow> dump_state \<Rightarrow> bool" where
  "made_within X s \<longleftrightarrow> set (du_created s) \<subseteq> X"

lemma untimed_made [simp]: "untimed (made_within X)" "untimed (cleared X)"
  by (simp_all add: untimed_def made_within_def cleared_def)

lemma made_cleared: "made_within X s \<Longrightarrow> cleared X s"
  by (auto simp: made_within_def cleared_def)

lemma unlink_clears: "ensures (made_within (insert p X)) (unlink_file p) (cleared X) (\<lambda>_. cleared X)"
  "ensures (cleared (insert p X)) (unlink_file p) (cleared X) (\<lambda>_. cleared X)"
  unfolding unlink_file_def by (rule ensures_pure, auto simp: made_within_def cleared_def)+

lemma keeps_made_launch [simp]: "keeps (made_within X) (launch_tool env variables command limit stdout_path)"
  unfolding launch_tool_def
  by (intro keeps_then keeps_ask) (auto intro!: keepsI simp: made_within_def split: prod.splits)

lemma keeps_made_write [simp]: "keeps (made_within X) (write_temp env p t)"
  unfolding write_temp_def put_file_def dump_fault_def
  by (intro keeps_then keeps_ask keeps_write) (auto simp: made_within_def)

lemma keeps_made_close [simp]: "keeps (made_within X) (close_temp env)"
  by (simp add: close_temp_def dump_fault_def keeps_ask)

lemma keeps_made_detect: "keeps (made_within X) (detect_mysql_dump_client env)"
  unfolding detect_mysql_dump_client_def by (intro keeps_then) (auto intro!: keeps_ask)

lemma open_makes: "ensures (made_within X) (open_temp env) (made_within X) (\<lambda>p. made_within (insert p X))"
  by (rule ensures_open) (auto simp: made_within_def)

lemma mysql_run_clears:
  "ensures (made_within X) (mysql_run env source target password client ca) (cleared X) (\<lambda>_. cleared X)"
  unfolding mysql_run_def
proof (rule ensures_bind)
  show "ensures (made_within X) (open_temp env) (cleared X) (\<lambda>p. made_within (insert p X))"
    by (rule ensures_weaken [OF open_makes]) (auto simp: made_cleared)
  fix config
  let ?M = "made_within (insert config X)"
  have "keeps ?M (bind_eff (lift_eff (mysql_tls_options (dc_flavor client) (d_tls source) ca)) (\<lambda>tls.
        bind_eff (write_temp env config (mysql_option_file (mysql_credentials source password @ tls))) (\<lambda>_.
        bind_eff (close_temp env) (\<lambda>_.
        catch_eff
          (bind_eff (launch_tool env [] (path_str (dc_path client), mysql_dump_arguments config (d_name source))
             (de_limit env) (Some target)) (\<lambda>_. done_eff ()))
          is_pipeline_error (\<lambda>_. raise_eff (dump_failed client))))))"
    by (intro keeps_then keeps_catch) simp_all
  then show "ensures ?M (finally_eff
       (bind_eff (lift_eff (mysql_tls_options (dc_flavor client) (d_tls source) ca)) (\<lambda>tls.
        bind_eff (write_temp env config (mysql_option_file (mysql_credentials source password @ tls))) (\<lambda>_.
        bind_eff (close_temp env) (\<lambda>_.
        catch_eff
          (bind_eff (launch_tool env [] (path_str (dc_path client), mysql_dump_arguments config (d_name source))
             (de_limit env) (Some target)) (\<lambda>_. done_eff ()))
          is_pipeline_error (\<lambda>_. raise_eff (dump_failed client))))))
       (unlink_file config)) (cleared X) (\<lambda>_. cleared X)"
    unfolding keeps_def by (rule ensures_finally) (rule unlink_clears)+
qed

lemma mysql_certificate_clears:
  "ensures (made_within {}) (with_certificate env certificate (mysql_run env source target password client)) (cleared {}) (\<lambda>_. cleared {})"
proof (cases "given certificate")
  case True
  let ?E = "cleared {}" and ?t = "the certificate"
  let ?Q = "\<lambda>p s. made_within {p} s \<and> cleared {} s"
  have "ensures (made_within {}) (bind_eff (open_temp env) (\<lambda>p. bind_eff (write_temp env p ?t) (\<lambda>_.
      finally_eff (bind_eff (close_temp env) (\<lambda>_. mysql_run env source target password client (Some p))) (unlink_file p))))
    ?E (\<lambda>_. ?E)"
  proof (intro ensures_bind ensures_finally)
    show "ensures (made_within {}) (open_temp env) ?E ?Q"
      by (rule ensures_open) (auto simp: made_within_def cleared_def)
    fix p
    show "ensures (?Q p) (write_temp env p ?t) ?E (\<lambda>_. made_within {p})"
      by (rule ensures_write_temp) (auto simp: untimed_def made_within_def cleared_def)
    show "ensures (made_within {p}) (close_temp env) (cleared {p}) (\<lambda>_. made_within {p})"
      using keeps_made_close [of "{p}" env] unfolding keeps_def by (rule ensures_weaken) (auto simp: made_cleared)
    show "ensures (made_within {p}) (mysql_run env source target password client (Some p)) (cleared {p}) (\<lambda>_. cleared {p})"
      by (rule mysql_run_clears)
    show "ensures (cleared {p}) (unlink_file p) ?E (\<lambda>_. ?E)" "ensures (cleared {p}) (unlink_file p) ?E (\<lambda>_. ?E)"
      by (rule unlink_clears(2))+
  qed
  with True show ?thesis by (simp add: with_certificate_def)
qed (simp add: with_certificate_def mysql_run_clears)

lemma mysql_dump_clears: "ensures (made_within {}) (mysql_dump env source target password) (cleared {}) (\<lambda>_. cleared {})"
  unfolding mysql_dump_def target_size_def
proof (rule ensures_bind)
  show "ensures (made_within {}) (detect_mysql_dump_client env) (cleared {}) (\<lambda>_. made_within {})"
    using keeps_made_detect [of "{}" env] unfolding keeps_def by (rule ensures_weaken) (auto simp: made_cleared)
  have "keeps (cleared {}) (bind_eff (read_eff f) (\<lambda>sz. bind_eff (guard_eff (sz \<noteq> 0) e) (\<lambda>_. done_eff x)))"
    for f :: "dump_state \<Rightarrow> int result" and e and x :: "(string \<times> json) list" by (intro keeps_then) simp_all
  then show "ensures (made_within {}) (bind_eff (with_certificate env (d_tls_ca source) (mysql_run env source target password client)) (\<lambda>_.
     bind_eff (read_eff (\<lambda>s. case file_content (du_files s) target of
       None \<Rightarrow> Inl (OSError ''FileNotFoundError'') | Some b \<Rightarrow> Inr (int (length b)))) (\<lambda>sz.
     bind_eff (guard_eff (sz \<noteq> 0) (PipelineError ''EMPTY_BACKUP'' ''database dump is empty'')) (\<lambda>_.
       done_eff [(''engine'', JStr ''mysql-mariadb''), (''client_flavor'', JStr (flavor_value (dc_flavor client))),
         (''client_version'', JStr (version_string (dc_version client))), (''definers_preserved'', JBool True)])))) (cleared {}) (\<lambda>_. cleared {})"
    for client
    unfolding keeps_def by (intro ensures_bind [OF mysql_certificate_clears])
qed

text \<open>Temporary files without faults.\<close>

definition no_faults :: "dump_env \<Rightarrow> bool" where
  "no_faults env \<longleftrightarrow> (\<forall>n. de_open env n = None \<and> de_write env n = None \<and> de_close env n = None)"

definition gone :: "path set \<Rightarrow> dump_state \<Rightarrow> bool" where
  "gone X s \<longleftrightarrow> (\<forall>p \<in> set (du_created s). p \<in> X \<or> node_at (du_files s) p = None)"

lemma no_fault: "untimed P \<Longrightarrow> (\<And>n. f n = None) \<Longrightarrow> ensures P (dump_fault f) E (\<lambda>_. P)"
  by (simp add: ensures_def dump_fault_def dump_ask_def untimed_def)

lemma written_temp_makes:
  assumes "no_faults env"
  shows "ensures (made_within X) (written_temp env t) E (\<lambda>p. made_within (insert p X))"
  unfolding written_temp_def open_temp_def write_temp_def close_temp_def put_file_def
proof (intro ensures_bind)
  show "ensures (made_within X) (dump_fault (de_open env)) E (\<lambda>_. made_within X)"
    by (rule no_fault) (use assms in \<open>auto simp: no_faults_def\<close>)
  show "ensures (made_within X) (\<lambda>s. let p = de_temp env (du_tick s) (du_files s)
       in (Inr p, s\<lparr>du_files := put_node p (RegularFile []) (du_files s), du_created := du_created s @ [p]\<rparr>)) E
      (\<lambda>p. made_within (insert p X))"
    by (auto simp: ensures_def Let_def made_within_def)
  fix p
  show "ensures (made_within (insert p X)) (dump_fault (de_write env)) E (\<lambda>_. made_within (insert p X))"
    "ensures (made_within (insert p X)) (dump_fault (de_close env)) E (\<lambda>_. made_within (insert p X))"
    by (rule no_fault; use assms in \<open>auto simp: no_faults_def\<close>)+
  show "ensures (made_within (insert p X)) (write_eff (\<lambda>s. s\<lparr>du_files := put_node p (RegularFile (utf8 t)) (du_files s)\<rparr>)) E
      (\<lambda>_. made_within (insert p X))" by (rule ensures_pure) (simp add: made_within_def)
  show "ensures (made_within (insert p X)) (done_eff p) E (\<lambda>p. made_within (insert p X))" by (rule ensures_pure)
qed

lemma unlink_removes: "ensures (gone (insert p X)) (unlink_file p) E (\<lambda>_. gone X)"
  "ensures (made_within (insert p X)) (unlink_file p) E (\<lambda>_. gone X)"
  unfolding unlink_file_def by (rule ensures_pure, auto simp: made_within_def gone_def)+

lemma postgres_dump_clears:
  assumes "no_faults env"
  shows "ensures (made_within {}) (postgres_dump env source target password) (gone {}) (\<lambda>_. gone {})"
  unfolding postgres_dump_def
proof (intro ensures_bind ensures_finally ensures_if)
  let ?M = "\<lambda>pgpass ca. made_within (insert pgpass (case ca of None \<Rightarrow> {} | Some p \<Rightarrow> {p}))"
  show "ensures (made_within {}) (lift_eff (pgpass_line source password)) (gone {}) (\<lambda>_. made_within {})"
    by (rule ensures_pure) (auto simp: made_within_def gone_def)
  show "ensures (made_within {}) (written_temp env (line @ [newline])) (gone {}) (\<lambda>p. made_within {p})" for line
    by (rule written_temp_makes [OF assms])
  fix pgpass
  show "ensures (made_within {pgpass}) (written_temp env (the (d_tls_ca source))) (gone {}) (\<lambda>p. ?M pgpass (Some p))"
    if "given (d_tls_ca source)"
    using written_temp_makes [OF assms, of "{pgpass}"] by (simp add: insert_commute)
  show "ensures (?M pgpass (Some p)) (done_eff (Some p)) (gone {}) (?M pgpass)" for p by (rule ensures_pure) simp
  show "ensures (made_within {pgpass}) (done_eff None) (gone {}) (?M pgpass)" if "\<not> given (d_tls_ca source)" by (rule ensures_pure) simp
  fix ca
  have "keeps (?M pgpass ca) (postgres_run env source target (pg_variables source pgpass ca))"
    unfolding postgres_run_def Let_def by (intro keeps_then) simp_all
  then show "ensures (?M pgpass ca) (postgres_run env source target (pg_variables source pgpass ca)) (?M pgpass ca) (\<lambda>_. ?M pgpass ca)"
    by (simp add: keeps_def)
  let ?R = "gone (case ca of None \<Rightarrow> {} | Some p \<Rightarrow> {p})"
  show "ensures (?M pgpass ca) (unlink_file pgpass) (gone {}) (\<lambda>_. ?R)" "ensures (?M pgpass ca) (unlink_file pgpass) (gone {}) (\<lambda>_. ?R)"
    by (rule unlink_removes(2))+
  show "ensures ?R (case ca of None \<Rightarrow> done_eff () | Some p \<Rightarrow> unlink_file p) (gone {}) (\<lambda>_. gone {})"
    "ensures ?R (case ca of None \<Rightarrow> done_eff () | Some p \<Rightarrow> unlink_file p) (gone {}) (\<lambda>_. gone {})"
    by (cases ca; simp add: unlink_removes(1) ensures_done)+
qed

text \<open>
  C22. However a dump ends, with a backup, with an error of the client, with a timeout or with a full
  disk, no file with credentials is left: of the temporary files a MySQL dump made, each is gone
  or was never filled, and those of a PostgreSQL dump are gone if none of them failed to be
  written.
\<close>

theorem no_credentials_left_behind:
  "(\<forall>p \<in> set (du_created (snd (mysql_dump env source target password (start_dump fs)))).
      node_at (du_files (snd (mysql_dump env source target password (start_dump fs)))) p \<in> {None, Some (RegularFile [])}) \<and>
   (no_faults env \<longrightarrow> (\<forall>p \<in> set (du_created (snd (postgres_dump env source target password (start_dump fs)))).
      node_at (du_files (snd (postgres_dump env source target password (start_dump fs)))) p = None))"
proof -
  have start: "made_within {} (start_dump fs)" by (simp add: made_within_def start_dump_def)
  have ends: "E (snd (m (start_dump fs)))" if "ensures (made_within {}) m E (\<lambda>_. E)" for E and m :: "'b dump"
    using ensures_apply [OF that start, of "fst (m (start_dump fs))" "snd (m (start_dump fs))"] by (simp split: sum.splits)
  have "cleared {} (snd (mysql_dump env source target password (start_dump fs)))"
    using ends [OF mysql_dump_clears] .
  moreover have "gone {} (snd (postgres_dump env source target password (start_dump fs)))" if "no_faults env"
    using ends [OF postgres_dump_clears [OF that]] .
  ultimately show ?thesis by (auto simp: cleared_def gone_def)
qed

section \<open>A small database server\<close>

definition small_database :: "string option \<Rightarrow> database_source" where
  "small_database certificate = \<lparr>d_engine = PostgreSQL, d_host = ''h:1'', d_port = 5, d_name = ''d'', d_username = ''u'',
     d_password = [], d_tls = TLS_VerifyFull, d_tls_ca = certificate, d_in_docker = False, d_backup_path = None,
     d_host_path = None, d_server_id = None, d_server = None\<rparr>"

text \<open>A name that is longer than all in use; clients that hang until their time is up.\<close>

definition unused_name :: "nat \<Rightarrow> fs \<Rightarrow> path" where
  "unused_name n fs = [concat (map (\<lambda>x. concat (fst x)) fs) @ ''t'']"

definition small_clients :: "(nat \<Rightarrow> exn option) \<Rightarrow> dump_env" where
  "small_clients write_fault = \<lparr>de_process = (\<lambda>n variables. \<lparr>pe_spawn = (\<lambda>t. None),
       pe_tool = (\<lambda>tool args stdin fs. \<lparr>tr_code = 0,
         tr_stdout = [], tr_stderr = [],
         tr_duration = None, tr_refusals = [], tr_after = fs, tr_killed = (\<lambda>t. fs)\<rparr>), pe_dir_size = 4\<rparr>),
     de_temp = unused_name, de_open = (\<lambda>n. None), de_write = write_fault, de_close = (\<lambda>n. None),
     de_timeout = (\<lambda>n limit. Inr limit), de_limit = 100, de_clients = [''pg''], de_unresolved = (\<lambda>n. False)\<rparr>"

definition small_disk :: fs where
  "small_disk = [([], Directory), ([''w''], Directory)]"

lemma small_clients_ok: "new_names (small_clients f)" "psql_only_reads (small_clients f)"
proof -
  have "node_at fs (unused_name n fs) = None" for n fs
  proof -
    have "length (concat p) \<le> length (concat (map (\<lambda>x. concat (fst x)) fs))" if "(p, nd) \<in> set fs" for p nd
      using that by (induction fs) auto
    then have "unused_name n fs \<notin> fst ` set fs" by (fastforce simp: unused_name_def)
    then show ?thesis by (simp add: node_at_def map_of_eq_None_iff)
  qed
  then show "new_names (small_clients f)" by (simp add: new_names_def small_clients_def)
  show "psql_only_reads (small_clients f)" by (simp add: psql_only_reads_def small_clients_def)
qed


lemma no_credentials_left_behind_witness:
  "du_created (snd (postgres_dump (small_clients (\<lambda>n. None)) (small_database None) [''w'', ''d''] ''p:w'' (start_dump small_disk))) \<noteq> [] \<and>
   list_all (\<lambda>p. node_at (du_files (snd (postgres_dump (small_clients (\<lambda>n. None)) (small_database None) [''w'', ''d''] ''p:w'' (start_dump small_disk)))) p = None)
     (du_created (snd (postgres_dump (small_clients (\<lambda>n. None)) (small_database None) [''w'', ''d''] ''p:w'' (start_dump small_disk))))"
proof -
  have f: "no_faults (small_clients (\<lambda>n. None))" by (simp add: no_faults_def small_clients_def)
  have "du_created (snd (postgres_dump (small_clients (\<lambda>n. None)) (small_database None) [''w'', ''d''] ''p:w'' (start_dump small_disk))) \<noteq> []"
    by code_simp
  with no_credentials_left_behind [of "small_clients (\<lambda>n. None)" "small_database None" "[''w'', ''d'']" "''p:w''" small_disk] f
  show ?thesis unfolding list_all_iff by blast
qed

text \<open>
  A certificate that cannot be written leaves the password file of a PostgreSQL dump behind: both
  are written before the \<^verbatim>\<open>try\<close> block whose \<^verbatim>\<open>finally\<close> clause removes them.
\<close>

lemma unwritten_certificate_leaves_the_password:
  "map (\<lambda>p. node_at (du_files (snd (postgres_dump (small_clients (\<lambda>n. if n < 3 then None else Some (OSError ''ENOSPC'')))
       (small_database (Some ''CERT'')) [''w'', ''d''] ''p:w'' (start_dump small_disk)))) p)
     (take 1 (du_created (snd (postgres_dump (small_clients (\<lambda>n. if n < 3 then None else Some (OSError ''ENOSPC'')))
       (small_database (Some ''CERT'')) [''w'', ''d''] ''p:w'' (start_dump small_disk))))) =
   [Some (RegularFile (''h'' @ [backslash] @ '':1:5:d:u:p'' @ [backslash] @ '':w'' @ [newline]))]"
  by code_simp

end
