(* ===== verification/Mssql.thy ===== *)
theory Mssql
  imports Databases RemoteFiles Worker
begin

text \<open>
  \<^verbatim>\<open>src/src/pipeline/mssql_runner.py\<close> and \<^verbatim>\<open>src/src/pipeline/acquisition/mssql.py\<close>: a server writes
  its backup to a file of its own, a process of its own talks to it, and the worker fetches the
  file and, when it has it, deletes it where the server wrote it. The TDS client, the process,
  SSH and the file systems are parameters.
\<close>

section \<open>TLS\<close>

record mssql_tls =
  mt_cafile :: "path option"
  mt_validate_host :: bool

definition mssql_tls_config :: "tls_mode \<Rightarrow> path option \<Rightarrow> bool \<Rightarrow> mssql_tls result" where
  "mssql_tls_config mode ca openssl_available =
     (if mode = TLS_Disabled then Inr \<lparr>mt_cafile = None, mt_validate_host = False\<rparr>
      else if mode \<in> {TLS_Preferred, TLS_Required}
      then Inl (PipelineError ''MSSQL_TLS_MODE_UNSUPPORTED'' (''python-tds cannot safely implement MSSQL TLS mode '' @ tls_value mode @
        ''; use DISABLED, VERIFY_CA, or VERIFY_FULL''))
      else if ca = None
      then Inl (PipelineError ''MSSQL_TLS_CA_MISSING'' (''MSSQL TLS mode '' @ tls_value mode @ '' requires a CA certificate''))
      else if \<not> openssl_available
      then Inl (PipelineError ''MSSQL_TLS_UNAVAILABLE'' ''python-tds TLS support is unavailable because pyOpenSSL could not be loaded'')
      else Inr \<lparr>mt_cafile = ca, mt_validate_host = (mode = TLS_VerifyFull)\<rparr>)"

section \<open>The backup\<close>

text \<open>What \<^verbatim>\<open>pytds.connect\<close> is called with, besides constants.\<close>

record tds_login =
  tl_host :: string
  tl_port :: int
  tl_username :: string
  tl_password :: string
  tl_cafile :: "path option"
  tl_validate_host :: bool

record tds_state =
  td_dump :: dump_state
  td_logins :: "tds_login list"
  td_executed :: "string list"

type_synonym 'a tds = "(tds_state, exn, 'a) effect"

text \<open>A statement may fail when it is sent, or later, while its results are read.\<close>

record tds_env =
  tx_files :: dump_env
  tx_openssl :: bool
  tx_connect :: "nat \<Rightarrow> tds_login \<Rightarrow> exn option"
  tx_execute :: "nat \<Rightarrow> string \<Rightarrow> exn option"
  tx_results :: "nat \<Rightarrow> exn option"

definition tds_error :: exn where
  "tds_error = RuntimeError ''pytds.Error''"

definition ssl_error :: exn where
  "ssl_error = RuntimeError ''OpenSSL.SSL.Error''"

definition on_dump :: "'a dump \<Rightarrow> 'a tds" where
  "on_dump m s = (case m (td_dump s) of (r, d) \<Rightarrow> (r, s\<lparr>td_dump := d\<rparr>))"

definition tds_connect :: "tds_env \<Rightarrow> tds_login \<Rightarrow> unit tds" where
  "tds_connect env login =
     bind_eff (write_eff (\<lambda>s. s\<lparr>td_logins := td_logins s @ [login]\<rparr>)) (\<lambda>_.
       on_dump (dump_fault (\<lambda>n. tx_connect env n login)))"

definition tds_execute :: "tds_env \<Rightarrow> string \<Rightarrow> unit tds" where
  "tds_execute env statement =
     bind_eff (write_eff (\<lambda>s. s\<lparr>td_executed := td_executed s @ [statement]\<rparr>)) (\<lambda>_.
       on_dump (dump_fault (\<lambda>n. tx_execute env n statement)))"

definition tds_results :: "tds_env \<Rightarrow> unit tds" where
  "tds_results env = on_dump (dump_fault (tx_results env))"

text \<open>The statements; the result says if the server compressed the backup.\<close>

definition tds_statements :: "tds_env \<Rightarrow> string \<Rightarrow> string \<Rightarrow> bool tds" where
  "tds_statements env database_name backup_path =
     bind_eff (catch_eff (bind_eff (tds_execute env (backup_statement database_name backup_path)) (\<lambda>_. done_eff True))
         (\<lambda>e. e = tds_error)
         (\<lambda>_. bind_eff (tds_execute env (remove_suffix '', COMPRESSION'' (backup_statement database_name backup_path))) (\<lambda>_.
                done_eff False))) (\<lambda>native.
     bind_eff (tds_results env) (\<lambda>_.
     bind_eff (tds_execute env (verify_statement backup_path)) (\<lambda>_.
     bind_eff (tds_results env) (\<lambda>_. done_eff native))))"

definition tds_failure :: "exn \<Rightarrow> exn" where
  "tds_failure e =
     (if e = ssl_error then PipelineError ''MSSQL_TLS_CA_INVALID'' ''MSSQL TLS CA certificate could not be loaded or validated''
      else if is_value_error e then PipelineError ''MSSQL_TLS_UNAVAILABLE'' ''python-tds could not initialize MSSQL TLS support''
      else if e = tds_error then PipelineError ''MSSQL_BACKUP_FAILED'' ''MSSQL connection, backup, or verification failed''
      else e)"

definition tds_session :: "tds_env \<Rightarrow> database_source \<Rightarrow> string \<Rightarrow> string \<Rightarrow> path option \<Rightarrow> bool tds" where
  "tds_session env source password backup_path ca =
     bind_eff (lift_eff (mssql_tls_config (d_tls source) ca (tx_openssl env))) (\<lambda>tls.
     catch_eff
       (bind_eff (tds_connect env \<lparr>tl_host = d_host source, tl_port = d_port source, tl_username = d_username source,
          tl_password = password, tl_cafile = mt_cafile tls, tl_validate_host = mt_validate_host tls\<rparr>) (\<lambda>_.
        tds_statements env (d_name source) backup_path))
       (\<lambda>e. True) (\<lambda>e. raise_eff (tds_failure e)))"

definition mssql_backup :: "tds_env \<Rightarrow> database_source \<Rightarrow> string \<Rightarrow> (string \<times> json) list tds" where
  "mssql_backup env source password =
     (case d_backup_path source of
        None \<Rightarrow> raise_eff (PipelineError ''INVALID_PROFILE'' ''MSSQL backup destination is missing'')
      | Some backup_path \<Rightarrow>
          bind_eff (if d_tls source \<in> {TLS_VerifyCA, TLS_VerifyFull}
            then if \<not> given (d_tls_ca source)
              then raise_eff (PipelineError ''MSSQL_TLS_CA_MISSING'' (''MSSQL TLS mode '' @ tls_value (d_tls source) @ '' requires a CA certificate''))
              else bind_eff (on_dump (open_temp (tx_files env))) (\<lambda>p.
                   bind_eff (on_dump (write_temp (tx_files env) p (the (d_tls_ca source)))) (\<lambda>_.
                     finally_eff
                       (bind_eff (on_dump (close_temp (tx_files env))) (\<lambda>_. tds_session env source password backup_path (Some p)))
                       (on_dump (unlink_file p))))
            else tds_session env source password backup_path None) (\<lambda>native.
          done_eff [(''engine'', JStr ''mssql''), (''backup_type'', JStr ''FULL''), (''native_compression'', JBool native),
            (''checksum'', JBool True)]))"

section \<open>The process\<close>

text \<open>The request and the response travel as JSON.\<close>

record mssql_request =
  mr_host :: string
  mr_port :: int
  mr_name :: string
  mr_username :: string
  mr_password :: string
  mr_tls :: string
  mr_ca :: "string option"
  mr_path :: "string option"

definition request_source :: "mssql_request \<Rightarrow> tls_mode \<Rightarrow> database_source" where
  "request_source r mode = \<lparr>d_engine = MSSQL, d_host = mr_host r, d_port = mr_port r, d_name = mr_name r, d_username = mr_username r,
     d_password = [], d_tls = mode, d_tls_ca = mr_ca r, d_in_docker = False, d_backup_path = mr_path r, d_host_path = None,
     d_server_id = None, d_server = None\<rparr>"

definition backup_process_failed :: "string \<times> string" where
  "backup_process_failed = (''MSSQL_BACKUP_FAILED'', ''MSSQL backup process failed'')"

definition failed_response :: "string \<times> string \<Rightarrow> (string \<times> json) list" where
  "failed_response failure = [(''ok'', JBool False), (''code'', JStr (fst failure)), (''message'', JStr (snd failure))]"

fun response_of :: "(string \<times> json) list result \<Rightarrow> (string \<times> json) list" where
  "response_of (Inr metadata) = [(''ok'', JBool True), (''metadata'', JObj metadata)]"
| "response_of (Inl (PipelineError code msg)) = failed_response (code, msg)"
| "response_of (Inl e) = failed_response backup_process_failed"

definition runner_main :: "tds_env \<Rightarrow> mssql_request \<Rightarrow> tds_state \<Rightarrow> (string \<times> json) list \<times> tds_state" where
  "runner_main env r s =
     (case bind_eff (lift_eff (enum_of all_tls_modes tls_value (mr_tls r)))
        (\<lambda>mode. mssql_backup env (request_source r mode) (mr_password r)) s of
        (res, s') \<Rightarrow> (response_of res, s'))"

section \<open>Fetching the backup\<close>

text \<open>
  What a path shows when it is opened: nothing, something that is not a file, or the chunks that
  reading it gives, whatever else happens to the file meanwhile.
\<close>

datatype artifact_view = NoFile | Chunks "bytes list"

datatype fetched = FetchedFile bytes | FetchedDirectory

datatype mssql_event = Asked mssql_request | Owned | Recorded int string

record mssql_env =
  mq_remote :: remote_env
  mq_runner :: "nat \<Rightarrow> mssql_request \<Rightarrow> json option result"
  mq_remaining :: "nat \<Rightarrow> int result"
  mq_owner :: "nat \<Rightarrow> exn option"
  mq_record :: "nat \<Rightarrow> exn option"
  mq_stop :: "nat \<Rightarrow> exn option"
  mq_view :: "nat \<Rightarrow> string \<Rightarrow> artifact_view result"
  mq_inode :: "nat \<Rightarrow> bytes"
  mq_sha :: "bytes \<Rightarrow> string"

record mssql_state =
  mf_remote :: remote_state
  mf_target :: "fetched option"
  mf_events :: "mssql_event list"

type_synonym 'a mssql_run = "(mssql_state, exn, 'a) effect"

definition on_remote :: "'a remote \<Rightarrow> 'a mssql_run" where
  "on_remote m s = (case m (mf_remote s) of (r, t) \<Rightarrow> (r, s\<lparr>mf_remote := t\<rparr>))"

definition mssql_fault :: "(nat \<Rightarrow> exn option) \<Rightarrow> unit mssql_run" where
  "mssql_fault f = on_remote (ask (\<lambda>n. case f n of None \<Rightarrow> Inr () | Some e \<Rightarrow> Inl e))"

definition happened :: "mssql_event \<Rightarrow> unit mssql_run" where
  "happened e = write_eff (\<lambda>s. s\<lparr>mf_events := mf_events s @ [e]\<rparr>)"

definition ownership_check :: "mssql_env \<Rightarrow> unit mssql_run" where
  "ownership_check env = bind_eff (mssql_fault (mq_owner env)) (\<lambda>_. happened Owned)"

definition request_of :: "database_source \<Rightarrow> string \<Rightarrow> string option \<Rightarrow> mssql_request" where
  "request_of source password backup_path = \<lparr>mr_host = d_host source, mr_port = d_port source, mr_name = d_name source,
     mr_username = d_username source, mr_password = password, mr_tls = tls_value (d_tls source), mr_ca = d_tls_ca source,
     mr_path = backup_path\<rparr>"

definition fenced_path :: "string option \<Rightarrow> string option \<Rightarrow> string option result" where
  "fenced_path base operation =
     (case (base, operation) of
        (Some p, Some op) \<Rightarrow> if length op = 32 \<and> list_all is_hex op then Inr (Some (mssql_execution_path p op))
          else Inl (PipelineError ''INVALID_FENCE'' ''MSSQL execution fence is invalid'')
      | _ \<Rightarrow> Inr base)"

definition run_backup_process :: "mssql_env \<Rightarrow> mssql_request \<Rightarrow> json option mssql_run" where
  "run_backup_process env request =
     bind_eff (on_remote (ask (mq_remaining env))) (\<lambda>_.
     bind_eff (happened (Asked request)) (\<lambda>_.
     catch_eff (on_remote (ask (\<lambda>n. mq_runner env n request)))
       (\<lambda>e. case e of PipelineError code msg \<Rightarrow> code = ''PROCESS_TIMEOUT'' | _ \<Rightarrow> False)
       (\<lambda>_. raise_eff (PipelineError ''MSSQL_TIMEOUT'' ''MSSQL backup timed out''))))"

text \<open>Reading the response: what is not JSON, or misses a member, is a failed process. Metadata that is not an object is treated alike; the code would pass it on.\<close>

fun read_response :: "json option \<Rightarrow> (string \<times> json) list result" where
  "read_response None = Inl (PipelineError ''MSSQL_BACKUP_FAILED'' ''MSSQL backup process failed'')"
| "read_response (Some (JObj members)) =
     (let process_failed = Inl (PipelineError ''MSSQL_BACKUP_FAILED'' ''MSSQL backup process failed'')
      in if (case map_of members ''ok'' of None \<Rightarrow> False | Some j \<Rightarrow> json_truthy j)
         then (case map_of members ''metadata'' of Some (JObj metadata) \<Rightarrow> Inr metadata | _ \<Rightarrow> process_failed)
         else (case (map_of members ''code'', map_of members ''message'') of
             (Some c, Some m) \<Rightarrow> bind_result (json_str c) (\<lambda>code. bind_result (json_str m) (\<lambda>msg. Inl (PipelineError code msg)))
           | _ \<Rightarrow> process_failed))"
| "read_response (Some j) = Inl (RuntimeError ''AttributeError'')"

text \<open>What rsync left under the name of the target.\<close>

definition arrived :: "mssql_env \<Rightarrow> entry option \<Rightarrow> fetched option" where
  "arrived env at = (case resolved_entry at of
     Some (FileEntry inode sz) \<Rightarrow> Some (FetchedFile (mq_inode env inode))
   | Some (DirEntry cs) \<Rightarrow> Some FetchedDirectory
   | _ \<Rightarrow> None)"

definition target_name :: string where
  "target_name = ''source.bak''"

definition fetch_remote_backup :: "mssql_env \<Rightarrow> remote_server \<Rightarrow> string \<Rightarrow> unit mssql_run" where
  "fetch_remote_backup env server visible =
     bind_eff (guard_eff (s_enabled server \<and> s_deleted server = None)
       (PipelineError ''MSSQL_REMOTE_DISABLED'' ''MSSQL artifact server is disabled'')) (\<lambda>_.
     bind_eff (lift_eff (ssh_credentials_of (re_cipher (mq_remote env)) server)) (\<lambda>cred.
     bind_eff (on_remote (pinned_session (mq_remote env) server cred True)) (\<lambda>_.
     bind_eff (on_remote (validate_remote_rsync (mq_remote env))) (\<lambda>_.
     bind_eff (on_remote (host_key_there (mq_remote env))) (\<lambda>_.
     bind_eff (on_remote (rsync_download (mq_remote env) server cred visible target_name False)) (\<lambda>_.
       write_eff (\<lambda>s. s\<lparr>mf_target := arrived env (map_of (rs_tree (mf_remote s)) target_name)\<rparr>)))))))"

fun append_target :: "bytes \<Rightarrow> fetched option \<Rightarrow> fetched option" where
  "append_target c (Some (FetchedFile b)) = Some (FetchedFile (b @ c))"
| "append_target c t = t"

text \<open>\<^verbatim>\<open>_copy_local_artifact\<close>: the target must be new; the checks come before each chunk is written.\<close>

definition copy_local_artifact :: "mssql_env \<Rightarrow> bytes list \<Rightarrow> unit mssql_run" where
  "copy_local_artifact env cs =
     bind_eff (read_eff (\<lambda>s. if mf_target s = None then Inr () else Inl (OSError ''FileExistsError''))) (\<lambda>_.
     bind_eff (write_eff (\<lambda>s. s\<lparr>mf_target := Some (FetchedFile [])\<rparr>)) (\<lambda>_.
     each_eff (\<lambda>c. bind_eff (mssql_fault (mq_stop env)) (\<lambda>_.
       write_eff (\<lambda>s. s\<lparr>mf_target := append_target c (mf_target s)\<rparr>))) cs))"

definition fetch_local_backup :: "mssql_env \<Rightarrow> string \<Rightarrow> unit mssql_run" where
  "fetch_local_backup env visible =
     bind_eff (on_remote (ask (\<lambda>n. mq_view env n visible))) (\<lambda>v.
       case v of NoFile \<Rightarrow> raise_eff (PipelineError ''MSSQL_ARTIFACT_MISSING'' ''MSSQL backup artifact is unavailable'')
       | Chunks cs \<Rightarrow> copy_local_artifact env cs)"

text \<open>\<^verbatim>\<open>target.stat().st_size\<close>; a directory has some size above zero.\<close>

definition stat_target :: "int mssql_run" where
  "stat_target = read_eff (\<lambda>s. case mf_target s of None \<Rightarrow> Inl (OSError ''FileNotFoundError'')
     | Some (FetchedFile b) \<Rightarrow> Inr (int (length b)) | Some FetchedDirectory \<Rightarrow> Inr 4096)"

definition hash_open_path :: "mssql_env \<Rightarrow> string mssql_run" where
  "hash_open_path env =
     bind_eff (read_eff (\<lambda>s. case mf_target s of None \<Rightarrow> Inl (OSError ''FileNotFoundError'')
       | Some FetchedDirectory \<Rightarrow> Inl (OSError ''IsADirectoryError'') | Some (FetchedFile b) \<Rightarrow> Inr b)) (\<lambda>b.
     bind_eff (each_eff (\<lambda>c. mssql_fault (mq_stop env)) (chunks copy_chunk b)) (\<lambda>_. done_eff (mq_sha env b)))"

text \<open>The place of the backup as the worker, or its server, sees it.\<close>

definition visible_backup :: "database_source \<Rightarrow> string option \<Rightarrow> string option" where
  "visible_backup source operation =
     (let base = (if d_in_docker source then d_host_path source else d_backup_path source)
      in case (base, operation) of (Some p, Some op) \<Rightarrow> Some (mssql_execution_path p op) | _ \<Rightarrow> base)"

definition fetch_backup :: "mssql_env \<Rightarrow> database_source \<Rightarrow> string option \<Rightarrow> unit mssql_run" where
  "fetch_backup env source visible =
     (case visible of
        None \<Rightarrow> raise_eff (PipelineError ''MSSQL_ARTIFACT_MISSING'' ''MSSQL backup path is not visible'')
      | Some place \<Rightarrow> (case d_server source of Some server \<Rightarrow> fetch_remote_backup env server place
          | None \<Rightarrow> fetch_local_backup env place))"

text \<open>What was fetched is measured and hashed between checks of the ownership, and recorded.\<close>

definition record_backup :: "mssql_env \<Rightarrow> unit mssql_run" where
  "record_backup env =
     bind_eff stat_target (\<lambda>sz.
     bind_eff (guard_eff (sz \<noteq> 0) (PipelineError ''EMPTY_BACKUP'' ''MSSQL backup is empty'')) (\<lambda>_.
     bind_eff (ownership_check env) (\<lambda>_.
     bind_eff (hash_open_path env) (\<lambda>sha.
     bind_eff (ownership_check env) (\<lambda>_.
     bind_eff stat_target (\<lambda>sz.
     bind_eff (mssql_fault (mq_record env)) (\<lambda>_. happened (Recorded sz sha))))))))"

definition acquire_mssql ::
  "mssql_env \<Rightarrow> database_source \<Rightarrow> string \<Rightarrow> string option \<Rightarrow> (string \<times> json) list mssql_run" where
  "acquire_mssql env source password operation =
     bind_eff (lift_eff (fenced_path (d_backup_path source) operation)) (\<lambda>backup_path.
     bind_eff (run_backup_process env (request_of source password backup_path)) (\<lambda>response.
     bind_eff (lift_eff (read_response response)) (\<lambda>metadata.
     bind_eff (ownership_check env) (\<lambda>_.
     bind_eff (fetch_backup env source (visible_backup source operation)) (\<lambda>_.
     bind_eff (record_backup env) (\<lambda>_. done_eff metadata))))))"

end
