(* ===== verification/MssqlBackups.thy ===== *)
theory MssqlBackups
  imports Mssql DatabaseDumps RemoteArchives
begin

text \<open>
  What an MSSQL server is asked to do and over which connection, that a process of its own makes no
  difference, and which file is recorded as the backup.
\<close>

section \<open>Statements and logins\<close>

text \<open>The tokens of the statements for a database and a path.\<close>

definition backup_tokens :: "string \<Rightarrow> string \<Rightarrow> sql_token list" where
  "backup_tokens database_name backup_path = [SqlWord ''BACKUP'', SqlWord ''DATABASE'', SqlName database_name, SqlWord ''TO'',
     SqlWord ''DISK'', SqlMark (CHR ''=''), SqlText backup_path, SqlWord ''WITH'', SqlWord ''INIT'', SqlMark (CHR '',''),
     SqlWord ''COPY_ONLY'', SqlMark (CHR '',''), SqlWord ''CHECKSUM'']"

definition verify_tokens :: "string \<Rightarrow> sql_token list" where
  "verify_tokens backup_path = [SqlWord ''RESTORE'', SqlWord ''VERIFYONLY'', SqlWord ''FROM'', SqlWord ''DISK'', SqlMark (CHR ''=''),
     SqlText backup_path, SqlWord ''WITH'', SqlWord ''CHECKSUM'']"

definition statement_ok :: "string \<Rightarrow> string \<Rightarrow> string \<Rightarrow> bool" where
  "statement_ok database_name backup_path t \<longleftrightarrow>
     sql_tokens Plain t \<in> {Some (backup_tokens database_name backup_path @ [SqlMark (CHR '',''), SqlWord ''COMPRESSION'']),
       Some (backup_tokens database_name backup_path), Some (verify_tokens backup_path)}"

lemma statements_ok:
  "statement_ok database_name backup_path (backup_statement database_name backup_path)"
  "statement_ok database_name backup_path (remove_suffix '', COMPRESSION'' (backup_statement database_name backup_path))"
  "statement_ok database_name backup_path (verify_statement backup_path)"
  by (simp_all add: statement_ok_def backup_statement_tokens plain_backup_tokens verify_statement_tokens backup_tokens_def verify_tokens_def)

text \<open>
  A login: never in a mode that could fall back to a connection without encryption; in a verifying
  mode with the certificate of the source, and the name of the host is checked in the mode that
  asks for it.
\<close>

definition login_ok :: "database_source \<Rightarrow> string \<Rightarrow> tds_login \<Rightarrow> bool" where
  "login_ok source password l \<longleftrightarrow> tl_host l = d_host source \<and> tl_port l = d_port source \<and> tl_username l = d_username source \<and>
     tl_password l = password \<and> d_tls source \<noteq> TLS_Preferred \<and> d_tls source \<noteq> TLS_Required \<and>
     (tl_cafile l \<noteq> None \<longleftrightarrow> d_tls source \<noteq> TLS_Disabled) \<and> (tl_validate_host l \<longleftrightarrow> d_tls source = TLS_VerifyFull)"

definition session_ok :: "database_source \<Rightarrow> string \<Rightarrow> string \<Rightarrow> tds_state \<Rightarrow> bool" where
  "session_ok source password backup_path s \<longleftrightarrow> list_all (login_ok source password) (td_logins s) \<and>
     list_all (statement_ok (d_name source) backup_path) (td_executed s)"

lemma session_dump [simp]: "keeps (session_ok source password p) (on_dump m)"
  by (rule keepsI) (simp add: session_ok_def on_dump_def split: prod.splits)

lemma session_execute: "statement_ok (d_name source) p t \<Longrightarrow> keeps (session_ok source password p) (tds_execute env t)"
  unfolding tds_execute_def by (intro keeps_then keeps_write) (auto simp: session_ok_def)

lemma session_statements: "keeps (session_ok source password p) (tds_statements env (d_name source) p)"
  unfolding tds_statements_def tds_results_def
  by (intro keeps_then keeps_catch session_execute statements_ok) auto

lemma session_kept: "keeps (session_ok source password p) (tds_session env source password p ca)"
  unfolding tds_session_def keeps_def
proof (rule ensures_bind)
  let ?I = "session_ok source password p" and ?config = "mssql_tls_config (d_tls source) ca (tx_openssl env)"
  show "ensures ?I (lift_eff ?config) ?I (\<lambda>tls s. ?I s \<and> ?config = Inr tls)" by (rule ensures_pure) auto
  fix tls :: mssql_tls
  let ?login = "\<lparr>tl_host = d_host source, tl_port = d_port source, tl_username = d_username source,
    tl_password = password, tl_cafile = mt_cafile tls, tl_validate_host = mt_validate_host tls\<rparr>"
  have "keeps ?I (catch_eff (bind_eff (tds_connect env ?login) (\<lambda>_. tds_statements env (d_name source) p))
      (\<lambda>e. True) (\<lambda>e. raise_eff (tds_failure e)))" if "?config = Inr tls"
  proof -
    have "login_ok source password ?login" using that by (auto simp: login_ok_def mssql_tls_config_def split: if_splits)
    then have "keeps ?I (tds_connect env ?login)"
      unfolding tds_connect_def by (intro keeps_then keeps_write) (auto simp: session_ok_def)
    then show ?thesis by (intro keeps_catch keeps_then session_statements) auto
  qed
  then show "ensures (\<lambda>s. ?I s \<and> ?config = Inr tls) (catch_eff (bind_eff (tds_connect env ?login)
      (\<lambda>_. tds_statements env (d_name source) p)) (\<lambda>e. True) (\<lambda>e. raise_eff (tds_failure e))) ?I (\<lambda>_. ?I)"
    by (cases "?config = Inr tls") (simp_all add: keeps_def ensures_def)
qed

lemma mssql_backup_session:
  "d_backup_path source = Some p \<Longrightarrow> keeps (session_ok source password p) (mssql_backup env source password)"
  unfolding mssql_backup_def by (auto intro!: keeps_then keeps_finally keeps_cases(2) session_kept)

text \<open>The statements of a backup that succeeds: both were run, the check of the backup last.\<close>

lemma tds_execute_Inr: "tds_execute env t s = (Inr u, s') \<Longrightarrow> td_executed s' = td_executed s @ [t]"
  by (auto simp: tds_execute_def bind_eff_Inr on_dump_def split: prod.splits)

lemma tds_execute_Inl: "tds_execute env t s = (Inl e, s') \<Longrightarrow> td_executed s' = td_executed s @ [t]"
  by (auto simp: tds_execute_def bind_eff_Inl on_dump_def split: prod.splits)

lemma tds_results_executed: "tds_results env s = (r, s') \<Longrightarrow> td_executed s' = td_executed s"
  by (auto simp: tds_results_def on_dump_def split: prod.splits)

lemma tds_statements_Inr:
  assumes "tds_statements env database_name p s = (Inr native, s')"
  shows "td_executed s' = td_executed s @ backup_statement database_name p #
    (if native then [] else [remove_suffix '', COMPRESSION'' (backup_statement database_name p)]) @ [verify_statement p]"
proof -
  let ?b = "backup_statement database_name p"
  from assms obtain s1 s2 s3 where b: "catch_eff (bind_eff (tds_execute env ?b) (\<lambda>_. done_eff True)) (\<lambda>e. e = tds_error)
      (\<lambda>_. bind_eff (tds_execute env (remove_suffix '', COMPRESSION'' ?b)) (\<lambda>_. done_eff False)) s = (Inr native, s1)"
    and r1: "tds_results env s1 = (Inr (), s2)" and v: "tds_execute env (verify_statement p) s2 = (Inr (), s3)"
    and r2: "tds_results env s3 = (Inr (), s')"
    by (auto simp: tds_statements_def bind_eff_Inr)
  have "td_executed s1 = td_executed s @ ?b # (if native then [] else [remove_suffix '', COMPRESSION'' ?b])"
    using b by (auto simp: catch_eff_Inr bind_eff_Inr bind_eff_Inl dest!: tds_execute_Inr tds_execute_Inl)
  with tds_results_executed [OF r1] tds_execute_Inr [OF v] tds_results_executed [OF r2] show ?thesis by simp
qed

lemma mssql_backup_Inr:
  assumes "mssql_backup env source password s = (Inr metadata, s')" and p: "d_backup_path source = Some p"
  shows "\<exists>native. td_executed s' = td_executed s @ backup_statement (d_name source) p #
      (if native then [] else [remove_suffix '', COMPRESSION'' (backup_statement (d_name source) p)]) @ [verify_statement p] \<and>
    map_of metadata ''native_compression'' = Some (JBool native)"
proof -
  have same: "td_executed u = td_executed t" if "on_dump m t = (r, u)" for m :: "'b dump" and r t u
    using that by (auto simp: on_dump_def split: prod.splits)
  have session: "td_executed u = td_executed t @ backup_statement (d_name source) p #
      (if native then [] else [remove_suffix '', COMPRESSION'' (backup_statement (d_name source) p)]) @ [verify_statement p]"
    if "tds_session env source password p ca t = (Inr native, u)" for ca t native u
    using that
    by (auto simp: tds_session_def bind_eff_Inr catch_eff_Inr tds_connect_def dest!: tds_statements_Inr same)
  from assms obtain native where "metadata = [(''engine'', JStr ''mssql''), (''backup_type'', JStr ''FULL''),
      (''native_compression'', JBool native), (''checksum'', JBool True)]"
    and "td_executed s' = td_executed s @ backup_statement (d_name source) p #
      (if native then [] else [remove_suffix '', COMPRESSION'' (backup_statement (d_name source) p)]) @ [verify_statement p]"
    by (fastforce simp: mssql_backup_def bind_eff_Inr finally_eff_Inr split: if_splits dest!: session same)
  then show ?thesis by auto
qed

text \<open>
  C23. Whatever the names and paths of a source are, an MSSQL server is only ever sent the backup of
  that database to that path, with or without compression, and the check of that file, each as one
  statement in which name and path are single tokens; a backup that is reported was checked by the
  last of them. Every login is made with the settings of the source, never in a TLS mode that
  could fall back, with a certificate whenever TLS is on and with the host name checked when
  asked.
\<close>

theorem mssql_server_is_asked_for_one_backup:
  assumes "mssql_backup env source password s = (r, s')" and "d_backup_path source = Some p"
    and "td_logins s = []" and "td_executed s = []"
  shows "list_all (login_ok source password) (td_logins s') \<and> list_all (statement_ok (d_name source) p) (td_executed s') \<and>
    (\<forall>metadata. r = Inr metadata \<longrightarrow> td_executed s' \<noteq> [] \<and> sql_tokens Plain (last (td_executed s')) = Some (verify_tokens p))"
proof -
  have "session_ok source password p s" using assms(3,4) by (simp add: session_ok_def)
  from keeps_apply [OF mssql_backup_session [OF assms(2)] this assms(1)]
  have "session_ok source password p s'" .
  moreover have "td_executed s' \<noteq> [] \<and> sql_tokens Plain (last (td_executed s')) = Some (verify_tokens p)" if "r = Inr metadata" for metadata
    using mssql_backup_Inr [of env source password s metadata s' p] assms(1,2) that
    by (auto simp: verify_statement_tokens verify_tokens_def)
  ultimately show ?thesis by (auto simp: session_ok_def)
qed

definition start_tds :: tds_state where
  "start_tds = \<lparr>td_dump = start_dump [], td_logins = [], td_executed = []\<rparr>"

definition small_mssql :: database_source where
  "small_mssql = (small_database None)\<lparr>d_engine := MSSQL, d_name := ''a]b'', d_backup_path := Some ''/b/o'', d_tls := TLS_Disabled\<rparr>"

text \<open>A server that cannot compress.\<close>

definition small_tds :: tds_env where
  "small_tds = \<lparr>tx_files = small_clients (\<lambda>n. None), tx_openssl = True, tx_connect = (\<lambda>n l. None),
     tx_execute = (\<lambda>n t. if n = 1 then Some tds_error else None), tx_results = (\<lambda>n. None)\<rparr>"

lemma mssql_server_is_asked_for_one_backup_witness:
  "length (td_executed (snd (mssql_backup small_tds small_mssql ''pw'' start_tds))) = 3 \<and>
   list_all (statement_ok ''a]b'' ''/b/o'') (td_executed (snd (mssql_backup small_tds small_mssql ''pw'' start_tds))) \<and>
   list_all (login_ok small_mssql ''pw'') (td_logins (snd (mssql_backup small_tds small_mssql ''pw'' start_tds)))"
proof -
  have e: "mssql_backup small_tds small_mssql ''pw'' start_tds =
    (fst (mssql_backup small_tds small_mssql ''pw'' start_tds), snd (mssql_backup small_tds small_mssql ''pw'' start_tds))" by simp
  have p: "d_backup_path small_mssql = Some ''/b/o''" "d_name small_mssql = ''a]b''" by (simp_all add: small_mssql_def)
  have n: "td_logins start_tds = []" "td_executed start_tds = []" by (simp_all add: start_tds_def)
  have l: "length (td_executed (snd (mssql_backup small_tds small_mssql ''pw'' start_tds))) = 3" by code_simp
  from mssql_server_is_asked_for_one_backup [OF e p(1) n] l show ?thesis unfolding p(2) by blast
qed

section \<open>A process of its own\<close>

lemma read_response_of:
  "read_response (Some (JObj (response_of r))) =
     (case r of Inr metadata \<Rightarrow> Inr metadata | Inl (PipelineError code msg) \<Rightarrow> Inl (PipelineError code msg)
      | Inl e \<Rightarrow> Inl (PipelineError ''MSSQL_BACKUP_FAILED'' ''MSSQL backup process failed''))"
  by (cases r rule: response_of.cases)
    (simp_all add: failed_response_def backup_process_failed_def)

lemma backup_reads_connection:
  assumes "d_host x = d_host y" "d_port x = d_port y" "d_name x = d_name y" "d_username x = d_username y" "d_tls x = d_tls y"
    "d_tls_ca x = d_tls_ca y" "d_backup_path x = d_backup_path y"
  shows "mssql_backup env x password = mssql_backup env y password"
proof -
  have "tds_session env x password p ca = tds_session env y password p ca" for p ca
    using assms by (simp add: tds_session_def)
  with assms show ?thesis by (auto simp: mssql_backup_def split: option.splits)
qed

text \<open>
  C24. Running the backup in a process of its own changes nothing: what the worker reads from the
  response of the process is what the backup would have returned or raised in the worker, with
  the code and the message of every pipeline error; any other exception becomes
  \<^verbatim>\<open>MSSQL_BACKUP_FAILED\<close>.
\<close>

theorem backup_process_is_transparent:
  "read_response (Some (JObj (fst (runner_main env (request_of source password backup_path) s)))) =
     (case fst (mssql_backup env (source\<lparr>d_backup_path := backup_path\<rparr>) password s) of
        Inr metadata \<Rightarrow> Inr metadata
      | Inl (PipelineError code msg) \<Rightarrow> Inl (PipelineError code msg)
      | Inl e \<Rightarrow> Inl (PipelineError ''MSSQL_BACKUP_FAILED'' ''MSSQL backup process failed''))"
proof -
  have mode: "enum_of all_tls_modes tls_value (tls_value (d_tls source)) = Inr (d_tls source)"
    by (rule tls_enum.of_value)
  have "mssql_backup env (request_source (request_of source password backup_path) (d_tls source)) password =
      mssql_backup env (source\<lparr>d_backup_path := backup_path\<rparr>) password"
    by (rule backup_reads_connection) (simp_all add: request_source_def request_of_def)
  then have run: "fst (runner_main env (request_of source password backup_path) s) =
      response_of (fst (mssql_backup env (source\<lparr>d_backup_path := backup_path\<rparr>) password s))"
    using mode by (simp add: runner_main_def request_of_def bind_eff_def split: prod.splits)
  show ?thesis unfolding run by (rule read_response_of)
qed

section \<open>The backup that is recorded\<close>

definition unrecorded :: "mssql_state \<Rightarrow> bool" where
  "unrecorded s \<longleftrightarrow> (\<forall>sz sha. Recorded sz sha \<notin> set (mf_events s))"

lemma on_remote_frame: "on_remote m s = (r, t) \<Longrightarrow> mf_target t = mf_target s \<and> mf_events t = mf_events s"
  by (auto simp: on_remote_def split: prod.splits)

lemma unrecorded_remote [simp]: "keeps unrecorded (on_remote m)"
  by (rule keepsI) (simp add: unrecorded_def on_remote_def split: prod.splits)

lemma unrecorded_fault [simp]: "keeps unrecorded (mssql_fault f)"
  by (simp add: mssql_fault_def)

lemma unrecorded_happened: "(\<And>sz sha. e \<noteq> Recorded sz sha) \<Longrightarrow> keeps unrecorded (happened e)"
  unfolding happened_def by (rule keeps_write) (auto simp: unrecorded_def)

lemma unrecorded_owner [simp]: "keeps unrecorded (ownership_check env)"
  unfolding ownership_check_def by (intro keeps_then unrecorded_happened) auto

lemma unrecorded_copy: "keeps unrecorded (copy_local_artifact env cs)"
  unfolding copy_local_artifact_def
  by (intro keeps_then keeps_each keeps_write) (auto simp: unrecorded_def)

lemma unrecorded_fetch_remote: "keeps unrecorded (fetch_remote_backup env server p)"
  unfolding fetch_remote_backup_def by (intro keeps_then keeps_write) (auto simp: unrecorded_def)

lemma unrecorded_fetch_local: "keeps unrecorded (fetch_local_backup env p)"
  unfolding fetch_local_backup_def
proof (rule keeps_then)
  show "keeps unrecorded (case v of NoFile \<Rightarrow> raise_eff (PipelineError ''MSSQL_ARTIFACT_MISSING'' ''MSSQL backup artifact is unavailable'')
      | Chunks cs \<Rightarrow> copy_local_artifact env cs)" for v
    by (cases v) (simp_all add: unrecorded_copy)
qed simp

lemma after_kept: "keeps I m \<Longrightarrow> (\<And>a. ensures I (f a) I R) \<Longrightarrow> ensures I (bind_eff m f) I R"
  unfolding keeps_def by (rule ensures_bind)

lemma record_unrecorded: "ensures unrecorded (record_backup env) unrecorded (\<lambda>_ _. True)"
  unfolding record_backup_def stat_target_def hash_open_path_def
proof (intro after_kept)
  show "ensures unrecorded (happened (Recorded sz sha)) unrecorded (\<lambda>_ _. True)" for sz sha
    by (simp add: ensures_def happened_def)
qed (auto intro!: keeps_then keeps_each)

lemma acquire_unrecorded: "ensures unrecorded (acquire_mssql env source password operation) unrecorded (\<lambda>_ _. True)"
proof -
  have run: "keeps unrecorded (run_backup_process env request)" for request
    unfolding run_backup_process_def by (intro keeps_then keeps_catch unrecorded_happened) simp_all
  have fetch: "keeps unrecorded (fetch_backup env source visible)" for visible
    unfolding fetch_backup_def
    by (cases visible; cases "d_server source") (simp_all add: unrecorded_fetch_remote unrecorded_fetch_local)
  have last: "ensures unrecorded (bind_eff (record_backup env) (\<lambda>_. done_eff m)) unrecorded (\<lambda>_ _. True)" for m :: "(string \<times> json) list"
    by (rule ensures_bind [OF record_unrecorded]) (simp add: ensures_def)
  show ?thesis
    unfolding acquire_mssql_def by (intro after_kept run fetch last) simp_all
qed

lemma ownership_check_Inr: "ownership_check env s = (Inr u, t) \<Longrightarrow> mf_target t = mf_target s \<and> mf_events t = mf_events s @ [Owned]"
  by (auto simp: ownership_check_def bind_eff_Inr mssql_fault_def happened_def dest!: on_remote_frame)

lemma each_fault_frame:
  "each_eff (\<lambda>c. mssql_fault f) cs s = (Inr u, t) \<Longrightarrow> mf_target t = mf_target s \<and> mf_events t = mf_events s"
  by (induction cs arbitrary: s) (auto simp: bind_eff_Inr mssql_fault_def dest!: on_remote_frame)

lemma copied_events:
  "each_eff (\<lambda>c. bind_eff (mssql_fault f) (\<lambda>_. write_eff (\<lambda>s. s\<lparr>mf_target := append_target c (mf_target s)\<rparr>))) cs s = (Inr u, t) \<Longrightarrow>
     mf_events t = mf_events s"
  by (induction cs arbitrary: s) (auto simp: bind_eff_Inr mssql_fault_def dest!: on_remote_frame)

lemma copy_events: "copy_local_artifact env cs s = (Inr u, t) \<Longrightarrow> mf_events t = mf_events s"
  by (auto simp: copy_local_artifact_def bind_eff_Inr dest!: copied_events)

lemma local_events:
  assumes "fetch_local_backup env p s = (Inr u, t)"
  shows "mf_events t = mf_events s"
proof -
  from assms obtain v s1 where v: "on_remote (ask (\<lambda>n. mq_view env n p)) s = (Inr v, s1)"
    and r: "(case v of NoFile \<Rightarrow> raise_eff (PipelineError ''MSSQL_ARTIFACT_MISSING'' ''MSSQL backup artifact is unavailable'')
       | Chunks cs \<Rightarrow> copy_local_artifact env cs) s1 = (Inr u, t)"
    by (auto simp: fetch_local_backup_def bind_eff_Inr)
  with copy_events on_remote_frame [OF v] show ?thesis by (cases v) fastforce+
qed

lemma remote_events: "fetch_remote_backup env server p s = (Inr u, t) \<Longrightarrow> mf_events t = mf_events s"
  by (auto simp: fetch_remote_backup_def bind_eff_Inr dest!: on_remote_frame)

lemma fetch_events: "fetch_backup env source visible s = (Inr u, t) \<Longrightarrow> mf_events t = mf_events s"
  by (auto simp: fetch_backup_def split: option.splits dest: remote_events local_events)

lemma record_events:
  assumes "record_backup env s = (Inr u, t)"
  shows "\<exists>b. b \<noteq> [] \<and> mf_target t = Some (FetchedFile b) \<and>
    mf_events t = mf_events s @ [Owned, Owned, Recorded (int (length b)) (mq_sha env b)]"
proof -
  from assms obtain sz s1 sha s2 s3 s4 where sz: "stat_target s = (Inr sz, s)" "sz \<noteq> 0"
    and o1: "ownership_check env s = (Inr (), s1)" and h: "hash_open_path env s1 = (Inr sha, s2)"
    and o2: "ownership_check env s2 = (Inr (), s3)" and f: "mssql_fault (mq_record env) s3 = (Inr (), s4)"
    and r: "bind_eff stat_target (\<lambda>sz. bind_eff (mssql_fault (mq_record env)) (\<lambda>_. happened (Recorded sz sha))) s3 = (Inr u, t)"
    by (auto simp: record_backup_def bind_eff_Inr stat_target_def)
  from h obtain b where b: "mf_target s1 = Some (FetchedFile b)" and sha: "sha = mq_sha env b"
    and s2: "mf_target s2 = mf_target s1" "mf_events s2 = mf_events s1"
    by (auto simp: hash_open_path_def bind_eff_Inr split: option.splits fetched.splits dest!: each_fault_frame)
  have target: "mf_target s = Some (FetchedFile b)" "mf_target s3 = Some (FetchedFile b)"
    using ownership_check_Inr [OF o1] ownership_check_Inr [OF o2] b s2 by simp_all
  from f have "mf_target s4 = mf_target s3 \<and> mf_events s4 = mf_events s3"
    by (auto simp: mssql_fault_def dest!: on_remote_frame)
  with r f target have "t = s4\<lparr>mf_events := mf_events s3 @ [Recorded (int (length b)) sha]\<rparr>" "mf_target t = Some (FetchedFile b)"
    by (auto simp: bind_eff_Inr stat_target_def happened_def)
  moreover have "b \<noteq> []" using sz target(1) by (auto simp: stat_target_def)
  ultimately show ?thesis
    using ownership_check_Inr [OF o1] ownership_check_Inr [OF o2] s2 sha by (intro exI [of _ b]) simp
qed

lemma asked_events:
  "run_backup_process env request s = (Inr response, t) \<Longrightarrow> mf_events t = mf_events s @ [Asked request]"
  by (auto simp: run_backup_process_def bind_eff_Inr catch_eff_Inr happened_def dest!: on_remote_frame)


definition small_fetch :: mssql_env where
  "small_fetch = \<lparr>mq_remote = small_remote None, mq_runner = (\<lambda>n r. Inr (Some (JObj [(''ok'', JBool True), (''metadata'', JObj [])]))),
     mq_remaining = (\<lambda>n. Inr 60), mq_owner = (\<lambda>n. None), mq_record = (\<lambda>n. None), mq_stop = (\<lambda>n. None),
     mq_view = (\<lambda>n p. Inr (Chunks [''ab'', ''c''])), mq_inode = (\<lambda>i. []), mq_sha = (\<lambda>b. ''sha of '' @ b)\<rparr>"

definition start_fetch :: mssql_state where
  "start_fetch = \<lparr>mf_remote = fresh_remote, mf_target = None, mf_events = []\<rparr>"

definition small_fence :: string where
  "small_fence = replicate 32 (CHR ''a'')"


end
