(* ===== verification/MssqlCleanup.thy ===== *)
theory MssqlCleanup
  imports MssqlBackups ArchivedSources RemoteCommands
begin

text \<open>
  The end of \<^verbatim>\<open>src/src/pipeline/acquisition/mssql.py\<close>: deleting the backup a server wrote, once it
  has been fetched. On this machine the file system may change at every system call; on another
  one a script is sent there.
\<close>

section \<open>Surroundings\<close>

text \<open>
  A deletion is noted with the moment, the directory and the name it was asked for. The time a
  deletion is asked for is the tick of its system call.
\<close>

record cleanup_env =
  ce_source :: source_env
  ce_remote :: remote_env
  ce_sha :: "bytes \<Rightarrow> string"

record cleanup_state =
  cs_walk :: archive_state
  cs_deleted :: "(nat \<times> inode \<times> string) list"
  cs_remote :: remote_state

type_synonym 'a cleaning = "(cleanup_state, failure, 'a) effect"

definition on_walk :: "'a walk \<Rightarrow> 'a cleaning" where
  "on_walk m s = (case m (cs_walk s) of (r, w) \<Rightarrow> (r, s\<lparr>cs_walk := w\<rparr>))"

definition on_server :: "'a remote \<Rightarrow> 'a cleaning" where
  "on_server m s = (case m (cs_remote s) of (r, t) \<Rightarrow> (raised r, s\<lparr>cs_remote := t\<rparr>))"

text \<open>\<^verbatim>\<open>os.unlink(name, dir_fd=...)\<close>\<close>

definition sys_unlink :: "source_env \<Rightarrow> inode \<Rightarrow> string \<Rightarrow> unit cleaning" where
  "sys_unlink env d name =
     bind_eff (on_walk (system_call env (\<lambda>w. case map_of (iw_names w d) name of
         None \<Rightarrow> Inl no_entry
       | Some i \<Rightarrow> if st_kind (iw_stat w i) = KindDirectory then Inl (OSError ''IsADirectoryError'') else Inr ()))) (\<lambda>_.
     write_eff (\<lambda>s. s\<lparr>cs_deleted := cs_deleted s @ [(as_tick (cs_walk s) - 1, d, name)]\<rparr>))"

section \<open>On this machine\<close>

text \<open>\<^verbatim>\<open>CooperativeStop.check\<close> over the deadline of the run.\<close>

definition cooperative_check :: "source_env \<Rightarrow> unit walk" where
  "cooperative_check env = event (\<lambda>n. raised
     (bind_result (case le_stop env n of None \<Rightarrow> Inr () | Some e \<Rightarrow> Inl e) (\<lambda>_.
        case le_expires env of None \<Rightarrow> Inr ()
        | Some t \<Rightarrow> bind_result (deadline_remaining t (le_mono env n)) (\<lambda>_. Inr ()))))"

definition hash_chunk :: nat where
  "hash_chunk = 1024 * 1024"

text \<open>
  \<^verbatim>\<open>_hash_open_file\<close>: a file that grows as fast as it is read keeps the loop going, so the
  recursion is on fuel. What was read so far is kept instead of the state of the digest.
\<close>

fun hash_loop :: "nat \<Rightarrow> source_env \<Rightarrow> inode \<Rightarrow> bytes \<Rightarrow> bytes walk" where
  "hash_loop 0 env i got = raise_walk OutOfFuel"
| "hash_loop (Suc fuel) env i got =
     bind_walk (sys_read env i (length got) hash_chunk) (\<lambda>chunk.
       if chunk = [] then done_walk got
       else bind_walk (cooperative_check env) (\<lambda>_. hash_loop fuel env i (got @ chunk)))"

definition hash_open_file :: "nat \<Rightarrow> cleanup_env \<Rightarrow> inode \<Rightarrow> (int \<times> string) walk" where
  "hash_open_file fuel env i =
     bind_walk (hash_loop fuel (ce_source env) i []) (\<lambda>got. done_walk (int (length got), ce_sha env got))"

definition parent_path :: "pure_path \<Rightarrow> pure_path" where
  "parent_path p = p\<lparr>pp_segments := butlast (pp_segments p)\<rparr>"

definition file_name :: "pure_path \<Rightarrow> string" where
  "file_name p = (if pp_segments p = [] then [] else last (pp_segments p))"

definition refused :: "string \<Rightarrow> failure" where
  "refused msg = Raised (cleanup_refused msg) None"

definition cleanup_local ::
  "nat \<Rightarrow> cleanup_env \<Rightarrow> string \<Rightarrow> int \<Rightarrow> string \<Rightarrow> unit cleaning" where
  "cleanup_local fuel env artifact expected_size expected_sha =
     (let src = ce_source env; p = pure_path artifact; name = file_name p
      in bind_eff (on_walk (open_local_root src (path_text (parent_path p)))) (\<lambda>(d, parent_stat).
         bind_eff (on_walk (require (st_kind parent_stat = KindDirectory) (refused ''MSSQL cleanup parent is invalid''))) (\<lambda>_.
         bind_eff (on_walk (handle_walk (sys_stat src d name) is_os_error
           (\<lambda>_. raise_walk (pipeline_failure ''MSSQL_CLEANUP_MISSING'' ''MSSQL server artifact is unavailable'')))) (\<lambda>entry.
         bind_eff (on_walk (require (st_kind entry = KindFile) (refused ''MSSQL server artifact is not a regular file''))) (\<lambda>_.
         bind_eff (on_walk (open_verified_at src d name entry False)) (\<lambda>(i, opened).
         bind_eff (on_walk (hash_open_file fuel env i)) (\<lambda>(sz, sha).
         bind_eff (on_walk (require (sz = expected_size \<and> sha = expected_sha) (pipeline_failure ''MSSQL_CLEANUP_MISMATCH''
           ''MSSQL server artifact no longer matches the retrieved backup''))) (\<lambda>_.
         bind_eff (on_walk (sys_stat src d name)) (\<lambda>current.
         bind_eff (on_walk (require (same_inode opened current) (refused ''MSSQL server artifact changed before cleanup''))) (\<lambda>_.
           sys_unlink src d name))))))))))"

section \<open>On another machine\<close>

definition cleanup_script :: string where
  "cleanup_script = concat (map (\<lambda>l. l @ [newline])
     [''import hashlib, os, stat, sys'',
      ''path, expected_size, expected_digest = sys.argv[1], int(sys.argv[2]), sys.argv[3]'',
      ''try:'',
      ''    descriptor = os.open(path, os.O_RDONLY | os.O_NOFOLLOW)'',
      ''except FileNotFoundError:'',
      ''    raise SystemExit(2)'',
      ''try:'',
      ''    before = os.fstat(descriptor)'',
      ''    if not stat.S_ISREG(before.st_mode):'',
      ''        raise SystemExit(4)'',
      ''    digest = hashlib.sha256()'',
      ''    size = 0'',
      ''    while chunk := os.read(descriptor, 1024 * 1024):'',
      ''        digest.update(chunk)'',
      ''        size += len(chunk)'',
      ''    if size != expected_size or digest.hexdigest() != expected_digest:'',
      ''        raise SystemExit(3)'',
      ''    current = os.stat(path, follow_symlinks=False)'',
      ''    if not stat.S_ISREG(current.st_mode) or (current.st_dev, current.st_ino) != ('',
      ''        before.st_dev,'',
      ''        before.st_ino,'',
      ''    ):'',
      ''        raise SystemExit(4)'',
      ''    os.unlink(path)'',
      ''finally:'',
      ''    os.close(descriptor)''])"

definition cleanup_command :: "string \<Rightarrow> int \<Rightarrow> string \<Rightarrow> string list" where
  "cleanup_command artifact expected_size expected_sha =
     [''/usr/bin/python3'', ''-c'', python_launcher cleanup_script, artifact, show_int expected_size, expected_sha]"

definition builtin_timeout :: exn where
  "builtin_timeout = OSError ''TimeoutError''"

text \<open>
  The connection, with the exceptions of the gateway as they are. A connection that takes too long
  raises \<^verbatim>\<open>SSHConnectionTimeout\<close>, which is a \<^verbatim>\<open>ConnectionError\<close> and no \<^verbatim>\<open>TimeoutError\<close>.
\<close>

definition plain_session :: "remote_env \<Rightarrow> remote_server \<Rightarrow> ssh_credentials \<Rightarrow> unit remote" where
  "plain_session env s cred =
     bind_eff (guard_eff (re_imports env (sc_private_key cred) (sc_passphrase cred))
       (ValueError ''invalid SSH private key or passphrase'')) (\<lambda>_.
       case re_connect env of
         ConnectTimeout \<Rightarrow> raise_eff (OSError ''SSHConnectionTimeout'')
       | AuthRefused \<Rightarrow> raise_eff (RuntimeError ''asyncssh.PermissionDenied'')
       | ConnectFailed e \<Rightarrow> raise_eff e
       | Connected shown \<Rightarrow> guard_eff (shown = None \<or> shown = Some (s_fingerprint s)) (OSError ''HostKeyChangedError''))"

fun cleanup_status :: "int \<Rightarrow> string \<times> string" where
  "cleanup_status code =
     (if code = 2 then (''MSSQL_CLEANUP_MISSING'', ''MSSQL server artifact is unavailable'')
      else if code = 3 then (''MSSQL_CLEANUP_MISMATCH'', ''MSSQL server artifact no longer matches the retrieved backup'')
      else if code = 4 then (''MSSQL_CLEANUP_REFUSED'', ''MSSQL server artifact changed before cleanup'')
      else (''MSSQL_CLEANUP_FAILED'', ''MSSQL server artifact cleanup failed''))"

definition cleanup_remote :: "remote_env \<Rightarrow> database_source \<Rightarrow> string \<Rightarrow> int \<Rightarrow> string \<Rightarrow> unit remote" where
  "cleanup_remote env source artifact expected_size expected_sha =
     (let unavailable = PipelineError ''MSSQL_CLEANUP_REMOTE_UNAVAILABLE'' ''trusted MSSQL artifact server is unavailable''
      in case d_server source of None \<Rightarrow> raise_eff unavailable
      | Some server \<Rightarrow>
          bind_eff (guard_eff (Some (s_id server) = d_server_id source \<and> s_enabled server \<and> s_deleted server = None) unavailable) (\<lambda>_.
          bind_eff (ask (\<lambda>n. re_timeout env n 30)) (\<lambda>_.
          bind_eff (catch_eff
              (bind_eff (lift_eff (ssh_credentials_of (re_cipher env) server)) (\<lambda>cred.
               bind_eff (plain_session env server cred) (\<lambda>_.
               bind_eff (ask (\<lambda>n. re_timeout env n 60)) (\<lambda>_.
                 send_command env False (shlex_join (cleanup_command artifact expected_size expected_sha))))))
              (\<lambda>e. e = builtin_timeout)
              (\<lambda>_. raise_eff (PipelineError ''MSSQL_CLEANUP_TIMEOUT'' ''MSSQL artifact cleanup timed out''))) (\<lambda>(status, out).
            if status \<noteq> 0 then raise_eff (case cleanup_status status of (code, msg) \<Rightarrow> PipelineError code msg)
            else done_eff ()))))"

section \<open>Either\<close>

definition cleanup_artifact ::
  "nat \<Rightarrow> cleanup_env \<Rightarrow> database_source \<Rightarrow> string \<Rightarrow> string \<Rightarrow> int \<Rightarrow> string \<Rightarrow> unit cleaning" where
  "cleanup_artifact fuel env source artifact operation expected_size expected_sha =
     bind_eff (on_walk (lift_walk (mssql_visible_path source operation))) (\<lambda>expected_path.
     bind_eff (guard_eff (artifact = expected_path) (refused ''MSSQL cleanup path does not match its execution fence'')) (\<lambda>_.
     bind_eff (guard_eff (0 < expected_size \<and> length expected_sha = 64 \<and> list_all is_hex expected_sha)
       (refused ''MSSQL cleanup verification metadata is invalid'')) (\<lambda>_.
       if d_server_id source \<noteq> None then on_server (cleanup_remote (ce_remote env) source artifact expected_size expected_sha)
       else cleanup_local fuel env artifact expected_size expected_sha)))"

section \<open>Hashing ends\<close>

text \<open>Every chunk but the last is not empty, so a file of at most \<open>N\<close> bytes is read in \<open>N + 1\<close> rounds.\<close>

lemma fuel_stop [simp]: "never_starved (cooperative_check env)"
  by (simp add: never_starved_def cooperative_check_def event_def raised_fuel)

lemma hash_loop_ends:
  assumes bound: "\<And>n. length (iw_bytes (le_world env n) i) \<le> N" and "N - length got < fuel"
  shows "never_starved (hash_loop fuel env i got)"
  using assms(2)
proof (induction fuel arbitrary: got)
  case (Suc fuel)
  have "fst (hash_loop (Suc fuel) env i got s) \<noteq> Inl OutOfFuel" for s
  proof (cases "fst (sys_read env i (length got) hash_chunk s)")
    case (Inl e)
    moreover have "never_starved (sys_read env i (length got) hash_chunk)" by simp
    ultimately show ?thesis
      by (auto simp: bind_walk_def never_starved_def dest: spec [of _ s] split: prod.splits)
  next
    case (Inr chunk)
    then obtain s1 where read: "sys_read env i (length got) hash_chunk s = (Inr chunk, s1)" by (metis prod.collapse)
    show ?thesis
    proof (cases "chunk = []")
      case False
      from read have "chunk = take hash_chunk (drop (length got) (iw_bytes (le_world env (as_tick s)) i))"
        by (auto simp: sys_read_def dest!: system_call_Inr)
      with False bound [of "as_tick s"] have "length got < N" by (cases "length got < N") auto
      moreover have "0 < length chunk" using False by simp
      ultimately have "N - length (got @ chunk) < fuel" using Suc.prems unfolding length_append by linarith
      from Suc.IH [OF this] have "never_starved (bind_walk (cooperative_check env) (\<lambda>_. hash_loop fuel env i (got @ chunk)))"
        by (intro fuel_bind) simp_all
      with False read show ?thesis by (simp add: bind_walk_def never_starved_def)
    qed (use read in \<open>simp add: bind_walk_def done_walk_def\<close>)
  qed
  then show ?case by (simp add: never_starved_def)
qed simp

lemma on_walk_starved: "never_starved m \<Longrightarrow> fst (on_walk m s) \<noteq> Inl OutOfFuel"
  by (auto simp: on_walk_def never_starved_def split: prod.splits) (metis fst_conv)

definition cleaning_ends :: "'a cleaning \<Rightarrow> bool" where
  "cleaning_ends m \<longleftrightarrow> (\<forall>s. fst (m s) \<noteq> Inl OutOfFuel)"

lemma cleaning_ends_bind: "cleaning_ends m \<Longrightarrow> (\<And>a. cleaning_ends (f a)) \<Longrightarrow> cleaning_ends (bind_eff m f)"
  by (auto simp: cleaning_ends_def bind_eff_def split: prod.splits sum.splits) (metis fst_conv)+

lemma ends_basic [simp]:
  "never_starved m \<Longrightarrow> cleaning_ends (on_walk m)" "cleaning_ends (on_server n)" "cleaning_ends (write_eff g)" "cleaning_ends (guard_eff ok (refused msg))"
  by (auto simp: cleaning_ends_def on_walk_starved on_server_def raised_fuel guard_eff_def refused_def split: prod.splits)

lemma cleanup_ends:
  assumes "\<And>n i. length (iw_bytes (le_world (ce_source env) n) i) \<le> N" and "N < fuel"
  shows "fst (cleanup_artifact fuel env source artifact operation sz sha s) \<noteq> Inl OutOfFuel"
proof -
  have "never_starved (hash_loop fuel (ce_source env) i [])" for i
    using assms by (intro hash_loop_ends [of _ _ N]) simp_all
  then have [simp]: "never_starved (hash_open_file fuel env i)" for i
    unfolding hash_open_file_def by (intro fuel_bind) simp_all
  have [simp]: "never_starved (require b (refused msg))" for b msg by (simp add: refused_def)
  have [simp]: "cleaning_ends (on_walk (handle_walk (sys_stat src d name) is_os_error (\<lambda>_. raise_walk (pipeline_failure c msg))))"
    for src d name c msg by (intro ends_basic fuel_handle) simp_all
  have "cleaning_ends (cleanup_artifact fuel env source artifact operation sz sha)"
    unfolding cleanup_artifact_def cleanup_local_def sys_unlink_def Let_def
    by (intro cleaning_ends_bind ends_basic; (split if_split prod.split)?; auto intro!: cleaning_ends_bind fuel_handle split: prod.splits)
  then show ?thesis by (simp add: cleaning_ends_def)
qed

section \<open>What is deleted\<close>

text \<open>What the loop read of a file that did not change meanwhile is the file.\<close>

lemma looks_stop [simp]: "looks (cooperative_check env)"
  by (simp add: cooperative_check_def)

lemma looks_hash [simp]: "looks (hash_loop fuel env i got)"
  by (induction fuel arbitrary: got) (auto intro!: looks_bind)

lemma hash_loop_content:
  assumes "hash_loop fuel env i got s = (Inr b, s')" and "got = take (length got) content"
    and "\<And>k. as_tick s \<le> k \<Longrightarrow> k < as_tick s' \<Longrightarrow> iw_bytes (le_world env k) i = content"
  shows "b = content"
  using assms
proof (induction fuel arbitrary: got s)
  case (Suc fuel)
  from Suc.prems(1) obtain chunk s1 where read: "sys_read env i (length got) hash_chunk s = (Inr chunk, s1)"
    and rest: "(if chunk = [] then done_walk got else bind_walk (cooperative_check env) (\<lambda>_. hash_loop fuel env i (got @ chunk))) s1 = (Inr b, s')"
    by (auto simp: bind_walk_Inr)
  have s1: "s1 = s\<lparr>as_tick := as_tick s + 1\<rparr>"
    and chunk: "chunk = take hash_chunk (drop (length got) (iw_bytes (le_world env (as_tick s)) i))"
    using read by (auto simp: sys_read_def dest!: system_call_Inr)
  show ?case
  proof (cases "chunk = []")
    case True
    with rest s1 have "b = got" "as_tick s < as_tick s'" by (auto simp: done_walk_def)
    with Suc.prems(3) [of "as_tick s"] chunk True have "drop (length got) content = []" by (simp add: hash_chunk_def)
    with \<open>b = got\<close> Suc.prems(2) show ?thesis by simp
  next
    case False
    with rest obtain s2 where stop: "cooperative_check env s1 = (Inr (), s2)" and loop: "hash_loop fuel env i (got @ chunk) s2 = (Inr b, s')"
      by (auto simp: bind_walk_Inr)
    have t: "as_tick s < as_tick s2" "as_tick s2 \<le> as_tick s'"
      using looks_D [OF looks_stop stop] looks_D [OF looks_hash loop] s1 by auto
    with Suc.prems(3) [of "as_tick s"] chunk have "chunk = take hash_chunk (drop (length got) content)" by simp
    with Suc.prems(2) have "got @ chunk = take (length (got @ chunk)) content"
      by (metis append_eq_conv_conj append_take_drop_id take_add length_append length_take take_take min.idem)
    from Suc.IH [OF loop this] Suc.prems(3) t show ?thesis by simp
  qed
qed (simp add: raise_walk_def)

text \<open>
  What is known of a deletion: the directory and the name are those of the path, and under that
  name there was, at the moment before, an entry that \<^verbatim>\<open>stat\<close> could not tell from the file that had
  been opened there and whose content, as it was read, has the size and the digest asked for.
\<close>

definition verified_deletion ::
  "cleanup_env \<Rightarrow> string \<Rightarrow> int \<Rightarrow> string \<Rightarrow> nat \<times> inode \<times> string \<Rightarrow> bool" where
  "verified_deletion env artifact sz sha deletion \<longleftrightarrow>
     (case deletion of (n, d, name) \<Rightarrow>
        leads_to (ce_source env) (butlast (pp_segments (pure_path artifact))) d \<and> name = file_name (pure_path artifact) \<and>
        (\<exists>i j m got. m < n \<and> leads_to (ce_source env) (butlast (pp_segments (pure_path artifact)) @ [name]) i \<and>
           st_kind (iw_stat (le_world (ce_source env) m) i) = KindFile \<and>
           int (length got) = sz \<and> ce_sha env got = sha \<and>
           (\<forall>content. (\<forall>k. m \<le> k \<and> k < n \<longrightarrow> iw_bytes (le_world (ce_source env) k) i = content) \<longrightarrow> got = content) \<and>
           map_of (iw_names (le_world (ce_source env) (n - 1)) d) name = Some j \<and>
           same_inode (iw_stat (le_world (ce_source env) m) i) (iw_stat (le_world (ce_source env) (n - 1)) j)))"

lemma on_walk_Inr: "on_walk m s = (Inr a, s') \<longleftrightarrow> (\<exists>w. m (cs_walk s) = (Inr a, w) \<and> s' = s\<lparr>cs_walk := w\<rparr>)"
  by (auto simp: on_walk_def split: prod.splits)

lemma on_walk_rest: "on_walk m s = (r, s') \<Longrightarrow> cs_deleted s' = cs_deleted s \<and> cs_remote s' = cs_remote s"
  by (auto simp: on_walk_def split: prod.splits)

lemma parent_text: "pp_root (pure_path t) \<noteq> [] \<Longrightarrow> pure_path (path_text (parent_path (pure_path t))) = parent_path (pure_path t)"
proof (rule parse_print)
  assume "pp_root (pure_path t) \<noteq> []"
  then have "starts_with [slash] t"
    by (cases t) (auto simp: pure_path_def root_of_def starts_with_def split: if_splits)
  then have "normal_path (pure_path t)" by (rule normal_pure_path)
  then show "normal_path (parent_path (pure_path t))"
    by (auto simp: normal_path_def parent_path_def list_all_iff dest: in_set_butlastD)
qed

lemma open_verified_stat:
  assumes "open_verified_at env d name expected False s = (Inr (i, opened), s')"
  shows "\<exists>m. as_tick s \<le> m \<and> m < as_tick s' \<and> opened = iw_stat (le_world env m) i \<and> st_kind opened = KindFile"
proof -
  from assms obtain s1 where f: "sys_fstat env i s1 = (Inr opened, s')" and k: "st_kind opened = KindFile"
    and o: "sys_open env d name False s = (Inr i, s1)"
    unfolding open_verified_at_def
    by (auto elim!: bind_walk_InrE simp: require_Inr done_walk_def handle_walk_def raise_walk_def
        split: prod.splits sum.splits if_splits)
  from looks_D [OF looks_calls(3) o] have "as_tick s \<le> as_tick s1" by simp
  with f k show ?thesis by (auto simp: sys_fstat_def dest!: system_call_Inr intro!: exI [of _ "as_tick s1"])
qed

lemma ensures_split: "(\<And>a b. ensures P (f a b) E Q) \<Longrightarrow> ensures P (case p of (a, b) \<Rightarrow> f a b) E Q"
  by (cases p) simp

lemma local_cleanup_error:
  "ensures (\<lambda>t. cs_deleted t = D \<and> cs_remote t = R) (cleanup_local fuel env artifact sz sha)
     (\<lambda>t. cs_deleted t = D \<and> cs_remote t = R) (\<lambda>_ t. cs_remote t = R)"
proof -
  let ?I = "\<lambda>t. cs_deleted t = D \<and> cs_remote t = R"
  have walk: "ensures ?I (on_walk m) ?I (\<lambda>_. ?I)" for m :: "'z walk"
    by (auto simp: ensures_def split: sum.splits dest: on_walk_rest)
  have note_it: "ensures ?I (write_eff (\<lambda>s. s\<lparr>cs_deleted := f s\<rparr>)) ?I (\<lambda>_ t. cs_remote t = R)" for f
    by (rule ensures_write) simp
  show ?thesis unfolding cleanup_local_def sys_unlink_def Let_def
    by (intro ensures_bind [OF walk] ensures_split note_it)
qed

lemma local_cleanup_done:
  assumes run: "cleanup_local fuel env artifact sz sha s = (Inr u, s')" and root: "pp_root (pure_path artifact) \<noteq> []"
  shows "\<exists>x. cs_deleted s' = cs_deleted s @ [x] \<and> verified_deletion env artifact sz sha x"
proof -
  let ?src = "ce_source env" and ?name = "file_name (pure_path artifact)" and ?above = "butlast (pp_segments (pure_path artifact))"
  from run obtain d pst s1 entry s2 i opened s3 got s4 current s5 s6 where
      parent: "open_local_root ?src (path_text (parent_path (pure_path artifact))) (cs_walk s) = (Inr (d, pst), s1)"
    and opened: "open_verified_at ?src d ?name entry False s2 = (Inr (i, opened), s3)"
    and hash: "hash_loop fuel ?src i [] s3 = (Inr got, s4)"
    and sums: "int (length got) = sz" "ce_sha env got = sha"
    and current: "sys_stat ?src d ?name s4 = (Inr current, s5)" and same: "same_inode opened current"
    and del: "system_call ?src (\<lambda>w. case map_of (iw_names w d) ?name of None \<Rightarrow> Inl no_entry
       | Some i \<Rightarrow> if st_kind (iw_stat w i) = KindDirectory then Inl (OSError ''IsADirectoryError'') else Inr ()) s5 = (Inr (), s6)"
    and s': "cs_deleted s' = cs_deleted s @ [(as_tick s6 - 1, d, ?name)]"
    unfolding cleanup_local_def sys_unlink_def hash_open_file_def Let_def
    by (auto simp: bind_eff_Inr on_walk_Inr require_Inr bind_walk_Inr done_walk_def)
  from open_root_leads [OF parent] parent_text [OF root] have leads: "leads_to ?src ?above d" by (simp add: parent_path_def)
  from open_verified_stat [OF opened] obtain m where m: "m < as_tick s3" "opened = iw_stat (le_world ?src m) i" "st_kind opened = KindFile"
    by blast
  from current have c: "s5 = s4\<lparr>as_tick := as_tick s4 + 1\<rparr>" "current = iw_stat (le_world ?src (as_tick s4)) j"
      "map_of (iw_names (le_world ?src (as_tick s4)) d) ?name = Some j"
    if "map_of (iw_names (le_world ?src (as_tick s4)) d) ?name = Some j" for j
    using that by (auto simp: sys_stat_def dest!: system_call_Inr)
  from current obtain j where j: "map_of (iw_names (le_world ?src (as_tick s4)) d) ?name = Some j"
    by (auto simp: sys_stat_def dest!: system_call_Inr split: option.splits)
  note c = c [OF j]
  from del c have n: "as_tick s6 - 1 = as_tick s4 + 1" by (auto dest!: system_call_Inr)
  have t: "as_tick s3 \<le> as_tick s4" using looks_D [OF looks_hash hash] by simp
  have read: "got = content" if "\<forall>k. m \<le> k \<and> k < as_tick s4 + 1 \<longrightarrow> iw_bytes (le_world ?src k) i = content" for content
    using m t that by (intro hash_loop_content [OF hash]) auto
  have "verified_deletion env artifact sz sha (as_tick s4 + 1, d, ?name)"
    unfolding verified_deletion_def prod.case
  proof (intro conjI exI)
    show "m < as_tick s4 + 1" using m t by simp
    show "leads_to ?src (?above @ [?name]) i" by (rule open_verified_leads [OF opened leads])
    show "map_of (iw_names (le_world ?src (as_tick s4 + 1 - 1)) d) ?name = Some j" using j by simp
    show "same_inode (iw_stat (le_world ?src m) i) (iw_stat (le_world ?src (as_tick s4 + 1 - 1)) j)" using same c m by simp
    show "\<forall>content. (\<forall>k. m \<le> k \<and> k < as_tick s4 + 1 \<longrightarrow> iw_bytes (le_world ?src k) i = content) \<longrightarrow> got = content" using read by blast
  qed (use leads m sums in simp_all)
  with s' n show ?thesis by auto
qed

text \<open>On a server, a line is sent only over a session with the trusted key.\<close>

definition trusted_session :: "remote_env \<Rightarrow> remote_server \<Rightarrow> bool" where
  "trusted_session env server \<longleftrightarrow> re_connect env \<in> {Connected None, Connected (Some (s_fingerprint server))}"

lemma plain_session_trusted: "plain_session env server cred s = (Inr u, s') \<Longrightarrow> trusted_session env server"
  by (auto simp: plain_session_def bind_eff_Inr trusted_session_def split: connect_end.splits)

lemma sends_plain [simp]: "sends.moves P (plain_session env server cred)"
  unfolding plain_session_def by (intro sends.moves_bind) (auto split: connect_end.splits)

lemma sends_cleanup:
  assumes "\<And>server. d_server source = Some server \<Longrightarrow> Some (s_id server) = d_server_id source \<Longrightarrow> s_enabled server \<Longrightarrow>
    trusted_session env server \<Longrightarrow> P (shlex_join (cleanup_command artifact sz sha))"
  shows "sends.moves P (cleanup_remote env source artifact sz sha)"
proof -
  have "sends.moves P (bind_eff (plain_session env server cred) (\<lambda>_.
      bind_eff (ask (\<lambda>n. re_timeout env n 60)) (\<lambda>_. send_command env False (shlex_join (cleanup_command artifact sz sha)))))"
    if "d_server source = Some server" "Some (s_id server) = d_server_id source" "s_enabled server" for server cred
  proof (rule sends.moves_bind_on)
    fix s u s' assume "plain_session env server cred s = (Inr u, s')"
    with that have "P (shlex_join (cleanup_command artifact sz sha))" using assms plain_session_trusted by blast
    then show "sends.moves P (bind_eff (ask (\<lambda>n. re_timeout env n 60))
        (\<lambda>_. send_command env False (shlex_join (cleanup_command artifact sz sha))))"
      by (intro sends.moves_bind sends_command) simp_all
  qed simp
  note session = this
  show ?thesis
  proof (cases "d_server source")
    case (Some server)
    show ?thesis unfolding cleanup_remote_def Let_def Some option.case
    proof (rule sends.moves_bind_on)
      fix s u s'
      assume "guard_eff (Some (s_id server) = d_server_id source \<and> s_enabled server \<and> s_deleted server = None)
        (PipelineError ''MSSQL_CLEANUP_REMOTE_UNAVAILABLE'' ''trusted MSSQL artifact server is unavailable'') s = (Inr u, s')"
      then show "sends.moves P (bind_eff (ask (\<lambda>n. re_timeout env n 30)) (\<lambda>_.
          bind_eff (catch_eff
              (bind_eff (lift_eff (ssh_credentials_of (re_cipher env) server)) (\<lambda>cred.
               bind_eff (plain_session env server cred) (\<lambda>_.
               bind_eff (ask (\<lambda>n. re_timeout env n 60)) (\<lambda>_.
                 send_command env False (shlex_join (cleanup_command artifact sz sha))))))
              (\<lambda>e. e = builtin_timeout)
              (\<lambda>_. raise_eff (PipelineError ''MSSQL_CLEANUP_TIMEOUT'' ''MSSQL artifact cleanup timed out''))) (\<lambda>(status, out).
            if status \<noteq> 0 then raise_eff (case cleanup_status status of (code, msg) \<Rightarrow> PipelineError code msg)
            else done_eff ())))"
        using session [OF Some]
        by (intro sends.moves_bind [OF sends_ask] sends.moves_bind [OF sends.moves_catch] sends.moves_bind [of _ "lift_eff r" for r])
          (auto intro!: sends.moves_cases)
    qed simp
  qed (simp add: cleanup_remote_def)
qed

lemma visible_path_absolute: "mssql_visible_path source operation = Inr artifact \<Longrightarrow> pp_root (pure_path artifact) \<noteq> []"
proof -
  assume "mssql_visible_path source operation = Inr artifact"
  then obtain base where art: "artifact = mssql_execution_path base operation" and bak: "ends_with ''.bak'' (map lower_char base)"
    and root: "pp_root (pure_path base) \<noteq> []"
    by (auto simp: mssql_visible_path_def split: if_splits option.splits)
  from root obtain r where base: "base = slash # r"
    by (cases base) (auto simp: pure_path_def root_of_def split: if_splits)
  have "4 < length base"
  proof (rule ccontr)
    assume "\<not> 4 < length base"
    with bak have "map lower_char base = ''.bak''" by (auto simp: ends_with_def)
    with base show False by (auto simp: slash_def lower_char_def)
  qed
  with base have "take 1 artifact = [slash]" using bak by (simp add: art mssql_execution_path_def Let_def take_Cons')
  then show ?thesis by (simp add: pure_path_def root_of_def)
qed

text \<open>
  C26. Cleaning up deletes only what was recorded. On this machine at most one name is ever unlinked:
  that of the path fenced by the operation, in the directory it leads to through no link, and
  only after the file found there was read and had the recorded size and digest and the name was
  seen to lead to it still; an error leaves it, a success means that it was unlinked. On another
  machine nothing is sent but the deleting script, with the path, the size and the digest as
  words of their own, to the enabled server of the source that showed the trusted key.
\<close>

theorem cleanup_deletes_only_the_recorded_backup:
  assumes run: "cleanup_artifact fuel env source artifact operation sz sha s = (r, s')"
    and start: "cs_deleted s = []" "rs_sent (cs_remote s) = []"
  shows "(case cs_deleted s' of [] \<Rightarrow> r = Inr () \<longrightarrow> d_server_id source \<noteq> None
      | x # xs \<Rightarrow> xs = [] \<and> r = Inr () \<and> mssql_visible_path source operation = Inr artifact \<and> 0 < sz \<and>
          verified_deletion env artifact sz sha x) \<and>
    (\<forall>line \<in> set (rs_sent (cs_remote s')). \<exists>server. d_server source = Some server \<and> d_server_id source = Some (s_id server) \<and>
       s_enabled server \<and> trusted_session (ce_remote env) server \<and> mssql_visible_path source operation = Inr artifact \<and>
       shell_words line = Some (cleanup_command artifact sz sha))"
proof (cases "mssql_visible_path source operation = Inr artifact \<and> 0 < sz \<and> length sha = 64 \<and> list_all is_hex sha")
  case False
  have walked: "on_walk (lift_walk (mssql_visible_path source operation)) s = (raised (mssql_visible_path source operation), s)"
    by (simp add: on_walk_def lift_walk_def)
  have "s' = s \<and> r \<noteq> Inr ()"
    using run False unfolding cleanup_artifact_def bind_eff_def walked
    by (cases "mssql_visible_path source operation") (auto simp: guard_eff_def split: if_splits)
  with start show ?thesis by simp
next
  case True
  then have rest: "(if d_server_id source \<noteq> None then on_server (cleanup_remote (ce_remote env) source artifact sz sha)
       else cleanup_local fuel env artifact sz sha) s = (r, s')"
    using run by (simp add: cleanup_artifact_def bind_eff_def on_walk_def lift_walk_def guard_eff_def)
  show ?thesis
  proof (cases "d_server_id source = None")
    case local: True
    with rest have run: "cleanup_local fuel env artifact sz sha s = (r, s')" by simp
    have "case r of Inl e \<Rightarrow> cs_deleted s' = [] \<and> cs_remote s' = cs_remote s | Inr u \<Rightarrow> cs_remote s' = cs_remote s"
      using ensures_apply [OF local_cleanup_error [of "[]" "cs_remote s"] _ run] start by simp
    moreover have "\<exists>x. cs_deleted s' = [x] \<and> verified_deletion env artifact sz sha x" if "r = Inr ()"
      using local_cleanup_done [of fuel env artifact sz sha s "()" s'] run that True start visible_path_absolute by auto
    ultimately show ?thesis using True local start by (cases r) auto
  next
    case remote: False
    define P where "P line \<longleftrightarrow> (\<exists>server. d_server source = Some server \<and> d_server_id source = Some (s_id server) \<and>
       s_enabled server \<and> trusted_session (ce_remote env) server \<and> mssql_visible_path source operation = Inr artifact \<and>
       shell_words line = Some (cleanup_command artifact sz sha))" for line
    have moves: "sends.moves P (cleanup_remote (ce_remote env) source artifact sz sha)"
      by (rule sends_cleanup) (use True in \<open>auto simp: P_def shell_words_join\<close>)
    obtain q t where c: "cleanup_remote (ce_remote env) source artifact sz sha (cs_remote s) = (q, t)" by fastforce
    with rest remote have "s' = s\<lparr>cs_remote := t\<rparr>" by (simp add: on_server_def)
    with sends.moves_apply [OF moves c] start remote show ?thesis
      by (auto simp: sends_only_def list_all_iff P_def)
  qed
qed

section \<open>A small server\<close>

definition small_artifact :: string where
  "small_artifact = ''/b/d.'' @ small_fence @ ''.bak''"

definition small_folder :: inode_world where
  "small_folder = \<lparr>iw_stat = (\<lambda>i. \<lparr>st_dev = 1, st_ino = int i, st_kind = (if i < 2 then KindDirectory else KindFile), st_mode = 420,
       st_uid = 0, st_gid = 0, st_size = 3, st_mtime = 7, st_ctime = 7\<rparr>),
     iw_names = (\<lambda>i. if i = 0 then [(''b'', 1)] else [(file_name (pure_path small_artifact), 2)]),
     iw_bytes = (\<lambda>i. ''bak'')\<rparr>"

definition small_machine :: source_env where
  "small_machine = \<lparr>le_world = (\<lambda>_. small_folder), le_root = 0, le_fault = (\<lambda>_. None), le_write = (\<lambda>_. None),
     le_lstat = (\<lambda>_ _. Inl no_entry), le_realpath = (\<lambda>_ p. Inr p), le_access = (\<lambda>_ _. True),
     le_backup = (\<lambda>_ i. (0, Inr (i, True))), le_expires = None, le_mono = (\<lambda>_. 0), le_stop = (\<lambda>_. None),
     le_free = (\<lambda>_. Inr 100000), le_mapper = \<lparr>lm_identity = [], lm_denied = [], lm_mounts = []\<rparr>, le_min_free = 1000,
     le_limits = \<lparr>sl_bytes = 1000, sl_files = 10, sl_file_size = 100, sl_depth = 5\<rparr>\<rparr>"

definition small_cleanup :: cleanup_env where
  "small_cleanup = \<lparr>ce_source = small_machine, ce_remote = small_remote None, ce_sha = (\<lambda>b. replicate 64 (CHR ''0''))\<rparr>"

definition small_target :: database_source where
  "small_target = small_mssql\<lparr>d_backup_path := Some ''/b/d.bak'', d_server_id := None\<rparr>"

definition start_cleanup :: cleanup_state where
  "start_cleanup = \<lparr>cs_walk = fresh_archive, cs_deleted = [], cs_remote = fresh_remote\<rparr>"

lemma small_paths:
  "mssql_visible_path small_target small_fence = Inr small_artifact" "path_text (parent_path (pure_path small_artifact)) = ''/b''"
  "pure_path ''/b'' = \<lparr>pp_root = ''/'', pp_segments = [''b'']\<rparr>"
  by code_simp+

lemma small_deletion:
  "cs_deleted (snd (cleanup_artifact 3 small_cleanup small_target small_artifact small_fence 3 (replicate 64 (CHR ''0'')) start_cleanup)) =
     [(11, 1, file_name (pure_path small_artifact))]"
proof -
  have three: "(3::nat) = Suc (Suc (Suc 0))" by simp
  have "list_all is_hex (replicate 64 (CHR ''0''))" by code_simp
  then show ?thesis
    unfolding cleanup_artifact_def cleanup_local_def sys_unlink_def Let_def small_paths three hash_open_file_def
    by (simp add: small_paths bind_eff_def on_walk_def lift_walk_def guard_eff_def small_target_def open_local_root_def
        bind_walk_def require_def done_walk_def handle_walk_def system_call_def event_def small_cleanup_def small_machine_def
        start_cleanup_def fresh_archive_def sys_stat_def sys_open_def sys_fstat_def sys_read_def small_folder_def open_verified_at_def
        same_inode_def hash_chunk_def cooperative_check_def)
qed

lemma cleanup_deletes_only_the_recorded_backup_witness:
  "fst (cleanup_artifact 3 small_cleanup small_target small_artifact small_fence 3 (replicate 64 (CHR ''0'')) start_cleanup) = Inr () \<and>
   verified_deletion small_cleanup small_artifact 3 (replicate 64 (CHR ''0'')) (11, 1, file_name (pure_path small_artifact))"
proof -
  let ?m = "cleanup_artifact 3 small_cleanup small_target small_artifact small_fence 3 (replicate 64 (CHR ''0'')) start_cleanup"
  have run: "?m = (fst ?m, snd ?m)" by simp
  have "cs_deleted start_cleanup = []" "rs_sent (cs_remote start_cleanup) = []"
    by (simp_all add: start_cleanup_def fresh_remote_def)
  from cleanup_deletes_only_the_recorded_backup [OF run this] small_deletion show ?thesis by simp
qed

end
