(* ===== verification/GitlabRemote.thy ===== *)
theory GitlabRemote
  imports MssqlCleanup
begin

text \<open>
  \<^verbatim>\<open>src/src/pipeline/acquisition/gitlab.py\<close>, a GitLab installation on a trusted server: its own
  backup command is run there, the archive it makes is fetched and checked, and removed on the
  server. Only scripts and commands of fixed shape are sent.
\<close>

section \<open>Backup files\<close>

record backup_file =
  bf_name :: string
  bf_inode :: int
  bf_size :: int
  bf_mtime :: int

text \<open>Directories are dicts by name, in insertion order.\<close>

type_synonym listing = "(string \<times> backup_file) list"

definition new_backups :: "listing \<Rightarrow> listing \<Rightarrow> int \<Rightarrow> backup_file list" where
  "new_backups before after started =
     map snd (filter (\<lambda>(name, item).
       (case map_of before name of None \<Rightarrow> True | Some old \<Rightarrow> bf_inode old \<noteq> bf_inode item) \<and>
       started - 1000000000 \<le> bf_mtime item \<and> 0 < bf_size item) after)"

definition detect_new_backup :: "listing \<Rightarrow> listing \<Rightarrow> int \<Rightarrow> backup_file result" where
  "detect_new_backup before after started =
     (case new_backups before after started of
        [item] \<Rightarrow> Inr item
      | cs \<Rightarrow> Inl (PipelineError ''GITLAB_ARTIFACT_AMBIGUOUS''
          (''expected exactly one new GitLab backup, found '' @ show_nat (length cs))))"

definition gitlab_suffix :: string where
  "gitlab_suffix = ''_gitlab_backup.tar''"

section \<open>The surroundings\<close>

text \<open>
  \<open>ge_loads\<close> is \<^verbatim>\<open>json.loads\<close>, \<open>ge_inode\<close> the content behind an inode of the download,
  \<open>ge_material\<close> the error of making the directory for the key material, if it fails.
\<close>

record gitlab_env =
  ge_remote :: remote_env
  ge_loads :: "string \<Rightarrow> json option"
  ge_inode :: "nat \<Rightarrow> bytes"
  ge_sha :: "bytes \<Rightarrow> string"
  ge_material :: "exn option"
  ge_checks :: nat

text \<open>A computation may run out of fuel, besides raising.\<close>

type_synonym 'a gitlab = "(remote_state, failure, 'a) effect"

definition or_raise :: "'a remote \<Rightarrow> 'a gitlab" where
  "or_raise m s = (case m s of (r, t) \<Rightarrow> (raised r, t))"

section \<open>Operations on the server\<close>

text \<open>A line of a script; a backquote stands for an apostrophe.\<close>

definition script_line :: "string \<Rightarrow> string" where
  "script_line = map (\<lambda>c. if c = CHR ''`'' then CHR 0x27 else c)"

definition gitlab_script :: string where
  "gitlab_script = join_with [newline] (map script_line
     [''import hashlib,json,os,stat,sys'',
      ''operation,root=sys.argv[1:3]'',
      ''suffix=`_gitlab_backup.tar`'',
      ''rootfd=os.open(root,os.O_RDONLY|os.O_DIRECTORY|os.O_NOFOLLOW)'',
      ''try:'',
      ''    if operation == `snapshot`:'',
      ''        result=[]'',
      ''        with os.scandir(rootfd) as entries:'',
      ''            for entry in entries:'',
      ''                info=entry.stat(follow_symlinks=False)'',
      ''                if entry.name.endswith(suffix) and stat.S_ISREG(info.st_mode):'',
      ''                    result.append([entry.name,info.st_ino,info.st_size,info.st_mtime_ns])'',
      ''        print(json.dumps(result,separators=(`,`,`:`)))'',
      ''    else:'',
      ''        name,inode,size,mtime=sys.argv[3:7]'',
      ''        if `/` in name or name in {`.`,`..`} or not name.endswith(suffix):'',
      ''            raise ValueError(`unsafe GitLab artifact name`)'',
      ''        expected=(int(inode),int(size),int(mtime))'',
      ''        descriptor=os.open(name,os.O_RDONLY|os.O_NOFOLLOW,dir_fd=rootfd)'',
      ''        try:'',
      ''            info=os.fstat(descriptor)'',
      ''            actual=(info.st_ino,info.st_size,info.st_mtime_ns)'',
      ''            if not stat.S_ISREG(info.st_mode) or actual != expected:'',
      ''                raise RuntimeError(`GitLab artifact changed`)'',
      ''            if operation == `hash`:'',
      ''                digest=hashlib.sha256()'',
      ''                while chunk := os.read(descriptor,1024*1024): digest.update(chunk)'',
      ''                print(digest.hexdigest())'',
      ''            elif operation == `unlink`:'',
      ''                current=os.stat(name,dir_fd=rootfd,follow_symlinks=False)'',
      ''                actual=(current.st_ino,current.st_size,current.st_mtime_ns)'',
      ''                if not stat.S_ISREG(current.st_mode) or actual != expected:'',
      ''                    raise RuntimeError(`GitLab artifact changed`)'',
      ''                os.unlink(name,dir_fd=rootfd)'',
      ''            else:'',
      ''                raise ValueError(`invalid operation`)'',
      ''        finally:'',
      ''            os.close(descriptor)'',
      ''finally:'',
      ''    os.close(rootfd)''])"

definition operation_command :: "string \<Rightarrow> string \<Rightarrow> backup_file option \<Rightarrow> string list" where
  "operation_command operation root state =
     [''/usr/bin/python3'', ''-c'', python_launcher gitlab_script, operation, root] @
     (case state of None \<Rightarrow> []
      | Some f \<Rightarrow> [bf_name f, show_int (bf_inode f), show_int (bf_size f), show_int (bf_mtime f)])"

definition backup_command :: "string \<Rightarrow> string list" where
  "backup_command container = [''docker'', ''exec'', ''-t'', container, ''gitlab-backup'', ''create'']"

text \<open>A command that must succeed; the errors of the connection become one of ours, after a look at the deadline.\<close>

definition checked_command :: "remote_env \<Rightarrow> string list \<Rightarrow> exn \<Rightarrow> string remote" where
  "checked_command env args failed =
     bind_eff (ask (\<lambda>n. re_timeout env n 3600)) (\<lambda>_.
     bind_eff (catch_eff (send_command env True (shlex_join args)) connection_error
       (\<lambda>_. bind_eff (deadline_check env) (\<lambda>_. raise_eff failed))) (\<lambda>(status, out). done_eff out))"

definition gitlab_operation_failed :: "string \<Rightarrow> exn" where
  "gitlab_operation_failed = PipelineError ''GITLAB_REMOTE_OPERATION_FAILED''"

definition remote_file_operation :: "remote_env \<Rightarrow> string \<Rightarrow> string \<Rightarrow> backup_file option \<Rightarrow> string remote" where
  "remote_file_operation env operation root state =
     bind_eff (checked_command env (operation_command operation root state)
       (gitlab_operation_failed ''remote GitLab artifact operation failed'')) (\<lambda>out. done_eff (strip out))"

definition invoke_remote_backup :: "remote_env \<Rightarrow> string \<Rightarrow> unit remote" where
  "invoke_remote_backup env container =
     bind_eff (lift_eff (validate_docker_container_name container)) (\<lambda>name.
     bind_eff (checked_command env (backup_command name)
       (PipelineError ''GITLAB_BACKUP_FAILED'' ''native GitLab backup command failed'')) (\<lambda>_. done_eff ()))"

text \<open>Reading the listing: iterating over the value, subscripting its items, and what that may raise.\<close>

fun json_items :: "json \<Rightarrow> json list result" where
  "json_items (JList js) = Inr js"
| "json_items (JStr s) = Inr (map (\<lambda>c. JStr [c]) s)"
| "json_items (JObj members) = Inr (map (\<lambda>m. JStr (fst m)) members)"
| "json_items _ = Inl (TypeError ''not iterable'')"

fun json_item :: "json \<Rightarrow> nat \<Rightarrow> json result" where
  "json_item (JList js) k = (if k < length js then Inr (js ! k) else Inl (RuntimeError ''IndexError''))"
| "json_item (JStr s) k = (if k < length s then Inr (JStr [s ! k]) else Inl (RuntimeError ''IndexError''))"
| "json_item (JObj members) k = Inl (KeyError (show_nat k))"
| "json_item _ k = Inl (TypeError ''not subscriptable'')"

definition read_backup_file :: "json \<Rightarrow> backup_file result" where
  "read_backup_file j =
     bind_result (bind_result (json_item j 0) json_str) (\<lambda>name.
     bind_result (bind_result (json_item j 1) json_int) (\<lambda>inode.
     bind_result (bind_result (json_item j 2) json_int) (\<lambda>sz.
     bind_result (bind_result (json_item j 3) json_int) (\<lambda>mtime.
       Inr \<lparr>bf_name = name, bf_inode = inode, bf_size = sz, bf_mtime = mtime\<rparr>))))"

definition invalid_listing :: "exn \<Rightarrow> exn" where
  "invalid_listing e =
     (if is_value_error e \<or> (case e of TypeError _ \<Rightarrow> True | _ \<Rightarrow> e = RuntimeError ''IndexError'')
      then gitlab_operation_failed ''remote GitLab artifact listing was invalid'' else e)"

definition read_listing :: "json option \<Rightarrow> listing result" where
  "read_listing loaded =
     (case bind_result (case loaded of None \<Rightarrow> Inl (ValueError ''JSONDecodeError'') | Some j \<Rightarrow> json_items j) (\<lambda>items.
         bind_result (map_result read_backup_file items) (\<lambda>files.
           Inr (length items, fold (\<lambda>f states. AList.update (bf_name f) f states) files []))) of
        Inl e \<Rightarrow> Inl (invalid_listing e)
      | Inr (n, states) \<Rightarrow> if length states \<noteq> n
          then Inl (PipelineError ''GITLAB_ARTIFACT_AMBIGUOUS'' ''duplicate GitLab artifact names'') else Inr states)"

definition remote_snapshot :: "gitlab_env \<Rightarrow> string \<Rightarrow> listing remote" where
  "remote_snapshot env root =
     bind_eff (remote_file_operation (ge_remote env) ''snapshot'' root None) (\<lambda>raw.
       lift_eff (read_listing (ge_loads env raw)))"

text \<open>
  The loop ends when enough snapshots in a row agree. It is bounded by the deadline of the run
  only, so the recursion is on fuel.
\<close>

fun stable_loop :: "nat \<Rightarrow> gitlab_env \<Rightarrow> string \<Rightarrow> string \<Rightarrow> backup_file option \<Rightarrow> nat \<Rightarrow> backup_file gitlab" where
  "stable_loop 0 env root name previous agreed = raise_eff OutOfFuel"
| "stable_loop (Suc fuel) env root name previous agreed =
     bind_eff (or_raise (remote_snapshot env root)) (\<lambda>states.
       case map_of states name of
         None \<Rightarrow> raise_eff (pipeline_failure ''GITLAB_ARTIFACT_INVALID'' ''GitLab artifact disappeared'')
       | Some current \<Rightarrow>
           if bf_size current \<le> 0
           then raise_eff (pipeline_failure ''GITLAB_ARTIFACT_INVALID'' ''GitLab artifact disappeared'')
           else let now = (if previous = Some current then agreed + 1 else 1)
                in if now < ge_checks env then stable_loop fuel env root name (Some current) now else done_eff current)"

definition remote_stable_file :: "nat \<Rightarrow> gitlab_env \<Rightarrow> string \<Rightarrow> backup_file \<Rightarrow> backup_file gitlab" where
  "remote_stable_file fuel env root expected =
     (if ge_checks env = 0 then raise_eff (Raised (RuntimeError ''UnboundLocalError'') None)
      else stable_loop fuel env root (bf_name expected) None 0)"

section \<open>The acquisition\<close>

definition gitlab_target :: string where
  "gitlab_target = ''source.gitlab.tar''"

text \<open>\<^verbatim>\<open>_hash_file\<close>: the download is opened without following a link.\<close>

definition hash_file :: "gitlab_env \<Rightarrow> (int \<times> string) remote" where
  "hash_file env = read_eff (\<lambda>s. case map_of (rs_tree s) gitlab_target of
     None \<Rightarrow> Inl (OSError ''FileNotFoundError'')
   | Some (FileEntry inode sz) \<Rightarrow> Inr (sz, ge_sha env (ge_inode env inode))
   | Some (LinkEntry _) \<Rightarrow> Inl (OSError ''ELOOP'')
   | Some _ \<Rightarrow> Inl (PipelineError ''GITLAB_ACQUISITION_FAILED'' ''acquired artifact is not a file''))"

text \<open>\<^verbatim>\<open>root / name\<close>\<close>

definition join_path :: "string \<Rightarrow> string \<Rightarrow> string" where
  "join_path root name = path_text (let p = pure_path root; q = pure_path name
     in if pp_root q \<noteq> [] then q else p\<lparr>pp_segments := pp_segments p @ pp_segments q\<rparr>)"

definition gitlab_source_config :: "gitlab_source \<Rightarrow> gitlab_config" where
  "gitlab_source_config x = \<lparr>gc_location = g_location x, gc_container = g_container x, gc_backup_path = g_backup_path x,
     gc_server_id = g_server_id x\<rparr>"

definition remote_gitlab_root :: "gitlab_source \<Rightarrow> (string \<times> remote_server) result" where
  "remote_gitlab_root x =
     bind_result (validate_gitlab (gitlab_source_config x)) (\<lambda>_.
       case g_backup_path x of
         None \<Rightarrow> Inl (PipelineError ''INVALID_PROFILE'' ''remote GitLab backup path is missing'')
       | Some p \<Rightarrow> bind_result (validate_remote_path p) (\<lambda>root.
           if root = ''/'' \<or> file_name (pure_path root) \<in> {''.'', ''..''}
           then Inl (PipelineError ''GITLAB_ROOT_INVALID'' ''remote GitLab backup root is unsafe'')
           else case g_server x of
             None \<Rightarrow> Inl (PipelineError ''INVALID_PROFILE'' ''enabled remote server is missing'')
           | Some server \<Rightarrow> if \<not> s_enabled server \<or> Some (s_id server) \<noteq> g_server_id x
               then Inl (PipelineError ''INVALID_PROFILE'' ''enabled remote server is missing'')
               else Inr (root, server)))"

definition fetch_gitlab_backup ::
  "gitlab_env \<Rightarrow> remote_server \<Rightarrow> ssh_credentials \<Rightarrow> string \<Rightarrow> backup_file \<Rightarrow> (int \<times> string) remote" where
  "fetch_gitlab_backup env server cred root found =
     bind_eff (remote_file_operation (ge_remote env) ''hash'' root (Some found)) (\<lambda>remote_checksum.
     bind_eff (rsync_download (ge_remote env) server cred (join_path root (bf_name found)) gitlab_target True) (\<lambda>_.
     bind_eff (hash_file env) (\<lambda>(sz, checksum).
     bind_eff (if sz \<noteq> bf_size found \<or> checksum \<noteq> remote_checksum
       then bind_eff (write_eff (put_download gitlab_target None)) (\<lambda>_.
         raise_eff (PipelineError ''GITLAB_ACQUISITION_FAILED'' ''GitLab artifact transfer failed validation''))
       else done_eff ()) (\<lambda>_.
     bind_eff (remote_file_operation (ge_remote env) ''unlink'' root (Some found)) (\<lambda>_.
       done_eff (sz, checksum))))))"

definition gitlab_metadata :: "string \<Rightarrow> int \<Rightarrow> string \<Rightarrow> (string \<times> json) list \<Rightarrow> (string \<times> json) list" where
  "gitlab_metadata native sz checksum extra = [(''kind'', JStr ''gitlab'')] @ extra @ [(''native_filename'', JStr native), (''native_size'', JInt sz),
     (''native_sha256'', JStr checksum), (''source_cleanup'', JStr ''succeeded''), (''verified'', JBool True)]"

definition acquire_remote_gitlab :: "nat \<Rightarrow> gitlab_env \<Rightarrow> gitlab_source \<Rightarrow> ((string \<times> json) list \<times> int) gitlab" where
  "acquire_remote_gitlab fuel env x =
     bind_eff (or_raise (lift_eff (remote_gitlab_root x))) (\<lambda>(root, server).
     bind_eff (or_raise (lift_eff (ssh_credentials_of (re_cipher (ge_remote env)) server))) (\<lambda>cred.
     bind_eff (or_raise (lift_eff (case ge_material env of None \<Rightarrow> Inr () | Some e \<Rightarrow> Inl e))) (\<lambda>_.
     bind_eff (or_raise (pinned_session (ge_remote env) server cred False)) (\<lambda>_.
     bind_eff (or_raise (host_key_there (ge_remote env))) (\<lambda>_.
     bind_eff (or_raise (remote_snapshot env root)) (\<lambda>before.
     bind_eff (or_raise (invoke_remote_backup (ge_remote env) (g_container x))) (\<lambda>_.
     bind_eff (or_raise (remote_snapshot env root)) (\<lambda>after.
     bind_eff (or_raise (lift_eff (detect_new_backup before after 0))) (\<lambda>detected.
     bind_eff (remote_stable_file fuel env root detected) (\<lambda>found.
     bind_eff (or_raise (fetch_gitlab_backup env server cred root found)) (\<lambda>(sz, checksum).
       done_eff (gitlab_metadata (bf_name found) sz checksum [(''location'', JStr ''remote'')], sz))))))))))))"

end
