(* ===== verification/GitlabTransfers.thy ===== *)
theory GitlabTransfers
  imports GitlabRemote
begin

text \<open>
  What a GitLab acquisition on a server sends there: nothing but the listing, the backup command
  and the digest of one file, until the archive has arrived and is the one on the server; and that
  waiting for the archive to settle ends with the deadline of the run.
\<close>

section \<open>Effects that also may run out of fuel\<close>

lemma ensures_or_raise: "ensures P m E Q \<Longrightarrow> ensures P (or_raise m) E Q"
proof (rule ensuresI)
  fix s assume m: "ensures P m E Q" and s: "P s"
  obtain r t where "m s = (r, t)" by fastforce
  with ensures_apply [OF m s this] show "case or_raise m s of (Inl e, t) \<Rightarrow> E t | (Inr a, t) \<Rightarrow> Q a t"
    by (cases r) (simp_all add: or_raise_def)
qed

lemma ensures_fact: "(c \<Longrightarrow> ensures P m E Q) \<Longrightarrow> ensures (\<lambda>s. P s \<and> c) m E Q"
  by (auto simp: ensures_def)

lemma ensures_kept: "sends.moves L m \<Longrightarrow> (\<And>s. P s \<longleftrightarrow> list_all L (rs_sent s)) \<Longrightarrow> (\<And>s. P s \<Longrightarrow> E s) \<Longrightarrow> ensures P m E (\<lambda>_. P)"
  by (fastforce simp: ensures_def sends_only_def dest: sends.moves_apply split: sum.splits)

text \<open>A checked command: before it is sent, and from then on.\<close>

lemma ensures_checked:
  assumes "\<And>s n. P s \<Longrightarrow> P (s\<lparr>rs_tick := n\<rparr>)" and "\<And>s. P s \<Longrightarrow> E s" and "\<And>s n. R s \<Longrightarrow> R (s\<lparr>rs_tick := n\<rparr>)"
    and "\<And>s. R s \<Longrightarrow> E s" and sent: "\<And>s. P s \<Longrightarrow> R (s\<lparr>rs_sent := rs_sent s @ [shlex_join args]\<rparr>)"
  shows "ensures P (checked_command env args failed) E
     (\<lambda>out s. R s \<and> (\<exists>n. re_command env n (shlex_join args) = Ran 0 out))"
  unfolding checked_command_def
proof (intro ensures_bind)
  show "ensures P (ask (\<lambda>n. re_timeout env n 3600)) E (\<lambda>_. P)"
    using assms(1,2) by (auto simp: ensures_def ask_def split: sum.splits)
  let ?Q = "\<lambda>(status, out) s. R s \<and> (\<exists>n. re_command env n (shlex_join args) = Ran 0 out)"
  have "ensures P (catch_eff (send_command env True (shlex_join args)) connection_error
      (\<lambda>_. bind_eff (deadline_check env) (\<lambda>_. raise_eff failed))) E ?Q"
  proof (rule ensuresI)
    fix s assume "P s"
    then have r: "R (s\<lparr>rs_sent := rs_sent s @ [shlex_join args], rs_tick := n\<rparr>)" for n using sent assms(3) by blast
    have e: "E (s\<lparr>rs_sent := rs_sent s @ [shlex_join args], rs_tick := n\<rparr>)" for n using r assms(4) by blast
    show "case catch_eff (send_command env True (shlex_join args)) connection_error
        (\<lambda>_. bind_eff (deadline_check env) (\<lambda>_. raise_eff failed)) s of (Inl e, t) \<Rightarrow> E t | (Inr a, t) \<Rightarrow> ?Q a t"
      using r e
      by (cases "re_command env (rs_tick s) (shlex_join args)")
        (auto simp: catch_eff_def send_command_def bind_eff_def ask_def deadline_check_def split: option.splits)
  qed
  then show "ensures P (catch_eff (send_command env True (shlex_join args)) connection_error
      (\<lambda>_. bind_eff (deadline_check env) (\<lambda>_. raise_eff failed))) E ?Q" by (simp add: case_prod_unfold)
  show "ensures (?Q a) (case a of (status, out) \<Rightarrow> done_eff out) E (\<lambda>out s. R s \<and> (\<exists>n. re_command env n (shlex_join args) = Ran 0 out))" for a
    by (cases a) (simp add: ensures_done)
qed

section \<open>Lines\<close>

definition harmless :: "string \<Rightarrow> string \<Rightarrow> string \<Rightarrow> bool" where
  "harmless root container line \<longleftrightarrow> shell_words line = Some (operation_command ''snapshot'' root None) \<or>
     shell_words line = Some (backup_command (strip container)) \<or>
     (\<exists>f. shell_words line = Some (operation_command ''hash'' root (Some f)))"

definition only_looked :: "string \<Rightarrow> string \<Rightarrow> remote_state \<Rightarrow> bool" where
  "only_looked root container s \<longleftrightarrow> list_all (harmless root container) (rs_sent s)"

text \<open>The archive that is removed: it lies at the target, as large as on the server and with the digest reported there.\<close>

definition removed :: "gitlab_env \<Rightarrow> string \<Rightarrow> string \<Rightarrow> backup_file \<Rightarrow> remote_state \<Rightarrow> bool" where
  "removed env root container f s \<longleftrightarrow>
     (\<exists>before. rs_sent s = before @ [shlex_join (operation_command ''unlink'' root (Some f))] \<and>
        list_all (harmless root container) before) \<and>
     (\<exists>inode n out. map_of (rs_tree s) gitlab_target = Some (FileEntry inode (bf_size f)) \<and>
        re_command (ge_remote env) n (shlex_join (operation_command ''hash'' root (Some f))) = Ran 0 out \<and>
        strip out = ge_sha env (ge_inode env inode))"

lemma timeless [simp]:
  "only_looked root container (s\<lparr>rs_tick := n\<rparr>) = only_looked root container s"
  "removed env root container f (s\<lparr>rs_tick := n\<rparr>) = removed env root container f s"
  by (simp_all add: only_looked_def removed_def)

lemma harmless_lines [simp]:
  "harmless root container (shlex_join (operation_command ''snapshot'' root None))"
  "harmless root container (shlex_join (operation_command ''hash'' root (Some f)))"
  "harmless root container (shlex_join (backup_command (strip container)))"
  by (auto simp: harmless_def shell_words_join)

definition until_removal :: "gitlab_env \<Rightarrow> string \<Rightarrow> string \<Rightarrow> remote_state \<Rightarrow> bool" where
  "until_removal env root container s \<longleftrightarrow> only_looked root container s \<or> (\<exists>f. removed env root container f s)"

lemma looked_until: "only_looked root container s \<Longrightarrow> until_removal env root container s"
  by (simp add: until_removal_def)

lemma looking:
  assumes "harmless root container (shlex_join args)"
  shows "ensures (only_looked root container) (checked_command rm args failed) (until_removal env root container)
    (\<lambda>out s. only_looked root container s \<and> (\<exists>n. re_command rm n (shlex_join args) = Ran 0 out))"
  by (rule ensures_checked) (use assms in \<open>auto simp: only_looked_def until_removal_def\<close>)

lemma looking_operation:
  assumes "harmless root container (shlex_join (operation_command operation root state))"
  shows "ensures (only_looked root container) (remote_file_operation rm operation root state) (until_removal env root container)
    (\<lambda>out s. only_looked root container s \<and>
       (\<exists>n raw. re_command rm n (shlex_join (operation_command operation root state)) = Ran 0 raw \<and> out = strip raw))"
  unfolding remote_file_operation_def
  by (rule ensures_bind [OF looking [OF assms]]) (auto intro!: ensures_done)

lemma looking_snapshot:
  "ensures (only_looked root container) (remote_snapshot env root) (until_removal env root container) (\<lambda>_. only_looked root container)"
  unfolding remote_snapshot_def
  by (rule ensures_bind [OF looking_operation]) (auto intro!: ensures_lift simp: until_removal_def)

lemma looking_backup:
  "ensures (only_looked root container) (invoke_remote_backup (ge_remote env) container) (until_removal env root container) (\<lambda>_. only_looked root container)"
  unfolding invoke_remote_backup_def
proof (rule ensures_bind)
  show "ensures (only_looked root container) (lift_eff (validate_docker_container_name container)) (until_removal env root container)
      (\<lambda>name s. only_looked root container s \<and> name = strip container)"
    by (rule ensures_lift) (auto simp: until_removal_def validate_docker_container_name_def Let_def split: if_splits)
  show "ensures (\<lambda>s. only_looked root container s \<and> name = strip container)
      (bind_eff (checked_command (ge_remote env) (backup_command name)
         (PipelineError ''GITLAB_BACKUP_FAILED'' ''native GitLab backup command failed'')) (\<lambda>_. done_eff ()))
      (until_removal env root container) (\<lambda>_. only_looked root container)" for name
    by (rule ensures_fact, rule ensures_bind [OF looking]) (auto intro!: ensures_done)
qed

lemma looking_silently:
  assumes "\<And>L. sends.moves L m"
  shows "ensures (only_looked root container) m (until_removal env root container) (\<lambda>_. only_looked root container)"
  by (rule ensures_kept [OF assms]) (auto simp: only_looked_def until_removal_def)

lemma looking_stable:
  "ensures (only_looked root container) (stable_loop fuel env root name previous agreed) (until_removal env root container)
     (\<lambda>_. only_looked root container)"
proof (induction fuel arbitrary: previous agreed)
  case (Suc fuel)
  then show ?case
    by (auto simp: Let_def looked_until intro!: ensures_bind [OF ensures_or_raise [OF looking_snapshot]] ensures_raise ensures_done
        split: option.split)
qed (auto simp: looked_until intro!: ensures_raise)

section \<open>The transfer\<close>

text \<open>What arrived, and what the server says of the archive.\<close>

definition arrived_whole :: "gitlab_env \<Rightarrow> string \<Rightarrow> backup_file \<Rightarrow> string \<Rightarrow> remote_state \<Rightarrow> bool" where
  "arrived_whole env root f checksum s \<longleftrightarrow>
     (\<exists>inode n out. map_of (rs_tree s) gitlab_target = Some (FileEntry inode (bf_size f)) \<and>
        re_command (ge_remote env) n (shlex_join (operation_command ''hash'' root (Some f))) = Ran 0 out \<and>
        strip out = checksum \<and> checksum = ge_sha env (ge_inode env inode))"

lemma removal:
  "ensures (\<lambda>s. only_looked root container s \<and> arrived_whole env root f checksum s)
     (remote_file_operation (ge_remote env) ''unlink'' root (Some f)) (until_removal env root container)
     (\<lambda>_ s. removed env root container f s \<and> arrived_whole env root f checksum s)"
  unfolding remote_file_operation_def
proof (rule ensures_bind)
  let ?R = "\<lambda>s. removed env root container f s \<and> arrived_whole env root f checksum s"
  show "ensures (\<lambda>s. only_looked root container s \<and> arrived_whole env root f checksum s)
      (checked_command (ge_remote env) (operation_command ''unlink'' root (Some f)) failed) (until_removal env root container)
      (\<lambda>out s. ?R s \<and> (\<exists>n. re_command (ge_remote env) n (shlex_join (operation_command ''unlink'' root (Some f))) = Ran 0 out))"
    for failed
    by (rule ensures_checked) (auto simp: arrived_whole_def only_looked_def removed_def until_removal_def)
qed (auto intro!: ensures_done)

lemma hashed:
  "ensures (only_looked root container) (hash_file env) (until_removal env root container)
     (\<lambda>(sz, checksum) s. only_looked root container s \<and>
        (\<exists>inode. map_of (rs_tree s) gitlab_target = Some (FileEntry inode sz) \<and> checksum = ge_sha env (ge_inode env inode)))"
  unfolding hash_file_def
  by (rule ensures_read) (auto intro: looked_until split: option.splits entry.splits)

text \<open>After the transfer: compare, and remove on the server only what compared equal.\<close>

lemma settled:
  assumes told: "re_command (ge_remote env) n (shlex_join (operation_command ''hash'' root (Some f))) = Ran 0 raw" "said = strip raw"
  shows "ensures (\<lambda>s. only_looked root container s \<and>
      (\<exists>inode. map_of (rs_tree s) gitlab_target = Some (FileEntry inode sz) \<and> checksum = ge_sha env (ge_inode env inode)))
    (bind_eff (if sz \<noteq> bf_size f \<or> checksum \<noteq> said
       then bind_eff (write_eff (put_download gitlab_target None)) (\<lambda>_.
         raise_eff (PipelineError ''GITLAB_ACQUISITION_FAILED'' ''GitLab artifact transfer failed validation''))
       else done_eff ()) (\<lambda>_.
     bind_eff (remote_file_operation (ge_remote env) ''unlink'' root (Some f)) (\<lambda>_. done_eff (sz, checksum))))
    (until_removal env root container)
    (\<lambda>(sz, checksum) s. sz = bf_size f \<and> removed env root container f s \<and> arrived_whole env root f checksum s)"
proof (intro ensures_bind)
  let ?E = "until_removal env root container"
  let ?good = "\<lambda>s. sz = bf_size f \<and> only_looked root container s \<and> arrived_whole env root f checksum s"
  show "ensures (\<lambda>s. only_looked root container s \<and>
        (\<exists>inode. map_of (rs_tree s) gitlab_target = Some (FileEntry inode sz) \<and> checksum = ge_sha env (ge_inode env inode)))
      (if sz \<noteq> bf_size f \<or> checksum \<noteq> said
       then bind_eff (write_eff (put_download gitlab_target None)) (\<lambda>_.
         raise_eff (PipelineError ''GITLAB_ACQUISITION_FAILED'' ''GitLab artifact transfer failed validation''))
       else done_eff ()) ?E (\<lambda>_. ?good)"
    using told by (auto simp: ensures_def bind_eff_def put_download_def arrived_whole_def only_looked_def until_removal_def)
  show "ensures ?good (remote_file_operation (ge_remote env) ''unlink'' root (Some f)) ?E
      (\<lambda>_ s. sz = bf_size f \<and> removed env root container f s \<and> arrived_whole env root f checksum s)"
    using removal [of root container env f checksum] by (auto simp: ensures_def split: sum.splits prod.splits)
  show "ensures (\<lambda>s. sz = bf_size f \<and> removed env root container f s \<and> arrived_whole env root f checksum s) (done_eff (sz, checksum)) ?E
      (\<lambda>(sz, checksum) s. sz = bf_size f \<and> removed env root container f s \<and> arrived_whole env root f checksum s)"
    by (rule ensures_done) simp
qed

lemma transferred:
  "ensures (only_looked root container) (fetch_gitlab_backup env server cred root f) (until_removal env root container)
     (\<lambda>(sz, checksum) s. sz = bf_size f \<and> removed env root container f s \<and> arrived_whole env root f checksum s)"
  unfolding fetch_gitlab_backup_def
proof (rule ensures_bind [OF looking_operation])
  show "harmless root container (shlex_join (operation_command ''hash'' root (Some f)))" by simp
  fix said
  let ?told = "\<exists>n raw. re_command (ge_remote env) n (shlex_join (operation_command ''hash'' root (Some f))) = Ran 0 raw \<and> said = strip raw"
  have rest: "ensures (case a of (sz, checksum) \<Rightarrow> \<lambda>s. only_looked root container s \<and>
        (\<exists>inode. map_of (rs_tree s) gitlab_target = Some (FileEntry inode sz) \<and> checksum = ge_sha env (ge_inode env inode)))
      (case a of (sz, checksum) \<Rightarrow>
         bind_eff (if sz \<noteq> bf_size f \<or> checksum \<noteq> said
           then bind_eff (write_eff (put_download gitlab_target None)) (\<lambda>_.
             raise_eff (PipelineError ''GITLAB_ACQUISITION_FAILED'' ''GitLab artifact transfer failed validation''))
           else done_eff ()) (\<lambda>_.
         bind_eff (remote_file_operation (ge_remote env) ''unlink'' root (Some f)) (\<lambda>_. done_eff (sz, checksum))))
      (until_removal env root container)
      (\<lambda>(sz, checksum) s. sz = bf_size f \<and> removed env root container f s \<and> arrived_whole env root f checksum s)"
    if told: ?told for a
  proof -
    from told obtain n raw where t: "re_command (ge_remote env) n (shlex_join (operation_command ''hash'' root (Some f))) = Ran 0 raw"
      "said = strip raw" by blast
    show ?thesis by (cases a) (simp only: prod.case settled [OF t])
  qed
  show "ensures (\<lambda>s. only_looked root container s \<and> ?told)
     (bind_eff (rsync_download (ge_remote env) server cred (join_path root (bf_name f)) gitlab_target True) (\<lambda>_.
     bind_eff (hash_file env) (\<lambda>(sz, checksum).
     bind_eff (if sz \<noteq> bf_size f \<or> checksum \<noteq> said
       then bind_eff (write_eff (put_download gitlab_target None)) (\<lambda>_.
         raise_eff (PipelineError ''GITLAB_ACQUISITION_FAILED'' ''GitLab artifact transfer failed validation''))
       else done_eff ()) (\<lambda>_.
     bind_eff (remote_file_operation (ge_remote env) ''unlink'' root (Some f)) (\<lambda>_. done_eff (sz, checksum))))))
     (until_removal env root container)
     (\<lambda>(sz, checksum) s. sz = bf_size f \<and> removed env root container f s \<and> arrived_whole env root f checksum s)"
    by (rule ensures_fact, rule ensures_bind [OF looking_silently [OF sends_rsync_download]],
        rule ensures_bind [OF hashed], rule rest)
qed

section \<open>The acquisition\<close>

definition on_the_server :: "nat \<Rightarrow> gitlab_env \<Rightarrow> gitlab_source \<Rightarrow> string \<Rightarrow> remote_server \<Rightarrow> ssh_credentials \<Rightarrow>
    ((string \<times> json) list \<times> int) gitlab" where
  "on_the_server fuel env x root server cred =
     bind_eff (or_raise (remote_snapshot env root)) (\<lambda>before.
     bind_eff (or_raise (invoke_remote_backup (ge_remote env) (g_container x))) (\<lambda>_.
     bind_eff (or_raise (remote_snapshot env root)) (\<lambda>after.
     bind_eff (or_raise (lift_eff (detect_new_backup before after 0))) (\<lambda>detected.
     bind_eff (remote_stable_file fuel env root detected) (\<lambda>found.
     bind_eff (or_raise (fetch_gitlab_backup env server cred root found)) (\<lambda>(sz, checksum).
       done_eff (gitlab_metadata (bf_name found) sz checksum [(''location'', JStr ''remote'')], sz)))))))"

definition gitlab_acquired :: "gitlab_env \<Rightarrow> string \<Rightarrow> string \<Rightarrow> (string \<times> json) list \<times> int \<Rightarrow> remote_state \<Rightarrow> bool" where
  "gitlab_acquired env root container out s \<longleftrightarrow> (\<exists>f checksum. out = (gitlab_metadata (bf_name f) (bf_size f) checksum [(''location'', JStr ''remote'')], bf_size f) \<and>
     removed env root container f s \<and> arrived_whole env root f checksum s)"

lemma looking_plain: "ensures (only_looked root container) (or_raise (lift_eff res)) (until_removal env root container) (\<lambda>_. only_looked root container)"
  by (rule ensures_or_raise, rule ensures_lift) (simp_all add: looked_until)

lemma looking_stable_file:
  "ensures (only_looked root container) (remote_stable_file fuel env root expected) (until_removal env root container)
     (\<lambda>_. only_looked root container)"
  by (auto simp: remote_stable_file_def looked_until intro!: looking_stable ensures_raise)

lemma server_session:
  "ensures (only_looked root (g_container x)) (on_the_server fuel env x root server cred) (until_removal env root (g_container x))
     (gitlab_acquired env root (g_container x))"
  unfolding on_the_server_def
proof (intro ensures_bind [OF ensures_or_raise [OF looking_snapshot]] ensures_bind [OF ensures_or_raise [OF looking_backup]]
    ensures_bind [OF looking_plain] ensures_bind [OF looking_stable_file] ensures_bind [OF ensures_or_raise [OF transferred]])
  fix f :: backup_file and a :: "int \<times> string"
  show "ensures (case a of (sz, checksum) \<Rightarrow> \<lambda>s. sz = bf_size f \<and> removed env root (g_container x) f s \<and> arrived_whole env root f checksum s)
      (case a of (sz, checksum) \<Rightarrow> done_eff (gitlab_metadata (bf_name f) sz checksum [(''location'', JStr ''remote'')], sz))
      (until_removal env root (g_container x)) (gitlab_acquired env root (g_container x))"
  proof (cases a)
    case (Pair sz checksum)
    have "gitlab_acquired env root (g_container x) (gitlab_metadata (bf_name f) sz checksum [(''location'', JStr ''remote'')], sz) s"
      if "sz = bf_size f" "removed env root (g_container x) f s" "arrived_whole env root f checksum s" for s
      unfolding gitlab_acquired_def using that by blast
    then show ?thesis unfolding Pair prod.case by (blast intro: ensures_done)
  qed
qed

text \<open>
  C27. A GitLab archive is removed from its server only when it has been fetched whole. Whatever the
  server answers, it is sent nothing before it has shown the key it is trusted for; then only the
  listing of the directory, the backup command for the container and the digest of a file, until
  possibly one last command removes the very file that lies at the target, with the size it was
  seen to have and the digest the server reported for it. A success means that this happened, and
  reports that size and that digest.
\<close>

theorem gitlab_archive_is_removed_after_its_transfer:
  assumes "acquire_remote_gitlab fuel env x fresh_remote = (r, s')"
  shows "rs_sent s' = [] \<and> (\<exists>e. r = Inl e) \<or>
    (\<exists>root server. remote_gitlab_root x = Inr (root, server) \<and>
       re_connect (ge_remote env) = Connected (Some (s_fingerprint server)) \<and>
       (list_all (harmless root (g_container x)) (rs_sent s') \<and> (\<exists>e. r = Inl e) \<or>
        (\<exists>f. removed env root (g_container x) f s' \<and>
           (case r of Inl e \<Rightarrow> True | Inr (metadata, sz) \<Rightarrow> sz = bf_size f \<and>
              (\<exists>checksum. arrived_whole env root f checksum s' \<and>
                 metadata = gitlab_metadata (bf_name f) sz checksum [(''location'', JStr ''remote'')])))))"
proof (cases "remote_gitlab_root x")
  case (Inl e)
  with assms show ?thesis by (auto simp: acquire_remote_gitlab_def bind_eff_def or_raise_def fresh_remote_def)
next
  case (Inr place)
  then obtain root server where root: "remote_gitlab_root x = Inr (root, server)" by (cases place) auto
  show ?thesis
  proof (cases "ssh_credentials_of (re_cipher (ge_remote env)) server")
    case (Inl e)
    with assms root show ?thesis by (auto simp: acquire_remote_gitlab_def bind_eff_def or_raise_def fresh_remote_def)
  next
    case (Inr cred)
    have first: "acquire_remote_gitlab fuel env x fresh_remote =
        (if ge_material env \<noteq> None then (Inl (Raised (the (ge_material env)) None), fresh_remote)
         else bind_eff (or_raise (open_connection (ge_remote env) server cred False)) (\<lambda>_. on_the_server fuel env x root server cred) fresh_remote)"
      using root Inr
      by (auto simp: acquire_remote_gitlab_def on_the_server_def open_connection_def bind_eff_def or_raise_def split: option.splits prod.splits sum.splits)
    obtain q t where conn: "open_connection (ge_remote env) server cred False fresh_remote = (q, t)" by fastforce
    have silent: "rs_sent t = []"
      using sends.moves_apply [OF sends_connection conn, of "\<lambda>_. False"] by (auto simp: sends_only_def list_all_iff fresh_remote_def)
    show ?thesis
    proof (cases "ge_material env = None \<and> (\<exists>u. q = Inr u)")
      case False
      then show ?thesis using assms conn silent unfolding first
        by (cases q) (auto simp: bind_eff_def or_raise_def fresh_remote_def split: if_splits)
    next
      case True
      then have rest: "on_the_server fuel env x root server cred t = (r, s')"
        using assms conn unfolding first by (auto simp: bind_eff_def or_raise_def)
      have "only_looked root (g_container x) t" using silent by (simp add: only_looked_def)
      note ended = ensures_apply [OF server_session this rest]
      have "re_connect (ge_remote env) = Connected (Some (s_fingerprint server))"
        using True conn open_connection_pinned by blast
      with root ended show ?thesis
        by (cases r) (auto simp: until_removal_def only_looked_def gitlab_acquired_def)
    qed
  qed
qed

section \<open>Waiting ends\<close>

text \<open>Every round asks for its time limit first, so none begins once the run is over.\<close>

interpretation later: progress "\<lambda>s t. rs_tick s \<le> rs_tick t"
  by unfold_locales simp_all

lemma later_command [simp]: "later.moves (checked_command rm args failed)"
  unfolding checked_command_def send_command_def deadline_check_def
  by (intro later.moves_bind later.moves_catch later.moves_write) (auto simp: later.moves_def ask_def split: prod.splits)

lemma later_snapshot [simp]: "later.moves (remote_snapshot env root)"
  unfolding remote_snapshot_def remote_file_operation_def by (intro later.moves_bind) simp_all

lemma snapshot_in_time:
  assumes late: "\<And>n. N \<le> n \<Longrightarrow> \<exists>e. re_timeout (ge_remote env) n 3600 = Inl e" and ok: "remote_snapshot env root s = (Inr states, t)"
  shows "rs_tick s < N \<and> rs_tick s < rs_tick t"
proof -
  from ok obtain out u k where first: "re_timeout (ge_remote env) (rs_tick s) 3600 = Inr k"
    and rest: "catch_eff (send_command (ge_remote env) True (shlex_join (operation_command ''snapshot'' root None))) connection_error
      (\<lambda>_. bind_eff (deadline_check (ge_remote env)) (\<lambda>_. raise_eff (gitlab_operation_failed ''remote GitLab artifact operation failed'')))
      (s\<lparr>rs_tick := rs_tick s + 1\<rparr>) = (Inr out, u)" and t: "t = u"
    by (auto simp: remote_snapshot_def remote_file_operation_def checked_command_def bind_eff_Inr ask_def split: prod.splits)
  have "later.moves (catch_eff (send_command (ge_remote env) True (shlex_join (operation_command ''snapshot'' root None))) connection_error
      (\<lambda>_. bind_eff (deadline_check (ge_remote env)) (\<lambda>_. raise_eff (gitlab_operation_failed ''remote GitLab artifact operation failed''))))"
    unfolding send_command_def deadline_check_def
    by (intro later.moves_bind later.moves_catch later.moves_write) (auto simp: later.moves_def ask_def)
  from later.moves_apply [OF this rest] t have "rs_tick s < rs_tick t" by simp
  moreover have "rs_tick s < N" using late [of "rs_tick s"] first by (cases "N \<le> rs_tick s") auto
  ultimately show ?thesis by simp
qed

lemma stable_loop_ends:
  assumes late: "\<And>n. N \<le> n \<Longrightarrow> \<exists>e. re_timeout (ge_remote env) n 3600 = Inl e" and fuel: "N - rs_tick s < fuel"
  shows "fst (stable_loop fuel env root name previous agreed s) \<noteq> Inl OutOfFuel"
  using fuel
proof (induction fuel arbitrary: s previous agreed)
  case (Suc fuel)
  obtain r t where snap: "remote_snapshot env root s = (r, t)" by fastforce
  show ?case
  proof (cases r)
    case (Inl e)
    then show ?thesis by (simp add: bind_eff_def or_raise_def snap)
  next
    case (Inr states)
    from snapshot_in_time [OF late] snap Inr have "rs_tick s < N" "rs_tick s < rs_tick t" by blast+
    with Suc.prems have "N - rs_tick t < fuel" by linarith
    from Suc.IH [OF this] show ?thesis using Inr
      by (auto simp: bind_eff_def or_raise_def snap Let_def pipeline_failure_def split: option.splits)
  qed
qed simp

lemma raised_or: "fst (or_raise m s) \<noteq> Inl OutOfFuel"
  by (auto simp: or_raise_def raised_fuel split: prod.splits)

lemma acquire_remote_gitlab_ends:
  assumes late: "\<And>n. N \<le> n \<Longrightarrow> \<exists>e. re_timeout (ge_remote env) n 3600 = Inl e" and "N < fuel"
  shows "fst (acquire_remote_gitlab fuel env x s) \<noteq> Inl OutOfFuel"
proof -
  have bind: "fst (bind_eff m f t) \<noteq> Inl OutOfFuel"
    if "\<And>t. fst (m t) \<noteq> Inl OutOfFuel" "\<And>a t. fst (f a t) \<noteq> Inl OutOfFuel"
    for m :: "'c gitlab" and f :: "'c \<Rightarrow> 'd gitlab" and t
    using that by (auto simp: bind_eff_def split: prod.splits sum.splits) (metis fst_conv)+
  have "fst (stable_loop fuel env root name previous agreed t) \<noteq> Inl OutOfFuel" for root name previous agreed t
    using assms by (intro stable_loop_ends [OF late]) auto
  then have "fst (remote_stable_file fuel env root expected t) \<noteq> Inl OutOfFuel" for root expected t
    by (simp add: remote_stable_file_def)
  then show ?thesis unfolding acquire_remote_gitlab_def
    by (intro bind raised_or; (split prod.split)?; (intro allI impI)?; intro bind raised_or; (split prod.split)?; simp add: bind raised_or)
qed

section \<open>A small installation\<close>

definition small_archive :: backup_file where
  "small_archive = \<lparr>bf_name = ''1_gitlab_backup.tar'', bf_inode = 7, bf_size = 3, bf_mtime = 9\<rparr>"

text \<open>The server answers \<open>new\<close> once the backup has run, which is also what the digest is taken to be.\<close>

definition small_gitlab_env :: gitlab_env where
  "small_gitlab_env = \<lparr>ge_remote = (small_remote (Some (FileEntry 1 3)))\<lparr>re_command := (\<lambda>n line. Ran 0 (if n < 4 then ''old'' else ''new''))\<rparr>,
     ge_loads = (\<lambda>raw. Some (JList (if raw = ''old'' then [] else
       [JList [JStr (bf_name small_archive), JInt 7, JInt 3, JInt 9]]))),
     ge_inode = (\<lambda>i. ''tar''), ge_sha = (\<lambda>b. ''new''), ge_material = None, ge_checks = 2\<rparr>"

definition small_gitlab :: gitlab_source where
  "small_gitlab = \<lparr>g_location = RemoteServer, g_server_id = Some 3, g_container = ''gitlab'', g_backup_path = Some ''/b'',
     g_server = Some small_server\<rparr>"

lemma small_gitlab_facts:
  "remote_gitlab_root small_gitlab = Inr (''/b'', small_server)" "strip ''old'' = ''old''" "strip ''new'' = ''new''"
  "validate_remote_path (join_path ''/b'' (bf_name small_archive)) = Inr (join_path ''/b'' (bf_name small_archive))"
  "validate_docker_container_name ''gitlab'' = Inr ''gitlab''" "s_fingerprint small_server = ''SHA256:aa''"
  by code_simp+

lemma small_command:
  "checked_command (ge_remote small_gitlab_env) args failed s = (Inr (if rs_tick s < 3 then ''old'' else ''new''),
     s\<lparr>rs_sent := rs_sent s @ [shlex_join args], rs_tick := rs_tick s + 2\<rparr>)"
  by (simp add: checked_command_def small_gitlab_env_def small_remote_def bind_eff_def ask_def catch_eff_def send_command_def)

lemma small_operation:
  "remote_file_operation (ge_remote small_gitlab_env) operation root state s = (Inr (if rs_tick s < 3 then ''old'' else ''new''),
     s\<lparr>rs_sent := rs_sent s @ [shlex_join (operation_command operation root state)], rs_tick := rs_tick s + 2\<rparr>)"
  by (simp add: remote_file_operation_def bind_eff_def small_command small_gitlab_facts)

lemma small_snapshot:
  "remote_snapshot small_gitlab_env root s = (Inr (if rs_tick s < 3 then [] else [(bf_name small_archive, small_archive)]),
     s\<lparr>rs_sent := rs_sent s @ [shlex_join (operation_command ''snapshot'' root None)], rs_tick := rs_tick s + 2\<rparr>)"
  by (simp add: remote_snapshot_def bind_eff_def small_operation)
    (simp add: small_gitlab_env_def read_listing_def read_backup_file_def small_archive_def)

lemma small_wait:
  assumes "3 \<le> rs_tick s"
  shows "\<exists>t. remote_stable_file 2 small_gitlab_env root small_archive s = (Inr small_archive, t) \<and> 3 \<le> rs_tick t \<and> rs_budget t = rs_budget s"
proof -
  have "ge_checks small_gitlab_env = 2" "0 < bf_size small_archive" by (simp_all add: small_gitlab_env_def small_archive_def)
  then show ?thesis using assms
    by (simp add: remote_stable_file_def numeral_2_eq_2 bind_eff_def or_raise_def small_snapshot)
qed

lemma small_fetch_gitlab:
  assumes "3 \<le> rs_tick s" and "rs_budget s = fresh_budget"
  shows "\<exists>t. fetch_gitlab_backup small_gitlab_env server cred ''/b'' small_archive s = (Inr (3, ''new''), t)"
proof -
  have facts: "bf_size small_archive = 3" "ge_sha small_gitlab_env b = ''new''" for b by (simp_all add: small_archive_def small_gitlab_env_def)
  have gone: "map_of (filter (\<lambda>x. fst x \<noteq> n) xs) n = None" for n and xs :: "(string \<times> entry) list"
    by (induction xs) auto
  have download: "\<exists>u. rsync_download (ge_remote small_gitlab_env) server cred (join_path ''/b'' (bf_name small_archive)) gitlab_target True t = (Inr (3, 1), u) \<and>
      map_of (rs_tree u) gitlab_target = Some (FileEntry 1 3) \<and> rs_tick t \<le> rs_tick u" if "rs_budget t = fresh_budget" for t
    using that
    by (simp add: rsync_download_def small_gitlab_facts bind_eff_def run_rsync_def monitor_download_def put_download_def ask_def
        guard_eff_def small_gitlab_env_def small_remote_def validate_download_def disk_check_def
        if_budget_def validate_file_size_def validate_addition_def commit_budget_def fresh_budget_def guard_result_def commit_scanned_def gone map_add_def)
  let ?t = "s\<lparr>rs_sent := rs_sent s @ [shlex_join (operation_command ''hash'' ''/b'' (Some small_archive))], rs_tick := rs_tick s + 2\<rparr>"
  from download [of ?t] assms(2) obtain u
    where "rsync_download (ge_remote small_gitlab_env) server cred (join_path ''/b'' (bf_name small_archive)) gitlab_target True ?t = (Inr (3, 1), u)"
      "map_of (rs_tree u) gitlab_target = Some (FileEntry 1 3)" "rs_tick ?t \<le> rs_tick u" by auto
  then show ?thesis using assms(1)
    by (simp add: fetch_gitlab_backup_def bind_eff_def small_operation hash_file_def facts)
qed

lemma small_acquisition:
  "\<exists>t. acquire_remote_gitlab 2 small_gitlab_env small_gitlab fresh_remote =
     (Inr (gitlab_metadata (bf_name small_archive) 3 ''new'' [(''location'', JStr ''remote'')], 3), t)"
proof -
  have cred: "\<exists>cred. ssh_credentials_of (re_cipher (ge_remote small_gitlab_env)) small_server = Inr cred"
    using small_credentials by (simp add: small_gitlab_env_def small_remote_def)
  then obtain cred where c: "ssh_credentials_of (re_cipher (ge_remote small_gitlab_env)) small_server = Inr cred" ..
  have container: "g_container small_gitlab = ''gitlab''" "ge_material small_gitlab_env = None"
    by (simp_all add: small_gitlab_def small_gitlab_env_def)
  have session: "pinned_session (ge_remote small_gitlab_env) small_server cred False fresh_remote = (Inr (), fresh_remote\<lparr>rs_tick := 1\<rparr>)"
    by (simp add: pinned_session_def bind_eff_def ask_def small_gitlab_env_def small_remote_def fresh_remote_def guard_eff_def small_gitlab_facts)
  have key: "host_key_there (ge_remote small_gitlab_env) s = (Inr (), s)" for s
    by (simp add: host_key_there_def small_gitlab_env_def small_remote_def)
  have detect: "detect_new_backup [] [(bf_name small_archive, small_archive)] 0 = Inr small_archive"
    by (simp add: detect_new_backup_def new_backups_def small_archive_def)
  let ?s = "fresh_remote\<lparr>rs_sent := rs_sent fresh_remote @ [shlex_join (operation_command ''snapshot'' ''/b'' None)] @ [shlex_join (backup_command ''gitlab'')] @
    [shlex_join (operation_command ''snapshot'' ''/b'' None)], rs_tick := 7\<rparr>"
  obtain t where wait: "remote_stable_file 2 small_gitlab_env ''/b'' small_archive ?s = (Inr small_archive, t)"
    and t: "3 \<le> rs_tick t" "rs_budget t = fresh_budget"
    using small_wait [of ?s "''/b''"] by (auto simp: fresh_remote_def)
  obtain u where fetch: "fetch_gitlab_backup small_gitlab_env small_server cred ''/b'' small_archive t = (Inr (3, ''new''), u)"
    using small_fetch_gitlab [OF t] by blast
  from wait fetch show ?thesis
    by (simp add: acquire_remote_gitlab_def bind_eff_def or_raise_def small_gitlab_facts c container session key small_snapshot
        invoke_remote_backup_def small_command detect del: add_2_eq_Suc add_2_eq_Suc')
qed

lemma gitlab_archive_is_removed_after_its_transfer_witness:
  "\<exists>t f. fst (acquire_remote_gitlab 2 small_gitlab_env small_gitlab fresh_remote) =
       Inr (gitlab_metadata (bf_name small_archive) 3 ''new'' [(''location'', JStr ''remote'')], 3) \<and>
     t = snd (acquire_remote_gitlab 2 small_gitlab_env small_gitlab fresh_remote) \<and> removed small_gitlab_env ''/b'' ''gitlab'' f t \<and> bf_size f = 3"
proof -
  from small_acquisition obtain t where run: "acquire_remote_gitlab 2 small_gitlab_env small_gitlab fresh_remote =
     (Inr (gitlab_metadata (bf_name small_archive) 3 ''new'' [(''location'', JStr ''remote'')], 3), t)" by blast
  have "g_container small_gitlab = ''gitlab''" by (simp add: small_gitlab_def)
  with gitlab_archive_is_removed_after_its_transfer [OF run] run show ?thesis by (auto simp: small_gitlab_facts)
qed

end
