(* ===== verification/Spec2Isabelle.thy ===== *)
theory Spec2Isabelle
  imports Recovery Deadline ScheduleTick RemoteServers Callbacks RateLimit Conversations Transforms WorkerRuns SourceTrees Console RemoteCommands DatabaseDumps MssqlBackups MssqlCleanup GitlabTransfers
begin

text \<open>
  \<^bold>\<open>A backup bot and its worker.\<close> The program (\<^verbatim>\<open>src/src\<close>) is two processes over one PostgreSQL
  database. The \<^emph>\<open>bot\<close> (\<^verbatim>\<open>presentation/telegram\<close>) lets administrators configure backup profiles
  in a Telegram dialogue and start, cancel and retry runs. The \<^emph>\<open>worker\<close> (\<^verbatim>\<open>bootstrap/worker.py\<close>,
  \<^verbatim>\<open>pipeline/\<close>) ticks the schedules, claims queued runs under a lease, acquires the source,
  compresses and encrypts it, publishes the artifact in a spool directory and delivers it part by
  part to the Telegram users who are authorized for the profile. They meet only in the database
  and, for secrets, in the cipher of \<^verbatim>\<open>security/secrets.py\<close>.

  \<^bold>\<open>How it is modelled.\<close> An operation is a function from the state it works on to a result and
  the new state. A result is \<open>Inl\<close> of the Python exception raised or \<open>Inr\<close> of the value returned
  (\<open>Prelude\<close>). The database is a record of tables, a table the list of its rows in insertion order
  (\<open>Database\<close>); a session that fails leaves the tables as the last commit left them. What other
  sessions commit between two statements is an argument of the operations it can disturb, so a
  theorem holds for every interleaving. Instants are integers (microseconds), file sizes are
  integers, file contents are byte strings. Clocks, random tokens, time zones, croniter, AES-GCM,
  asyncssh, the Telegram client, external tools and the kernel are arguments; what is relied on
  about them is a named hypothesis of the theorem concerned.

  \<^bold>\<open>Theories.\<close>

  \<^item> Shared: \<open>Prelude\<close> (exceptions, results, tables, string helpers), \<open>Enums\<close>
    (\<^verbatim>\<open>domain/enums.py\<close>), \<open>Encoding\<close> (base64, ISO instants and JSON members; the locale \<open>codec\<close> and
    its combinators), \<open>Calendar\<close> (\<^verbatim>\<open>datetime\<close>), \<open>Database\<close> (\<^verbatim>\<open>database/models\<close>), \<open>Filesystem\<close>
    (paths and links, \<^verbatim>\<open>pipeline/workspace.py\<close>), \<open>Expiry\<close> (the locale of stores whose items lapse),
    \<open>Effects\<close> (steps that may raise over any state; the locale \<open>progress\<close> and the rules of \<open>ensures\<close>),
    \<open>Quoting\<close> (what is written for shells, clients and servers, and what they read), \<open>Demo\<close> (a
    concrete database for the witnesses).

  \<^item> Configuration: \<open>Admin\<close> (users, roles, access: \<^verbatim>\<open>admin_service.py\<close>, \<^verbatim>\<open>bootstrap_service.py\<close>),
    \<open>SourcePaths\<close> and \<open>ProfileConfig\<close> (\<^verbatim>\<open>profile_config.py\<close>), \<open>Constraints\<close> (the check constraints of
    the tables), \<open>Secrets\<close>, \<open>Profiles\<close> (\<^verbatim>\<open>backup_service.py\<close>), \<open>RemoteServers\<close>
    (\<^verbatim>\<open>remote_server_service.py\<close> and \<^verbatim>\<open>infrastructure/ssh.py\<close>), \<open>Scheduling\<close>, \<open>Planning\<close> and
    \<open>ScheduleTick\<close> (\<^verbatim>\<open>scheduling.py\<close>, \<^verbatim>\<open>pipeline/schedule.py\<close>, \<^verbatim>\<open>settings_service.py\<close>), \<open>Snapshot\<close>
    (\<^verbatim>\<open>run_config.py\<close>: the configuration a run carries), \<open>Console\<close> (all requests of the bot as one
    history).

  \<^item> Runs: \<open>Runs\<close> (\<^verbatim>\<open>pipeline/jobs.py\<close>: enqueue, claim, lease, cancel, retry, purge), \<open>Recovery\<close>
    (\<^verbatim>\<open>recovery.py\<close>), \<open>Deadline\<close>, \<open>Worker\<close>, \<open>WorkerDemo\<close> and \<open>WorkerRuns\<close> (\<^verbatim>\<open>pipeline/worker.py\<close>: the whole
    execution of a run, its failures, its cancellation and its heartbeat).

  \<^item> Data path: \<open>SourceBudget\<close>, \<open>LocalFiles\<close>, \<open>ArchivedSources\<close> and \<open>SourceTrees\<close>
    (\<^verbatim>\<open>acquisition/local_files.py\<close>, \<^verbatim>\<open>sqlite.py\<close>: packing files that may change at every system
    call), \<open>RemoteFiles\<close>, \<open>RemoteArchives\<close> and \<open>RemoteCommands\<close> (\<^verbatim>\<open>acquisition/remote_files.py\<close>: rsync
    from a trusted server), \<open>Databases\<close> and \<open>DatabaseDumps\<close> (\<^verbatim>\<open>mysql.py\<close>, \<^verbatim>\<open>postgres.py\<close>), \<open>Mssql\<close>,
    \<open>MssqlBackups\<close> and \<open>MssqlCleanup\<close> (\<^verbatim>\<open>mssql.py\<close>, \<^verbatim>\<open>mssql_runner.py\<close>), \<open>GitlabRemote\<close> and
    \<open>GitlabTransfers\<close> (\<^verbatim>\<open>gitlab.py\<close>), \<open>Transforms\<close> (\<^verbatim>\<open>transforms.py\<close> and \<^verbatim>\<open>process.py\<close>),
    \<open>Finalize\<close> (\<^verbatim>\<open>finalize.py\<close>: splitting, manifest, verification), \<open>Delivery\<close> (\<^verbatim>\<open>delivery.py\<close>).

  \<^item> Bot runtime: \<open>Callbacks\<close>, \<open>RateLimit\<close>, \<open>ConversationStates\<close>, \<open>Conversations\<close>
    (\<^verbatim>\<open>presentation/telegram/runtime\<close>).

  \<^bold>\<open>What is shown.\<close> About runs: one active run per profile, exclusive leases with fencing after a
  takeover, a lifecycle that every operation and the whole execution of a run refine, and that an
  execution lets go of the run. About data: an archive of local sources is made of snapshots of
  real files below the source and within its limits, and is exactly their listing when they stand
  still; what a server sends is checked before it is packed, and a server is sent nothing but our
  commands, with every path read as one word; dump clients read exactly the credentials of the
  profile and none of them stays behind when its files could be written; an MSSQL backup is recorded as it was fetched and deleted
  only while it is still the one recorded, and a GitLab archive is removed on its server only
  when it has arrived; a stage's output is checked; what is published is what recovery reads back
  and what the database records; every upload goes to a user who is authorized. About configuration: accepted
  input satisfies the table constraints, secrets survive an edit, confined paths stay confined,
  snapshots restore to the configuration, accepted schedules advance and due slots are queued; only
  superadmins manage, and each request is atomic and names who made it.
  About the bot: callbacks are used once by the user they were issued to, rates hold in every
  window, dialogues and secrets are kept per user and lapse. About cleanup: only owned or verified
  files are deleted.

  \<^bold>\<open>Fuel.\<close> \<open>Filesystem.resolve_from\<close> visits at most 4096 components beyond the length of the path, a
  bound on chains of links; a path without links needs its length only (\<open>resolve_plain\<close>).
  \<open>LocalFiles.archive_directory\<close> recurses on fuel; \<open>source_fuel\<close> is two more than the depth limit,
  and \<open>SourceTrees.source_walk_ends\<close> shows that it never runs out. \<open>MssqlCleanup.hash_loop\<close> reads a
  file that may grow meanwhile; if it never exceeds \<open>N\<close> bytes, \<open>N + 1\<close> rounds are enough
  (\<open>MssqlCleanup.cleanup_ends\<close>). \<open>GitlabRemote.stable_loop\<close> waits for an archive to settle; no round
  begins after the deadline of the run (\<open>GitlabTransfers.acquire_remote_gitlab_ends\<close>). Every other
  definition is total by its structure or a measure.

  \<^bold>\<open>Not modelled.\<close> Screens, keyboards and translated texts of the bot, the Telegram client and the
  asyncssh session themselves, database sessions and migrations, logging, environment parsing, the
  health probes of external systems, log output and its redaction, and the acquisition of
  a GitLab backup on this machine with its privileged helper. \<open>Worker\<close> takes the acquisition of a
  source as a parameter; the theories above model what stands behind it.
\<close>

end
